(* ===== verification/Rcr_Prelude.thy ===== *)
theory Rcr_Prelude
  imports Main "HOL-Library.Word"
begin

text \<open>
  Shared vocabulary of the development: machine integer types, the error and
  result types of \<^verbatim>\<open>linux/include/rcr/result.hpp\<close>, byte order helpers used by every
  wire codec, and the generic interfaces (codecs and transition systems) that
  the component theories instantiate.
\<close>

unbundle bit_operations_syntax

type_synonym u8 = "8 word"
type_synonym u16 = "16 word"
type_synonym u32 = "32 word"
type_synonym u64 = "64 word"

text \<open>
  Signed 64-bit time stamps (nanoseconds of the monotonic clock) are unbounded
  integers: signed overflow is undefined behaviour in C++, and the clock values
  of the program stay far below the limit of the type.
\<close>

type_synonym i64 = int

named_theorems rcr_bytes "byte order conversions"
named_theorems rcr_defs "record-level operation definitions"

section \<open>Errors and results\<close>

datatype Errc = Ok | InvalidArgument | NotOpen | IoError | Timeout | WouldBlock
  | Busy | Rejected | Unsupported

datatype Error = Error (err_code: Errc) (err_message: string)

type_synonym 'a Result = "Error + 'a"

fun Errc_to_string :: "Errc \<Rightarrow> string" where
  "Errc_to_string Errc.Ok = ''OK''"
| "Errc_to_string Errc.InvalidArgument = ''INVALID_ARGUMENT''"
| "Errc_to_string Errc.NotOpen = ''NOT_OPEN''"
| "Errc_to_string Errc.IoError = ''IO_ERROR''"
| "Errc_to_string Errc.Timeout = ''TIMEOUT''"
| "Errc_to_string Errc.WouldBlock = ''WOULD_BLOCK''"
| "Errc_to_string Errc.Busy = ''BUSY''"
| "Errc_to_string Errc.Rejected = ''REJECTED''"
| "Errc_to_string Errc.Unsupported = ''UNSUPPORTED''"

definition is_ok :: "'a Result \<Rightarrow> bool" where
  "is_ok r = (case r of Inl _ \<Rightarrow> False | Inr _ \<Rightarrow> True)"

lemma is_ok_simps [simp]: "is_ok (Inr v) = True" "is_ok (Inl e) = False"
  by (simp_all add: is_ok_def)

section \<open>Big-endian 16-bit fields\<close>

definition write_u16_be :: "u8 list \<Rightarrow> nat \<Rightarrow> u16 \<Rightarrow> u8 list" where
  "write_u16_be dest i v =
     dest[i := ucast (drop_bit 8 v AND 0xFF), Suc i := ucast (v AND 0xFF)]"

definition read_u16_be :: "u8 list \<Rightarrow> nat \<Rightarrow> u16" where
  "read_u16_be src i = push_bit 8 (ucast (src ! i)) OR ucast (src ! Suc i)"

lemma low_byte_mask: "(0xFF :: 'a::len word) = mask 8"
  by (simp add: mask_eq_exp_minus_1)

lemma be16_join_split [rcr_bytes]:
  fixes v :: u16
  shows "push_bit 8 (ucast (ucast (drop_bit 8 v AND 0xFF) :: u8)) OR
         (ucast (ucast (v AND 0xFF) :: u8) :: u16) = v"
proof (rule bit_eqI)
  fix n
  assume "possible_bit TYPE(u16) n"
  then have "n < 16" by simp
  then show "bit (push_bit 8 (ucast (ucast (drop_bit 8 v AND 0xFF) :: u8)) OR
         (ucast (ucast (v AND 0xFF) :: u8) :: u16)) n = bit v n"
    by (auto simp: bit_simps low_byte_mask)
qed

lemma be16_high [rcr_bytes]:
  "ucast (drop_bit 8 (push_bit 8 (ucast (a :: u8)) OR ucast (b :: u8) :: u16) AND 0xFF) = a"
proof (rule bit_eqI)
  fix n
  assume "possible_bit TYPE(u8) n"
  then have n: "n < 8" by simp
  then have "\<not> bit b (8 + n)" using bit_imp_le_length by fastforce
  with n show "bit (ucast (drop_bit 8 (push_bit 8 (ucast a) OR ucast b :: u16) AND 0xFF) :: u8) n = bit a n"
    by (auto simp: bit_simps low_byte_mask)
qed

lemma be16_low [rcr_bytes]:
  "ucast ((push_bit 8 (ucast (a :: u8)) OR ucast (b :: u8) :: u16) AND 0xFF) = b"
proof (rule bit_eqI)
  fix n
  assume "possible_bit TYPE(u8) n"
  then have "n < 8" by simp
  then show "bit (ucast ((push_bit 8 (ucast a) OR ucast b :: u16) AND 0xFF) :: u8) n = bit b n"
    by (auto simp: bit_simps low_byte_mask)
qed

lemma read_write_u16_be [simp]: "Suc i < length d \<Longrightarrow> read_u16_be (write_u16_be d i v) i = v"
  by (simp add: read_u16_be_def write_u16_be_def be16_join_split)

lemma nth_write_u16_be_other [simp]: "j \<noteq> i \<Longrightarrow> j \<noteq> Suc i \<Longrightarrow> write_u16_be d i v ! j = d ! j"
  by (simp add: write_u16_be_def)

lemma read_write_u16_be_other [simp]: "j \<noteq> i \<Longrightarrow> j \<noteq> Suc i \<Longrightarrow> Suc j \<noteq> i \<Longrightarrow> read_u16_be (write_u16_be d i v) j = read_u16_be d j"
  by (simp add: write_u16_be_def read_u16_be_def)

lemma read_u16_be_update_other [simp]: "j \<noteq> i \<Longrightarrow> j \<noteq> Suc i \<Longrightarrow> read_u16_be (d[j := x]) i = read_u16_be d i"
  by (simp add: read_u16_be_def)

lemma length_write_u16_be [simp]: "length (write_u16_be d i v) = length d"
  by (simp add: write_u16_be_def)

lemma write_read_u16_be [simp]: "Suc i < length d \<Longrightarrow> write_u16_be d' i (read_u16_be d i) = d'[i := d ! i, Suc i := d ! Suc i]"
  unfolding write_u16_be_def read_u16_be_def by (simp only: be16_high be16_low)

section \<open>Masks and small words\<close>

lemma low_masks:
  "(0x1F :: 'a::len word) = mask 5" "(0x3F :: 'a::len word) = mask 6" "(0x7FF :: 'a::len word) = mask 11"
  by (simp_all add: mask_eq_exp_minus_1)

lemma one_le_word_iff: "(1 :: 'a::len word) \<le> x \<longleftrightarrow> x \<noteq> 0"
  by (simp add: linorder_not_less [symmetric] word_less_1)

lemma word_take_bit_id: "unat n < 2 ^ k \<Longrightarrow> take_bit k n = n" for n :: "'a::len word"
proof -
  assume "unat n < 2 ^ k"
  then have "unat (take_bit k n) = unat n"
    by (simp add: unsigned_take_bit_eq take_bit_nat_eq_self)
  then show ?thesis by (rule unsigned_word_eqI)
qed

lemma word_and_complement:
  fixes b m n :: "'a::len word"
  assumes "b AND m = 0" and "m OR n = - 1"
  shows "b AND n = b"
proof -
  have "b = b AND (m OR n)" using assms(2) by simp
  also have "\<dots> = b AND n" using assms(1) by (simp add: bit.conj_disj_distrib)
  finally show ?thesis by simp
qed

lemma and_one_self: "(b :: u8) AND 0xFE = 0 \<Longrightarrow> b = of_bool (b AND 1 \<noteq> 0)"
  using word_and_complement [of b "0xFE" 1] by (cases "odd b") (auto simp: and_one_eq mod_2_eq_odd)

lemma low_nibble_self: "(b :: u8) AND 0xF0 = 0 \<Longrightarrow> b AND 0x0F = b"
  using word_and_complement [of b "0xF0" "0x0F"] by simp

section \<open>Fixed payloads of eight bytes\<close>

lemma length_eq_8: "length d = 8 \<Longrightarrow> \<exists>a b c e f g h i. d = [a,b,c,e,f,g,h,i]"
  by (auto simp: numeral_eq_Suc length_Suc_conv)

lemma eight_bytes_flags:
  assumes "length d = 8" "d ! Suc 0 = 0" "d ! 0 = x"
  shows "(replicate 8 0)[0 := x, 2 := d ! 2, 3 := d ! 3, 4 := d ! 4, 5 := d ! 5, 6 := d ! 6, 7 := d ! 7] = d"
  using length_eq_8 [OF assms(1)] assms by (auto simp: numeral_eq_Suc)

lemma eight_bytes_reserved_last:
  assumes "length d = 8" "d ! 7 = 0" "d ! 0 = x" "d ! Suc 0 = y"
  shows "(replicate 8 0)[0 := x, Suc 0 := y, 2 := d ! 2, 3 := d ! 3, 4 := d ! 4, 5 := d ! 5, 6 := d ! 6] = d"
  using length_eq_8 [OF assms(1)] assms by (auto simp: numeral_eq_Suc)

lemma eight_bytes_all:
  assumes "length d = 8" "d ! 0 = x" "d ! Suc 0 = y"
  shows "(replicate 8 0)[0 := x, Suc 0 := y, 2 := d ! 2, 3 := d ! 3, 4 := d ! 4, 5 := d ! 5, 6 := d ! 6, 7 := d ! 7] = d"
  using length_eq_8 [OF assms(1)] assms by (auto simp: numeral_eq_Suc)

section \<open>Ring buffer indices\<close>

lemma ring_index_inj:
  fixes h i j n :: nat
  assumes "i < n" and "j < n"
  shows "(h + i) mod n = (h + j) mod n \<longleftrightarrow> i = j"
proof -
  have "i = j" if "(h + j) mod n = (h + i) mod n" "i \<le> j" "j < n" for i j
  proof -
    have "n dvd (h + j) - (h + i)" using that by (subst (asm) mod_eq_dvd_iff_nat) auto
    then have "n dvd j - i" by simp
    then have "j - i = 0" using that nat_dvd_not_less [of "j - i" n] by linarith
    then show "i = j" using that by simp
  qed
  then show ?thesis using assms by (metis nat_le_linear)
qed

lemma ring_index_head:
  fixes h i n :: nat
  assumes "h < n" and "i < n"
  shows "(h + i) mod n = h \<longleftrightarrow> i = 0"
  using ring_index_inj [of i n 0 h] assms by simp

section \<open>Interfaces\<close>

text \<open>
  A wire codec: what the decoder returns on the frames the encoder builds. A
  strict codec decodes nothing else among the canonical frames, so that on those
  the decoder and the encoder are inverse partial functions.
\<close>

locale wire_codec =
  fixes enc :: "'m \<Rightarrow> 'f Result" and dec :: "'f \<Rightarrow> 'm Result"
  assumes dec_enc: "enc m = Inr f \<Longrightarrow> dec f = Inr m"
begin

lemma enc_inj:
  assumes "enc m = Inr f" and "enc m' = Inr f"
  shows "m = m'"
  using dec_enc [OF assms(1)] dec_enc [OF assms(2)] by simp

end

locale strict_codec = wire_codec +
  fixes canon :: "'f \<Rightarrow> bool"
  assumes enc_dec: "canon f \<Longrightarrow> dec f = Inr m \<Longrightarrow> enc m = Inr f"
    and enc_canon: "enc m = Inr f \<Longrightarrow> canon f"
begin

lemma exact: "canon f \<Longrightarrow> dec f = Inr m \<longleftrightarrow> enc m = Inr f"
  using dec_enc enc_dec by blast

lemma enc_iff: "enc m = Inr f \<longleftrightarrow> canon f \<and> dec f = Inr m"
  using dec_enc enc_dec enc_canon by blast

lemma dec_inj:
  assumes "canon f" and "canon f'" and "dec f = Inr m" and "dec f' = Inr m"
  shows "f = f'"
  using enc_dec [OF assms(1,3)] enc_dec [OF assms(2,4)] by simp

end

text \<open>
  A deterministic machine driven by a sequence of operations, with an invariant
  every operation keeps: the invariant holds after every run.
\<close>

locale machine =
  fixes step :: "'op \<Rightarrow> 's \<Rightarrow> 's" and inv :: "'s \<Rightarrow> bool"
  assumes step_inv: "inv s \<Longrightarrow> inv (step op s)"
begin

lemma run_inv: "inv s \<Longrightarrow> inv (fold step ops s)"
  by (induction ops arbitrary: s) (auto intro: step_inv)

end

text \<open>In a run that ends in \<open>P\<close> and did not start there, \<open>P\<close> was entered by some step and held ever since.\<close>

lemma last_entry:
  assumes "\<not> P s" and "P (fold step ops s)"
  shows "\<exists>pre op post. ops = pre @ op # post \<and> \<not> P (fold step pre s) \<and>
     (\<forall>k. P (fold step (take k post) (step op (fold step pre s))))"
  using assms(2)
proof (induction ops rule: rev_induct)
  case (snoc op ops)
  show ?case
  proof (cases "P (fold step ops s)")
    case True
    then obtain pre op' post where ops: "ops = pre @ op' # post" "\<not> P (fold step pre s)"
      "\<forall>k. P (fold step (take k post) (step op' (fold step pre s)))" using snoc.IH by blast
    have "P (fold step (take k (post @ [op])) (step op' (fold step pre s)))" for k
      using ops(1,3) snoc.prems by (cases "k \<le> length post") simp_all
    then show ?thesis using ops(1,2) by (intro exI [of _ pre] exI [of _ op'] exI [of _ "post @ [op]"]) simp
  next
    case False
    then show ?thesis using snoc.prems by (intro exI [of _ ops] exI [of _ op] exI [of _ "[]"]) simp
  qed
qed (use assms(1) in simp)

end
