(* ===== verification/Core_Types.thy ===== *)
theory Core_Types
  imports Rcr_Prelude
begin

text \<open>
  Data model of \<^verbatim>\<open>linux/include/rcr/types.hpp\<close>: the runtime modes, events and fault
  codes with their wire numbers and log names, the in-process output command
  and the classic CAN frame.
\<close>

section \<open>Enumerations\<close>

datatype RuntimeMode = Disabled | Idle | Active | Hold | Fault | EStop

datatype RuntimeEvent = Boot | ActivateRequest | DeactivateRequest | CommandTimeout
  | InterlockLost | InterlockReady | FaultDetected | FaultCleared | EStopTrigger
  | EStopReset | Resume | Hold

datatype FaultCode = NoFault | Watchdog | InputFault | CommLoss | NodeFault
  | ProtocolReject | InterlockLost | Internal | AckTimeout

fun RuntimeMode_code :: "RuntimeMode \<Rightarrow> int" where
  "RuntimeMode_code RuntimeMode.Disabled = 0"
| "RuntimeMode_code RuntimeMode.Idle = 1"
| "RuntimeMode_code RuntimeMode.Active = 2"
| "RuntimeMode_code RuntimeMode.Hold = 3"
| "RuntimeMode_code RuntimeMode.Fault = 4"
| "RuntimeMode_code RuntimeMode.EStop = 5"

fun RuntimeMode_to_string :: "RuntimeMode \<Rightarrow> string" where
  "RuntimeMode_to_string RuntimeMode.Disabled = ''DISABLED''"
| "RuntimeMode_to_string RuntimeMode.Idle = ''IDLE''"
| "RuntimeMode_to_string RuntimeMode.Active = ''ACTIVE''"
| "RuntimeMode_to_string RuntimeMode.Hold = ''HOLD''"
| "RuntimeMode_to_string RuntimeMode.Fault = ''FAULT''"
| "RuntimeMode_to_string RuntimeMode.EStop = ''ESTOP''"

fun RuntimeEvent_to_string :: "RuntimeEvent \<Rightarrow> string" where
  "RuntimeEvent_to_string RuntimeEvent.Boot = ''BOOT''"
| "RuntimeEvent_to_string RuntimeEvent.ActivateRequest = ''ACTIVATE_REQUEST''"
| "RuntimeEvent_to_string RuntimeEvent.DeactivateRequest = ''DEACTIVATE_REQUEST''"
| "RuntimeEvent_to_string RuntimeEvent.CommandTimeout = ''COMMAND_TIMEOUT''"
| "RuntimeEvent_to_string RuntimeEvent.InterlockLost = ''INTERLOCK_LOST''"
| "RuntimeEvent_to_string RuntimeEvent.InterlockReady = ''INTERLOCK_READY''"
| "RuntimeEvent_to_string RuntimeEvent.FaultDetected = ''FAULT_DETECTED''"
| "RuntimeEvent_to_string RuntimeEvent.FaultCleared = ''FAULT_CLEARED''"
| "RuntimeEvent_to_string RuntimeEvent.EStopTrigger = ''ESTOP_TRIGGER''"
| "RuntimeEvent_to_string RuntimeEvent.EStopReset = ''ESTOP_RESET''"
| "RuntimeEvent_to_string RuntimeEvent.Resume = ''RESUME''"
| "RuntimeEvent_to_string RuntimeEvent.Hold = ''HOLD''"

fun FaultCode_code :: "FaultCode \<Rightarrow> int" where
  "FaultCode_code FaultCode.NoFault = 0"
| "FaultCode_code FaultCode.Watchdog = 1"
| "FaultCode_code FaultCode.InputFault = 2"
| "FaultCode_code FaultCode.CommLoss = 3"
| "FaultCode_code FaultCode.NodeFault = 4"
| "FaultCode_code FaultCode.ProtocolReject = 5"
| "FaultCode_code FaultCode.InterlockLost = 6"
| "FaultCode_code FaultCode.Internal = 7"
| "FaultCode_code FaultCode.AckTimeout = 8"

fun FaultCode_to_string :: "FaultCode \<Rightarrow> string" where
  "FaultCode_to_string FaultCode.NoFault = ''NONE''"
| "FaultCode_to_string FaultCode.Watchdog = ''WATCHDOG''"
| "FaultCode_to_string FaultCode.InputFault = ''INPUT_FAULT''"
| "FaultCode_to_string FaultCode.CommLoss = ''COMM_LOSS''"
| "FaultCode_to_string FaultCode.NodeFault = ''NODE_FAULT''"
| "FaultCode_to_string FaultCode.ProtocolReject = ''PROTOCOL_REJECT''"
| "FaultCode_to_string FaultCode.InterlockLost = ''INTERLOCK_LOST''"
| "FaultCode_to_string FaultCode.Internal = ''INTERNAL''"
| "FaultCode_to_string FaultCode.AckTimeout = ''ACK_TIMEOUT''"

section \<open>Output commands and CAN frames\<close>

text \<open>
  \<^verbatim>\<open>OutputCommand\<close> keeps the widths of the C++ struct; the deadline is a signed
  64-bit instant of the monotonic clock. A \<^verbatim>\<open>CanFrame\<close> holds the eight data bytes
  of the C array as a list; \<open>frame_wf\<close> states the fixed array size.
\<close>

record OutputCommand =
  oc_session_id :: u64
  oc_sequence :: u64
  oc_deadline_ns :: i64
  oc_mask :: u32
  oc_values :: u32

record CanFrame =
  can_id :: u32
  can_len :: u8
  can_data :: "u8 list"

definition is_extended :: "CanFrame \<Rightarrow> bool" where
  "is_extended f \<longleftrightarrow> can_id f AND 0x80000000 \<noteq> 0"

definition is_rtr :: "CanFrame \<Rightarrow> bool" where
  "is_rtr f \<longleftrightarrow> can_id f AND 0x40000000 \<noteq> 0"

definition frame_id :: "CanFrame \<Rightarrow> u32" where
  "frame_id f = can_id f AND 0x1FFFFFFF"

definition frame_wf :: "CanFrame \<Rightarrow> bool" where
  "frame_wf f \<longleftrightarrow> length (can_data f) = 8"

section \<open>Distinct log names\<close>

lemma RuntimeMode_to_string_inj: "RuntimeMode_to_string a = RuntimeMode_to_string b \<longleftrightarrow> a = b"
  by (cases a; cases b) auto

lemma RuntimeEvent_to_string_inj: "RuntimeEvent_to_string a = RuntimeEvent_to_string b \<longleftrightarrow> a = b"
  by (cases a; cases b) auto

lemma FaultCode_to_string_inj: "FaultCode_to_string a = FaultCode_to_string b \<longleftrightarrow> a = b"
  by (cases a; cases b) auto

lemma RuntimeMode_code_inj: "RuntimeMode_code a = RuntimeMode_code b \<longleftrightarrow> a = b"
  by (cases a; cases b) auto

lemma FaultCode_code_inj: "FaultCode_code a = FaultCode_code b \<longleftrightarrow> a = b"
  by (cases a; cases b) auto

end
