(* ===== verification/Can_V1.thy ===== *)
theory Can_V1
  imports Core_Types
begin

text \<open>
  The CAN V1 wire codec (\<^verbatim>\<open>linux/include/rcr/can_v1.hpp\<close>, \<^verbatim>\<open>linux/src/can/can_v1.cpp\<close>): the
  four message types, their encoders with argument checks, the strict decoders,
  the dispatcher \<open>decode\<close>, the circular sequence order and the conversion between
  absolute deadlines and relative validity.
\<close>

unbundle bit_operations_syntax

section \<open>Constants and data\<close>

definition kProtocolVersion :: u8 where "kProtocolVersion = 1"
definition kMaxNodeId :: u8 where "kMaxNodeId = 31"
definition kMinValidity10ms :: u8 where "kMinValidity10ms = 1"
definition kMaxValidity10ms :: u8 where "kMaxValidity10ms = 250"
definition kValidityUnitNs :: i64 where "kValidityUnitNs = 10000000"
definition kInputBitPositionReached :: u16 where "kInputBitPositionReached = 1"
definition kCanEffFlag :: u32 where "kCanEffFlag = 0x80000000"
definition kCanRtrFlag :: u32 where "kCanRtrFlag = 0x40000000"
definition kCanSffMask :: u32 where "kCanSffMask = 0x7FF"

lemmas can_v1_consts =
  kProtocolVersion_def kMaxNodeId_def kMinValidity10ms_def kMaxValidity10ms_def
  kCanEffFlag_def kCanRtrFlag_def kCanSffMask_def

datatype Function = Heartbeat | Status | OutputCommand | OutputStatus

fun Function_code :: "Function \<Rightarrow> u8" where
  "Function_code Function.Heartbeat = 1"
| "Function_code Function.Status = 2"
| "Function_code Function.OutputCommand = 3"
| "Function_code Function.OutputStatus = 4"

datatype OutputResult = Applied | StaleSequence | SessionMismatch | Expired | InvalidMask | NotReady

fun OutputResult_code :: "OutputResult \<Rightarrow> u8" where
  "OutputResult_code Applied = 0"
| "OutputResult_code StaleSequence = 1"
| "OutputResult_code SessionMismatch = 2"
| "OutputResult_code Expired = 3"
| "OutputResult_code InvalidMask = 4"
| "OutputResult_code NotReady = 5"

text \<open>\<^verbatim>\<open>static_cast<OutputResult>\<close> of a byte that passed the range check \<open>\<le> 5\<close>.\<close>

definition OutputResult_of_code :: "u8 \<Rightarrow> OutputResult" where
  "OutputResult_of_code r =
     (if r = 0 then Applied else if r = 1 then StaleSequence
      else if r = 2 then SessionMismatch else if r = 3 then Expired
      else if r = 4 then InvalidMask else NotReady)"

record WireHeartbeat =
  hb_node_id :: u8
  hb_boot_id :: u16
  hb_session_id :: u16
  hb_hb_seq :: u16

record WireNodeStatus =
  ns_node_id :: u8
  ns_interlock_ready :: bool
  ns_session_id :: u16
  ns_input_bits :: u16
  ns_fault_code :: u16

record WireOutputCommand =
  wc_node_id :: u8
  wc_mask :: u8
  wc_session_id :: u16
  wc_sequence :: u16
  wc_values :: u8
  wc_validity_10ms :: u8

record WireOutputStatus =
  ws_node_id :: u8
  ws_result :: OutputResult
  ws_session_id :: u16
  ws_sequence :: u16
  ws_output_mirror :: u8

text \<open>
  \<^verbatim>\<open>DecodedMessage\<close> carries a kind tag and one meaningful field; the tagged union it
  emulates is a datatype here.
\<close>

datatype DecodedMessage = DHeartbeat WireHeartbeat | DStatus WireNodeStatus
  | DOutputCommand WireOutputCommand | DOutputStatus WireOutputStatus

section \<open>Identifiers, sequence order, validity\<close>

definition make_can_id :: "Function \<Rightarrow> u8 \<Rightarrow> u32" where
  "make_can_id function node_id =
     push_bit 5 (ucast (Function_code function)) OR (ucast node_id AND 0x1F)"

definition node_id_from_can_id :: "u32 \<Rightarrow> u8" where
  "node_id_from_can_id raw11 = ucast (raw11 AND 0x1F)"

definition function_from_can_id :: "u32 \<Rightarrow> u8" where
  "function_from_can_id raw11 = ucast (drop_bit 5 raw11 AND 0x3F)"

definition seq_newer :: "u16 \<Rightarrow> u16 \<Rightarrow> bool" where
  "seq_newer a b \<longleftrightarrow> a \<noteq> b \<and> sint (a - b) > 0"

definition deadline_from_validity_10ms :: "i64 \<Rightarrow> u8 \<Rightarrow> i64" where
  "deadline_from_validity_10ms receive_monotonic_ns validity_10ms =
     receive_monotonic_ns + uint validity_10ms * kValidityUnitNs"

definition reject :: "string \<Rightarrow> Error" where
  "reject message = Error Errc.Rejected message"

definition invalid :: "string \<Rightarrow> Error" where
  "invalid message = Error Errc.InvalidArgument message"

text \<open>
  The dividend is positive on the branch that divides, so the rounding of \<open>div\<close>
  agrees with the truncating C++ division.
\<close>

definition validity_10ms_from_deadline :: "i64 \<Rightarrow> i64 \<Rightarrow> u8 Result" where
  "validity_10ms_from_deadline now_ns deadline_ns =
     (let remaining = deadline_ns - now_ns in
      if remaining < kValidityUnitNs then Inl (invalid ''deadline remaining below 10 ms'')
      else let units = (remaining + kValidityUnitNs - 1) div kValidityUnitNs in
        if units > uint kMaxValidity10ms then Inl (invalid ''deadline remaining above 2500 ms'')
        else Inr (word_of_int units))"

section \<open>Frame layer checks\<close>

definition check_frame_layer :: "CanFrame \<Rightarrow> Function \<Rightarrow> unit Result" where
  "check_frame_layer frame expected =
     (if can_id frame AND kCanEffFlag \<noteq> 0 then Inl (reject ''extended CAN frame rejected'')
      else if can_id frame AND kCanRtrFlag \<noteq> 0 then Inl (reject ''RTR frame rejected'')
      else if can_len frame \<noteq> 8 then Inl (reject ''CAN V1 requires DLC=8'')
      else let raw11 = can_id frame AND kCanSffMask;
               node = node_id_from_can_id raw11;
               function = function_from_can_id raw11 in
        if node = 0 \<or> node > kMaxNodeId then Inl (reject ''invalid node_id'')
        else if function \<noteq> Function_code expected then Inl (reject ''CAN ID function mismatch'')
        else Inr ())"

definition check_version :: "CanFrame \<Rightarrow> unit Result" where
  "check_version frame =
     (if can_data frame ! 0 \<noteq> kProtocolVersion
      then Inl (reject ''unsupported protocol_version'') else Inr ())"

definition validate_node_id :: "u8 \<Rightarrow> unit Result" where
  "validate_node_id node_id =
     (if node_id = 0 \<or> node_id > kMaxNodeId then Inl (invalid ''node_id must be 1..31'')
      else Inr ())"

definition make_frame :: "Function \<Rightarrow> u8 \<Rightarrow> CanFrame" where
  "make_frame function node_id =
     \<lparr>can_id = make_can_id function node_id, can_len = 8,
      can_data = (replicate 8 0)[0 := kProtocolVersion]\<rparr>"

section \<open>Encoders\<close>

definition encode_heartbeat :: "WireHeartbeat \<Rightarrow> CanFrame Result" where
  "encode_heartbeat msg =
     (case validate_node_id (hb_node_id msg) of Inl e \<Rightarrow> Inl e | Inr _ \<Rightarrow>
      if hb_boot_id msg = 0 then Inl (invalid ''boot_id must be non-zero'')
      else if hb_session_id msg = 0 then Inl (invalid ''session_id must be non-zero'')
      else let frame = make_frame Function.Heartbeat (hb_node_id msg);
               d = write_u16_be (can_data frame) 2 (hb_boot_id msg);
               d = write_u16_be d 4 (hb_session_id msg);
               d = write_u16_be d 6 (hb_hb_seq msg)
           in Inr (frame\<lparr>can_data := d\<rparr>))"

definition encode_node_status :: "WireNodeStatus \<Rightarrow> CanFrame Result" where
  "encode_node_status msg =
     (case validate_node_id (ns_node_id msg) of Inl e \<Rightarrow> Inl e | Inr _ \<Rightarrow>
      if ns_session_id msg = 0 then Inl (invalid ''session_id must be non-zero'')
      else let frame = make_frame Function.Status (ns_node_id msg);
               d = (can_data frame)[1 := (if ns_interlock_ready msg then 1 else 0)];
               d = write_u16_be d 2 (ns_session_id msg);
               d = write_u16_be d 4 (ns_input_bits msg);
               d = write_u16_be d 6 (ns_fault_code msg)
           in Inr (frame\<lparr>can_data := d\<rparr>))"

definition encode_output_command :: "WireOutputCommand \<Rightarrow> CanFrame Result" where
  "encode_output_command msg =
     (case validate_node_id (wc_node_id msg) of Inl e \<Rightarrow> Inl e | Inr _ \<Rightarrow>
      if wc_mask msg = 0 then Inl (invalid ''mask must be non-zero'')
      else if wc_session_id msg = 0 then Inl (invalid ''session_id must be non-zero'')
      else if wc_sequence msg = 0 then Inl (invalid ''sequence must be non-zero'')
      else if wc_validity_10ms msg < kMinValidity10ms \<or> wc_validity_10ms msg > kMaxValidity10ms
        then Inl (invalid ''validity_10ms must be 1..250'')
      else let frame = make_frame Function.OutputCommand (wc_node_id msg);
               d = (can_data frame)[1 := wc_mask msg];
               d = write_u16_be d 2 (wc_session_id msg);
               d = write_u16_be d 4 (wc_sequence msg);
               d = d[6 := wc_values msg, 7 := wc_validity_10ms msg]
           in Inr (frame\<lparr>can_data := d\<rparr>))"

definition encode_output_status :: "WireOutputStatus \<Rightarrow> CanFrame Result" where
  "encode_output_status msg =
     (case validate_node_id (ws_node_id msg) of Inl e \<Rightarrow> Inl e | Inr _ \<Rightarrow>
      if ws_session_id msg = 0 then Inl (invalid ''session_id must be non-zero'')
      else let result = OutputResult_code (ws_result msg) in
        if result > OutputResult_code NotReady then Inl (invalid ''output result is reserved'')
        else let frame = make_frame Function.OutputStatus (ws_node_id msg);
                 d = (can_data frame)[1 := result];
                 d = write_u16_be d 2 (ws_session_id msg);
                 d = write_u16_be d 4 (ws_sequence msg);
                 d = d[6 := ws_output_mirror msg]
             in Inr (frame\<lparr>can_data := d\<rparr>))"

section \<open>Decoders\<close>

definition decode_heartbeat :: "CanFrame \<Rightarrow> WireHeartbeat Result" where
  "decode_heartbeat frame =
     (case check_frame_layer frame Function.Heartbeat of Inl e \<Rightarrow> Inl e | Inr _ \<Rightarrow>
      case check_version frame of Inl e \<Rightarrow> Inl e | Inr _ \<Rightarrow>
      if can_data frame ! 1 \<noteq> 0 then Inl (reject ''heartbeat flags must be zero'')
      else let msg = \<lparr>hb_node_id = node_id_from_can_id (can_id frame AND kCanSffMask),
                      hb_boot_id = read_u16_be (can_data frame) 2,
                      hb_session_id = read_u16_be (can_data frame) 4,
                      hb_hb_seq = read_u16_be (can_data frame) 6\<rparr> in
        if hb_boot_id msg = 0 then Inl (reject ''boot_id must be non-zero'')
        else if hb_session_id msg = 0 then Inl (reject ''session_id must be non-zero'')
        else Inr msg)"

definition decode_node_status :: "CanFrame \<Rightarrow> WireNodeStatus Result" where
  "decode_node_status frame =
     (case check_frame_layer frame Function.Status of Inl e \<Rightarrow> Inl e | Inr _ \<Rightarrow>
      case check_version frame of Inl e \<Rightarrow> Inl e | Inr _ \<Rightarrow>
      if can_data frame ! 1 AND 0xFE \<noteq> 0
        then Inl (reject ''node status reserved flags must be zero'')
      else let msg = \<lparr>ns_node_id = node_id_from_can_id (can_id frame AND kCanSffMask),
                      ns_interlock_ready = (can_data frame ! 1 AND 0x01 \<noteq> 0),
                      ns_session_id = read_u16_be (can_data frame) 2,
                      ns_input_bits = read_u16_be (can_data frame) 4,
                      ns_fault_code = read_u16_be (can_data frame) 6\<rparr> in
        if ns_session_id msg = 0 then Inl (reject ''session_id must be non-zero'')
        else Inr msg)"

definition decode_output_command :: "CanFrame \<Rightarrow> WireOutputCommand Result" where
  "decode_output_command frame =
     (case check_frame_layer frame Function.OutputCommand of Inl e \<Rightarrow> Inl e | Inr _ \<Rightarrow>
      case check_version frame of Inl e \<Rightarrow> Inl e | Inr _ \<Rightarrow>
      let msg = \<lparr>wc_node_id = node_id_from_can_id (can_id frame AND kCanSffMask),
                 wc_mask = can_data frame ! 1,
                 wc_session_id = read_u16_be (can_data frame) 2,
                 wc_sequence = read_u16_be (can_data frame) 4,
                 wc_values = can_data frame ! 6,
                 wc_validity_10ms = can_data frame ! 7\<rparr> in
      if wc_mask msg = 0 then Inl (reject ''mask must be non-zero'')
      else if wc_session_id msg = 0 then Inl (reject ''session_id must be non-zero'')
      else if wc_sequence msg = 0 then Inl (reject ''sequence must be non-zero'')
      else if wc_validity_10ms msg < kMinValidity10ms \<or> wc_validity_10ms msg > kMaxValidity10ms
        then Inl (reject ''validity_10ms must be 1..250'')
      else Inr msg)"

definition decode_output_status :: "CanFrame \<Rightarrow> WireOutputStatus Result" where
  "decode_output_status frame =
     (case check_frame_layer frame Function.OutputStatus of Inl e \<Rightarrow> Inl e | Inr _ \<Rightarrow>
      case check_version frame of Inl e \<Rightarrow> Inl e | Inr _ \<Rightarrow>
      if can_data frame ! 1 AND 0xF0 \<noteq> 0
        then Inl (reject ''output status result high nibble must be zero'')
      else if can_data frame ! 7 \<noteq> 0
        then Inl (reject ''output status reserved byte must be zero'')
      else let result = can_data frame ! 1 AND 0x0F in
        if result > OutputResult_code NotReady then Inl (reject ''output result is reserved'')
        else let msg = \<lparr>ws_node_id = node_id_from_can_id (can_id frame AND kCanSffMask),
                        ws_result = OutputResult_of_code result,
                        ws_session_id = read_u16_be (can_data frame) 2,
                        ws_sequence = read_u16_be (can_data frame) 4,
                        ws_output_mirror = can_data frame ! 6\<rparr> in
          if ws_session_id msg = 0 then Inl (reject ''session_id must be non-zero'')
          else Inr msg)"

definition map_result :: "('a \<Rightarrow> 'b) \<Rightarrow> 'a Result \<Rightarrow> 'b Result" where
  "map_result f r = (case r of Inl e \<Rightarrow> Inl e | Inr v \<Rightarrow> Inr (f v))"

definition decode :: "CanFrame \<Rightarrow> DecodedMessage Result" where
  "decode frame =
     (if can_id frame AND kCanEffFlag \<noteq> 0 then Inl (reject ''extended CAN frame rejected'')
      else if can_id frame AND kCanRtrFlag \<noteq> 0 then Inl (reject ''RTR frame rejected'')
      else if can_len frame \<noteq> 8 then Inl (reject ''CAN V1 requires DLC=8'')
      else let raw11 = can_id frame AND kCanSffMask;
               node = node_id_from_can_id raw11;
               function = function_from_can_id raw11 in
        if node = 0 \<or> node > kMaxNodeId then Inl (reject ''invalid node_id'')
        else if function = Function_code Function.Heartbeat
          then map_result DHeartbeat (decode_heartbeat frame)
        else if function = Function_code Function.Status
          then map_result DStatus (decode_node_status frame)
        else if function = Function_code Function.OutputCommand
          then map_result DOutputCommand (decode_output_command frame)
        else if function = Function_code Function.OutputStatus
          then map_result DOutputStatus (decode_output_status frame)
        else Inl (reject ''unknown CAN function''))"

section \<open>Frames the codec owns\<close>

text \<open>
  The decoders mask the identifier to eleven bits. A canonical frame has nothing
  outside them, and the eight data bytes of the C array.
\<close>

definition canonical_frame :: "CanFrame \<Rightarrow> bool" where
  "canonical_frame f \<longleftrightarrow> frame_wf f \<and> can_id f AND kCanSffMask = can_id f"

text \<open>The encoder that belongs to each kind of decoded message.\<close>

fun encode_message :: "DecodedMessage \<Rightarrow> CanFrame Result" where
  "encode_message (DHeartbeat m) = encode_heartbeat m"
| "encode_message (DStatus m) = encode_node_status m"
| "encode_message (DOutputCommand m) = encode_output_command m"
| "encode_message (DOutputStatus m) = encode_output_status m"

section \<open>Identifiers\<close>

lemma node_id_take_bit: "n \<le> (31 :: u8) \<Longrightarrow> take_bit 5 n = n"
  by (rule word_take_bit_id) (simp add: word_le_nat_alt)

lemma node_id_bit: "n \<le> (31 :: u8) \<Longrightarrow> bit n k \<Longrightarrow> k < 5"
  using node_id_take_bit [of n] by (metis bit_take_bit_iff)

lemma node_id_make_can_id:
  assumes "n \<le> 31"
  shows "node_id_from_can_id (make_can_id f n AND kCanSffMask) = n"
proof (rule bit_eqI)
  fix k
  show "bit (node_id_from_can_id (make_can_id f n AND kCanSffMask)) k = bit n k"
    using node_id_bit [OF assms, of k]
    by (auto simp: node_id_from_can_id_def make_can_id_def kCanSffMask_def low_masks bit_simps)
qed

lemma function_make_can_id:
  "function_from_can_id (make_can_id f n AND kCanSffMask) = Function_code f"
    by (cases f) (simp_all add: function_from_can_id_def make_can_id_def kCanSffMask_def drop_bit_and)

lemma make_can_id_no_flags:
  "make_can_id f n AND kCanEffFlag = 0" "make_can_id f n AND kCanRtrFlag = 0"
  by (cases f; simp add: make_can_id_def kCanEffFlag_def kCanRtrFlag_def and.assoc bit.conj_disj_distrib2)+

lemma make_can_id_from_can_id:
  assumes "i AND kCanSffMask = i" and "function_from_can_id i = Function_code f"
  shows "make_can_id f (node_id_from_can_id i) = i"
proof (rule bit_eqI)
  fix k
  have "bit i k \<Longrightarrow> k < 11"
    using assms(1) by (metis bit_and_iff bit_mask_iff kCanSffMask_def low_masks(3))
  then show "bit (make_can_id f (node_id_from_can_id i)) k = bit i k"
    unfolding make_can_id_def assms(2) [symmetric] function_from_can_id_def node_id_from_can_id_def
    by (auto simp: bit_simps low_masks)
qed

lemma check_frame_layer_make:
  "n \<noteq> 0 \<Longrightarrow> n \<le> 31 \<Longrightarrow>
   check_frame_layer \<lparr>can_id = make_can_id f n, can_len = 8, can_data = d\<rparr> f = Inr ()"
  by (simp add: check_frame_layer_def make_can_id_no_flags node_id_make_can_id
     function_make_can_id kMaxNodeId_def Let_def)

lemma check_frame_layer_Inr:
  "check_frame_layer f fn = Inr u \<longleftrightarrow> can_id f AND kCanEffFlag = 0 \<and> can_id f AND kCanRtrFlag = 0 \<and>
     can_len f = 8 \<and> node_id_from_can_id (can_id f AND kCanSffMask) \<noteq> 0 \<and>
     node_id_from_can_id (can_id f AND kCanSffMask) \<le> kMaxNodeId \<and>
     function_from_can_id (can_id f AND kCanSffMask) = Function_code fn"
  by (auto simp: check_frame_layer_def Let_def)

lemma OutputResult_code_roundtrip [simp]: "OutputResult_of_code (OutputResult_code r) = r"
  by (cases r) (simp_all add: OutputResult_of_code_def)

lemma OutputResult_code_bounds [simp]:
  "OutputResult_code r \<le> 5" "OutputResult_code r AND 0xF0 = 0" "OutputResult_code r AND 0x0F = OutputResult_code r"
  by (cases r; simp)+

lemma OutputResult_of_code_code:
  assumes "c \<le> 5"
  shows "OutputResult_code (OutputResult_of_code c) = c"
proof -
  have c: "c = of_nat (unat c)" by simp
  have "unat c \<le> 5" using assms by (simp add: word_le_nat_alt)
  then have "unat c \<in> {0, 1, 2, 3, 4, 5}" by auto
  then have "c \<in> of_nat ` {0, 1, 2, 3, 4, 5}" using c by blast
  then show ?thesis by (auto simp: OutputResult_of_code_def)
qed

section \<open>Round trips\<close>

lemmas codec_simps = validate_node_id_def Let_def check_frame_layer_make check_version_def
  make_frame_def node_id_make_can_id not_less
  kProtocolVersion_def kMaxNodeId_def kMinValidity10ms_def kMaxValidity10ms_def

lemma decode_encode_heartbeat:
  "encode_heartbeat m = Inr f \<Longrightarrow> decode_heartbeat f = Inr m"
  by (cases m) (auto simp: encode_heartbeat_def decode_heartbeat_def codec_simps split: if_splits)

lemma decode_encode_node_status:
  "encode_node_status m = Inr f \<Longrightarrow> decode_node_status f = Inr m"
  by (cases m) (auto simp: encode_node_status_def decode_node_status_def codec_simps split: if_splits)

lemma decode_encode_output_command:
  "encode_output_command m = Inr f \<Longrightarrow> decode_output_command f = Inr m"
  by (cases m) (auto simp: encode_output_command_def decode_output_command_def codec_simps split: if_splits)

lemma decode_encode_output_status:
  "encode_output_status m = Inr f \<Longrightarrow> decode_output_status f = Inr m"
  by (cases m) (auto simp: encode_output_status_def decode_output_status_def codec_simps split: if_splits)

lemmas decoder_simps = check_version_def kProtocolVersion_def kMinValidity10ms_def kMaxValidity10ms_def kMaxNodeId_def
   Let_def frame_wf_def canonical_frame_def check_frame_layer_Inr validate_node_id_def not_less make_frame_def make_can_id_from_can_id

lemma encode_decode_heartbeat:
  "canonical_frame f \<Longrightarrow> decode_heartbeat f = Inr m \<Longrightarrow> encode_heartbeat m = Inr f"
  by (cases f) (auto simp: encode_heartbeat_def decode_heartbeat_def decoder_simps eight_bytes_flags split: if_splits sum.splits)

lemma encode_decode_node_status:
  assumes "canonical_frame f" "decode_node_status f = Inr m" 
  shows "encode_node_status m = Inr f"
proof -
  have b: "can_data f ! 1 AND 0xFE = 0"
    using assms by (auto simp: decode_node_status_def split: sum.splits if_splits)
  show ?thesis using assms and_one_self [OF b]
    by (cases f) (auto simp: encode_node_status_def decode_node_status_def decoder_simps eight_bytes_all split: if_splits sum.splits)
qed

lemma encode_decode_output_command:
  "canonical_frame f \<Longrightarrow> decode_output_command f = Inr m \<Longrightarrow> encode_output_command m = Inr f"
  by (cases f) (auto simp: encode_output_command_def decode_output_command_def decoder_simps eight_bytes_all  split: if_splits sum.splits)

lemma encode_decode_output_status:
  assumes "canonical_frame f" "decode_output_status f = Inr m"
  shows "encode_output_status m = Inr f"
proof -
  have b: "can_data f ! 1 AND 0xF0 = 0"
    using assms by (auto simp: decode_output_status_def split: sum.splits if_splits)
  show ?thesis using assms low_nibble_self [OF b]
  by (cases f) (auto simp: encode_output_status_def decode_output_status_def decoder_simps OutputResult_of_code_code eight_bytes_reserved_last  split: if_splits sum.splits)
qed

lemma make_can_id_sff: "make_can_id f n AND kCanSffMask = make_can_id f n"
  by (cases f) (simp_all add: make_can_id_def kCanSffMask_def and.assoc bit.conj_disj_distrib2)

lemmas encoder_simps = canonical_frame_def frame_wf_def make_frame_def validate_node_id_def
  make_can_id_sff Let_def

lemma encode_heartbeat_canonical: "encode_heartbeat m = Inr f \<Longrightarrow> canonical_frame f"
  by (auto simp: encode_heartbeat_def encoder_simps split: if_splits)

lemma encode_node_status_canonical: "encode_node_status m = Inr f \<Longrightarrow> canonical_frame f"
  by (auto simp: encode_node_status_def encoder_simps split: if_splits)

lemma encode_output_command_canonical: "encode_output_command m = Inr f \<Longrightarrow> canonical_frame f"
  by (auto simp: encode_output_command_def encoder_simps split: if_splits)

lemma encode_output_status_canonical: "encode_output_status m = Inr f \<Longrightarrow> canonical_frame f"
  by (auto simp: encode_output_status_def encoder_simps split: if_splits)

interpretation hb: strict_codec encode_heartbeat decode_heartbeat canonical_frame
  by unfold_locales
    (fact decode_encode_heartbeat encode_decode_heartbeat encode_heartbeat_canonical)+

interpretation ns: strict_codec encode_node_status decode_node_status canonical_frame
  by unfold_locales
    (fact decode_encode_node_status encode_decode_node_status encode_node_status_canonical)+

interpretation oc: strict_codec encode_output_command decode_output_command canonical_frame
  by unfold_locales
    (fact decode_encode_output_command encode_decode_output_command encode_output_command_canonical)+

interpretation os: strict_codec encode_output_status decode_output_status canonical_frame
  by unfold_locales
    (fact decode_encode_output_status encode_decode_output_status encode_output_status_canonical)+

section \<open>The dispatcher\<close>

lemma decoders_frame_layer:
  "decode_heartbeat f = Inr m1 \<Longrightarrow> check_frame_layer f Function.Heartbeat = Inr ()"
  "decode_node_status f = Inr m2 \<Longrightarrow> check_frame_layer f Function.Status = Inr ()"
  "decode_output_command f = Inr m3 \<Longrightarrow> check_frame_layer f Function.OutputCommand = Inr ()"
  "decode_output_status f = Inr m4 \<Longrightarrow> check_frame_layer f Function.OutputStatus = Inr ()"
  by (auto simp: decode_heartbeat_def decode_node_status_def decode_output_command_def
      decode_output_status_def split: sum.splits)

lemma map_result_Inr: "map_result g r = Inr v \<longleftrightarrow> (\<exists>x. r = Inr x \<and> v = g x)"
  by (auto simp: map_result_def split: sum.splits)

lemma decode_Inr:
  "decode f = Inr msg \<longleftrightarrow>
     (case msg of DHeartbeat m \<Rightarrow> decode_heartbeat f = Inr m
      | DStatus m \<Rightarrow> decode_node_status f = Inr m
      | DOutputCommand m \<Rightarrow> decode_output_command f = Inr m
      | DOutputStatus m \<Rightarrow> decode_output_status f = Inr m)"
  by (auto simp: decode_def Let_def map_result_Inr check_frame_layer_Inr
      dest!: decoders_frame_layer split: DecodedMessage.splits)

lemma decode_encode_message: "encode_message msg = Inr f \<Longrightarrow> decode f = Inr msg"
  by (cases msg) (auto simp: decode_Inr hb.dec_enc ns.dec_enc oc.dec_enc os.dec_enc)

lemma encode_decode_message: "canonical_frame f \<Longrightarrow> decode f = Inr msg \<Longrightarrow> encode_message msg = Inr f"
  by (cases msg) (auto simp: decode_Inr hb.enc_dec ns.enc_dec oc.enc_dec os.enc_dec)

lemma encode_message_canonical: "encode_message msg = Inr f \<Longrightarrow> canonical_frame f"
  by (cases msg) (auto intro: hb.enc_canon ns.enc_canon oc.enc_canon os.enc_canon)

interpretation bus: strict_codec encode_message decode canonical_frame
  by unfold_locales (fact decode_encode_message encode_decode_message encode_message_canonical)+

section \<open>Sequence order\<close>

text \<open>The forward distance on the 16-bit circle decides which sequence is newer.\<close>

lemma centred_mod_positive:
  fixes d :: int
  assumes "0 \<le> d" and "d < 65536"
  shows "(d + 32768) mod 65536 - 32768 = (if d < 32768 then d else d - 65536)"
proof (cases "d < 32768")
  case True
  then show ?thesis using assms by simp
next
  case False
  have "(d + 32768) mod 65536 = (d - 32768 + 65536) mod 65536" by (simp add: add.commute)
  also have "\<dots> = d - 32768"
    unfolding mod_add_self2 using False assms by simp
  finally show ?thesis using False by simp
qed

lemma seq_newer_uint:
  "seq_newer a b \<longleftrightarrow> 0 < (uint a - uint b) mod 65536 \<and> (uint a - uint b) mod 65536 < 32768"
proof -
  have u: "uint (a - b) = (uint a - uint b) mod 65536"
    by (simp add: uint_word_ariths)
  have b: "0 \<le> uint (a - b)" "uint (a - b) < 65536"
    using uint_bounded [of "a - b"] by simp_all
  have "sint (a - b) = (uint (a - b) + 32768) mod 65536 - 32768"
    by (simp add: sint_uint signed_take_bit_eq_take_bit_shift take_bit_eq_mod)
  also note centred_mod_positive [OF b]
  finally have s: "sint (a - b) = (if uint (a - b) < 32768 then uint (a - b) else uint (a - b) - 65536)" .
  have "uint (a - b) = 0 \<longleftrightarrow> a = b" by (simp add: uint_0_iff)
  then show ?thesis
    unfolding seq_newer_def s u [symmetric] using b by auto
qed

lemma seq_newer_unat:
  "seq_newer a b \<longleftrightarrow> unat (a - b) \<in> {1..<32768}"
proof -
  have "uint (a - b) = (uint a - uint b) mod 65536"
    by (simp add: uint_word_ariths)
  then show ?thesis
    by (auto simp: seq_newer_uint unat_eq_nat_uint nat_less_iff)
qed

lemma seq_newer_swap:
  "a \<noteq> b \<Longrightarrow> seq_newer b a \<longleftrightarrow> 32768 < (uint a - uint b) mod 65536"
proof -
  assume "a \<noteq> b"
  then have "uint (a - b) \<noteq> 0" by (simp add: uint_0_iff)
  then have "(uint a - uint b) mod 65536 \<noteq> 0" by (simp add: uint_word_ariths)
  moreover have "0 \<le> (uint a - uint b) mod 65536" "(uint a - uint b) mod 65536 < 65536"
    by simp_all
  ultimately show ?thesis
    using zmod_zminus1_eq_if [of "uint a - uint b" 65536] by (auto simp: seq_newer_uint)
qed

lemma seq_newer_asym: "seq_newer a b \<Longrightarrow> \<not> seq_newer b a"
  using seq_newer_swap [of a b] seq_newer_uint [of a b] by (cases "a = b") auto

lemma seq_newer_total:
  assumes "a \<noteq> b" and "\<not> seq_newer a b" and "\<not> seq_newer b a"
  shows "a - b = 0x8000"
proof -
  have "uint (a - b) \<noteq> 0" using assms(1) by (simp add: uint_0_iff)
  then have "0 < uint (a - b)" using uint_ge_0 [of "a - b"] by linarith
  then have "uint (a - b) = 32768"
    using assms seq_newer_uint [of a b] seq_newer_swap [of a b] by (simp add: uint_word_ariths)
  then show ?thesis by (intro word_uint_eqI) simp
qed

lemma seq_newer_irrefl [simp]: "\<not> seq_newer a a"
  by (simp add: seq_newer_def)

section \<open>Validity\<close>

lemma ceil_div_bounds:
  fixes r u :: int
  assumes "0 < u"
  shows "r \<le> (r + u - 1) div u * u" and "(r + u - 1) div u * u < r + u"
proof -
  have "(r + u - 1) div u * u = (r + u - 1) - (r + u - 1) mod u"
    by (simp add: minus_mod_eq_div_mult)
  moreover have "0 \<le> (r + u - 1) mod u" "(r + u - 1) mod u < u" using assms by simp_all
  ultimately show "r \<le> (r + u - 1) div u * u" "(r + u - 1) div u * u < r + u" by linarith+
qed

lemma validity_Inr:
  assumes "validity_10ms_from_deadline now_ns deadline_ns = Inr v"
  shows "uint v = (deadline_ns - now_ns + kValidityUnitNs - 1) div kValidityUnitNs"
    and "1 \<le> v" and "v \<le> 250"
proof -
  let ?u = "(deadline_ns - now_ns + kValidityUnitNs - 1) div kValidityUnitNs"
  have v: "v = word_of_int ?u" and hi: "?u \<le> 250" and lo: "kValidityUnitNs \<le> deadline_ns - now_ns"
    using assms by (auto simp: validity_10ms_from_deadline_def Let_def kMaxValidity10ms_def split: if_splits)
  have "1 \<le> ?u" using lo by (simp add: kValidityUnitNs_def)
  with hi show u: "uint v = ?u"
    unfolding v by (simp add: uint_word_of_int)
  show "1 \<le> v" "v \<le> 250"
    using u hi \<open>1 \<le> ?u\<close> by (simp_all add: word_le_def)
qed

section \<open>Properties\<close>

text \<open>
  C14. On frames without identifier bits outside the standard eleven, the dispatcher
  \<open>decode\<close> accepts exactly the frames an encoder produces and returns the message
  that was encoded: no frame has a second reading and no message a second frame.
\<close>

theorem decode_exact:
  assumes "canonical_frame f"
  shows "decode f = Inr msg \<longleftrightarrow> encode_message msg = Inr f"
  using assms by (rule bus.exact)

definition sample_command :: WireOutputCommand where
  "sample_command = \<lparr>wc_node_id = 5, wc_mask = 3, wc_session_id = 0x1234, wc_sequence = 7,
     wc_values = 1, wc_validity_10ms = 20\<rparr>"

definition sample_command_frame :: CanFrame where
  "sample_command_frame = \<lparr>can_id = 0x65, can_len = 8, can_data = [1, 3, 0x12, 0x34, 0, 7, 1, 20]\<rparr>"

theorem decode_exact_witness:
  "canonical_frame sample_command_frame \<and>
   decode sample_command_frame = Inr (DOutputCommand sample_command) \<and>
   encode_message (DOutputCommand sample_command) = Inr sample_command_frame"
proof -
  have c: "canonical_frame sample_command_frame" by code_simp
  have "encode_message (DOutputCommand sample_command) = Inr sample_command_frame" by code_simp
  with c decode_exact [OF c] show ?thesis by simp
qed

text \<open>
  Which fields the encoders refuse: a command is encoded exactly when node, mask,
  session and sequence are in range and the validity is 10 ms to 2500 ms.
\<close>

theorem encode_output_command_accepts:
  "is_ok (encode_output_command m) \<longleftrightarrow>
     wc_node_id m \<in> {1..31} \<and> wc_mask m \<noteq> 0 \<and> wc_session_id m \<noteq> 0 \<and>
     wc_sequence m \<noteq> 0 \<and> wc_validity_10ms m \<in> {1..250}"
  by (auto simp: encode_output_command_def validate_node_id_def can_v1_consts Let_def
      word_less_1 one_le_word_iff not_less)

text \<open>
  The sequence order is the forward half of the 16-bit circle: newer means one to
  32767 steps ahead, never both ways round, and only the antipode is undecided.
\<close>

theorem seq_newer_circle:
  "(seq_newer a b \<longleftrightarrow> unat (a - b) \<in> {1..<32768}) \<and>
   \<not> (seq_newer a b \<and> seq_newer b a) \<and>
   (seq_newer a b \<or> seq_newer b a \<or> a = b \<or> a - b = 0x8000)"
  using seq_newer_unat seq_newer_asym seq_newer_total by blast

lemma validity_window:
  assumes "validity_10ms_from_deadline now_ns deadline_ns = Inr v"
  shows "now_ns < deadline_ns" and "deadline_ns \<le> deadline_from_validity_10ms now_ns v"
    and "deadline_from_validity_10ms now_ns v < deadline_ns + kValidityUnitNs"
  using assms validity_Inr(1) [OF assms] ceil_div_bounds [of kValidityUnitNs "deadline_ns - now_ns"]
  by (auto simp: validity_10ms_from_deadline_def deadline_from_validity_10ms_def kValidityUnitNs_def Let_def split: if_splits)

text \<open>
  The validity conversion succeeds exactly when the remaining time is between 10 ms
  and 2500 ms; the receiver then never loses authorised time and gains less than one
  10 ms unit.
\<close>

theorem validity_rounding:
  "case validity_10ms_from_deadline now_ns deadline_ns of
     Inl e \<Rightarrow> err_code e = Errc.InvalidArgument \<and>
              deadline_ns - now_ns \<notin> {10000000..2500000000}
   | Inr v \<Rightarrow> deadline_ns - now_ns \<in> {10000000..2500000000} \<and> v \<in> {1..250} \<and>
              deadline_ns \<le> deadline_from_validity_10ms now_ns v \<and>
              deadline_from_validity_10ms now_ns v < deadline_ns + 10000000"
proof (cases "validity_10ms_from_deadline now_ns deadline_ns")
  case (Inl e)
  then show ?thesis
    by (auto simp: validity_10ms_from_deadline_def Let_def kValidityUnitNs_def kMaxValidity10ms_def
        invalid_def split: if_splits)
next
  case (Inr v)
  have "deadline_ns - now_ns \<in> {10000000..2500000000}"
    using Inr by (auto simp: validity_10ms_from_deadline_def Let_def kValidityUnitNs_def
        kMaxValidity10ms_def split: if_splits)
  moreover note validity_Inr [OF Inr]
  moreover note validity_window [OF Inr, unfolded kValidityUnitNs_def]
  ultimately show ?thesis using Inr by simp
qed

end
