(* ===== verification/State_Machine.thy ===== *)
theory State_Machine
  imports Core_Types
begin

text \<open>
  The software state machine of the runtime core (\<^verbatim>\<open>linux/include/rcr/state_machine.hpp\<close>,
  \<^verbatim>\<open>linux/src/core/state_machine.cpp\<close>): mode, software interlock and fault code, and the
  event handler with every accepting and rejecting branch. The lemmas show that
  output permission implies the interlock, that ESTOP is latched, and that no
  sequence of events reaches ACTIVE without an explicit activation.
\<close>

section \<open>State and operations\<close>

record StateMachine =
  sm_mode :: RuntimeMode
  sm_interlock_ready :: bool
  sm_fault :: FaultCode

record TransitionResult =
  tr_accepted :: bool
  tr_from :: RuntimeMode
  tr_to :: RuntimeMode
  tr_reason :: string

definition sm_init :: StateMachine where
  "sm_init = \<lparr>sm_mode = RuntimeMode.Disabled, sm_interlock_ready = False,
     sm_fault = FaultCode.NoFault\<rparr>"

definition can_accept_output :: "StateMachine \<Rightarrow> bool" where
  "can_accept_output s \<longleftrightarrow> sm_mode s = RuntimeMode.Active \<and> sm_interlock_ready s"

definition set_fault :: "FaultCode \<Rightarrow> StateMachine \<Rightarrow> StateMachine" where
  "set_fault code s = s\<lparr>sm_fault := code\<rparr>"

definition event_suffix :: "RuntimeEvent \<Rightarrow> string" where
  "event_suffix event = '' (event='' @ RuntimeEvent_to_string event @ '')''"

definition sm_reject :: "RuntimeEvent \<Rightarrow> string \<Rightarrow> StateMachine \<Rightarrow> StateMachine \<times> TransitionResult" where
  "sm_reject event reason s =
     (s, \<lparr>tr_accepted = False, tr_from = sm_mode s, tr_to = sm_mode s,
          tr_reason = reason @ event_suffix event\<rparr>)"

definition sm_accept ::
  "RuntimeMode \<Rightarrow> RuntimeEvent \<Rightarrow> string \<Rightarrow> StateMachine \<Rightarrow> StateMachine \<times> TransitionResult" where
  "sm_accept nxt event reason s =
     (s\<lparr>sm_mode := nxt\<rparr>, \<lparr>tr_accepted = True, tr_from = sm_mode s, tr_to = nxt,
          tr_reason = reason @ event_suffix event\<rparr>)"

text \<open>What follows the switch: interlock events are recorded in every mode, the rest is refused.\<close>

definition handle_default :: "RuntimeEvent \<Rightarrow> StateMachine \<Rightarrow> StateMachine \<times> TransitionResult" where
  "handle_default event s =
     (if event = RuntimeEvent.InterlockReady \<or> event = RuntimeEvent.InterlockLost
      then sm_accept (sm_mode s) event ''interlock information updated'' s
      else sm_reject event ''transition not allowed in current mode'' s)"

definition record_interlock :: "RuntimeEvent \<Rightarrow> StateMachine \<Rightarrow> StateMachine" where
  "record_interlock event s =
     (if event = RuntimeEvent.InterlockReady then s\<lparr>sm_interlock_ready := True\<rparr>
      else if event = RuntimeEvent.InterlockLost then s\<lparr>sm_interlock_ready := False\<rparr>
      else s)"

fun handle_in_mode ::
  "RuntimeMode \<Rightarrow> RuntimeEvent \<Rightarrow> StateMachine \<Rightarrow> StateMachine \<times> TransitionResult" where
  "handle_in_mode RuntimeMode.Disabled event s =
     (if event = RuntimeEvent.Boot then sm_accept RuntimeMode.Idle event ''boot complete'' s
      else if event = RuntimeEvent.DeactivateRequest
        then sm_accept RuntimeMode.Disabled event ''already disabled'' s
      else if event = RuntimeEvent.ActivateRequest
        then sm_reject event ''must boot to idle before activation'' s
      else if event = RuntimeEvent.EStopReset then sm_reject event ''not in ESTOP'' s
      else handle_default event s)"
| "handle_in_mode RuntimeMode.Idle event s =
     (if event = RuntimeEvent.ActivateRequest then
        (if \<not> sm_interlock_ready s
         then sm_reject event ''interlock must be ready before activation'' s
         else sm_accept RuntimeMode.Active event ''output path activated''
                (s\<lparr>sm_fault := FaultCode.NoFault\<rparr>))
      else if event = RuntimeEvent.DeactivateRequest
        then sm_accept RuntimeMode.Disabled event ''disabled from idle'' s
      else if event = RuntimeEvent.FaultDetected
        then sm_accept RuntimeMode.Fault event ''fault while idle'' s
      else handle_default event s)"
| "handle_in_mode RuntimeMode.Active event s =
     (if event = RuntimeEvent.DeactivateRequest
        then sm_accept RuntimeMode.Idle event ''deactivated'' s
      else if event = RuntimeEvent.CommandTimeout
        then sm_accept RuntimeMode.Hold event ''command timeout hold''
               (s\<lparr>sm_fault := FaultCode.Watchdog\<rparr>)
      else if event = RuntimeEvent.InterlockLost
        then sm_accept RuntimeMode.Hold event ''software interlock lost''
               (s\<lparr>sm_fault := FaultCode.InterlockLost\<rparr>)
      else if event = RuntimeEvent.FaultDetected
        then sm_accept RuntimeMode.Fault event ''fault while active'' s
      else if event = RuntimeEvent.Hold
        then sm_accept RuntimeMode.Hold event ''explicit hold'' s
      else handle_default event s)"
| "handle_in_mode RuntimeMode.Hold event s =
     (if event = RuntimeEvent.Resume then
        (if \<not> sm_interlock_ready s
         then sm_reject event ''cannot acknowledge hold without interlock'' s
         else if sm_fault s = FaultCode.Watchdog \<or> sm_fault s = FaultCode.InterlockLost \<or>
                 sm_fault s = FaultCode.AckTimeout \<or> sm_fault s = FaultCode.NoFault
         then sm_accept RuntimeMode.Idle event ''hold acknowledged; activation required''
                (s\<lparr>sm_fault := FaultCode.NoFault\<rparr>)
         else sm_reject event ''clear fault before resume'' s)
      else if event = RuntimeEvent.DeactivateRequest
        then sm_accept RuntimeMode.Disabled event ''disabled from hold''
               (s\<lparr>sm_fault := FaultCode.NoFault\<rparr>)
      else if event = RuntimeEvent.FaultDetected
        then sm_accept RuntimeMode.Fault event ''fault while holding'' s
      else if event = RuntimeEvent.InterlockReady
        then sm_accept RuntimeMode.Hold event ''interlock restored; still holding'' s
      else handle_default event s)"
| "handle_in_mode RuntimeMode.Fault event s =
     (if event = RuntimeEvent.FaultCleared
        then sm_accept RuntimeMode.Idle event ''fault cleared to idle''
               (s\<lparr>sm_fault := FaultCode.NoFault\<rparr>)
      else if event = RuntimeEvent.DeactivateRequest
        then sm_accept RuntimeMode.Disabled event ''disabled from fault''
               (s\<lparr>sm_fault := FaultCode.NoFault\<rparr>)
      else handle_default event s)"
| "handle_in_mode RuntimeMode.EStop event s =
     (if event = RuntimeEvent.EStopReset then
        (if \<not> sm_interlock_ready s
         then sm_reject event ''cannot reset ESTOP while interlock is open'' s
         else sm_accept RuntimeMode.Idle event ''estop reset to idle''
                (s\<lparr>sm_fault := FaultCode.NoFault\<rparr>))
      else if event = RuntimeEvent.ActivateRequest \<or> event = RuntimeEvent.Resume
        then sm_reject event ''ESTOP latched; reset required'' s
      else handle_default event s)"

definition handle :: "RuntimeEvent \<Rightarrow> StateMachine \<Rightarrow> StateMachine \<times> TransitionResult" where
  "handle event s0 =
     (let s = record_interlock event s0 in
      if event = RuntimeEvent.EStopTrigger
      then sm_accept RuntimeMode.EStop event ''emergency stop latched''
             (s\<lparr>sm_fault := FaultCode.NoFault\<rparr>)
      else handle_in_mode (sm_mode s) event s)"

definition sm_set_interlock_ready :: "bool \<Rightarrow> StateMachine \<Rightarrow> StateMachine" where
  "sm_set_interlock_ready ready s =
     fst (handle (if ready then RuntimeEvent.InterlockReady else RuntimeEvent.InterlockLost) s)"

section \<open>Single events\<close>

lemmas sm_defs = handle_def record_interlock_def sm_accept_def sm_reject_def handle_default_def

text \<open>The result record reports the mode change that took place, and a refusal changes nothing.\<close>

lemma handle_result:
  assumes "handle e s = (s', r)"
  shows "tr_from r = sm_mode s" and "tr_to r = sm_mode s'"
    and "\<not> tr_accepted r \<Longrightarrow> s' = s"
  using assms by (cases "sm_mode s"; cases e; auto simp: sm_defs split: if_splits)+

lemma handle_enters_active:
  assumes "sm_mode (fst (handle e s)) = RuntimeMode.Active"
  shows "sm_mode s = RuntimeMode.Active \<and> e \<notin> {RuntimeEvent.InterlockLost, RuntimeEvent.DeactivateRequest,
           RuntimeEvent.CommandTimeout, RuntimeEvent.FaultDetected, RuntimeEvent.Hold, RuntimeEvent.EStopTrigger} \<or>
         sm_mode s = RuntimeMode.Idle \<and> e = RuntimeEvent.ActivateRequest \<and> sm_interlock_ready s"
  using assms by (cases "sm_mode s"; cases e; auto simp: sm_defs split: if_splits)

lemma handle_enters_idle:
  assumes "sm_mode (fst (handle e s)) = RuntimeMode.Idle" and "sm_mode s \<notin> {RuntimeMode.Idle, RuntimeMode.Active}"
  shows "e \<in> {RuntimeEvent.Boot, RuntimeEvent.Resume, RuntimeEvent.FaultCleared, RuntimeEvent.EStopReset}"
  using assms by (cases "sm_mode s"; cases e; auto simp: sm_defs split: if_splits)

lemma handle_leaves_estop:
  assumes "sm_mode s = RuntimeMode.EStop" and "sm_mode (fst (handle e s)) \<noteq> RuntimeMode.EStop"
  shows "e = RuntimeEvent.EStopReset \<and> sm_interlock_ready s \<and> sm_mode (fst (handle e s)) = RuntimeMode.Idle"
  using assms by (cases e; auto simp: sm_defs split: if_splits)

lemma handle_interlock:
  "sm_interlock_ready (fst (handle e s)) =
     (e = RuntimeEvent.InterlockReady \<or> e \<noteq> RuntimeEvent.InterlockLost \<and> sm_interlock_ready s)"
  by (cases "sm_mode s"; cases e; auto simp: sm_defs)

lemma sm_set_interlock_ready_value [simp]:
  "sm_interlock_ready (sm_set_interlock_ready b s) = b"
  by (simp add: sm_set_interlock_ready_def handle_interlock)

section \<open>The invariant\<close>

definition sm_inv :: "StateMachine \<Rightarrow> bool" where
  "sm_inv s \<longleftrightarrow> (sm_mode s = RuntimeMode.Active \<longrightarrow> sm_interlock_ready s)"

lemma sm_inv_init: "sm_inv sm_init"
  by (simp add: sm_inv_def sm_init_def)

lemma sm_inv_handle: "sm_inv s \<Longrightarrow> sm_inv (fst (handle e s))"
  using handle_enters_active [of e s] by (auto simp: sm_inv_def handle_interlock)

lemma sm_inv_handle_eq: "handle e s = (s', r) \<Longrightarrow> sm_inv s \<Longrightarrow> sm_inv s'"
  using sm_inv_handle [of s e] by simp

lemma sm_inv_set_fault: "sm_inv s \<Longrightarrow> sm_inv (set_fault c s)"
  by (simp add: sm_inv_def set_fault_def)

lemma can_accept_output_iff: "sm_inv s \<Longrightarrow> can_accept_output s \<longleftrightarrow> sm_mode s = RuntimeMode.Active"
  by (auto simp: sm_inv_def can_accept_output_def)

section \<open>Sequences of operations\<close>

text \<open>The two ways a client changes the machine: an event, and the bare fault code setter.\<close>

datatype SmOp = Event RuntimeEvent | SetFault FaultCode

fun sm_step :: "SmOp \<Rightarrow> StateMachine \<Rightarrow> StateMachine" where
  "sm_step (Event e) s = fst (handle e s)"
| "sm_step (SetFault c) s = set_fault c s"

definition sm_run :: "SmOp list \<Rightarrow> StateMachine \<Rightarrow> StateMachine" where
  "sm_run ops s = fold sm_step ops s"

lemma sm_run_simps [simp]:
  "sm_run [] s = s" "sm_run (op # ops) s = sm_run ops (sm_step op s)"
  "sm_run (xs @ ys) s = sm_run ys (sm_run xs s)"
  by (simp_all add: sm_run_def)

lemma sm_inv_step: "sm_inv s \<Longrightarrow> sm_inv (sm_step op s)"
  by (cases op) (auto intro: sm_inv_handle sm_inv_set_fault)

interpretation sm: machine sm_step sm_inv
  by unfold_locales (rule sm_inv_step)

lemma set_fault_mode [simp]:
  "sm_mode (set_fault c s) = sm_mode s" "sm_interlock_ready (set_fault c s) = sm_interlock_ready s"
  by (simp_all add: set_fault_def)

lemma sm_step_enters_active:
  assumes "sm_mode (sm_step op s) = RuntimeMode.Active" and "sm_mode s \<noteq> RuntimeMode.Active"
  shows "op = Event RuntimeEvent.ActivateRequest \<and> sm_mode s = RuntimeMode.Idle \<and> sm_interlock_ready s"
  using assms by (cases op) (auto dest: handle_enters_active)

lemma sm_run_activation:
  assumes "sm_mode (sm_run ops s) = RuntimeMode.Active" and "sm_mode s \<noteq> RuntimeMode.Active"
  shows "\<exists>xs ys. ops = xs @ Event RuntimeEvent.ActivateRequest # ys \<and>
           sm_mode (sm_run xs s) = RuntimeMode.Idle \<and> sm_interlock_ready (sm_run xs s)"
  using assms
proof (induction ops arbitrary: s)
  case Nil
  then show ?case by simp
next
  case (Cons op ops)
  show ?case
  proof (cases "sm_mode (sm_step op s) = RuntimeMode.Active")
    case True
    with Cons.prems(2) have "op = Event RuntimeEvent.ActivateRequest \<and> sm_mode s = RuntimeMode.Idle \<and> sm_interlock_ready s"
      by (intro sm_step_enters_active)
    then show ?thesis by (intro exI [of _ "[]"] exI [of _ ops]) simp
  next
    case False
    with Cons obtain xs ys where "ops = xs @ Event RuntimeEvent.ActivateRequest # ys \<and>
           sm_mode (sm_run xs (sm_step op s)) = RuntimeMode.Idle \<and> sm_interlock_ready (sm_run xs (sm_step op s))"
      by fastforce
    then show ?thesis by (intro exI [of _ "op # xs"] exI [of _ ys]) simp
  qed
qed

lemma sm_run_idle:
  assumes "sm_mode (sm_run ops s) = RuntimeMode.Idle" and "sm_mode s \<notin> {RuntimeMode.Idle, RuntimeMode.Active}"
  shows "\<exists>e \<in> {RuntimeEvent.Boot, RuntimeEvent.Resume, RuntimeEvent.FaultCleared, RuntimeEvent.EStopReset}.
           Event e \<in> set ops"
  using assms
proof (induction ops arbitrary: s)
  case Nil
  then show ?case by simp
next
  case (Cons op ops)
  show ?case
  proof (cases "sm_mode (sm_step op s) \<in> {RuntimeMode.Idle, RuntimeMode.Active}")
    case True
    then show ?thesis
      using Cons.prems(2) by (cases op) (auto dest: handle_enters_active handle_enters_idle)
  next
    case False
    then show ?thesis using Cons.IH [of "sm_step op s"] Cons.prems(1) by auto
  qed
qed

section \<open>Properties\<close>

text \<open>
  Activation is explicit: whatever events and fault codes a client sends, a machine
  that starts outside IDLE and ACTIVE (boot, hold, fault or ESTOP) reaches ACTIVE
  only through an acknowledging event that returns it to IDLE, followed later by an
  activation request that finds the interlock ready.
\<close>

theorem no_implicit_activation:
  assumes "sm_mode s \<notin> {RuntimeMode.Idle, RuntimeMode.Active}"
    and "sm_mode (sm_run ops s) = RuntimeMode.Active"
  shows "\<exists>xs ys. \<exists>ack \<in> {RuntimeEvent.Boot, RuntimeEvent.Resume, RuntimeEvent.FaultCleared, RuntimeEvent.EStopReset}.
           ops = xs @ Event RuntimeEvent.ActivateRequest # ys \<and> Event ack \<in> set xs \<and>
           sm_interlock_ready (sm_run xs s)"
proof -
  obtain xs ys where split: "ops = xs @ Event RuntimeEvent.ActivateRequest # ys"
    and idle: "sm_mode (sm_run xs s) = RuntimeMode.Idle" and ready: "sm_interlock_ready (sm_run xs s)"
    using sm_run_activation [OF assms(2)] assms(1) by auto
  from sm_run_idle [OF idle assms(1)] split ready show ?thesis by blast
qed

theorem no_implicit_activation_witness:
  "sm_mode (sm_run [Event RuntimeEvent.Boot, Event RuntimeEvent.InterlockReady,
     Event RuntimeEvent.ActivateRequest] sm_init) = RuntimeMode.Active \<and>
   (\<exists>xs ys. \<exists>ack \<in> {RuntimeEvent.Boot, RuntimeEvent.Resume, RuntimeEvent.FaultCleared, RuntimeEvent.EStopReset}.
      [Event RuntimeEvent.Boot, Event RuntimeEvent.InterlockReady, Event RuntimeEvent.ActivateRequest] =
        xs @ Event RuntimeEvent.ActivateRequest # ys \<and> Event ack \<in> set xs \<and>
      sm_interlock_ready (sm_run xs sm_init))"
proof -
  have a: "sm_mode sm_init \<notin> {RuntimeMode.Idle, RuntimeMode.Active}" by code_simp
  have b: "sm_mode (sm_run [Event RuntimeEvent.Boot, Event RuntimeEvent.InterlockReady,
     Event RuntimeEvent.ActivateRequest] sm_init) = RuntimeMode.Active" by code_simp
  from b no_implicit_activation [OF a b] show ?thesis by blast
qed

text \<open>
  ESTOP is latched: it is entered from every mode in one event, and while no reset
  event is processed with the interlock ready, no sequence of operations leaves it.
\<close>

theorem estop_latched:
  "sm_mode (fst (handle RuntimeEvent.EStopTrigger s)) = RuntimeMode.EStop \<and>
   (sm_mode s = RuntimeMode.EStop \<longrightarrow> sm_mode (sm_run ops s) \<noteq> RuntimeMode.EStop \<longrightarrow>
     (\<exists>xs ys. ops = xs @ Event RuntimeEvent.EStopReset # ys \<and> sm_interlock_ready (sm_run xs s)))"
proof (intro conjI impI)
  show "sm_mode (fst (handle RuntimeEvent.EStopTrigger s)) = RuntimeMode.EStop"
    by (simp add: sm_defs)
next
  assume "sm_mode s = RuntimeMode.EStop" and "sm_mode (sm_run ops s) \<noteq> RuntimeMode.EStop"
  then show "\<exists>xs ys. ops = xs @ Event RuntimeEvent.EStopReset # ys \<and> sm_interlock_ready (sm_run xs s)"
  proof (induction ops arbitrary: s)
    case (Cons op ops)
    show ?case
    proof (cases "sm_mode (sm_step op s) = RuntimeMode.EStop")
      case True
      with Cons obtain xs ys where "ops = xs @ Event RuntimeEvent.EStopReset # ys \<and>
          sm_interlock_ready (sm_run xs (sm_step op s))" by fastforce
      then show ?thesis by (intro exI [of _ "op # xs"] exI [of _ ys]) simp
    next
      case False
      then have "op = Event RuntimeEvent.EStopReset \<and> sm_interlock_ready s"
        using Cons.prems(1) by (cases op) (auto dest: handle_leaves_estop)
      then show ?thesis by (intro exI [of _ "[]"] exI [of _ ops]) simp
    qed
  qed simp
qed

theorem estop_latched_witness:
  "sm_mode (sm_run [Event RuntimeEvent.EStopTrigger, Event RuntimeEvent.ActivateRequest] sm_init) =
     RuntimeMode.EStop \<and>
   (\<exists>xs ys. [Event RuntimeEvent.InterlockReady, Event RuntimeEvent.EStopReset] =
        xs @ Event RuntimeEvent.EStopReset # ys \<and>
      sm_interlock_ready (sm_run xs (fst (handle RuntimeEvent.EStopTrigger sm_init))))"
proof -
  have a: "sm_mode (sm_run [Event RuntimeEvent.InterlockReady, Event RuntimeEvent.EStopReset]
     (fst (handle RuntimeEvent.EStopTrigger sm_init))) \<noteq> RuntimeMode.EStop" by code_simp
  have b: "sm_mode (sm_run [Event RuntimeEvent.EStopTrigger, Event RuntimeEvent.ActivateRequest] sm_init) =
     RuntimeMode.EStop" by code_simp
  from a b estop_latched [of "fst (handle RuntimeEvent.EStopTrigger sm_init)"
      "[Event RuntimeEvent.InterlockReady, Event RuntimeEvent.EStopReset]"] estop_latched [of sm_init "[]"]
  show ?thesis by blast
qed

end
