(* ===== verification/Mailbox.thy ===== *)
theory Mailbox
  imports Core_Types
begin

text \<open>
  The latest-wins output mailbox (\<^verbatim>\<open>linux/include/rcr/mailbox.hpp\<close>,
  \<^verbatim>\<open>linux/src/core/mailbox.cpp\<close>). Each operation holds the mutex for its whole body, so it
  is one step on the slot and the three wrapping 64-bit counters.
\<close>

section \<open>State and operations\<close>

record CommandMailbox =
  mb_slot :: "OutputCommand option"
  mb_publish_count :: u64
  mb_consume_count :: u64
  mb_drop_count :: u64

definition mb_init :: CommandMailbox where
  "mb_init = \<lparr>mb_slot = None, mb_publish_count = 0, mb_consume_count = 0, mb_drop_count = 0\<rparr>"

definition mb_publish :: "OutputCommand \<Rightarrow> CommandMailbox \<Rightarrow> CommandMailbox" where
  "mb_publish command m =
     (let m = (if mb_slot m \<noteq> None then m\<lparr>mb_drop_count := mb_drop_count m + 1\<rparr> else m) in
      m\<lparr>mb_slot := Some command, mb_publish_count := mb_publish_count m + 1\<rparr>)"

definition mb_try_consume :: "CommandMailbox \<Rightarrow> CommandMailbox \<times> OutputCommand option" where
  "mb_try_consume m =
     (case mb_slot m of
        None \<Rightarrow> (m, None)
      | Some cmd \<Rightarrow> (m\<lparr>mb_slot := None, mb_consume_count := mb_consume_count m + 1\<rparr>, Some cmd))"

definition mb_peek :: "CommandMailbox \<Rightarrow> OutputCommand option" where
  "mb_peek m = mb_slot m"

definition mb_clear :: "CommandMailbox \<Rightarrow> CommandMailbox" where
  "mb_clear m = m\<lparr>mb_slot := None\<rparr>"

definition mb_has_pending :: "CommandMailbox \<Rightarrow> bool" where
  "mb_has_pending m \<longleftrightarrow> mb_slot m \<noteq> None"

section \<open>Effect on the slot\<close>

lemma mb_slot_simps [simp]:
  "mb_slot (mb_publish c m) = Some c" "mb_slot (mb_clear m) = None"
  "mb_slot (fst (mb_try_consume m)) = None" "snd (mb_try_consume m) = mb_slot m"
  "mb_slot mb_init = None"
  by (auto simp: mb_publish_def mb_clear_def mb_try_consume_def mb_init_def Let_def split: option.splits)

lemma mb_clear_id: "mb_slot m = None \<Longrightarrow> mb_clear m = m"
  by (simp add: mb_clear_def)

section \<open>Runs of the mailbox\<close>

datatype MbOp = Publish OutputCommand | Consume | Clear

fun mb_step :: "MbOp \<Rightarrow> CommandMailbox \<Rightarrow> CommandMailbox" where
  "mb_step (Publish c) m = mb_publish c m"
| "mb_step Consume m = fst (mb_try_consume m)"
| "mb_step Clear m = mb_clear m"

text \<open>
  The reference reading of a history: the command a consumer may still see, and the
  number of commands a deliberate clear threw away.
\<close>

fun latest :: "OutputCommand option \<Rightarrow> MbOp list \<Rightarrow> OutputCommand option" where
  "latest cur [] = cur"
| "latest cur (Publish c # ops) = latest (Some c) ops"
| "latest cur (Consume # ops) = latest None ops"
| "latest cur (Clear # ops) = latest None ops"

fun discarded :: "OutputCommand option \<Rightarrow> MbOp list \<Rightarrow> nat" where
  "discarded cur [] = 0"
| "discarded cur (Publish c # ops) = discarded (Some c) ops"
| "discarded cur (Consume # ops) = discarded None ops"
| "discarded cur (Clear # ops) = (if cur = None then 0 else 1) + discarded None ops"

lemma mb_run_slot: "mb_slot (fold mb_step ops m) = latest (mb_slot m) ops"
proof (induction ops arbitrary: m)
  case (Cons op ops)
  then show ?case by (cases op) simp_all
qed simp

lemma mb_step_balance:
  "mb_publish_count (mb_step op m) - mb_consume_count (mb_step op m) - mb_drop_count (mb_step op m)
     - of_bool (mb_has_pending (mb_step op m)) =
   mb_publish_count m - mb_consume_count m - mb_drop_count m - of_bool (mb_has_pending m) +
     of_nat (discarded (mb_slot m) [op])"
  by (cases op; cases "mb_slot m")
    (simp_all add: mb_publish_def mb_try_consume_def mb_clear_def mb_has_pending_def Let_def)

lemma discarded_Cons:
  "discarded (mb_slot m) (op # ops) =
     discarded (mb_slot m) [op] + discarded (mb_slot (mb_step op m)) ops"
  by (cases op) simp_all

lemma mb_run_balance:
  "mb_publish_count (fold mb_step ops m) - mb_consume_count (fold mb_step ops m)
     - mb_drop_count (fold mb_step ops m) - of_bool (mb_has_pending (fold mb_step ops m)) =
   mb_publish_count m - mb_consume_count m - mb_drop_count m - of_bool (mb_has_pending m) +
     of_nat (discarded (mb_slot m) ops)"
proof (induction ops arbitrary: m)
  case (Cons op ops)
  show ?case
    using Cons.IH [of "mb_step op m"] mb_step_balance [of op m]
    by (simp only: fold_Cons comp_apply discarded_Cons [of m op ops] of_nat_add)
      (simp add: algebra_simps)
qed simp

section \<open>Properties\<close>

text \<open>
  For every history from an empty mailbox: the slot holds exactly the latest command
  published since the last consumption or clear, and the counters account for every
  published command: consumed, overwritten, still pending, or discarded by a clear
  (modulo the 64-bit width of the counters).
\<close>

theorem mailbox_accounting:
  "mb_slot (fold mb_step ops mb_init) = latest None ops \<and>
   mb_publish_count (fold mb_step ops mb_init) =
     mb_consume_count (fold mb_step ops mb_init) + mb_drop_count (fold mb_step ops mb_init) +
     of_bool (mb_has_pending (fold mb_step ops mb_init)) + of_nat (discarded None ops)"
  using mb_run_slot [of ops mb_init] mb_run_balance [of ops mb_init]
  by (simp add: mb_init_def mb_has_pending_def algebra_simps)

end
