(* ===== verification/Watchdog.thy ===== *)
theory Watchdog
  imports Core_Types
begin

text \<open>
  The command watchdog over monotonic time stamps (\<^verbatim>\<open>linux/include/rcr/watchdog.hpp\<close>,
  \<^verbatim>\<open>linux/src/core/watchdog.cpp\<close>). Its atomic fields are plain fields here: every caller
  holds the state mutex of the runtime, so an operation is one step.
\<close>

section \<open>State and operations\<close>

datatype WatchdogState = Disarmed | Healthy | Expired

record WatchdogCheck =
  wk_state :: WatchdogState
  wk_newly_expired :: bool
  wk_age_ns :: i64

record MonotonicWatchdog =
  wd_timeout_ns :: i64
  wd_last_kick_ns :: i64
  wd_armed :: bool
  wd_expired :: bool

definition wd_init :: "i64 \<Rightarrow> MonotonicWatchdog" where
  "wd_init timeout = \<lparr>wd_timeout_ns = timeout, wd_last_kick_ns = 0, wd_armed = False, wd_expired = False\<rparr>"

definition wd_arm :: "i64 \<Rightarrow> MonotonicWatchdog \<Rightarrow> MonotonicWatchdog" where
  "wd_arm now_ns w = w\<lparr>wd_last_kick_ns := now_ns, wd_expired := False, wd_armed := True\<rparr>"

definition wd_kick :: "i64 \<Rightarrow> MonotonicWatchdog \<Rightarrow> MonotonicWatchdog" where
  "wd_kick now_ns w = w\<lparr>wd_last_kick_ns := now_ns, wd_expired := False\<rparr>"

definition wd_disarm :: "MonotonicWatchdog \<Rightarrow> MonotonicWatchdog" where
  "wd_disarm w = w\<lparr>wd_armed := False, wd_expired := False\<rparr>"

definition wd_check :: "i64 \<Rightarrow> MonotonicWatchdog \<Rightarrow> MonotonicWatchdog \<times> WatchdogCheck" where
  "wd_check now_ns w =
     (if \<not> wd_armed w
      then (w, \<lparr>wk_state = WatchdogState.Disarmed, wk_newly_expired = False, wk_age_ns = 0\<rparr>)
      else let age_ns = max (now_ns - wd_last_kick_ns w) 0 in
        if age_ns < wd_timeout_ns w
        then (w, \<lparr>wk_state = WatchdogState.Healthy, wk_newly_expired = False, wk_age_ns = age_ns\<rparr>)
        else (w\<lparr>wd_expired := True\<rparr>,
              \<lparr>wk_state = WatchdogState.Expired, wk_newly_expired = (\<not> wd_expired w), wk_age_ns = age_ns\<rparr>))"

section \<open>Sequences of checks\<close>

text \<open>The periodic thread checks at the instants \<open>ts\<close> while nobody kicks, arms or disarms.\<close>

fun wd_checks :: "i64 list \<Rightarrow> MonotonicWatchdog \<Rightarrow> WatchdogCheck list" where
  "wd_checks [] w = []"
| "wd_checks (t # ts) w = (let (w', c) = wd_check t w in c # wd_checks ts w')"

definition overdue :: "MonotonicWatchdog \<Rightarrow> i64 \<Rightarrow> bool" where
  "overdue w t \<longleftrightarrow> wd_timeout_ns w \<le> max (t - wd_last_kick_ns w) 0"

lemma wd_check_overdue:
  "wd_armed w \<Longrightarrow> wd_check t w =
     (if overdue w t
      then (w\<lparr>wd_expired := True\<rparr>,
            \<lparr>wk_state = WatchdogState.Expired, wk_newly_expired = (\<not> wd_expired w),
             wk_age_ns = max (t - wd_last_kick_ns w) 0\<rparr>)
      else (w, \<lparr>wk_state = WatchdogState.Healthy, wk_newly_expired = False,
             wk_age_ns = max (t - wd_last_kick_ns w) 0\<rparr>))"
  by (simp add: wd_check_def overdue_def Let_def not_less le_max_iff_disj)

lemma overdue_update [simp]: "overdue (w\<lparr>wd_expired := b\<rparr>) = overdue w"
  by (simp add: overdue_def fun_eq_iff)

lemma wd_checks_expired:
  "wd_armed w \<Longrightarrow> wd_expired w \<Longrightarrow> filter wk_newly_expired (wd_checks ts w) = []"
  by (induction ts arbitrary: w) (auto simp: wd_check_overdue)

lemma wd_checks_states:
  "wd_armed w \<Longrightarrow> map wk_state (wd_checks ts w) =
     map (\<lambda>t. if overdue w t then WatchdogState.Expired else WatchdogState.Healthy) ts"
  by (induction ts arbitrary: w) (auto simp: wd_check_overdue)

lemma wd_checks_once:
  "wd_armed w \<Longrightarrow> \<not> wd_expired w \<Longrightarrow>
   length (filter wk_newly_expired (wd_checks ts w)) = (if \<exists>t \<in> set ts. overdue w t then 1 else 0)"
  by (induction ts arbitrary: w) (auto simp: wd_check_overdue wd_checks_expired)

section \<open>Properties\<close>

text \<open>
  After arming at \<open>now\<close> and until the next kick, the checks report EXPIRED exactly at the
  instants whose age has reached the timeout, and over any sequence of checks the
  expiry is announced once if an instant is overdue and never otherwise.
\<close>

theorem watchdog_announces_once:
  "map wk_state (wd_checks ts (wd_arm now w)) =
     map (\<lambda>t. if wd_timeout_ns w \<le> max (t - now) 0 then WatchdogState.Expired else WatchdogState.Healthy) ts \<and>
   length (filter wk_newly_expired (wd_checks ts (wd_arm now w))) =
     (if \<exists>t \<in> set ts. wd_timeout_ns w \<le> max (t - now) 0 then 1 else 0)"
  using wd_checks_states [of "wd_arm now w" ts] wd_checks_once [of "wd_arm now w" ts]
  by (simp add: wd_arm_def overdue_def)

end
