(* ===== verification/Trace_Buffer.thy ===== *)
theory Trace_Buffer
  imports Core_Types
begin

text \<open>
  The fixed-capacity diagnostic ring (\<^verbatim>\<open>linux/include/rcr/trace.hpp\<close>,
  \<^verbatim>\<open>linux/src/core/trace.cpp\<close>). \<open>record_trace\<close> uses \<^verbatim>\<open>try_lock\<close>; whether a slow reader holds the
  mutex is decided by the environment, so the buffer carries the outcomes of the
  coming attempts in \<open>tb_lock_busy\<close> (an exhausted list means the lock is free).
\<close>

section \<open>State and operations\<close>

datatype TraceKind = SchedulerTick | DeadlineMiss | StateTransition | OutputCommandPublished
  | WatchdogExpired | OutputCommandRejected | FaultRaised | OutputCommandSent
  | OutputAckObserved | OutputAckUnexpected | OutputAckTimeout

record TraceEvent =
  te_timestamp_ns :: i64
  te_kind :: TraceKind
  te_value_a :: i64
  te_value_b :: i64

definition te_default :: TraceEvent where
  "te_default = \<lparr>te_timestamp_ns = 0, te_kind = SchedulerTick, te_value_a = 0, te_value_b = 0\<rparr>"

record TraceBuffer =
  tb_capacity :: nat
  tb_storage :: "TraceEvent list"
  tb_next :: nat
  tb_size :: nat
  tb_dropped :: u64
  tb_lock_busy :: "bool list"

definition tb_init :: "nat \<Rightarrow> bool list \<Rightarrow> TraceBuffer" where
  "tb_init capacity busy =
     \<lparr>tb_capacity = capacity, tb_storage = replicate capacity te_default, tb_next = 0,
      tb_size = 0, tb_dropped = 0, tb_lock_busy = busy\<rparr>"

text \<open>\<^verbatim>\<open>std::unique_lock lock(mutex_, std::try_to_lock)\<close>: the outcome, and the rest of the schedule.\<close>

definition try_lock :: "TraceBuffer \<Rightarrow> bool \<times> TraceBuffer" where
  "try_lock b =
     (case tb_lock_busy b of [] \<Rightarrow> (True, b)
      | busy # rest \<Rightarrow> (\<not> busy, b\<lparr>tb_lock_busy := rest\<rparr>))"

definition record_trace :: "TraceEvent \<Rightarrow> TraceBuffer \<Rightarrow> TraceBuffer" where
  "record_trace event b =
     (if tb_capacity b = 0 then b\<lparr>tb_dropped := tb_dropped b + 1\<rparr>
      else let (owns_lock, b) = try_lock b in
        if \<not> owns_lock then b\<lparr>tb_dropped := tb_dropped b + 1\<rparr>
        else b\<lparr>tb_storage := (tb_storage b)[tb_next b := event],
               tb_next := (tb_next b + 1) mod tb_capacity b,
               tb_size := min (tb_size b + 1) (tb_capacity b)\<rparr>)"

definition snapshot_trace :: "TraceBuffer \<Rightarrow> TraceEvent list" where
  "snapshot_trace b =
     (let oldest = (if tb_size b = tb_capacity b then tb_next b else 0) in
      map (\<lambda>offset. tb_storage b ! ((oldest + offset) mod tb_capacity b)) [0..<tb_size b])"

section \<open>The ring as the list of the most recent events\<close>

definition tb_inv :: "TraceBuffer \<Rightarrow> bool" where
  "tb_inv b \<longleftrightarrow> length (tb_storage b) = tb_capacity b \<and> tb_size b \<le> tb_capacity b \<and>
     (tb_size b < tb_capacity b \<longrightarrow> tb_next b = tb_size b) \<and>
     (0 < tb_capacity b \<longrightarrow> tb_next b < tb_capacity b)"

definition keep_last :: "nat \<Rightarrow> 'a list \<Rightarrow> 'a list" where
  "keep_last n xs = drop (length xs - n) xs"

lemma keep_last_snoc: "length xs \<le> n \<Longrightarrow> 0 < n \<Longrightarrow>
   keep_last n (xs @ [x]) = (if length xs < n then xs @ [x] else tl xs @ [x])"
  by (auto simp: keep_last_def Suc_diff_le drop_Suc)

lemma keep_last_keep_last: "keep_last n (keep_last n xs @ ys) = keep_last n (xs @ ys)"
  by (cases "length xs \<le> n") (auto simp: keep_last_def add.commute)

lemma tb_inv_init [simp]: "tb_inv (tb_init c busy)"
  by (simp add: tb_inv_def tb_init_def)

lemma tb_inv_record: "tb_inv b \<Longrightarrow> tb_inv (record_trace e b)"
  by (auto simp: tb_inv_def record_trace_def try_lock_def split: list.splits)

lemma length_snapshot_trace [simp]: "length (snapshot_trace b) = tb_size b"
  by (simp add: snapshot_trace_def)

definition store_trace :: "TraceEvent \<Rightarrow> TraceBuffer \<Rightarrow> TraceBuffer" where
  "store_trace event b = b\<lparr>tb_storage := (tb_storage b)[tb_next b := event],
     tb_next := (tb_next b + 1) mod tb_capacity b, tb_size := min (tb_size b + 1) (tb_capacity b)\<rparr>"

lemma snapshot_store:
  assumes "tb_inv b" and "0 < tb_capacity b"
  shows "snapshot_trace (store_trace e b) = keep_last (tb_capacity b) (snapshot_trace b @ [e])"
proof (cases "tb_size b < tb_capacity b")
  case True
  then show ?thesis
    using assms
    by (intro nth_equalityI)
      (auto simp: keep_last_snoc tb_inv_def snapshot_trace_def store_trace_def Let_def nth_append
        nth_list_update less_Suc_eq)
next
  case False
  then have full: "tb_size b = tb_capacity b" and n: "tb_next b < tb_capacity b"
    and l: "length (tb_storage b) = tb_capacity b" using assms by (auto simp: tb_inv_def)
  have wrap: "(Suc (tb_next b) mod tb_capacity b + i) mod tb_capacity b =
      (tb_next b + Suc i) mod tb_capacity b" for i
    by (simp add: mod_add_left_eq)
  have other: "(tb_next b + Suc i) mod tb_capacity b \<noteq> tb_next b" if "Suc i < tb_capacity b" for i
    using ring_index_head [OF n that] by simp
  have last: "(tb_next b + tb_capacity b) mod tb_capacity b = tb_next b" using n by simp
  show ?thesis
  proof (rule nth_equalityI)
    show "length (snapshot_trace (store_trace e b)) =
        length (keep_last (tb_capacity b) (snapshot_trace b @ [e]))"
      using full assms(2) by (simp add: store_trace_def keep_last_def)
  next
    fix i
    assume "i < length (snapshot_trace (store_trace e b))"
    then have i: "i < tb_capacity b" using full by (simp add: store_trace_def)
    show "snapshot_trace (store_trace e b) ! i =
        keep_last (tb_capacity b) (snapshot_trace b @ [e]) ! i"
    proof (cases "Suc i < tb_capacity b")
      case True
      then show ?thesis using i full n l assms(2) other [OF True]
        by (simp add: keep_last_snoc snapshot_trace_def store_trace_def Let_def wrap nth_append
            nth_tl nth_list_update del: upt_Suc)
    next
      case False
      then have s: "Suc i = tb_capacity b" using i by simp
      then have "Suc (tb_next b + i) mod tb_capacity b = tb_next b"
        using last by (metis add_Suc_right)
      with s show ?thesis using i full n l assms(2) last
        by (simp add: keep_last_snoc snapshot_trace_def store_trace_def Let_def wrap nth_append
            nth_tl nth_list_update del: upt_Suc)
    qed
  qed
qed

lemma record_trace_cases:
  "record_trace e b =
     (if tb_capacity b = 0 then b\<lparr>tb_dropped := tb_dropped b + 1\<rparr>
      else case tb_lock_busy b of [] \<Rightarrow> store_trace e b
        | busy # rest \<Rightarrow> if busy then b\<lparr>tb_lock_busy := rest, tb_dropped := tb_dropped b + 1\<rparr>
                         else store_trace e (b\<lparr>tb_lock_busy := rest\<rparr>))"
  by (simp add: record_trace_def try_lock_def store_trace_def split: list.splits)

lemma tb_capacity_simps [simp]:
  "tb_capacity (record_trace e b) = tb_capacity b" "tb_capacity (store_trace e b) = tb_capacity b"
  "tb_dropped (store_trace e b) = tb_dropped b" "tb_lock_busy (store_trace e b) = tb_lock_busy b"
  by (auto simp: record_trace_cases store_trace_def split: list.splits)

lemma snapshot_trace_update [simp]:
  "snapshot_trace (b\<lparr>tb_lock_busy := l\<rparr>) = snapshot_trace b"
  "snapshot_trace (b\<lparr>tb_dropped := d\<rparr>) = snapshot_trace b"
  "tb_inv (b\<lparr>tb_lock_busy := l\<rparr>) = tb_inv b"
  by (simp_all add: snapshot_trace_def tb_inv_def)

section \<open>Runs with contention\<close>

text \<open>The events whose attempt finds the lock free, in order, and how many do not.\<close>

fun uncontended :: "bool list \<Rightarrow> 'a list \<Rightarrow> 'a list" where
  "uncontended busy [] = []"
| "uncontended [] (e # es) = e # es"
| "uncontended (b # bs) (e # es) = (if b then uncontended bs es else e # uncontended bs es)"

lemma uncontended_Nil [simp]: "uncontended [] es = es"
  by (cases es) simp_all

lemma tb_run:
  assumes "tb_inv b" and "0 < tb_capacity b"
  shows "snapshot_trace (fold record_trace es b) =
           keep_last (tb_capacity b) (snapshot_trace b @ uncontended (tb_lock_busy b) es) \<and>
         tb_dropped (fold record_trace es b) =
           tb_dropped b + of_nat (length es - length (uncontended (tb_lock_busy b) es)) \<and>
         length (uncontended (tb_lock_busy b) es) \<le> length es"
  using assms
proof (induction es arbitrary: b)
  case Nil
  then show ?case by (simp add: keep_last_def tb_inv_def)
next
  case (Cons e es)
  note IH = Cons.IH [OF tb_inv_record [OF Cons.prems(1), of e]]
  note keep = keep_last_keep_last [of "tb_capacity b" "snapshot_trace b @ [e]"]
  show ?case
  proof (cases "tb_lock_busy b")
    case Nil
    then show ?thesis using IH Cons.prems keep
      by (simp add: record_trace_cases snapshot_store)
  next
    case (Cons x xs)
    then show ?thesis using IH Cons.prems keep
      by (auto simp: record_trace_cases snapshot_store Suc_diff_le)
  qed
qed

section \<open>Properties\<close>

text \<open>
  The trace ring keeps the most recent events: after any sequence of records on a
  fresh buffer, whatever the pattern of lock contention, the snapshot is the list of
  the last \<open>capacity\<close> events that took the lock, oldest first, and the drop counter
  equals the number of events that did not.
\<close>

theorem trace_snapshot_latest:
  assumes "0 < capacity"
  shows "snapshot_trace (fold record_trace es (tb_init capacity busy)) =
           keep_last capacity (uncontended busy es) \<and>
         tb_dropped (fold record_trace es (tb_init capacity busy)) =
           of_nat (length es - length (uncontended busy es))"
  using tb_run [of "tb_init capacity busy" es] assms
  by (simp add: tb_init_def snapshot_trace_def tb_inv_def)

theorem trace_snapshot_latest_witness:
  "map te_value_a (snapshot_trace (fold record_trace
     (map (\<lambda>v. te_default\<lparr>te_value_a := v\<rparr>) [1, 2, 3, 4]) (tb_init 2 [False, True]))) = [3, 4] \<and>
   tb_dropped (fold record_trace
     (map (\<lambda>v. te_default\<lparr>te_value_a := v\<rparr>) [1, 2, 3, 4]) (tb_init 2 [False, True])) = 1"
  using trace_snapshot_latest [of 2 "map (\<lambda>v. te_default\<lparr>te_value_a := v\<rparr>) [1, 2, 3, 4]" "[False, True]"]
  by (simp add: keep_last_def te_default_def)

end
