(* ===== verification/Runtime.thy ===== *)
theory Runtime
  imports Can_V1 State_Machine Mailbox Watchdog Trace_Buffer Scheduler
begin

text \<open>
  The runtime object (\<^verbatim>\<open>linux/include/rcr/runtime.hpp\<close>, \<^verbatim>\<open>linux/src/runtime/linux_runtime.cpp\<close>) that
  composes state machine, mailbox, watchdog, trace and scheduler. Every operation
  holds \<^verbatim>\<open>state_mutex_\<close> for its whole effect, so it is one step of the state. Readings of
  the monotonic clock come from \<open>rt_clock\<close>, the results of the coming \<^verbatim>\<open>clock_gettime\<close>
  calls; an exhausted list stands for a failing clock. This theory holds the
  operations; their invariants and properties are in \<open>Runtime_Proofs\<close>.
\<close>

section \<open>State\<close>

record RuntimeConfig =
  rc_scheduler :: SchedulerConfig
  rc_command_timeout_ns :: i64
  rc_output_ack_timeout_ns :: i64
  rc_trace_capacity :: nat
  rc_test_throw_on_tick :: bool

record LinuxRuntime =
  rt_config :: RuntimeConfig
  rt_state_machine :: StateMachine
  rt_mailbox :: CommandMailbox
  rt_command_watchdog :: MonotonicWatchdog
  rt_trace :: TraceBuffer
  rt_scheduler :: PeriodicScheduler
  rt_active_session_id :: "u64 option"
  rt_last_output_sequence :: u64
  rt_output_ack_pending :: bool
  rt_last_sent_session :: u16
  rt_last_sent_sequence :: u16
  rt_last_sent_time_ns :: i64
  rt_last_ack_session :: u16
  rt_last_ack_sequence :: u16
  rt_last_ack_result :: OutputResult
  rt_last_ack_time_ns :: i64
  rt_ack_timeout_count :: u64
  rt_unexpected_ack_count :: u64
  rt_test_throw_on_tick :: bool
  rt_clock :: "i64 Result list"

definition rt_init :: "RuntimeConfig \<Rightarrow> bool list \<Rightarrow> i64 Result list \<Rightarrow> LinuxRuntime" where
  "rt_init config busy clock =
     \<lparr>rt_config = config, rt_state_machine = sm_init, rt_mailbox = mb_init,
      rt_command_watchdog = wd_init (rc_command_timeout_ns config),
      rt_trace = tb_init (rc_trace_capacity config) busy,
      rt_scheduler = ps_init (rc_scheduler config),
      rt_active_session_id = None, rt_last_output_sequence = 0, rt_output_ack_pending = False,
      rt_last_sent_session = 0, rt_last_sent_sequence = 0, rt_last_sent_time_ns = 0,
      rt_last_ack_session = 0, rt_last_ack_sequence = 0, rt_last_ack_result = OutputResult.Applied,
      rt_last_ack_time_ns = 0, rt_ack_timeout_count = 0, rt_unexpected_ack_count = 0,
      rt_test_throw_on_tick = rc_test_throw_on_tick config, rt_clock = clock\<rparr>"

section \<open>Clock and trace\<close>

definition clock_error :: Error where
  "clock_error = Error Errc.IoError ''clock_gettime(CLOCK_MONOTONIC): ''"

text \<open>\<^verbatim>\<open>monotonic_now_ns()\<close>: the next reading, and the state after the call.\<close>

definition rt_now :: "LinuxRuntime \<Rightarrow> i64 Result" where
  "rt_now rt = (case rt_clock rt of [] \<Rightarrow> Inl clock_error | r # _ \<Rightarrow> r)"

definition rt_clock_read :: "LinuxRuntime \<Rightarrow> LinuxRuntime" where
  "rt_clock_read rt = rt\<lparr>rt_clock := tl (rt_clock rt)\<rparr>"

text \<open>\<^verbatim>\<open>now ? now.value() : 0\<close>\<close>

definition now_or_zero :: "i64 Result \<Rightarrow> i64" where
  "now_or_zero now = (case now of Inl _ \<Rightarrow> 0 | Inr t \<Rightarrow> t)"

definition rt_record :: "i64 \<Rightarrow> TraceKind \<Rightarrow> i64 \<Rightarrow> i64 \<Rightarrow> LinuxRuntime \<Rightarrow> LinuxRuntime" where
  "rt_record t kind a b rt =
     rt\<lparr>rt_trace := record_trace \<lparr>te_timestamp_ns = t, te_kind = kind, te_value_a = a, te_value_b = b\<rparr> (rt_trace rt)\<rparr>"

definition trace_transition :: "TransitionResult \<Rightarrow> i64 \<Rightarrow> LinuxRuntime \<Rightarrow> LinuxRuntime" where
  "trace_transition transition now_ns =
     rt_record now_ns TraceKind.StateTransition
       (RuntimeMode_code (tr_from transition)) (RuntimeMode_code (tr_to transition))"

section \<open>Output path helpers\<close>

definition clear_output_path_locked :: "LinuxRuntime \<Rightarrow> LinuxRuntime" where
  "clear_output_path_locked rt =
     rt\<lparr>rt_command_watchdog := wd_disarm (rt_command_watchdog rt),
        rt_mailbox := mb_clear (rt_mailbox rt), rt_active_session_id := None,
        rt_last_output_sequence := 0, rt_output_ack_pending := False\<rparr>"

definition maybe_disarm_idle_command_watchdog_locked :: "LinuxRuntime \<Rightarrow> LinuxRuntime" where
  "maybe_disarm_idle_command_watchdog_locked rt =
     (if \<not> mb_has_pending (rt_mailbox rt) \<and> \<not> rt_output_ack_pending rt
      then rt\<lparr>rt_command_watchdog := wd_disarm (rt_command_watchdog rt)\<rparr> else rt)"

abbreviation rt_running :: "LinuxRuntime \<Rightarrow> bool" where
  "rt_running rt \<equiv> ps_running (rt_scheduler rt)"

abbreviation rt_mode :: "LinuxRuntime \<Rightarrow> RuntimeMode" where
  "rt_mode rt \<equiv> sm_mode (rt_state_machine rt)"

section \<open>Life cycle\<close>

definition rt_start :: "StartEnv \<Rightarrow> LinuxRuntime \<Rightarrow> LinuxRuntime \<times> unit Result" where
  "rt_start env rt =
     (if rc_command_timeout_ns (rt_config rt) \<le> 0 \<or> rc_output_ack_timeout_ns (rt_config rt) \<le> 0
      then (rt, Inl (Error Errc.InvalidArgument ''command watchdog and output ACK timeouts must be positive''))
      else let (ps, result) = ps_start env True (rt_scheduler rt) in (rt\<lparr>rt_scheduler := ps\<rparr>, result))"

definition rt_stop :: "LinuxRuntime \<Rightarrow> LinuxRuntime" where
  "rt_stop rt =
     (let rt = rt\<lparr>rt_scheduler := ps_join (ps_request_stop (rt_scheduler rt))\<rparr>;
          rt = clear_output_path_locked rt;
          before = rt_mode rt;
          rt = rt\<lparr>rt_state_machine := sm_init\<rparr>
      in if before \<noteq> RuntimeMode.Disabled
         then rt_record (now_or_zero (rt_now rt)) TraceKind.StateTransition
                (RuntimeMode_code before) (RuntimeMode_code RuntimeMode.Disabled) (rt_clock_read rt)
         else rt)"

section \<open>Events, faults, interlock\<close>

definition refused :: "string \<Rightarrow> LinuxRuntime \<Rightarrow> TransitionResult" where
  "refused reason rt =
     \<lparr>tr_accepted = False, tr_from = rt_mode rt, tr_to = rt_mode rt, tr_reason = reason\<rparr>"

definition rt_handle :: "RuntimeEvent \<Rightarrow> LinuxRuntime \<Rightarrow> LinuxRuntime \<times> TransitionResult" where
  "rt_handle event rt0 =
     (let now = rt_now rt0; rt = rt_clock_read rt0 in
      if event = RuntimeEvent.FaultDetected
        then (rt, refused ''use raise_fault(code) for atomic fault escalation'' rt)
      else if event = RuntimeEvent.ActivateRequest \<and> \<not> rt_running rt
        then (rt, refused ''runtime scheduler is not running'' rt)
      else let (sm, transition) = handle event (rt_state_machine rt);
               rt = rt\<lparr>rt_state_machine := sm\<rparr> in
        if tr_accepted transition then
          (let rt = (if tr_to transition = RuntimeMode.Active \<and> tr_from transition \<noteq> RuntimeMode.Active
                     then clear_output_path_locked rt
                     else if tr_from transition = RuntimeMode.Active \<and> tr_to transition \<noteq> RuntimeMode.Active
                     then clear_output_path_locked rt else rt)
           in (trace_transition transition (now_or_zero now) rt, transition))
        else (rt, transition))"

definition raise_fault :: "FaultCode \<Rightarrow> LinuxRuntime \<Rightarrow> LinuxRuntime \<times> TransitionResult" where
  "raise_fault code rt0 =
     (let now = rt_now rt0; rt = rt_clock_read rt0 in
      if code = FaultCode.NoFault
        then (rt, refused ''raise_fault requires a non-NONE fault code'' rt)
      else let (sm, transition) = handle RuntimeEvent.FaultDetected (set_fault code (rt_state_machine rt));
               rt = clear_output_path_locked (rt\<lparr>rt_state_machine := sm\<rparr>);
               rt = rt_record (now_or_zero now) TraceKind.FaultRaised
                      (FaultCode_code code) (RuntimeMode_code (tr_to transition)) rt in
        (if tr_accepted transition then trace_transition transition (now_or_zero now) rt else rt, transition))"

definition rt_set_interlock_ready :: "bool \<Rightarrow> LinuxRuntime \<Rightarrow> LinuxRuntime" where
  "rt_set_interlock_ready ready rt0 =
     (let now = rt_now rt0; rt = rt_clock_read rt0;
          before = rt_mode rt;
          rt = rt\<lparr>rt_state_machine := sm_set_interlock_ready ready (rt_state_machine rt)\<rparr>;
          after = rt_mode rt;
          rt = (if before = RuntimeMode.Active \<and> after \<noteq> RuntimeMode.Active
                then clear_output_path_locked rt else rt)
      in if before \<noteq> after
         then rt_record (now_or_zero now) TraceKind.StateTransition
                (RuntimeMode_code before) (RuntimeMode_code after) rt
         else rt)"

section \<open>Output commands\<close>

definition reject_command :: "OutputCommand \<Rightarrow> i64 \<Rightarrow> string \<Rightarrow> LinuxRuntime \<Rightarrow> LinuxRuntime \<times> unit Result" where
  "reject_command command now_ns message rt =
     (rt_record now_ns TraceKind.OutputCommandRejected (sint (oc_sequence command)) 0 rt,
      Inl (Error Errc.Rejected message))"

definition publish_output_command :: "OutputCommand \<Rightarrow> LinuxRuntime \<Rightarrow> LinuxRuntime \<times> unit Result" where
  "publish_output_command command rt0 =
     (let rt = rt_clock_read rt0 in
      case rt_now rt0 of
        Inl e \<Rightarrow> (rt, Inl e)
      | Inr now \<Rightarrow>
        if \<not> rt_running rt then (rt, Inl (Error Errc.Rejected ''runtime scheduler is not running''))
        else if \<not> can_accept_output (rt_state_machine rt)
          then reject_command command now ''runtime is not active or software interlock is open'' rt
        else if oc_session_id command = 0 \<or> oc_sequence command = 0 \<or> oc_mask command = 0
          then reject_command command now ''output command requires nonzero session, sequence, and mask'' rt
        else if oc_deadline_ns command \<le> now
          then reject_command command now ''output command deadline has expired or is missing'' rt
        else if rt_active_session_id rt \<noteq> None \<and> the (rt_active_session_id rt) \<noteq> oc_session_id command
          then reject_command command now ''output command belongs to a different active session'' rt
        else let rt = (if rt_active_session_id rt = None
                       then rt\<lparr>rt_active_session_id := Some (oc_session_id command)\<rparr> else rt) in
          if oc_sequence command \<le> rt_last_output_sequence rt
          then reject_command command now ''output command sequence is stale or duplicated'' rt
          else let rt = rt\<lparr>rt_last_output_sequence := oc_sequence command,
                           rt_mailbox := mb_publish command (rt_mailbox rt),
                           rt_command_watchdog := wd_arm now (rt_command_watchdog rt)\<rparr>
            in (rt_record now TraceKind.OutputCommandPublished (sint (oc_sequence command))
                  (oc_deadline_ns command) rt, Inr ()))"

definition try_consume_output_command :: "LinuxRuntime \<Rightarrow> LinuxRuntime \<times> OutputCommand option" where
  "try_consume_output_command rt0 =
     (let rt = rt_clock_read rt0 in
      case rt_now rt0 of
        Inl _ \<Rightarrow> (rt, None)
      | Inr now \<Rightarrow>
        if \<not> rt_running rt \<or> \<not> can_accept_output (rt_state_machine rt)
          then (rt\<lparr>rt_mailbox := mb_clear (rt_mailbox rt)\<rparr>, None)
        else if rt_output_ack_pending rt then (rt, None)
        else let (mb, command) = mb_try_consume (rt_mailbox rt); rt = rt\<lparr>rt_mailbox := mb\<rparr> in
          case command of
            Some c \<Rightarrow>
              if oc_deadline_ns c \<le> now
              then (maybe_disarm_idle_command_watchdog_locked
                     (rt_record now TraceKind.OutputCommandRejected (sint (oc_sequence c))
                        (oc_deadline_ns c) rt), None)
              else (rt, Some c)
          | None \<Rightarrow> (rt, None))"

definition output_command_sendable :: "OutputCommand \<Rightarrow> LinuxRuntime \<Rightarrow> LinuxRuntime \<times> bool" where
  "output_command_sendable command rt0 =
     (let rt = rt_clock_read rt0 in
      case rt_now rt0 of
        Inl _ \<Rightarrow> (rt, False)
      | Inr now \<Rightarrow>
        (rt, rt_running rt \<and> can_accept_output (rt_state_machine rt) \<and> \<not> rt_output_ack_pending rt \<and>
             rt_active_session_id rt = Some (oc_session_id command) \<and> oc_deadline_ns command > now))"

definition note_output_command_sent :: "u16 \<Rightarrow> u16 \<Rightarrow> i64 \<Rightarrow> LinuxRuntime \<Rightarrow> LinuxRuntime \<times> unit Result" where
  "note_output_command_sent session_id sequence sent_time_ns rt =
     (if session_id = 0 \<or> sequence = 0 \<or> sent_time_ns \<le> 0
        then (rt, Inl (Error Errc.InvalidArgument
               ''sent output requires nonzero wire session, sequence, and timestamp''))
      else if \<not> rt_running rt \<or> \<not> can_accept_output (rt_state_machine rt) \<or>
              rt_active_session_id rt = None \<or> ucast (the (rt_active_session_id rt)) \<noteq> session_id
        then (rt, Inl (Error Errc.Rejected ''runtime closed while output command was being sent''))
      else if rt_output_ack_pending rt
        then (rt, Inl (Error Errc.Busy ''an output command ACK is already pending''))
      else (rt_record sent_time_ns TraceKind.OutputCommandSent (uint sequence) (uint session_id)
              (rt\<lparr>rt_output_ack_pending := True, rt_last_sent_session := session_id,
                  rt_last_sent_sequence := sequence, rt_last_sent_time_ns := sent_time_ns\<rparr>), Inr ()))"

definition observe_output_status :: "u16 \<Rightarrow> u16 \<Rightarrow> OutputResult \<Rightarrow> i64 \<Rightarrow> LinuxRuntime \<Rightarrow> LinuxRuntime" where
  "observe_output_status session_id sequence result ack_time_ns rt0 =
     (let rt = rt0\<lparr>rt_last_ack_session := session_id, rt_last_ack_sequence := sequence,
                   rt_last_ack_result := result, rt_last_ack_time_ns := ack_time_ns\<rparr>;
          rt = rt_record ack_time_ns TraceKind.OutputAckObserved (uint sequence)
                 (uint (OutputResult_code result)) rt;
          matches = (rt_output_ack_pending rt \<and> session_id = rt_last_sent_session rt \<and>
                     sequence = rt_last_sent_sequence rt)
      in if matches \<and> result = OutputResult.Applied
         then maybe_disarm_idle_command_watchdog_locked (rt\<lparr>rt_output_ack_pending := False\<rparr>)
         else rt_record ack_time_ns TraceKind.OutputAckUnexpected (uint sequence)
                (uint (OutputResult_code result))
                (rt\<lparr>rt_unexpected_ack_count := rt_unexpected_ack_count rt + 1\<rparr>))"

section \<open>The periodic tick\<close>

definition tick_trace :: "SchedulerTick \<Rightarrow> LinuxRuntime \<Rightarrow> LinuxRuntime" where
  "tick_trace tick rt =
     (let rt = rt_record (tick_actual_ns tick) TraceKind.SchedulerTick
                 (tick_wakeup_lateness_ns tick) (sint (tick_sequence tick)) rt
      in if tick_wakeup_lateness_ns tick \<ge> sc_period_ns (rc_scheduler (rt_config rt))
         then rt_record (tick_actual_ns tick) TraceKind.DeadlineMiss
                (tick_wakeup_lateness_ns tick) (sint (tick_sequence tick)) rt
         else rt)"

definition tick_ack_timeout :: "i64 \<Rightarrow> LinuxRuntime \<Rightarrow> LinuxRuntime" where
  "tick_ack_timeout actual_ns rt =
     (if can_accept_output (rt_state_machine rt) \<and> rt_output_ack_pending rt \<and>
         actual_ns \<ge> rt_last_sent_time_ns rt \<and>
         actual_ns - rt_last_sent_time_ns rt \<ge> rc_output_ack_timeout_ns (rt_config rt)
      then let rt = rt\<lparr>rt_ack_timeout_count := rt_ack_timeout_count rt + 1\<rparr>;
               rt = rt_record actual_ns TraceKind.OutputAckTimeout (uint (rt_last_sent_sequence rt))
                      (actual_ns - rt_last_sent_time_ns rt) rt;
               (sm, transition) = handle RuntimeEvent.Hold (set_fault FaultCode.AckTimeout (rt_state_machine rt))
           in trace_transition transition actual_ns
                (clear_output_path_locked (rt\<lparr>rt_state_machine := sm\<rparr>))
      else rt)"

definition tick_watchdog :: "i64 \<Rightarrow> LinuxRuntime \<Rightarrow> LinuxRuntime" where
  "tick_watchdog actual_ns rt =
     (if can_accept_output (rt_state_machine rt)
      then let (wd, check) = wd_check actual_ns (rt_command_watchdog rt);
               rt = rt\<lparr>rt_command_watchdog := wd\<rparr>
           in if wk_newly_expired check
              then let rt = rt_record actual_ns TraceKind.WatchdogExpired (wk_age_ns check) 0 rt;
                       (sm, transition) = handle RuntimeEvent.CommandTimeout (rt_state_machine rt)
                   in trace_transition transition actual_ns
                        (clear_output_path_locked (rt\<lparr>rt_state_machine := sm\<rparr>))
              else rt
      else rt)"

text \<open>
  \<^verbatim>\<open>on_tick\<close>: the supervision hook runs last, outside the lock, on the runtime and the
  state it closes over. The result \<open>True\<close> is the exception of the test seam.
\<close>

definition rt_on_tick ::
  "(i64 \<Rightarrow> LinuxRuntime \<times> 'x \<Rightarrow> LinuxRuntime \<times> 'x) option \<Rightarrow> SchedulerTick \<Rightarrow>
   LinuxRuntime \<times> 'x \<Rightarrow> (LinuxRuntime \<times> 'x) \<times> bool" where
  "rt_on_tick hook tick = (\<lambda>(rt, x).
     if rt_test_throw_on_tick rt then ((rt\<lparr>rt_test_throw_on_tick := False\<rparr>, x), True)
     else let rt = tick_watchdog (tick_actual_ns tick)
                     (tick_ack_timeout (tick_actual_ns tick) (tick_trace tick rt))
          in (case hook of None \<Rightarrow> (rt, x) | Some h \<Rightarrow> h (tick_actual_ns tick) (rt, x), False))"

text \<open>The worker's turn with the runtime as the owner of the callback.\<close>

definition rt_cycle ::
  "(i64 \<Rightarrow> LinuxRuntime \<times> 'x \<Rightarrow> LinuxRuntime \<times> 'x) option \<Rightarrow> CycleEnv \<Rightarrow>
   LinuxRuntime \<times> 'x \<Rightarrow> LinuxRuntime \<times> 'x" where
  "rt_cycle hook env = (\<lambda>(rt, x).
     if \<not> rt_running rt then (rt, x)
     else case ps_cycle env (rt_on_tick hook) (rt_scheduler rt, (rt, x)) of
       None \<Rightarrow> (rt, x)
     | Some (ps, (rt', x')) \<Rightarrow> (rt'\<lparr>rt_scheduler := ps\<rparr>, x'))"

section \<open>Snapshot\<close>

record RuntimeSnapshot =
  sn_mode :: RuntimeMode
  sn_fault :: FaultCode
  sn_interlock_ready :: bool
  sn_running :: bool
  sn_scheduler :: SchedulerStats
  sn_published_commands :: u64
  sn_overwritten_commands :: u64
  sn_output_ack_pending :: bool
  sn_last_sent_session :: u16
  sn_last_sent_sequence :: u16
  sn_last_sent_time_ns :: i64
  sn_last_ack_session :: u16
  sn_last_ack_sequence :: u16
  sn_last_ack_result :: OutputResult
  sn_last_ack_time_ns :: i64
  sn_ack_timeout_count :: u64
  sn_unexpected_ack_count :: u64
  sn_trace_dropped :: u64

definition rt_snapshot :: "LinuxRuntime \<Rightarrow> RuntimeSnapshot" where
  "rt_snapshot rt =
     \<lparr>sn_mode = rt_mode rt, sn_fault = sm_fault (rt_state_machine rt),
      sn_interlock_ready = sm_interlock_ready (rt_state_machine rt), sn_running = rt_running rt,
      sn_scheduler = ps_stats (rt_scheduler rt),
      sn_published_commands = mb_publish_count (rt_mailbox rt),
      sn_overwritten_commands = mb_drop_count (rt_mailbox rt),
      sn_output_ack_pending = rt_output_ack_pending rt,
      sn_last_sent_session = rt_last_sent_session rt, sn_last_sent_sequence = rt_last_sent_sequence rt,
      sn_last_sent_time_ns = rt_last_sent_time_ns rt, sn_last_ack_session = rt_last_ack_session rt,
      sn_last_ack_sequence = rt_last_ack_sequence rt, sn_last_ack_result = rt_last_ack_result rt,
      sn_last_ack_time_ns = rt_last_ack_time_ns rt, sn_ack_timeout_count = rt_ack_timeout_count rt,
      sn_unexpected_ack_count = rt_unexpected_ack_count rt,
      sn_trace_dropped = tb_dropped (rt_trace rt)\<rparr>"

definition rt_trace_snapshot :: "LinuxRuntime \<Rightarrow> TraceEvent list" where
  "rt_trace_snapshot rt = snapshot_trace (rt_trace rt)"

end
