(* ===== verification/Runtime_Proofs.thy ===== *)
theory Runtime_Proofs
  imports Runtime
begin

text \<open>
  Invariant and properties of the runtime object. The invariant ties the output path
  (mailbox, bound session, last sequence, acknowledgement in flight, watchdog) to the
  mode of the state machine; every operation keeps it, in every order of calls.
\<close>

section \<open>What the helpers leave alone\<close>

lemma rt_record_simps [simp]:
  "rt_config (rt_record t k a b rt) = rt_config rt" "rt_state_machine (rt_record t k a b rt) = rt_state_machine rt"
  "rt_mailbox (rt_record t k a b rt) = rt_mailbox rt" "rt_command_watchdog (rt_record t k a b rt) = rt_command_watchdog rt"
  "rt_scheduler (rt_record t k a b rt) = rt_scheduler rt" "rt_active_session_id (rt_record t k a b rt) = rt_active_session_id rt"
  "rt_last_output_sequence (rt_record t k a b rt) = rt_last_output_sequence rt" "rt_output_ack_pending (rt_record t k a b rt) = rt_output_ack_pending rt"
  "rt_last_sent_session (rt_record t k a b rt) = rt_last_sent_session rt" "rt_last_sent_sequence (rt_record t k a b rt) = rt_last_sent_sequence rt"
  "rt_last_sent_time_ns (rt_record t k a b rt) = rt_last_sent_time_ns rt" "rt_last_ack_session (rt_record t k a b rt) = rt_last_ack_session rt"
  "rt_last_ack_sequence (rt_record t k a b rt) = rt_last_ack_sequence rt" "rt_last_ack_result (rt_record t k a b rt) = rt_last_ack_result rt"
  "rt_last_ack_time_ns (rt_record t k a b rt) = rt_last_ack_time_ns rt" "rt_ack_timeout_count (rt_record t k a b rt) = rt_ack_timeout_count rt"
  "rt_unexpected_ack_count (rt_record t k a b rt) = rt_unexpected_ack_count rt" "rt_test_throw_on_tick (rt_record t k a b rt) = rt_test_throw_on_tick rt"
  "rt_clock (rt_record t k a b rt) = rt_clock rt"
  by (simp_all add: rt_record_def)

lemma trace_transition_simps [simp]:
  "rt_config (trace_transition tr t rt) = rt_config rt" "rt_state_machine (trace_transition tr t rt) = rt_state_machine rt"
  "rt_mailbox (trace_transition tr t rt) = rt_mailbox rt" "rt_command_watchdog (trace_transition tr t rt) = rt_command_watchdog rt"
  "rt_scheduler (trace_transition tr t rt) = rt_scheduler rt" "rt_active_session_id (trace_transition tr t rt) = rt_active_session_id rt"
  "rt_last_output_sequence (trace_transition tr t rt) = rt_last_output_sequence rt" "rt_output_ack_pending (trace_transition tr t rt) = rt_output_ack_pending rt"
  "rt_last_sent_session (trace_transition tr t rt) = rt_last_sent_session rt" "rt_last_sent_sequence (trace_transition tr t rt) = rt_last_sent_sequence rt"
  "rt_last_sent_time_ns (trace_transition tr t rt) = rt_last_sent_time_ns rt" "rt_last_ack_session (trace_transition tr t rt) = rt_last_ack_session rt"
  "rt_last_ack_sequence (trace_transition tr t rt) = rt_last_ack_sequence rt" "rt_last_ack_result (trace_transition tr t rt) = rt_last_ack_result rt"
  "rt_last_ack_time_ns (trace_transition tr t rt) = rt_last_ack_time_ns rt" "rt_ack_timeout_count (trace_transition tr t rt) = rt_ack_timeout_count rt"
  "rt_unexpected_ack_count (trace_transition tr t rt) = rt_unexpected_ack_count rt" "rt_test_throw_on_tick (trace_transition tr t rt) = rt_test_throw_on_tick rt"
  "rt_clock (trace_transition tr t rt) = rt_clock rt"
  by (simp_all add: trace_transition_def)

lemma rt_clock_read_simps [simp]:
  "rt_config (rt_clock_read rt) = rt_config rt" "rt_state_machine (rt_clock_read rt) = rt_state_machine rt"
  "rt_mailbox (rt_clock_read rt) = rt_mailbox rt" "rt_command_watchdog (rt_clock_read rt) = rt_command_watchdog rt"
  "rt_trace (rt_clock_read rt) = rt_trace rt" "rt_scheduler (rt_clock_read rt) = rt_scheduler rt"
  "rt_active_session_id (rt_clock_read rt) = rt_active_session_id rt" "rt_last_output_sequence (rt_clock_read rt) = rt_last_output_sequence rt"
  "rt_output_ack_pending (rt_clock_read rt) = rt_output_ack_pending rt" "rt_last_sent_session (rt_clock_read rt) = rt_last_sent_session rt"
  "rt_last_sent_sequence (rt_clock_read rt) = rt_last_sent_sequence rt" "rt_last_sent_time_ns (rt_clock_read rt) = rt_last_sent_time_ns rt"
  "rt_last_ack_session (rt_clock_read rt) = rt_last_ack_session rt" "rt_last_ack_sequence (rt_clock_read rt) = rt_last_ack_sequence rt"
  "rt_last_ack_result (rt_clock_read rt) = rt_last_ack_result rt" "rt_last_ack_time_ns (rt_clock_read rt) = rt_last_ack_time_ns rt"
  "rt_ack_timeout_count (rt_clock_read rt) = rt_ack_timeout_count rt" "rt_unexpected_ack_count (rt_clock_read rt) = rt_unexpected_ack_count rt"
  "rt_test_throw_on_tick (rt_clock_read rt) = rt_test_throw_on_tick rt"
  by (simp_all add: rt_clock_read_def)

lemma clear_output_path_frame [simp]:
  "rt_config (clear_output_path_locked rt) = rt_config rt" "rt_state_machine (clear_output_path_locked rt) = rt_state_machine rt"
  "rt_trace (clear_output_path_locked rt) = rt_trace rt" "rt_scheduler (clear_output_path_locked rt) = rt_scheduler rt"
  "rt_last_sent_session (clear_output_path_locked rt) = rt_last_sent_session rt" "rt_last_sent_sequence (clear_output_path_locked rt) = rt_last_sent_sequence rt"
  "rt_last_sent_time_ns (clear_output_path_locked rt) = rt_last_sent_time_ns rt" "rt_last_ack_session (clear_output_path_locked rt) = rt_last_ack_session rt"
  "rt_last_ack_sequence (clear_output_path_locked rt) = rt_last_ack_sequence rt" "rt_last_ack_result (clear_output_path_locked rt) = rt_last_ack_result rt"
  "rt_last_ack_time_ns (clear_output_path_locked rt) = rt_last_ack_time_ns rt" "rt_ack_timeout_count (clear_output_path_locked rt) = rt_ack_timeout_count rt"
  "rt_unexpected_ack_count (clear_output_path_locked rt) = rt_unexpected_ack_count rt" "rt_test_throw_on_tick (clear_output_path_locked rt) = rt_test_throw_on_tick rt"
  "rt_clock (clear_output_path_locked rt) = rt_clock rt"
  by (simp_all add: clear_output_path_locked_def)

lemma clear_output_path_effect [simp]:
  "rt_command_watchdog (clear_output_path_locked rt) = wd_disarm (rt_command_watchdog rt)"
  "mb_slot (rt_mailbox (clear_output_path_locked rt)) = None"
  "rt_active_session_id (clear_output_path_locked rt) = None"
  "rt_last_output_sequence (clear_output_path_locked rt) = 0"
  "rt_output_ack_pending (clear_output_path_locked rt) = False"
  by (simp_all add: clear_output_path_locked_def)

lemma maybe_disarm_frame [simp]:
  "rt_config (maybe_disarm_idle_command_watchdog_locked rt) = rt_config rt" "rt_state_machine (maybe_disarm_idle_command_watchdog_locked rt) = rt_state_machine rt"
  "rt_mailbox (maybe_disarm_idle_command_watchdog_locked rt) = rt_mailbox rt" "rt_trace (maybe_disarm_idle_command_watchdog_locked rt) = rt_trace rt"
  "rt_scheduler (maybe_disarm_idle_command_watchdog_locked rt) = rt_scheduler rt" "rt_active_session_id (maybe_disarm_idle_command_watchdog_locked rt) = rt_active_session_id rt"
  "rt_last_output_sequence (maybe_disarm_idle_command_watchdog_locked rt) = rt_last_output_sequence rt" "rt_output_ack_pending (maybe_disarm_idle_command_watchdog_locked rt) = rt_output_ack_pending rt"
  "rt_last_sent_session (maybe_disarm_idle_command_watchdog_locked rt) = rt_last_sent_session rt" "rt_last_sent_sequence (maybe_disarm_idle_command_watchdog_locked rt) = rt_last_sent_sequence rt"
  "rt_last_sent_time_ns (maybe_disarm_idle_command_watchdog_locked rt) = rt_last_sent_time_ns rt" "rt_last_ack_session (maybe_disarm_idle_command_watchdog_locked rt) = rt_last_ack_session rt"
  "rt_last_ack_sequence (maybe_disarm_idle_command_watchdog_locked rt) = rt_last_ack_sequence rt" "rt_last_ack_result (maybe_disarm_idle_command_watchdog_locked rt) = rt_last_ack_result rt"
  "rt_last_ack_time_ns (maybe_disarm_idle_command_watchdog_locked rt) = rt_last_ack_time_ns rt" "rt_ack_timeout_count (maybe_disarm_idle_command_watchdog_locked rt) = rt_ack_timeout_count rt"
  "rt_unexpected_ack_count (maybe_disarm_idle_command_watchdog_locked rt) = rt_unexpected_ack_count rt" "rt_test_throw_on_tick (maybe_disarm_idle_command_watchdog_locked rt) = rt_test_throw_on_tick rt"
  "rt_clock (maybe_disarm_idle_command_watchdog_locked rt) = rt_clock rt"
  by (simp_all add: maybe_disarm_idle_command_watchdog_locked_def)

lemma tb_inv_rt_record [simp]: "tb_inv (rt_trace rt) \<Longrightarrow> tb_inv (rt_trace (rt_record t k a b rt))"
  by (simp add: rt_record_def tb_inv_record)

lemma tb_inv_trace_transition [simp]:
  "tb_inv (rt_trace rt) \<Longrightarrow> tb_inv (rt_trace (trace_transition tr t rt))"
  by (simp add: trace_transition_def)

lemma wd_disarm_simps [simp]:
  "\<not> wd_armed (wd_disarm w)" "\<not> wd_expired (wd_disarm w)" "wd_timeout_ns (wd_disarm w) = wd_timeout_ns w"
  by (simp_all add: wd_disarm_def)

lemma wd_arm_simps [simp]:
  "wd_armed (wd_arm t w)" "\<not> wd_expired (wd_arm t w)" "wd_timeout_ns (wd_arm t w) = wd_timeout_ns w"
  "wd_last_kick_ns (wd_arm t w) = t"
  by (simp_all add: wd_arm_def)

section \<open>The invariant\<close>

text \<open>
  \<open>rt_base\<close>: the parts that do not depend on the output path. \<open>out_inv\<close>: without a bound
  session the output path is empty and unsupervised; a bound session exists only in
  ACTIVE, a pending command belongs to it, carries the last accepted sequence and is
  supervised, and an acknowledgement in flight is for this session.
\<close>

definition rt_base :: "LinuxRuntime \<Rightarrow> bool" where
  "rt_base rt \<longleftrightarrow> sm_inv (rt_state_machine rt) \<and> tb_inv (rt_trace rt) \<and>
     wd_timeout_ns (rt_command_watchdog rt) = rc_command_timeout_ns (rt_config rt) \<and>
     ps_config (rt_scheduler rt) = rc_scheduler (rt_config rt) \<and>
     (rt_running rt \<longrightarrow> ps_joinable (rt_scheduler rt) \<and> 0 < rc_command_timeout_ns (rt_config rt) \<and>
        0 < rc_output_ack_timeout_ns (rt_config rt) \<and> 0 < sc_period_ns (rc_scheduler (rt_config rt)))"

definition pending_ok :: "u64 \<Rightarrow> u64 \<Rightarrow> bool \<Rightarrow> OutputCommand option \<Rightarrow> bool" where
  "pending_ok session seq armed slot =
     (case slot of None \<Rightarrow> True
      | Some c \<Rightarrow> oc_session_id c = session \<and> oc_sequence c = seq \<and> oc_mask c \<noteq> 0 \<and> armed)"

definition out_inv :: "LinuxRuntime \<Rightarrow> bool" where
  "out_inv rt \<longleftrightarrow> \<not> wd_expired (rt_command_watchdog rt) \<and>
     (case rt_active_session_id rt of
        None \<Rightarrow> mb_slot (rt_mailbox rt) = None \<and> rt_last_output_sequence rt = 0 \<and>
                \<not> rt_output_ack_pending rt \<and> \<not> wd_armed (rt_command_watchdog rt)
      | Some s \<Rightarrow> rt_mode rt = RuntimeMode.Active \<and> s \<noteq> 0 \<and> rt_last_output_sequence rt \<noteq> 0 \<and>
                pending_ok s (rt_last_output_sequence rt) (wd_armed (rt_command_watchdog rt))
                  (mb_slot (rt_mailbox rt)) \<and>
                (rt_output_ack_pending rt \<longrightarrow> rt_last_sent_session rt = ucast s \<and>
                   rt_last_sent_session rt \<noteq> 0 \<and> rt_last_sent_sequence rt \<noteq> 0 \<and> 0 < rt_last_sent_time_ns rt))"

definition rt_inv :: "LinuxRuntime \<Rightarrow> bool" where
  "rt_inv rt \<longleftrightarrow> rt_base rt \<and> out_inv rt"

lemma out_inv_cleared [simp]: "out_inv (clear_output_path_locked rt)"
  by (simp add: out_inv_def)

lemma pending_ok_None [simp]: "pending_ok s q a None"
  by (simp add: pending_ok_def)

lemma rt_inv_init: "rt_inv (rt_init config busy clock)"
  by (simp add: rt_inv_def rt_base_def out_inv_def rt_init_def sm_inv_init wd_init_def ps_init_def)

text \<open>The output path does not look at trace, clock and diagnostics.\<close>

lemma out_inv_cong:
  assumes "rt_command_watchdog rt' = rt_command_watchdog rt" "rt_active_session_id rt' = rt_active_session_id rt"
    "rt_mailbox rt' = rt_mailbox rt" "rt_last_output_sequence rt' = rt_last_output_sequence rt"
    "rt_output_ack_pending rt' = rt_output_ack_pending rt" "rt_mode rt' = rt_mode rt"
    "rt_last_sent_session rt' = rt_last_sent_session rt" "rt_last_sent_sequence rt' = rt_last_sent_sequence rt"
    "rt_last_sent_time_ns rt' = rt_last_sent_time_ns rt"
  shows "out_inv rt' = out_inv rt"
  using assms by (cases "rt_active_session_id rt") (simp_all add: out_inv_def)

lemma out_inv_record [simp]: "out_inv (rt_record t k a b rt) = out_inv rt"
  by (rule out_inv_cong) simp_all

lemma out_inv_trace_transition [simp]: "out_inv (trace_transition tr t rt) = out_inv rt"
  by (rule out_inv_cong) simp_all

lemma out_inv_clock_read [simp]: "out_inv (rt_clock_read rt) = out_inv rt"
  by (rule out_inv_cong) simp_all

lemma rt_base_record [simp]: "rt_base rt \<Longrightarrow> rt_base (rt_record t k a b rt)"
  by (simp add: rt_base_def)

lemma rt_base_trace_transition [simp]: "rt_base rt \<Longrightarrow> rt_base (trace_transition tr t rt)"
  by (simp add: rt_base_def)

lemma rt_base_clock_read [simp]: "rt_base (rt_clock_read rt) = rt_base rt"
  by (simp add: rt_base_def)

lemma rt_base_cleared [simp]: "rt_base (clear_output_path_locked rt) = rt_base rt"
  by (simp add: rt_base_def)

lemma rt_base_state_machine: "rt_base rt \<Longrightarrow> sm_inv sm \<Longrightarrow> rt_base (rt\<lparr>rt_state_machine := sm\<rparr>)"
  by (simp add: rt_base_def)

lemma rt_base_sm: "rt_base rt \<Longrightarrow> sm_inv (rt_state_machine rt)"
  by (simp add: rt_base_def)

lemma rt_base_diag [simp]:
  "rt_base (rt\<lparr>rt_last_ack_session := v_last_ack_session\<rparr>) = rt_base rt"
  "rt_base (rt\<lparr>rt_last_ack_sequence := v_last_ack_sequence\<rparr>) = rt_base rt"
  "rt_base (rt\<lparr>rt_last_ack_result := v_last_ack_result\<rparr>) = rt_base rt"
  "rt_base (rt\<lparr>rt_last_ack_time_ns := v_last_ack_time_ns\<rparr>) = rt_base rt"
  "rt_base (rt\<lparr>rt_ack_timeout_count := v_ack_timeout_count\<rparr>) = rt_base rt"
  "rt_base (rt\<lparr>rt_unexpected_ack_count := v_unexpected_ack_count\<rparr>) = rt_base rt"
  "rt_base (rt\<lparr>rt_test_throw_on_tick := v_test_throw_on_tick\<rparr>) = rt_base rt"
  "rt_base (rt\<lparr>rt_clock := v_clock\<rparr>) = rt_base rt"
  "rt_base (rt\<lparr>rt_output_ack_pending := v_output_ack_pending\<rparr>) = rt_base rt"
  by (simp_all add: rt_base_def)

lemma out_inv_diag [simp]:
  "out_inv (rt\<lparr>rt_last_ack_session := v_last_ack_session\<rparr>) = out_inv rt"
  "out_inv (rt\<lparr>rt_last_ack_sequence := v_last_ack_sequence\<rparr>) = out_inv rt"
  "out_inv (rt\<lparr>rt_last_ack_result := v_last_ack_result\<rparr>) = out_inv rt"
  "out_inv (rt\<lparr>rt_last_ack_time_ns := v_last_ack_time_ns\<rparr>) = out_inv rt"
  "out_inv (rt\<lparr>rt_ack_timeout_count := v_ack_timeout_count\<rparr>) = out_inv rt"
  "out_inv (rt\<lparr>rt_unexpected_ack_count := v_unexpected_ack_count\<rparr>) = out_inv rt"
  "out_inv (rt\<lparr>rt_test_throw_on_tick := v_test_throw_on_tick\<rparr>) = out_inv rt"
  "out_inv (rt\<lparr>rt_clock := v_clock\<rparr>) = out_inv rt"
  by (rule out_inv_cong; simp)+

text \<open>A new machine state that keeps the mode, or that only matters with a cleared output path.\<close>

lemma out_inv_same_mode:
  "sm_mode sm = rt_mode rt \<Longrightarrow> out_inv (rt\<lparr>rt_state_machine := sm\<rparr>) = out_inv rt"
  by (rule out_inv_cong) simp_all

lemma out_inv_not_active:
  "out_inv rt \<Longrightarrow> rt_mode rt \<noteq> RuntimeMode.Active \<Longrightarrow> out_inv (rt\<lparr>rt_state_machine := sm\<rparr>)"
  by (auto simp: out_inv_def split: option.splits)

lemma out_inv_machine:
  assumes "out_inv rt" and "rt_mode rt = RuntimeMode.Active \<Longrightarrow> sm_mode sm = RuntimeMode.Active"
  shows "out_inv (rt\<lparr>rt_state_machine := sm\<rparr>)"
  using assms out_inv_same_mode [of sm rt] out_inv_not_active [of rt sm]
  by (cases "rt_mode rt = RuntimeMode.Active") auto

section \<open>Every operation keeps the invariant\<close>

lemma clock_read_machine:
  "(rt_clock_read rt)\<lparr>rt_state_machine := sm\<rparr> = rt_clock_read (rt\<lparr>rt_state_machine := sm\<rparr>)"
  by (simp add: rt_clock_read_def)

lemma rt_inv_handle: "rt_inv rt \<Longrightarrow> rt_inv (fst (rt_handle e rt))"
proof -
  assume inv: "rt_inv rt"
  obtain sm tr where h: "handle e (rt_state_machine rt) = (sm, tr)" by fastforce
  have sm: "sm_inv sm" using sm_inv_handle_eq [OF h] inv by (simp add: rt_inv_def rt_base_sm)
  note res = handle_result [OF h]
  have out: "out_inv (rt\<lparr>rt_state_machine := sm\<rparr>)"
    if "\<not> (tr_from tr = RuntimeMode.Active \<and> tr_to tr \<noteq> RuntimeMode.Active)"
    using inv that res by (intro out_inv_machine) (auto simp: rt_inv_def)
  show ?thesis
    using inv h sm res(1,2) out res(3)
    by (auto simp: rt_inv_def rt_handle_def Let_def clock_read_machine rt_base_state_machine split: if_splits)
qed

lemma rt_inv_raise_fault: "rt_inv rt \<Longrightarrow> rt_inv (fst (raise_fault code rt))"
  by (auto simp: rt_inv_def raise_fault_def Let_def rt_base_sm sm_inv_set_fault split: prod.splits
      intro!: rt_base_state_machine rt_base_trace_transition rt_base_record elim!: sm_inv_handle_eq)

lemma rt_inv_set_interlock: "rt_inv rt \<Longrightarrow> rt_inv (rt_set_interlock_ready b rt)"
proof -
  assume inv: "rt_inv rt"
  let ?sm = "sm_set_interlock_ready b (rt_state_machine rt)"
  have sm: "sm_inv ?sm" using inv by (simp add: rt_inv_def sm_set_interlock_ready_def sm_inv_handle rt_base_sm)
  have out: "out_inv (rt\<lparr>rt_state_machine := ?sm\<rparr>)"
    if "rt_mode rt \<noteq> RuntimeMode.Active \<or> sm_mode ?sm = RuntimeMode.Active"
    using inv that by (intro out_inv_machine) (auto simp: rt_inv_def)
  show ?thesis
    using inv sm out
    by (auto simp: rt_inv_def rt_set_interlock_ready_def Let_def clock_read_machine rt_base_state_machine)
qed

text \<open>When a command is admitted, and the state after it.\<close>

definition publishable :: "OutputCommand \<Rightarrow> i64 \<Rightarrow> LinuxRuntime \<Rightarrow> bool" where
  "publishable c now rt \<longleftrightarrow> rt_running rt \<and> rt_mode rt = RuntimeMode.Active \<and>
     oc_session_id c \<noteq> 0 \<and> oc_sequence c \<noteq> 0 \<and> oc_mask c \<noteq> 0 \<and> now < oc_deadline_ns c \<and>
     rt_active_session_id rt \<in> {None, Some (oc_session_id c)} \<and>
     rt_last_output_sequence rt < oc_sequence c"

definition published :: "OutputCommand \<Rightarrow> i64 \<Rightarrow> LinuxRuntime \<Rightarrow> LinuxRuntime" where
  "published c now rt = rt\<lparr>rt_active_session_id := Some (oc_session_id c),
     rt_last_output_sequence := oc_sequence c, rt_mailbox := mb_publish c (rt_mailbox rt),
     rt_command_watchdog := wd_arm now (rt_command_watchdog rt)\<rparr>"

lemma rt_inv_can_accept: "rt_inv rt \<Longrightarrow> can_accept_output (rt_state_machine rt) \<longleftrightarrow> rt_mode rt = RuntimeMode.Active"
  by (simp add: rt_inv_def rt_base_sm can_accept_output_iff)

lemma rt_inv_no_session: "rt_inv rt \<Longrightarrow> rt_active_session_id rt = None \<Longrightarrow> rt_last_output_sequence rt = 0"
  by (simp add: rt_inv_def out_inv_def)

lemma published_first:
  "rt\<lparr>rt_active_session_id := Some (oc_session_id c), rt_last_output_sequence := oc_sequence c,
     rt_mailbox := mb_publish c (rt_mailbox rt),
     rt_command_watchdog := wd_arm now (rt_command_watchdog rt)\<rparr> = published c now rt"
  by (simp add: published_def)

lemma published_bound:
  assumes "rt_active_session_id rt = Some (oc_session_id c)"
  shows "rt\<lparr>rt_last_output_sequence := oc_sequence c, rt_mailbox := mb_publish c (rt_mailbox rt),
     rt_command_watchdog := wd_arm now (rt_command_watchdog rt)\<rparr> = published c now rt"
  using assms by (cases rt) (simp add: published_def)

lemma publish_accepted:
  assumes "rt_inv rt" and "rt_now rt = Inr now" and "publishable c now rt"
  shows "publish_output_command c rt =
    (rt_record now TraceKind.OutputCommandPublished (sint (oc_sequence c)) (oc_deadline_ns c)
       (published c now (rt_clock_read rt)), Inr ())"
proof -
  have c: "can_accept_output (rt_state_machine rt)"
    using assms(3) by (simp add: rt_inv_can_accept [OF assms(1)] publishable_def)
  show ?thesis
    using assms(2,3) c published_first [where rt = "rt_clock_read rt" and c = c and now = now]
      published_bound [where rt = "rt_clock_read rt" and c = c and now = now]
    by (auto simp: publish_output_command_def publishable_def Let_def not_le)
qed

definition only_rejects :: "OutputCommand \<Rightarrow> LinuxRuntime \<Rightarrow> LinuxRuntime \<times> unit Result \<Rightarrow> bool" where
  "only_rejects c rt p \<longleftrightarrow> (\<exists>e. snd p = Inl e) \<and>
     (fst p = rt \<or> (\<exists>now. fst p = rt_record now TraceKind.OutputCommandRejected (sint (oc_sequence c)) 0 rt))"

lemma only_rejects_intros:
  "only_rejects c rt (rt, Inl e)" "only_rejects c rt (reject_command c now msg rt)"
  by (auto simp: only_rejects_def reject_command_def)

lemma only_rejects_if:
  "(b \<Longrightarrow> only_rejects c rt x) \<Longrightarrow> (\<not> b \<Longrightarrow> only_rejects c rt y) \<Longrightarrow> only_rejects c rt (if b then x else y)"
  by simp

lemma publish_refused:
  assumes "rt_inv rt" and "\<And>now. rt_now rt = Inr now \<Longrightarrow> \<not> publishable c now rt"
  shows "only_rejects c (rt_clock_read rt) (publish_output_command c rt)"
proof (cases "rt_now rt")
  case (Inr now)
  have n: "\<not> publishable c now rt" using assms(2) Inr .
  have s: "rt_active_session_id rt = None \<Longrightarrow> oc_sequence c \<noteq> 0 \<Longrightarrow> \<not> oc_sequence c \<le> rt_last_output_sequence rt"
    using rt_inv_no_session [OF assms(1)] by (simp add: word_gt_0)
  note a = rt_inv_can_accept [OF assms(1)]
  show ?thesis
    unfolding publish_output_command_def Let_def Inr sum.case rt_clock_read_simps
    apply (intro only_rejects_if only_rejects_intros)
    subgoal using s by (cases "rt_active_session_id rt") (simp_all add: only_rejects_intros)
    subgoal using n s a by (cases "rt_active_session_id rt") (simp_all add: publishable_def not_le)
    done
qed (simp add: publish_output_command_def only_rejects_intros)

lemma rt_inv_record: "rt_inv rt \<Longrightarrow> rt_inv (rt_record t k a b rt)"
  by (simp add: rt_inv_def)

lemma rt_inv_clock_read: "rt_inv (rt_clock_read rt) = rt_inv rt"
  by (simp add: rt_inv_def)

lemma rt_inv_published:
  assumes "rt_inv rt" and "publishable c now rt"
  shows "rt_inv (published c now rt)"
proof -
  have "rt_base (published c now rt)" using assms(1) by (simp add: rt_inv_def rt_base_def published_def)
  moreover have "out_inv (published c now rt)"
    using assms by (auto simp: rt_inv_def out_inv_def published_def publishable_def pending_ok_def)
  ultimately show ?thesis by (simp add: rt_inv_def)
qed

lemma publishable_clock_read [simp]: "publishable c now (rt_clock_read rt) = publishable c now rt"
  by (simp add: publishable_def)

lemma rt_inv_publish:
  assumes "rt_inv rt"
  shows "rt_inv (fst (publish_output_command c rt))"
proof (cases "\<exists>now. rt_now rt = Inr now \<and> publishable c now rt")
  case True
  then show ?thesis
    using publish_accepted [OF assms] assms
    by (auto intro!: rt_inv_record rt_inv_published simp: rt_inv_clock_read)
next
  case False
  then have "only_rejects c (rt_clock_read rt) (publish_output_command c rt)"
    using publish_refused [OF assms] by blast
  then show ?thesis using assms by (auto simp: only_rejects_def rt_inv_clock_read rt_inv_record)
qed

lemma out_inv_empty_slot: "out_inv rt \<Longrightarrow> mb_slot mb = None \<Longrightarrow> out_inv (rt\<lparr>rt_mailbox := mb\<rparr>)"
  by (cases "rt_active_session_id rt") (auto simp: out_inv_def)

lemma out_inv_disarm:
  "out_inv rt \<Longrightarrow> mb_slot (rt_mailbox rt) = None \<Longrightarrow>
   out_inv (rt\<lparr>rt_command_watchdog := wd_disarm (rt_command_watchdog rt)\<rparr>)"
  by (cases "rt_active_session_id rt") (auto simp: out_inv_def)

lemma out_inv_maybe_disarm: "out_inv rt \<Longrightarrow> out_inv (maybe_disarm_idle_command_watchdog_locked rt)"
  by (simp add: maybe_disarm_idle_command_watchdog_locked_def mb_has_pending_def out_inv_disarm)

lemma out_inv_ack_closed: "out_inv rt \<Longrightarrow> out_inv (rt\<lparr>rt_output_ack_pending := False\<rparr>)"
  by (cases "rt_active_session_id rt") (simp_all add: out_inv_def)

lemma rt_base_mailbox [simp]: "rt_base (rt\<lparr>rt_mailbox := mb\<rparr>) = rt_base rt"
  by (simp add: rt_base_def)

lemma rt_base_maybe_disarm [simp]: "rt_base (maybe_disarm_idle_command_watchdog_locked rt) = rt_base rt"
  by (simp add: rt_base_def maybe_disarm_idle_command_watchdog_locked_def)

lemma consume_Some:
  assumes "try_consume_output_command rt = (rt', Some c)"
  shows "\<exists>now. rt_now rt = Inr now \<and> now < oc_deadline_ns c \<and> rt_running rt \<and>
     can_accept_output (rt_state_machine rt) \<and> \<not> rt_output_ack_pending rt \<and>
     mb_slot (rt_mailbox rt) = Some c \<and>
     rt' = (rt_clock_read rt)\<lparr>rt_mailbox := fst (mb_try_consume (rt_mailbox rt))\<rparr>"
  using assms
  by (auto simp: try_consume_output_command_def mb_try_consume_def Let_def
      split: sum.splits if_splits option.splits)

lemma rt_inv_consume:
  assumes "rt_inv rt"
  shows "rt_inv (fst (try_consume_output_command rt))"
proof -
  have "out_inv (fst (try_consume_output_command rt))"
    using assms unfolding rt_inv_def try_consume_output_command_def Let_def mb_try_consume_def
    by (auto intro!: out_inv_empty_slot out_inv_maybe_disarm split: sum.splits option.splits)
  moreover have "rt_base (fst (try_consume_output_command rt))"
    using assms unfolding rt_inv_def try_consume_output_command_def Let_def mb_try_consume_def
    by (auto split: sum.splits option.splits)
  ultimately show ?thesis by (simp add: rt_inv_def)
qed

lemma sendable_state: "fst (output_command_sendable c rt) = rt_clock_read rt"
  by (simp add: output_command_sendable_def Let_def split: sum.splits)

lemma note_sent_Inr:
  "snd (note_output_command_sent s q t rt) = Inr () \<longleftrightarrow>
     s \<noteq> 0 \<and> q \<noteq> 0 \<and> 0 < t \<and> rt_running rt \<and> can_accept_output (rt_state_machine rt) \<and>
     (\<exists>a. rt_active_session_id rt = Some a \<and> ucast a = s) \<and> \<not> rt_output_ack_pending rt"
  by (auto simp: note_output_command_sent_def)

lemma note_sent_state:
  "fst (note_output_command_sent s q t rt) =
     (if snd (note_output_command_sent s q t rt) = Inr ()
      then rt_record t TraceKind.OutputCommandSent (uint q) (uint s)
              (rt\<lparr>rt_output_ack_pending := True, rt_last_sent_session := s,
                  rt_last_sent_sequence := q, rt_last_sent_time_ns := t\<rparr>)
      else rt)"
  by (simp add: note_output_command_sent_def)

lemma rt_inv_note_sent:
  assumes "rt_inv rt"
  shows "rt_inv (fst (note_output_command_sent s q t rt))"
proof (cases "snd (note_output_command_sent s q t rt) = Inr ()")
  case True
  then obtain a where a: "rt_active_session_id rt = Some a" "ucast a = s" "s \<noteq> 0" "q \<noteq> 0" "0 < t"
    by (auto simp: note_sent_Inr)
  let ?rt = "rt\<lparr>rt_output_ack_pending := True, rt_last_sent_session := s,
                  rt_last_sent_sequence := q, rt_last_sent_time_ns := t\<rparr>"
  have "out_inv ?rt" using assms a by (simp add: rt_inv_def out_inv_def)
  moreover have "rt_base ?rt" using assms by (simp add: rt_inv_def rt_base_def)
  ultimately show ?thesis using True by (simp add: note_sent_state rt_inv_def)
next
  case False
  then show ?thesis using assms by (simp add: note_sent_state)
qed

lemma rt_inv_observe: "rt_inv rt \<Longrightarrow> rt_inv (observe_output_status s q r t rt)"
  by (simp add: rt_inv_def observe_output_status_def Let_def out_inv_maybe_disarm out_inv_ack_closed)

lemma rt_inv_tick_trace: "rt_inv rt \<Longrightarrow> rt_inv (tick_trace tick rt)"
  by (simp add: tick_trace_def Let_def rt_inv_def)

lemma rt_inv_ack_timeout:
  assumes "rt_inv rt"
  shows "rt_inv (tick_ack_timeout t rt)"
proof -
  obtain sm tr where h: "handle RuntimeEvent.Hold (set_fault FaultCode.AckTimeout (rt_state_machine rt)) = (sm, tr)"
    by fastforce
  have "sm_inv sm" using sm_inv_handle_eq [OF h] assms by (simp add: rt_inv_def rt_base_sm sm_inv_set_fault)
  then show ?thesis
    using assms h by (simp add: rt_inv_def tick_ack_timeout_def Let_def rt_base_state_machine)
qed

lemma wd_check_not_newly:
  "\<not> wd_expired w \<Longrightarrow> wd_check t w = (w', k) \<Longrightarrow> \<not> wk_newly_expired k \<Longrightarrow> w' = w"
  by (auto simp: wd_check_def Let_def split: if_splits)

lemma wd_check_timeout: "wd_check t w = (w', k) \<Longrightarrow> wd_timeout_ns w' = wd_timeout_ns w"
  by (auto simp: wd_check_def Let_def split: if_splits)

lemma rt_inv_tick_watchdog:
  assumes "rt_inv rt"
  shows "rt_inv (tick_watchdog t rt)"
proof -
  obtain w k where c: "wd_check t (rt_command_watchdog rt) = (w, k)" by fastforce
  obtain sm tr where h: "handle RuntimeEvent.CommandTimeout (rt_state_machine rt) = (sm, tr)" by fastforce
  have "sm_inv sm" using sm_inv_handle_eq [OF h] assms by (simp add: rt_inv_def rt_base_sm)
  moreover have "rt_base (rt\<lparr>rt_command_watchdog := w\<rparr>)"
    using assms wd_check_timeout [OF c] by (simp add: rt_inv_def rt_base_def)
  moreover have "\<not> wk_newly_expired k \<Longrightarrow> rt\<lparr>rt_command_watchdog := w\<rparr> = rt"
    using assms wd_check_not_newly [OF _ c] by (simp add: rt_inv_def out_inv_def)
  ultimately show ?thesis
    using assms c h by (simp add: rt_inv_def tick_watchdog_def Let_def rt_base_state_machine)
qed

lemma ps_cycle_config:
  "ps_cycle env cb (ps, s) = Some (ps', s') \<Longrightarrow> ps_config ps' = ps_config ps \<and> ps_joinable ps' = ps_joinable ps \<and>
     (ps_running ps' \<longrightarrow> ps_running ps)"
  by (auto simp: ps_cycle_def Let_def worker_exit_def advance_def note_wakeup_def
      split: if_splits option.splits prod.splits sum.splits)

lemma rt_base_scheduler:
  assumes "rt_base rt" and "ps_config ps = ps_config (rt_scheduler rt)"
    and "ps_running ps \<Longrightarrow> ps_joinable ps \<and> rt_running rt"
  shows "rt_base (rt\<lparr>rt_scheduler := ps\<rparr>)"
  using assms by (simp add: rt_base_def)

lemma out_inv_scheduler [simp]: "out_inv (rt\<lparr>rt_scheduler := ps\<rparr>) = out_inv rt"
  by (rule out_inv_cong) simp_all

lemma tick_scheduler [simp]:
  "rt_scheduler (tick_trace tick rt) = rt_scheduler rt"
  "rt_scheduler (tick_ack_timeout t rt) = rt_scheduler rt"
  "rt_scheduler (tick_watchdog t rt) = rt_scheduler rt"
  by (simp_all add: tick_trace_def tick_ack_timeout_def tick_watchdog_def Let_def split: prod.splits)

lemma rt_inv_tick: "rt_inv rt \<Longrightarrow> rt_inv (tick_watchdog t (tick_ack_timeout t (tick_trace tick rt)))"
  by (intro rt_inv_tick_watchdog rt_inv_ack_timeout rt_inv_tick_trace)

text \<open>
  What the runtime needs from a supervision hook: it may call the public operations,
  so it keeps the invariant, and it does not touch the scheduler that runs it.
\<close>

locale supervision_hook =
  fixes hook :: "i64 \<Rightarrow> LinuxRuntime \<times> 'x \<Rightarrow> LinuxRuntime \<times> 'x"
  assumes hook_inv: "rt_inv rt \<Longrightarrow> rt_inv (fst (hook t (rt, x)))"
    and hook_scheduler: "rt_scheduler (fst (hook t (rt, x))) = rt_scheduler rt"
begin

lemma on_tick_inv: "rt_inv rt \<Longrightarrow> rt_inv (fst (fst (rt_on_tick (Some hook) tick (rt, x))))"
  using hook_inv [OF rt_inv_tick] by (simp add: rt_on_tick_def Let_def rt_inv_def)

lemma on_tick_scheduler: "rt_scheduler (fst (fst (rt_on_tick (Some hook) tick (rt, x)))) = rt_scheduler rt"
  by (simp add: rt_on_tick_def Let_def hook_scheduler)

lemma cycle_callback:
  assumes "ps_cycle env (rt_on_tick (Some hook)) (ps, (rt, x)) = Some (ps', (rt', x'))" and "rt_inv rt"
  shows "rt_inv rt' \<and> rt_scheduler rt' = rt_scheduler rt"
  using assms(1) on_tick_inv [OF assms(2)] on_tick_scheduler [of _ rt x] assms(2)
  by (auto simp: ps_cycle_def Let_def split: if_splits option.splits prod.splits sum.splits; metis fst_conv)

lemma cycle_inv: "rt_inv rt \<Longrightarrow> rt_inv (fst (rt_cycle (Some hook) env (rt, x)))"
proof (cases "ps_cycle env (rt_on_tick (Some hook)) (rt_scheduler rt, (rt, x))")
  case (Some r)
  assume inv: "rt_inv rt"
  obtain ps' rt' x' where r: "r = (ps', (rt', x'))" by (cases r) auto
  have s: "rt_inv rt' \<and> rt_scheduler rt' = rt_scheduler rt" using cycle_callback [OF Some [unfolded r] inv] .
  then have "rt_base (rt'\<lparr>rt_scheduler := ps'\<rparr>)"
    using ps_cycle_config [OF Some [unfolded r]] inv by (auto simp: rt_inv_def rt_base_def)
  then show ?thesis using Some r s inv by (simp add: rt_cycle_def rt_inv_def)
qed (simp add: rt_cycle_def)

end

text \<open>A runtime without a hook behaves as with one that does nothing.\<close>

lemma rt_on_tick_None: "rt_on_tick None = rt_on_tick (Some (\<lambda>_ p. p))"
  by (simp add: rt_on_tick_def fun_eq_iff Let_def)

lemma rt_cycle_None: "rt_cycle None = rt_cycle (Some (\<lambda>_ p. p))"
  by (intro ext) (unfold rt_cycle_def rt_on_tick_None, rule refl)

interpretation no_hook: supervision_hook "\<lambda>_ p. p"
  by unfold_locales simp_all

section \<open>Start and stop\<close>

lemma rt_inv_start:
  assumes "rt_inv rt"
  shows "rt_inv (fst (rt_start env rt))"
proof -
  obtain ps r where p: "ps_start env True (rt_scheduler rt) = (ps, r)" by fastforce
  note f = ps_start_frame [OF p]
  have "ps = rt_scheduler rt \<or> (ps_running ps \<longrightarrow> ps_joinable ps \<and> 0 < sc_period_ns (ps_config ps))"
    using f ps_start_running [of env "rt_scheduler rt" ps] p by auto
  then show ?thesis
    using assms p f by (auto simp: rt_start_def Let_def rt_inv_def rt_base_def)
qed

lemma rt_inv_stop:
  assumes "rt_inv rt"
  shows "rt_inv (rt_stop rt)" and "rt_mode (rt_stop rt) = RuntimeMode.Disabled"
proof -
  have "rt_base (rt\<lparr>rt_scheduler := ps_join (ps_request_stop (rt_scheduler rt))\<rparr>)"
    using assms by (auto simp: rt_inv_def rt_base_def ps_join_def ps_request_stop_def)
  moreover have "clear_output_path_locked rt\<lparr>rt_state_machine := sm_init\<rparr> =
      clear_output_path_locked (rt\<lparr>rt_state_machine := sm_init\<rparr>)" for rt
    by (simp add: clear_output_path_locked_def)
  ultimately show "rt_inv (rt_stop rt)"
    using assms by (simp add: rt_stop_def Let_def rt_inv_def rt_base_state_machine sm_inv_init)
  show "rt_mode (rt_stop rt) = RuntimeMode.Disabled"
    by (simp add: rt_stop_def Let_def sm_init_def)
qed

section \<open>All orders of calls\<close>

text \<open>
  The operations of the public interface and the worker's turns, as one alphabet; the
  threads of the program interleave them in any order.
\<close>

datatype RtOp = Start StartEnv | Stop | Handle RuntimeEvent | RaiseFault FaultCode | SetInterlock bool
  | PublishCommand OutputCommand | ConsumeCommand | Sendable OutputCommand
  | NoteSent u16 u16 i64 | ObserveStatus u16 u16 OutputResult i64 | Cycle CycleEnv

fun rt_step :: "RtOp \<Rightarrow> LinuxRuntime \<Rightarrow> LinuxRuntime" where
  "rt_step (Start env) rt = fst (rt_start env rt)"
| "rt_step Stop rt = rt_stop rt"
| "rt_step (Handle e) rt = fst (rt_handle e rt)"
| "rt_step (RaiseFault c) rt = fst (raise_fault c rt)"
| "rt_step (SetInterlock b) rt = rt_set_interlock_ready b rt"
| "rt_step (PublishCommand c) rt = fst (publish_output_command c rt)"
| "rt_step ConsumeCommand rt = fst (try_consume_output_command rt)"
| "rt_step (Sendable c) rt = fst (output_command_sendable c rt)"
| "rt_step (NoteSent s q t) rt = fst (note_output_command_sent s q t rt)"
| "rt_step (ObserveStatus s q r t) rt = observe_output_status s q r t rt"
| "rt_step (Cycle env) rt = fst (rt_cycle None env (rt, ()))"

lemma rt_inv_step: "rt_inv rt \<Longrightarrow> rt_inv (rt_step op rt)"
  by (cases op) (simp_all add: rt_inv_start rt_inv_stop rt_inv_handle rt_inv_raise_fault
      rt_inv_set_interlock rt_inv_publish rt_inv_consume sendable_state rt_inv_clock_read
      rt_inv_note_sent rt_inv_observe rt_cycle_None no_hook.cycle_inv)

interpretation rtm: machine rt_step rt_inv
  by unfold_locales (rule rt_inv_step)

inductive reachable :: "RuntimeConfig \<Rightarrow> LinuxRuntime \<Rightarrow> bool" for config where
  fresh: "reachable config (rt_init config busy clock)"
| step: "reachable config rt \<Longrightarrow> reachable config (rt_step op rt)"

lemma reachable_inv: "reachable config rt \<Longrightarrow> rt_inv rt"
  by (induction rule: reachable.induct) (auto intro: rt_inv_init rt_inv_step)

lemma reachable_run: "reachable config rt \<Longrightarrow> reachable config (fold rt_step ops rt)"
  by (induction ops arbitrary: rt) (auto intro: reachable.step)

end
