(* ===== verification/Runtime_Safety.thy ===== *)
theory Runtime_Safety
  imports Runtime_Proofs
begin

text \<open>
  What the runtime guarantees about ordinary output: an abstract output path that
  every operation implements, and the properties that follow for all orders of calls.
\<close>

section \<open>The abstract output path\<close>

text \<open>
  Bound session, last admitted sequence, pending command. A step clears it, keeps it,
  takes the pending command out, or admits a newer command of the bound session.
\<close>

type_synonym path = "u64 option \<times> u64 \<times> OutputCommand option"

inductive path_step :: "path \<Rightarrow> path \<Rightarrow> bool" where
  clear: "path_step p (None, 0, None)"
| keep: "path_step p p"
| take: "path_step (a, q, slot) (a, q, None)"
| admit: "a \<in> {None, Some (oc_session_id c)} \<Longrightarrow> q < oc_sequence c \<Longrightarrow>
    path_step (a, q, slot) (Some (oc_session_id c), oc_sequence c, Some c)"

inductive_cases path_stepE: "path_step (a, q, slot) (a', q', slot')"

definition out_path :: "LinuxRuntime \<Rightarrow> path" where
  "out_path rt = (rt_active_session_id rt, rt_last_output_sequence rt, mb_slot (rt_mailbox rt))"

lemma out_path_frame [simp]:
  "out_path (rt_record t k a b rt) = out_path rt" "out_path (trace_transition tr t rt) = out_path rt"
  "out_path (rt_clock_read rt) = out_path rt"
  "out_path (maybe_disarm_idle_command_watchdog_locked rt) = out_path rt"
  "out_path (rt\<lparr>rt_state_machine := sm\<rparr>) = out_path rt" "out_path (rt\<lparr>rt_scheduler := ps\<rparr>) = out_path rt"
  "out_path (rt\<lparr>rt_command_watchdog := w\<rparr>) = out_path rt"
  "out_path (rt\<lparr>rt_ack_timeout_count := n\<rparr>) = out_path rt"
  "out_path (rt\<lparr>rt_output_ack_pending := b'\<rparr>) = out_path rt"
  "out_path (rt\<lparr>rt_unexpected_ack_count := n\<rparr>) = out_path rt"
  "out_path (rt\<lparr>rt_test_throw_on_tick := b'\<rparr>) = out_path rt"
  by (simp_all add: out_path_def)

lemma out_path_cleared [simp]: "out_path (clear_output_path_locked rt) = (None, 0, None)"
  by (simp add: out_path_def)

lemma path_step_ticks:
  "path_step (out_path rt) (out_path (tick_watchdog t (tick_ack_timeout t (tick_trace tick rt))))"
proof -
  have a: "out_path (tick_ack_timeout t r) \<in> {out_path r, (None, 0, None)}" for r
    by (simp add: tick_ack_timeout_def Let_def split: prod.splits)
  have w: "out_path (tick_watchdog t r) \<in> {out_path r, (None, 0, None)}" for r
    by (simp add: tick_watchdog_def Let_def split: prod.splits)
  have "out_path (tick_trace tick rt) = out_path rt" by (simp add: tick_trace_def Let_def)
  then show ?thesis
    using a [of "tick_trace tick rt"] w [of "tick_ack_timeout t (tick_trace tick rt)"]
    by (auto intro: path_step.intros)
qed

lemma path_step_on_tick: "path_step (out_path rt) (out_path (fst (fst (rt_on_tick None tick (rt, x)))))"
  using path_step_ticks [of rt "tick_actual_ns tick" tick]
  by (auto simp: rt_on_tick_def Let_def intro: path_step.keep)

lemma path_step_cycle: "path_step (out_path rt) (out_path (fst (rt_cycle None env (rt, x))))"
proof (cases "ps_cycle env (rt_on_tick None) (rt_scheduler rt, (rt, x))")
  case (Some r)
  obtain ps rt' x' where r: "r = (ps, rt', x')" by (cases r) auto
  have "path_step (out_path rt) (out_path rt')"
    using Some path_step_on_tick [of rt _ x] unfolding r
    by (auto simp: ps_cycle_def Let_def intro: path_step.keep
        split: if_splits option.splits prod.splits sum.splits; metis fst_conv)
  then show ?thesis using Some r by (auto simp: rt_cycle_def intro: path_step.keep)
qed (simp add: rt_cycle_def path_step.keep)

lemma path_step_handle: "path_step (out_path rt) (out_path (fst (rt_handle e rt)))"
  by (auto simp: rt_handle_def Let_def split: prod.splits intro: path_step.intros)

lemma path_step_publish:
  assumes "rt_inv rt"
  shows "path_step (out_path rt) (out_path (fst (publish_output_command c rt)))"
proof (cases "\<exists>now. rt_now rt = Inr now \<and> publishable c now rt")
  case True
  then obtain now where n: "rt_now rt = Inr now" and p: "publishable c now rt" by blast
  have "out_path (published c now (rt_clock_read rt)) = (Some (oc_session_id c), oc_sequence c, Some c)"
    by (simp add: out_path_def published_def)
  moreover have "path_step (out_path rt) (Some (oc_session_id c), oc_sequence c, Some c)"
    unfolding out_path_def using p by (intro path_step.admit) (simp_all add: publishable_def)
  ultimately show ?thesis using publish_accepted [OF assms n p] by simp
next
  case False
  then show ?thesis
    using publish_refused [OF assms, of c] by (auto simp: only_rejects_def intro: path_step.keep)
qed

lemma path_step_consume: "path_step (out_path rt) (out_path (fst (try_consume_output_command rt)))"
proof -
  have s: "out_path (rt\<lparr>rt_mailbox := mb\<rparr>) = (rt_active_session_id rt, rt_last_output_sequence rt, mb_slot mb)" for rt mb
    by (simp add: out_path_def)
  have "out_path (fst (try_consume_output_command rt)) \<in>
      {out_path rt, (rt_active_session_id rt, rt_last_output_sequence rt, None)}"
    unfolding try_consume_output_command_def Let_def mb_try_consume_def
    by (auto simp: s split: sum.splits option.splits)
  then show ?thesis by (auto simp: out_path_def intro: path_step.intros)
qed

lemma out_path_stop: "out_path (rt_stop rt) = (None, 0, None)"
  by (simp add: rt_stop_def Let_def)

lemma path_step_rt_step:
  assumes "rt_inv rt"
  shows "path_step (out_path rt) (out_path (rt_step op rt))"
proof (cases op)
  case (Start env)
  then show ?thesis by (auto simp: rt_start_def Let_def split: prod.splits intro: path_step.keep)
next
  case (RaiseFault code)
  then show ?thesis by (auto simp: raise_fault_def Let_def split: prod.splits intro: path_step.intros)
next
  case (SetInterlock b)
  then show ?thesis by (auto simp: rt_set_interlock_ready_def Let_def intro: path_step.intros)
next
  case (NoteSent s q t)
  have "out_path (rt\<lparr>rt_output_ack_pending := True, rt_last_sent_session := s, rt_last_sent_sequence := q,
      rt_last_sent_time_ns := t\<rparr>) = out_path rt" by (simp add: out_path_def)
  then show ?thesis using NoteSent by (simp add: note_sent_state path_step.keep)
next
  case (ObserveStatus s q r t)
  have "out_path (rt\<lparr>rt_last_ack_session := s, rt_last_ack_sequence := q, rt_last_ack_result := r,
      rt_last_ack_time_ns := t\<rparr>) = out_path rt" for s q r t by (simp add: out_path_def)
  then show ?thesis using ObserveStatus by (simp add: observe_output_status_def Let_def path_step.keep)
qed (simp_all add: out_path_stop path_step.clear path_step_handle path_step_publish [OF assms]
     path_step_consume sendable_state path_step.keep path_step_cycle)

section \<open>Sequences within one activation\<close>

text \<open>While the session stays bound, everything pending is newer than the floor \<open>k\<close>.\<close>

definition above :: "u64 \<Rightarrow> u64 \<Rightarrow> path \<Rightarrow> bool" where
  "above s k = (\<lambda>(a, q, slot). a = Some s \<and> k \<le> q \<and> (\<forall>c. slot = Some c \<longrightarrow> k < oc_sequence c))"

lemma above_step: "path_step p p' \<Longrightarrow> above s k p \<Longrightarrow> fst p' \<noteq> None \<Longrightarrow> above s k p'"
  by (induction rule: path_step.induct) (auto simp: above_def)

lemma above_run:
  assumes "rt_inv rt" and "above s k (out_path rt)"
    and "\<And>n. rt_active_session_id (fold rt_step (take n ops) rt) \<noteq> None"
  shows "above s k (out_path (fold rt_step ops rt)) \<and> rt_inv (fold rt_step ops rt)"
  using assms
proof (induction ops arbitrary: rt)
  case (Cons op ops)
  have bound: "rt_active_session_id (fold rt_step (take n ops) (rt_step op rt)) \<noteq> None" for n
    using Cons.prems(3) [of "Suc n"] by simp
  have "above s k (out_path (rt_step op rt))"
    using above_step [OF path_step_rt_step [OF Cons.prems(1), of op] Cons.prems(2)] bound [of 0]
    by (simp add: out_path_def)
  then show ?case using Cons.IH [OF rt_inv_step [OF Cons.prems(1)] _ bound] by simp
qed simp

section \<open>Properties\<close>

text \<open>
  C3. The output gate, in every reachable state: outside ACTIVE nothing is pending, no
  session is bound, no acknowledgement is awaited and the watchdog is disarmed; ACTIVE
  implies the software interlock; a pending command belongs to the bound session,
  carries the last admitted sequence number and is supervised by the watchdog; and an
  awaited acknowledgement is for the bound session.
\<close>

theorem runtime_output_gate:
  assumes "reachable config rt"
  shows "(rt_mode rt \<noteq> RuntimeMode.Active \<longrightarrow>
            mb_slot (rt_mailbox rt) = None \<and> rt_active_session_id rt = None \<and>
            rt_last_output_sequence rt = 0 \<and> \<not> rt_output_ack_pending rt \<and>
            \<not> wd_armed (rt_command_watchdog rt)) \<and>
         (rt_mode rt = RuntimeMode.Active \<longrightarrow> sm_interlock_ready (rt_state_machine rt)) \<and>
         (\<forall>c. mb_slot (rt_mailbox rt) = Some c \<longrightarrow>
            rt_active_session_id rt = Some (oc_session_id c) \<and>
            oc_sequence c = rt_last_output_sequence rt \<and> oc_mask c \<noteq> 0 \<and>
            wd_armed (rt_command_watchdog rt) \<and> \<not> wd_expired (rt_command_watchdog rt)) \<and>
         (rt_output_ack_pending rt \<longrightarrow>
            (\<exists>s. rt_active_session_id rt = Some s \<and> rt_last_sent_session rt = ucast s))"
proof -
  have "rt_base rt" and "out_inv rt" using reachable_inv [OF assms] by (auto simp: rt_inv_def)
  then show ?thesis
    by (cases "rt_active_session_id rt"; cases "mb_slot (rt_mailbox rt)")
      (auto simp: rt_base_def out_inv_def sm_inv_def pending_ok_def)
qed

text \<open>
  C12. The output path refines its abstract specification: every public operation and
  every turn of the worker, from every reachable state, clears the path, leaves it,
  takes the pending command, or admits a strictly newer command of the bound session.
\<close>

theorem runtime_refines_path:
  assumes "reachable config rt"
  shows "path_step (out_path rt) (out_path (rt_step op rt))"
  using path_step_rt_step [OF reachable_inv [OF assms]] .

text \<open>
  A command handed to the I/O side is fresh and authorised at that moment: worker
  running, ACTIVE, interlock ready, deadline in the future of the clock reading, bound
  session, last admitted sequence, no other command awaiting an acknowledgement; and
  it is handed out once.
\<close>

theorem consumed_command_authorised:
  assumes "reachable config rt" and "try_consume_output_command rt = (rt', Some c)"
  shows "\<exists>now. rt_now rt = Inr now \<and> now < oc_deadline_ns c \<and> rt_running rt \<and>
           rt_mode rt = RuntimeMode.Active \<and> sm_interlock_ready (rt_state_machine rt) \<and>
           \<not> rt_output_ack_pending rt \<and> rt_active_session_id rt = Some (oc_session_id c) \<and>
           oc_sequence c = rt_last_output_sequence rt \<and> mb_slot (rt_mailbox rt') = None"
proof -
  obtain now where n: "rt_now rt = Inr now \<and> now < oc_deadline_ns c \<and> rt_running rt \<and>
     can_accept_output (rt_state_machine rt) \<and> \<not> rt_output_ack_pending rt \<and>
     mb_slot (rt_mailbox rt) = Some c \<and>
     rt' = (rt_clock_read rt)\<lparr>rt_mailbox := fst (mb_try_consume (rt_mailbox rt))\<rparr>"
    using consume_Some [OF assms(2)] by blast
  then show ?thesis
    using reachable_inv [OF assms(1)]
    by (auto simp: rt_inv_def out_inv_def can_accept_output_def pending_ok_def split: option.splits)
qed

text \<open>
  C5. No replay and no reordering: of two commands handed to the I/O side while the
  session stays bound, whatever happens in between, the later one has the same session
  and a strictly larger sequence number.
\<close>

theorem no_replay:
  assumes "reachable config rt" and "try_consume_output_command rt = (rt1, Some c)"
    and "\<And>n. rt_active_session_id (fold rt_step (take n ops) rt1) \<noteq> None"
    and "try_consume_output_command (fold rt_step ops rt1) = (rt2, Some c')"
  shows "oc_session_id c' = oc_session_id c \<and> oc_sequence c < oc_sequence c'"
proof -
  have inv: "rt_inv rt" using reachable_inv [OF assms(1)] .
  have inv1: "rt_inv rt1" using rt_inv_consume [OF inv] assms(2) by simp
  have slot: "mb_slot (rt_mailbox rt) = Some c"
    and rt1: "rt1 = (rt_clock_read rt)\<lparr>rt_mailbox := fst (mb_try_consume (rt_mailbox rt))\<rparr>"
    using consume_Some [OF assms(2)] by auto
  have "above (oc_session_id c) (oc_sequence c) (out_path rt1)"
    using inv slot unfolding rt1
    by (auto simp: above_def out_path_def rt_inv_def out_inv_def pending_ok_def split: option.splits)
  from above_run [OF inv1 this assms(3)]
  have ab: "above (oc_session_id c) (oc_sequence c) (out_path (fold rt_step ops rt1))"
    and inv2: "rt_inv (fold rt_step ops rt1)" by auto
  have "mb_slot (rt_mailbox (fold rt_step ops rt1)) = Some c'"
    using consume_Some [OF assms(4)] by auto
  then show ?thesis
    using ab inv2 by (auto simp: above_def out_path_def rt_inv_def out_inv_def pending_ok_def)
qed


text \<open>
  A fault is committed as one transaction: from every state, raising a fault records
  the code, closes the output path (nothing pending, no session, no acknowledgement
  awaited, watchdog off) and moves IDLE, ACTIVE and HOLD to FAULT, leaving DISABLED,
  FAULT and ESTOP where they are; the interlock information is untouched.
\<close>

theorem raise_fault_closes:
  assumes "code \<noteq> FaultCode.NoFault"
  shows "sm_fault (rt_state_machine (fst (raise_fault code rt))) = code \<and>
         rt_mode (fst (raise_fault code rt)) =
           (if rt_mode rt \<in> {RuntimeMode.Idle, RuntimeMode.Active, RuntimeMode.Hold}
            then RuntimeMode.Fault else rt_mode rt) \<and>
         out_path (fst (raise_fault code rt)) = (None, 0, None) \<and>
         \<not> rt_output_ack_pending (fst (raise_fault code rt)) \<and>
         \<not> wd_armed (rt_command_watchdog (fst (raise_fault code rt))) \<and>
         sm_interlock_ready (rt_state_machine (fst (raise_fault code rt))) =
           sm_interlock_ready (rt_state_machine rt)"
proof -
  let ?s = "rt_state_machine rt"
  have h: "sm_fault (fst (handle RuntimeEvent.FaultDetected (set_fault code ?s))) = code"
    "sm_mode (fst (handle RuntimeEvent.FaultDetected (set_fault code ?s))) =
       (if sm_mode ?s \<in> {RuntimeMode.Idle, RuntimeMode.Active, RuntimeMode.Hold}
        then RuntimeMode.Fault else sm_mode ?s)"
    "sm_interlock_ready (fst (handle RuntimeEvent.FaultDetected (set_fault code ?s))) = sm_interlock_ready ?s"
    by (cases "sm_mode ?s"; simp add: sm_defs set_fault_def)+
  then show ?thesis
    using assms by (cases "handle RuntimeEvent.FaultDetected (set_fault code ?s)") (simp add: raise_fault_def Let_def)
qed

definition ack_overdue :: "i64 \<Rightarrow> LinuxRuntime \<Rightarrow> bool" where
  "ack_overdue t rt \<longleftrightarrow> rt_output_ack_pending rt \<and> rt_last_sent_time_ns rt \<le> t \<and>
     rc_output_ack_timeout_ns (rt_config rt) \<le> t - rt_last_sent_time_ns rt"

definition command_overdue :: "i64 \<Rightarrow> LinuxRuntime \<Rightarrow> bool" where
  "command_overdue t rt \<longleftrightarrow> wd_armed (rt_command_watchdog rt) \<and>
     rc_command_timeout_ns (rt_config rt) \<le> max (t - wd_last_kick_ns (rt_command_watchdog rt)) 0"

definition rt_tick :: "SchedulerTick \<Rightarrow> LinuxRuntime \<Rightarrow> LinuxRuntime" where
  "rt_tick tick rt = fst (fst (rt_on_tick None tick (rt, ())))"

lemma tick_trace_frame [simp]:
  "rt_state_machine (tick_trace tick rt) = rt_state_machine rt" "out_path (tick_trace tick rt) = out_path rt"
  "rt_output_ack_pending (tick_trace tick rt) = rt_output_ack_pending rt"
  "rt_last_sent_time_ns (tick_trace tick rt) = rt_last_sent_time_ns rt"
  "rt_config (tick_trace tick rt) = rt_config rt"
  "rt_command_watchdog (tick_trace tick rt) = rt_command_watchdog rt"
  by (simp_all add: tick_trace_def Let_def)

lemma hold_from_active:
  "sm_mode s = RuntimeMode.Active \<Longrightarrow>
     fst (handle RuntimeEvent.Hold (set_fault c s)) = s\<lparr>sm_mode := RuntimeMode.Hold, sm_fault := c\<rparr>"
  "sm_mode s = RuntimeMode.Active \<Longrightarrow>
     fst (handle RuntimeEvent.CommandTimeout s) = s\<lparr>sm_mode := RuntimeMode.Hold, sm_fault := FaultCode.Watchdog\<rparr>"
  by (simp_all add: sm_defs set_fault_def)

text \<open>
  C13. What a periodic tick decides, in every reachable ACTIVE state. An acknowledgement
  overdue by the configured timeout puts the runtime in HOLD with ACK_TIMEOUT and takes
  precedence; otherwise an armed watchdog whose age has reached its timeout puts it in
  HOLD with WATCHDOG; both close the output path. Otherwise mode, fault and output path
  stay as they are.
\<close>

theorem tick_decision:
  assumes "reachable config rt" and "rt_mode rt = RuntimeMode.Active" and "\<not> rt_test_throw_on_tick rt"
  shows "rt_mode (rt_tick tick rt) =
           (if ack_overdue (tick_actual_ns tick) rt \<or> command_overdue (tick_actual_ns tick) rt
            then RuntimeMode.Hold else RuntimeMode.Active) \<and>
         sm_fault (rt_state_machine (rt_tick tick rt)) =
           (if ack_overdue (tick_actual_ns tick) rt then FaultCode.AckTimeout
            else if command_overdue (tick_actual_ns tick) rt then FaultCode.Watchdog
            else sm_fault (rt_state_machine rt)) \<and>
         out_path (rt_tick tick rt) =
           (if ack_overdue (tick_actual_ns tick) rt \<or> command_overdue (tick_actual_ns tick) rt
            then (None, 0, None) else out_path rt)"
proof -
  let ?t = "tick_actual_ns tick" and ?r = "tick_trace tick rt"
  have inv: "rt_inv rt" using reachable_inv [OF assms(1)] .
  have can: "can_accept_output (rt_state_machine rt)" using rt_inv_can_accept [OF inv] assms(2) by simp
  have tick: "rt_tick tick rt = tick_watchdog ?t (tick_ack_timeout ?t ?r)"
    using assms(3) by (simp add: rt_tick_def rt_on_tick_def Let_def)
  show ?thesis
  proof (cases "ack_overdue ?t rt")
    case True
    let ?h = "tick_ack_timeout ?t ?r"
    have a: "rt_state_machine ?h = (rt_state_machine rt)\<lparr>sm_mode := RuntimeMode.Hold, sm_fault := FaultCode.AckTimeout\<rparr>"
      "out_path ?h = (None, 0, None)"
      using True can hold_from_active(1) [OF assms(2), of FaultCode.AckTimeout]
      by (auto simp: tick_ack_timeout_def ack_overdue_def Let_def split: prod.splits)
    then have "tick_watchdog ?t ?h = ?h" by (simp add: tick_watchdog_def can_accept_output_def)
    then show ?thesis using True a tick by simp
  next
    case False
    then have h: "tick_ack_timeout ?t ?r = ?r" by (auto simp: tick_ack_timeout_def ack_overdue_def)
    have w: "wd_timeout_ns (rt_command_watchdog rt) = rc_command_timeout_ns (rt_config rt)"
      "\<not> wd_expired (rt_command_watchdog rt)"
      using inv by (simp_all add: rt_inv_def rt_base_def out_inv_def)
    show ?thesis
    proof (cases "command_overdue ?t rt")
      case True
      then show ?thesis
        using False tick h w can hold_from_active(2) [OF assms(2)]
        by (auto simp: tick_watchdog_def command_overdue_def wd_check_def Let_def split: prod.splits)
    next
      case False
      then have "tick_watchdog ?t ?r = ?r"
        using w can by (auto simp: tick_watchdog_def command_overdue_def wd_check_def Let_def)
      then show ?thesis using False \<open>\<not> ack_overdue ?t rt\<close> tick h assms(2) by simp
    qed
  qed
qed

section \<open>Opening and closing\<close>

lemma set_interlock_mode:
  "rt_mode rt \<noteq> RuntimeMode.Active \<Longrightarrow> rt_mode (rt_set_interlock_ready b rt) \<noteq> RuntimeMode.Active"
  using handle_enters_active [of "if b then RuntimeEvent.InterlockReady else RuntimeEvent.InterlockLost" "rt_state_machine rt"]
  by (auto simp: rt_set_interlock_ready_def sm_set_interlock_ready_def Let_def)

lemma tick_inactive:
  "rt_mode rt \<noteq> RuntimeMode.Active \<Longrightarrow> rt_mode (tick_watchdog t (tick_ack_timeout t (tick_trace tick rt))) = rt_mode rt"
  by (simp add: tick_watchdog_def tick_ack_timeout_def can_accept_output_def)

lemma on_tick_inactive:
  "rt_mode rt \<noteq> RuntimeMode.Active \<Longrightarrow> rt_mode (fst (fst (rt_on_tick None tick (rt, x)))) = rt_mode rt"
  by (simp add: rt_on_tick_def Let_def tick_inactive)

lemma cycle_inactive:
  assumes "rt_mode rt \<noteq> RuntimeMode.Active"
  shows "rt_mode (fst (rt_cycle None env (rt, x))) = rt_mode rt"
proof (cases "ps_cycle env (rt_on_tick None) (rt_scheduler rt, (rt, x))")
  case (Some r)
  obtain ps rt' x' where r: "r = (ps, rt', x')" by (cases r) auto
  have "rt_mode rt' = rt_mode rt"
    using Some on_tick_inactive [OF assms, of _ x] unfolding r
    by (auto simp: ps_cycle_def Let_def split: if_splits option.splits prod.splits sum.splits; metis fst_conv)
  then show ?thesis using Some r by (simp add: rt_cycle_def)
qed (simp add: rt_cycle_def)

lemma outputs_keep_machine [simp]:
  "rt_state_machine (fst (publish_output_command c rt)) = rt_state_machine rt"
  "rt_state_machine (fst (try_consume_output_command rt)) = rt_state_machine rt"
  "rt_state_machine (fst (note_output_command_sent s q t rt)) = rt_state_machine rt"
  "rt_state_machine (observe_output_status s q r t rt) = rt_state_machine rt"
  "rt_state_machine (fst (rt_start env rt)) = rt_state_machine rt"
  by (auto simp: publish_output_command_def reject_command_def try_consume_output_command_def
      note_output_command_sent_def observe_output_status_def rt_start_def Let_def
      split: sum.splits option.splits prod.splits)

lemma handle_activates:
  assumes "rt_mode rt \<noteq> RuntimeMode.Active" and "rt_mode (fst (rt_handle e rt)) = RuntimeMode.Active"
  shows "e = RuntimeEvent.ActivateRequest \<and> rt_mode rt = RuntimeMode.Idle \<and> rt_running rt \<and>
     sm_interlock_ready (rt_state_machine rt) \<and> out_path (fst (rt_handle e rt)) = (None, 0, None)"
proof -
  obtain sm tr where h: "handle e (rt_state_machine rt) = (sm, tr)" by fastforce
  note res = handle_result [OF h]
  have "sm_mode sm = RuntimeMode.Active" and t: "tr_accepted tr"
    and r: "e = RuntimeEvent.ActivateRequest \<longrightarrow> rt_running rt" and e: "e \<noteq> RuntimeEvent.FaultDetected"
    using assms h res by (auto simp: rt_handle_def Let_def split: if_splits)
  then have a: "e = RuntimeEvent.ActivateRequest \<and> rt_mode rt = RuntimeMode.Idle \<and> sm_interlock_ready (rt_state_machine rt)"
    using handle_enters_active [of e "rt_state_machine rt"] h assms(1) by auto
  have "out_path (fst (rt_handle e rt)) = (None, 0, None)"
    using h t r e a res \<open>sm_mode sm = RuntimeMode.Active\<close> by (simp add: rt_handle_def Let_def)
  then show ?thesis using a r by simp
qed

lemma rt_stop_mode: "rt_mode (rt_stop rt) = RuntimeMode.Disabled"
  by (simp add: rt_stop_def Let_def sm_init_def)

lemma step_into_active:
  assumes "rt_mode rt \<noteq> RuntimeMode.Active" and "rt_mode (rt_step op rt) = RuntimeMode.Active"
  shows "op = Handle RuntimeEvent.ActivateRequest \<and> rt_mode rt = RuntimeMode.Idle \<and> rt_running rt \<and>
         sm_interlock_ready (rt_state_machine rt) \<and> out_path (rt_step op rt) = (None, 0, None)"
proof (cases op)
  case (Handle e)
  then show ?thesis using handle_activates [of rt e] assms by auto
next
  case (RaiseFault code)
  have "rt_mode (fst (raise_fault code rt)) \<noteq> RuntimeMode.Active"
    using assms(1) handle_enters_active [of RuntimeEvent.FaultDetected "set_fault code (rt_state_machine rt)"]
    by (auto simp: raise_fault_def Let_def refused_def split: prod.splits)
  then show ?thesis using RaiseFault assms by simp
next
  case (SetInterlock b)
  then show ?thesis using set_interlock_mode [OF assms(1), of b] assms(2) by simp
next
  case (Cycle env)
  then show ?thesis using cycle_inactive [OF assms(1), of env "()"] assms by simp
next
  case Stop
  then show ?thesis using assms(2) by (simp add: rt_stop_mode)
qed (use assms in \<open>simp_all add: sendable_state\<close>)

text \<open>
  Output permission is opened in one place: an operation that takes a state into
  ACTIVE is an explicit activation request, from IDLE with the interlock ready and the
  worker running, and it starts with an empty, unbound output path.
\<close>

theorem only_activation_opens:
  assumes "rt_mode rt \<noteq> RuntimeMode.Active" and "rt_mode (rt_step op rt) = RuntimeMode.Active"
  shows "op = Handle RuntimeEvent.ActivateRequest \<and> rt_mode rt = RuntimeMode.Idle \<and> rt_running rt \<and>
         sm_interlock_ready (rt_state_machine rt) \<and> out_path (rt_step op rt) = (None, 0, None)"
  using step_into_active [OF assms] .

text \<open>A worker that is not running stays so until the next start.\<close>

lemma stopped_step:
  assumes "\<not> rt_running rt" and "\<And>env. op \<noteq> Start env"
  shows "\<not> rt_running (rt_step op rt)"
  using assms
  by (cases op)
    (auto simp: rt_stop_def ps_join_def ps_request_stop_def rt_handle_def raise_fault_def rt_set_interlock_ready_def
      publish_output_command_def reject_command_def try_consume_output_command_def sendable_state
      note_sent_state observe_output_status_def rt_cycle_def Let_def
      split: sum.splits option.splits prod.splits)

lemma stopped_run:
  assumes "\<not> rt_running rt" and "\<And>env. Start env \<notin> set ops"
  shows "\<not> rt_running (fold rt_step ops rt)"
  using assms
proof (induction ops arbitrary: rt)
  case (Cons op ops)
  have "\<not> rt_running (rt_step op rt)" using Cons.prems by (intro stopped_step) auto
  then show ?case using Cons.IH Cons.prems(2) by simp
qed simp

text \<open>
  The runtime fails closed with its worker: once the worker is not running (stopped,
  failed to start, ended by an exception or a clock error), no order of calls without a
  new start admits a command, hands one out, registers one as sent, or enters ACTIVE.
\<close>

theorem dead_worker_fails_closed:
  assumes "\<not> rt_running rt" and "\<And>env. Start env \<notin> set ops"
  shows "\<not> is_ok (snd (publish_output_command c (fold rt_step ops rt))) \<and>
         snd (try_consume_output_command (fold rt_step ops rt)) = None \<and>
         \<not> is_ok (snd (note_output_command_sent s q t (fold rt_step ops rt))) \<and>
         snd (output_command_sendable c (fold rt_step ops rt)) = False \<and>
         (rt_mode (fold rt_step ops rt) = RuntimeMode.Active \<longrightarrow> rt_mode rt = RuntimeMode.Active)"
proof -
  let ?rt = "fold rt_step ops rt"
  have r: "\<not> rt_running ?rt" using assms by (rule stopped_run)
  have "rt_mode ?rt = RuntimeMode.Active \<longrightarrow> rt_mode rt = RuntimeMode.Active"
    using assms
  proof (induction ops arbitrary: rt)
    case (Cons op ops)
    have "\<not> rt_running (rt_step op rt)" using Cons.prems by (intro stopped_step) auto
    then have "rt_mode (fold rt_step ops (rt_step op rt)) = RuntimeMode.Active \<longrightarrow> rt_mode (rt_step op rt) = RuntimeMode.Active"
      using Cons.IH Cons.prems(2) by simp
    moreover have "rt_mode (rt_step op rt) = RuntimeMode.Active \<longrightarrow> rt_mode rt = RuntimeMode.Active"
      using step_into_active [of rt op] Cons.prems(1) by blast
    ultimately show ?case by simp
  qed simp
  then show ?thesis using r
    by (auto simp: publish_output_command_def try_consume_output_command_def note_output_command_sent_def
        output_command_sendable_def Let_def split: sum.splits)
qed

text \<open>
  Acknowledgements: an observed output status closes the command in flight exactly
  when session, sequence and the APPLIED result all match it; every other status leaves
  it open and is counted. Mode, fault and output path never change, and the watchdog is
  released only when a matching status leaves nothing pending.
\<close>

theorem ack_closes_exactly:
  "rt_output_ack_pending (observe_output_status s q r t rt) =
     (rt_output_ack_pending rt \<and>
      \<not> (s = rt_last_sent_session rt \<and> q = rt_last_sent_sequence rt \<and> r = OutputResult.Applied)) \<and>
   rt_unexpected_ack_count (observe_output_status s q r t rt) = rt_unexpected_ack_count rt +
     (if rt_output_ack_pending rt \<and> \<not> rt_output_ack_pending (observe_output_status s q r t rt) then 0 else 1) \<and>
   rt_state_machine (observe_output_status s q r t rt) = rt_state_machine rt \<and>
   out_path (observe_output_status s q r t rt) = out_path rt \<and>
   rt_command_watchdog (observe_output_status s q r t rt) =
     (if rt_output_ack_pending rt \<and> \<not> rt_output_ack_pending (observe_output_status s q r t rt) \<and>
         mb_slot (rt_mailbox rt) = None
      then wd_disarm (rt_command_watchdog rt) else rt_command_watchdog rt)"
  by (auto simp: observe_output_status_def Let_def out_path_def
      maybe_disarm_idle_command_watchdog_locked_def mb_has_pending_def)

section \<open>Independence of the trace\<close>

definition erase_trace :: "LinuxRuntime \<Rightarrow> LinuxRuntime" where
  "erase_trace rt = rt\<lparr>rt_trace := tb_init 0 []\<rparr>"

lemma erase_trace_fields [simp]:
  "rt_config (erase_trace rt) = rt_config rt" "rt_state_machine (erase_trace rt) = rt_state_machine rt"
  "rt_mailbox (erase_trace rt) = rt_mailbox rt" "rt_command_watchdog (erase_trace rt) = rt_command_watchdog rt"
  "rt_scheduler (erase_trace rt) = rt_scheduler rt" "rt_active_session_id (erase_trace rt) = rt_active_session_id rt"
  "rt_last_output_sequence (erase_trace rt) = rt_last_output_sequence rt" "rt_output_ack_pending (erase_trace rt) = rt_output_ack_pending rt"
  "rt_last_sent_session (erase_trace rt) = rt_last_sent_session rt" "rt_last_sent_sequence (erase_trace rt) = rt_last_sent_sequence rt"
  "rt_last_sent_time_ns (erase_trace rt) = rt_last_sent_time_ns rt" "rt_last_ack_session (erase_trace rt) = rt_last_ack_session rt"
  "rt_last_ack_sequence (erase_trace rt) = rt_last_ack_sequence rt" "rt_last_ack_result (erase_trace rt) = rt_last_ack_result rt"
  "rt_last_ack_time_ns (erase_trace rt) = rt_last_ack_time_ns rt" "rt_ack_timeout_count (erase_trace rt) = rt_ack_timeout_count rt"
  "rt_unexpected_ack_count (erase_trace rt) = rt_unexpected_ack_count rt" "rt_test_throw_on_tick (erase_trace rt) = rt_test_throw_on_tick rt"
  "rt_clock (erase_trace rt) = rt_clock rt"
  by (simp_all add: erase_trace_def)

lemma erase_trace_update:
  "erase_trace (rt\<lparr>rt_state_machine := v_state_machine\<rparr>) = (erase_trace rt)\<lparr>rt_state_machine := v_state_machine\<rparr>"
  "erase_trace (rt\<lparr>rt_mailbox := v_mailbox\<rparr>) = (erase_trace rt)\<lparr>rt_mailbox := v_mailbox\<rparr>"
  "erase_trace (rt\<lparr>rt_command_watchdog := v_command_watchdog\<rparr>) = (erase_trace rt)\<lparr>rt_command_watchdog := v_command_watchdog\<rparr>"
  "erase_trace (rt\<lparr>rt_scheduler := v_scheduler\<rparr>) = (erase_trace rt)\<lparr>rt_scheduler := v_scheduler\<rparr>"
  "erase_trace (rt\<lparr>rt_active_session_id := v_active_session_id\<rparr>) = (erase_trace rt)\<lparr>rt_active_session_id := v_active_session_id\<rparr>"
  "erase_trace (rt\<lparr>rt_last_output_sequence := v_last_output_sequence\<rparr>) = (erase_trace rt)\<lparr>rt_last_output_sequence := v_last_output_sequence\<rparr>"
  "erase_trace (rt\<lparr>rt_output_ack_pending := v_output_ack_pending\<rparr>) = (erase_trace rt)\<lparr>rt_output_ack_pending := v_output_ack_pending\<rparr>"
  "erase_trace (rt\<lparr>rt_last_sent_session := v_last_sent_session\<rparr>) = (erase_trace rt)\<lparr>rt_last_sent_session := v_last_sent_session\<rparr>"
  "erase_trace (rt\<lparr>rt_last_sent_sequence := v_last_sent_sequence\<rparr>) = (erase_trace rt)\<lparr>rt_last_sent_sequence := v_last_sent_sequence\<rparr>"
  "erase_trace (rt\<lparr>rt_last_sent_time_ns := v_last_sent_time_ns\<rparr>) = (erase_trace rt)\<lparr>rt_last_sent_time_ns := v_last_sent_time_ns\<rparr>"
  "erase_trace (rt\<lparr>rt_last_ack_session := v_last_ack_session\<rparr>) = (erase_trace rt)\<lparr>rt_last_ack_session := v_last_ack_session\<rparr>"
  "erase_trace (rt\<lparr>rt_last_ack_sequence := v_last_ack_sequence\<rparr>) = (erase_trace rt)\<lparr>rt_last_ack_sequence := v_last_ack_sequence\<rparr>"
  "erase_trace (rt\<lparr>rt_last_ack_result := v_last_ack_result\<rparr>) = (erase_trace rt)\<lparr>rt_last_ack_result := v_last_ack_result\<rparr>"
  "erase_trace (rt\<lparr>rt_last_ack_time_ns := v_last_ack_time_ns\<rparr>) = (erase_trace rt)\<lparr>rt_last_ack_time_ns := v_last_ack_time_ns\<rparr>"
  "erase_trace (rt\<lparr>rt_ack_timeout_count := v_ack_timeout_count\<rparr>) = (erase_trace rt)\<lparr>rt_ack_timeout_count := v_ack_timeout_count\<rparr>"
  "erase_trace (rt\<lparr>rt_unexpected_ack_count := v_unexpected_ack_count\<rparr>) = (erase_trace rt)\<lparr>rt_unexpected_ack_count := v_unexpected_ack_count\<rparr>"
  "erase_trace (rt\<lparr>rt_test_throw_on_tick := v_test_throw_on_tick\<rparr>) = (erase_trace rt)\<lparr>rt_test_throw_on_tick := v_test_throw_on_tick\<rparr>"
  "erase_trace (rt\<lparr>rt_clock := v_clock\<rparr>) = (erase_trace rt)\<lparr>rt_clock := v_clock\<rparr>"
  by (simp_all add: erase_trace_def)

lemma erase_trace_helpers:
  "erase_trace (erase_trace rt) = erase_trace rt"
  "erase_trace (rt_record t k a b rt) = erase_trace rt"
  "erase_trace (trace_transition tr t rt) = erase_trace rt"
  "erase_trace (rt_clock_read rt) = rt_clock_read (erase_trace rt)"
  "erase_trace (clear_output_path_locked rt) = clear_output_path_locked (erase_trace rt)"
  "erase_trace (maybe_disarm_idle_command_watchdog_locked rt) =
     maybe_disarm_idle_command_watchdog_locked (erase_trace rt)"
  "rt_now (erase_trace rt) = rt_now rt" "refused m (erase_trace rt) = refused m rt"
  by (simp_all add: erase_trace_def rt_record_def trace_transition_def rt_clock_read_def
      clear_output_path_locked_def maybe_disarm_idle_command_watchdog_locked_def rt_now_def refused_def)

lemmas erase_simps = erase_trace_update erase_trace_helpers if_distrib [of erase_trace]

text \<open>What a caller sees of an operation.\<close>

datatype RtResult = ROk "unit Result" | RTransition TransitionResult | RCommand "OutputCommand option" | RBool bool | RVoid

fun rt_result :: "RtOp \<Rightarrow> LinuxRuntime \<Rightarrow> RtResult" where
  "rt_result (Start env) rt = ROk (snd (rt_start env rt))"
| "rt_result (Handle e) rt = RTransition (snd (rt_handle e rt))"
| "rt_result (RaiseFault c) rt = RTransition (snd (raise_fault c rt))"
| "rt_result (PublishCommand c) rt = ROk (snd (publish_output_command c rt))"
| "rt_result ConsumeCommand rt = RCommand (snd (try_consume_output_command rt))"
| "rt_result (Sendable c) rt = RBool (snd (output_command_sendable c rt))"
| "rt_result (NoteSent s q t) rt = ROk (snd (note_output_command_sent s q t rt))"
| "rt_result _ rt = RVoid"

lemma erase_handle:
  "erase_trace (fst (rt_handle e rt)) = erase_trace (fst (rt_handle e (erase_trace rt))) \<and>
   snd (rt_handle e rt) = snd (rt_handle e (erase_trace rt))"
  by (cases "handle e (rt_state_machine rt)") (simp add: rt_handle_def Let_def erase_simps refused_def)

lemma erase_raise_fault:
  "erase_trace (fst (raise_fault c rt)) = erase_trace (fst (raise_fault c (erase_trace rt))) \<and>
   snd (raise_fault c rt) = snd (raise_fault c (erase_trace rt))"
  by (cases "handle RuntimeEvent.FaultDetected (set_fault c (rt_state_machine rt))")
    (simp add: raise_fault_def Let_def erase_simps refused_def)

lemma erase_set_interlock:
  "erase_trace (rt_set_interlock_ready b rt) = erase_trace (rt_set_interlock_ready b (erase_trace rt))"
  by (simp add: rt_set_interlock_ready_def Let_def erase_simps)

definition same_but_trace :: "LinuxRuntime \<times> 'a \<Rightarrow> LinuxRuntime \<times> 'a \<Rightarrow> bool" where
  "same_but_trace p p' \<longleftrightarrow> erase_trace (fst p) = erase_trace (fst p') \<and> snd p = snd p'"

lemma same_but_trace_if:
  "(b \<Longrightarrow> same_but_trace x x') \<Longrightarrow> (\<not> b \<Longrightarrow> same_but_trace y y') \<Longrightarrow>
   same_but_trace (if b then x else y) (if b then x' else y')"
  by simp

lemma erase_reject:
  "erase_trace rt = erase_trace rt' \<Longrightarrow> same_but_trace (reject_command c t m rt) (reject_command c t m rt')"
  by (simp add: same_but_trace_def reject_command_def erase_trace_helpers)

lemma erase_publish_tail:
  assumes "erase_trace r = erase_trace r'"
  shows "same_but_trace
    (if oc_sequence c \<le> rt_last_output_sequence r then reject_command c now m r
     else (rt_record now k a b (r\<lparr>rt_last_output_sequence := oc_sequence c,
             rt_mailbox := mb_publish c (rt_mailbox r),
             rt_command_watchdog := wd_arm now (rt_command_watchdog r)\<rparr>), Inr ()))
    (if oc_sequence c \<le> rt_last_output_sequence r' then reject_command c now m r'
     else (rt_record now k a b (r'\<lparr>rt_last_output_sequence := oc_sequence c,
             rt_mailbox := mb_publish c (rt_mailbox r'),
             rt_command_watchdog := wd_arm now (rt_command_watchdog r')\<rparr>), Inr ()))"
proof -
  have f: "rt_last_output_sequence r = rt_last_output_sequence r'" "rt_mailbox r = rt_mailbox r'"
    "rt_command_watchdog r = rt_command_watchdog r'"
    using assms by (metis erase_trace_fields)+
  show ?thesis
    unfolding f
  proof (intro same_but_trace_if erase_reject assms)
    show "same_but_trace
      (rt_record now k a b (r\<lparr>rt_last_output_sequence := oc_sequence c, rt_mailbox := mb_publish c (rt_mailbox r'),
             rt_command_watchdog := wd_arm now (rt_command_watchdog r')\<rparr>), Inr ())
      (rt_record now k a b (r'\<lparr>rt_last_output_sequence := oc_sequence c, rt_mailbox := mb_publish c (rt_mailbox r'),
             rt_command_watchdog := wd_arm now (rt_command_watchdog r')\<rparr>), Inr ())"
      unfolding same_but_trace_def fst_conv snd_conv erase_trace_helpers erase_trace_update assms by simp
  qed
qed

lemma erase_publish:
  "same_but_trace (publish_output_command c rt) (publish_output_command c (erase_trace rt))"
proof (cases "rt_now rt")
  case (Inl e)
  then show ?thesis by (simp add: publish_output_command_def same_but_trace_def erase_trace_helpers)
next
  case (Inr now)
  show ?thesis
    unfolding publish_output_command_def Let_def erase_trace_helpers(7) Inr sum.case rt_clock_read_simps
      erase_trace_fields
    apply (intro same_but_trace_if erase_reject)
    subgoal by (simp add: same_but_trace_def erase_trace_helpers)
    subgoal by (simp add: erase_trace_helpers)
    subgoal by (simp add: erase_trace_helpers)
    subgoal by (simp add: erase_trace_helpers)
    subgoal by (simp add: erase_trace_helpers)
    subgoal by (rule erase_publish_tail) (auto simp: erase_simps)
    done
qed

lemma erase_consume:
  "erase_trace (fst (try_consume_output_command rt)) = erase_trace (fst (try_consume_output_command (erase_trace rt))) \<and>
   snd (try_consume_output_command rt) = snd (try_consume_output_command (erase_trace rt))"
  by (cases "rt_now rt"; cases "mb_slot (rt_mailbox rt)")
    (simp_all add: try_consume_output_command_def mb_try_consume_def Let_def erase_simps)

lemma erase_observe:
  "erase_trace (observe_output_status s q r t rt) = erase_trace (observe_output_status s q r t (erase_trace rt))"
  by (simp add: observe_output_status_def Let_def erase_simps)

lemma erase_note_sent:
  "erase_trace (fst (note_output_command_sent s q t rt)) = erase_trace (fst (note_output_command_sent s q t (erase_trace rt))) \<and>
   snd (note_output_command_sent s q t rt) = snd (note_output_command_sent s q t (erase_trace rt))"
  by (simp add: note_output_command_sent_def erase_simps)

lemma erase_stop: "erase_trace (rt_stop rt) = erase_trace (rt_stop (erase_trace rt))"
  by (simp add: rt_stop_def Let_def erase_simps)

lemma erase_tick_trace: "erase_trace (tick_trace tick rt) = erase_trace rt"
  by (simp add: tick_trace_def Let_def erase_trace_helpers)

lemma erase_ack_timeout: "erase_trace (tick_ack_timeout t rt) = erase_trace (tick_ack_timeout t (erase_trace rt))"
  by (cases "handle RuntimeEvent.Hold (set_fault FaultCode.AckTimeout (rt_state_machine rt))")
    (simp add: tick_ack_timeout_def Let_def erase_simps)

lemma erase_watchdog: "erase_trace (tick_watchdog t rt) = erase_trace (tick_watchdog t (erase_trace rt))"
  by (cases "wd_check t (rt_command_watchdog rt)"; cases "handle RuntimeEvent.CommandTimeout (rt_state_machine rt)")
    (simp add: tick_watchdog_def Let_def erase_simps)

lemma erase_ticks:
  "erase_trace (tick_watchdog t (tick_ack_timeout t (tick_trace tick rt))) =
   erase_trace (tick_watchdog t (tick_ack_timeout t (tick_trace tick (erase_trace rt))))"
  by (metis erase_ack_timeout erase_tick_trace erase_trace_helpers(1) erase_watchdog)

lemma erase_on_tick:
  "erase_trace (fst (fst (rt_on_tick None tick (rt, x)))) =
     erase_trace (fst (fst (rt_on_tick None tick (erase_trace rt, x)))) \<and>
   snd (rt_on_tick None tick (rt, x)) = snd (rt_on_tick None tick (erase_trace rt, x)) \<and>
   snd (fst (rt_on_tick None tick (rt, x))) = x"
  using erase_ticks [of "tick_actual_ns tick" tick rt]
  by (simp add: rt_on_tick_def Let_def erase_simps)

text \<open>A turn of the worker depends on the callback's state only through what the callback shows of it.\<close>

lemma ps_cycle_view:
  assumes "g s = g s'" and "\<And>tick. g (fst (cb tick s)) = g (fst (cb tick s')) \<and> snd (cb tick s) = snd (cb tick s')"
  shows "map_option (map_prod id g) (ps_cycle env cb (ps, s)) = map_option (map_prod id g) (ps_cycle env cb (ps, s'))"
  using assms
  by (auto simp: ps_cycle_def Let_def split: option.splits sum.splits prod.splits if_splits; metis fst_conv snd_conv)

lemma erase_cycle:
  "erase_trace (fst (rt_cycle None env (rt, ()))) = erase_trace (fst (rt_cycle None env (erase_trace rt, ())))"
proof -
  let ?g = "\<lambda>p :: LinuxRuntime \<times> unit. erase_trace (fst p)"
  have "map_option (map_prod id ?g) (ps_cycle env (rt_on_tick None) (rt_scheduler rt, (rt, ()))) =
      map_option (map_prod id ?g) (ps_cycle env (rt_on_tick None) (rt_scheduler rt, (erase_trace rt, ())))"
    using erase_on_tick [of _ rt "()"] by (intro ps_cycle_view) (simp_all add: erase_trace_helpers)
  then show ?thesis
    by (auto simp: rt_cycle_def erase_simps split: option.splits)
qed

lemma erase_step:
  "erase_trace (rt_step op rt) = erase_trace (rt_step op (erase_trace rt)) \<and>
   rt_result op rt = rt_result op (erase_trace rt)"
proof (cases op)
  case (Start env)
  then show ?thesis
    by (cases "ps_start env True (rt_scheduler rt)") (simp add: rt_start_def erase_simps)
next
  case (Sendable c)
  then show ?thesis
    by (simp add: sendable_state erase_trace_helpers)
      (simp add: output_command_sendable_def Let_def erase_trace_helpers split: sum.splits)
qed (use erase_publish [of _ rt] in \<open>simp_all add: same_but_trace_def erase_stop [of rt] erase_handle [of _ rt]
      erase_raise_fault [of _ rt] erase_set_interlock [of _ rt] erase_consume [of rt]
      erase_note_sent [of _ _ _ rt] erase_observe [of _ _ _ _ rt] erase_cycle [of _ rt]\<close>)

fun rt_results :: "RtOp list \<Rightarrow> LinuxRuntime \<Rightarrow> RtResult list" where
  "rt_results [] rt = []"
| "rt_results (op # ops) rt = rt_result op rt # rt_results ops (rt_step op rt)"

lemma same_trace_step:
  "erase_trace rt = erase_trace rt' \<Longrightarrow>
   erase_trace (rt_step op rt) = erase_trace (rt_step op rt') \<and> rt_result op rt = rt_result op rt'"
  using erase_step [of op rt] erase_step [of op rt'] by simp

text \<open>
  Tracing never influences control: two runtimes that differ only in their trace
  buffers, in capacity, contents, drop counts and in which attempts find the trace lock
  busy, give the same results to every sequence of calls and reach states that again
  differ only in the trace.
\<close>

theorem trace_never_controls:
  assumes "erase_trace rt = erase_trace rt'"
  shows "rt_results ops rt = rt_results ops rt' \<and>
         erase_trace (fold rt_step ops rt) = erase_trace (fold rt_step ops rt')"
  using assms
proof (induction ops arbitrary: rt rt')
  case (Cons op ops)
  have s: "erase_trace (rt_step op rt) = erase_trace (rt_step op rt')" "rt_result op rt = rt_result op rt'"
    using same_trace_step [OF Cons.prems, of op] by blast+
  show ?case using Cons.IH [OF s(1)] s(2) by simp
qed simp

section \<open>A concrete run\<close>

definition demo_config :: RuntimeConfig where
  "demo_config =
     \<lparr>rc_scheduler = \<lparr>sc_period_ns = 10000000, sc_fifo_priority = 0, sc_require_fifo = False, sc_cpu_affinity = - 1\<rparr>,
      rc_command_timeout_ns = 100000000, rc_output_ack_timeout_ns = 50000000, rc_trace_capacity = 4,
      rc_test_throw_on_tick = False\<rparr>"

definition demo_start :: StartEnv where
  "demo_start = \<lparr>se_thread_error = None, se_affinity_rc = 0, se_fifo_rc = 0, se_clock = Inr 1000, se_strerror = (\<lambda>_. [])\<rparr>"

definition demo_command :: "u64 \<Rightarrow> i64 \<Rightarrow> OutputCommand" where
  "demo_command q d = \<lparr>oc_session_id = 9, oc_sequence = q, oc_deadline_ns = d, oc_mask = 1, oc_values = 1\<rparr>"

definition demo_cycle :: "i64 \<Rightarrow> CycleEnv" where
  "demo_cycle t = \<lparr>ce_stop = False, ce_sleep = [(0, False)], ce_actual = Inr t, ce_finished = Inr t\<rparr>"

definition demo_fresh :: "bool list \<Rightarrow> LinuxRuntime" where
  "demo_fresh busy = rt_init demo_config busy (map Inr [2000, 2001, 2002, 2003, 2004, 2005, 2006, 2007, 2008, 2009, 2010])"

text \<open>Start, boot, interlock, activate, and admit one command.\<close>

definition demo_ops :: "RtOp list" where
  "demo_ops = [Start demo_start, Handle RuntimeEvent.Boot, SetInterlock True,
     Handle RuntimeEvent.ActivateRequest, PublishCommand (demo_command 1 900000000)]"

definition demo_rt :: LinuxRuntime where
  "demo_rt = fold rt_step demo_ops (demo_fresh [])"

lemma demo_reachable: "reachable demo_config demo_rt"
  unfolding demo_rt_def demo_fresh_def by (intro reachable_run reachable.fresh)

lemma demo_state: "out_path demo_rt = (Some 9, 1, Some (demo_command 1 900000000))"
  "rt_mode demo_rt = RuntimeMode.Active" "rt_running demo_rt" "\<not> rt_test_throw_on_tick demo_rt"
  by code_simp+

theorem runtime_output_gate_witness:
  "rt_active_session_id demo_rt = Some 9 \<and> sm_interlock_ready (rt_state_machine demo_rt) \<and>
   wd_armed (rt_command_watchdog demo_rt)"
  using runtime_output_gate [OF demo_reachable] demo_state by (simp add: out_path_def demo_command_def)

theorem runtime_refines_path_witness:
  "path_step (Some 9, 1, Some (demo_command 1 900000000)) (Some 9, 1, None)"
proof -
  have "out_path (rt_step ConsumeCommand demo_rt) = (Some 9, 1, None)" by code_simp
  then show ?thesis using runtime_refines_path [OF demo_reachable, of ConsumeCommand] demo_state by simp
qed

definition demo_consumed :: LinuxRuntime where
  "demo_consumed = fst (try_consume_output_command demo_rt)"

lemma demo_consume: "try_consume_output_command demo_rt = (demo_consumed, Some (demo_command 1 900000000))"
proof -
  have "snd (try_consume_output_command demo_rt) = Some (demo_command 1 900000000)" by code_simp
  then show ?thesis by (simp add: demo_consumed_def prod_eq_iff)
qed

theorem consumed_command_authorised_witness:
  "\<exists>now. rt_now demo_rt = Inr now \<and> now < 900000000 \<and> rt_active_session_id demo_rt = Some 9"
  using consumed_command_authorised [OF demo_reachable demo_consume] by (auto simp: demo_command_def)

theorem no_replay_witness:
  "snd (try_consume_output_command (rt_step (PublishCommand (demo_command 5 900000000)) demo_consumed)) =
     Some (demo_command 5 900000000) \<and> (1 :: u64) < 5"
proof -
  let ?ops = "[PublishCommand (demo_command 5 900000000)]"
  have b: "rt_active_session_id (fold rt_step (take n ?ops) demo_consumed) \<noteq> None" for n
  proof -
    have "rt_active_session_id demo_consumed \<noteq> None"
      "rt_active_session_id (rt_step (PublishCommand (demo_command 5 900000000)) demo_consumed) \<noteq> None"
      by code_simp+
    then show ?thesis by (cases n) auto
  qed
  have s: "snd (try_consume_output_command (fold rt_step ?ops demo_consumed)) = Some (demo_command 5 900000000)"
    by code_simp
  then have "try_consume_output_command (fold rt_step ?ops demo_consumed) =
      (fst (try_consume_output_command (fold rt_step ?ops demo_consumed)), Some (demo_command 5 900000000))"
    by (simp add: prod_eq_iff)
  from no_replay [OF demo_reachable demo_consume b this] s show ?thesis by (simp add: demo_command_def)
qed


theorem raise_fault_closes_witness:
  "rt_mode (fst (raise_fault FaultCode.CommLoss demo_rt)) = RuntimeMode.Fault \<and>
   out_path (fst (raise_fault FaultCode.CommLoss demo_rt)) = (None, 0, None)"
  using raise_fault_closes [of FaultCode.CommLoss demo_rt] demo_state(2) by simp

definition demo_tick :: "i64 \<Rightarrow> SchedulerTick" where
  "demo_tick t = \<lparr>tick_sequence = 1, tick_scheduled_ns = t, tick_actual_ns = t, tick_wakeup_lateness_ns = 0\<rparr>"

theorem tick_decision_witness:
  "rt_mode (rt_tick (demo_tick 50000000) demo_rt) = RuntimeMode.Active \<and>
   rt_mode (rt_tick (demo_tick 200000000) demo_rt) = RuntimeMode.Hold \<and>
   sm_fault (rt_state_machine (rt_tick (demo_tick 200000000) demo_rt)) = FaultCode.Watchdog"
proof -
  have "\<not> ack_overdue 50000000 demo_rt" "\<not> command_overdue 50000000 demo_rt"
    "\<not> ack_overdue 200000000 demo_rt" "command_overdue 200000000 demo_rt" by code_simp+
  then show ?thesis
    using tick_decision [OF demo_reachable demo_state(2,4), of "demo_tick 50000000"]
      tick_decision [OF demo_reachable demo_state(2,4), of "demo_tick 200000000"]
    by (simp add: demo_tick_def)
qed

theorem only_activation_opens_witness:
  "rt_mode (fold rt_step (take 3 demo_ops) (demo_fresh [])) = RuntimeMode.Idle \<and>
   out_path (fold rt_step (take 4 demo_ops) (demo_fresh [])) = (None, 0, None)"
proof -
  let ?rt = "fold rt_step (take 3 demo_ops) (demo_fresh [])"
  have "rt_mode ?rt \<noteq> RuntimeMode.Active"
    "rt_mode (rt_step (Handle RuntimeEvent.ActivateRequest) ?rt) = RuntimeMode.Active" by code_simp+
  from only_activation_opens [OF this] show ?thesis
    by (simp add: demo_ops_def numeral_eq_Suc)
qed

theorem dead_worker_fails_closed_witness:
  "rt_mode (rt_step (Cycle ((demo_cycle 5)\<lparr>ce_actual := Inl clock_error\<rparr>)) demo_rt) = RuntimeMode.Active \<and>
   snd (try_consume_output_command (fold rt_step [Handle RuntimeEvent.Boot]
     (rt_step (Cycle ((demo_cycle 5)\<lparr>ce_actual := Inl clock_error\<rparr>)) demo_rt))) = None"
proof -
  let ?rt = "rt_step (Cycle ((demo_cycle 5)\<lparr>ce_actual := Inl clock_error\<rparr>)) demo_rt"
  have r: "\<not> rt_running ?rt" and m: "rt_mode ?rt = RuntimeMode.Active" by code_simp+
  show ?thesis using dead_worker_fails_closed [OF r, of "[Handle RuntimeEvent.Boot]"] m by simp
qed

theorem trace_never_controls_witness:
  "rt_results demo_ops (demo_fresh [True, False, True]) = rt_results demo_ops (demo_fresh []) \<and>
   rt_trace_snapshot (fold rt_step demo_ops (demo_fresh [True, False, True])) \<noteq>
   rt_trace_snapshot (fold rt_step demo_ops (demo_fresh []))"
proof -
  have e: "erase_trace (demo_fresh [True, False, True]) = erase_trace (demo_fresh [])"
    by (simp add: erase_trace_def demo_fresh_def rt_init_def)
  have "length (rt_trace_snapshot (fold rt_step demo_ops (demo_fresh [True, False, True]))) \<noteq>
      length (rt_trace_snapshot (fold rt_step demo_ops (demo_fresh [])))" by code_simp
  then show ?thesis using trace_never_controls [OF e, of demo_ops] by auto
qed

end
