(* ===== verification/Input_Queue.thy ===== *)
theory Input_Queue
  imports Can_V1
begin

text \<open>
  The bounded event queue between the I/O thread and the periodic supervision
  (\<^verbatim>\<open>linux/include/rcr/runtime_events.hpp\<close>, \<^verbatim>\<open>linux/src/core/bounded_input_queue.cpp\<close>). The
  interface \<open>event_queue\<close> states the FIFO contract a consumer relies on; the ring
  buffer of the source is shown to provide it.
\<close>

section \<open>Input events\<close>

datatype RuntimeInputKind = Heartbeat | NodeStatus | OutputStatus | ProtocolReject | IoError

record RuntimeInputEvent =
  ie_kind :: RuntimeInputKind
  ie_monotonic_ns :: i64
  ie_node_id :: u8
  ie_boot_id :: u16
  ie_session_id :: u16
  ie_hb_seq :: u16
  ie_interlock_ready :: bool
  ie_input_bits :: u16
  ie_node_fault_code :: u16
  ie_output_result :: OutputResult
  ie_output_sequence :: u16
  ie_output_mirror :: u8

definition ie_default :: RuntimeInputEvent where
  "ie_default =
     \<lparr>ie_kind = RuntimeInputKind.Heartbeat, ie_monotonic_ns = 0, ie_node_id = 0, ie_boot_id = 0,
      ie_session_id = 0, ie_hb_seq = 0, ie_interlock_ready = False, ie_input_bits = 0,
      ie_node_fault_code = 0, ie_output_result = OutputResult.Applied, ie_output_sequence = 0,
      ie_output_mirror = 0\<rparr>"

section \<open>The ring buffer\<close>

record BoundedInputQueue =
  bq_capacity :: nat
  bq_storage :: "RuntimeInputEvent list"
  bq_head :: nat
  bq_size :: nat
  bq_push_count :: u64
  bq_drop_count :: u64
  bq_overflow_count :: u64
  bq_overflow_latched :: bool

definition bq_init :: "nat \<Rightarrow> BoundedInputQueue" where
  "bq_init capacity =
     (let c = (if capacity = 0 then 1 else capacity) in
      \<lparr>bq_capacity = c, bq_storage = replicate c ie_default, bq_head = 0, bq_size = 0,
       bq_push_count = 0, bq_drop_count = 0, bq_overflow_count = 0, bq_overflow_latched = False\<rparr>)"

definition bq_empty :: "BoundedInputQueue \<Rightarrow> bool" where
  "bq_empty q \<longleftrightarrow> bq_size q = 0"

definition try_push :: "RuntimeInputEvent \<Rightarrow> BoundedInputQueue \<Rightarrow> BoundedInputQueue \<times> bool" where
  "try_push event q =
     (if bq_size q \<ge> bq_capacity q
      then (q\<lparr>bq_drop_count := bq_drop_count q + 1, bq_overflow_count := bq_overflow_count q + 1,
              bq_overflow_latched := True\<rparr>, False)
      else let index = (bq_head q + bq_size q) mod bq_capacity q in
        (q\<lparr>bq_storage := (bq_storage q)[index := event], bq_size := bq_size q + 1,
           bq_push_count := bq_push_count q + 1\<rparr>, True))"

definition try_pop :: "BoundedInputQueue \<Rightarrow> BoundedInputQueue \<times> RuntimeInputEvent option" where
  "try_pop q =
     (if bq_size q = 0 then (q, None)
      else let event = bq_storage q ! bq_head q in
        (q\<lparr>bq_head := (bq_head q + 1) mod bq_capacity q, bq_size := bq_size q - 1\<rparr>, Some event))"

definition clear_overflow_latch :: "BoundedInputQueue \<Rightarrow> BoundedInputQueue" where
  "clear_overflow_latch q = q\<lparr>bq_overflow_latched := False\<rparr>"

section \<open>The queue interface\<close>

text \<open>A consumer that pops at most \<open>budget\<close> events and applies each; the rest of the budget is returned.\<close>

fun drain :: "('q \<Rightarrow> 'q \<times> 'e option) \<Rightarrow> ('e \<Rightarrow> 's \<Rightarrow> 's) \<Rightarrow> nat \<Rightarrow> 'q \<Rightarrow> 's \<Rightarrow> 'q \<times> 's \<times> nat" where
  "drain pop app 0 q s = (q, s, 0)"
| "drain pop app (Suc budget) q s =
     (case pop q of (q', None) \<Rightarrow> (q', s, Suc budget)
      | (q', Some e) \<Rightarrow> drain pop app budget q' (app e s))"

datatype 'e QOp = Push 'e | Pop

text \<open>A run of producer and consumer steps; the events that were accepted and those handed out.\<close>

fun q_run :: "('e \<Rightarrow> 'q \<Rightarrow> 'q \<times> bool) \<Rightarrow> ('q \<Rightarrow> 'q \<times> 'e option) \<Rightarrow> 'e QOp list \<Rightarrow> 'q \<Rightarrow> 'q \<times> 'e list \<times> 'e list" where
  "q_run push pop [] q = (q, [], [])"
| "q_run push pop (Push e # ops) q =
     (let (q1, ok) = push e q; (q2, acc, out) = q_run push pop ops q1 in
      (q2, if ok then e # acc else acc, out))"
| "q_run push pop (Pop # ops) q =
     (let (q1, r) = pop q; (q2, acc, out) = q_run push pop ops q1 in
      (q2, acc, case r of None \<Rightarrow> out | Some e \<Rightarrow> e # out))"

locale event_queue =
  fixes contents :: "'q \<Rightarrow> 'e list" and qinv :: "'q \<Rightarrow> bool" and cap :: "'q \<Rightarrow> nat"
    and push :: "'e \<Rightarrow> 'q \<Rightarrow> 'q \<times> bool" and pop :: "'q \<Rightarrow> 'q \<times> 'e option" and lost :: "'q \<Rightarrow> bool"
  assumes push_inv: "qinv q \<Longrightarrow> push e q = (q', ok) \<Longrightarrow> qinv q'"
    and pop_inv: "qinv q \<Longrightarrow> pop q = (q', r) \<Longrightarrow> qinv q'"
    and push_ok: "qinv q \<Longrightarrow> push e q = (q', ok) \<Longrightarrow> ok \<longleftrightarrow> length (contents q) < cap q"
    and push_contents: "qinv q \<Longrightarrow> push e q = (q', ok) \<Longrightarrow>
          contents q' = (if ok then contents q @ [e] else contents q)"
    and pop_contents: "qinv q \<Longrightarrow> pop q = (q', r) \<Longrightarrow>
          (case contents q of [] \<Rightarrow> r = None \<and> contents q' = [] | e # es \<Rightarrow> r = Some e \<and> contents q' = es)"
    and push_lost: "qinv q \<Longrightarrow> push e q = (q', ok) \<Longrightarrow> lost q' \<longleftrightarrow> lost q \<or> \<not> ok"
    and pop_lost: "qinv q \<Longrightarrow> pop q = (q', r) \<Longrightarrow> lost q' = lost q"
    and push_cap: "qinv q \<Longrightarrow> push e q = (q', ok) \<Longrightarrow> cap q' = cap q"
    and pop_cap: "qinv q \<Longrightarrow> pop q = (q', r) \<Longrightarrow> cap q' = cap q"
begin

lemma drain_spec:
  assumes "qinv q"
  shows "\<exists>q'. drain pop app n q s = (q', fold app (take n (contents q)) s, n - length (contents q)) \<and>
           qinv q' \<and> contents q' = drop n (contents q) \<and> lost q' = lost q \<and> cap q' = cap q"
  using assms
proof (induction n arbitrary: q s)
  case (Suc n)
  obtain q1 r where p: "pop q = (q1, r)" by fastforce
  note laws = pop_inv [OF Suc.prems p] pop_contents [OF Suc.prems p] pop_lost [OF Suc.prems p]
    pop_cap [OF Suc.prems p]
  show ?case
  proof (cases "contents q")
    case Nil
    then show ?thesis using laws p by simp
  next
    case (Cons e es)
    then show ?thesis using laws p Suc.IH [OF laws(1), of "app e s"] by auto
  qed
qed simp

lemma fifo:
  assumes "qinv q" and "q_run push pop ops q = (q', acc, out)"
  shows "qinv q' \<and> cap q' = cap q \<and> contents q @ acc = out @ contents q' \<and>
         (lost q' \<longleftrightarrow> lost q \<or> length acc < length (filter (\<lambda>op. op \<noteq> Pop) ops)) \<and>
         length acc \<le> length (filter (\<lambda>op. op \<noteq> Pop) ops)"
  using assms
proof (induction ops arbitrary: q acc out)
  case (Cons op ops)
  show ?case
  proof (cases op)
    case (Push e)
    obtain q1 ok where p: "push e q = (q1, ok)" by fastforce
    obtain acc' out' where r: "q_run push pop ops q1 = (q', acc', out')"
      using Cons.prems(2) Push p by (auto split: prod.splits)
    from Cons.IH [OF push_inv [OF Cons.prems(1) p] r] Cons.prems p r Push
      push_contents [OF Cons.prems(1) p] push_lost [OF Cons.prems(1) p] push_cap [OF Cons.prems(1) p]
    show ?thesis by (cases ok) auto
  next
    case Pop
    obtain q1 r0 where p: "pop q = (q1, r0)" by fastforce
    obtain acc' out' where r: "q_run push pop ops q1 = (q', acc', out')"
      using Cons.prems(2) Pop p by (auto split: prod.splits)
    from Cons.IH [OF pop_inv [OF Cons.prems(1) p] r] Cons.prems p r Pop
      pop_contents [OF Cons.prems(1) p] pop_lost [OF Cons.prems(1) p] pop_cap [OF Cons.prems(1) p]
    show ?thesis by (auto split: list.splits)
  qed
qed simp

end

section \<open>The ring buffer provides the interface\<close>

definition bq_inv :: "BoundedInputQueue \<Rightarrow> bool" where
  "bq_inv q \<longleftrightarrow> length (bq_storage q) = bq_capacity q \<and> bq_head q < bq_capacity q \<and>
     bq_size q \<le> bq_capacity q"

definition bq_contents :: "BoundedInputQueue \<Rightarrow> RuntimeInputEvent list" where
  "bq_contents q = map (\<lambda>i. bq_storage q ! ((bq_head q + i) mod bq_capacity q)) [0..<bq_size q]"

lemma bq_inv_init [simp]: "bq_inv (bq_init c)"
  by (simp add: bq_inv_def bq_init_def Let_def)

lemma bq_contents_init [simp]: "bq_contents (bq_init c) = []"
  by (simp add: bq_contents_def bq_init_def Let_def)

lemma bq_init_simps [simp]: "bq_capacity (bq_init c) = max c 1" "bq_overflow_latched (bq_init c) = False"
  by (auto simp: bq_init_def Let_def max_def)

lemma length_bq_contents [simp]: "length (bq_contents q) = bq_size q"
  by (simp add: bq_contents_def)

lemma try_push_inv: "bq_inv q \<Longrightarrow> try_push e q = (q', ok) \<Longrightarrow> bq_inv q'"
  by (auto simp: bq_inv_def try_push_def Let_def split: if_splits)

lemma try_pop_inv: "bq_inv q \<Longrightarrow> try_pop q = (q', r) \<Longrightarrow> bq_inv q'"
  by (auto simp: bq_inv_def try_pop_def Let_def split: if_splits)

lemma try_push_contents:
  assumes "bq_inv q" and "try_push e q = (q', ok)"
  shows "bq_contents q' = (if ok then bq_contents q @ [e] else bq_contents q)"
proof (cases "bq_size q < bq_capacity q")
  case True
  then have "(bq_head q + bq_size q) mod bq_capacity q \<noteq> (bq_head q + i) mod bq_capacity q"
    if "i < bq_size q" for i
    using that by (simp add: ring_index_inj)
  then show ?thesis
    using True assms by (auto simp: try_push_def bq_contents_def Let_def bq_inv_def)
next
  case False
  then show ?thesis using assms by (auto simp: try_push_def bq_contents_def)
qed

lemma try_pop_contents:
  assumes "bq_inv q" and "try_pop q = (q', r)"
  shows "case bq_contents q of [] \<Rightarrow> r = None \<and> bq_contents q' = []
         | e # es \<Rightarrow> r = Some e \<and> bq_contents q' = es"
proof (cases "bq_size q")
  case 0
  then show ?thesis using assms by (auto simp: try_pop_def bq_contents_def)
next
  case (Suc n)
  have "(Suc (bq_head q) mod bq_capacity q + i) mod bq_capacity q = (bq_head q + Suc i) mod bq_capacity q" for i
    by (simp add: mod_add_left_eq)
  moreover have "[0..<Suc n] = 0 # map Suc [0..<n]" by (simp add: map_Suc_upt upt_conv_Cons del: upt_Suc)
  ultimately show ?thesis
    using Suc assms by (auto simp: try_pop_def bq_contents_def Let_def bq_inv_def simp del: upt_Suc)
qed

lemma try_push_ok: "bq_inv q \<Longrightarrow> try_push e q = (q', ok) \<Longrightarrow> ok \<longleftrightarrow> length (bq_contents q) < bq_capacity q"
  by (auto simp: try_push_def Let_def split: if_splits)

lemma try_push_latch:
  "bq_inv q \<Longrightarrow> try_push e q = (q', ok) \<Longrightarrow> bq_overflow_latched q' \<longleftrightarrow> bq_overflow_latched q \<or> \<not> ok"
  by (auto simp: try_push_def Let_def split: if_splits)

lemma try_pop_latch: "bq_inv q \<Longrightarrow> try_pop q = (q', r) \<Longrightarrow> bq_overflow_latched q' = bq_overflow_latched q"
  by (auto simp: try_pop_def Let_def split: if_splits)

lemma try_push_capacity: "bq_inv q \<Longrightarrow> try_push e q = (q', ok) \<Longrightarrow> bq_capacity q' = bq_capacity q"
  by (auto simp: try_push_def Let_def split: if_splits)

lemma try_pop_capacity: "bq_inv q \<Longrightarrow> try_pop q = (q', r) \<Longrightarrow> bq_capacity q' = bq_capacity q"
  by (auto simp: try_pop_def Let_def split: if_splits)

interpretation bq: event_queue bq_contents bq_inv bq_capacity try_push try_pop bq_overflow_latched
  by unfold_locales (fact try_push_inv try_pop_inv try_push_contents try_pop_contents try_push_ok try_push_latch
      try_pop_latch try_push_capacity try_pop_capacity)+

section \<open>Properties\<close>

text \<open>
  Under every interleaving of producer and consumer steps on a fresh queue, the events
  handed out followed by the events still stored are exactly the accepted events in
  order: nothing is overwritten, duplicated or reordered. The overflow latch is set
  exactly when at least one event was refused.
\<close>

theorem bounded_queue_fifo:
  assumes "q_run try_push try_pop ops (bq_init capacity) = (q, accepted, handed_out)"
  shows "handed_out @ bq_contents q = accepted \<and> length (bq_contents q) \<le> max capacity 1 \<and>
         (bq_overflow_latched q \<longleftrightarrow> length accepted < length (filter (\<lambda>op. op \<noteq> Pop) ops))"
  using bq.fifo [OF bq_inv_init assms]
  by (auto simp: bq_inv_def)

definition q_event :: "nat \<Rightarrow> RuntimeInputEvent" where
  "q_event n = ie_default\<lparr>ie_hb_seq := of_nat n\<rparr>"

theorem bounded_queue_fifo_witness:
  "\<exists>q. q_run try_push try_pop [Push (q_event 1), Push (q_event 2), Push (q_event 3), Pop, Push (q_event 4)]
          (bq_init 2) = (q, [q_event 1, q_event 2, q_event 4], [q_event 1]) \<and>
       [q_event 1] @ bq_contents q = [q_event 1, q_event 2, q_event 4] \<and> bq_overflow_latched q"
proof -
  let ?r = "q_run try_push try_pop [Push (q_event 1), Push (q_event 2), Push (q_event 3), Pop, Push (q_event 4)] (bq_init 2)"
  have "snd ?r = ([q_event 1, q_event 2, q_event 4], [q_event 1])" by code_simp
  then have r: "?r = (fst ?r, [q_event 1, q_event 2, q_event 4], [q_event 1])"
    by (simp add: prod_eq_iff)
  show ?thesis using r bounded_queue_fifo [OF r] by (intro exI [of _ "fst ?r"]) simp
qed

end
