(* ===== verification/Supervisor.thy ===== *)
theory Supervisor
  imports Runtime_Safety Input_Queue
begin

text \<open>
  The single-node supervision (\<^verbatim>\<open>NodeSupervisor\<close> of \<^verbatim>\<open>linux/include/rcr/runtime_events.hpp\<close>,
  \<^verbatim>\<open>linux/src/supervision/node_supervisor.cpp\<close>): it drains the bounded event queue in the
  periodic tick and drives the runtime's fault path. It is the supervision hook of the
  runtime; the interpretation below discharges what the runtime needs from a hook.
\<close>

section \<open>State\<close>

record NodeSupervisorConfig =
  nc_node_id :: u8
  nc_heartbeat_timeout_ns :: i64
  nc_max_events_per_tick :: nat

record NodeSupervisor =
  sv_config :: NodeSupervisorConfig
  sv_ever_seen :: bool
  sv_online :: bool
  sv_restart_latched :: bool
  sv_overflow_fault_latched :: bool
  sv_comm_loss_latched :: bool
  sv_boot_id :: u16
  sv_session_id :: u16
  sv_last_hb_seq :: u16
  sv_node_fault_code :: u16
  sv_input_bits :: u16
  sv_last_output_mirror :: u8
  sv_last_heartbeat_ns :: i64
  sv_heartbeats :: u64
  sv_status_updates :: u64
  sv_protocol_rejects :: u64
  sv_events_processed :: u64
  sv_events_budget_left :: u64

definition sv_init :: "NodeSupervisorConfig \<Rightarrow> NodeSupervisor" where
  "sv_init config =
     \<lparr>sv_config = config, sv_ever_seen = False, sv_online = False, sv_restart_latched = False,
      sv_overflow_fault_latched = False, sv_comm_loss_latched = False, sv_boot_id = 0, sv_session_id = 0,
      sv_last_hb_seq = 0, sv_node_fault_code = 0, sv_input_bits = 0, sv_last_output_mirror = 0,
      sv_last_heartbeat_ns = 0, sv_heartbeats = 0, sv_status_updates = 0, sv_protocol_rejects = 0,
      sv_events_processed = 0, sv_events_budget_left = 0\<rparr>"

text \<open>\<^verbatim>\<open>NodeSupervisorSnapshot\<close> copies every field but the configuration.\<close>

record NodeSupervisorSnapshot =
  ss_ever_seen :: bool
  ss_online :: bool
  ss_restart_latched :: bool
  ss_overflow_fault_latched :: bool
  ss_comm_loss_latched :: bool
  ss_boot_id :: u16
  ss_session_id :: u16
  ss_last_hb_seq :: u16
  ss_node_fault_code :: u16
  ss_input_bits :: u16
  ss_last_output_mirror :: u8
  ss_last_heartbeat_ns :: i64
  ss_heartbeats :: u64
  ss_status_updates :: u64
  ss_protocol_rejects :: u64
  ss_events_processed :: u64
  ss_events_budget_left :: u64

definition sv_snapshot :: "NodeSupervisor \<Rightarrow> NodeSupervisorSnapshot" where
  "sv_snapshot sv =
     \<lparr>ss_ever_seen = sv_ever_seen sv, ss_online = sv_online sv, ss_restart_latched = sv_restart_latched sv,
      ss_overflow_fault_latched = sv_overflow_fault_latched sv, ss_comm_loss_latched = sv_comm_loss_latched sv,
      ss_boot_id = sv_boot_id sv, ss_session_id = sv_session_id sv, ss_last_hb_seq = sv_last_hb_seq sv,
      ss_node_fault_code = sv_node_fault_code sv, ss_input_bits = sv_input_bits sv,
      ss_last_output_mirror = sv_last_output_mirror sv, ss_last_heartbeat_ns = sv_last_heartbeat_ns sv,
      ss_heartbeats = sv_heartbeats sv, ss_status_updates = sv_status_updates sv,
      ss_protocol_rejects = sv_protocol_rejects sv, ss_events_processed = sv_events_processed sv,
      ss_events_budget_left = sv_events_budget_left sv\<rparr>"

definition clear_restart_latch :: "NodeSupervisor \<Rightarrow> NodeSupervisor" where
  "clear_restart_latch sv = sv\<lparr>sv_restart_latched := False\<rparr>"

section \<open>Clearing a fault\<close>

text \<open>The final \<^verbatim>\<open>switch\<close> accepts every enumerator of \<^verbatim>\<open>FaultCode\<close>, so the fault argument has no influence.\<close>

definition acknowledge_fault_clear ::
  "FaultCode \<Rightarrow> BoundedInputQueue \<Rightarrow> NodeSupervisor \<Rightarrow> NodeSupervisor \<times> unit Result" where
  "acknowledge_fault_clear fault q sv =
     (if sv_overflow_fault_latched sv \<or> bq_overflow_latched q
        then (sv, Inl (Error Errc.Rejected ''event queue overflow requires daemon restart''))
      else if sv_comm_loss_latched sv
        then (sv, Inl (Error Errc.Rejected ''heartbeat has not recovered''))
      else if (sv_ever_seen sv \<or> sv_status_updates sv \<noteq> 0 \<or> sv_restart_latched sv) \<and> \<not> sv_online sv
        then (sv, Inl (Error Errc.Rejected ''node is not online''))
      else if sv_node_fault_code sv \<noteq> 0
        then (sv, Inl (Error Errc.Rejected ''node still reports a fault''))
      else (sv\<lparr>sv_restart_latched := False\<rparr>, Inr ()))"

section \<open>Events\<close>

definition apply_overflow_fault :: "LinuxRuntime \<times> NodeSupervisor \<Rightarrow> LinuxRuntime \<times> NodeSupervisor" where
  "apply_overflow_fault = (\<lambda>(rt, sv).
     if \<not> sv_overflow_fault_latched sv
     then (fst (raise_fault FaultCode.Internal rt), sv\<lparr>sv_overflow_fault_latched := True\<rparr>)
     else (rt, sv))"

definition apply_comm_loss :: "i64 \<Rightarrow> LinuxRuntime \<times> NodeSupervisor \<Rightarrow> LinuxRuntime \<times> NodeSupervisor" where
  "apply_comm_loss now_ns = (\<lambda>(rt, sv).
     if \<not> sv_ever_seen sv \<or> \<not> sv_online sv then (rt, sv)
     else if nc_heartbeat_timeout_ns (sv_config sv) \<le> 0 then (rt, sv)
     else if now_ns - sv_last_heartbeat_ns sv < nc_heartbeat_timeout_ns (sv_config sv) then (rt, sv)
     else let need_fault = (\<not> sv_comm_loss_latched sv);
              sv = sv\<lparr>sv_online := False, sv_comm_loss_latched := True\<rparr>
          in (if need_fault then fst (raise_fault FaultCode.CommLoss rt) else rt, sv))"

definition note_node_restart ::
  "u16 \<Rightarrow> u16 \<Rightarrow> LinuxRuntime \<times> NodeSupervisor \<Rightarrow> LinuxRuntime \<times> NodeSupervisor" where
  "note_node_restart boot_id session_id = (\<lambda>(rt, sv).
     (fst (raise_fault FaultCode.NodeFault rt),
      sv\<lparr>sv_boot_id := boot_id, sv_session_id := session_id, sv_restart_latched := True,
         sv_online := True, sv_comm_loss_latched := False\<rparr>))"

definition event_time :: "RuntimeInputEvent \<Rightarrow> i64 \<Rightarrow> i64" where
  "event_time event now_ns = (if ie_monotonic_ns event \<noteq> 0 then ie_monotonic_ns event else now_ns)"

definition apply_heartbeat ::
  "RuntimeInputEvent \<Rightarrow> i64 \<Rightarrow> LinuxRuntime \<times> NodeSupervisor \<Rightarrow> LinuxRuntime \<times> NodeSupervisor" where
  "apply_heartbeat event now_ns = (\<lambda>(rt, sv).
     let sv = sv\<lparr>sv_heartbeats := sv_heartbeats sv + 1\<rparr>;
         first = (\<not> sv_ever_seen sv);
         restart = (\<not> first \<and> (ie_boot_id event \<noteq> sv_boot_id sv \<or> ie_session_id event \<noteq> sv_session_id sv));
         sv = (if first then sv\<lparr>sv_ever_seen := True, sv_boot_id := ie_boot_id event,
                                 sv_session_id := ie_session_id event\<rparr> else sv)
     in if \<not> restart
        then (rt, sv\<lparr>sv_online := True, sv_boot_id := ie_boot_id event, sv_session_id := ie_session_id event,
                      sv_last_hb_seq := ie_hb_seq event, sv_last_heartbeat_ns := event_time event now_ns,
                      sv_comm_loss_latched := False\<rparr>)
        else let (rt, sv) = note_node_restart (ie_boot_id event) (ie_session_id event) (rt, sv)
             in (rt, sv\<lparr>sv_last_heartbeat_ns := event_time event now_ns, sv_last_hb_seq := ie_hb_seq event\<rparr>))"

definition apply_node_status ::
  "RuntimeInputEvent \<Rightarrow> LinuxRuntime \<times> NodeSupervisor \<Rightarrow> LinuxRuntime \<times> NodeSupervisor" where
  "apply_node_status event = (\<lambda>(rt, sv).
     let sv = sv\<lparr>sv_status_updates := sv_status_updates sv + 1,
                  sv_node_fault_code := ie_node_fault_code event, sv_input_bits := ie_input_bits event\<rparr>;
         session_mismatch = (sv_ever_seen sv \<and> ie_session_id event \<noteq> 0 \<and> ie_session_id event \<noteq> sv_session_id sv);
         (rt, sv) = (if session_mismatch
                     then note_node_restart (sv_boot_id sv) (ie_session_id event) (rt, sv) else (rt, sv));
         rt = rt_set_interlock_ready (ie_interlock_ready event) rt
     in (if ie_node_fault_code event \<noteq> 0 then fst (raise_fault FaultCode.NodeFault rt) else rt, sv))"

definition apply_event ::
  "i64 \<Rightarrow> RuntimeInputEvent \<Rightarrow> LinuxRuntime \<times> NodeSupervisor \<Rightarrow> LinuxRuntime \<times> NodeSupervisor" where
  "apply_event now_ns event = (\<lambda>(rt, sv).
     let sv = sv\<lparr>sv_events_processed := sv_events_processed sv + 1\<rparr> in
     if ie_node_id event \<noteq> 0 \<and> ie_node_id event \<noteq> nc_node_id (sv_config sv) then (rt, sv)
     else case ie_kind event of
       RuntimeInputKind.Heartbeat \<Rightarrow> apply_heartbeat event now_ns (rt, sv)
     | RuntimeInputKind.NodeStatus \<Rightarrow> apply_node_status event (rt, sv)
     | RuntimeInputKind.OutputStatus \<Rightarrow>
         (observe_output_status (ie_session_id event) (ie_output_sequence event) (ie_output_result event)
            (event_time event now_ns) rt,
          sv\<lparr>sv_last_output_mirror := ie_output_mirror event\<rparr>)
     | RuntimeInputKind.ProtocolReject \<Rightarrow> (rt, sv\<lparr>sv_protocol_rejects := sv_protocol_rejects sv + 1\<rparr>)
     | RuntimeInputKind.IoError \<Rightarrow> (fst (raise_fault FaultCode.Internal rt), sv))"

section \<open>The tick\<close>

definition sv_on_tick ::
  "i64 \<Rightarrow> LinuxRuntime \<times> NodeSupervisor \<times> BoundedInputQueue \<Rightarrow> LinuxRuntime \<times> NodeSupervisor \<times> BoundedInputQueue" where
  "sv_on_tick now_ns = (\<lambda>(rt, sv, q).
     let (rt, sv) = (if bq_overflow_latched q then apply_overflow_fault (rt, sv) else (rt, sv));
         (q, (rt, sv), budget) = drain try_pop (apply_event now_ns) (nc_max_events_per_tick (sv_config sv)) q (rt, sv);
         sv = sv\<lparr>sv_events_budget_left := of_nat budget\<rparr>;
         (rt, sv) = apply_comm_loss now_ns (rt, sv)
     in (rt, sv, q))"

end
