(* ===== verification/Supervisor_Proofs.thy ===== *)
theory Supervisor_Proofs
  imports Supervisor
begin

text \<open>
  Properties of the supervision: it satisfies the hook contract of the runtime, it only
  closes output, it processes the queue in order within its budget, and its recovery
  gate reflects every blocking condition.
\<close>

section \<open>What supervision does to the runtime\<close>

text \<open>Supervision reaches the runtime through three operations; what they keep, it keeps.\<close>

locale supervised_property =
  fixes P :: "LinuxRuntime \<Rightarrow> bool"
  assumes keep_raise: "P rt \<Longrightarrow> P (fst (raise_fault c rt))"
    and keep_interlock: "P rt \<Longrightarrow> P (rt_set_interlock_ready b rt)"
    and keep_observe: "P rt \<Longrightarrow> P (observe_output_status s q r t rt)"
begin

lemma keep_event: "P rt \<Longrightarrow> P (fst (apply_event now e (rt, sv)))"
  by (auto simp: apply_event_def apply_heartbeat_def apply_node_status_def note_node_restart_def Let_def
      intro: keep_raise keep_interlock keep_observe split: RuntimeInputKind.splits)

lemma keep_events: "P rt \<Longrightarrow> P (fst (fold (apply_event now) es (rt, sv)))"
proof (induction es arbitrary: rt sv)
  case (Cons e es)
  obtain rt' sv' where "apply_event now e (rt, sv) = (rt', sv')" by fastforce
  then show ?case using Cons.IH [of rt' sv'] keep_event [OF Cons.prems, of now e sv] by simp
qed simp

lemma keep_drain: "P rt \<Longrightarrow> P (fst (fst (snd (drain pop (apply_event now) n q (rt, sv)))))"
proof (induction n arbitrary: q rt sv)
  case (Suc n)
  obtain q' r where p: "pop q = (q', r)" by fastforce
  obtain rt' sv' where a: "apply_event now (the r) (rt, sv) = (rt', sv')" by fastforce
  then have "P rt'" using keep_event [OF Suc.prems, of now "the r" sv] by simp
  then show ?case using Suc p a by (cases r) simp_all
qed simp

lemma keep_overflow: "P rt \<Longrightarrow> P (fst (apply_overflow_fault (rt, sv)))"
  by (simp add: apply_overflow_fault_def keep_raise)

lemma keep_comm_loss: "P rt \<Longrightarrow> P (fst (apply_comm_loss now (rt, sv)))"
  by (simp add: apply_comm_loss_def Let_def keep_raise)

lemma keep_tick: "P rt \<Longrightarrow> P (fst (sv_on_tick now (rt, x)))"
proof -
  assume P: "P rt"
  obtain sv q where x: "x = (sv, q)" by fastforce
  obtain rt0 sv0 where s: "(if bq_overflow_latched q then apply_overflow_fault (rt, sv) else (rt, sv)) = (rt0, sv0)"
    by fastforce
  have P0: "P rt0" using s P keep_overflow [OF P, of sv] by (auto split: if_splits)
  obtain q1 rt1 sv1 n where d:
    "drain try_pop (apply_event now) (nc_max_events_per_tick (sv_config sv0)) q (rt0, sv0) = (q1, (rt1, sv1), n)"
    by (metis prod.exhaust)
  have "P rt1" using keep_drain [OF P0, of try_pop now "nc_max_events_per_tick (sv_config sv0)" q sv0] d by simp
  then have "P (fst (apply_comm_loss now (rt1, sv1\<lparr>sv_events_budget_left := of_nat n\<rparr>)))" by (rule keep_comm_loss)
  then show ?thesis using s d x by (auto simp: sv_on_tick_def split: prod.splits)
qed

end

section \<open>The tick as a fold\<close>

definition tick_start :: "bool \<Rightarrow> LinuxRuntime \<times> NodeSupervisor \<Rightarrow> LinuxRuntime \<times> NodeSupervisor" where
  "tick_start latched p = (if latched then apply_overflow_fault p else p)"

definition tick_events :: "NodeSupervisor \<Rightarrow> BoundedInputQueue \<Rightarrow> RuntimeInputEvent list" where
  "tick_events sv q = take (nc_max_events_per_tick (sv_config sv)) (bq_contents q)"

definition set_budget :: "nat \<Rightarrow> LinuxRuntime \<times> NodeSupervisor \<Rightarrow> LinuxRuntime \<times> NodeSupervisor" where
  "set_budget n = (\<lambda>(rt, sv). (rt, sv\<lparr>sv_events_budget_left := of_nat n\<rparr>))"

lemma overflow_config: "sv_config (snd (apply_overflow_fault (rt, sv))) = sv_config sv"
  by (simp add: apply_overflow_fault_def)

lemma tick_start_config: "sv_config (snd (tick_start b (rt, sv))) = sv_config sv"
  by (simp add: tick_start_def overflow_config)

lemma sv_on_tick_fold:
  assumes "bq_inv q"
  obtains q' where
    "sv_on_tick now (rt, sv, q) =
       (let p = apply_comm_loss now (set_budget (nc_max_events_per_tick (sv_config sv) - bq_size q)
                  (fold (apply_event now) (tick_events sv q) (tick_start (bq_overflow_latched q) (rt, sv))))
        in (fst p, snd p, q'))"
    and "bq_inv q'" and "bq_contents q' = drop (nc_max_events_per_tick (sv_config sv)) (bq_contents q)"
    and "bq_overflow_latched q' = bq_overflow_latched q"
proof -
  obtain rt0 sv0 where s: "tick_start (bq_overflow_latched q) (rt, sv) = (rt0, sv0)" by fastforce
  have c: "sv_config sv0 = sv_config sv" using tick_start_config [of "bq_overflow_latched q" rt sv] s by simp
  obtain q' where d: "drain try_pop (apply_event now) (nc_max_events_per_tick (sv_config sv)) q (rt0, sv0) =
      (q', fold (apply_event now) (tick_events sv q) (rt0, sv0), nc_max_events_per_tick (sv_config sv) - bq_size q)"
    and q': "bq_inv q'" "bq_contents q' = drop (nc_max_events_per_tick (sv_config sv)) (bq_contents q)"
    "bq_overflow_latched q' = bq_overflow_latched q"
    using bq.drain_spec [OF assms, of "apply_event now" "nc_max_events_per_tick (sv_config sv)" "(rt0, sv0)"]
    by (auto simp: tick_events_def)
  show thesis
  proof (rule that [OF _ q'])
    show "sv_on_tick now (rt, sv, q) =
       (let p = apply_comm_loss now (set_budget (nc_max_events_per_tick (sv_config sv) - bq_size q)
                  (fold (apply_event now) (tick_events sv q) (tick_start (bq_overflow_latched q) (rt, sv))))
        in (fst p, snd p, q'))"
      using s c d unfolding sv_on_tick_def tick_start_def
      by (auto simp: Let_def set_budget_def split: prod.splits)
  qed
qed

section \<open>The hook contract\<close>

lemma supervised_scheduler [simp]:
  "rt_scheduler (fst (raise_fault c rt)) = rt_scheduler rt"
  "rt_scheduler (rt_set_interlock_ready b rt) = rt_scheduler rt"
  "rt_scheduler (observe_output_status s q r t rt) = rt_scheduler rt"
  by (simp_all add: raise_fault_def rt_set_interlock_ready_def observe_output_status_def Let_def split: prod.splits)

interpretation keep_inv: supervised_property rt_inv
  by unfold_locales (auto intro: rt_inv_raise_fault rt_inv_set_interlock rt_inv_observe)

interpretation keep_sched: supervised_property "\<lambda>r. rt_scheduler r = s" for s
  by unfold_locales simp_all

lemma raise_fault_inactive:
  "rt_mode rt \<noteq> RuntimeMode.Active \<Longrightarrow> rt_mode (fst (raise_fault c rt)) \<noteq> RuntimeMode.Active"
  using handle_enters_active [of RuntimeEvent.FaultDetected "set_fault c (rt_state_machine rt)"]
  by (auto simp: raise_fault_def Let_def split: prod.splits)

interpretation keep_closed: supervised_property "\<lambda>r. rt_mode r \<noteq> RuntimeMode.Active"
  by unfold_locales (auto simp: raise_fault_inactive set_interlock_mode)

lemma ack_path: "out_path (observe_output_status s q r t rt) = out_path rt"
  by (simp add: observe_output_status_def Let_def) (simp add: out_path_def)

lemma supervised_path:
  "out_path (fst (raise_fault c rt)) \<in> {out_path rt, (None, 0, None)}"
  "out_path (rt_set_interlock_ready b rt) \<in> {out_path rt, (None, 0, None)}"
  "out_path (observe_output_status s q r t rt) = out_path rt"
  by (auto simp: raise_fault_def rt_set_interlock_ready_def Let_def ack_path split: prod.splits)

interpretation keep_path: supervised_property "\<lambda>r. out_path r \<in> {p, (None, 0, None)}" for p
proof
  fix rt c
  assume "out_path rt \<in> {p, (None, 0, None)}"
  then show "out_path (fst (raise_fault c rt)) \<in> {p, (None, 0, None)}" using supervised_path(1) [of c rt] by auto
next
  fix rt b
  assume "out_path rt \<in> {p, (None, 0, None)}"
  then show "out_path (rt_set_interlock_ready b rt) \<in> {p, (None, 0, None)}" using supervised_path(2) [of b rt] by auto
next
  fix rt s q r t
  assume "out_path rt \<in> {p, (None, 0, None)}"
  then show "out_path (observe_output_status s q r t rt) \<in> {p, (None, 0, None)}" by (simp add: supervised_path)
qed

interpretation sup: supervision_hook sv_on_tick
  by unfold_locales (auto intro: keep_inv.keep_tick keep_sched.keep_tick)

section \<open>What supervision does to its own state\<close>

text \<open>Likewise for the supervisor: a property of its state that every event keeps.\<close>

lemma fold_event_keeps:
  assumes "\<And>e rt sv. Q sv \<Longrightarrow> Q (snd (apply_event now e (rt, sv)))" and "Q (snd p)"
  shows "Q (snd (fold (apply_event now) es p))"
  using assms(2)
proof (induction es arbitrary: p)
  case (Cons e es)
  then show ?case using assms(1) [of "snd p" e "fst p"] by simp
qed simp

lemmas event_defs = apply_event_def apply_heartbeat_def apply_node_status_def note_node_restart_def Let_def

lemma event_keeps_config: "sv_config (snd (apply_event now e (rt, sv))) = sv_config sv"
  by (simp add: event_defs split: RuntimeInputKind.split)

lemma event_keeps_overflow:
  "sv_overflow_fault_latched (snd (apply_event now e (rt, sv))) = sv_overflow_fault_latched sv"
  by (simp add: event_defs split: RuntimeInputKind.split)

lemma event_comm_loss: "sv_comm_loss_latched (snd (apply_event now e (rt, sv))) \<Longrightarrow> sv_comm_loss_latched sv"
  by (simp add: event_defs split: RuntimeInputKind.splits if_splits)

lemma event_counts:
  "sv_events_processed (snd (apply_event now e (rt, sv))) = sv_events_processed sv + 1"
  by (simp add: event_defs split: RuntimeInputKind.split)

lemma events_count:
  "sv_events_processed (snd (fold (apply_event now) es p)) = sv_events_processed (snd p) + of_nat (length es)"
proof (induction es arbitrary: p)
  case (Cons e es)
  then show ?case using event_counts [of now e "fst p" "snd p"] by simp
qed simp

lemma comm_loss_frame:
  "sv_overflow_fault_latched (snd (apply_comm_loss now p)) = sv_overflow_fault_latched (snd p)"
  "sv_events_processed (snd (apply_comm_loss now p)) = sv_events_processed (snd p)"
  "sv_config (snd (apply_comm_loss now p)) = sv_config (snd p)"
  by (cases p; simp add: apply_comm_loss_def Let_def)+

lemma comm_loss_fresh:
  assumes "0 < nc_heartbeat_timeout_ns (sv_config (snd p))" and "sv_online (snd (apply_comm_loss now p))"
    and "sv_ever_seen (snd (apply_comm_loss now p))"
  shows "now - sv_last_heartbeat_ns (snd (apply_comm_loss now p)) < nc_heartbeat_timeout_ns (sv_config (snd p))"
  using assms by (cases p) (auto simp: apply_comm_loss_def Let_def split: if_splits)

lemma raise_fault_not_active:
  "c \<noteq> FaultCode.NoFault \<Longrightarrow> rt_mode (fst (raise_fault c rt)) \<noteq> RuntimeMode.Active"
  using handle_enters_active [of RuntimeEvent.FaultDetected "set_fault c (rt_state_machine rt)"]
  by (auto simp: raise_fault_def Let_def split: prod.splits)

lemma raise_fault_path: "c \<noteq> FaultCode.NoFault \<Longrightarrow> out_path (fst (raise_fault c rt)) = (None, 0, None)"
  by (simp add: raise_fault_def Let_def split: prod.splits)

lemma raise_fault_code: "c \<noteq> FaultCode.NoFault \<Longrightarrow> sm_fault (rt_state_machine (fst (raise_fault c rt))) = c"
proof -
  assume "c \<noteq> FaultCode.NoFault"
  moreover have "sm_fault (fst (handle RuntimeEvent.FaultDetected (set_fault c (rt_state_machine rt)))) = c"
    by (cases "rt_mode rt") (simp_all add: sm_defs set_fault_def)
  ultimately show ?thesis by (auto simp: raise_fault_def Let_def split: prod.splits)
qed

lemma interlock_keeps_fault:
  assumes "rt_mode rt \<noteq> RuntimeMode.Active"
  shows "sm_fault (rt_state_machine (rt_set_interlock_ready b rt)) = sm_fault (rt_state_machine rt)"
proof -
  have "sm_fault (sm_set_interlock_ready b (rt_state_machine rt)) = sm_fault (rt_state_machine rt)"
    using assms by (cases "rt_mode rt") (simp_all add: sm_set_interlock_ready_def sm_defs)
  then show ?thesis by (simp add: rt_set_interlock_ready_def Let_def)
qed

lemma comm_loss_latches:
  "sv_comm_loss_latched (snd (apply_comm_loss now p)) \<Longrightarrow> \<not> sv_comm_loss_latched (snd p) \<Longrightarrow>
   rt_mode (fst (apply_comm_loss now p)) \<noteq> RuntimeMode.Active \<and> \<not> sv_online (snd (apply_comm_loss now p))"
  by (cases p) (auto simp: apply_comm_loss_def Let_def raise_fault_not_active split: if_splits)

lemma comm_loss_closed:
  "rt_mode (fst p) \<noteq> RuntimeMode.Active \<Longrightarrow> rt_mode (fst (apply_comm_loss now p)) \<noteq> RuntimeMode.Active"
  using keep_closed.keep_comm_loss [of "fst p" now "snd p"] by simp

definition tick_body :: "i64 \<Rightarrow> LinuxRuntime \<times> NodeSupervisor \<times> BoundedInputQueue \<Rightarrow> LinuxRuntime \<times> NodeSupervisor" where
  "tick_body now = (\<lambda>(rt, sv, q).
     set_budget (nc_max_events_per_tick (sv_config sv) - length (bq_contents q))
       (fold (apply_event now) (take (nc_max_events_per_tick (sv_config sv)) (bq_contents q))
         (tick_start (bq_overflow_latched q) (rt, sv))))"

lemma tick_shape:
  assumes "bq_inv q" and "sv_on_tick now (rt, sv, q) = (rt', sv', q')"
  shows "(rt', sv') = apply_comm_loss now (tick_body now (rt, sv, q))" and "bq_inv q'"
    and "bq_contents q' = drop (nc_max_events_per_tick (sv_config sv)) (bq_contents q)"
    and "bq_overflow_latched q' = bq_overflow_latched q"
proof -
  obtain q2 where t: "sv_on_tick now (rt, sv, q) =
       (let p = apply_comm_loss now (tick_body now (rt, sv, q)) in (fst p, snd p, q2))"
    and q2: "bq_inv q2" "bq_contents q2 = drop (nc_max_events_per_tick (sv_config sv)) (bq_contents q)"
      "bq_overflow_latched q2 = bq_overflow_latched q"
    by (rule sv_on_tick_fold [OF assms(1), of now rt sv]) (simp add: tick_events_def tick_body_def)
  have "q' = q2" using t assms(2) by (simp add: Let_def)
  with q2 show "bq_inv q'" "bq_contents q' = drop (nc_max_events_per_tick (sv_config sv)) (bq_contents q)"
    "bq_overflow_latched q' = bq_overflow_latched q" by simp_all
  show "(rt', sv') = apply_comm_loss now (tick_body now (rt, sv, q))"
    using t assms(2) by (simp add: Let_def prod_eq_iff)
qed

lemma set_budget_simps [simp]:
  "fst (set_budget n p) = fst p" "sv_events_processed (snd (set_budget n p)) = sv_events_processed (snd p)"
  "sv_config (snd (set_budget n p)) = sv_config (snd p)"
  "sv_overflow_fault_latched (snd (set_budget n p)) = sv_overflow_fault_latched (snd p)"
  "sv_comm_loss_latched (snd (set_budget n p)) = sv_comm_loss_latched (snd p)"
  by (simp_all add: set_budget_def split: prod.splits)

lemma tick_body_config: "sv_config (snd (tick_body now (rt, sv, q))) = sv_config sv"
  using fold_event_keeps [of "\<lambda>s. sv_config s = sv_config sv" now] event_keeps_config tick_start_config
  by (simp add: tick_body_def)

lemma tick_body_overflow:
  "sv_overflow_fault_latched (snd (tick_body now (rt, sv, q))) \<longleftrightarrow>
     sv_overflow_fault_latched sv \<or> bq_overflow_latched q"
proof -
  have "sv_overflow_fault_latched (snd (tick_start (bq_overflow_latched q) (rt, sv))) \<longleftrightarrow>
      sv_overflow_fault_latched sv \<or> bq_overflow_latched q"
    by (auto simp: tick_start_def apply_overflow_fault_def)
  then show ?thesis
    using fold_event_keeps [of "\<lambda>s. sv_overflow_fault_latched s = (sv_overflow_fault_latched sv \<or> bq_overflow_latched q)" now]
      event_keeps_overflow by (simp add: tick_body_def)
qed

lemma tick_body_comm_loss:
  assumes "\<not> sv_comm_loss_latched sv"
  shows "\<not> sv_comm_loss_latched (snd (tick_body now (rt, sv, q)))"
proof -
  let ?s = "tick_start (bq_overflow_latched q) (rt, sv)"
  have "\<not> sv_comm_loss_latched (snd ?s)" using assms by (simp add: tick_start_def apply_overflow_fault_def)
  then have "\<not> sv_comm_loss_latched (snd (fold (apply_event now) es ?s))" for es
    by (rule fold_event_keeps [where Q = "\<lambda>s. \<not> sv_comm_loss_latched s", rotated]) (blast dest: event_comm_loss)
  then show ?thesis by (simp add: tick_body_def)
qed

lemma tick_body_closed:
  assumes "bq_overflow_latched q" and "\<not> sv_overflow_fault_latched sv"
  shows "rt_mode (fst (tick_body now (rt, sv, q))) \<noteq> RuntimeMode.Active"
proof -
  let ?s = "tick_start (bq_overflow_latched q) (rt, sv)"
  have "rt_mode (fst ?s) \<noteq> RuntimeMode.Active"
    using assms by (simp add: tick_start_def apply_overflow_fault_def raise_fault_not_active)
  then show ?thesis
    using keep_closed.keep_events [of "fst ?s" now _ "snd ?s"] by (simp add: tick_body_def)
qed

section \<open>Properties\<close>

text \<open>
  One supervision tick handles a bounded prefix of the queue in order: the loop with
  its budget equals applying the first \<open>max_events_per_tick\<close> stored events oldest first,
  between the overflow check and the heartbeat check; the other events stay queued in
  order, and the reported counters are the events handled and the budget left.
\<close>

theorem tick_handles_prefix:
  assumes "bq_inv q" and "sv_on_tick now (rt, sv, q) = (rt', sv', q')"
  shows "(rt', sv') = apply_comm_loss now
           (set_budget (nc_max_events_per_tick (sv_config sv) - length (bq_contents q))
             (fold (apply_event now) (take (nc_max_events_per_tick (sv_config sv)) (bq_contents q))
               (tick_start (bq_overflow_latched q) (rt, sv)))) \<and>
         bq_contents q' = drop (nc_max_events_per_tick (sv_config sv)) (bq_contents q) \<and>
         sv_events_processed sv' = sv_events_processed sv +
           of_nat (min (length (bq_contents q)) (nc_max_events_per_tick (sv_config sv)))"
proof -
  note shape = tick_shape [OF assms]
  have "sv_events_processed sv' = sv_events_processed (snd (tick_body now (rt, sv, q)))"
    using arg_cong [OF shape(1), of "\<lambda>x. sv_events_processed (snd x)"]
      comm_loss_frame(2) [of now "tick_body now (rt, sv, q)"] by simp
  moreover have "sv_events_processed (snd (tick_start b (rt, sv))) = sv_events_processed sv" for b
    by (simp add: tick_start_def apply_overflow_fault_def)
  ultimately show ?thesis using shape by (simp add: tick_body_def events_count min.commute)
qed



text \<open>
  Supervision can only close: no tick, whatever it finds in the queue, enters ACTIVE,
  admits a command or alters the pending one; the output path afterwards is the one
  before or the closed one.
\<close>

theorem supervision_only_closes:
  "out_path (fst (sv_on_tick now (rt, sv, q))) \<in> {out_path rt, (None, 0, None)} \<and>
   (rt_mode (fst (sv_on_tick now (rt, sv, q))) = RuntimeMode.Active \<longrightarrow> rt_mode rt = RuntimeMode.Active)"
  using keep_path.keep_tick [of rt "out_path rt" now "(sv, q)"] keep_closed.keep_tick [of rt now "(sv, q)"] by auto

text \<open>
  A restart of the node never goes unnoticed: once the node has been seen, a heartbeat
  with another boot or session identifier, or a status with another session, latches
  the restart, adopts the new identity, and closes the output path with a NODE_FAULT,
  so that commands of the old session cannot continue.
\<close>

theorem node_restart_closes:
  assumes "sv_ever_seen sv" and "ie_node_id e \<in> {0, nc_node_id (sv_config sv)}"
    and "ie_kind e = RuntimeInputKind.Heartbeat \<and>
           (ie_boot_id e \<noteq> sv_boot_id sv \<or> ie_session_id e \<noteq> sv_session_id sv) \<or>
         ie_kind e = RuntimeInputKind.NodeStatus \<and> ie_session_id e \<noteq> 0 \<and> ie_session_id e \<noteq> sv_session_id sv"
    and "apply_event now e (rt, sv) = (rt', sv')"
  shows "sv_restart_latched sv' \<and> sv_online sv' \<and> sv_session_id sv' = ie_session_id e \<and>
         rt_mode rt' \<noteq> RuntimeMode.Active \<and> out_path rt' = (None, 0, None) \<and>
         sm_fault (rt_state_machine rt') = FaultCode.NodeFault"
proof -
  have r: "out_path (fst (raise_fault FaultCode.NodeFault r)) = (None, 0, None)"
    "sm_fault (rt_state_machine (fst (raise_fault FaultCode.NodeFault r))) = FaultCode.NodeFault"
    "rt_mode (fst (raise_fault FaultCode.NodeFault r)) \<noteq> RuntimeMode.Active" for r
    by (simp_all add: raise_fault_path raise_fault_code raise_fault_not_active)
  have i: "rt_mode r \<noteq> RuntimeMode.Active \<Longrightarrow> sm_fault (rt_state_machine (rt_set_interlock_ready b r)) = sm_fault (rt_state_machine r)" for b r
    by (rule interlock_keeps_fault)
  have p: "out_path r = (None, 0, None) \<Longrightarrow> out_path (rt_set_interlock_ready b r) = (None, 0, None)" for b r
    using supervised_path(2) [of b r] by auto
  show ?thesis
    using assms r i p
    by (auto simp: apply_event_def apply_heartbeat_def apply_node_status_def note_node_restart_def Let_def
        set_interlock_mode split: if_splits)
qed

section \<open>A concrete node\<close>

definition demo_sv :: NodeSupervisor where
  "demo_sv = (sv_init \<lparr>nc_node_id = 3, nc_heartbeat_timeout_ns = 300, nc_max_events_per_tick = 2\<rparr>)
     \<lparr>sv_ever_seen := True, sv_online := True, sv_boot_id := 1, sv_session_id := 9, sv_last_heartbeat_ns := 1000\<rparr>"

definition demo_hb :: "u16 \<Rightarrow> i64 \<Rightarrow> RuntimeInputEvent" where
  "demo_hb s t = ie_default\<lparr>ie_node_id := 3, ie_boot_id := 1, ie_session_id := s, ie_monotonic_ns := t\<rparr>"

definition demo_queue :: BoundedInputQueue where
  "demo_queue = fst (try_push (demo_hb 9 1030) (fst (try_push (demo_hb 9 1020) (fst (try_push (demo_hb 9 1010) (bq_init 3))))))"

lemma demo_queue_inv: "bq_inv demo_queue" by code_simp

theorem tick_handles_prefix_witness:
  "sv_events_processed (fst (snd (sv_on_tick 1100 (demo_rt, demo_sv, demo_queue)))) = 2 \<and>
   bq_contents (snd (snd (sv_on_tick 1100 (demo_rt, demo_sv, demo_queue)))) = [demo_hb 9 1030]"
proof -
  obtain rt' sv' q' where t: "sv_on_tick 1100 (demo_rt, demo_sv, demo_queue) = (rt', sv', q')"
    by (metis prod.exhaust)
  have c: "bq_contents demo_queue = [demo_hb 9 1010, demo_hb 9 1020, demo_hb 9 1030]" by code_simp
  have n: "nc_max_events_per_tick (sv_config demo_sv) = 2" "sv_events_processed demo_sv = 0" by code_simp+
  show ?thesis using tick_handles_prefix [OF demo_queue_inv t] t c n by simp
qed

definition demo_full :: BoundedInputQueue where
  "demo_full = fst (try_push (demo_hb 9 1040) demo_queue)"



theorem supervision_only_closes_witness:
  "rt_mode (fst (sv_on_tick 1100 (demo_rt, demo_sv, demo_queue))) = RuntimeMode.Active \<and>
   out_path (fst (sv_on_tick 1100 (demo_rt, demo_sv, demo_queue))) \<in> {out_path demo_rt, (None, 0, None)}"
proof -
  have "rt_mode (fst (sv_on_tick 1100 (demo_rt, demo_sv, demo_queue))) = RuntimeMode.Active" by code_simp
  then show ?thesis using supervision_only_closes [of 1100 demo_rt demo_sv demo_queue] by blast
qed

theorem node_restart_closes_witness:
  "sv_restart_latched (snd (apply_event 1100 (demo_hb 10 1050) (demo_rt, demo_sv))) \<and>
   out_path (fst (apply_event 1100 (demo_hb 10 1050) (demo_rt, demo_sv))) = (None, 0, None)"
proof -
  obtain rt' sv' where t: "apply_event 1100 (demo_hb 10 1050) (demo_rt, demo_sv) = (rt', sv')" by fastforce
  have "sv_ever_seen demo_sv" "ie_node_id (demo_hb 10 1050) \<in> {0, nc_node_id (sv_config demo_sv)}"
    "ie_kind (demo_hb 10 1050) = RuntimeInputKind.Heartbeat \<and>
       (ie_boot_id (demo_hb 10 1050) \<noteq> sv_boot_id demo_sv \<or> ie_session_id (demo_hb 10 1050) \<noteq> sv_session_id demo_sv) \<or>
     ie_kind (demo_hb 10 1050) = RuntimeInputKind.NodeStatus \<and> ie_session_id (demo_hb 10 1050) \<noteq> 0 \<and>
       ie_session_id (demo_hb 10 1050) \<noteq> sv_session_id demo_sv" by code_simp+
  from node_restart_closes [OF this t] t show ?thesis by simp
qed

end
