(* ===== verification/Can_Io.thy ===== *)
theory Can_Io
  imports Runtime_Safety Input_Queue
begin

text \<open>
  The CAN I/O thread (\<^verbatim>\<open>linux/include/rcr/can_io_loop.hpp\<close>, \<^verbatim>\<open>linux/src/linux/can_io_loop.cpp\<close>):
  conversion of admitted commands to the wire, the receive path into the event queue,
  the output pump and one turn of the epoll loop. The socket and the reactor are inputs:
  the results of the coming receive calls, the result of a send, and the descriptors
  reported ready.
\<close>

unbundle bit_operations_syntax

section \<open>State\<close>

datatype IoStopReason = NoReason | EventFd | Signal | IoError | SendFailure

fun IoStopReason_to_string :: "IoStopReason \<Rightarrow> string" where
  "IoStopReason_to_string IoStopReason.NoReason = ''NONE''"
| "IoStopReason_to_string IoStopReason.EventFd = ''EVENTFD''"
| "IoStopReason_to_string IoStopReason.Signal = ''SIGNAL''"
| "IoStopReason_to_string IoStopReason.IoError = ''IO_ERROR''"
| "IoStopReason_to_string IoStopReason.SendFailure = ''SEND_FAILURE''"

record CanIoConfig =
  cic_can_if :: string
  cic_node_id :: u8
  cic_max_frames_per_wake :: nat
  cic_cpu_affinity :: int

record CanIoStats =
  cs_frames_received :: u64
  cs_frames_sent :: u64
  cs_decode_rejects :: u64
  cs_queue_rejects :: u64
  cs_send_would_block_retries :: u64
  cs_wakeups :: u64
  cs_stop_reason :: IoStopReason
  cs_last_errno :: int

record CanIoLoop =
  io_config :: CanIoConfig
  io_joinable :: bool
  io_running :: bool
  io_stop_requested :: bool
  io_startup_error :: "Error option"
  io_stop_reason :: IoStopReason
  io_frames_received :: u64
  io_frames_sent :: u64
  io_decode_rejects :: u64
  io_queue_rejects :: u64
  io_send_would_block_retries :: u64
  io_wakeups :: u64
  io_last_errno :: int
  io_pending_output :: "OutputCommand option"

definition io_init :: "CanIoConfig \<Rightarrow> CanIoLoop" where
  "io_init config =
     \<lparr>io_config = config, io_joinable = False, io_running = False, io_stop_requested = False,
      io_startup_error = None, io_stop_reason = IoStopReason.NoReason, io_frames_received = 0,
      io_frames_sent = 0, io_decode_rejects = 0, io_queue_rejects = 0,
      io_send_would_block_retries = 0, io_wakeups = 0, io_last_errno = 0, io_pending_output = None\<rparr>"

definition io_stats :: "CanIoLoop \<Rightarrow> CanIoStats" where
  "io_stats io =
     \<lparr>cs_frames_received = io_frames_received io, cs_frames_sent = io_frames_sent io,
      cs_decode_rejects = io_decode_rejects io, cs_queue_rejects = io_queue_rejects io,
      cs_send_would_block_retries = io_send_would_block_retries io, cs_wakeups = io_wakeups io,
      cs_stop_reason = io_stop_reason io, cs_last_errno = io_last_errno io\<rparr>"

text \<open>The thread works on its own object, the runtime and the event queue.\<close>

type_synonym IoState = "CanIoLoop \<times> LinuxRuntime \<times> BoundedInputQueue"

section \<open>Conversion to the wire\<close>

definition wire_sequence :: "u64 \<Rightarrow> u16" where
  "wire_sequence sequence = ucast ((sequence - 1) mod 0xFFFF + 1)"

definition to_wire_command :: "OutputCommand \<Rightarrow> u8 \<Rightarrow> i64 \<Rightarrow> WireOutputCommand Result" where
  "to_wire_command cmd node_id now_ns =
     (if oc_session_id cmd = 0 \<or> oc_session_id cmd > 0xFFFF \<or> oc_sequence cmd = 0 \<or> oc_mask cmd AND 0xFF = 0
      then Inl (Error Errc.Rejected ''output command fields exceed CAN V1 wire width'')
      else case validity_10ms_from_deadline now_ns (oc_deadline_ns cmd) of
        Inl e \<Rightarrow> Inl e
      | Inr validity \<Rightarrow>
          Inr \<lparr>wc_node_id = node_id, wc_mask = ucast (oc_mask cmd AND 0xFF),
               wc_session_id = ucast (oc_session_id cmd), wc_sequence = wire_sequence (oc_sequence cmd),
               wc_values = ucast (oc_values cmd AND 0xFF), wc_validity_10ms = validity\<rparr>)"

section \<open>Receive path\<close>

definition push_event :: "RuntimeInputEvent \<Rightarrow> CanIoLoop \<times> BoundedInputQueue \<Rightarrow> CanIoLoop \<times> BoundedInputQueue" where
  "push_event event = (\<lambda>(io, q).
     case try_push event q of
       (q, False) \<Rightarrow> (io\<lparr>io_queue_rejects := io_queue_rejects io + 1\<rparr>, q)
     | (q, True) \<Rightarrow> (io, q))"

definition simple_event :: "RuntimeInputKind \<Rightarrow> u8 \<Rightarrow> i64 \<Rightarrow> RuntimeInputEvent" where
  "simple_event kind node_id now_ns =
     ie_default\<lparr>ie_kind := kind, ie_node_id := node_id, ie_monotonic_ns := now_ns\<rparr>"

text \<open>The event a decoded message becomes; the runtime ignores its own commands.\<close>

fun message_event :: "i64 \<Rightarrow> DecodedMessage \<Rightarrow> RuntimeInputEvent option" where
  "message_event now_ns (DHeartbeat m) =
     Some (ie_default\<lparr>ie_kind := RuntimeInputKind.Heartbeat, ie_monotonic_ns := now_ns,
       ie_node_id := hb_node_id m, ie_boot_id := hb_boot_id m, ie_session_id := hb_session_id m,
       ie_hb_seq := hb_hb_seq m\<rparr>)"
| "message_event now_ns (DStatus m) =
     Some (ie_default\<lparr>ie_kind := RuntimeInputKind.NodeStatus, ie_monotonic_ns := now_ns,
       ie_node_id := ns_node_id m, ie_session_id := ns_session_id m,
       ie_interlock_ready := ns_interlock_ready m, ie_input_bits := ns_input_bits m,
       ie_node_fault_code := ns_fault_code m\<rparr>)"
| "message_event now_ns (DOutputStatus m) =
     Some (ie_default\<lparr>ie_kind := RuntimeInputKind.OutputStatus, ie_monotonic_ns := now_ns,
       ie_node_id := ws_node_id m, ie_session_id := ws_session_id m,
       ie_output_result := ws_result m, ie_output_sequence := ws_sequence m,
       ie_output_mirror := ws_output_mirror m\<rparr>)"
| "message_event now_ns (DOutputCommand m) = None"

definition io_fail :: "IoStopReason \<Rightarrow> CanIoLoop \<Rightarrow> CanIoLoop" where
  "io_fail reason io = io\<lparr>io_stop_reason := reason, io_stop_requested := True\<rparr>"

text \<open>One received frame: count it, decode it, and queue what it means.\<close>

definition handle_frame :: "CanFrame \<Rightarrow> IoState \<Rightarrow> IoState" where
  "handle_frame frame = (\<lambda>(io, rt, q).
     let io = io\<lparr>io_frames_received := io_frames_received io + 1\<rparr>;
         now_ns = now_or_zero (rt_now rt); rt = rt_clock_read rt
     in case decode frame of
          Inl _ \<Rightarrow>
            let io = io\<lparr>io_decode_rejects := io_decode_rejects io + 1\<rparr>;
                (io, q) = push_event (simple_event RuntimeInputKind.ProtocolReject
                            (cic_node_id (io_config io)) now_ns) (io, q)
            in (io, rt, q)
        | Inr msg \<Rightarrow>
            (case message_event now_ns msg of
               None \<Rightarrow> (io, rt, q)
             | Some event \<Rightarrow> let (io, q) = push_event event (io, q) in (io, rt, q)))"

text \<open>
  \<^verbatim>\<open>handle_can_ready\<close>: at most \<open>budget\<close> frames; a receive that would block ends the batch, any
  other receive error stops the thread. The list holds the results of the coming
  receive calls, the exhausted list stands for an empty socket.
\<close>

fun handle_can_ready :: "nat \<Rightarrow> int \<Rightarrow> CanFrame Result list \<Rightarrow> IoState \<Rightarrow> IoState" where
  "handle_can_ready 0 err rx st = st"
| "handle_can_ready (Suc budget) err [] st = st"
| "handle_can_ready (Suc budget) err (r # rx) (io, rt, q) =
     (if io_stop_requested io then (io, rt, q)
      else case r of
        Inl e \<Rightarrow>
          if err_code e = Errc.WouldBlock then (io, rt, q)
          else let io = io\<lparr>io_last_errno := err\<rparr>;
                   event = simple_event RuntimeInputKind.IoError (cic_node_id (io_config io)) (now_or_zero (rt_now rt));
                   rt = rt_clock_read rt;
                   (io, q) = push_event event (io, q)
               in (io_fail IoStopReason.IoError io, rt, q)
      | Inr frame \<Rightarrow> handle_can_ready budget err rx (handle_frame frame (io, rt, q)))"

section \<open>Output pump\<close>

definition pump_reject :: "i64 \<Rightarrow> IoState \<Rightarrow> IoState" where
  "pump_reject now_ns = (\<lambda>(io, rt, q).
     let (io, q) = push_event (simple_event RuntimeInputKind.ProtocolReject (cic_node_id (io_config io)) now_ns) (io, q)
     in (io\<lparr>io_pending_output := None\<rparr>, rt, q))"

definition pump_io_error :: "i64 \<Rightarrow> IoState \<Rightarrow> IoState" where
  "pump_io_error now_ns = (\<lambda>(io, rt, q).
     let (io, q) = push_event (simple_event RuntimeInputKind.IoError (cic_node_id (io_config io)) now_ns) (io, q)
     in ((io_fail IoStopReason.SendFailure io)\<lparr>io_pending_output := None\<rparr>, rt, q))"

text \<open>The send itself, with the result the socket gives.\<close>

definition pump_send :: "unit Result \<Rightarrow> int \<Rightarrow> WireOutputCommand \<Rightarrow> i64 \<Rightarrow> IoState \<Rightarrow> IoState" where
  "pump_send sent err wire now_ns = (\<lambda>(io, rt, q).
     case sent of
       Inl e \<Rightarrow>
         if err_code e = Errc.WouldBlock
         then (io\<lparr>io_send_would_block_retries := io_send_would_block_retries io + 1\<rparr>, rt, q)
         else pump_io_error now_ns (io\<lparr>io_last_errno := err\<rparr>, rt, q)
     | Inr _ \<Rightarrow>
         let io = io\<lparr>io_frames_sent := io_frames_sent io + 1\<rparr>;
             (rt, tracked) = note_output_command_sent (wc_session_id wire) (wc_sequence wire) now_ns rt
         in if \<not> is_ok tracked then pump_io_error now_ns (io, rt, q)
            else (io\<lparr>io_pending_output := None\<rparr>, rt, q))"

text \<open>Re-check the pending command, convert, encode and send it; the frame handed to the socket is part of the result.\<close>

definition pump_pending :: "unit Result \<Rightarrow> int \<Rightarrow> OutputCommand \<Rightarrow> IoState \<Rightarrow> IoState \<times> CanFrame option" where
  "pump_pending sent err cmd = (\<lambda>(io, rt, q).
     let (rt, sendable) = output_command_sendable cmd rt in
     if \<not> sendable then ((io\<lparr>io_pending_output := None\<rparr>, rt, q), None)
     else let now = rt_now rt; rt = rt_clock_read rt in
       case now of
         Inl _ \<Rightarrow> ((io\<lparr>io_pending_output := None\<rparr>, rt, q), None)
       | Inr now_ns \<Rightarrow>
         case to_wire_command cmd (cic_node_id (io_config io)) now_ns of
           Inl _ \<Rightarrow> (pump_reject now_ns (io, rt, q), None)
         | Inr wire \<Rightarrow>
           case encode_output_command wire of
             Inl _ \<Rightarrow> (pump_reject now_ns (io, rt, q), None)
           | Inr frame \<Rightarrow> (pump_send sent err wire now_ns (io, rt, q), Some frame))"

definition pump_output :: "unit Result \<Rightarrow> int \<Rightarrow> IoState \<Rightarrow> IoState \<times> CanFrame option" where
  "pump_output sent err = (\<lambda>(io, rt, q).
     let (rt, latest) = try_consume_output_command rt;
         io = (if latest \<noteq> None then io\<lparr>io_pending_output := latest\<rparr> else io)
     in case io_pending_output io of
          None \<Rightarrow> ((io, rt, q), None)
        | Some cmd \<Rightarrow> pump_pending sent err cmd (io, rt, q))"

section \<open>The thread\<close>

text \<open>What one \<^verbatim>\<open>epoll_wait\<close> reports, and the socket results available in this turn.\<close>

record WakeEnv =
  we_wait_error :: bool
  we_errno :: int
  we_saw_stop :: bool
  we_saw_signal :: bool
  we_saw_can :: bool
  we_can_error :: bool
  we_rx :: "CanFrame Result list"
  we_sent :: "unit Result"

definition handle_stop_event :: "CanIoLoop \<Rightarrow> CanIoLoop" where
  "handle_stop_event io = io\<lparr>io_stop_reason := IoStopReason.EventFd, io_stop_requested := True\<rparr>"

definition handle_signal :: "CanIoLoop \<Rightarrow> CanIoLoop" where
  "handle_signal io = io\<lparr>io_stop_reason := IoStopReason.Signal, io_stop_requested := True\<rparr>"

text \<open>The end of \<^verbatim>\<open>thread_main\<close>.\<close>

definition thread_exit :: "CanIoLoop \<Rightarrow> CanIoLoop" where
  "thread_exit io = io\<lparr>io_pending_output := None, io_running := False\<rparr>"

text \<open>The events of one turn: stop and signal first, then the bus.\<close>

definition wake_events :: "WakeEnv \<Rightarrow> IoState \<Rightarrow> IoState" where
  "wake_events env = (\<lambda>(io, rt, q).
     let io = io\<lparr>io_wakeups := io_wakeups io + 1\<rparr>;
         io = (if we_saw_stop env then handle_stop_event io else io);
         io = (if we_saw_signal env then handle_signal io else io)
     in if we_can_error env
        then let event = simple_event RuntimeInputKind.IoError (cic_node_id (io_config io)) (now_or_zero (rt_now rt));
                 (io, q) = push_event event (io, q)
             in (io_fail IoStopReason.IoError io, rt_clock_read rt, q)
        else if we_saw_can env \<and> \<not> io_stop_requested io
        then handle_can_ready (cic_max_frames_per_wake (io_config io)) (we_errno env) (we_rx env) (io, rt, q)
        else (io, rt, q))"

text \<open>One turn of the loop; it leaves the loop when the wait fails or a stop is requested.\<close>

definition io_wake :: "WakeEnv \<Rightarrow> IoState \<Rightarrow> IoState \<times> CanFrame option" where
  "io_wake env = (\<lambda>(io, rt, q).
     if io_stop_requested io then ((thread_exit io, rt, q), None)
     else if we_wait_error env
       then ((thread_exit (io\<lparr>io_last_errno := we_errno env, io_stop_reason := IoStopReason.IoError\<rparr>), rt, q), None)
     else
       let (io, rt, q) = wake_events env (io, rt, q)
       in if \<not> io_stop_requested io then pump_output (we_sent env) (we_errno env) (io, rt, q)
          else ((io, rt, q), None))"

definition maybe_set_affinity :: "int \<Rightarrow> (int \<Rightarrow> string) \<Rightarrow> CanIoLoop \<Rightarrow> CanIoLoop \<times> unit Result" where
  "maybe_set_affinity rc strerror io =
     (let cpu = cic_cpu_affinity (io_config io) in
      if cpu < 0 then (io, Inr ())
      else if cpu \<ge> CPU_SETSIZE then (io, Inl (Error Errc.InvalidArgument ''I/O CPU affinity is outside CPU_SETSIZE''))
      else if rc \<noteq> 0
        then (io\<lparr>io_last_errno := rc\<rparr>,
              Inl (Error (if rc = EINVAL then Errc.InvalidArgument
                          else if rc = EPERM \<or> rc = EACCES then Errc.Rejected else Errc.IoError)
                    (''pthread_setaffinity_np(io): '' @ strerror rc)))
        else (io, Inr ()))"

text \<open>What the system answers while the thread starts: descriptor set-up, thread creation, affinity, handshake in time.\<close>

record IoStartEnv =
  ise_setup :: "unit Result"
  ise_thread_ok :: bool
  ise_affinity_rc :: int
  ise_handshake :: bool
  ise_strerror :: "int \<Rightarrow> string"

definition thread_main_start :: "IoStartEnv \<Rightarrow> CanIoLoop \<Rightarrow> CanIoLoop" where
  "thread_main_start env io =
     (case maybe_set_affinity (ise_affinity_rc env) (ise_strerror env) io of
        (io, Inl e) \<Rightarrow> io\<lparr>io_startup_error := Some e, io_stop_reason := IoStopReason.IoError, io_running := False\<rparr>
      | (io, Inr _) \<Rightarrow> io\<lparr>io_running := True\<rparr>)"

definition io_request_stop :: "CanIoLoop \<Rightarrow> CanIoLoop" where
  "io_request_stop io =
     io\<lparr>io_stop_requested := True,
        io_stop_reason := (if io_stop_reason io = IoStopReason.NoReason then IoStopReason.EventFd else io_stop_reason io)\<rparr>"

definition io_join :: "CanIoLoop \<Rightarrow> CanIoLoop" where
  "io_join io = (if io_joinable io then thread_exit io else io)\<lparr>io_joinable := False, io_running := False\<rparr>"

definition io_start :: "IoStartEnv \<Rightarrow> CanIoLoop \<Rightarrow> CanIoLoop \<times> unit Result" where
  "io_start env io =
     (if io_joinable io \<or> io_running io then (io, Inl (Error Errc.Busy ''CanIoLoop already started''))
      else let io = io\<lparr>io_stop_requested := False, io_stop_reason := IoStopReason.NoReason, io_startup_error := None\<rparr> in
        case ise_setup env of
          Inl e \<Rightarrow> (io, Inl e)
        | Inr _ \<Rightarrow>
          if \<not> ise_thread_ok env then (io, Inl (Error Errc.IoError ''failed to create I/O thread''))
          else let io = thread_main_start env (io\<lparr>io_joinable := True\<rparr>) in
            if \<not> ise_handshake env
            then (io_join (io_request_stop io), Inl (Error Errc.Timeout ''I/O thread startup handshake timed out''))
            else if \<not> io_running io
            then (io_join io,
                  Inl (case io_startup_error io of Some e \<Rightarrow> e
                       | None \<Rightarrow> Error Errc.IoError ''I/O thread failed during startup''))
            else (io, Inr ()))"

end
