(* ===== verification/Can_Io_Proofs.thy ===== *)
theory Can_Io_Proofs
  imports Can_Io
begin

text \<open>
  Properties of the CAN I/O thread: the 16-bit sequence numbers it puts on the wire keep
  the order of the runtime's 64-bit ones, every frame it sends carries an authorised
  command and opens exactly one acknowledgement, and the receive path queues what the
  frames mean, in order, within its budget.
\<close>

section \<open>Sequence numbers on the wire\<close>

lemma uint_wire_sequence:
  assumes "q \<noteq> 0"
  shows "uint (wire_sequence q) = (uint q - 1) mod 65535 + 1"
proof -
  have "1 \<le> q" using assms by (simp add: one_le_word_iff)
  then have "uint (q - 1) = uint q - 1" using uint_minus_simple_alt [of 1 q] by simp
  then have "uint ((q - 1) mod 0xFFFF) = (uint q - 1) mod 65535" by (simp add: uint_mod)
  moreover have "(uint q - 1) mod 65535 < 65535" "0 \<le> (uint q - 1) mod 65535" by simp_all
  ultimately have "uint ((q - 1) mod 0xFFFF + 1) = (uint q - 1) mod 65535 + 1"
    by (simp add: uint_word_ariths)
  then show ?thesis
    unfolding wire_sequence_def by (simp add: unsigned_ucast_eq take_bit_eq_mod)
qed

lemma wire_sequence_nonzero: "q \<noteq> 0 \<Longrightarrow> wire_sequence q \<noteq> 0"
proof
  assume "q \<noteq> 0" and "wire_sequence q = 0"
  then have "(uint q - 1) mod 65535 + 1 = 0" using uint_wire_sequence [of q] by simp
  moreover have "0 \<le> (uint q - 1) mod 65535" by simp
  ultimately show False by linarith
qed

text \<open>Stepping \<open>k\<close> ahead on the circle of 65535 values, seen on the circle of 65536.\<close>

lemma wrap_step:
  fixes a k :: int
  assumes "0 \<le> k" and "k < 65535"
  shows "((a + k) mod 65535 - a mod 65535) mod 65536 \<in> {k, k + 1}"
proof -
  define b where "b = a mod 65535"
  have b: "0 \<le> b" "b < 65535" by (simp_all add: b_def)
  have "(a + k) mod 65535 = (b + k) mod 65535" by (simp add: b_def mod_add_left_eq)
  also have "\<dots> = (if b + k < 65535 then b + k else b + k - 65535)"
  proof (cases "b + k < 65535")
    case False
    have "(b + k) mod 65535 = (b + k - 65535) mod 65535" by (rule minus_mod_self2 [symmetric])
    also have "\<dots> = b + k - 65535" using False b assms by (intro mod_pos_pos_trivial) auto
    finally show ?thesis using False by simp
  qed (use b assms in simp)
  finally have e: "(a + k) mod 65535 - b = (if b + k < 65535 then k else k - 65535)" by simp
  have "(k - 65535) mod 65536 = (k - 65535 + 65536) mod 65536" by (rule mod_add_self2 [symmetric])
  then have "(k - 65535) mod 65536 = k + 1" using assms by simp
  then show ?thesis using e assms unfolding b_def by auto
qed

section \<open>The pump\<close>

lemma to_wire_fields:
  assumes "to_wire_command cmd node now = Inr w"
  shows "wc_node_id w = node" and "wc_session_id w = ucast (oc_session_id cmd)"
    and "uint (wc_session_id w) = uint (oc_session_id cmd)" and "wc_session_id w \<noteq> 0"
    and "wc_sequence w = wire_sequence (oc_sequence cmd)" and "wc_sequence w \<noteq> 0"
    and "validity_10ms_from_deadline now (oc_deadline_ns cmd) = Inr (wc_validity_10ms w)"
    and "wc_mask w = ucast (oc_mask cmd)" and "wc_values w = ucast (oc_values cmd)"
proof -
  have w: "oc_session_id cmd \<noteq> 0" "oc_session_id cmd \<le> 0xFFFF" "oc_sequence cmd \<noteq> 0"
    "wc_node_id w = node" "wc_session_id w = ucast (oc_session_id cmd)"
    "wc_sequence w = wire_sequence (oc_sequence cmd)"
    "validity_10ms_from_deadline now (oc_deadline_ns cmd) = Inr (wc_validity_10ms w)"
    using assms by (auto simp: to_wire_command_def not_less split: if_splits sum.splits)
  have low: "(ucast (m AND 0xFF) :: u8) = ucast m" for m :: u32
    unfolding low_byte_mask by (auto simp: bit_eq_iff bit_simps)
  show "wc_mask w = ucast (oc_mask cmd)" "wc_values w = ucast (oc_values cmd)"
    using assms by (auto simp: to_wire_command_def low split: if_splits sum.splits)
  have "uint (oc_session_id cmd) < 65536" using w(2) by (simp add: word_le_def)
  then have u: "uint (wc_session_id w) = uint (oc_session_id cmd)"
    unfolding w(5) by (simp add: unsigned_ucast_eq take_bit_eq_mod)
  then have "wc_session_id w \<noteq> 0" using w(1) by (metis uint_0_iff)
  with w u show "wc_node_id w = node" "wc_session_id w = ucast (oc_session_id cmd)"
    "uint (wc_session_id w) = uint (oc_session_id cmd)" "wc_session_id w \<noteq> 0"
    "wc_sequence w = wire_sequence (oc_sequence cmd)" "wc_sequence w \<noteq> 0"
    "validity_10ms_from_deadline now (oc_deadline_ns cmd) = Inr (wc_validity_10ms w)"
    by (simp_all add: wire_sequence_nonzero)
qed

text \<open>The state after consuming, and the command the pump works on.\<close>

definition pump_rt :: "LinuxRuntime \<Rightarrow> LinuxRuntime" where
  "pump_rt rt = fst (try_consume_output_command rt)"

definition pump_command :: "CanIoLoop \<Rightarrow> LinuxRuntime \<Rightarrow> OutputCommand option" where
  "pump_command io rt =
     (case snd (try_consume_output_command rt) of None \<Rightarrow> io_pending_output io | Some c \<Rightarrow> Some c)"

lemma pump_error_rt [simp]:
  "fst (snd (pump_io_error t (io, rt, q))) = rt" "fst (snd (pump_reject t (io, rt, q))) = rt"
  by (simp_all add: pump_io_error_def pump_reject_def Let_def split: prod.splits)

lemma pump_send_rt:
  "fst (snd (pump_send (Inr u) err wire t (io, rt, q))) =
     fst (note_output_command_sent (wc_session_id wire) (wc_sequence wire) t rt)"
  by (simp add: pump_send_def Let_def split: prod.splits)

lemma pump_pending_frame:
  assumes "pump_pending sent err cmd (io, rt, q) = (st, Some f)"
  obtains now wire where "snd (output_command_sendable cmd rt)"
    and "rt_now (rt_clock_read rt) = Inr now"
    and "to_wire_command cmd (cic_node_id (io_config io)) now = Inr wire"
    and "encode_output_command wire = Inr f"
    and "st = pump_send sent err wire now (io, rt_clock_read (rt_clock_read rt), q)"
proof -
  obtain s where s: "output_command_sendable cmd rt = (rt_clock_read rt, s)"
    using sendable_state [of cmd rt] by (metis prod.collapse)
  show thesis
    using assms that s
    by (auto simp: pump_pending_def Let_def split: if_splits sum.splits)
qed

lemma pump_frame:
  assumes "pump_output sent err (io, rt, q) = (st, Some f)"
  obtains cmd now wire io' where "pump_command io rt = Some cmd"
    and "snd (output_command_sendable cmd (pump_rt rt))"
    and "rt_now (rt_clock_read (pump_rt rt)) = Inr now"
    and "to_wire_command cmd (cic_node_id (io_config io)) now = Inr wire"
    and "encode_output_command wire = Inr f"
    and "st = pump_send sent err wire now (io', rt_clock_read (rt_clock_read (pump_rt rt)), q)"
proof -
  obtain rt1 latest where c: "try_consume_output_command rt = (rt1, latest)" by fastforce
  define io' where "io' = (if latest \<noteq> None then io\<lparr>io_pending_output := latest\<rparr> else io)"
  have p: "io_pending_output io' = pump_command io rt" and cfg: "io_config io' = io_config io"
    using c by (auto simp: pump_command_def io'_def split: option.splits)
  have rt1: "rt1 = pump_rt rt" using c by (simp add: pump_rt_def)
  obtain cmd where cmd: "pump_command io rt = Some cmd"
    and pp: "pump_pending sent err cmd (io', rt1, q) = (st, Some f)"
    using assms c p by (cases "pump_command io rt") (auto simp: pump_output_def Let_def io'_def)
  from pp show thesis
  proof (rule pump_pending_frame)
    fix now wire
    assume "snd (output_command_sendable cmd rt1)" "rt_now (rt_clock_read rt1) = Inr now"
      "to_wire_command cmd (cic_node_id (io_config io')) now = Inr wire" "encode_output_command wire = Inr f"
      "st = pump_send sent err wire now (io', rt_clock_read (rt_clock_read rt1), q)"
    then show thesis using that [OF cmd] cfg rt1 by simp
  qed
qed

text \<open>Consuming changes neither gate, session nor acknowledgement state.\<close>

lemma consume_frame:
  "rt_state_machine (pump_rt rt) = rt_state_machine rt" "rt_scheduler (pump_rt rt) = rt_scheduler rt"
  "rt_active_session_id (pump_rt rt) = rt_active_session_id rt"
  "rt_output_ack_pending (pump_rt rt) = rt_output_ack_pending rt"
  by (auto simp: pump_rt_def try_consume_output_command_def Let_def split: sum.splits option.splits prod.splits)

lemma sendable_conditions:
  "snd (output_command_sendable cmd rt) \<longleftrightarrow>
     (\<exists>now. rt_now rt = Inr now \<and> now < oc_deadline_ns cmd) \<and> rt_running rt \<and>
     can_accept_output (rt_state_machine rt) \<and> \<not> rt_output_ack_pending rt \<and>
     rt_active_session_id rt = Some (oc_session_id cmd)"
  by (auto simp: output_command_sendable_def Let_def split: sum.splits)

lemma pump_send_error_rt: "fst (snd (pump_send (Inl e) err wire t (io, rt, q))) = rt"
  by (simp add: pump_send_def)

lemma pump_send_tracked:
  assumes "0 < now" and "wc_session_id wire \<noteq> 0" and "wc_sequence wire \<noteq> 0" and "rt_running rt"
    and "can_accept_output (rt_state_machine rt)" and "\<not> rt_output_ack_pending rt"
    and "rt_active_session_id rt = Some a" and "ucast a = wc_session_id wire"
  shows "rt_output_ack_pending (fst (snd (pump_send (Inr u) err wire now (io, rt, q)))) \<and>
     rt_last_sent_session (fst (snd (pump_send (Inr u) err wire now (io, rt, q)))) = wc_session_id wire \<and>
     rt_last_sent_sequence (fst (snd (pump_send (Inr u) err wire now (io, rt, q)))) = wc_sequence wire \<and>
     rt_last_sent_time_ns (fst (snd (pump_send (Inr u) err wire now (io, rt, q)))) = now"
proof -
  have "snd (note_output_command_sent (wc_session_id wire) (wc_sequence wire) now rt) = Inr ()"
    using assms by (auto simp: note_sent_Inr)
  then show ?thesis using assms by (simp add: pump_send_rt note_sent_state)
qed

lemma pump_leaves_pending:
  "io_pending_output (fst (fst (pump_output sent err (io, rt, q)))) \<in> {None, pump_command io rt}"
  by (auto simp: pump_output_def pump_pending_def pump_send_def pump_reject_def pump_io_error_def io_fail_def
      pump_command_def Let_def split_beta split: option.splits sum.splits)

section \<open>The receive path\<close>

text \<open>What a frame means to the supervisor, and the events of a batch with the time stamps they get.\<close>

definition frame_event :: "u8 \<Rightarrow> i64 \<Rightarrow> CanFrame \<Rightarrow> RuntimeInputEvent option" where
  "frame_event node now_ns frame =
     (case decode frame of Inl _ \<Rightarrow> Some (simple_event RuntimeInputKind.ProtocolReject node now_ns)
      | Inr msg \<Rightarrow> message_event now_ns msg)"

fun batch_events :: "u8 \<Rightarrow> LinuxRuntime \<Rightarrow> CanFrame list \<Rightarrow> RuntimeInputEvent list" where
  "batch_events node rt [] = []"
| "batch_events node rt (f # fs) =
     (case frame_event node (now_or_zero (rt_now rt)) f of None \<Rightarrow> [] | Some e \<Rightarrow> [e]) @
     batch_events node (rt_clock_read rt) fs"

definition queue_all :: "RuntimeInputEvent list \<Rightarrow> BoundedInputQueue \<Rightarrow> BoundedInputQueue" where
  "queue_all es q = fold (\<lambda>e q. fst (try_push e q)) es q"

lemma queue_all_contents:
  assumes "bq_inv q"
  shows "bq_inv (queue_all es q) \<and> bq_capacity (queue_all es q) = bq_capacity q \<and>
     bq_contents (queue_all es q) = take (bq_capacity q) (bq_contents q @ es) \<and>
     (bq_overflow_latched (queue_all es q) \<longleftrightarrow>
        bq_overflow_latched q \<or> bq_capacity q < length (bq_contents q @ es))"
  using assms
proof (induction es arbitrary: q)
  case Nil
  then show ?case by (simp add: queue_all_def bq_inv_def)
next
  case (Cons e es)
  obtain q1 ok where p: "try_push e q = (q1, ok)" by fastforce
  note laws = bq.push_inv [OF Cons.prems p] bq.push_ok [OF Cons.prems p] bq.push_contents [OF Cons.prems p]
    bq.push_lost [OF Cons.prems p] bq.push_cap [OF Cons.prems p]
  have le: "bq_size q \<le> bq_capacity q" using Cons.prems by (simp add: bq_inv_def)
  have "queue_all (e # es) q = queue_all es q1" by (simp add: queue_all_def p)
  then show ?case using Cons.IH [OF laws(1)] laws le by (cases ok) (auto simp: take_Cons')
qed

lemma push_event_simps:
  "snd (push_event e (io, q)) = fst (try_push e q)"
  "io_stop_requested (fst (push_event e (io, q))) = io_stop_requested io"
  "io_config (fst (push_event e (io, q))) = io_config io"
  "io_pending_output (fst (push_event e (io, q))) = io_pending_output io"
  "io_running (fst (push_event e (io, q))) = io_running io"
  by (auto simp: push_event_def split: prod.splits bool.splits)

lemma handle_frame_effect:
  "fst (snd (handle_frame f (io, rt, q))) = rt_clock_read rt"
  "snd (snd (handle_frame f (io, rt, q))) =
     queue_all (batch_events (cic_node_id (io_config io)) rt [f]) q"
  "io_stop_requested (fst (handle_frame f (io, rt, q))) = io_stop_requested io"
  "io_config (fst (handle_frame f (io, rt, q))) = io_config io"
  "io_running (fst (handle_frame f (io, rt, q))) = io_running io"
  "io_pending_output (fst (handle_frame f (io, rt, q))) = io_pending_output io"
proof -
  note defs = handle_frame_def frame_event_def queue_all_def Let_def split_beta push_event_simps
  show "fst (snd (handle_frame f (io, rt, q))) = rt_clock_read rt"
    "io_stop_requested (fst (handle_frame f (io, rt, q))) = io_stop_requested io"
    "io_config (fst (handle_frame f (io, rt, q))) = io_config io"
    "io_running (fst (handle_frame f (io, rt, q))) = io_running io"
    "io_pending_output (fst (handle_frame f (io, rt, q))) = io_pending_output io"
    by (auto simp: defs split: sum.splits option.splits)
  show "snd (snd (handle_frame f (io, rt, q))) =
     queue_all (batch_events (cic_node_id (io_config io)) rt [f]) q"
    by (auto simp: defs split: sum.splits option.splits)
qed

lemma queue_all_append: "queue_all (xs @ ys) q = queue_all ys (queue_all xs q)"
  by (simp add: queue_all_def)

lemma batch_events_Cons: "batch_events node rt (f # fs) = batch_events node rt [f] @ batch_events node (rt_clock_read rt) fs"
  by (simp only: batch_events.simps append_Nil2 append_assoc)

lemma handle_can_ready_batch:
  assumes "\<not> io_stop_requested io"
  shows "\<exists>io'. handle_can_ready n err (map Inr fs) (io, rt, q) =
     (io', (rt_clock_read ^^ length (take n fs)) rt,
      queue_all (batch_events (cic_node_id (io_config io)) rt (take n fs)) q) \<and> \<not> io_stop_requested io'"
  using assms
proof (induction fs arbitrary: n io rt q)
  case Nil
  then show ?case by (cases n) (auto simp: queue_all_def)
next
  case (Cons f fs)
  show ?case
  proof (cases n)
    case (Suc m)
    obtain io1 rt1 q1 where h: "handle_frame f (io, rt, q) = (io1, rt1, q1)" by (metis prod.exhaust)
    have e: "rt1 = rt_clock_read rt" "q1 = queue_all (batch_events (cic_node_id (io_config io)) rt [f]) q"
      "\<not> io_stop_requested io1" "io_config io1 = io_config io"
      using handle_frame_effect [of f io rt q] h Cons.prems by simp_all
    from Cons.IH [OF e(3), of m rt1 q1] show ?thesis
      using Suc Cons.prems h e
      by (simp add: queue_all_append batch_events_Cons [of _ rt f "take m fs"] funpow_swap1 del: batch_events.simps(2))
  qed (use Cons.prems in \<open>auto simp: queue_all_def\<close>)
qed

lemma bq_inv_push [simp]: "bq_inv q \<Longrightarrow> bq_inv (fst (try_push e q))"
  using bq.push_inv [of q e] by (metis prod.collapse)

lemma handle_can_ready_keeps:
  assumes "bq_inv q" and "handle_can_ready n err rx (io, rt, q) = (io', rt', q')"
  shows "bq_inv q' \<and> io_config io' = io_config io \<and> (\<exists>k. rt' = (rt_clock_read ^^ k) rt) \<and> io_pending_output io' = io_pending_output io"
  using assms
proof (induction n arbitrary: rx io rt q)
  case (Suc n)
  note n0 = exI [of _ "0 :: nat"] exI [of _ "1 :: nat"]
  show ?case
  proof (cases rx)
    case (Cons r rs)
    show ?thesis
    proof (cases "\<not> io_stop_requested io \<and> (\<exists>f. r = Inr f)")
      case True
      then obtain f where f: "r = Inr f" by blast
      obtain io1 rt1 q1 where h: "handle_frame f (io, rt, q) = (io1, rt1, q1)" by (metis prod.exhaust)
      have e: "rt1 = rt_clock_read rt" "bq_inv q1" "io_config io1 = io_config io" "io_pending_output io1 = io_pending_output io"
        using handle_frame_effect [of f io rt q] h queue_all_contents [OF Suc.prems(1)] by simp_all
      then show ?thesis using Suc.IH [OF e(2), of rs io1 rt1] Suc.prems(2) True f h Cons
        by (auto simp: funpow_swap1 intro: exI [of _ "Suc k" for k])
    next
      case False
      then show ?thesis using Suc.prems Cons
        by (auto simp: Let_def split_beta push_event_simps io_fail_def intro: n0 split: sum.splits if_splits)
    qed
  qed (use Suc.prems in \<open>auto intro: n0\<close>)
qed (auto intro: exI [of _ 0])

lemma wake_events_keeps:
  assumes "bq_inv q" and "wake_events env (io, rt, q) = (io', rt', q')"
  shows "bq_inv q' \<and> io_config io' = io_config io \<and> (\<exists>k. rt' = (rt_clock_read ^^ k) rt) \<and>
    io_pending_output io' = io_pending_output io"
proof -
  define io1 where "io1 = (let io = io\<lparr>io_wakeups := io_wakeups io + 1\<rparr>;
    io = (if we_saw_stop env then handle_stop_event io else io)
    in if we_saw_signal env then handle_signal io else io)"
  have io1: "io_config io1 = io_config io" "io_pending_output io1 = io_pending_output io"
    by (simp_all add: io1_def Let_def handle_stop_event_def handle_signal_def)
  have w: "wake_events env (io, rt, q) =
     (if we_can_error env
      then let p = push_event (simple_event RuntimeInputKind.IoError (cic_node_id (io_config io1)) (now_or_zero (rt_now rt))) (io1, q)
           in (io_fail IoStopReason.IoError (fst p), rt_clock_read rt, snd p)
      else if we_saw_can env \<and> \<not> io_stop_requested io1
      then handle_can_ready (cic_max_frames_per_wake (io_config io1)) (we_errno env) (we_rx env) (io1, rt, q)
      else (io1, rt, q))"
    unfolding wake_events_def io1_def Let_def split_beta fst_conv snd_conv by (rule refl)
  show ?thesis
    using handle_can_ready_keeps [OF assms(1), of _ _ _ io1 rt] assms io1 unfolding w
    by (auto simp: Let_def push_event_simps io_fail_def intro: exI [of _ "0 :: nat"] exI [of _ "1 :: nat"] split: if_splits)
qed

section \<open>Properties\<close>

text \<open>
  Order on the wire. As long as two sequence numbers of a session are less than
  32767 apart, the later one is newer for the receiver: folding 64-bit numbers
  to the 65535 non-zero 16-bit ones keeps their serial-number order, across the wrap too.
\<close>

theorem wire_sequence_order:
  assumes "q \<noteq> 0" and "q < q'" and "uint q' - uint q < 32767"
  shows "seq_newer (wire_sequence q') (wire_sequence q)"
proof -
  let ?k = "uint q' - uint q"
  have k: "0 < ?k" using assms(2) by (simp add: word_less_def)
  have "q' \<noteq> 0" using assms(2) by auto
  then have "uint (wire_sequence q') - uint (wire_sequence q) =
      (uint q - 1 + ?k) mod 65535 - (uint q - 1) mod 65535"
    using assms(1) by (simp add: uint_wire_sequence)
  moreover have "((uint q - 1 + ?k) mod 65535 - (uint q - 1) mod 65535) mod 65536 \<in> {?k, ?k + 1}"
    using k assms(3) by (intro wrap_step) auto
  ultimately show ?thesis using k assms(3) by (auto simp: seq_newer_uint)
qed

theorem wire_sequence_order_witness:
  "seq_newer (wire_sequence 65536) (wire_sequence 65535) \<and> wire_sequence 65535 = 65535 \<and> wire_sequence 65536 = 1"
proof -
  have "wire_sequence 65535 = 65535" "wire_sequence 65536 = 1" by code_simp+
  then show ?thesis using wire_sequence_order [of 65535 65536] by simp
qed


text \<open>
  Receive path. A batch of received frames puts into the queue, in order, the events of the first
  \<open>max_frames_per_wake\<close> frames (decode rejects included) up to the queue's capacity; an
  event lost at a full queue sets the overflow latch; the runtime itself is not touched
  beyond reading the clock.
\<close>

theorem receive_queues_in_order:
  assumes "bq_inv q" and "\<not> io_stop_requested io"
    and "handle_can_ready n err (map Inr fs) (io, rt, q) = (io', rt', q')"
  shows "bq_contents q' = take (bq_capacity q)
           (bq_contents q @ batch_events (cic_node_id (io_config io)) rt (take n fs)) \<and>
         (bq_overflow_latched q' \<longleftrightarrow> bq_overflow_latched q \<or>
           bq_capacity q < length (bq_contents q @ batch_events (cic_node_id (io_config io)) rt (take n fs))) \<and>
         rt' = (rt_clock_read ^^ min n (length fs)) rt \<and> \<not> io_stop_requested io'"
  using handle_can_ready_batch [OF assms(2), of n err fs rt q] queue_all_contents [OF assms(1)] assms(3)
  by (auto simp: min.commute)

text \<open>
  Stop before traffic. In a turn that reports a stop event or a signal, no received
  frame is handled and nothing is sent, whatever else is ready; the next turn ends the
  thread and drops the pending command.
\<close>

theorem stop_beats_traffic:
  assumes "we_saw_stop env \<or> we_saw_signal env" and "\<not> we_wait_error env" and "\<not> we_can_error env"
    and "\<not> io_stop_requested io"
  shows "\<exists>io'. io_wake env (io, rt, q) = ((io', rt, q), None) \<and> io_stop_requested io' \<and>
     io_stop_reason io' \<in> {IoStopReason.EventFd, IoStopReason.Signal} \<and>
     (\<forall>env'. io_wake env' (io', rt, q) = ((thread_exit io', rt, q), None)) \<and>
     \<not> io_running (thread_exit io') \<and> io_pending_output (thread_exit io') = None"
  using assms
  by (cases "we_saw_stop env"; cases "we_saw_signal env")
    (simp_all add: io_wake_def wake_events_def Let_def handle_stop_event_def handle_signal_def thread_exit_def)

section \<open>A concrete turn\<close>

definition demo_io :: CanIoLoop where
  "demo_io = (io_init \<lparr>cic_can_if = ''can0'', cic_node_id = 5, cic_max_frames_per_wake = 2, cic_cpu_affinity = - 1\<rparr>)\<lparr>io_running := True\<rparr>"


definition demo_frames :: "CanFrame list" where
  "demo_frames = concat (map (\<lambda>k. case encode_heartbeat \<lparr>hb_node_id = 5, hb_boot_id = 1, hb_session_id = 9, hb_hb_seq = k\<rparr> of
     Inl _ \<Rightarrow> [] | Inr f \<Rightarrow> [f]) [1, 2, 3])"

theorem receive_queues_in_order_witness:
  "map ie_hb_seq (bq_contents (snd (snd (handle_can_ready 2 0 (map Inr demo_frames) (demo_io, demo_rt, bq_init 4))))) = [1, 2]"
proof -
  obtain io' rt' q' where p: "handle_can_ready 2 0 (map Inr demo_frames) (demo_io, demo_rt, bq_init 4) = (io', rt', q')"
    by (metis prod.exhaust)
  have "map ie_hb_seq (take 4 (batch_events (cic_node_id (io_config demo_io)) demo_rt (take 2 demo_frames))) = [1, 2]"
    "\<not> io_stop_requested demo_io" by code_simp+
  then show ?thesis using receive_queues_in_order [OF bq_inv_init _ p] p by simp
qed

definition demo_wake :: "bool \<Rightarrow> WakeEnv" where
  "demo_wake stop = \<lparr>we_wait_error = False, we_errno = 0, we_saw_stop = stop, we_saw_signal = False,
     we_saw_can = True, we_can_error = False, we_rx = map Inr demo_frames, we_sent = Inr ()\<rparr>"

theorem stop_beats_traffic_witness:
  "snd (io_wake (demo_wake True) (demo_io, demo_rt, bq_init 4)) = None \<and>
   snd (io_wake (demo_wake False) (demo_io, demo_rt, bq_init 4)) \<noteq> None"
proof -
  have "snd (io_wake (demo_wake False) (demo_io, demo_rt, bq_init 4)) \<noteq> None" by code_simp
  then show ?thesis using stop_beats_traffic [of "demo_wake True" demo_io demo_rt "bq_init 4"]
    by (auto simp: demo_wake_def demo_io_def io_init_def)
qed

section \<open>A command from an earlier activation\<close>

definition replay_rt :: LinuxRuntime where
  "replay_rt = fold rt_step demo_ops
     (rt_init demo_config [] (map Inr [2000, 2001, 2002, 2003, 2004, 2005, 2006, 2007, 2008, 2009, 2020, 2021, 2022, 2023]))"

definition replay_blocked :: IoState where
  "replay_blocked = fst (pump_output (Inl (Error Errc.WouldBlock [])) 11 (demo_io, replay_rt, bq_init 4))"

definition replay_frame :: "CanFrame option" where
  "replay_frame = (case replay_blocked of (io, rt, q) \<Rightarrow>
     snd (pump_output (Inr ()) 0 (io, fold rt_step [Handle RuntimeEvent.DeactivateRequest, Handle RuntimeEvent.ActivateRequest,
       PublishCommand ((demo_command 1 2015)\<lparr>oc_values := 0\<rparr>)] rt, q)))"


end
