(* ===== verification/Daemon.thy ===== *)
theory Daemon
  imports Supervisor_Proofs Can_Io_Proofs
begin

text \<open>
  The daemon object (\<^verbatim>\<open>linux/include/rcr/runtime_daemon.hpp\<close>,
  \<^verbatim>\<open>linux/src/daemon/runtime_daemon.cpp\<close>): it owns runtime, supervisor, event queue and I/O
  thread, starts them in order, rolls back on a failure, gates fault recovery and
  classifies the exit. What the system answers while it starts is an argument. Log lines are left out.
\<close>

section \<open>State\<close>

datatype DaemonExitCode = Ok | ConfigError | InterfaceError | PermissionError | WorkerFailure

fun DaemonExitCode_to_string :: "DaemonExitCode \<Rightarrow> string" where
  "DaemonExitCode_to_string DaemonExitCode.Ok = ''OK''"
| "DaemonExitCode_to_string DaemonExitCode.ConfigError = ''CONFIG_ERROR''"
| "DaemonExitCode_to_string DaemonExitCode.InterfaceError = ''INTERFACE_ERROR''"
| "DaemonExitCode_to_string DaemonExitCode.PermissionError = ''PERMISSION_ERROR''"
| "DaemonExitCode_to_string DaemonExitCode.WorkerFailure = ''WORKER_FAILURE''"

fun DaemonExitCode_code :: "DaemonExitCode \<Rightarrow> int" where
  "DaemonExitCode_code DaemonExitCode.Ok = 0"
| "DaemonExitCode_code DaemonExitCode.ConfigError = 1"
| "DaemonExitCode_code DaemonExitCode.InterfaceError = 2"
| "DaemonExitCode_code DaemonExitCode.PermissionError = 3"
| "DaemonExitCode_code DaemonExitCode.WorkerFailure = 4"

text \<open>Durations of the configuration are in milliseconds.\<close>

record DaemonConfig =
  dc_can_if :: string
  dc_node_id :: u8
  dc_period_ms :: i64
  dc_command_timeout_ms :: i64
  dc_output_ack_timeout_ms :: i64
  dc_heartbeat_timeout_ms :: i64
  dc_fifo_priority :: int
  dc_require_fifo :: bool
  dc_cpu_affinity :: int
  dc_duration_ms :: i64
  dc_event_queue_capacity :: nat
  dc_max_events_per_tick :: nat
  dc_max_frames_per_wake :: nat
  dc_trace_capacity :: nat
  dc_test_throw_on_tick :: bool

record RuntimeDaemon =
  d_config :: DaemonConfig
  d_stop_event :: bool
  d_signals :: bool
  d_queue :: "BoundedInputQueue option"
  d_runtime :: "LinuxRuntime option"
  d_supervisor :: "NodeSupervisor option"
  d_io :: "CanIoLoop option"
  d_started :: bool
  d_stop_requested :: bool
  d_exit_code :: DaemonExitCode
  d_duration_thread :: bool

definition d_init :: "DaemonConfig \<Rightarrow> RuntimeDaemon" where
  "d_init config =
     \<lparr>d_config = config, d_stop_event = False, d_signals = False, d_queue = None, d_runtime = None,
      d_supervisor = None, d_io = None, d_started = False, d_stop_requested = False,
      d_exit_code = DaemonExitCode.Ok, d_duration_thread = False\<rparr>"

section \<open>Start\<close>

definition config_error :: "DaemonConfig \<Rightarrow> Error option" where
  "config_error c =
     (if dc_node_id c < 1 \<or> dc_node_id c > 31
        then Some (Error Errc.InvalidArgument ''node-id must be 1..31'')
      else if dc_period_ms c \<le> 0 \<or> dc_command_timeout_ms c \<le> 0 \<or> dc_output_ack_timeout_ms c \<le> 0 \<or>
              dc_heartbeat_timeout_ms c \<le> 0
        then Some (Error Errc.InvalidArgument ''period/timeouts must be positive'')
      else if dc_cpu_affinity c < -1 \<or> dc_cpu_affinity c \<ge> CPU_SETSIZE \<or> dc_event_queue_capacity c = 0 \<or>
              dc_max_events_per_tick c = 0 \<or> dc_max_frames_per_wake c = 0 \<or> dc_trace_capacity c = 0
        then Some (Error Errc.InvalidArgument
               ''CPU affinity must be in range and queue/trace capacities must be positive'')
      else None)"

definition runtime_config :: "DaemonConfig \<Rightarrow> RuntimeConfig" where
  "runtime_config c =
     \<lparr>rc_scheduler = \<lparr>sc_period_ns = dc_period_ms c * 1000000, sc_fifo_priority = dc_fifo_priority c,
                      sc_require_fifo = dc_require_fifo c, sc_cpu_affinity = dc_cpu_affinity c\<rparr>,
      rc_command_timeout_ns = dc_command_timeout_ms c * 1000000,
      rc_output_ack_timeout_ns = dc_output_ack_timeout_ms c * 1000000,
      rc_trace_capacity = dc_trace_capacity c, rc_test_throw_on_tick = dc_test_throw_on_tick c\<rparr>"

definition supervisor_config :: "DaemonConfig \<Rightarrow> NodeSupervisorConfig" where
  "supervisor_config c =
     \<lparr>nc_node_id = dc_node_id c, nc_heartbeat_timeout_ns = dc_heartbeat_timeout_ms c * 1000000,
      nc_max_events_per_tick = dc_max_events_per_tick c\<rparr>"

definition io_loop_config :: "DaemonConfig \<Rightarrow> CanIoConfig" where
  "io_loop_config c =
     \<lparr>cic_can_if = dc_can_if c, cic_node_id = dc_node_id c,
      cic_max_frames_per_wake = dc_max_frames_per_wake c, cic_cpu_affinity = dc_cpu_affinity c\<rparr>"

definition runtime_exit_code :: "Errc \<Rightarrow> DaemonExitCode" where
  "runtime_exit_code code =
     (if code = Errc.InvalidArgument then DaemonExitCode.ConfigError
      else if code = Errc.Rejected then DaemonExitCode.PermissionError
      else DaemonExitCode.WorkerFailure)"

definition io_exit_code :: "Errc \<Rightarrow> DaemonExitCode" where
  "io_exit_code code =
     (if code = Errc.InvalidArgument then DaemonExitCode.ConfigError
      else if code = Errc.Rejected then DaemonExitCode.PermissionError
      else DaemonExitCode.InterfaceError)"

text \<open>Both threads are stopped and joined, then every part is released.\<close>

definition rollback_started_parts :: "RuntimeDaemon \<Rightarrow> RuntimeDaemon" where
  "rollback_started_parts d =
     d\<lparr>d_io := None, d_supervisor := None, d_runtime := None, d_queue := None,
       d_stop_event := False, d_signals := False, d_started := False\<rparr>"

text \<open>
  What the system answers during start: the interface probe, the two descriptors, the
  start of the scheduler and of the I/O thread, and what the runtime will read from
  its clock and its trace lock.
\<close>

record DaemonEnv =
  de_can_available :: bool
  de_signals :: "unit Result"
  de_stop_event :: "unit Result"
  de_runtime :: StartEnv
  de_io :: IoStartEnv
  de_busy :: "bool list"
  de_clock :: "i64 Result list"

definition d_fail :: "DaemonExitCode \<Rightarrow> Error \<Rightarrow> RuntimeDaemon \<Rightarrow> RuntimeDaemon \<times> unit Result" where
  "d_fail code e d = (d\<lparr>d_exit_code := code\<rparr>, Inl e)"

text \<open>The I/O thread, once the runtime runs and has booted.\<close>

definition start_io :: "DaemonEnv \<Rightarrow> RuntimeDaemon \<Rightarrow> RuntimeDaemon \<times> unit Result" where
  "start_io env d =
     (case io_start (de_io env) (io_init (io_loop_config (d_config d))) of
        (io, Inl e) \<Rightarrow>
          (rollback_started_parts (d\<lparr>d_io := Some io, d_exit_code := io_exit_code (err_code e)\<rparr>), Inl e)
      | (io, Inr _) \<Rightarrow>
          (d\<lparr>d_io := Some io, d_stop_requested := False, d_exit_code := DaemonExitCode.Ok, d_started := True,
             d_duration_thread := (dc_duration_ms (d_config d) > 0)\<rparr>, Inr ()))"

text \<open>Queue, runtime and supervisor, then \<^verbatim>\<open>Boot\<close>.\<close>

definition start_parts :: "DaemonEnv \<Rightarrow> RuntimeDaemon \<Rightarrow> RuntimeDaemon \<times> unit Result" where
  "start_parts env d =
     (let c = d_config d;
          d = d\<lparr>d_queue := Some (bq_init (dc_event_queue_capacity c)),
                d_supervisor := Some (sv_init (supervisor_config c))\<rparr>
      in case rt_start (de_runtime env) (rt_init (runtime_config c) (de_busy env) (de_clock env)) of
           (rt, Inl e) \<Rightarrow>
             (rollback_started_parts (d\<lparr>d_runtime := Some rt, d_exit_code := runtime_exit_code (err_code e)\<rparr>), Inl e)
         | (rt, Inr _) \<Rightarrow>
             (case rt_handle RuntimeEvent.Boot rt of (rt, booted) \<Rightarrow>
                if \<not> tr_accepted booted
                then (rollback_started_parts (d\<lparr>d_runtime := Some rt, d_exit_code := DaemonExitCode.WorkerFailure\<rparr>),
                      Inl (Error Errc.Rejected ''runtime Boot failed during daemon startup''))
                else start_io env (d\<lparr>d_runtime := Some rt\<rparr>)))"

definition d_start :: "DaemonEnv \<Rightarrow> RuntimeDaemon \<Rightarrow> RuntimeDaemon \<times> unit Result" where
  "d_start env d =
     (if d_started d then (d, Inl (Error Errc.Busy ''RuntimeDaemon already started''))
      else case config_error (d_config d) of
        Some e \<Rightarrow> d_fail DaemonExitCode.ConfigError e d
      | None \<Rightarrow>
        if \<not> de_can_available env
        then d_fail DaemonExitCode.InterfaceError
               (Error Errc.NotOpen (''CAN interface missing or not ARPHRD_CAN: '' @ dc_can_if (d_config d))) d
        else case de_signals env of
          Inl e \<Rightarrow> d_fail DaemonExitCode.InterfaceError e d
        | Inr _ \<Rightarrow>
          case de_stop_event env of
            Inl e \<Rightarrow> d_fail DaemonExitCode.InterfaceError e (d\<lparr>d_signals := False\<rparr>)
          | Inr _ \<Rightarrow> start_parts env (d\<lparr>d_signals := True, d_stop_event := True\<rparr>))"

section \<open>Stop\<close>

definition d_request_stop :: "RuntimeDaemon \<Rightarrow> RuntimeDaemon" where
  "d_request_stop d = d\<lparr>d_stop_requested := True, d_io := map_option io_request_stop (d_io d)\<rparr>"

definition io_failed :: "CanIoLoop \<Rightarrow> bool" where
  "io_failed io \<longleftrightarrow> io_stop_reason io = IoStopReason.IoError \<or> io_stop_reason io = IoStopReason.SendFailure"

definition classify_stop :: "RuntimeDaemon \<Rightarrow> DaemonExitCode" where
  "classify_stop d =
     (case d_io d of
        None \<Rightarrow> d_exit_code d
      | Some io \<Rightarrow>
          if io_failed io then DaemonExitCode.WorkerFailure
          else (case d_runtime d of
                  None \<Rightarrow> DaemonExitCode.Ok
                | Some rt \<Rightarrow> if st_worker_error (sn_scheduler (rt_snapshot rt)) \<noteq> 0
                             then DaemonExitCode.WorkerFailure else DaemonExitCode.Ok))"

text \<open>\<^verbatim>\<open>stop\<close> joins the threads, stops the runtime and releases every part.\<close>

definition d_stop :: "RuntimeDaemon \<Rightarrow> RuntimeDaemon" where
  "d_stop d =
     d\<lparr>d_stop_requested := True, d_duration_thread := False, d_io := None, d_supervisor := None,
       d_runtime := None, d_queue := None, d_stop_event := False, d_signals := False, d_started := False\<rparr>"

text \<open>The condition on which the waiting loop of \<^verbatim>\<open>wait_and_stop\<close> ends, and what follows it.\<close>

definition wait_over :: "RuntimeDaemon \<Rightarrow> bool" where
  "wait_over d \<longleftrightarrow>
     (case d_io d of None \<Rightarrow> True | Some io \<Rightarrow> \<not> io_running io) \<or> d_stop_requested d \<or>
     (case d_runtime d of None \<Rightarrow> False
      | Some rt \<Rightarrow> \<not> sn_running (rt_snapshot rt) \<and> st_worker_error (sn_scheduler (rt_snapshot rt)) \<noteq> 0)"

definition d_wait_and_stop :: "RuntimeDaemon \<Rightarrow> RuntimeDaemon \<times> DaemonExitCode" where
  "d_wait_and_stop d =
     (if \<not> d_started d then (d, d_exit_code d)
      else let code = classify_stop d in (d_stop (d\<lparr>d_exit_code := code\<rparr>), code))"

section \<open>Requests\<close>

definition not_started :: TransitionResult where
  "not_started = \<lparr>tr_accepted = False, tr_from = RuntimeMode.Disabled, tr_to = RuntimeMode.Disabled,
     tr_reason = ''daemon not started''\<rparr>"

definition d_handle :: "RuntimeEvent \<Rightarrow> RuntimeDaemon \<Rightarrow> RuntimeDaemon \<times> TransitionResult" where
  "d_handle event d =
     (case d_runtime d of
        None \<Rightarrow> (d, not_started)
      | Some rt \<Rightarrow> let (rt, r) = rt_handle event rt in (d\<lparr>d_runtime := Some rt\<rparr>, r))"

definition d_boot :: "RuntimeDaemon \<Rightarrow> RuntimeDaemon \<times> TransitionResult" where
  "d_boot d =
     (case d_runtime d of
        None \<Rightarrow> (d, not_started)
      | Some rt \<Rightarrow>
          if sn_mode (rt_snapshot rt) = RuntimeMode.Idle
          then (d, \<lparr>tr_accepted = True, tr_from = RuntimeMode.Idle, tr_to = RuntimeMode.Idle,
                    tr_reason = ''daemon already booted''\<rparr>)
          else d_handle RuntimeEvent.Boot d)"

definition d_activate :: "RuntimeDaemon \<Rightarrow> RuntimeDaemon \<times> TransitionResult" where
  "d_activate = d_handle RuntimeEvent.ActivateRequest"

definition d_deactivate :: "RuntimeDaemon \<Rightarrow> RuntimeDaemon \<times> TransitionResult" where
  "d_deactivate = d_handle RuntimeEvent.DeactivateRequest"

definition d_resume :: "RuntimeDaemon \<Rightarrow> RuntimeDaemon \<times> TransitionResult" where
  "d_resume = d_handle RuntimeEvent.Resume"

definition d_clear_fault :: "RuntimeDaemon \<Rightarrow> RuntimeDaemon \<times> TransitionResult" where
  "d_clear_fault d =
     (case d_runtime d of
        None \<Rightarrow> (d, not_started)
      | Some rt \<Rightarrow>
          if rt_mode rt \<noteq> RuntimeMode.Fault then d_handle RuntimeEvent.FaultCleared d
          else if (case d_io d of None \<Rightarrow> False | Some io \<Rightarrow> io_failed io)
          then (d, refused ''I/O failure requires daemon restart'' rt)
          else case (d_supervisor d, d_queue d) of
            (Some sv, Some q) \<Rightarrow>
              (case acknowledge_fault_clear (sm_fault (rt_state_machine rt)) q sv of
                 (sv, Inl e) \<Rightarrow> (d\<lparr>d_supervisor := Some sv\<rparr>, refused (err_message e) rt)
               | (sv, Inr _) \<Rightarrow> d_handle RuntimeEvent.FaultCleared (d\<lparr>d_supervisor := Some sv\<rparr>))
          | _ \<Rightarrow> d_handle RuntimeEvent.FaultCleared d)"

definition d_publish_output_command :: "OutputCommand \<Rightarrow> RuntimeDaemon \<Rightarrow> RuntimeDaemon \<times> unit Result" where
  "d_publish_output_command command d =
     (case d_runtime d of
        None \<Rightarrow> (d, Inl (Error Errc.NotOpen ''daemon not started''))
      | Some rt \<Rightarrow> let (rt, r) = publish_output_command command rt in (d\<lparr>d_runtime := Some rt\<rparr>, r))"

section \<open>Snapshot\<close>

record DaemonSnapshot =
  ds_runtime :: "RuntimeSnapshot option"
  ds_node :: "NodeSupervisorSnapshot option"
  ds_io :: "CanIoStats option"
  ds_input_queue_capacity :: nat
  ds_input_queue_size :: nat
  ds_input_queue_push_count :: u64
  ds_input_queue_drop_count :: u64
  ds_input_queue_overflow_count :: u64
  ds_input_queue_overflow_latched :: bool
  ds_exit_code :: DaemonExitCode
  ds_started :: bool
  ds_stopping :: bool

text \<open>A part that does not exist leaves its default value, written \<open>None\<close> for the three nested structures.\<close>

definition d_snapshot :: "RuntimeDaemon \<Rightarrow> DaemonSnapshot" where
  "d_snapshot d =
     \<lparr>ds_runtime = map_option rt_snapshot (d_runtime d), ds_node = map_option sv_snapshot (d_supervisor d),
      ds_io = map_option io_stats (d_io d),
      ds_input_queue_capacity = (case d_queue d of None \<Rightarrow> 0 | Some q \<Rightarrow> bq_capacity q),
      ds_input_queue_size = (case d_queue d of None \<Rightarrow> 0 | Some q \<Rightarrow> bq_size q),
      ds_input_queue_push_count = (case d_queue d of None \<Rightarrow> 0 | Some q \<Rightarrow> bq_push_count q),
      ds_input_queue_drop_count = (case d_queue d of None \<Rightarrow> 0 | Some q \<Rightarrow> bq_drop_count q),
      ds_input_queue_overflow_count = (case d_queue d of None \<Rightarrow> 0 | Some q \<Rightarrow> bq_overflow_count q),
      ds_input_queue_overflow_latched = (case d_queue d of None \<Rightarrow> False | Some q \<Rightarrow> bq_overflow_latched q),
      ds_exit_code = d_exit_code d, ds_started = d_started d, ds_stopping = d_stop_requested d\<rparr>"

section \<open>The threads\<close>

text \<open>A turn of the periodic worker, with the supervisor as the runtime's hook.\<close>

definition d_cycle :: "CycleEnv \<Rightarrow> RuntimeDaemon \<Rightarrow> RuntimeDaemon" where
  "d_cycle env d =
     (case (d_runtime d, d_supervisor d, d_queue d) of
        (Some rt, Some sv, Some q) \<Rightarrow>
          let (rt, sv, q) = rt_cycle (Some sv_on_tick) env (rt, sv, q)
          in d\<lparr>d_runtime := Some rt, d_supervisor := Some sv, d_queue := Some q\<rparr>
      | _ \<Rightarrow> d)"

text \<open>A turn of the I/O thread, as long as it runs, with the frame it sends.\<close>

definition d_wake :: "WakeEnv \<Rightarrow> RuntimeDaemon \<Rightarrow> RuntimeDaemon \<times> CanFrame option" where
  "d_wake env d =
     (case (d_io d, d_runtime d, d_queue d) of
        (Some io, Some rt, Some q) \<Rightarrow>
          if \<not> io_running io then (d, None)
          else let ((io, rt, q), sent) = io_wake env (io, rt, q)
               in (d\<lparr>d_io := Some io, d_runtime := Some rt, d_queue := Some q\<rparr>, sent)
      | _ \<Rightarrow> (d, None))"

datatype DaemonOp = DStart DaemonEnv | DBoot | DActivate | DDeactivate | DResume | DClearFault
  | DPublish OutputCommand | DRequestStop | DStop | DWaitAndStop | DCycle CycleEnv | DWake WakeEnv

fun d_step :: "DaemonOp \<Rightarrow> RuntimeDaemon \<Rightarrow> RuntimeDaemon" where
  "d_step (DStart env) d = fst (d_start env d)"
| "d_step DBoot d = fst (d_boot d)"
| "d_step DActivate d = fst (d_activate d)"
| "d_step DDeactivate d = fst (d_deactivate d)"
| "d_step DResume d = fst (d_resume d)"
| "d_step DClearFault d = fst (d_clear_fault d)"
| "d_step (DPublish c) d = fst (d_publish_output_command c d)"
| "d_step DRequestStop d = d_request_stop d"
| "d_step DStop d = d_stop d"
| "d_step DWaitAndStop d = fst (d_wait_and_stop d)"
| "d_step (DCycle env) d = d_cycle env d"
| "d_step (DWake env) d = fst (d_wake env d)"

end
