(* ===== verification/Daemon_Proofs.thy ===== *)
theory Daemon_Proofs
  imports Daemon
begin

text \<open>
  Properties of the daemon: which parts exist when, that a failed start leaves nothing
  behind, that a frame on the bus goes back to an explicit activation, how fault recovery is
  gated and how the exit is classified.
\<close>

section \<open>The worker's turn\<close>

lemma rt_cycle_rule:
  assumes "\<And>tick p. P p \<Longrightarrow> P (fst (rt_on_tick hook tick p))"
    and "\<And>rt x ps. P (rt, x) \<Longrightarrow> P (rt\<lparr>rt_scheduler := ps\<rparr>, x)" and "P (rt, x)"
  shows "P (rt_cycle hook env (rt, x))"
proof (cases "ps_cycle env (rt_on_tick hook) (rt_scheduler rt, (rt, x))")
  case (Some r)
  obtain ps rt' x' where r: "r = (ps, rt', x')" by (cases r) auto
  have "P (rt', x')"
    using Some assms(1) [OF assms(3)] assms(3) unfolding r
    by (auto simp: ps_cycle_def Let_def split: if_splits option.splits prod.splits sum.splits; metis fst_conv)
  then show ?thesis using Some r assms by (simp add: rt_cycle_def)
qed (use assms in \<open>simp add: rt_cycle_def\<close>)

text \<open>What the tick keeps of the supervisor and the queue, and that it never opens the outputs.\<close>

lemma tick_keeps:
  assumes "bq_inv q"
  shows "sv_config (fst (snd (sv_on_tick now (rt, sv, q)))) = sv_config sv" and "bq_inv (snd (snd (sv_on_tick now (rt, sv, q))))"
proof -
  obtain rt' sv' q' where t: "sv_on_tick now (rt, sv, q) = (rt', sv', q')" by (metis prod.exhaust)
  note s = tick_shape [OF assms t]
  show "bq_inv (snd (snd (sv_on_tick now (rt, sv, q))))" using s t by simp
  obtain rt1 sv1 where b: "tick_body now (rt, sv, q) = (rt1, sv1)" by fastforce
  have "sv_config sv1 = sv_config sv" using tick_body_config [of now rt sv q] b by simp
  moreover have "sv' = snd (apply_comm_loss now (rt1, sv1))" using s(1) b by (metis snd_conv)
  ultimately show "sv_config (fst (snd (sv_on_tick now (rt, sv, q)))) = sv_config sv"
    using t comm_loss_frame by simp
qed

definition sup_inv :: "NodeSupervisorConfig \<Rightarrow> LinuxRuntime \<times> NodeSupervisor \<times> BoundedInputQueue \<Rightarrow> bool" where
  "sup_inv c = (\<lambda>(rt, sv, q). sv_config sv = c \<and> bq_inv q)"

lemma sup_inv_cycle: "sup_inv c (rt, sv, q) \<Longrightarrow> sup_inv c (rt_cycle (Some sv_on_tick) env (rt, sv, q))"
proof (rule rt_cycle_rule)
  fix tick p assume "sup_inv c p"
  then show "sup_inv c (fst (rt_on_tick (Some sv_on_tick) tick p))"
    using tick_keeps by (auto simp: sup_inv_def rt_on_tick_def Let_def split: prod.splits) (metis fst_conv snd_conv)+
qed (auto simp: sup_inv_def)

lemma cycle_stays_closed:
  "rt_mode rt \<noteq> RuntimeMode.Active \<Longrightarrow> rt_mode (fst (rt_cycle (Some sv_on_tick) env (rt, sv, q))) \<noteq> RuntimeMode.Active"
  by (rule rt_cycle_rule [where P = "\<lambda>(rt, _). rt_mode rt \<noteq> RuntimeMode.Active", simplified case_prod_beta'])
    (auto simp: rt_on_tick_def Let_def tick_inactive split_beta intro!: keep_closed.keep_tick [simplified])

section \<open>The I/O thread's turn\<close>

text \<open>A property of the runtime that reading the clock, consuming and registering a send keep.\<close>

locale pumped_property =
  fixes P :: "LinuxRuntime \<Rightarrow> bool"
  assumes clock_keeps: "P rt \<Longrightarrow> P (rt_clock_read rt)"
    and consume_keeps: "P rt \<Longrightarrow> P (fst (try_consume_output_command rt))"
    and sent_keeps: "P rt \<Longrightarrow> P (fst (note_output_command_sent s q t rt))"
begin

lemma clocks_keep: "P rt \<Longrightarrow> P ((rt_clock_read ^^ k) rt)"
  by (induction k) (auto intro: clock_keeps)

lemma send_keeps: "P rt \<Longrightarrow> P (fst (snd (pump_send sent err wire t (io, rt, q))))"
  by (cases sent) (simp_all add: pump_send_error_rt pump_send_rt sent_keeps)

lemma pending_keeps: "P rt \<Longrightarrow> P (fst (snd (fst (pump_pending sent err cmd (io, rt, q)))))"
  by (auto simp: pump_pending_def Let_def split_beta sendable_state clock_keeps intro!: send_keeps split: sum.splits)

lemma pump_keeps: "P (fst (snd st)) \<Longrightarrow> P (fst (snd (fst (pump_output sent err st))))"
  by (cases st) (auto simp: pump_output_def Let_def split_beta intro!: pending_keeps consume_keeps split: option.splits)

lemma wake_keeps:
  assumes "P rt" and "bq_inv q"
  shows "P (fst (snd (fst (io_wake env (io, rt, q)))))"
proof -
  obtain io' rt' q' where w: "wake_events env (io, rt, q) = (io', rt', q')" by (metis prod.exhaust)
  then have "P rt'" using wake_events_keeps [OF assms(2) w] clocks_keep [OF assms(1)] by auto
  then show ?thesis using assms(1) w by (auto simp: io_wake_def intro!: pump_keeps)
qed

end

interpretation pumped_inv: pumped_property rt_inv
  by unfold_locales (auto intro: rt_inv_consume rt_inv_note_sent simp: rt_inv_clock_read)

interpretation pumped_machine: pumped_property "\<lambda>rt. rt_state_machine rt = s" for s
  by unfold_locales simp_all

lemma pump_queue:
  assumes "bq_inv (snd (snd st))"
  shows "bq_inv (snd (snd (fst (pump_output sent err st))))"
    and "io_config (fst (fst (pump_output sent err st))) = io_config (fst st)"
  using assms
  by (cases st; auto simp: pump_output_def pump_pending_def pump_send_def pump_reject_def pump_io_error_def io_fail_def
      Let_def split_beta push_event_simps split: option.splits sum.splits)+

lemma wake_queue:
  assumes "bq_inv q"
  shows "bq_inv (snd (snd (fst (io_wake env (io, rt, q)))))"
    and "io_config (fst (fst (io_wake env (io, rt, q)))) = io_config io"
proof -
  obtain io' rt' q' where w: "wake_events env (io, rt, q) = (io', rt', q')" by (metis prod.exhaust)
  note k = wake_events_keeps [OF assms w] pump_queue [of "(io', rt', q')" "we_sent env" "we_errno env"]
  show "bq_inv (snd (snd (fst (io_wake env (io, rt, q)))))"
    "io_config (fst (fst (io_wake env (io, rt, q)))) = io_config io"
    using assms w k by (auto simp: io_wake_def thread_exit_def)
qed

section \<open>Which parts exist\<close>

definition no_parts :: "RuntimeDaemon \<Rightarrow> bool" where
  "no_parts d \<longleftrightarrow> d_runtime d = None \<and> d_supervisor d = None \<and> d_queue d = None \<and> d_io d = None \<and>
     \<not> d_stop_event d \<and> \<not> d_signals d"

definition all_parts :: "RuntimeDaemon \<Rightarrow> bool" where
  "all_parts d \<longleftrightarrow> config_error (d_config d) = None \<and> d_stop_event d \<and> d_signals d \<and>
     (case (d_runtime d, d_supervisor d, d_queue d, d_io d) of
        (Some rt, Some sv, Some q, Some io) \<Rightarrow>
          rt_inv rt \<and> bq_inv q \<and> sv_config sv = supervisor_config (d_config d) \<and>
          io_config io = io_loop_config (d_config d)
      | _ \<Rightarrow> False)"

definition d_inv :: "RuntimeDaemon \<Rightarrow> bool" where
  "d_inv d \<longleftrightarrow> (if d_started d then all_parts d else no_parts d)"

definition outputs_open :: "RuntimeDaemon \<Rightarrow> bool" where
  "outputs_open d \<longleftrightarrow> (case d_runtime d of None \<Rightarrow> False | Some rt \<Rightarrow> rt_mode rt = RuntimeMode.Active)"

lemma all_partsE:
  assumes "all_parts d"
  obtains rt sv q io where "d_runtime d = Some rt" "d_supervisor d = Some sv" "d_queue d = Some q" "d_io d = Some io"
    "rt_inv rt" "bq_inv q" "sv_config sv = supervisor_config (d_config d)" "io_config io = io_loop_config (d_config d)"
  using assms by (auto simp: all_parts_def split: option.splits)

text \<open>A runtime that has just started and booted.\<close>

lemma fresh_boot:
  assumes "rt_start env (rt_init c busy clock) = (rt, Inr u)"
  shows "tr_accepted (snd (rt_handle RuntimeEvent.Boot rt))"
    and "rt_mode (fst (rt_handle RuntimeEvent.Boot rt)) = RuntimeMode.Idle"
    and "rt_running (fst (rt_handle RuntimeEvent.Boot rt))"
    and "out_path (fst (rt_handle RuntimeEvent.Boot rt)) = (None, 0, None)"
    and "rt_inv (fst (rt_handle RuntimeEvent.Boot rt))"
proof -
  obtain ps where ps: "ps_start env True (ps_init (rc_scheduler c)) = (ps, Inr u)"
    and rt: "rt = (rt_init c busy clock)\<lparr>rt_scheduler := ps\<rparr>"
    using assms by (auto simp: rt_start_def rt_init_def Let_def split: if_splits prod.splits)
  have run: "ps_running ps" using ps_start_running [of env "ps_init (rc_scheduler c)" ps] ps by simp
  have sm: "rt_state_machine rt = sm_init" "out_path rt = (None, 0, None)"
    unfolding rt by (simp_all add: rt_init_def out_path_def mb_init_def)
  obtain m t where h: "handle RuntimeEvent.Boot sm_init = (m, t)" by fastforce
  then have t: "sm_mode m = RuntimeMode.Idle" "tr_accepted t" "tr_to t = RuntimeMode.Idle" "tr_from t = RuntimeMode.Disabled"
    by (auto simp: sm_defs sm_init_def)
  show "tr_accepted (snd (rt_handle RuntimeEvent.Boot rt))"
    "rt_mode (fst (rt_handle RuntimeEvent.Boot rt)) = RuntimeMode.Idle"
    "rt_running (fst (rt_handle RuntimeEvent.Boot rt))"
    "out_path (fst (rt_handle RuntimeEvent.Boot rt)) = (None, 0, None)"
    using sm h t run rt by (simp_all add: rt_handle_def Let_def)
  show "rt_inv (fst (rt_handle RuntimeEvent.Boot rt))"
    using rt_inv_handle [OF rt_inv_start [OF rt_inv_init, of env c busy clock]] assms by simp
qed

lemma io_start_Inr: "io_start env (io_init c) = (io, Inr u) \<Longrightarrow> io_running io \<and> io_config io = c"
  by (auto simp: io_start_def io_init_def thread_main_start_def maybe_set_affinity_def Let_def
      split: if_splits sum.splits prod.splits)

definition booted :: "RuntimeDaemon \<Rightarrow> bool" where
  "booted d \<longleftrightarrow> (case (d_runtime d, d_io d) of
     (Some rt, Some io) \<Rightarrow> rt_mode rt = RuntimeMode.Idle \<and> rt_running rt \<and> out_path rt = (None, 0, None) \<and> io_running io
   | _ \<Rightarrow> False)"

definition clean_failure :: "RuntimeDaemon \<Rightarrow> bool" where
  "clean_failure d \<longleftrightarrow> no_parts d \<and> \<not> d_started d \<and> d_exit_code d \<noteq> DaemonExitCode.Ok"

lemma rollback_clean: "d_exit_code d \<noteq> DaemonExitCode.Ok \<Longrightarrow> clean_failure (rollback_started_parts d)"
  by (simp add: clean_failure_def rollback_started_parts_def no_parts_def)

lemma exit_codes_not_Ok: "runtime_exit_code c \<noteq> DaemonExitCode.Ok" "io_exit_code c \<noteq> DaemonExitCode.Ok"
  by (simp_all add: runtime_exit_code_def io_exit_code_def)

lemma start_io_result:
  assumes "start_io env d = (d', r)"
  shows "case r of Inl _ \<Rightarrow> clean_failure d'
    | Inr _ \<Rightarrow> (\<exists>io. io_running io \<and> io_config io = io_loop_config (d_config d) \<and>
        d' = d\<lparr>d_io := Some io, d_stop_requested := False, d_exit_code := DaemonExitCode.Ok, d_started := True,
             d_duration_thread := (dc_duration_ms (d_config d) > 0)\<rparr>)"
proof (cases "io_start (de_io env) (io_init (io_loop_config (d_config d)))")
  case (Pair io s)
  then show ?thesis
    using assms io_start_Inr [of "de_io env" "io_loop_config (d_config d)" io]
    by (cases s) (auto simp: start_io_def rollback_clean exit_codes_not_Ok intro!: exI [of _ io])
qed

lemma start_parts_result:
  assumes "start_parts env d = (d', r)" and "config_error (d_config d) = None" and "d_stop_event d" and "d_signals d"
  shows "case r of Inl _ \<Rightarrow> clean_failure d'
    | Inr _ \<Rightarrow> d_started d' \<and> all_parts d' \<and> booted d' \<and> d_exit_code d' = DaemonExitCode.Ok"
proof (cases "rt_start (de_runtime env) (rt_init (runtime_config (d_config d)) (de_busy env) (de_clock env))")
  case (Pair rt s)
  show ?thesis
  proof (cases s)
    case (Inl e)
    then show ?thesis using assms(1) Pair by (auto simp: start_parts_def Let_def rollback_clean exit_codes_not_Ok)
  next
    case (Inr u)
    note b = fresh_boot [OF Pair [unfolded Inr]]
    obtain rt2 t where h: "rt_handle RuntimeEvent.Boot rt = (rt2, t)" by fastforce
    let ?d = "d\<lparr>d_queue := Some (bq_init (dc_event_queue_capacity (d_config d))),
      d_supervisor := Some (sv_init (supervisor_config (d_config d))), d_runtime := Some rt2\<rparr>"
    have "start_io env ?d = (d', r)" using assms(1) Pair Inr h b by (simp add: start_parts_def Let_def)
    from start_io_result [OF this] show ?thesis
      using b h assms(2-4) by (cases r) (auto simp: all_parts_def booted_def sv_init_def)
  qed
qed

lemma d_start_result:
  assumes "d_start env d = (d', r)" and "\<not> d_started d" and "no_parts d"
  shows "case r of Inl _ \<Rightarrow> clean_failure d'
    | Inr _ \<Rightarrow> d_started d' \<and> all_parts d' \<and> booted d' \<and> d_exit_code d' = DaemonExitCode.Ok"
proof (cases "config_error (d_config d) = None \<and> de_can_available env \<and> is_ok (de_signals env) \<and> is_ok (de_stop_event env)")
  case True
  then obtain u v where "de_signals env = Inr u" "de_stop_event env = Inr v"
    by (cases "de_signals env"; cases "de_stop_event env") auto
  with True assms have "start_parts env (d\<lparr>d_signals := True, d_stop_event := True\<rparr>) = (d', r)"
    by (simp add: d_start_def)
  from start_parts_result [OF this] True show ?thesis by simp
next
  case False
  then show ?thesis using assms
    by (auto simp: d_start_def d_fail_def clean_failure_def no_parts_def split: option.splits sum.splits if_splits)
qed

section \<open>Every step keeps the invariant\<close>

lemma d_inv_handle:
  assumes "d_inv d"
  shows "d_inv (fst (d_handle e d))" and "d_started (fst (d_handle e d)) = d_started d"
  using assms rt_inv_handle
  by (auto simp: d_inv_def d_handle_def all_parts_def no_parts_def split_beta split: option.splits if_splits)

lemma d_inv_sv:
  "d_inv d \<Longrightarrow> d_supervisor d = Some sv \<Longrightarrow> sv_config sv' = sv_config sv \<Longrightarrow> d_inv (d\<lparr>d_supervisor := Some sv'\<rparr>)"
  by (auto simp: d_inv_def all_parts_def no_parts_def split: option.splits if_splits)

lemma acknowledge_config: "acknowledge_fault_clear f q sv = (sv', r) \<Longrightarrow> sv_config sv' = sv_config sv"
  by (auto simp: acknowledge_fault_clear_def split: if_splits)

lemma d_inv_clear_fault: "d_inv d \<Longrightarrow> d_inv (fst (d_clear_fault d))"
  by (auto simp: d_clear_fault_def dest: acknowledge_config intro: d_inv_handle d_inv_sv
      intro!: d_inv_handle split: option.splits prod.splits sum.splits)

lemma d_inv_publish: "d_inv d \<Longrightarrow> d_inv (fst (d_publish_output_command c d))"
  using rt_inv_publish
  by (auto simp: d_inv_def d_publish_output_command_def all_parts_def no_parts_def split_beta split: option.splits if_splits)

lemma d_inv_cycle:
  assumes "d_inv d"
  shows "d_inv (d_cycle env d)"
proof (cases "d_started d")
  case True
  with assms obtain rt sv q io where p: "d_runtime d = Some rt" "d_supervisor d = Some sv" "d_queue d = Some q"
    "d_io d = Some io" "rt_inv rt" "bq_inv q" "sv_config sv = supervisor_config (d_config d)"
    "io_config io = io_loop_config (d_config d)" by (auto simp: d_inv_def elim: all_partsE)
  obtain rt' sv' q' where c: "rt_cycle (Some sv_on_tick) env (rt, sv, q) = (rt', sv', q')" by (metis prod.exhaust)
  have "rt_inv rt'" using sup.cycle_inv [OF p(5), of env "(sv, q)"] c by simp
  moreover have "sv_config sv' = sv_config sv \<and> bq_inv q'"
    using sup_inv_cycle [of "sv_config sv" rt sv q env] p(6) c by (simp add: sup_inv_def)
  ultimately show ?thesis using assms p c True by (simp add: d_cycle_def d_inv_def all_parts_def)
qed (use assms in \<open>auto simp: d_cycle_def d_inv_def no_parts_def\<close>)

lemma d_inv_wake:
  assumes "d_inv d"
  shows "d_inv (fst (d_wake env d))"
proof (cases "d_started d")
  case True
  with assms obtain rt sv q io where p: "d_runtime d = Some rt" "d_supervisor d = Some sv" "d_queue d = Some q"
    "d_io d = Some io" "rt_inv rt" "bq_inv q" "sv_config sv = supervisor_config (d_config d)"
    "io_config io = io_loop_config (d_config d)" by (auto simp: d_inv_def elim: all_partsE)
  obtain io' rt' q' f where w: "io_wake env (io, rt, q) = ((io', rt', q'), f)" by (metis prod.exhaust)
  have "rt_inv rt'" "bq_inv q'" "io_config io' = io_config io"
    using pumped_inv.wake_keeps [OF p(5,6), of env io] wake_queue [OF p(6), of env io rt] w by simp_all
  then show ?thesis using assms p w True by (simp add: d_wake_def d_inv_def all_parts_def)
qed (use assms in \<open>auto simp: d_wake_def d_inv_def no_parts_def\<close>)

lemma d_inv_start: "d_inv d \<Longrightarrow> d_inv (fst (d_start env d))"
proof (cases "d_started d")
  case False
  assume "d_inv d"
  obtain d' r where "d_start env d = (d', r)" by fastforce
  then show ?thesis using d_start_result [of env d d' r] False \<open>d_inv d\<close>
    by (cases r) (auto simp: d_inv_def clean_failure_def)
qed (simp add: d_start_def)

lemma d_inv_stop [simp]: "d_inv (d_stop d)"
  by (simp add: d_inv_def d_stop_def no_parts_def)

lemma d_inv_request_stop: "d_inv d \<Longrightarrow> d_inv (d_request_stop d)"
  by (auto simp: d_inv_def d_request_stop_def all_parts_def no_parts_def io_request_stop_def split: option.splits if_splits)

lemma d_inv_step: "d_inv d \<Longrightarrow> d_inv (d_step op d)"
  by (cases op) (auto simp: d_boot_def d_activate_def d_deactivate_def d_resume_def d_wait_and_stop_def Let_def
      intro: d_inv_start d_inv_handle d_inv_clear_fault d_inv_publish d_inv_request_stop d_inv_cycle d_inv_wake
      split: option.splits)

interpretation dm: machine d_step d_inv
  by unfold_locales (rule d_inv_step)

lemma d_inv_init: "d_inv (d_init c)"
  by (simp add: d_inv_def d_init_def no_parts_def)

section \<open>Opening the outputs\<close>

lemma open_handle:
  assumes "\<not> outputs_open d" and "outputs_open (fst (d_handle e d))"
  shows "e = RuntimeEvent.ActivateRequest \<and> (\<exists>rt. d_runtime d = Some rt \<and> rt_mode rt = RuntimeMode.Idle \<and>
     rt_running rt \<and> sm_interlock_ready (rt_state_machine rt))"
  using assms handle_activates
  by (auto simp: outputs_open_def d_handle_def split_beta split: option.splits)

lemma open_clear_fault: "\<not> outputs_open d \<Longrightarrow> \<not> outputs_open (fst (d_clear_fault d))"
proof -
  assume a: "\<not> outputs_open d"
  then have h: "\<not> outputs_open (fst (d_handle RuntimeEvent.FaultCleared d))"
    "\<not> outputs_open (fst (d_handle RuntimeEvent.FaultCleared (d\<lparr>d_supervisor := x\<rparr>)))"
    "\<not> outputs_open (d\<lparr>d_supervisor := x\<rparr>)" for x
    using open_handle [of d] open_handle [of "d\<lparr>d_supervisor := x\<rparr>"] by (auto simp: outputs_open_def)
  then show ?thesis using a
    by (auto simp: d_clear_fault_def split: option.splits prod.splits sum.splits)
qed

lemma open_cycle: "\<not> outputs_open d \<Longrightarrow> \<not> outputs_open (d_cycle env d)"
  using cycle_stays_closed
  by (auto simp: outputs_open_def d_cycle_def split_beta split: option.splits)

lemma open_wake:
  assumes "d_inv d" and "\<not> outputs_open d"
  shows "\<not> outputs_open (fst (d_wake env d))"
proof -
  have "bq_inv q \<Longrightarrow> rt_state_machine (fst (snd (fst (io_wake env (io, rt, q))))) = rt_state_machine rt" for io rt q
    by (rule pumped_machine.wake_keeps) simp_all
  then show ?thesis using assms
    by (auto simp: outputs_open_def d_wake_def d_inv_def all_parts_def no_parts_def split_beta
        split: option.splits if_splits)
qed

lemma open_start:
  assumes "d_inv d" and "\<not> outputs_open d"
  shows "\<not> outputs_open (fst (d_start env d))"
proof (cases "d_started d")
  case False
  obtain d' r where s: "d_start env d = (d', r)" by fastforce
  then show ?thesis using d_start_result [OF s] assms False
    by (cases r) (auto simp: d_inv_def clean_failure_def no_parts_def outputs_open_def booted_def split: option.splits)
qed (use assms in \<open>simp add: d_start_def\<close>)

lemma opening_step:
  assumes "d_inv d" and "\<not> outputs_open d" and "outputs_open (d_step op d)"
  shows "op = DActivate \<and> (\<exists>rt. d_runtime d = Some rt \<and> rt_mode rt = RuntimeMode.Idle \<and>
     rt_running rt \<and> sm_interlock_ready (rt_state_machine rt))"
proof (cases op)
  case DActivate
  then show ?thesis using open_handle [OF assms(2)] assms(3) by (simp add: d_activate_def)
next
  case DBoot
  then show ?thesis using open_handle [OF assms(2), of RuntimeEvent.Boot] assms(2,3)
    by (auto simp: d_boot_def split: option.splits if_splits)
next
  case DWaitAndStop
  then show ?thesis using assms(2,3)
    by (cases "d_started d") (simp_all add: d_wait_and_stop_def Let_def outputs_open_def d_stop_def)
next
  case (DPublish c)
  then show ?thesis using assms(2,3)
    by (auto simp: outputs_open_def d_publish_output_command_def split_beta split: option.splits)
qed (use assms open_handle [OF assms(2), of RuntimeEvent.DeactivateRequest] open_handle [OF assms(2), of RuntimeEvent.Resume]
      open_start open_clear_fault open_cycle open_wake
    in \<open>auto simp: d_deactivate_def d_resume_def d_stop_def d_request_stop_def outputs_open_def\<close>)

lemma d_config_step: "d_config (d_step op d) = d_config d"
proof -
  have h: "d_config (fst (d_handle e d)) = d_config d" for e d
    by (simp add: d_handle_def split_beta split: option.splits)
  show ?thesis
    by (cases op) (auto simp: h d_start_def d_fail_def start_parts_def start_io_def rollback_started_parts_def Let_def d_boot_def d_activate_def
        d_deactivate_def d_resume_def d_clear_fault_def d_publish_output_command_def d_request_stop_def d_stop_def d_wait_and_stop_def
        d_cycle_def d_wake_def split_beta split: option.splits sum.splits prod.splits)
qed

lemma d_config_run: "d_config (fold d_step ops d) = d_config d"
  by (induction ops arbitrary: d) (simp_all add: d_config_step)

section \<open>Where a command comes from\<close>

definition slot_in :: "OutputCommand set \<Rightarrow> LinuxRuntime \<Rightarrow> bool" where
  "slot_in S rt \<longleftrightarrow> (\<forall>c. mb_slot (rt_mailbox rt) = Some c \<longrightarrow> c \<in> S)"

lemma slot_in_path: "slot_in S rt \<longleftrightarrow> (\<forall>c. snd (snd (out_path rt)) = Some c \<longrightarrow> c \<in> S)"
  by (simp add: slot_in_def out_path_def)

interpretation slot_supervised: supervised_property "slot_in S" for S
proof
  fix rt c b s q r t
  assume "slot_in S rt"
  then show "slot_in S (fst (raise_fault c rt))" "slot_in S (rt_set_interlock_ready b rt)"
    "slot_in S (observe_output_status s q r t rt)"
    using supervised_path(1) [of c rt] supervised_path(2) [of b rt] by (auto simp: slot_in_path supervised_path(3))
qed

lemma out_path_note_sent [simp]: "out_path (fst (note_output_command_sent s q t rt)) = out_path rt"
  by (simp add: note_sent_state) (simp add: out_path_def)

interpretation slot_pumped: pumped_property "slot_in S" for S
proof
  fix rt s q t
  assume "slot_in S rt"
  then show "slot_in S (rt_clock_read rt)" "slot_in S (fst (note_output_command_sent s q t rt))"
    by (simp_all add: slot_in_path)
  show "slot_in S (fst (try_consume_output_command rt))"
    using path_step_consume [of rt] \<open>slot_in S rt\<close>
    by (auto simp: slot_in_def try_consume_output_command_def mb_try_consume_def mb_clear_def Let_def
        split: sum.splits option.splits)
qed

lemma slot_cycle: "slot_in S rt \<Longrightarrow> slot_in S (fst (rt_cycle (Some sv_on_tick) env (rt, x)))"
proof (rule rt_cycle_rule [where P = "\<lambda>p. slot_in S (fst p)"])
  fix tick and p :: "LinuxRuntime \<times> NodeSupervisor \<times> BoundedInputQueue" assume a: "slot_in S (fst p)"
  have "slot_in S (tick_watchdog t (tick_ack_timeout t (tick_trace tick (fst p))))" for t
    using a by (auto simp: slot_in_path tick_watchdog_def tick_ack_timeout_def tick_trace_def Let_def split: prod.splits)
  then show "slot_in S (fst (fst (rt_on_tick (Some sv_on_tick) tick p)))"
    using a by (auto simp: rt_on_tick_def split_beta Let_def slot_in_path intro!: slot_supervised.keep_tick [unfolded slot_in_path])
qed (simp_all add: slot_in_path)

definition d_holds :: "OutputCommand set \<Rightarrow> RuntimeDaemon \<Rightarrow> bool" where
  "d_holds S d \<longleftrightarrow> (\<forall>rt. d_runtime d = Some rt \<longrightarrow> slot_in S rt) \<and>
     (\<forall>io c. d_io d = Some io \<longrightarrow> io_pending_output io = Some c \<longrightarrow> c \<in> S)"

lemma pump_command_in:
  assumes "slot_in S rt" and "\<forall>c. io_pending_output io = Some c \<longrightarrow> c \<in> S" and "pump_command io rt = Some c"
  shows "c \<in> S"
proof (cases "snd (try_consume_output_command rt)")
  case (Some c')
  then have "mb_slot (rt_mailbox rt) = Some c'"
    using consume_Some [of rt "fst (try_consume_output_command rt)" c'] by (auto simp: prod_eq_iff)
  then show ?thesis using assms(1,3) Some by (simp add: slot_in_def pump_command_def)
qed (use assms(2,3) in \<open>simp add: pump_command_def\<close>)

lemma wake_pending:
  assumes "slot_in S rt" and "\<forall>c. io_pending_output io = Some c \<longrightarrow> c \<in> S" and "bq_inv q"
    and "io_pending_output (fst (fst (io_wake env (io, rt, q)))) = Some c"
  shows "c \<in> S"
proof -
  obtain io' rt' q' where w: "wake_events env (io, rt, q) = (io', rt', q')" by (metis prod.exhaust)
  note k = wake_events_keeps [OF assms(3) w]
  have s: "slot_in S rt'" using k slot_pumped.clocks_keep [OF assms(1)] by auto
  have "pump_command io' rt' = Some c \<Longrightarrow> c \<in> S"
    using pump_command_in [OF s, of io' c] assms(2) k by simp
  then show ?thesis
    using assms(2,4) w k pump_leaves_pending [of "we_sent env" "we_errno env" io' rt' q']
    by (auto simp: io_wake_def thread_exit_def split: if_splits)
qed

lemma slot_handle: "slot_in S rt \<Longrightarrow> slot_in S (fst (rt_handle e rt))"
  by (auto simp: slot_in_path rt_handle_def Let_def split: prod.splits)

lemma holds_handle: "d_holds S d \<Longrightarrow> d_holds S (fst (d_handle e d))"
  by (auto simp: d_holds_def d_handle_def slot_handle split_beta split: option.splits)

lemma holds_clear_fault: "d_holds S d \<Longrightarrow> d_holds S (fst (d_clear_fault d))"
proof -
  assume a: "d_holds S d"
  then have "d_holds S (d\<lparr>d_supervisor := x\<rparr>)" for x by (simp add: d_holds_def)
  then show ?thesis using a
    by (auto simp: d_clear_fault_def intro: holds_handle split: option.splits prod.splits sum.splits)
qed

lemma holds_publish:
  assumes "d_inv d" and "d_holds S d"
  shows "d_holds (insert c S) (fst (d_publish_output_command c d))"
proof -
  have "slot_in (insert c S) (fst (publish_output_command c rt))" if "slot_in S rt" and "rt_inv rt" for rt
    using that(1) path_step_publish [OF that(2), of c] publish_accepted [OF that(2)] publish_refused [OF that(2), of c]
    by (cases "\<exists>now. rt_now rt = Inr now \<and> publishable c now rt")
      (auto simp: slot_in_path only_rejects_def published_def out_path_def)
  then show ?thesis using assms
    by (auto simp: d_holds_def d_publish_output_command_def d_inv_def all_parts_def no_parts_def split_beta
        split: option.splits if_splits)
qed

lemma holds_start:
  assumes "d_inv d" and "d_holds S d"
  shows "d_holds S (fst (d_start env d))"
proof (cases "d_started d")
  case False
  obtain d' r where s: "d_start env d = (d', r)" by fastforce
  have n: "no_parts d" using assms(1) False by (simp add: d_inv_def)
  show ?thesis
  proof (cases r)
    case (Inr u)
    then have "booted d'" using d_start_result [OF s False n] by simp
    moreover have "io_pending_output io = None" if "d_io d' = Some io" for io
      using s Inr that n by (auto simp: d_start_def d_fail_def start_parts_def start_io_def Let_def io_start_def io_init_def
          thread_main_start_def maybe_set_affinity_def rollback_started_parts_def
          split: if_splits option.splits sum.splits prod.splits)
    ultimately show ?thesis using s by (auto simp: d_holds_def booted_def slot_in_path split: option.splits)
  qed (use d_start_result [OF s False n] s in \<open>auto simp: d_holds_def clean_failure_def no_parts_def\<close>)
qed (use assms in \<open>simp add: d_start_def\<close>)

lemma holds_mono: "d_holds S d \<Longrightarrow> S \<subseteq> T \<Longrightarrow> d_holds T d"
  by (auto simp: d_holds_def slot_in_def)

lemma holds_cycle: "d_holds S d \<Longrightarrow> d_holds S (d_cycle env d)"
  using slot_cycle by (auto simp: d_holds_def d_cycle_def split_beta split: option.splits)

lemma holds_wake:
  assumes "d_inv d" and "d_holds S d"
  shows "d_holds S (fst (d_wake env d))"
  using assms slot_pumped.wake_keeps wake_pending
  by (auto simp: d_holds_def d_wake_def d_inv_def all_parts_def no_parts_def split_beta split: option.splits if_splits)

lemma holds_stop: "d_holds S (d_stop d)"
  by (simp add: d_holds_def d_stop_def)

lemma holds_step:
  assumes "d_inv d" and "d_holds S d"
  shows "d_holds (S \<union> {c. op = DPublish c}) (d_step op d)"
proof (cases op)
  case (DPublish c)
  then show ?thesis using holds_publish [OF assms, of c] by simp
next
  case DRequestStop
  then show ?thesis using assms(2) by (auto simp: d_holds_def d_request_stop_def io_request_stop_def)
next
  case DBoot
  then show ?thesis using assms(2) holds_handle [OF assms(2)] by (auto simp: d_boot_def split: option.splits)
next
  case DWaitAndStop
  then show ?thesis using assms(2) by (auto simp: d_wait_and_stop_def Let_def holds_stop)
qed (simp_all add: d_activate_def d_deactivate_def d_resume_def holds_start [OF assms] holds_handle [OF assms(2)]
    holds_clear_fault [OF assms(2)] holds_cycle [OF assms(2)] holds_wake [OF assms] holds_stop)

lemma holds_run:
  "d_inv d \<Longrightarrow> d_holds S d \<Longrightarrow> d_holds (S \<union> {c. DPublish c \<in> set ops}) (fold d_step ops d)"
proof (induction ops arbitrary: d S)
  case (Cons op ops)
  have "d_holds (S \<union> {c. op = DPublish c} \<union> {c. DPublish c \<in> set ops}) (fold d_step ops (d_step op d))"
    using Cons.prems by (intro Cons.IH d_inv_step holds_step)
  moreover have "S \<union> {c. op = DPublish c} \<union> {c. DPublish c \<in> set ops} = S \<union> {c. DPublish c \<in> set (op # ops)}" by auto
  ultimately show ?case by simp
qed simp

text \<open>A frame of a turn of the I/O thread, seen from the daemon.\<close>

lemma wake_frame:
  assumes "d_inv d" and "snd (d_wake env d) = Some f"
  obtains rt io rt' io' q cmd now wire where "d_runtime d = Some rt" and "d_io d = Some io"
    and "rt_state_machine rt' = rt_state_machine rt" and "can_accept_output (rt_state_machine rt')"
    and "pump_command io' rt' = Some cmd" and "slot_in S rt \<Longrightarrow> slot_in S rt'"
    and "io_pending_output io' = io_pending_output io"
    and "to_wire_command cmd (dc_node_id (d_config d)) now = Inr wire" and "encode_output_command wire = Inr f"
proof -
  obtain io rt q where p: "d_io d = Some io" "d_runtime d = Some rt" "d_queue d = Some q"
    and w: "snd (io_wake env (io, rt, q)) = Some f"
    using assms(2) by (auto simp: d_wake_def split_beta split: option.splits if_splits)
  have inv: "bq_inv q" "io_config io = io_loop_config (d_config d)"
    using assms(1) p by (auto simp: d_inv_def all_parts_def no_parts_def split: option.splits if_splits)
  obtain io' rt' q' where e: "wake_events env (io, rt, q) = (io', rt', q')" by (metis prod.exhaust)
  note k = wake_events_keeps [OF inv(1) e]
  have "snd (pump_output (we_sent env) (we_errno env) (io', rt', q')) = Some f"
    using w e by (auto simp: io_wake_def split: if_splits)
  then obtain st where st: "pump_output (we_sent env) (we_errno env) (io', rt', q') = (st, Some f)"
    by (metis prod.collapse)
  then obtain cmd now wire io1 where f: "pump_command io' rt' = Some cmd"
    "snd (output_command_sendable cmd (pump_rt rt'))" "rt_now (rt_clock_read (pump_rt rt')) = Inr now"
    "to_wire_command cmd (cic_node_id (io_config io')) now = Inr wire" "encode_output_command wire = Inr f"
    "st = pump_send (we_sent env) (we_errno env) wire now (io1, rt_clock_read (rt_clock_read (pump_rt rt')), q')"
    by (rule pump_frame)
  have m: "rt_state_machine rt' = rt_state_machine rt"
    using k pumped_machine.clocks_keep [of rt "rt_state_machine rt"] by auto
  have "can_accept_output (rt_state_machine rt')" using f(2) by (simp add: sendable_conditions consume_frame)
  moreover have "slot_in S rt \<Longrightarrow> slot_in S rt'" using k slot_pumped.clocks_keep by auto
  ultimately show thesis
    using that [OF p(2,1) m _ f(1) _ _ _ f(5)] k f(4) inv(2) by (simp add: io_loop_config_def)
qed

section \<open>Properties\<close>

text \<open>
  C17. Start is all or nothing. A successful start of a stopped daemon has every part,
  with the runtime running in IDLE and a closed, unbound output path, and the exit
  code \<^verbatim>\<open>OK\<close>; a failed one, at whatever step, leaves no part and no descriptor behind and an
  exit code that is not \<^verbatim>\<open>OK\<close>. An invalid configuration is refused before anything is opened.
\<close>

theorem start_all_or_nothing:
  assumes "\<not> d_started d" and "no_parts d" and "d_start env d = (d', r)"
  shows "(case r of Inl _ \<Rightarrow> clean_failure d'
      | Inr _ \<Rightarrow> d_started d' \<and> all_parts d' \<and> booted d' \<and> d_exit_code d' = DaemonExitCode.Ok) \<and>
    (\<forall>e. config_error (d_config d) = Some e \<longrightarrow> r = Inl e \<and> d' = d\<lparr>d_exit_code := DaemonExitCode.ConfigError\<rparr>)"
  using d_start_result [OF assms(3,1,2)] assms(1,3) by (auto simp: d_start_def d_fail_def)


text \<open>
  C6. Every frame was asked for. A frame the daemon sends encodes a command that the
  application published to this daemon: its session, its folded sequence, its mask and values,
  addressed to the configured node.
\<close>

theorem frame_was_published:
  assumes "snd (d_wake env (fold d_step ops (d_init config))) = Some f"
  shows "\<exists>c wire. DPublish c \<in> set ops \<and> decode f = Inr (DOutputCommand wire) \<and>
     wc_node_id wire = dc_node_id config \<and>
     uint (wc_session_id wire) = uint (oc_session_id c) \<and>
     wc_sequence wire = wire_sequence (oc_sequence c) \<and> wc_mask wire = ucast (oc_mask c) \<and>
     wc_values wire = ucast (oc_values c)"
proof -
  let ?d = "fold d_step ops (d_init config)" and ?S = "{c. DPublish c \<in> set ops}"
  have i: "d_inv ?d" by (rule dm.run_inv) (rule d_inv_init)
  have h: "d_holds ?S ?d"
    using holds_run [OF d_inv_init, of "{}" config ops] by (simp add: d_holds_def d_init_def)
  show ?thesis
  proof (rule wake_frame [OF i assms])
    fix rt io rt' io' q cmd now wire
    assume a: "d_runtime ?d = Some rt" "d_io ?d = Some io" "pump_command io' rt' = Some cmd"
      "slot_in ?S rt \<Longrightarrow> slot_in ?S rt'" "io_pending_output io' = io_pending_output io"
      "to_wire_command cmd (dc_node_id (d_config ?d)) now = Inr wire" "encode_output_command wire = Inr f"
    have "cmd \<in> ?S" using h a by (intro pump_command_in [OF _ _ a(3)]) (auto simp: d_holds_def)
    moreover have "decode f = Inr (DOutputCommand wire)"
      using decode_encode_output_command [OF a(7)] by (simp add: decode_Inr)
    ultimately show ?thesis using to_wire_fields [OF a(6)]
      by (intro exI [of _ cmd] exI [of _ wire]) (simp add: d_config_run d_init_def)
  qed
qed

text \<open>
  C18. Recovery from a fault. In FAULT the daemon accepts a clear exactly when the I/O thread has
  not failed, no event was lost, the heartbeat is back, a node that was ever
  seen is online and the node reports no fault; it then goes to IDLE with a closed output path,
  never to ACTIVE. A refused clear changes nothing.
\<close>

theorem recovery_gate:
  assumes "d_runtime d = Some rt" and "d_supervisor d = Some sv" and "d_queue d = Some q" and "d_io d = Some io"
    and "rt_inv rt" and "rt_mode rt = RuntimeMode.Fault" and "d_clear_fault d = (d', r)"
  shows "(tr_accepted r \<longleftrightarrow> \<not> io_failed io \<and> \<not> sv_overflow_fault_latched sv \<and> \<not> bq_overflow_latched q \<and>
            \<not> sv_comm_loss_latched sv \<and> sv_node_fault_code sv = 0 \<and>
            (sv_ever_seen sv \<or> sv_status_updates sv \<noteq> 0 \<or> sv_restart_latched sv \<longrightarrow> sv_online sv)) \<and>
         (if tr_accepted r
          then \<exists>rt'. d_runtime d' = Some rt' \<and> rt_mode rt' = RuntimeMode.Idle \<and> out_path rt' = (None, 0, None)
          else d' = d)"
proof -
  obtain m t where h: "handle RuntimeEvent.FaultCleared (rt_state_machine rt) = (m, t)" by fastforce
  then have t: "sm_mode m = RuntimeMode.Idle" "tr_accepted t" "tr_to t = RuntimeMode.Idle" "tr_from t = RuntimeMode.Fault"
    using assms(6) by (auto simp: sm_defs)
  have path: "out_path rt = (None, 0, None)" using assms(5,6) by (auto simp: rt_inv_def out_inv_def out_path_def split: option.splits)
  have c: "tr_accepted (snd (rt_handle RuntimeEvent.FaultCleared rt))"
    "rt_mode (fst (rt_handle RuntimeEvent.FaultCleared rt)) = RuntimeMode.Idle"
    "out_path (fst (rt_handle RuntimeEvent.FaultCleared rt)) = (None, 0, None)"
    using h t path by (simp_all add: rt_handle_def Let_def)
  have same: "d\<lparr>d_supervisor := Some sv\<rparr> = d" using assms(2) by simp
  show ?thesis
    using assms(1-4,6,7) c same
    by (auto simp: d_clear_fault_def acknowledge_fault_clear_def d_handle_def refused_def split_beta split: if_splits)
qed

text \<open>
  The exit code tells a failed worker. After \<^verbatim>\<open>wait_and_stop\<close> every part is released; the code it returns
  and stores is \<^verbatim>\<open>OK\<close> exactly when neither the I/O thread nor the periodic worker failed and
  \<^verbatim>\<open>WORKER_FAILURE\<close> otherwise; a worker that died ends the wait even while the I/O thread runs.
\<close>

theorem exit_classification:
  assumes "d_inv d" and "d_started d" and "d_runtime d = Some rt" and "d_io d = Some io"
    and "d_wait_and_stop d = (d', code)"
  shows "no_parts d' \<and> \<not> d_started d' \<and> d_exit_code d' = code \<and>
     code = (if io_failed io \<or> ps_worker_error (rt_scheduler rt) \<noteq> 0
             then DaemonExitCode.WorkerFailure else DaemonExitCode.Ok) \<and>
     (\<not> rt_running rt \<and> ps_worker_error (rt_scheduler rt) \<noteq> 0 \<longrightarrow> wait_over d)"
  using assms
  by (auto simp: d_wait_and_stop_def Let_def d_stop_def no_parts_def classify_stop_def wait_over_def
      rt_snapshot_def ps_stats_def)

section \<open>A concrete daemon\<close>

definition demo_daemon_config :: DaemonConfig where
  "demo_daemon_config =
     \<lparr>dc_can_if = ''vcan0'', dc_node_id = 5, dc_period_ms = 10, dc_command_timeout_ms = 100,
      dc_output_ack_timeout_ms = 100, dc_heartbeat_timeout_ms = 300, dc_fifo_priority = 0,
      dc_require_fifo = False, dc_cpu_affinity = -1, dc_duration_ms = 0, dc_event_queue_capacity = 4,
      dc_max_events_per_tick = 4, dc_max_frames_per_wake = 4, dc_trace_capacity = 2, dc_test_throw_on_tick = False\<rparr>"

definition demo_env :: "bool \<Rightarrow> DaemonEnv" where
  "demo_env io_ok =
     \<lparr>de_can_available = True, de_signals = Inr (), de_stop_event = Inr (), de_runtime = demo_start,
      de_io = \<lparr>ise_setup = Inr (), ise_thread_ok = io_ok, ise_affinity_rc = 0, ise_handshake = True, ise_strerror = (\<lambda>_. [])\<rparr>,
      de_busy = [], de_clock = map (\<lambda>k. Inr (2000 + k)) [0, 1, 2, 3, 4, 5, 6, 7, 8, 9, 10, 11, 12]\<rparr>"

text \<open>A heartbeat and a status with the interlock ready.\<close>

definition demo_rx :: WakeEnv where
  "demo_rx = (demo_wake False)\<lparr>we_rx :=
     [encode_heartbeat \<lparr>hb_node_id = 5, hb_boot_id = 1, hb_session_id = 9, hb_hb_seq = 1\<rparr>,
      encode_node_status \<lparr>ns_node_id = 5, ns_interlock_ready = True, ns_session_id = 9, ns_input_bits = 0,
        ns_fault_code = 0\<rparr>]\<rparr>"

definition demo_open_ops :: "DaemonOp list" where
  "demo_open_ops = [DStart (demo_env True), DWake demo_rx, DCycle (demo_cycle 10001000), DActivate,
     DPublish (demo_command 1 900000000)]"

definition demo_daemon :: RuntimeDaemon where
  "demo_daemon = fold d_step demo_open_ops (d_init demo_daemon_config)"

lemma demo_daemon_sends: "snd (d_wake (demo_wake False) demo_daemon) \<noteq> None"
  unfolding demo_daemon_def by code_simp

theorem start_all_or_nothing_witness:
  "clean_failure (fst (d_start (demo_env False) (d_init demo_daemon_config))) \<and>
   booted (fst (d_start (demo_env True) (d_init demo_daemon_config)))"
proof -
  have s: "\<not> d_started (d_init demo_daemon_config)" "no_parts (d_init demo_daemon_config)"
    by (simp_all add: d_init_def no_parts_def)
  have "\<not> is_ok (snd (d_start (demo_env False) (d_init demo_daemon_config)))"
    "is_ok (snd (d_start (demo_env True) (d_init demo_daemon_config)))" by code_simp+
  then show ?thesis
    using start_all_or_nothing [OF s, of "demo_env False", OF prod.collapse [symmetric]]
      start_all_or_nothing [OF s, of "demo_env True", OF prod.collapse [symmetric]]
    by (auto split: sum.splits)
qed


theorem frame_was_published_witness:
  "\<exists>f wire. snd (d_wake (demo_wake False) demo_daemon) = Some f \<and> decode f = Inr (DOutputCommand wire) \<and>
     wc_node_id wire = 5 \<and> uint (wc_session_id wire) = 9 \<and> wc_mask wire = 1 \<and> wc_values wire = 1"
proof -
  obtain f where f: "snd (d_wake (demo_wake False) demo_daemon) = Some f" using demo_daemon_sends by blast
  then obtain c wire where c: "DPublish c \<in> set demo_open_ops" "decode f = Inr (DOutputCommand wire)"
    "wc_node_id wire = dc_node_id demo_daemon_config" "uint (wc_session_id wire) = uint (oc_session_id c)"
    "wc_mask wire = ucast (oc_mask c)" "wc_values wire = ucast (oc_values c)"
    using frame_was_published unfolding demo_daemon_def by blast
  have "c = demo_command 1 900000000" using c(1) by (auto simp: demo_open_ops_def)
  then show ?thesis using f c by (auto simp: demo_command_def demo_daemon_config_def)
qed

definition demo_faulted :: RuntimeDaemon where
  "demo_faulted = demo_daemon\<lparr>d_runtime := map_option (\<lambda>rt. fst (raise_fault FaultCode.NodeFault rt)) (d_runtime demo_daemon)\<rparr>"

theorem recovery_gate_witness:
  "tr_accepted (snd (d_clear_fault demo_faulted)) \<and>
   map_option rt_mode (d_runtime (fst (d_clear_fault demo_faulted))) = Some RuntimeMode.Idle"
proof -
  have "d_inv demo_daemon" unfolding demo_daemon_def by (rule dm.run_inv) (rule d_inv_init)
  moreover have "d_started demo_daemon" unfolding demo_daemon_def by code_simp
  ultimately obtain rt sv q io where p: "d_runtime demo_daemon = Some rt" "d_supervisor demo_daemon = Some sv"
    "d_queue demo_daemon = Some q" "d_io demo_daemon = Some io" "rt_inv rt" by (auto simp: d_inv_def elim: all_partsE)
  define rt' where "rt' = fst (raise_fault FaultCode.NodeFault rt)"
  have f: "d_runtime demo_faulted = Some rt'" "d_supervisor demo_faulted = Some sv" "d_queue demo_faulted = Some q"
    "d_io demo_faulted = Some io" "rt_inv rt'"
    using p by (simp_all add: demo_faulted_def rt'_def rt_inv_raise_fault)
  have "map_option rt_mode (d_runtime demo_faulted) = Some RuntimeMode.Fault"
    and a: "tr_accepted (snd (d_clear_fault demo_faulted))"
    unfolding demo_faulted_def demo_daemon_def by code_simp+
  then have m: "rt_mode rt' = RuntimeMode.Fault" using f by simp
  from recovery_gate [OF f m prod.collapse [symmetric]] a show ?thesis by auto
qed

theorem exit_classification_witness:
  "snd (d_wait_and_stop demo_daemon) = DaemonExitCode.Ok"
proof -
  have i: "d_inv demo_daemon" unfolding demo_daemon_def by (rule dm.run_inv) (rule d_inv_init)
  have s: "d_started demo_daemon" and e: "map_option io_failed (d_io demo_daemon) = Some False"
    "map_option (\<lambda>rt. ps_worker_error (rt_scheduler rt)) (d_runtime demo_daemon) = Some 0"
    unfolding demo_daemon_def by code_simp+
  obtain rt io where p: "d_runtime demo_daemon = Some rt" "d_io demo_daemon = Some io" using e by auto
  show ?thesis using exit_classification [OF i s p prod.collapse [symmetric]] e p by simp
qed

end
