(* ===== verification/Mcu_Can.thy ===== *)
theory Mcu_Can
  imports Can_V1
begin

text \<open>
  The firmware's CAN V1 codec (\<^verbatim>\<open>firmware/stm32f103/include/rcr_mcu/can_v1.h\<close>,
  \<^verbatim>\<open>firmware/stm32f103/src/can_v1.c\<close>). It is written independently of the codec of the Linux side;
  the theorem at the end shows that the two agree frame by frame. The message structures have the
  fields of the Linux ones and are the same records here; a pointer that may be \<^verbatim>\<open>NULL\<close> is
  not modelled, an output parameter is the result of a successful call.
\<close>

unbundle bit_operations_syntax

section \<open>Frames and helpers\<close>

record rcr_can_frame_t =
  mf_can_id :: u32
  mf_dlc :: u8
  mf_data :: "u8 list"
  mf_extended :: bool
  mf_rtr :: bool
  mf_receive_ms :: u32

type_synonym rcr_can_v1_heartbeat_t = WireHeartbeat
type_synonym rcr_can_v1_node_status_t = WireNodeStatus
type_synonym rcr_can_v1_output_command_t = WireOutputCommand
type_synonym rcr_can_v1_output_status_t = WireOutputStatus

definition RCR_CAN_V1_PROTOCOL_VERSION :: u8 where "RCR_CAN_V1_PROTOCOL_VERSION = 1"
definition RCR_CAN_V1_NODE_ID :: u8 where "RCR_CAN_V1_NODE_ID = 1"
definition RCR_CAN_V1_DLC :: u8 where "RCR_CAN_V1_DLC = 8"
definition RCR_CAN_V1_INPUT_BIT_POSITION_REACHED :: u16 where "RCR_CAN_V1_INPUT_BIT_POSITION_REACHED = 1"
definition RCR_CAN_V1_FN_HEARTBEAT :: u8 where "RCR_CAN_V1_FN_HEARTBEAT = 1"
definition RCR_CAN_V1_FN_STATUS :: u8 where "RCR_CAN_V1_FN_STATUS = 2"
definition RCR_CAN_V1_FN_OUTPUT_COMMAND :: u8 where "RCR_CAN_V1_FN_OUTPUT_COMMAND = 3"
definition RCR_CAN_V1_FN_OUTPUT_STATUS :: u8 where "RCR_CAN_V1_FN_OUTPUT_STATUS = 4"

definition put_u16_be :: "u8 list \<Rightarrow> nat \<Rightarrow> u16 \<Rightarrow> u8 list" where
  "put_u16_be d i value = d[i := ucast (drop_bit 8 value), Suc i := ucast (value AND 0x00FF)]"

definition get_u16_be :: "u8 list \<Rightarrow> nat \<Rightarrow> u16" where
  "get_u16_be d i = push_bit 8 (ucast (d ! i)) OR ucast (d ! Suc i)"

definition clear_frame :: "u16 \<Rightarrow> rcr_can_frame_t" where
  "clear_frame id_value =
     \<lparr>mf_can_id = ucast id_value, mf_dlc = RCR_CAN_V1_DLC, mf_data = replicate 8 0, mf_extended = False,
      mf_rtr = False, mf_receive_ms = 0\<rparr>"

definition rcr_can_v1_make_id :: "u8 \<Rightarrow> u8 \<Rightarrow> u16" where
  "rcr_can_v1_make_id function node_id = push_bit 5 (ucast function) OR (ucast node_id AND 0x001F)"

definition rcr_can_v1_sequence_newer :: "u16 \<Rightarrow> u16 \<Rightarrow> bool" where
  "rcr_can_v1_sequence_newer candidate previous \<longleftrightarrow>
     (let delta = candidate - previous in candidate \<noteq> previous \<and> delta < 0x8000)"

section \<open>Encoders and the decoder\<close>

definition rcr_can_v1_encode_heartbeat :: "rcr_can_v1_heartbeat_t \<Rightarrow> rcr_can_frame_t option" where
  "rcr_can_v1_encode_heartbeat msg =
     (if hb_node_id msg = 0 \<or> hb_node_id msg > 31 \<or> hb_boot_id msg = 0 \<or> hb_session_id msg = 0 then None
      else let frame = clear_frame (rcr_can_v1_make_id RCR_CAN_V1_FN_HEARTBEAT (hb_node_id msg));
               d = (mf_data frame)[0 := RCR_CAN_V1_PROTOCOL_VERSION];
               d = put_u16_be d 2 (hb_boot_id msg);
               d = put_u16_be d 4 (hb_session_id msg);
               d = put_u16_be d 6 (hb_hb_seq msg)
           in Some (frame\<lparr>mf_data := d\<rparr>))"

definition rcr_can_v1_encode_node_status :: "rcr_can_v1_node_status_t \<Rightarrow> rcr_can_frame_t option" where
  "rcr_can_v1_encode_node_status msg =
     (if ns_node_id msg = 0 \<or> ns_node_id msg > 31 \<or> ns_session_id msg = 0 then None
      else let frame = clear_frame (rcr_can_v1_make_id RCR_CAN_V1_FN_STATUS (ns_node_id msg));
               d = (mf_data frame)[0 := RCR_CAN_V1_PROTOCOL_VERSION];
               d = d[1 := (if ns_interlock_ready msg then 1 else 0)];
               d = put_u16_be d 2 (ns_session_id msg);
               d = put_u16_be d 4 (ns_input_bits msg);
               d = put_u16_be d 6 (ns_fault_code msg)
           in Some (frame\<lparr>mf_data := d\<rparr>))"

definition rcr_can_v1_decode_output_command ::
  "rcr_can_frame_t \<Rightarrow> u8 \<Rightarrow> rcr_can_v1_output_command_t option" where
  "rcr_can_v1_decode_output_command frame expected_node_id =
     (if expected_node_id = 0 \<or> expected_node_id > 31 \<or> mf_extended frame \<or> mf_rtr frame \<or>
         mf_dlc frame \<noteq> RCR_CAN_V1_DLC \<or>
         mf_can_id frame \<noteq> ucast (rcr_can_v1_make_id RCR_CAN_V1_FN_OUTPUT_COMMAND expected_node_id) \<or>
         mf_data frame ! 0 \<noteq> RCR_CAN_V1_PROTOCOL_VERSION \<or> mf_data frame ! 1 = 0
      then None
      else let session_id = get_u16_be (mf_data frame) 2;
               sequence = get_u16_be (mf_data frame) 4;
               validity_10ms = mf_data frame ! 7 in
        if session_id = 0 \<or> sequence = 0 \<or> validity_10ms = 0 \<or> validity_10ms > 250 then None
        else Some \<lparr>wc_node_id = expected_node_id, wc_mask = mf_data frame ! 1, wc_session_id = session_id,
                   wc_sequence = sequence, wc_values = mf_data frame ! 6, wc_validity_10ms = validity_10ms\<rparr>)"

definition rcr_can_v1_encode_output_status :: "rcr_can_v1_output_status_t \<Rightarrow> rcr_can_frame_t option" where
  "rcr_can_v1_encode_output_status msg =
     (if ws_node_id msg = 0 \<or> ws_node_id msg > 31 \<or> ws_session_id msg = 0 \<or>
         OutputResult_code (ws_result msg) > OutputResult_code NotReady then None
      else let frame = clear_frame (rcr_can_v1_make_id RCR_CAN_V1_FN_OUTPUT_STATUS (ws_node_id msg));
               d = (mf_data frame)[0 := RCR_CAN_V1_PROTOCOL_VERSION];
               d = d[1 := OutputResult_code (ws_result msg)];
               d = put_u16_be d 2 (ws_session_id msg);
               d = put_u16_be d 4 (ws_sequence msg);
               d = d[6 := ws_output_mirror msg]
           in Some (frame\<lparr>mf_data := d\<rparr>))"

section \<open>Agreement with the Linux codec\<close>

text \<open>A firmware frame as the other end of the bus receives it.\<close>

definition bus_frame :: "rcr_can_frame_t \<Rightarrow> CanFrame" where
  "bus_frame f = \<lparr>can_id = mf_can_id f OR (if mf_extended f then kCanEffFlag else 0) OR (if mf_rtr f then kCanRtrFlag else 0),
     can_len = mf_dlc f, can_data = mf_data f\<rparr>"

lemma put_u16_be_eq: "put_u16_be d i v = write_u16_be d i v"
proof -
  have "(ucast (drop_bit 8 v) :: u8) = ucast (drop_bit 8 v AND 0xFF)"
    unfolding low_byte_mask by (auto simp: bit_eq_iff bit_simps)
  then show ?thesis by (simp add: put_u16_be_def write_u16_be_def)
qed

lemma get_u16_be_eq: "get_u16_be d i = read_u16_be d i"
  by (simp add: get_u16_be_def read_u16_be_def)

lemma make_id_ucast:
  "(ucast (rcr_can_v1_make_id f n) :: u32) = push_bit 5 (ucast f) OR (ucast n AND 0x1F)"
  unfolding rcr_can_v1_make_id_def low_masks
  by (rule bit_word_eqI) (auto simp: bit_simps dest: bit_imp_le_length)

lemma make_id_eq:
  "ucast (rcr_can_v1_make_id RCR_CAN_V1_FN_HEARTBEAT n) = make_can_id Function.Heartbeat n"
  "ucast (rcr_can_v1_make_id RCR_CAN_V1_FN_STATUS n) = make_can_id Function.Status n"
  "ucast (rcr_can_v1_make_id RCR_CAN_V1_FN_OUTPUT_COMMAND n) = make_can_id Function.OutputCommand n"
  "ucast (rcr_can_v1_make_id RCR_CAN_V1_FN_OUTPUT_STATUS n) = make_can_id Function.OutputStatus n"
  by (simp_all add: make_id_ucast make_can_id_def RCR_CAN_V1_FN_HEARTBEAT_def RCR_CAN_V1_FN_STATUS_def
    RCR_CAN_V1_FN_OUTPUT_COMMAND_def RCR_CAN_V1_FN_OUTPUT_STATUS_def)

lemma sequence_newer_eq: "rcr_can_v1_sequence_newer a b \<longleftrightarrow> seq_newer a b"
  unfolding rcr_can_v1_sequence_newer_def seq_newer_unat Let_def
  by (auto simp: word_less_nat_alt Suc_le_eq unat_gt_0)

lemmas mcu_codec_simps = put_u16_be_eq get_u16_be_eq make_id_eq clear_frame_def bus_frame_def RCR_CAN_V1_DLC_def
  RCR_CAN_V1_PROTOCOL_VERSION_def make_frame_def validate_node_id_def kProtocolVersion_def kMaxNodeId_def Let_def

text \<open>What an encoder of the Linux side puts on the bus, if anything.\<close>

definition sent :: "CanFrame Result \<Rightarrow> CanFrame option" where
  "sent r = (case r of Inl _ \<Rightarrow> None | Inr f \<Rightarrow> Some f)"

lemma encode_heartbeat_eq: "map_option bus_frame (rcr_can_v1_encode_heartbeat m) = sent (encode_heartbeat m)"
  by (simp add: rcr_can_v1_encode_heartbeat_def encode_heartbeat_def sent_def mcu_codec_simps)

lemma encode_node_status_eq: "map_option bus_frame (rcr_can_v1_encode_node_status m) = sent (encode_node_status m)"
  by (simp add: rcr_can_v1_encode_node_status_def encode_node_status_def sent_def mcu_codec_simps)

lemma encode_output_status_eq:
  "map_option bus_frame (rcr_can_v1_encode_output_status m) = sent (encode_output_status m)"
  by (simp add: rcr_can_v1_encode_output_status_def encode_output_status_def sent_def mcu_codec_simps)

text \<open>
  A frame as the bxCAN peripheral delivers it: eight data bytes, and an identifier of eleven bits
  unless the frame is an extended one.
\<close>

definition mcu_frame_wf :: "rcr_can_frame_t \<Rightarrow> bool" where
  "mcu_frame_wf f \<longleftrightarrow> length (mf_data f) = 8 \<and> (mf_extended f \<or> mf_can_id f AND kCanSffMask = mf_can_id f)"

lemma bus_frame_flags:
  assumes "mcu_frame_wf f"
  shows "can_id (bus_frame f) AND kCanEffFlag = 0 \<longleftrightarrow> \<not> mf_extended f"
    and "\<not> mf_extended f \<Longrightarrow> can_id (bus_frame f) AND kCanRtrFlag = 0 \<longleftrightarrow> \<not> mf_rtr f"
    and "\<not> mf_extended f \<Longrightarrow> can_id (bus_frame f) AND kCanSffMask = mf_can_id f"
proof -
  have z: "kCanSffMask AND kCanEffFlag = 0" "kCanSffMask AND kCanRtrFlag = 0" "kCanRtrFlag AND kCanEffFlag = 0"
    "kCanRtrFlag AND kCanSffMask = 0" "kCanEffFlag \<noteq> 0" "kCanRtrFlag \<noteq> 0"
    by (simp_all add: kCanSffMask_def kCanEffFlag_def kCanRtrFlag_def)
  have i: "\<not> mf_extended f \<Longrightarrow> mf_can_id f AND k = mf_can_id f AND (kCanSffMask AND k)" for k
    using assms unfolding mcu_frame_wf_def by (metis and.assoc)
  show "can_id (bus_frame f) AND kCanEffFlag = 0 \<longleftrightarrow> \<not> mf_extended f"
    using z i [of kCanEffFlag] by (auto simp: bus_frame_def bit.conj_disj_distrib2 or_eq_0_iff)
  show "\<not> mf_extended f \<Longrightarrow> can_id (bus_frame f) AND kCanRtrFlag = 0 \<longleftrightarrow> \<not> mf_rtr f"
    using z i [of kCanRtrFlag] by (auto simp: bus_frame_def bit.conj_disj_distrib2 or_eq_0_iff)
  show "\<not> mf_extended f \<Longrightarrow> can_id (bus_frame f) AND kCanSffMask = mf_can_id f"
    using z assms by (auto simp: bus_frame_def bit.conj_disj_distrib2 mcu_frame_wf_def)
qed

definition for_node :: "u8 \<Rightarrow> WireOutputCommand Result \<Rightarrow> WireOutputCommand option" where
  "for_node n r = (case r of Inl _ \<Rightarrow> None | Inr m \<Rightarrow> if wc_node_id m = n then Some m else None)"

lemma frame_layer_for_node:
  assumes "mcu_frame_wf f"
  shows "check_frame_layer (bus_frame f) Function.OutputCommand = Inr () \<and>
           node_id_from_can_id (can_id (bus_frame f) AND kCanSffMask) = n \<longleftrightarrow>
         n \<noteq> 0 \<and> n \<le> 31 \<and> \<not> mf_extended f \<and> \<not> mf_rtr f \<and> mf_dlc f = RCR_CAN_V1_DLC \<and>
         mf_can_id f = make_can_id Function.OutputCommand n" (is "?l \<longleftrightarrow> ?r")
proof
  have len: "can_len (bus_frame f) = mf_dlc f" by (simp add: bus_frame_def)
  assume l: ?l
  then have e: "\<not> mf_extended f" by (simp add: check_frame_layer_Inr bus_frame_flags [OF assms])
  then have "mf_can_id f AND kCanSffMask = mf_can_id f" using assms by (simp add: mcu_frame_wf_def)
  with l e show ?r
    using make_can_id_from_can_id [of "mf_can_id f" Function.OutputCommand]
    by (auto simp: check_frame_layer_Inr bus_frame_flags [OF assms] len kMaxNodeId_def RCR_CAN_V1_DLC_def)
next
  have len: "can_len (bus_frame f) = mf_dlc f" by (simp add: bus_frame_def)
  assume r: ?r
  then show ?l
    using node_id_make_can_id [of n Function.OutputCommand] function_make_can_id [of Function.OutputCommand n]
    by (auto simp: check_frame_layer_Inr bus_frame_flags [OF assms] len kMaxNodeId_def RCR_CAN_V1_DLC_def make_can_id_sff)
qed

lemma decode_output_command_eq:
  assumes "mcu_frame_wf f"
  shows "rcr_can_v1_decode_output_command f n = for_node n (decode_output_command (bus_frame f))"
proof (cases "check_frame_layer (bus_frame f) Function.OutputCommand = Inr () \<and>
                node_id_from_can_id (can_id (bus_frame f) AND kCanSffMask) = n")
  case True
  have d: "can_data (bus_frame f) = mf_data f" by (simp add: bus_frame_def)
  from True frame_layer_for_node [OF assms, of n] show ?thesis
    by (auto simp: rcr_can_v1_decode_output_command_def decode_output_command_def for_node_def d mcu_codec_simps
      check_version_def kMinValidity10ms_def kMaxValidity10ms_def not_le one_le_word_iff)
next
  case False
  then have "rcr_can_v1_decode_output_command f n = None"
    using frame_layer_for_node [OF assms, of n] by (auto simp: rcr_can_v1_decode_output_command_def make_id_eq)
  moreover from False have "for_node n (decode_output_command (bus_frame f)) = None"
    by (auto simp: for_node_def decode_output_command_def Let_def split: sum.splits)
  ultimately show ?thesis by simp
qed

text \<open>
  C11. The firmware codec and the Linux codec are the same codec. Whatever message a node reports,
  both encoders refuse it or put the same frame on the bus; the firmware decodes a received frame to
  a command exactly when the Linux decoder does and the command is for this node; and both compare
  sequence numbers in the same way, wrap-around included.
\<close>

theorem mcu_codec_interop:
  "map_option bus_frame (rcr_can_v1_encode_heartbeat hb) = sent (encode_heartbeat hb) \<and>
   map_option bus_frame (rcr_can_v1_encode_node_status ns) = sent (encode_node_status ns) \<and>
   map_option bus_frame (rcr_can_v1_encode_output_status os) = sent (encode_output_status os) \<and>
   (mcu_frame_wf f \<longrightarrow> rcr_can_v1_decode_output_command f n = for_node n (decode_output_command (bus_frame f))) \<and>
   rcr_can_v1_sequence_newer a b = seq_newer a b"
  using encode_heartbeat_eq encode_node_status_eq encode_output_status_eq decode_output_command_eq sequence_newer_eq
  by blast

text \<open>A command frame as the firmware's receive interrupt stores it.\<close>

definition mcu_sample_frame :: rcr_can_frame_t where
  "mcu_sample_frame = \<lparr>mf_can_id = 0x65, mf_dlc = 8, mf_data = [1, 3, 0x12, 0x34, 0, 7, 1, 20], mf_extended = False,
     mf_rtr = False, mf_receive_ms = 0\<rparr>"

theorem mcu_codec_interop_witness:
  "mcu_frame_wf mcu_sample_frame \<and> bus_frame mcu_sample_frame = sample_command_frame \<and>
   rcr_can_v1_decode_output_command mcu_sample_frame 5 = Some sample_command"
proof -
  have w: "mcu_frame_wf mcu_sample_frame" by code_simp
  have b: "bus_frame mcu_sample_frame = sample_command_frame" by code_simp
  have "for_node 5 (decode_output_command sample_command_frame) = Some sample_command" by code_simp
  with w b mcu_codec_interop [of undefined undefined undefined mcu_sample_frame 5] show ?thesis by simp
qed

end
