(* ===== verification/Node_Contract.thy ===== *)
theory Node_Contract
  imports Can_V1
begin

text \<open>
  What an output node promises the runtime: how it decides on an output command, what a command does to
  its outputs, and that outputs are held only under a lease. The simulated node
  (\<open>Node_Sim\<close>) and the firmware node (\<open>Mcu_Node\<close>) both provide this interface; the lemmas
  here hold for either.
\<close>

unbundle bit_operations_syntax

text \<open>The order of the checks: session, interlock, sequence, validity.\<close>

definition contract_result :: "u16 \<Rightarrow> bool \<Rightarrow> u16 option \<Rightarrow> bool \<Rightarrow> WireOutputCommand \<Rightarrow> OutputResult" where
  "contract_result session ready prev late cmd =
     (if wc_session_id cmd \<noteq> session then SessionMismatch
      else if \<not> ready then NotReady
      else if (\<exists>l. prev = Some l \<and> \<not> seq_newer (wc_sequence cmd) l) then StaleSequence
      else if late then Expired else Applied)"

definition contract_outputs :: "WireOutputCommand \<Rightarrow> u8 \<Rightarrow> u8" where
  "contract_outputs cmd out = (out AND NOT (wc_mask cmd)) OR (wc_values cmd AND wc_mask cmd)"

lemma contract_outputs_bit:
  "bit (contract_outputs cmd out) n = (if bit (wc_mask cmd) n then bit (wc_values cmd) n else bit out n)"
  by (cases "n < 8") (auto simp: contract_outputs_def bit_simps dest: bit_imp_le_length)

locale output_node =
  fixes session :: "'s \<Rightarrow> u16" and ready :: "'s \<Rightarrow> bool" and prev :: "'s \<Rightarrow> u16 option"
    and out :: "'s \<Rightarrow> u8" and lease :: "'s \<Rightarrow> bool" and over :: "'t \<Rightarrow> 's \<Rightarrow> bool"
    and late :: "WireOutputCommand \<Rightarrow> 't \<Rightarrow> 't \<Rightarrow> bool"
    and expire :: "'t \<Rightarrow> 's \<Rightarrow> 's"
    and apply_cmd :: "WireOutputCommand \<Rightarrow> 't \<Rightarrow> 't \<Rightarrow> 's \<Rightarrow> 's \<times> WireOutputStatus"
  assumes expire_frame: "session (expire t s) = session s" "ready (expire t s) = ready s" "prev (expire t s) = prev s"
    and expire_over: "lease s \<Longrightarrow> over t s \<Longrightarrow> out (expire t s) = 0 \<and> \<not> lease (expire t s)"
    and expire_running: "\<not> (lease s \<and> over t s) \<Longrightarrow> expire t s = s"
    and status_echo: "ws_session_id (snd (apply_cmd cmd rx now s)) = session s"
      "ws_sequence (snd (apply_cmd cmd rx now s)) = wc_sequence cmd"
      "ws_output_mirror (snd (apply_cmd cmd rx now s)) = out (fst (apply_cmd cmd rx now s))"
    and status_result: "ws_result (snd (apply_cmd cmd rx now s)) =
          contract_result (session s) (ready s) (prev s) (late cmd rx now) cmd"
    and refused_state: "contract_result (session s) (ready s) (prev s) (late cmd rx now) cmd \<noteq> Applied \<Longrightarrow>
          fst (apply_cmd cmd rx now s) = expire now s"
    and applied_state: "contract_result (session s) (ready s) (prev s) (late cmd rx now) cmd = Applied \<Longrightarrow>
          out (fst (apply_cmd cmd rx now s)) = contract_outputs cmd (out (expire now s)) \<and>
          prev (fst (apply_cmd cmd rx now s)) = Some (wc_sequence cmd) \<and>
          lease (fst (apply_cmd cmd rx now s)) \<and>
          session (fst (apply_cmd cmd rx now s)) = session s \<and> ready (fst (apply_cmd cmd rx now s)) = ready s"
begin

abbreviation leased where "leased s \<equiv> (out s = 0 \<or> lease s)"

lemma leased_expire: "leased s \<Longrightarrow> leased (expire t s)"
  using expire_over [of s t] expire_running [of s t] by metis

lemma leased_apply: "leased s \<Longrightarrow> leased (fst (apply_cmd cmd rx now s))"
  using leased_expire [of s now] refused_state [of s cmd rx now] applied_state [of s cmd rx now]
  by (cases "contract_result (session s) (ready s) (prev s) (late cmd rx now) cmd = Applied") auto

lemma expired_off: "leased s \<Longrightarrow> over t s \<Longrightarrow> out (expire t s) = 0"
  using expire_over [of s t] expire_running [of s t] by metis

text \<open>Only an applied command changes a bit that stays on, and only bits of its mask.\<close>

lemma apply_bits:
  assumes "bit (out (fst (apply_cmd cmd rx now s))) n" and "\<not> bit (out s) n"
  shows "ws_result (snd (apply_cmd cmd rx now s)) = Applied \<and> bit (wc_mask cmd) n \<and> bit (wc_values cmd) n"
proof (cases "contract_result (session s) (ready s) (prev s) (late cmd rx now) cmd = Applied")
  case True
  have "\<not> bit (out (expire now s)) n"
    using assms(2) expire_over [of s now] expire_running [of s now] by (cases "lease s \<and> over now s") auto
  then show ?thesis
    using assms(1) applied_state [OF True] status_result True by (simp add: contract_outputs_bit split: if_splits)
next
  case False
  then show ?thesis
    using assms refused_state [OF False] expire_over [of s now] expire_running [of s now]
    by (cases "lease s \<and> over now s") auto
qed

text \<open>A command that was applied is stale when it comes again.\<close>

lemma replay_refused:
  assumes "ws_result (snd (apply_cmd cmd rx now s)) = Applied"
  shows "ws_result (snd (apply_cmd cmd rx' now' (fst (apply_cmd cmd rx now s)))) \<noteq> Applied"
proof -
  have "prev (fst (apply_cmd cmd rx now s)) = Some (wc_sequence cmd)"
    using applied_state [of s cmd rx now] assms status_result by simp
  then show ?thesis by (simp add: status_result contract_result_def seq_newer_irrefl)
qed

lemma apply_last:
  "prev (fst (apply_cmd cmd rx now s)) =
     (if ws_result (snd (apply_cmd cmd rx now s)) = Applied then Some (wc_sequence cmd) else prev s)"
  using applied_state [of s cmd rx now] refused_state [of s cmd rx now] expire_frame(3) [of now s] by (simp add: status_result)

lemma applied_newer:
  assumes "ws_result (snd (apply_cmd cmd rx now s)) = Applied" and "prev s = Some l"
  shows "seq_newer (wc_sequence cmd) l"
  using assms by (auto simp: status_result contract_result_def split: if_splits)

end

end
