(* ===== verification/Node_Sim.thy ===== *)
theory Node_Sim
  imports Node_Contract
begin

text \<open>
  The simulated node's logic (\<^verbatim>\<open>linux/include/rcr/node_sim.hpp\<close>, \<^verbatim>\<open>linux/src/sim/node_sim.cpp\<close>):
  session and restart, heartbeat and status, the bounded output lease and the decision on
  output commands. Time stamps are the caller's monotonic nanoseconds.
\<close>

unbundle bit_operations_syntax

section \<open>State\<close>

record NodeConfig =
  nf_node_id :: u8
  nf_boot_id :: u16
  nf_session_id :: u16
  nf_interlock_ready :: bool
  nf_input_bits :: u16
  nf_fault_code :: u16

record CanNodeLogic =
  nl_config :: NodeConfig
  nl_boot_id :: u16
  nl_session_id :: u16
  nl_hb_seq :: u16
  nl_output_bits :: u8
  nl_output_lease_active :: bool
  nl_output_lease_deadline_ns :: i64
  nl_has_accepted_sequence :: bool
  nl_last_accepted_sequence :: u16
  nl_protocol_rejects :: u64

record HandleResult =
  hr_send_status :: bool
  hr_status :: WireOutputStatus
  hr_protocol_reject :: bool

definition ws_default :: WireOutputStatus where
  "ws_default = \<lparr>ws_node_id = 0, ws_result = Applied, ws_session_id = 0, ws_sequence = 0, ws_output_mirror = 0\<rparr>"

definition hr_default :: HandleResult where
  "hr_default = \<lparr>hr_send_status = False, hr_status = ws_default, hr_protocol_reject = False\<rparr>"

definition nl_init :: "NodeConfig \<Rightarrow> CanNodeLogic" where
  "nl_init config =
     \<lparr>nl_config = config, nl_boot_id = (if nf_boot_id config = 0 then 1 else nf_boot_id config),
      nl_session_id = (if nf_session_id config = 0 then 1 else nf_session_id config), nl_hb_seq = 0,
      nl_output_bits = 0, nl_output_lease_active = False, nl_output_lease_deadline_ns = 0,
      nl_has_accepted_sequence = False, nl_last_accepted_sequence = 0, nl_protocol_rejects = 0\<rparr>"

section \<open>Operations\<close>

definition next_nonzero_u16 :: "u16 \<Rightarrow> u16" where
  "next_nonzero_u16 value = (if value = 65535 then 1 else value + 1)"

definition nl_set_interlock_ready :: "bool \<Rightarrow> CanNodeLogic \<Rightarrow> CanNodeLogic" where
  "nl_set_interlock_ready ready n =
     (let n = n\<lparr>nl_config := (nl_config n)\<lparr>nf_interlock_ready := ready\<rparr>\<rparr> in
      if \<not> ready
      then n\<lparr>nl_output_bits := 0, nl_output_lease_active := False, nl_output_lease_deadline_ns := 0\<rparr>
      else n)"

definition nl_set_input_bits :: "u16 \<Rightarrow> CanNodeLogic \<Rightarrow> CanNodeLogic" where
  "nl_set_input_bits bits n = n\<lparr>nl_config := (nl_config n)\<lparr>nf_input_bits := bits\<rparr>\<rparr>"

definition nl_set_fault_code :: "u16 \<Rightarrow> CanNodeLogic \<Rightarrow> CanNodeLogic" where
  "nl_set_fault_code code n = n\<lparr>nl_config := (nl_config n)\<lparr>nf_fault_code := code\<rparr>\<rparr>"

definition soft_restart :: "CanNodeLogic \<Rightarrow> CanNodeLogic" where
  "soft_restart n =
     n\<lparr>nl_boot_id := next_nonzero_u16 (nl_boot_id n), nl_session_id := next_nonzero_u16 (nl_session_id n),
       nl_hb_seq := 0, nl_output_bits := 0, nl_output_lease_active := False,
       nl_output_lease_deadline_ns := 0, nl_has_accepted_sequence := False, nl_last_accepted_sequence := 0\<rparr>"

definition make_heartbeat :: "CanNodeLogic \<Rightarrow> CanNodeLogic \<times> WireHeartbeat" where
  "make_heartbeat n =
     (n\<lparr>nl_hb_seq := nl_hb_seq n + 1\<rparr>,
      \<lparr>hb_node_id = nf_node_id (nl_config n), hb_boot_id = nl_boot_id n, hb_session_id = nl_session_id n,
       hb_hb_seq = nl_hb_seq n\<rparr>)"

definition make_status :: "CanNodeLogic \<Rightarrow> WireNodeStatus" where
  "make_status n =
     \<lparr>ns_node_id = nf_node_id (nl_config n), ns_interlock_ready = nf_interlock_ready (nl_config n),
      ns_session_id = nl_session_id n, ns_input_bits = nf_input_bits (nl_config n),
      ns_fault_code = nf_fault_code (nl_config n)\<rparr>"

definition expire_output_lease :: "i64 \<Rightarrow> CanNodeLogic \<Rightarrow> CanNodeLogic \<times> bool" where
  "expire_output_lease now_ns n =
     (if \<not> nl_output_lease_active n \<or> now_ns < nl_output_lease_deadline_ns n then (n, False)
      else (n\<lparr>nl_output_bits := 0, nl_output_lease_active := False, nl_output_lease_deadline_ns := 0\<rparr>, True))"

definition apply_command :: "WireOutputCommand \<Rightarrow> i64 \<Rightarrow> i64 \<Rightarrow> CanNodeLogic \<Rightarrow> CanNodeLogic \<times> HandleResult" where
  "apply_command cmd receive_ns now_ns n0 =
     (let n = fst (expire_output_lease now_ns n0);
          status = \<lparr>ws_node_id = nf_node_id (nl_config n), ws_result = Applied, ws_session_id = nl_session_id n,
                    ws_sequence = wc_sequence cmd, ws_output_mirror = nl_output_bits n\<rparr>;
          answer = (\<lambda>st. \<lparr>hr_send_status = True, hr_status = st, hr_protocol_reject = False\<rparr>)
      in if wc_session_id cmd \<noteq> nl_session_id n then (n, answer (status\<lparr>ws_result := SessionMismatch\<rparr>))
         else if \<not> nf_interlock_ready (nl_config n) then (n, answer (status\<lparr>ws_result := NotReady\<rparr>))
         else if nl_has_accepted_sequence n \<and> \<not> seq_newer (wc_sequence cmd) (nl_last_accepted_sequence n)
           then (n, answer (status\<lparr>ws_result := StaleSequence\<rparr>))
         else let deadline = deadline_from_validity_10ms receive_ns (wc_validity_10ms cmd) in
           if now_ns \<ge> deadline then (n, answer (status\<lparr>ws_result := Expired\<rparr>))
           else let bits = (nl_output_bits n AND NOT (wc_mask cmd)) OR (wc_values cmd AND wc_mask cmd) in
             (n\<lparr>nl_output_bits := bits, nl_output_lease_active := True, nl_output_lease_deadline_ns := deadline,
                nl_has_accepted_sequence := True, nl_last_accepted_sequence := wc_sequence cmd\<rparr>,
              answer (status\<lparr>ws_result := Applied, ws_output_mirror := bits\<rparr>)))"

definition on_frame :: "CanFrame \<Rightarrow> i64 \<Rightarrow> CanNodeLogic \<Rightarrow> CanNodeLogic \<times> HandleResult" where
  "on_frame frame now_ns n =
     (let raw11 = can_id frame AND kCanSffMask in
      if function_from_can_id raw11 \<noteq> Function_code Function.OutputCommand \<or>
         node_id_from_can_id raw11 \<noteq> nf_node_id (nl_config n)
      then (n, hr_default)
      else case decode_output_command frame of
        Inl _ \<Rightarrow> (n\<lparr>nl_protocol_rejects := nl_protocol_rejects n + 1\<rparr>, hr_default\<lparr>hr_protocol_reject := True\<rparr>)
      | Inr cmd \<Rightarrow> apply_command cmd now_ns now_ns n)"

section \<open>The node keeps the contract\<close>

definition nl_last :: "CanNodeLogic \<Rightarrow> u16 option" where
  "nl_last n = (if nl_has_accepted_sequence n then Some (nl_last_accepted_sequence n) else None)"

definition nl_late :: "WireOutputCommand \<Rightarrow> i64 \<Rightarrow> i64 \<Rightarrow> bool" where
  "nl_late cmd rx now \<longleftrightarrow> deadline_from_validity_10ms rx (wc_validity_10ms cmd) \<le> now"

abbreviation nl_apply :: "WireOutputCommand \<Rightarrow> i64 \<Rightarrow> i64 \<Rightarrow> CanNodeLogic \<Rightarrow> CanNodeLogic \<times> WireOutputStatus" where
  "nl_apply cmd rx now n \<equiv> (fst (apply_command cmd rx now n), hr_status (snd (apply_command cmd rx now n)))"

lemma expire_frame_nl [simp]:
  "nl_session_id (fst (expire_output_lease t n)) = nl_session_id n"
  "nl_config (fst (expire_output_lease t n)) = nl_config n"
  "nl_has_accepted_sequence (fst (expire_output_lease t n)) = nl_has_accepted_sequence n"
  "nl_last_accepted_sequence (fst (expire_output_lease t n)) = nl_last_accepted_sequence n"
  "nl_boot_id (fst (expire_output_lease t n)) = nl_boot_id n"
  by (simp_all add: expire_output_lease_def)

interpretation sim: output_node nl_session_id "\<lambda>n. nf_interlock_ready (nl_config n)" nl_last nl_output_bits
  nl_output_lease_active "\<lambda>t n. nl_output_lease_deadline_ns n \<le> t" nl_late
  "\<lambda>t n. fst (expire_output_lease t n)" nl_apply
proof
  show "nl_output_lease_active n \<Longrightarrow> nl_output_lease_deadline_ns n \<le> t \<Longrightarrow>
      nl_output_bits (fst (expire_output_lease t n)) = 0 \<and> \<not> nl_output_lease_active (fst (expire_output_lease t n))" for n t
    by (simp add: expire_output_lease_def)
  show "\<not> (nl_output_lease_active n \<and> nl_output_lease_deadline_ns n \<le> t) \<Longrightarrow> fst (expire_output_lease t n) = n" for n t
    by (auto simp: expire_output_lease_def)
qed (auto simp: nl_last_def apply_command_def contract_result_def contract_outputs_def nl_late_def Let_def not_le split: if_splits)

section \<open>Runs of the node\<close>

datatype NodeOp = NSetInterlock bool | NSetInput u16 | NSetFault u16 | NRestart | NHeartbeat
  | NExpire i64 | NFrame CanFrame i64 | NApply WireOutputCommand i64 i64

fun nl_step :: "NodeOp \<Rightarrow> CanNodeLogic \<Rightarrow> CanNodeLogic" where
  "nl_step (NSetInterlock b) n = nl_set_interlock_ready b n"
| "nl_step (NSetInput b) n = nl_set_input_bits b n"
| "nl_step (NSetFault c) n = nl_set_fault_code c n"
| "nl_step NRestart n = soft_restart n"
| "nl_step NHeartbeat n = fst (make_heartbeat n)"
| "nl_step (NExpire t) n = fst (expire_output_lease t n)"
| "nl_step (NFrame f t) n = fst (on_frame f t n)"
| "nl_step (NApply c rx now) n = fst (apply_command c rx now n)"

text \<open>Outputs only under a lease, a lease only with the interlock and an accepted command; identities are never zero.\<close>

definition nl_inv :: "CanNodeLogic \<Rightarrow> bool" where
  "nl_inv n \<longleftrightarrow> nl_boot_id n \<noteq> 0 \<and> nl_session_id n \<noteq> 0 \<and>
     (\<not> nl_output_lease_active n \<longrightarrow> nl_output_bits n = 0) \<and>
     (nl_output_lease_active n \<longrightarrow> nf_interlock_ready (nl_config n) \<and> nl_has_accepted_sequence n)"

lemma next_nonzero: "v \<noteq> 0 \<Longrightarrow> next_nonzero_u16 v \<noteq> 0"
proof
  assume "v \<noteq> 0" and e: "next_nonzero_u16 v = 0"
  then have "v \<noteq> 65535" "v + 1 = 0" by (auto simp: next_nonzero_u16_def split: if_splits)
  then have "v = - 1" by (metis add_eq_0_iff minus_minus)
  then show False using \<open>v \<noteq> 65535\<close> by simp
qed

lemma nl_inv_expire: "nl_inv n \<Longrightarrow> nl_inv (fst (expire_output_lease t n))"
  by (auto simp: nl_inv_def expire_output_lease_def)

lemma nl_inv_apply:
  assumes "nl_inv n"
  shows "nl_inv (fst (apply_command cmd rx now n))"
  using nl_inv_expire [OF assms, of now]
  by (auto simp: apply_command_def Let_def nl_inv_def)

lemma nl_inv_step: "nl_inv n \<Longrightarrow> nl_inv (nl_step op n)"
proof (cases op)
  case (NFrame f t)
  assume "nl_inv n"
  then show ?thesis using NFrame nl_inv_apply [of n]
    by (auto simp: on_frame_def Let_def nl_inv_def split: sum.splits)
next
  case (NExpire t)
  then show "nl_inv n \<Longrightarrow> ?thesis" by (simp add: nl_inv_expire)
next
  case (NApply c rx now)
  then show "nl_inv n \<Longrightarrow> ?thesis" by (simp add: nl_inv_apply)
qed (auto simp: nl_set_interlock_ready_def nl_set_input_bits_def nl_set_fault_code_def
    soft_restart_def make_heartbeat_def Let_def nl_inv_def next_nonzero)

interpretation nlm: machine nl_step nl_inv
  by unfold_locales (rule nl_inv_step)

lemma nl_inv_init: "nl_inv (nl_init config)"
  by (simp add: nl_inv_def nl_init_def)

text \<open>Which operation accepts which sequence, and whether an operation starts a new session.\<close>

fun accepted :: "NodeOp \<Rightarrow> CanNodeLogic \<Rightarrow> u16 option" where
  "accepted (NApply c rx now) n =
     (if ws_result (hr_status (snd (apply_command c rx now n))) = Applied then Some (wc_sequence c) else None)"
| "accepted (NFrame f t) n =
     (let r = snd (on_frame f t n) in
      if hr_send_status r \<and> ws_result (hr_status r) = Applied then Some (ws_sequence (hr_status r)) else None)"
| "accepted _ n = None"

lemma apply_accepted:
  "nl_last (fst (apply_command c rx now n)) =
     (if ws_result (hr_status (snd (apply_command c rx now n))) = Applied then Some (wc_sequence c) else nl_last n)"
  using sim.apply_last [of c rx now n] by (simp only: fst_conv snd_conv)

lemma apply_sends: "hr_send_status (snd (apply_command c rx now n))" "\<not> hr_protocol_reject (snd (apply_command c rx now n))"
  by (simp_all add: apply_command_def Let_def)

lemma apply_echo:
  "ws_sequence (hr_status (snd (apply_command c rx now n))) = wc_sequence c"
  "ws_session_id (hr_status (snd (apply_command c rx now n))) = nl_session_id n"
  "ws_node_id (hr_status (snd (apply_command c rx now n))) = nf_node_id (nl_config n)"
  using sim.status_echo [of c rx now n] by (simp_all add: apply_command_def Let_def)

lemma step_last:
  assumes "op \<noteq> NRestart"
  shows "nl_last (nl_step op n) = (case accepted op n of None \<Rightarrow> nl_last n | Some q \<Rightarrow> Some q)"
    and "accepted op n = Some q \<Longrightarrow> nl_last n = Some l \<Longrightarrow> seq_newer q l"
proof -
  show "nl_last (nl_step op n) = (case accepted op n of None \<Rightarrow> nl_last n | Some q \<Rightarrow> Some q)"
  proof (cases op)
    case (NApply c rx now)
    then show ?thesis using apply_accepted [of c rx now n] by simp
  next
    case (NFrame f t)
    then show ?thesis using apply_accepted [of _ t t n]
      by (auto simp: on_frame_def Let_def hr_default_def apply_sends apply_echo nl_last_def [of "nl_protocol_rejects_update _ _"] nl_last_def [of n] split: sum.splits)
  qed (use assms in \<open>auto simp: nl_last_def nl_set_interlock_ready_def nl_set_input_bits_def nl_set_fault_code_def make_heartbeat_def Let_def\<close>)
  assume a: "accepted op n = Some q" "nl_last n = Some l"
  show "seq_newer q l"
  proof (cases op)
    case (NApply c rx now)
    then show ?thesis using a sim.applied_newer [of c rx now n l] by (auto split: if_splits)
  next
    case (NFrame f t)
    with a(1) obtain c where "decode_output_command f = Inr c"
      "ws_result (hr_status (snd (apply_command c t t n))) = Applied" "q = wc_sequence c"
      by (auto simp: on_frame_def Let_def hr_default_def apply_echo split: sum.splits if_splits)
    then show ?thesis using sim.applied_newer [of c t t n l] a(2) by simp
  qed (use a in auto)
qed

fun accepts :: "NodeOp list \<Rightarrow> CanNodeLogic \<Rightarrow> u16 list" where
  "accepts [] n = []"
| "accepts (op # ops) n =
     (case accepted op n of None \<Rightarrow> [] | Some q \<Rightarrow> [q]) @ accepts ops (nl_step op n)"

fun newer_chain :: "u16 option \<Rightarrow> u16 list \<Rightarrow> bool" where
  "newer_chain l [] = True"
| "newer_chain l (q # qs) \<longleftrightarrow> (\<forall>p. l = Some p \<longrightarrow> seq_newer q p) \<and> newer_chain (Some q) qs"

lemma accepts_chain: "NRestart \<notin> set ops \<Longrightarrow> newer_chain (nl_last n) (accepts ops n)"
proof (induction ops arbitrary: n)
  case (Cons op ops)
  have op: "op \<noteq> NRestart" and rest: "newer_chain (nl_last (nl_step op n)) (accepts ops (nl_step op n))"
    using Cons by auto
  show ?case
  proof (cases "accepted op n")
    case None
    then show ?thesis using step_last(1) [OF op, of n] rest by simp
  next
    case (Some q)
    then show ?thesis using step_last(1) [OF op, of n] step_last(2) [OF op Some] rest by simp
  qed
qed simp

section \<open>Properties\<close>

text \<open>
  C10. Outputs are leased. In every run of the node, with any commands, frames,
  restarts and interlock changes: right after the lease is checked at a time \<open>t\<close>, an output bit is
  on only if the interlock is ready, a command was accepted in this session and \<open>t\<close> is before the
  lease deadline; a lost interlock or a restart turns all outputs off at once.
\<close>

theorem node_outputs_leased:
  assumes "n = fold nl_step ops (nl_init config)"
  shows "(nl_output_bits (fst (expire_output_lease t n)) \<noteq> 0 \<longrightarrow>
            nf_interlock_ready (nl_config n) \<and> nl_has_accepted_sequence n \<and> t < nl_output_lease_deadline_ns n) \<and>
         nl_output_bits (nl_set_interlock_ready False n) = 0 \<and> nl_output_bits (soft_restart n) = 0"
proof -
  have "nl_inv n" unfolding assms by (rule nlm.run_inv) (rule nl_inv_init)
  then show ?thesis
    by (auto simp: nl_inv_def expire_output_lease_def nl_set_interlock_ready_def soft_restart_def split: if_splits)
qed

text \<open>
  No replay at the node. Without a restart, each sequence number the node accepts is newer
  (in serial-number order) than the one accepted before it, whatever is received in between.
\<close>

theorem node_accepts_newer:
  assumes "NRestart \<notin> set ops"
  shows "newer_chain (nl_last n) (accepts ops n)"
  using assms by (rule accepts_chain)

definition demo_node :: CanNodeLogic where
  "demo_node = nl_init \<lparr>nf_node_id = 5, nf_boot_id = 1, nf_session_id = 9, nf_interlock_ready = True,
     nf_input_bits = 0, nf_fault_code = 0\<rparr>"

definition demo_wire :: "u16 \<Rightarrow> WireOutputCommand" where
  "demo_wire q = \<lparr>wc_node_id = 5, wc_mask = 1, wc_session_id = 9, wc_sequence = q, wc_values = 1, wc_validity_10ms = 2\<rparr>"

theorem node_outputs_leased_witness:
  "nl_output_bits (fst (expire_output_lease 20000999 (nl_step (NApply (demo_wire 1) 1000 1000) demo_node))) = 1 \<and>
   20000999 < nl_output_lease_deadline_ns (nl_step (NApply (demo_wire 1) 1000 1000) demo_node)"
proof -
  have "nl_output_bits (fst (expire_output_lease 20000999 (nl_step (NApply (demo_wire 1) 1000 1000) demo_node))) = 1"
    by code_simp
  then show ?thesis
    using node_outputs_leased [of _ "[NApply (demo_wire 1) 1000 1000]" "nl_config demo_node", OF refl, of 20000999]
    by (simp add: demo_node_def nl_init_def)
qed

theorem node_accepts_newer_witness:
  "newer_chain None (accepts (map (\<lambda>q. NApply (demo_wire q) 1000 1000) [1, 5, 3, 65535, 6]) demo_node) \<and>
   accepts (map (\<lambda>q. NApply (demo_wire q) 1000 1000) [1, 5, 3, 65535, 6]) demo_node = [1, 5, 6]"
proof -
  have "accepts (map (\<lambda>q. NApply (demo_wire q) 1000 1000) [1, 5, 3, 65535, 6]) demo_node = [1, 5, 6]"
    "nl_last demo_node = None" by code_simp+
  then show ?thesis
    using node_accepts_newer [of "map (\<lambda>q. NApply (demo_wire q) 1000 1000) [1, 5, 3, 65535, 6]" demo_node] by auto
qed

end
