(* ===== verification/Mcu_Node.thy ===== *)
theory Mcu_Node
  imports Mcu_Can Node_Sim
begin

text \<open>
  The firmware's node logic (\<^verbatim>\<open>firmware/stm32f103/include/rcr_mcu/node.h\<close>,
  \<^verbatim>\<open>firmware/stm32f103/src/node.c\<close>). Time is the 32-bit millisecond counter of the
  platform, which wraps; a deadline is compared through the sign of the difference. The last section
  shows that the firmware node and the simulated node behave alike on the bus.
\<close>

unbundle bit_operations_syntax

section \<open>State\<close>

datatype rcr_node_fault_t = FAULT_NONE | FAULT_WATCHDOG | FAULT_INPUT | FAULT_COMM_LOSS | FAULT_NODE
  | FAULT_PROTOCOL_REJECT | FAULT_INTERLOCK_LOST | FAULT_INTERNAL

fun node_fault_value :: "rcr_node_fault_t \<Rightarrow> u16" where
  "node_fault_value FAULT_NONE = 0"
| "node_fault_value FAULT_WATCHDOG = 1"
| "node_fault_value FAULT_INPUT = 2"
| "node_fault_value FAULT_COMM_LOSS = 3"
| "node_fault_value FAULT_NODE = 4"
| "node_fault_value FAULT_PROTOCOL_REJECT = 5"
| "node_fault_value FAULT_INTERLOCK_LOST = 6"
| "node_fault_value FAULT_INTERNAL = 7"

datatype rcr_node_frame_result_t = FRAME_IGNORED | FRAME_REJECTED | FRAME_STATUS_READY

record rcr_node_t =
  rn_node_id :: u8
  rn_boot_id :: u16
  rn_session_id :: u16
  rn_heartbeat_sequence :: u16
  rn_input_bits :: u16
  rn_output_bits :: u8
  rn_last_accepted_sequence :: u16
  rn_lease_deadline_ms :: u32
  rn_protocol_rejects :: u32
  rn_has_accepted_sequence :: bool
  rn_lease_active :: bool
  rn_identity_ready :: bool
  rn_bus_ready :: bool
  rn_fatal_latched :: bool

section \<open>Operations\<close>

definition time_after_or_equal :: "u32 \<Rightarrow> u32 \<Rightarrow> bool" where
  "time_after_or_equal now_ms deadline_ms \<longleftrightarrow> sint (now_ms - deadline_ms) \<ge> 0"

definition neutralize_output :: "rcr_node_t \<Rightarrow> rcr_node_t" where
  "neutralize_output node = node\<lparr>rn_output_bits := 0, rn_lease_active := False, rn_lease_deadline_ms := 0\<rparr>"

definition rcr_node_init :: "u8 \<Rightarrow> u16 \<Rightarrow> u16 \<Rightarrow> bool \<Rightarrow> rcr_node_t" where
  "rcr_node_init node_id boot_id session_id identity_ready =
     \<lparr>rn_node_id = (if node_id = 0 then 1 else node_id),
      rn_boot_id = (if boot_id = 0 then 1 else boot_id),
      rn_session_id = (if session_id = 0 then 1 else session_id),
      rn_heartbeat_sequence = 0, rn_input_bits = 0, rn_output_bits = 0, rn_last_accepted_sequence = 0,
      rn_lease_deadline_ms = 0, rn_protocol_rejects = 0, rn_has_accepted_sequence = False,
      rn_lease_active = False, rn_identity_ready = identity_ready, rn_bus_ready = True,
      rn_fatal_latched = (\<not> identity_ready)\<rparr>"

definition rcr_node_set_bus_ready :: "bool \<Rightarrow> rcr_node_t \<Rightarrow> rcr_node_t" where
  "rcr_node_set_bus_ready ready node =
     (let node = node\<lparr>rn_bus_ready := ready\<rparr> in if \<not> ready then neutralize_output node else node)"

definition rcr_node_latch_internal_fault :: "rcr_node_t \<Rightarrow> rcr_node_t" where
  "rcr_node_latch_internal_fault node = neutralize_output (node\<lparr>rn_fatal_latched := True\<rparr>)"

definition rcr_node_interlock_ready :: "rcr_node_t \<Rightarrow> bool" where
  "rcr_node_interlock_ready node \<longleftrightarrow> rn_identity_ready node \<and> rn_bus_ready node \<and> \<not> rn_fatal_latched node"

definition rcr_node_fault_code :: "rcr_node_t \<Rightarrow> u16" where
  "rcr_node_fault_code node =
     (if rn_fatal_latched node \<or> \<not> rn_identity_ready node then node_fault_value FAULT_INTERNAL
      else if \<not> rn_bus_ready node then node_fault_value FAULT_COMM_LOSS
      else node_fault_value FAULT_NONE)"

definition rcr_node_expire_lease :: "u32 \<Rightarrow> rcr_node_t \<Rightarrow> rcr_node_t \<times> bool" where
  "rcr_node_expire_lease now_ms node =
     (if \<not> rn_lease_active node \<or> \<not> time_after_or_equal now_ms (rn_lease_deadline_ms node) then (node, False)
      else (neutralize_output node, True))"

definition rcr_node_apply_command ::
  "rcr_can_v1_output_command_t \<Rightarrow> u32 \<Rightarrow> u32 \<Rightarrow> rcr_node_t \<Rightarrow> rcr_node_t \<times> rcr_can_v1_output_status_t" where
  "rcr_node_apply_command command receive_ms now_ms node0 =
     (let node = fst (rcr_node_expire_lease now_ms node0);
          output_status = \<lambda>result bits. \<lparr>ws_node_id = rn_node_id node, ws_result = result,
            ws_session_id = rn_session_id node, ws_sequence = wc_sequence command, ws_output_mirror = bits\<rparr>
      in if wc_session_id command \<noteq> rn_session_id node then (node, output_status SessionMismatch (rn_output_bits node))
         else if \<not> rcr_node_interlock_ready node then (node, output_status NotReady (rn_output_bits node))
         else if rn_has_accepted_sequence node \<and>
                 \<not> rcr_can_v1_sequence_newer (wc_sequence command) (rn_last_accepted_sequence node)
           then (node, output_status StaleSequence (rn_output_bits node))
         else let deadline_ms = receive_ms + ucast (wc_validity_10ms command) * 10 in
           if time_after_or_equal now_ms deadline_ms then (node, output_status Expired (rn_output_bits node))
           else let keep_mask = NOT (wc_mask command);
                    bits = (rn_output_bits node AND keep_mask) OR (wc_values command AND wc_mask command) in
             (node\<lparr>rn_output_bits := bits, rn_last_accepted_sequence := wc_sequence command,
                   rn_has_accepted_sequence := True, rn_lease_active := True, rn_lease_deadline_ms := deadline_ms\<rparr>,
              output_status Applied bits))"

text \<open>The output status is written on the path that returns \<open>FRAME_STATUS_READY\<close> only.\<close>

definition rcr_node_on_frame ::
  "rcr_can_frame_t \<Rightarrow> u32 \<Rightarrow> rcr_node_t \<Rightarrow> rcr_node_t \<times> rcr_node_frame_result_t \<times> rcr_can_v1_output_status_t option" where
  "rcr_node_on_frame frame now_ms node =
     (let command_id = rcr_can_v1_make_id RCR_CAN_V1_FN_OUTPUT_COMMAND (rn_node_id node) in
      if mf_can_id frame \<noteq> ucast command_id then (node, FRAME_IGNORED, None)
      else case rcr_can_v1_decode_output_command frame (rn_node_id node) of
        None \<Rightarrow> (node\<lparr>rn_protocol_rejects := rn_protocol_rejects node + 1\<rparr>, FRAME_REJECTED, None)
      | Some command \<Rightarrow>
          let (node, status) = rcr_node_apply_command command (mf_receive_ms frame) now_ms node
          in (node, FRAME_STATUS_READY, Some status))"

definition rcr_node_make_heartbeat :: "rcr_node_t \<Rightarrow> rcr_node_t \<times> rcr_can_v1_heartbeat_t" where
  "rcr_node_make_heartbeat node =
     (node\<lparr>rn_heartbeat_sequence := rn_heartbeat_sequence node + 1\<rparr>,
      \<lparr>hb_node_id = rn_node_id node, hb_boot_id = rn_boot_id node, hb_session_id = rn_session_id node,
       hb_hb_seq = rn_heartbeat_sequence node\<rparr>)"

definition rcr_node_make_status :: "rcr_node_t \<Rightarrow> rcr_can_v1_node_status_t" where
  "rcr_node_make_status node =
     \<lparr>ns_node_id = rn_node_id node, ns_interlock_ready = rcr_node_interlock_ready node,
      ns_session_id = rn_session_id node, ns_input_bits = rn_input_bits node,
      ns_fault_code = rcr_node_fault_code node\<rparr>"

section \<open>The firmware node keeps the contract\<close>

definition rn_last :: "rcr_node_t \<Rightarrow> u16 option" where
  "rn_last n = (if rn_has_accepted_sequence n then Some (rn_last_accepted_sequence n) else None)"

definition rn_late :: "WireOutputCommand \<Rightarrow> u32 \<Rightarrow> u32 \<Rightarrow> bool" where
  "rn_late cmd rx now \<longleftrightarrow> time_after_or_equal now (rx + ucast (wc_validity_10ms cmd) * 10)"

lemma expire_frame_rn [simp]:
  "rn_session_id (fst (rcr_node_expire_lease t n)) = rn_session_id n"
  "rn_node_id (fst (rcr_node_expire_lease t n)) = rn_node_id n"
  "rn_has_accepted_sequence (fst (rcr_node_expire_lease t n)) = rn_has_accepted_sequence n"
  "rn_last_accepted_sequence (fst (rcr_node_expire_lease t n)) = rn_last_accepted_sequence n"
  "rn_identity_ready (fst (rcr_node_expire_lease t n)) = rn_identity_ready n"
  "rn_bus_ready (fst (rcr_node_expire_lease t n)) = rn_bus_ready n"
  "rn_fatal_latched (fst (rcr_node_expire_lease t n)) = rn_fatal_latched n"
  by (simp_all add: rcr_node_expire_lease_def neutralize_output_def)

interpretation mcu: output_node rn_session_id rcr_node_interlock_ready rn_last rn_output_bits rn_lease_active
  "\<lambda>t n. time_after_or_equal t (rn_lease_deadline_ms n)" rn_late "\<lambda>t n. fst (rcr_node_expire_lease t n)" rcr_node_apply_command
proof
  show "rn_lease_active n \<Longrightarrow> time_after_or_equal t (rn_lease_deadline_ms n) \<Longrightarrow>
      rn_output_bits (fst (rcr_node_expire_lease t n)) = 0 \<and> \<not> rn_lease_active (fst (rcr_node_expire_lease t n))" for n t
    by (simp add: rcr_node_expire_lease_def neutralize_output_def)
  show "\<not> (rn_lease_active n \<and> time_after_or_equal t (rn_lease_deadline_ms n)) \<Longrightarrow> fst (rcr_node_expire_lease t n) = n" for n t
    by (auto simp: rcr_node_expire_lease_def)
qed (auto simp: rcr_node_apply_command_def contract_result_def contract_outputs_def rn_late_def sequence_newer_eq
       rn_last_def rcr_node_interlock_ready_def Let_def split: if_splits)

text \<open>Outputs only under a lease, a lease only with the interlock and an accepted command.\<close>

definition rn_inv :: "rcr_node_t \<Rightarrow> bool" where
  "rn_inv n \<longleftrightarrow> rn_boot_id n \<noteq> 0 \<and> rn_session_id n \<noteq> 0 \<and> rn_node_id n \<noteq> 0 \<and>
     (\<not> rn_lease_active n \<longrightarrow> rn_output_bits n = 0) \<and>
     (rn_lease_active n \<longrightarrow> rcr_node_interlock_ready n \<and> rn_has_accepted_sequence n)"

lemma rn_inv_init: "rn_inv (rcr_node_init a b c d)"
  by (simp add: rn_inv_def rcr_node_init_def)

lemma rn_inv_expire: "rn_inv n \<Longrightarrow> rn_inv (fst (rcr_node_expire_lease t n))"
  by (auto simp: rn_inv_def rcr_node_expire_lease_def neutralize_output_def)

lemma rn_inv_apply:
  assumes "rn_inv n"
  shows "rn_inv (fst (rcr_node_apply_command c rx now n))"
  using rn_inv_expire [OF assms, of now]
  by (auto simp: rcr_node_apply_command_def Let_def rn_inv_def rcr_node_interlock_ready_def)

lemma rn_inv_frame: "rn_inv n \<Longrightarrow> rn_inv (fst (rcr_node_on_frame f now n))"
  using rn_inv_apply [of n]
  by (auto simp: rcr_node_on_frame_def Let_def rn_inv_def rcr_node_interlock_ready_def split: option.splits prod.splits)
    (metis fst_conv)+

lemma rn_inv_bus: "rn_inv n \<Longrightarrow> rn_inv (rcr_node_set_bus_ready b n)"
  by (auto simp: rn_inv_def rcr_node_set_bus_ready_def neutralize_output_def rcr_node_interlock_ready_def Let_def)

lemma rn_inv_latch: "rn_inv n \<Longrightarrow> rn_inv (rcr_node_latch_internal_fault n)"
  by (auto simp: rn_inv_def rcr_node_latch_internal_fault_def neutralize_output_def)

lemma rn_inv_heartbeat: "rn_inv n \<Longrightarrow> rn_inv (fst (rcr_node_make_heartbeat n))"
  by (auto simp: rn_inv_def rcr_node_make_heartbeat_def rcr_node_interlock_ready_def)

lemma rn_inv_input: "rn_inv n \<Longrightarrow> rn_inv (n\<lparr>rn_input_bits := b\<rparr>)"
  by (auto simp: rn_inv_def rcr_node_interlock_ready_def)

lemmas rn_inv_keeps = rn_inv_expire rn_inv_apply rn_inv_frame rn_inv_bus rn_inv_latch rn_inv_heartbeat rn_inv_input

section \<open>Firmware node and simulated node\<close>

text \<open>
  Both nodes are driven by the same events at millisecond times. The firmware sees a time through
  its 32-bit counter, the simulated node as nanoseconds; the answers are compared as frames on the bus.
\<close>

datatype NodeEvent = EFrame rcr_can_frame_t | ETick | EHeartbeat | EStatus | EReady bool | EInput u16

fun sim_react :: "NodeEvent \<Rightarrow> int \<Rightarrow> CanNodeLogic \<Rightarrow> CanNodeLogic \<times> CanFrame option" where
  "sim_react (EFrame f) t n =
     (let (n, h) = on_frame (bus_frame f) (t * 1000000) n
      in (n, if hr_send_status h then sent (encode_output_status (hr_status h)) else None))"
| "sim_react ETick t n = (fst (expire_output_lease (t * 1000000) n), None)"
| "sim_react EHeartbeat t n = (let (n, hb) = make_heartbeat n in (n, sent (encode_heartbeat hb)))"
| "sim_react EStatus t n = (n, sent (encode_node_status (make_status n)))"
| "sim_react (EReady b) t n =
     (nl_set_fault_code (node_fault_value (if b then FAULT_NONE else FAULT_COMM_LOSS)) (nl_set_interlock_ready b n), None)"
| "sim_react (EInput b) t n = (nl_set_input_bits b n, None)"

fun mcu_react :: "NodeEvent \<Rightarrow> int \<Rightarrow> rcr_node_t \<Rightarrow> rcr_node_t \<times> rcr_can_frame_t option" where
  "mcu_react (EFrame f) t r =
     (let (r, _, st) = rcr_node_on_frame (f\<lparr>mf_receive_ms := word_of_int t\<rparr>) (word_of_int t) r
      in (r, Option.bind st rcr_can_v1_encode_output_status))"
| "mcu_react ETick t r = (fst (rcr_node_expire_lease (word_of_int t) r), None)"
| "mcu_react EHeartbeat t r = (let (r, hb) = rcr_node_make_heartbeat r in (r, rcr_can_v1_encode_heartbeat hb))"
| "mcu_react EStatus t r = (r, rcr_can_v1_encode_node_status (rcr_node_make_status r))"
| "mcu_react (EReady b) t r = (rcr_node_set_bus_ready b r, None)"
| "mcu_react (EInput b) t r = (r\<lparr>rn_input_bits := b\<rparr>, None)"

text \<open>The nodes correspond; \<open>c\<close> is the time of the last lease check.\<close>

definition same_node :: "int \<Rightarrow> CanNodeLogic \<Rightarrow> rcr_node_t \<Rightarrow> bool" where
  "same_node c n r \<longleftrightarrow>
     nf_node_id (nl_config n) = rn_node_id r \<and> rn_node_id r \<le> 31 \<and> nl_boot_id n = rn_boot_id r \<and> nl_session_id n = rn_session_id r \<and>
     nl_hb_seq n = rn_heartbeat_sequence r \<and> nf_interlock_ready (nl_config n) = rn_bus_ready r \<and>
     rn_identity_ready r \<and> \<not> rn_fatal_latched r \<and>
     nf_input_bits (nl_config n) = rn_input_bits r \<and> nf_fault_code (nl_config n) = rcr_node_fault_code r \<and>
     nl_output_bits n = rn_output_bits r \<and> nl_output_lease_active n = rn_lease_active r \<and>
     nl_has_accepted_sequence n = rn_has_accepted_sequence r \<and>
     nl_last_accepted_sequence n = rn_last_accepted_sequence r \<and>
     (rn_lease_active r \<longrightarrow> (\<exists>d. nl_output_lease_deadline_ns n = d * 1000000 \<and>
        rn_lease_deadline_ms r = word_of_int d \<and> c < d \<and> d < c + 2 ^ 31))"

definition event_wf :: "NodeEvent \<Rightarrow> bool" where
  "event_wf e \<longleftrightarrow> (case e of EFrame f \<Rightarrow> mcu_frame_wf f \<and> \<not> mf_extended f | _ \<Rightarrow> True)"

text \<open>
  The window between two lease checks in which the 32-bit comparison is exact: 2 to the 31 milliseconds
  less the longest validity a byte can express.
\<close>

definition lease_window :: int where "lease_window = 2 ^ 31 - 2550"

fun paced :: "int \<Rightarrow> (int \<times> NodeEvent) list \<Rightarrow> bool" where
  "paced c [] = True"
| "paced c ((t, e) # evs) \<longleftrightarrow>
     c \<le> t \<and> t < c + lease_window \<and> event_wf e \<and> paced (if e = ETick then t else c) evs"

fun run_node :: "(NodeEvent \<Rightarrow> int \<Rightarrow> 's \<Rightarrow> 's \<times> 'o) \<Rightarrow> ('s \<Rightarrow> u8) \<Rightarrow> (int \<times> NodeEvent) list \<Rightarrow> 's \<Rightarrow> ('o \<times> u8) list" where
  "run_node react out [] s = []"
| "run_node react out ((t, e) # evs) s =
     (let (s, answer) = react e t s in (answer, out s) # run_node react out evs s)"

lemma time_after_window:
  assumes "\<bar>t - d\<bar> < 2 ^ 31"
  shows "time_after_or_equal (word_of_int t) (word_of_int d) \<longleftrightarrow> d \<le> t"
proof -
  have "word_of_int t - word_of_int d = (word_of_int (t - d) :: u32)" by simp
  moreover have "sint (word_of_int (t - d) :: u32) = t - d"
    using assms unfolding sint_sbintrunc' by (auto intro!: signed_take_bit_int_eq_self)
  ultimately show ?thesis unfolding time_after_or_equal_def by simp
qed

lemma ms_deadline: "(word_of_int t + ucast (v :: u8) * 10 :: u32) = word_of_int (t + uint v * 10)"
  by simp

lemma same_expire:
  assumes "same_node c n r" and "c \<le> t" and "t < c + lease_window"
  shows "same_node t (fst (expire_output_lease (t * 1000000) n)) (fst (rcr_node_expire_lease (word_of_int t) r))"
    and "same_node c (fst (expire_output_lease (t * 1000000) n)) (fst (rcr_node_expire_lease (word_of_int t) r))"
proof -
  have "same_node t (fst (expire_output_lease (t * 1000000) n)) (fst (rcr_node_expire_lease (word_of_int t) r)) \<and>
        same_node c (fst (expire_output_lease (t * 1000000) n)) (fst (rcr_node_expire_lease (word_of_int t) r))"
  proof (cases "rn_lease_active r")
    case True
    with assms(1) obtain d where d: "nl_output_lease_deadline_ns n = d * 1000000"
      "rn_lease_deadline_ms r = word_of_int d" "c < d" "d < c + 2 ^ 31" by (auto simp: same_node_def)
    have "time_after_or_equal (word_of_int t) (rn_lease_deadline_ms r) \<longleftrightarrow> d \<le> t"
      unfolding d(2) by (rule time_after_window) (use d assms in \<open>simp add: lease_window_def\<close>)
    then show ?thesis using assms True d
      by (auto simp: same_node_def expire_output_lease_def rcr_node_expire_lease_def neutralize_output_def
        rcr_node_fault_code_def)
  next
    case False
    then show ?thesis using assms
      by (auto simp: same_node_def expire_output_lease_def rcr_node_expire_lease_def)
  qed
  then show "same_node t (fst (expire_output_lease (t * 1000000) n)) (fst (rcr_node_expire_lease (word_of_int t) r))"
    "same_node c (fst (expire_output_lease (t * 1000000) n)) (fst (rcr_node_expire_lease (word_of_int t) r))" by auto
qed

text \<open>A command received at \<open>t\<close> and applied at \<open>t\<close> lasts until the same instant on both nodes.\<close>

lemma same_apply:
  assumes "same_node c n r" and "c \<le> t" and "t < c + lease_window"
  shows "same_node c (fst (apply_command cmd (t * 1000000) (t * 1000000) n))
           (fst (rcr_node_apply_command cmd (word_of_int t) (word_of_int t) r)) \<and>
         hr_status (snd (apply_command cmd (t * 1000000) (t * 1000000) n)) =
           snd (rcr_node_apply_command cmd (word_of_int t) (word_of_int t) r)"
proof -
  define n' where "n' = fst (expire_output_lease (t * 1000000) n)"
  define r' where "r' = fst (rcr_node_expire_lease (word_of_int t) r)"
  define d where "d = t + uint (wc_validity_10ms cmd) * 10"
  have v: "t \<le> d" "d \<le> t + 2550" using uint_bounded [of "wc_validity_10ms cmd"] by (auto simp: d_def)
  have s: "same_node c n' r'" unfolding n'_def r'_def by (rule same_expire(2) [OF assms])
  have late: "time_after_or_equal (word_of_int t) (word_of_int d) \<longleftrightarrow> d \<le> t"
    by (rule time_after_window) (use v in simp)
  have dl: "deadline_from_validity_10ms (t * 1000000) (wc_validity_10ms cmd) = d * 1000000"
    by (simp add: deadline_from_validity_10ms_def kValidityUnitNs_def d_def)
  have dm: "(word_of_int t + ucast (wc_validity_10ms cmd) * 10 :: u32) = word_of_int d"
    unfolding d_def by (rule ms_deadline)
  have w: "t < d \<Longrightarrow> c < d \<and> d < c + 2 ^ 31" using assms v by (simp add: lease_window_def)
  show ?thesis
    using s late w
    unfolding apply_command_def rcr_node_apply_command_def n'_def [symmetric] r'_def [symmetric] dl dm
    by (auto simp: Let_def same_node_def rcr_node_interlock_ready_def sequence_newer_eq rcr_node_fault_code_def)
qed

lemma addressed_iff:
  assumes "mcu_frame_wf f" and "\<not> mf_extended f" and "n \<le> 31"
  shows "function_from_can_id (can_id (bus_frame f) AND kCanSffMask) = Function_code Function.OutputCommand \<and>
           node_id_from_can_id (can_id (bus_frame f) AND kCanSffMask) = n \<longleftrightarrow>
         mf_can_id f = ucast (rcr_can_v1_make_id RCR_CAN_V1_FN_OUTPUT_COMMAND n)"
proof -
  have i: "can_id (bus_frame f) AND kCanSffMask = mf_can_id f" by (rule bus_frame_flags(3)) (use assms in auto)
  have "mf_can_id f AND kCanSffMask = mf_can_id f" using assms by (simp add: mcu_frame_wf_def)
  then show ?thesis
    unfolding i make_id_eq
    using make_can_id_from_can_id [of "mf_can_id f" Function.OutputCommand]
      node_id_make_can_id [OF assms(3), of Function.OutputCommand] function_make_can_id [of Function.OutputCommand n]
    by (auto simp: make_can_id_sff)
qed

lemma for_node_decoded:
  "decode_output_command f = Inr m \<Longrightarrow> node_id_from_can_id (can_id f AND kCanSffMask) = n \<Longrightarrow>
   for_node n (decode_output_command f) = Some m"
  by (auto simp: for_node_def decode_output_command_def Let_def split: sum.splits if_splits)

lemma same_frame:
  assumes s: "same_node c n r" and t: "c \<le> t" "t < c + lease_window" and f: "mcu_frame_wf f" "\<not> mf_extended f"
  shows "same_node c (fst (sim_react (EFrame f) t n)) (fst (mcu_react (EFrame f) t r)) \<and>
         map_option bus_frame (snd (mcu_react (EFrame f) t r)) = snd (sim_react (EFrame f) t n)"
proof -
  let ?f = "f\<lparr>mf_receive_ms := word_of_int t\<rparr>"
  have w: "mcu_frame_wf ?f" "bus_frame ?f = bus_frame f" using f by (simp_all add: mcu_frame_wf_def bus_frame_def)
  have id: "nf_node_id (nl_config n) = rn_node_id r" "rn_node_id r \<le> 31" using s by (simp_all add: same_node_def)
  note addr = addressed_iff [OF f id(2)]
  show ?thesis
  proof (cases "mf_can_id f = ucast (rcr_can_v1_make_id RCR_CAN_V1_FN_OUTPUT_COMMAND (rn_node_id r))")
    case False
    then show ?thesis using s addr id by (auto simp: on_frame_def rcr_node_on_frame_def Let_def hr_default_def)
  next
    case True
    then have a: "function_from_can_id (can_id (bus_frame f) AND kCanSffMask) = Function_code Function.OutputCommand"
      "node_id_from_can_id (can_id (bus_frame f) AND kCanSffMask) = rn_node_id r" using addr by auto
    show ?thesis
    proof (cases "decode_output_command (bus_frame f)")
      case (Inl e)
      then have "rcr_can_v1_decode_output_command ?f (rn_node_id r) = None"
        by (simp add: decode_output_command_eq [OF w(1)] w(2) for_node_def)
      moreover have "same_node c (n\<lparr>nl_protocol_rejects := nl_protocol_rejects n + 1\<rparr>)
          (r\<lparr>rn_protocol_rejects := rn_protocol_rejects r + 1\<rparr>)"
        using s by (simp add: same_node_def rcr_node_fault_code_def)
      ultimately show ?thesis using True a id Inl
        by (simp add: on_frame_def rcr_node_on_frame_def Let_def hr_default_def)
    next
      case (Inr cmd)
      then have "rcr_can_v1_decode_output_command ?f (rn_node_id r) = Some cmd"
        unfolding decode_output_command_eq [OF w(1)] w(2) by (intro for_node_decoded a(2))
      then show ?thesis using True a id Inr same_apply [OF s t, of cmd]
        by (simp add: on_frame_def rcr_node_on_frame_def Let_def apply_sends encode_output_status_eq
          split_beta)
    qed
  qed
qed

lemma same_react:
  assumes s: "same_node c n r" and t: "c \<le> t" "t < c + lease_window" and e: "event_wf e"
  shows "same_node (if e = ETick then t else c) (fst (sim_react e t n)) (fst (mcu_react e t r)) \<and>
         map_option bus_frame (snd (mcu_react e t r)) = snd (sim_react e t n)"
proof (cases e)
  case (EFrame f)
  then show ?thesis using same_frame [OF s t, of f] e by (simp add: event_wf_def)
next
  case ETick
  then show ?thesis using same_expire(1) [OF s t] by simp
next
  case EHeartbeat
  then show ?thesis using s
    by (simp add: make_heartbeat_def rcr_node_make_heartbeat_def same_node_def encode_heartbeat_eq rcr_node_fault_code_def)
next
  case EStatus
  then show ?thesis using s
    by (simp add: make_status_def rcr_node_make_status_def same_node_def encode_node_status_eq rcr_node_interlock_ready_def)
next
  case (EReady b)
  then show ?thesis using s
    by (auto simp: nl_set_interlock_ready_def nl_set_fault_code_def rcr_node_set_bus_ready_def neutralize_output_def
      same_node_def rcr_node_fault_code_def)
next
  case (EInput b)
  then show ?thesis using s by (simp add: nl_set_input_bits_def same_node_def rcr_node_fault_code_def)
qed

lemma same_output: "same_node c n r \<Longrightarrow> nl_output_bits n = rn_output_bits r"
  by (simp add: same_node_def)

lemma same_run:
  "same_node c n r \<Longrightarrow> paced c evs \<Longrightarrow>
   run_node sim_react nl_output_bits evs n =
     map (map_prod (map_option bus_frame) id) (run_node mcu_react rn_output_bits evs r)"
proof (induction evs arbitrary: c n r)
  case (Cons p evs)
  obtain t e where p: "p = (t, e)" by (cases p)
  from Cons.prems have "c \<le> t" "t < c + lease_window" "event_wf e" "paced (if e = ETick then t else c) evs"
    by (simp_all add: p)
  moreover from this have "same_node (if e = ETick then t else c) (fst (sim_react e t n)) (fst (mcu_react e t r)) \<and>
      map_option bus_frame (snd (mcu_react e t r)) = snd (sim_react e t n)"
    using same_react [OF Cons.prems(1)] by blast
  ultimately show ?case using Cons.IH
    by (auto simp: p split_beta Let_def dest: same_output)
qed simp

text \<open>
  C9. Firmware and simulated node are interchangeable on the bus. Started as the same node, driven by
  the same standard frames, lease checks, heartbeats, status reports, link changes and inputs, they send
  the same frames and drive the same outputs at every step. The firmware may run on a counter that
  wraps around: it is enough that the lease is checked at least once in the
  window of 2 to the 31 milliseconds less the longest validity.
\<close>

theorem firmware_refines_sim:
  assumes "1 \<le> node_id" and "node_id \<le> 31" and "paced t0 evs"
  shows "run_node sim_react nl_output_bits evs
           (nl_init \<lparr>nf_node_id = node_id, nf_boot_id = boot_id, nf_session_id = session_id, nf_interlock_ready = True,
              nf_input_bits = 0, nf_fault_code = 0\<rparr>) =
         map (map_prod (map_option bus_frame) id)
           (run_node mcu_react rn_output_bits evs (rcr_node_init node_id boot_id session_id True))"
proof -
  have "node_id \<noteq> 0" using assms(1) by (simp add: one_le_word_iff)
  then have "same_node t0 (nl_init \<lparr>nf_node_id = node_id, nf_boot_id = boot_id, nf_session_id = session_id,
      nf_interlock_ready = True, nf_input_bits = 0, nf_fault_code = 0\<rparr>) (rcr_node_init node_id boot_id session_id True)"
    using assms(2) by (simp add: same_node_def nl_init_def rcr_node_init_def rcr_node_fault_code_def)
  then show ?thesis by (rule same_run) (rule assms(3))
qed

text \<open>A run across the wrap of the counter: a command, its replay, the running lease, and its end.\<close>

definition wrap_events :: "(int \<times> NodeEvent) list" where
  "wrap_events = (let f = \<lparr>mf_can_id = 0x61, mf_dlc = 8, mf_data = [1, 1, 0, 9, 0, 7, 1, 20], mf_extended = False,
       mf_rtr = False, mf_receive_ms = 0\<rparr>
     in [(4294967200, EFrame f), (4294967210, EFrame f), (4294967390, ETick), (4294967400, ETick)])"

theorem firmware_refines_sim_witness:
  "paced 4294967200 wrap_events \<and>
   map snd (run_node mcu_react rn_output_bits wrap_events (rcr_node_init 1 3 9 True)) = [1, 1, 1, 0] \<and>
   map snd (run_node sim_react nl_output_bits wrap_events
     (nl_init \<lparr>nf_node_id = 1, nf_boot_id = 3, nf_session_id = 9, nf_interlock_ready = True, nf_input_bits = 0,
        nf_fault_code = 0\<rparr>)) = [1, 1, 1, 0]"
proof -
  have p: "paced 4294967200 wrap_events" by code_simp
  have "map snd (run_node mcu_react rn_output_bits wrap_events (rcr_node_init 1 3 9 True)) = [1, 1, 1, 0]" by code_simp
  with p firmware_refines_sim [of 1 4294967200 wrap_events 3 9] show ?thesis by simp
qed

end
