(* ===== verification/Mcu_Io.thy ===== *)
theory Mcu_Io
  imports Mcu_Node
begin

text \<open>
  The firmware's position input and servo output: polarity and debouncing of the target sensor
  (\<^verbatim>\<open>firmware/stm32f103/src/input_debounce.c\<close>) and the pulse width that
  belongs to the node's output (\<^verbatim>\<open>firmware/stm32f103/src/servo_pwm.c\<close>).
\<close>

unbundle bit_operations_syntax

section \<open>Position sensor\<close>

definition RCR_INPUT_DEBOUNCE_MS :: u32 where "RCR_INPUT_DEBOUNCE_MS = 20"

datatype rcr_target_sensor_polarity_t = POLARITY_UNSET | POLARITY_ACTIVE_HIGH | POLARITY_ACTIVE_LOW

definition RCR_TARGET_SENSOR_POLARITY :: rcr_target_sensor_polarity_t where
  "RCR_TARGET_SENSOR_POLARITY = POLARITY_ACTIVE_HIGH"

record rcr_input_debounce_t =
  db_armed :: bool
  db_candidate_reached :: bool
  db_stable_reached :: bool
  db_candidate_since_ms :: u32

definition rcr_input_debounce_init :: rcr_input_debounce_t where
  "rcr_input_debounce_init =
     \<lparr>db_armed = False, db_candidate_reached = False, db_stable_reached = False, db_candidate_since_ms = 0\<rparr>"

definition rcr_target_sensor_active :: "bool \<Rightarrow> rcr_target_sensor_polarity_t \<Rightarrow> bool" where
  "rcr_target_sensor_active raw_high polarity =
     (if polarity = POLARITY_ACTIVE_HIGH then raw_high
      else if polarity = POLARITY_ACTIVE_LOW then \<not> raw_high
      else False)"

definition rcr_input_debounce_update ::
  "bool \<Rightarrow> u32 \<Rightarrow> u32 \<Rightarrow> rcr_input_debounce_t \<Rightarrow> rcr_input_debounce_t \<times> bool" where
  "rcr_input_debounce_update reached now_ms debounce_ms state =
     (if \<not> db_armed state \<or> reached \<noteq> db_candidate_reached state
      then (state\<lparr>db_armed := True, db_candidate_reached := reached, db_candidate_since_ms := now_ms\<rparr>,
            db_stable_reached state)
      else let state = (if sint (now_ms - db_candidate_since_ms state) \<ge> sint debounce_ms
                        then state\<lparr>db_stable_reached := db_candidate_reached state\<rparr> else state)
           in (state, db_stable_reached state))"

definition rcr_input_bits_from_reached :: "bool \<Rightarrow> u16" where
  "rcr_input_bits_from_reached reached = (if reached then RCR_CAN_V1_INPUT_BIT_POSITION_REACHED else 0)"

section \<open>Servo pulse\<close>

definition RCR_SERVO_PWM_DISABLED_US :: u16 where "RCR_SERVO_PWM_DISABLED_US = 0"
definition RCR_SERVO_POSITION_A_US :: u16 where "RCR_SERVO_POSITION_A_US = 1250"
definition RCR_SERVO_POSITION_B_US :: u16 where "RCR_SERVO_POSITION_B_US = 1750"

definition rcr_servo_pwm_target_us :: "bool \<Rightarrow> u8 \<Rightarrow> u16" where
  "rcr_servo_pwm_target_us lease_active output_bits =
     (if \<not> lease_active then RCR_SERVO_PWM_DISABLED_US
      else if output_bits AND 1 \<noteq> 0 then RCR_SERVO_POSITION_B_US else RCR_SERVO_POSITION_A_US)"

section \<open>Debouncing over a run of samples\<close>

text \<open>A sample is the time in milliseconds and the level; the firmware sees the time through its counter.\<close>

type_synonym sample = "int \<times> bool"

definition debounce_step :: "sample \<Rightarrow> rcr_input_debounce_t \<Rightarrow> rcr_input_debounce_t" where
  "debounce_step p s = fst (rcr_input_debounce_update (snd p) (word_of_int (fst p)) RCR_INPUT_DEBOUNCE_MS s)"

definition debounced :: "sample list \<Rightarrow> bool" where
  "debounced xs = db_stable_reached (fold debounce_step xs rcr_input_debounce_init)"

text \<open>Samples in order of time, all within the half range of the counter.\<close>

definition samples_ok :: "sample list \<Rightarrow> bool" where
  "samples_ok xs \<longleftrightarrow> sorted (map fst xs) \<and> (\<forall>p\<in>set xs. \<forall>q\<in>set xs. fst p - fst q < 2 ^ 31)"

text \<open>The last samples, from time \<open>t\<close> on, all have level \<open>v\<close>.\<close>

definition held_since :: "int \<Rightarrow> bool \<Rightarrow> sample list \<Rightarrow> bool" where
  "held_since t v xs \<longleftrightarrow> (\<exists>ys zs. xs = ys @ (t, v) # zs \<and> (\<forall>p\<in>set zs. snd p = v))"

text \<open>The candidate is the current level, timed from the start of the run of equal samples.\<close>

lemma candidate_tracks:
  assumes "xs \<noteq> []"
  shows "\<exists>ys t zs. xs = ys @ (t, snd (last xs)) # zs \<and> (\<forall>p\<in>set zs. snd p = snd (last xs)) \<and>
           (ys = [] \<or> snd (last ys) \<noteq> snd (last xs)) \<and>
           db_armed (fold debounce_step xs rcr_input_debounce_init) \<and>
           db_candidate_reached (fold debounce_step xs rcr_input_debounce_init) = snd (last xs) \<and>
           db_candidate_since_ms (fold debounce_step xs rcr_input_debounce_init) = word_of_int t"
  using assms
proof (induction xs rule: rev_induct)
  case (snoc p xs)
  let ?s = "fold debounce_step xs rcr_input_debounce_init"
  show ?case
  proof (cases "xs = []")
    case True
    then show ?thesis
      by (cases p) (rule exI [of _ "[]"], rule exI [of _ "fst p"], rule exI [of _ "[]"],
        simp add: debounce_step_def rcr_input_debounce_update_def rcr_input_debounce_init_def)
  next
    case False
    then obtain ys t zs where i: "xs = ys @ (t, snd (last xs)) # zs" "\<forall>q\<in>set zs. snd q = snd (last xs)"
      "ys = [] \<or> snd (last ys) \<noteq> snd (last xs)" "db_armed ?s" "db_candidate_reached ?s = snd (last xs)"
      "db_candidate_since_ms ?s = word_of_int t" using snoc.IH by blast
    show ?thesis
    proof (cases "snd p = snd (last xs)")
      case True
      then have "db_armed (debounce_step p ?s) \<and> db_candidate_reached (debounce_step p ?s) = snd p \<and>
          db_candidate_since_ms (debounce_step p ?s) = word_of_int t"
        using i by (simp add: debounce_step_def rcr_input_debounce_update_def Let_def)
      moreover have "xs @ [p] = ys @ (t, snd p) # (zs @ [p])" using i(1) True by simp
      ultimately show ?thesis using i(2,3) True
        by - (rule exI [of _ ys], rule exI [of _ t], rule exI [of _ "zs @ [p]"], auto)
    next
      case changed: False
      then have "db_armed (debounce_step p ?s) \<and> db_candidate_reached (debounce_step p ?s) = snd p \<and>
          db_candidate_since_ms (debounce_step p ?s) = word_of_int (fst p)"
        using i by (simp add: debounce_step_def rcr_input_debounce_update_def)
      then show ?thesis using changed
        by (cases p) (rule exI [of _ xs], rule exI [of _ "fst p"], rule exI [of _ "[]"], auto)
    qed
  qed
qed simp

lemma in_set_dropI: "n \<le> k \<Longrightarrow> k < length xs \<Longrightarrow> xs ! k \<in> set (drop n xs)"
  using nth_mem [of "k - n" "drop n xs"] by simp

lemma last_run_first:
  assumes "xs = ys @ (t, v) # zs" and "ys = [] \<or> snd (last ys) \<noteq> v" and "sorted (map fst xs)"
    and "xs = ys' @ (u, v) # zs'" and "\<forall>p\<in>set zs'. snd p = v"
  shows "t \<le> u"
proof (cases "length ys \<le> length ys'")
  case True
  have "length ys' < length xs" using assms(4) by simp
  then have "fst (xs ! length ys) \<le> fst (xs ! length ys')"
    using sorted_nth_mono [OF assms(3) True] True by simp
  moreover have "xs ! length ys = (t, v)" unfolding assms(1) by simp
  moreover have "xs ! length ys' = (u, v)" unfolding assms(4) by simp
  ultimately show ?thesis by simp
next
  case False
  then have n: "ys \<noteq> []" "length ys' \<le> length ys - 1" "length ys - 1 < length ys" by auto
  have "last ys = xs ! (length ys - 1)" using n unfolding assms(1) by (simp add: last_conv_nth nth_append)
  also have "\<dots> \<in> set (drop (length ys') xs)"
    using n assms(1) by (intro in_set_dropI) auto
  finally have "last ys \<in> insert (u, v) (set zs')" using assms(4) by simp
  then show ?thesis using assms(2,5) n by auto
qed

lemma debounce_window: "0 \<le> d \<Longrightarrow> d < 2 ^ 31 \<Longrightarrow> sint (word_of_int d :: u32) = d"
  unfolding sint_sbintrunc' by (rule signed_take_bit_int_eq_self) auto

text \<open>One more sample commits its level exactly when it has been held for the debounce time.\<close>

lemma debounced_snoc:
  assumes "samples_ok (xs @ [(t, v)])"
  shows "debounced (xs @ [(t, v)]) = (if \<exists>t0. held_since t0 v xs \<and> t0 + 20 \<le> t then v else debounced xs)"
proof (cases "xs = []")
  case True
  then show ?thesis by (simp add: debounced_def debounce_step_def rcr_input_debounce_update_def rcr_input_debounce_init_def held_since_def)
next
  case False
  let ?s = "fold debounce_step xs rcr_input_debounce_init"
  obtain ys t0 zs where i: "xs = ys @ (t0, snd (last xs)) # zs" "\<forall>q\<in>set zs. snd q = snd (last xs)"
    "ys = [] \<or> snd (last ys) \<noteq> snd (last xs)" "db_armed ?s" "db_candidate_reached ?s = snd (last xs)"
    "db_candidate_since_ms ?s = word_of_int t0" using candidate_tracks [OF False] by blast
  show ?thesis
  proof (cases "v = snd (last xs)")
    case True
    have "(t0, snd (last xs)) \<in> set xs" using i(1) by (metis in_set_conv_decomp)
    then have b: "0 \<le> t - t0" "t - t0 < 2 ^ 31"
      using assms by (auto simp: samples_ok_def sorted_append)
    have w: "sint (word_of_int t - db_candidate_since_ms ?s) = t - t0"
      using debounce_window [OF b] by (simp add: i(6))
    have "\<And>u. held_since u v xs \<Longrightarrow> t0 \<le> u"
      using last_run_first [OF i(1,3)] assms True by (auto simp: held_since_def samples_ok_def sorted_append)
    moreover have "held_since t0 v xs" using i(1,2) True unfolding held_since_def by blast
    ultimately have "(\<exists>u. held_since u v xs \<and> u + 20 \<le> t) \<longleftrightarrow> 20 \<le> t - t0" by force
    then show ?thesis using i(4,5) w True
      by (simp add: debounced_def debounce_step_def rcr_input_debounce_update_def RCR_INPUT_DEBOUNCE_MS_def Let_def)
  next
    case ch: False
    then have "\<not> held_since u v xs" for u
      using False by (auto simp: held_since_def split: if_splits)
    then show ?thesis using i ch
      by (auto simp: debounced_def debounce_step_def rcr_input_debounce_update_def)
  qed
qed

lemma samples_ok_prefix: "samples_ok (xs @ ys) \<Longrightarrow> samples_ok xs"
  by (simp add: samples_ok_def sorted_append)

lemma reached_was_held:
  "samples_ok xs \<Longrightarrow> debounced xs \<Longrightarrow>
   \<exists>ys t0 t zs. xs = ys @ (t, True) # zs \<and> held_since t0 True ys \<and> t0 + 20 \<le> t"
proof (induction xs rule: rev_induct)
  case Nil
  then show ?case by (simp add: debounced_def rcr_input_debounce_init_def)
next
  case (snoc p xs)
  obtain t v where p: "p = (t, v)" by (cases p)
  show ?case
  proof (cases "\<exists>t0. held_since t0 v xs \<and> t0 + 20 \<le> t")
    case True
    then have v using snoc.prems debounced_snoc [of xs t v] by (simp add: p)
    then show ?thesis using True by (auto simp: p)
  next
    case False
    then have "debounced xs" using snoc.prems debounced_snoc [of xs t v] by (simp add: p)
    then obtain ys t0 u zs where "xs = ys @ (u, True) # zs" "held_since t0 True ys" "t0 + 20 \<le> u"
      using snoc.IH samples_ok_prefix [OF snoc.prems(1)] by blast
    then show ?thesis by (intro exI [of _ ys] exI [of _ t0] exI [of _ u] exI [of _ "zs @ [p]"]) simp
  qed
qed

section \<open>Property\<close>

text \<open>
  Debouncing. A sample changes the reported position exactly when its level has been held, without
  another level in between, for at least 20 ms; the position is never reported as reached unless some
  20 ms of samples said so. This holds across the wrap of the millisecond counter.
\<close>

theorem debounce_exact:
  assumes "samples_ok (xs @ [(t, v)])"
  shows "debounced (xs @ [(t, v)]) = (if \<exists>t0. held_since t0 v xs \<and> t0 + 20 \<le> t then v else debounced xs) \<and>
         (debounced xs \<longrightarrow>
            (\<exists>ys t0 t1 zs. xs = ys @ (t1, True) # zs \<and> held_since t0 True ys \<and> t0 + 20 \<le> t1))"
  using debounced_snoc [OF assms] reached_was_held [OF samples_ok_prefix [OF assms]] by blast

text \<open>A glitch at the wrap of the counter, then a level that is held for 20 ms.\<close>

definition demo_samples :: "sample list" where
  "demo_samples = [(4294967270, True), (4294967285, False), (4294967290, True), (4294967300, True)]"

theorem debounce_exact_witness:
  "samples_ok (demo_samples @ [(4294967310, True)]) \<and> \<not> debounced demo_samples \<and>
   debounced (demo_samples @ [(4294967310, True)])"
proof -
  have o: "samples_ok (demo_samples @ [(4294967310, True)])" by code_simp
  have n: "\<not> debounced demo_samples" by code_simp
  have "held_since 4294967290 True demo_samples"
    unfolding held_since_def demo_samples_def
    by (rule exI [of _ "[(4294967270, True), (4294967285, False)]"]) auto
  then have "\<exists>t0. held_since t0 True demo_samples \<and> t0 + 20 \<le> 4294967310" by (intro exI [of _ 4294967290]) simp
  with o n debounce_exact [OF o] show ?thesis by simp
qed

end
