(* ===== verification/Mcu_Platform.thy ===== *)
theory Mcu_Platform
  imports Mcu_Io Input_Queue
begin

text \<open>
  The register-level platform of the firmware
  (\<^verbatim>\<open>firmware/stm32f103/src/platform_stm32f103.c\<close>): clock, timer, GPIO and CAN set-up, the receive
  interrupt and the two frame rings, the transmit mailboxes, the servo and LED outputs, and the session
  log in flash. A peripheral register is a cell of a register file and holds what was last written to it.
  What the hardware decides is an input: the successive reads of a status
  register, the receive mailbox contents, the outcome of a flash operation. Memory barriers and the
  interrupt mask have no counterpart; the operations they protect are single steps here.
\<close>

unbundle bit_operations_syntax

section \<open>Registers\<close>

type_synonym regs = "u32 \<Rightarrow> u32"

definition RCC_BASE :: u32 where "RCC_BASE = 0x40021000"
definition FLASH_BASE :: u32 where "FLASH_BASE = 0x40022000"
definition AFIO_BASE :: u32 where "AFIO_BASE = 0x40010000"
definition GPIOA_BASE :: u32 where "GPIOA_BASE = 0x40010800"
definition GPIOC_BASE :: u32 where "GPIOC_BASE = 0x40011000"
definition TIM1_BASE :: u32 where "TIM1_BASE = 0x40012C00"
definition CAN1_BASE :: u32 where "CAN1_BASE = 0x40006400"
definition IWDG_BASE :: u32 where "IWDG_BASE = 0x40003000"
definition SYSTICK_BASE :: u32 where "SYSTICK_BASE = 0xE000E010"
definition NVIC_ISER0 :: u32 where "NVIC_ISER0 = 0xE000E100"

lemmas reg_bases = RCC_BASE_def FLASH_BASE_def AFIO_BASE_def GPIOA_BASE_def GPIOC_BASE_def TIM1_BASE_def
  CAN1_BASE_def IWDG_BASE_def SYSTICK_BASE_def NVIC_ISER0_def

definition reg_set :: "u32 \<Rightarrow> u32 \<Rightarrow> regs \<Rightarrow> regs" where "reg_set a v r = r(a := v)"
definition reg_or :: "u32 \<Rightarrow> u32 \<Rightarrow> regs \<Rightarrow> regs" where "reg_or a v r = r(a := r a OR v)"
definition reg_clear :: "u32 \<Rightarrow> u32 \<Rightarrow> regs \<Rightarrow> regs" where "reg_clear a v r = r(a := r a AND NOT v)"

lemmas reg_ops = reg_set_def reg_or_def reg_clear_def

definition bitv :: "nat \<Rightarrow> u32" where "bitv n = push_bit n 1"

lemma bit_bitv: "bit (bitv k) n \<longleftrightarrow> n = k \<and> n < 32"
  by (auto simp: bitv_def bit_simps)

lemma and_bitv: "x AND bitv k = 0 \<longleftrightarrow> \<not> bit x k"
proof
  assume "x AND bitv k = 0"
  then have "\<not> bit (x AND bitv k) k" by simp
  then show "\<not> bit x k" by (auto simp: bit_and_iff bit_bitv dest: bit_imp_le_length)
next
  assume "\<not> bit x k"
  then show "x AND bitv k = 0" by (intro bit_word_eqI) (auto simp: bit_and_iff bit_bitv)
qed

text \<open>
  A polling loop: the \<open>k\<close>-th read of the status register finds the condition or not; the loop gives up when the
  counter reaches zero.
\<close>

function wait_for :: "(nat \<Rightarrow> bool) \<Rightarrow> nat \<Rightarrow> nat \<Rightarrow> bool" where
  "wait_for found k timeout =
     (if found k then True
      else if timeout - 1 = 0 then False
      else wait_for found (k + 1) (timeout - 1))"
  by pat_completeness auto
termination by (relation "measure (\<lambda>(_, _, t). t)") auto

declare wait_for.simps [simp del]

definition POLLS :: nat where "POLLS = 1000000"

lemma wait_for_iff: "0 < n \<Longrightarrow> wait_for found k n \<longleftrightarrow> (\<exists>i<n. found (k + i))"
proof (induction found k n rule: wait_for.induct)
  case (1 found k n)
  show ?case
  proof (cases "found k \<or> n - 1 = 0")
    case True
    then show ?thesis using 1(2) by (subst wait_for.simps) (auto intro: exI [of _ 0] simp: le_Suc_eq)
  next
    case False
    then have "wait_for found k n \<longleftrightarrow> (\<exists>i<n - 1. found (k + 1 + i))"
      using 1 by (subst wait_for.simps) simp
    also have "\<dots> \<longleftrightarrow> (\<exists>i<n. found (k + i))"
    proof
      assume "\<exists>i<n - 1. found (k + 1 + i)"
      then obtain i where "i < n - 1" "found (k + 1 + i)" by blast
      then show "\<exists>i<n. found (k + i)" by (intro exI [of _ "1 + i"]) auto
    next
      assume "\<exists>i<n. found (k + i)"
      then obtain i where i: "i < n" "found (k + i)" by blast
      then have "i \<noteq> 0" using False by (auto intro: ccontr)
      then show "\<exists>i<n - 1. found (k + 1 + i)" using i by (intro exI [of _ "i - 1"]) auto
    qed
    finally show ?thesis .
  qed
qed

section \<open>Set-up\<close>

definition configure_led_off :: "regs \<Rightarrow> regs" where
  "configure_led_off r =
     (let r = reg_or (RCC_BASE + 0x18) (bitv 4) r;
          crh = r (GPIOC_BASE + 0x04);
          crh = crh AND NOT (push_bit 20 0xF);
          crh = crh OR push_bit 20 0x2;
          r = reg_set (GPIOC_BASE + 0x04) crh r
      in reg_set (GPIOC_BASE + 0x10) (bitv 13) r)"

definition configure_clock_72mhz :: "(nat \<Rightarrow> bool) \<Rightarrow> (nat \<Rightarrow> bool) \<Rightarrow> (nat \<Rightarrow> bool) \<Rightarrow> regs \<Rightarrow> regs \<times> bool" where
  "configure_clock_72mhz hse_ready pll_ready pll_selected r =
     (let r = reg_or (RCC_BASE + 0x00) (bitv 16) r in
      if \<not> wait_for hse_ready 0 POLLS then (r, False)
      else let
        r = reg_set (FLASH_BASE + 0x00) (bitv 4 OR 2) r;
        cfgr = r (RCC_BASE + 0x04);
        cfgr = cfgr AND NOT (push_bit 4 0xF OR push_bit 8 0x7 OR push_bit 11 0x7 OR push_bit 18 0xF OR bitv 16);
        cfgr = cfgr OR push_bit 8 0x4;
        cfgr = cfgr OR bitv 16;
        cfgr = cfgr OR push_bit 18 0x7;
        r = reg_set (RCC_BASE + 0x04) cfgr r;
        r = reg_or (RCC_BASE + 0x00) (bitv 24) r in
      if \<not> wait_for pll_ready 0 POLLS then (r, False)
      else let r = reg_set (RCC_BASE + 0x04) ((r (RCC_BASE + 0x04) AND NOT 0x3) OR 0x2) r
           in (r, wait_for pll_selected 0 POLLS))"

definition configure_systick :: "regs \<Rightarrow> regs" where
  "configure_systick r =
     (let r = reg_set (SYSTICK_BASE + 0x00) 0 r;
          r = reg_set (SYSTICK_BASE + 0x04) (72000 - 1) r;
          r = reg_set (SYSTICK_BASE + 0x08) 0 r
      in reg_set (SYSTICK_BASE + 0x00) 7 r)"

definition configure_target_sensor_input :: "regs \<Rightarrow> regs" where
  "configure_target_sensor_input r =
     (let r = reg_or (RCC_BASE + 0x18) (bitv 2) r;
          crl = r (GPIOA_BASE + 0x00);
          crl = crl AND NOT 0xF;
          crl = crl OR 0x8;
          r = reg_set (GPIOA_BASE + 0x00) crl r
      in reg_set (GPIOA_BASE + 0x10) 1 r)"

definition configure_servo_pwm_off :: "regs \<Rightarrow> regs" where
  "configure_servo_pwm_off r =
     (let r = reg_or (RCC_BASE + 0x18) (bitv 2 OR bitv 11) r;
          r = reg_set (GPIOA_BASE + 0x14) (bitv 8) r;
          crh = r (GPIOA_BASE + 0x04);
          crh = crh AND NOT 0xF;
          crh = crh OR 0xB;
          r = reg_set (GPIOA_BASE + 0x04) crh r;
          r = reg_set (TIM1_BASE + 0x00) 0 r;
          r = reg_set (TIM1_BASE + 0x28) 71 r;
          r = reg_set (TIM1_BASE + 0x2C) 19999 r;
          r = reg_set (TIM1_BASE + 0x34) 0 r;
          r = reg_set (TIM1_BASE + 0x18) 0x68 r;
          r = reg_set (TIM1_BASE + 0x20) 1 r;
          r = reg_set (TIM1_BASE + 0x44) (bitv 15) r;
          r = reg_set (TIM1_BASE + 0x14) 1 r
      in reg_set (TIM1_BASE + 0x00) (bitv 7 OR 1) r)"

definition configure_can :: "(nat \<Rightarrow> bool) \<Rightarrow> (nat \<Rightarrow> bool) \<Rightarrow> regs \<Rightarrow> regs \<times> bool" where
  "configure_can init_entered init_left r =
     (let r = reg_or (RCC_BASE + 0x18) (bitv 0 OR bitv 2) r;
          r = reg_or (RCC_BASE + 0x1C) (bitv 25) r;
          crh = r (GPIOA_BASE + 0x04);
          crh = crh AND NOT (push_bit 12 0xF OR push_bit 16 0xF);
          crh = crh OR push_bit 12 0x8;
          crh = crh OR push_bit 16 0xB;
          r = reg_set (GPIOA_BASE + 0x04) crh r;
          r = reg_set (GPIOA_BASE + 0x10) (bitv 11) r;
          r = reg_clear (AFIO_BASE + 0x04) (push_bit 13 0x3) r;
          r = reg_set (CAN1_BASE + 0x00) (bitv 6 OR 1) r in
      if \<not> wait_for init_entered 0 POLLS then (r, False)
      else let
          r = reg_set (CAN1_BASE + 0x1C) (bitv 20 OR push_bit 16 14 OR 3) r;
          r = reg_or (CAN1_BASE + 0x200) 1 r;
          r = reg_clear (CAN1_BASE + 0x21C) 1 r;
          r = reg_clear (CAN1_BASE + 0x204) 1 r;
          r = reg_or (CAN1_BASE + 0x20C) 1 r;
          r = reg_clear (CAN1_BASE + 0x214) 1 r;
          r = reg_set (CAN1_BASE + 0x240) (push_bit 21 0x061) r;
          r = reg_set (CAN1_BASE + 0x244) (push_bit 21 0x7FF OR bitv 2 OR bitv 1) r;
          r = reg_or (CAN1_BASE + 0x21C) 1 r;
          r = reg_clear (CAN1_BASE + 0x200) 1 r;
          r = reg_set (CAN1_BASE + 0x14) (bitv 1) r;
          r = reg_set NVIC_ISER0 (bitv 20) r;
          r = reg_clear (CAN1_BASE + 0x00) 1 r
        in (r, wait_for init_left 0 POLLS))"

record InitPolls =
  ip_hse_ready :: "nat \<Rightarrow> bool"
  ip_pll_ready :: "nat \<Rightarrow> bool"
  ip_pll_selected :: "nat \<Rightarrow> bool"
  ip_init_entered :: "nat \<Rightarrow> bool"
  ip_init_left :: "nat \<Rightarrow> bool"

definition rcr_platform_init :: "InitPolls \<Rightarrow> regs \<Rightarrow> regs \<times> bool" where
  "rcr_platform_init p r =
     (let r = configure_led_off r;
          (r, clock_ok) = configure_clock_72mhz (ip_hse_ready p) (ip_pll_ready p) (ip_pll_selected p) r in
      if \<not> clock_ok then (r, False)
      else let
        r = configure_target_sensor_input r;
        r = configure_servo_pwm_off r;
        r = configure_systick r
      in configure_can (ip_init_entered p) (ip_init_left p) r)"

section \<open>Frame rings\<close>

definition QUEUE_CAPACITY :: nat where "QUEUE_CAPACITY = 8"

record rcr_platform =
  pf_monotonic_ms :: u32
  pf_rx_queue :: "rcr_can_frame_t list"
  pf_rx_head :: nat
  pf_rx_tail :: nat
  pf_rx_overflow :: bool
  pf_tx_queue :: "rcr_can_frame_t list"
  pf_tx_head :: nat
  pf_tx_tail :: nat
  pf_regs :: regs

definition zero_frame :: rcr_can_frame_t where
  "zero_frame = \<lparr>mf_can_id = 0, mf_dlc = 0, mf_data = replicate 8 0, mf_extended = False, mf_rtr = False,
     mf_receive_ms = 0\<rparr>"

definition pf_init :: "regs \<Rightarrow> rcr_platform" where
  "pf_init r = \<lparr>pf_monotonic_ms = 0, pf_rx_queue = replicate QUEUE_CAPACITY zero_frame, pf_rx_head = 0, pf_rx_tail = 0,
     pf_rx_overflow = False, pf_tx_queue = replicate QUEUE_CAPACITY zero_frame, pf_tx_head = 0, pf_tx_tail = 0,
     pf_regs = r\<rparr>"

definition SysTick_Handler :: "rcr_platform \<Rightarrow> rcr_platform" where
  "SysTick_Handler p = p\<lparr>pf_monotonic_ms := pf_monotonic_ms p + 1\<rparr>"

text \<open>The four registers of the receive FIFO's output mailbox.\<close>

record RxMailbox =
  rx_rir :: u32
  rx_rdtr :: u32
  rx_rdlr :: u32
  rx_rdhr :: u32

definition rx_frame :: "u32 \<Rightarrow> RxMailbox \<Rightarrow> rcr_can_frame_t" where
  "rx_frame monotonic_ms m =
     (let extended = (rx_rir m AND bitv 2 \<noteq> 0) in
      \<lparr>mf_can_id = (if extended then drop_bit 3 (rx_rir m) AND 0x1FFFFFFF else drop_bit 21 (rx_rir m) AND 0x7FF),
       mf_dlc = ucast (rx_rdtr m AND 0xF),
       mf_data = map (\<lambda>index. ucast (drop_bit (index * 8) (rx_rdlr m))) [0..<4] @
                 map (\<lambda>index. ucast (drop_bit (index * 8) (rx_rdhr m))) [0..<4],
       mf_extended = extended, mf_rtr = (rx_rir m AND bitv 1 \<noteq> 0), mf_receive_ms = monotonic_ms\<rparr>)"

definition rx_store :: "rcr_can_frame_t \<Rightarrow> rcr_platform \<Rightarrow> rcr_platform" where
  "rx_store frame p =
     (let nxt = (pf_rx_head p + 1) mod QUEUE_CAPACITY in
      if nxt = pf_rx_tail p then p\<lparr>pf_rx_overflow := True\<rparr>
      else p\<lparr>pf_rx_queue := (pf_rx_queue p)[pf_rx_head p := frame], pf_rx_head := nxt\<rparr>)"

text \<open>One run of the receive interrupt: it drains the messages the FIFO holds and releases each.\<close>

definition USB_LP_CAN1_RX0_IRQHandler :: "RxMailbox list \<Rightarrow> rcr_platform \<Rightarrow> rcr_platform" where
  "USB_LP_CAN1_RX0_IRQHandler fifo p =
     fold (\<lambda>m p. let p = rx_store (rx_frame (pf_monotonic_ms p) m) p
                 in p\<lparr>pf_regs := reg_set (CAN1_BASE + 0x0C) (bitv 5) (pf_regs p)\<rparr>) fifo p"

definition rcr_platform_can_rx_pop :: "rcr_platform \<Rightarrow> rcr_platform \<times> rcr_can_frame_t option" where
  "rcr_platform_can_rx_pop p =
     (if pf_rx_tail p = pf_rx_head p then (p, None)
      else (p\<lparr>pf_rx_tail := (pf_rx_tail p + 1) mod QUEUE_CAPACITY\<rparr>, Some (pf_rx_queue p ! pf_rx_tail p)))"

definition rcr_platform_take_rx_overflow :: "rcr_platform \<Rightarrow> rcr_platform \<times> bool" where
  "rcr_platform_take_rx_overflow p = (p\<lparr>pf_rx_overflow := False\<rparr>, pf_rx_overflow p)"

definition rcr_platform_can_tx_enqueue :: "rcr_can_frame_t \<Rightarrow> rcr_platform \<Rightarrow> rcr_platform \<times> bool" where
  "rcr_platform_can_tx_enqueue frame p =
     (if mf_extended frame \<or> mf_rtr frame \<or> mf_dlc frame \<noteq> RCR_CAN_V1_DLC then (p, False)
      else let nxt = (pf_tx_head p + 1) mod QUEUE_CAPACITY in
        if nxt = pf_tx_tail p then (p, False)
        else (p\<lparr>pf_tx_queue := (pf_tx_queue p)[pf_tx_head p := frame], pf_tx_head := nxt\<rparr>, True))"

definition mailbox_offset :: "u32 \<Rightarrow> u32 option" where
  "mailbox_offset tsr =
     (if tsr AND bitv 26 \<noteq> 0 then Some 0
      else if tsr AND bitv 27 \<noteq> 0 then Some 0x10
      else if tsr AND bitv 28 \<noteq> 0 then Some 0x20
      else None)"

definition pack4 :: "u8 \<Rightarrow> u8 \<Rightarrow> u8 \<Rightarrow> u8 \<Rightarrow> u32" where
  "pack4 a b c d = ucast a OR push_bit 8 (ucast b) OR push_bit 16 (ucast c) OR push_bit 24 (ucast d)"

definition try_load_tx_mailbox :: "u32 \<Rightarrow> rcr_can_frame_t \<Rightarrow> regs \<Rightarrow> regs \<times> bool" where
  "try_load_tx_mailbox tsr frame r =
     (case mailbox_offset tsr of None \<Rightarrow> (r, False)
      | Some offset \<Rightarrow>
          let d = mf_data frame;
              low = pack4 (d ! 0) (d ! 1) (d ! 2) (d ! 3);
              high = pack4 (d ! 4) (d ! 5) (d ! 6) (d ! 7);
              base = CAN1_BASE + 0x180 + offset;
              r = reg_set (base + 0x00) (push_bit 21 (mf_can_id frame AND 0x7FF)) r;
              r = reg_set (base + 0x04) (ucast RCR_CAN_V1_DLC) r;
              r = reg_set (base + 0x08) low r;
              r = reg_set (base + 0x0C) high r
          in (reg_or (base + 0x00) 1 r, True))"

text \<open>
  The transmit pump. \<open>tsr\<close> gives the successive reads of the status register; the second result is what was
  handed to the controller. A ring holds fewer than \<open>QUEUE_CAPACITY\<close> frames, so that many turns are enough.
\<close>

fun tx_pump_loop :: "nat \<Rightarrow> (nat \<Rightarrow> u32) \<Rightarrow> rcr_platform \<Rightarrow> rcr_platform \<times> rcr_can_frame_t list" where
  "tx_pump_loop 0 tsr p = (p, [])"
| "tx_pump_loop (Suc n) tsr p =
     (if pf_tx_tail p = pf_tx_head p then (p, [])
      else let frame = pf_tx_queue p ! pf_tx_tail p;
               (r, loaded) = try_load_tx_mailbox (tsr 0) frame (pf_regs p) in
        if \<not> loaded then (p\<lparr>pf_regs := r\<rparr>, [])
        else let (p, sent) = tx_pump_loop n (\<lambda>k. tsr (Suc k))
                   (p\<lparr>pf_regs := r, pf_tx_tail := (pf_tx_tail p + 1) mod QUEUE_CAPACITY\<rparr>)
             in (p, frame # sent))"

definition rcr_platform_can_tx_pump :: "(nat \<Rightarrow> u32) \<Rightarrow> rcr_platform \<Rightarrow> rcr_platform \<times> rcr_can_frame_t list" where
  "rcr_platform_can_tx_pump tsr p = tx_pump_loop QUEUE_CAPACITY tsr p"

section \<open>Inputs, outputs and the hardware watchdog\<close>

definition rcr_platform_can_bus_off :: "u32 \<Rightarrow> bool" where
  "rcr_platform_can_bus_off esr \<longleftrightarrow> esr AND bitv 2 \<noteq> 0"

definition rcr_platform_target_sensor_raw_high :: "u32 \<Rightarrow> bool" where
  "rcr_platform_target_sensor_raw_high idr \<longleftrightarrow> idr AND 1 \<noteq> 0"

definition rcr_platform_target_sensor_active :: "u32 \<Rightarrow> bool" where
  "rcr_platform_target_sensor_active idr =
     rcr_target_sensor_active (rcr_platform_target_sensor_raw_high idr) RCR_TARGET_SENSOR_POLARITY"

definition rcr_platform_set_output_led :: "bool \<Rightarrow> regs \<Rightarrow> regs" where
  "rcr_platform_set_output_led enabled r =
     (if enabled then reg_set (GPIOC_BASE + 0x14) (bitv 13) r else reg_set (GPIOC_BASE + 0x10) (bitv 13) r)"

definition rcr_platform_set_servo_pwm_us :: "u16 \<Rightarrow> regs \<Rightarrow> regs" where
  "rcr_platform_set_servo_pwm_us pulse_us r =
     (let pulse_us = (if pulse_us \<noteq> RCR_SERVO_PWM_DISABLED_US \<and> pulse_us \<noteq> RCR_SERVO_POSITION_A_US \<and>
                         pulse_us \<noteq> RCR_SERVO_POSITION_B_US
                      then RCR_SERVO_PWM_DISABLED_US else pulse_us)
      in reg_set (TIM1_BASE + 0x34) (ucast pulse_us) r)"

definition rcr_platform_watchdog_start :: "regs \<Rightarrow> regs" where
  "rcr_platform_watchdog_start r =
     (let r = reg_set (IWDG_BASE + 0x00) 0x5555 r;
          r = reg_set (IWDG_BASE + 0x04) 3 r;
          r = reg_set (IWDG_BASE + 0x08) 1250 r;
          r = reg_set (IWDG_BASE + 0x00) 0xAAAA r
      in reg_set (IWDG_BASE + 0x00) 0xCCCC r)"

definition rcr_platform_watchdog_kick :: "regs \<Rightarrow> regs" where
  "rcr_platform_watchdog_kick r = reg_set (IWDG_BASE + 0x00) 0xAAAA r"

section \<open>The rings are bounded queues\<close>

definition ring_contents :: "rcr_can_frame_t list \<Rightarrow> nat \<Rightarrow> nat \<Rightarrow> rcr_can_frame_t list" where
  "ring_contents q t h =
     map (\<lambda>i. q ! ((t + i) mod QUEUE_CAPACITY)) [0..<(h + QUEUE_CAPACITY - t) mod QUEUE_CAPACITY]"

definition ring_inv :: "rcr_can_frame_t list \<Rightarrow> nat \<Rightarrow> nat \<Rightarrow> bool" where
  "ring_inv q t h \<longleftrightarrow> length q = QUEUE_CAPACITY \<and> t < QUEUE_CAPACITY \<and> h < QUEUE_CAPACITY"

lemma ring_size:
  fixes t h :: nat
  assumes "t < 8" and "h < 8"
  shows "\<exists>n<8. h = (t + n) mod 8"
proof (cases "t \<le> h")
  case True
  then show ?thesis using assms by (intro exI [of _ "h - t"]) simp
next
  case False
  then show ?thesis using assms by (intro exI [of _ "h + 8 - t"]) simp
qed

lemma ring_count:
  fixes t n :: nat
  assumes "t < 8" and "n < 8"
  shows "((t + n) mod 8 + 8 - t) mod 8 = n" and "((t + n) mod 8 + 1) mod 8 \<noteq> t \<longleftrightarrow> n < 7"
  using assms by (cases "t + n < 8"; auto simp: mod_if)+

lemma ring_push:
  assumes "ring_inv q t h"
  shows "(h + 1) mod QUEUE_CAPACITY \<noteq> t \<longleftrightarrow> length (ring_contents q t h) < 7"
    and "(h + 1) mod QUEUE_CAPACITY \<noteq> t \<Longrightarrow>
      ring_contents (q[h := f]) t ((h + 1) mod QUEUE_CAPACITY) = ring_contents q t h @ [f]"
proof -
  obtain n where n: "n < 8" "h = (t + n) mod 8" "t < 8" "length q = 8"
    using assms ring_size [of t h] by (auto simp: ring_inv_def QUEUE_CAPACITY_def)
  have len: "length (ring_contents q t h) = n"
    using ring_count(1) [OF n(3,1)] by (simp add: ring_contents_def QUEUE_CAPACITY_def n(2))
  have full: "(h + 1) mod 8 \<noteq> t \<longleftrightarrow> n < 7" unfolding n(2) by (rule ring_count(2) [OF n(3,1)])
  then show "(h + 1) mod QUEUE_CAPACITY \<noteq> t \<longleftrightarrow> length (ring_contents q t h) < 7"
    by (simp add: len QUEUE_CAPACITY_def)
  assume "(h + 1) mod QUEUE_CAPACITY \<noteq> t"
  then have n7: "n + 1 < 8" using full by (simp add: QUEUE_CAPACITY_def)
  have nxt: "(h + 1) mod 8 = (t + (n + 1)) mod 8" unfolding n(2) by (simp add: mod_simps)
  have other: "q[h := f] ! ((t + i) mod 8) = q ! ((t + i) mod 8)" if "i < n" for i
    using that n by (intro nth_list_update_neq) (simp add: ring_index_inj)
  have "ring_contents (q[h := f]) t ((h + 1) mod 8) = map (\<lambda>i. q[h := f] ! ((t + i) mod 8)) [0..<n + 1]"
    unfolding ring_contents_def QUEUE_CAPACITY_def nxt ring_count(1) [OF n(3) n7] ..
  also have "\<dots> = map (\<lambda>i. q ! ((t + i) mod 8)) [0..<n] @ [f]"
    using other n by simp
  also have "\<dots> = ring_contents q t h @ [f]"
    unfolding ring_contents_def QUEUE_CAPACITY_def n(2) ring_count(1) [OF n(3,1)] ..
  finally show "ring_contents (q[h := f]) t ((h + 1) mod QUEUE_CAPACITY) = ring_contents q t h @ [f]"
    by (simp add: QUEUE_CAPACITY_def)
qed

lemma ring_pop:
  assumes "ring_inv q t h"
  shows "t = h \<Longrightarrow> ring_contents q t h = []"
    and "t \<noteq> h \<Longrightarrow> ring_contents q t h = q ! t # ring_contents q ((t + 1) mod QUEUE_CAPACITY) h"
proof -
  obtain n where n: "n < 8" "h = (t + n) mod 8" "t < 8"
    using assms ring_size [of t h] by (auto simp: ring_inv_def QUEUE_CAPACITY_def)
  show "t = h \<Longrightarrow> ring_contents q t h = []" by (simp add: ring_contents_def)
  assume "t \<noteq> h"
  then obtain k where k: "n = Suc k" using n by (cases n) auto
  have m: "k < 8" "(t + 1) mod 8 < 8" "h = ((t + 1) mod 8 + k) mod 8"
    using n k by (simp_all add: mod_simps)
  have "ring_contents q t h = map (\<lambda>i. q ! ((t + i) mod 8)) [0..<Suc k]"
    unfolding ring_contents_def QUEUE_CAPACITY_def n(2) ring_count(1) [OF n(3,1)] by (simp only: k)
  also have "\<dots> = q ! t # map (\<lambda>i. q ! ((t + Suc i) mod 8)) [0..<k]"
    using n(3) by (simp add: upt_conv_Cons map_Suc_upt [symmetric] comp_def del: upt_Suc)
  also have "\<dots> = q ! t # ring_contents q ((t + 1) mod 8) h"
    unfolding ring_contents_def QUEUE_CAPACITY_def m(3) ring_count(1) [OF m(2,1)] by (simp add: mod_simps)
  finally show "ring_contents q t h = q ! t # ring_contents q ((t + 1) mod QUEUE_CAPACITY) h"
    by (simp add: QUEUE_CAPACITY_def)
qed

lemma ring_inv_update:
  "ring_inv q t h \<Longrightarrow> ring_inv (q[i := f]) t ((h + 1) mod QUEUE_CAPACITY)"
  "ring_inv q t h \<Longrightarrow> ring_inv q ((t + 1) mod QUEUE_CAPACITY) h"
  by (simp_all add: ring_inv_def QUEUE_CAPACITY_def)

abbreviation rx_contents :: "rcr_platform \<Rightarrow> rcr_can_frame_t list" where
  "rx_contents p \<equiv> ring_contents (pf_rx_queue p) (pf_rx_tail p) (pf_rx_head p)"

abbreviation tx_contents :: "rcr_platform \<Rightarrow> rcr_can_frame_t list" where
  "tx_contents p \<equiv> ring_contents (pf_tx_queue p) (pf_tx_tail p) (pf_tx_head p)"

definition rx_inv :: "rcr_platform \<Rightarrow> bool" where
  "rx_inv p \<longleftrightarrow> ring_inv (pf_rx_queue p) (pf_rx_tail p) (pf_rx_head p)"

definition tx_inv :: "rcr_platform \<Rightarrow> bool" where
  "tx_inv p \<longleftrightarrow> ring_inv (pf_tx_queue p) (pf_tx_tail p) (pf_tx_head p)"

text \<open>The interrupt as a producer: it does not report a loss to its caller, the latch does.\<close>

definition rx_push :: "rcr_can_frame_t \<Rightarrow> rcr_platform \<Rightarrow> rcr_platform \<times> bool" where
  "rx_push f p = (rx_store f p, (pf_rx_head p + 1) mod QUEUE_CAPACITY \<noteq> pf_rx_tail p)"

lemma rx_pop_contents:
  assumes "rx_inv p" and "rcr_platform_can_rx_pop p = (p', r)"
  shows "case rx_contents p of [] \<Rightarrow> r = None \<and> rx_contents p' = [] | e # es \<Rightarrow> r = Some e \<and> rx_contents p' = es"
proof (cases "pf_rx_tail p = pf_rx_head p")
  case True
  then show ?thesis using assms(2) by (auto simp: rcr_platform_can_rx_pop_def ring_contents_def)
next
  case False
  then have "p' = p\<lparr>pf_rx_tail := (pf_rx_tail p + 1) mod QUEUE_CAPACITY\<rparr>" "r = Some (pf_rx_queue p ! pf_rx_tail p)"
    using assms(2) by (simp_all add: rcr_platform_can_rx_pop_def)
  then show ?thesis using ring_pop(2) [OF assms(1) [unfolded rx_inv_def] False] by simp
qed

lemma rx_push_contents:
  assumes "rx_inv p" and "rx_push f p = (p', ok)"
  shows "rx_contents p' = (if ok then rx_contents p @ [f] else rx_contents p)"
proof (cases ok)
  case True
  then have n: "(pf_rx_head p + 1) mod QUEUE_CAPACITY \<noteq> pf_rx_tail p"
    and "p' = p\<lparr>pf_rx_queue := (pf_rx_queue p)[pf_rx_head p := f], pf_rx_head := (pf_rx_head p + 1) mod QUEUE_CAPACITY\<rparr>"
    using assms(2) by (auto simp: rx_push_def rx_store_def Let_def)
  then show ?thesis using True ring_push(2) [OF assms(1) [unfolded rx_inv_def] n, of f] by simp
next
  case False
  then show ?thesis using assms(2) by (auto simp: rx_push_def rx_store_def Let_def)
qed

interpretation rxq: event_queue rx_contents rx_inv "\<lambda>_. 7" rx_push rcr_platform_can_rx_pop pf_rx_overflow
proof
  fix p p' :: rcr_platform and f ok r
  assume inv: "rx_inv p"
  note laws = inv [unfolded rx_inv_def]
  {
    assume push: "rx_push f p = (p', ok)"
    show "rx_inv p'" using push laws ring_inv_update(1) [OF laws, of "pf_rx_head p" f]
      by (auto simp: rx_push_def rx_store_def Let_def rx_inv_def)
    show "ok \<longleftrightarrow> length (rx_contents p) < 7" using push ring_push(1) [OF laws] by (simp add: rx_push_def)
    show "pf_rx_overflow p' \<longleftrightarrow> pf_rx_overflow p \<or> \<not> ok"
      using push by (auto simp: rx_push_def rx_store_def Let_def)
  next
    assume pop: "rcr_platform_can_rx_pop p = (p', r)"
    show "rx_inv p'"
      using pop laws ring_inv_update(2) [OF laws]
      by (auto simp: rcr_platform_can_rx_pop_def rx_inv_def split: if_splits)
    show "pf_rx_overflow p' = pf_rx_overflow p" using pop by (auto simp: rcr_platform_can_rx_pop_def split: if_splits)
  }
qed (simp_all add: rx_push_contents rx_pop_contents)

lemma tx_enqueue:
  assumes "tx_inv p" and "rcr_platform_can_tx_enqueue f p = (p', ok)"
  shows "tx_inv p' \<and> tx_contents p' = (if ok then tx_contents p @ [f] else tx_contents p) \<and>
         (ok \<longleftrightarrow> \<not> mf_extended f \<and> \<not> mf_rtr f \<and> mf_dlc f = RCR_CAN_V1_DLC \<and> length (tx_contents p) < 7)"
proof (cases "\<not> mf_extended f \<and> \<not> mf_rtr f \<and> mf_dlc f = RCR_CAN_V1_DLC")
  case False
  then show ?thesis using assms by (auto simp: rcr_platform_can_tx_enqueue_def)
next
  case True
  note laws = assms(1) [unfolded tx_inv_def]
  show ?thesis
  proof (cases "(pf_tx_head p + 1) mod QUEUE_CAPACITY = pf_tx_tail p")
    case full: True
    then have "p' = p" "\<not> ok" using assms(2) True by (simp_all add: rcr_platform_can_tx_enqueue_def Let_def)
    then show ?thesis using assms(1) ring_push(1) [OF laws] full by simp
  next
    case room: False
    then have "p' = p\<lparr>pf_tx_queue := (pf_tx_queue p)[pf_tx_head p := f], pf_tx_head := (pf_tx_head p + 1) mod QUEUE_CAPACITY\<rparr>"
      "ok" using assms(2) True by (simp_all add: rcr_platform_can_tx_enqueue_def Let_def)
    then show ?thesis using True ring_push(1) [OF laws] ring_push(2) [OF laws, of f] ring_inv_update(1) [OF laws, of "pf_tx_head p" f] room
      by (simp add: tx_inv_def)
  qed
qed

lemma load_mailbox_ok: "snd (try_load_tx_mailbox tsr f r) \<longleftrightarrow> mailbox_offset tsr \<noteq> None"
  by (simp add: try_load_tx_mailbox_def Let_def split: option.splits)

lemma tx_pump_loop_fifo:
  "tx_inv p \<Longrightarrow> tx_pump_loop n tsr p = (p', out) \<Longrightarrow>
   tx_inv p' \<and> out @ tx_contents p' = tx_contents p \<and>
   (tx_contents p' = [] \<or> length out = n \<or> mailbox_offset (tsr (length out)) = None)"
proof (induction n arbitrary: tsr p out)
  case (Suc n)
  note laws = Suc.prems(1) [unfolded tx_inv_def]
  let ?f = "pf_tx_queue p ! pf_tx_tail p"
  obtain r loaded where l: "try_load_tx_mailbox (tsr 0) ?f (pf_regs p) = (r, loaded)" by fastforce
  let ?p = "p\<lparr>pf_regs := r, pf_tx_tail := (pf_tx_tail p + 1) mod QUEUE_CAPACITY\<rparr>"
  show ?case
  proof (cases "pf_tx_tail p = pf_tx_head p")
    case True
    then show ?thesis using Suc.prems ring_pop(1) [OF laws] by simp
  next
    case ne: False
    show ?thesis
    proof (cases loaded)
      case False
      then have "mailbox_offset (tsr 0) = None" using load_mailbox_ok [of "tsr 0" ?f "pf_regs p"] l by simp
      then show ?thesis using Suc.prems ne l False by (auto simp: tx_inv_def)
    next
      case True
      obtain out' where o: "tx_pump_loop n (\<lambda>k. tsr (Suc k)) ?p = (p', out')" "out = ?f # out'"
        using Suc.prems(2) ne l True by (auto simp: Let_def split: prod.splits)
      have "tx_inv ?p" using ring_inv_update(2) [OF laws] by (simp add: tx_inv_def)
      from Suc.IH [OF this o(1)] show ?thesis using ring_pop(2) [OF laws ne] o(2) by auto
    qed
  qed
qed simp

text \<open>The pump sends in order, and stops early only when no mailbox is free.\<close>

lemma tx_pump_fifo:
  assumes "tx_inv p" and "rcr_platform_can_tx_pump tsr p = (p', out)"
  shows "tx_inv p'" and "out @ tx_contents p' = tx_contents p"
    and "tx_contents p' \<noteq> [] \<Longrightarrow> mailbox_offset (tsr (length out)) = None"
proof -
  have r: "tx_inv p' \<and> out @ tx_contents p' = tx_contents p \<and>
      (tx_contents p' = [] \<or> length out = QUEUE_CAPACITY \<or> mailbox_offset (tsr (length out)) = None)"
    using tx_pump_loop_fifo [OF assms(1)] assms(2) by (simp add: rcr_platform_can_tx_pump_def)
  have "length (tx_contents p) < 8"
    by (simp add: ring_contents_def QUEUE_CAPACITY_def)
  moreover have "length out + length (tx_contents p') = length (tx_contents p)" using r by (metis length_append)
  ultimately have "length out \<noteq> QUEUE_CAPACITY" by (simp add: QUEUE_CAPACITY_def)
  then show "tx_inv p'" "out @ tx_contents p' = tx_contents p"
    "tx_contents p' \<noteq> [] \<Longrightarrow> mailbox_offset (tsr (length out)) = None" using r by blast+
qed

section \<open>Registers and frames\<close>

lemma unpack_pack4:
  "map (\<lambda>i. ucast (drop_bit (i * 8) (pack4 a b c d)) :: u8) [0..<4] = [a, b, c, d]"
proof -
  have "ucast (drop_bit 0 (pack4 a b c d)) = a" "ucast (drop_bit 8 (pack4 a b c d)) = b"
    "ucast (drop_bit 16 (pack4 a b c d)) = c" "ucast (drop_bit 24 (pack4 a b c d)) = d"
    by (rule bit_word_eqI; force simp: pack4_def bit_simps dest: bit_imp_le_length)+
  then show ?thesis by (simp add: upt_rec numeral_eq_Suc)
qed

lemma unpack_data:
  assumes "length d = 8"
  shows "map (\<lambda>i. ucast (drop_bit (i * 8) (pack4 (d ! 0) (d ! 1) (d ! 2) (d ! 3))) :: u8) [0..<4] @
         map (\<lambda>i. ucast (drop_bit (i * 8) (pack4 (d ! 4) (d ! 5) (d ! 6) (d ! 7)))) [0..<4] = d"
  unfolding unpack_pack4 using length_eq_8 [OF assms] by (auto simp: numeral_eq_Suc)

text \<open>
  What a controller delivers for a transmit mailbox: the identifier register without the
  transmission request, the length and the data.
\<close>

definition on_bus :: "u32 \<Rightarrow> regs \<Rightarrow> RxMailbox" where
  "on_bus base r = \<lparr>rx_rir = r base AND NOT 1, rx_rdtr = r (base + 0x04), rx_rdlr = r (base + 0x08), rx_rdhr = r (base + 0x0C)\<rparr>"

lemma mailbox_image:
  assumes "mailbox_offset tsr = Some offset"
  shows "on_bus (CAN1_BASE + 0x180 + offset) (fst (try_load_tx_mailbox tsr f r)) =
    \<lparr>rx_rir = push_bit 21 (mf_can_id f AND 0x7FF) AND NOT 1, rx_rdtr = ucast RCR_CAN_V1_DLC,
     rx_rdlr = pack4 (mf_data f ! 0) (mf_data f ! 1) (mf_data f ! 2) (mf_data f ! 3),
     rx_rdhr = pack4 (mf_data f ! 4) (mf_data f ! 5) (mf_data f ! 6) (mf_data f ! 7)\<rparr>"
  using assms unfolding on_bus_def try_load_tx_mailbox_def
  by (auto simp: mailbox_offset_def reg_ops reg_bases Let_def bit.conj_disj_distrib2 split: if_splits)

lemma bit_7FF: "bit (0x7FF :: u32) k \<longleftrightarrow> k < 11"
  by (auto simp only: low_masks bit_mask_iff) simp

lemma std_id_shift:
  fixes i m :: u32
  assumes "\<And>k. bit m k \<longleftrightarrow> k < 11" and "i AND m = i"
  shows "drop_bit 21 (push_bit 21 (i AND m) AND NOT 1) AND m = i"
proof -
  have b: "bit i k \<Longrightarrow> k < 11" for k using assms by (metis bit_and_iff)
  show ?thesis unfolding assms(2)
    by (rule bit_word_eqI, simp only: bit_and_iff bit_drop_bit_eq bit_push_bit_iff assms(1) comp_def)
      (auto simp: bit_not_iff_eq bit_1_iff dest: b)
qed

lemma std_id_bits:
  fixes i :: u32
  assumes "i AND 0x7FF = i"
  shows "(push_bit 21 (i AND 0x7FF) AND NOT 1) AND bitv 2 = 0" "(push_bit 21 (i AND 0x7FF) AND NOT 1) AND bitv 1 = 0"
    "drop_bit 21 (push_bit 21 (i AND 0x7FF) AND NOT 1) AND 0x7FF = i"
  using std_id_shift [OF bit_7FF assms] unfolding and_bitv low_masks by (simp_all add: bit_simps)

lemma register_roundtrip:
  assumes "mcu_frame_wf f" and "\<not> mf_extended f" and "\<not> mf_rtr f" and "mf_dlc f = RCR_CAN_V1_DLC"
    and "mailbox_offset tsr = Some offset"
  shows "rx_frame ms (on_bus (CAN1_BASE + 0x180 + offset) (fst (try_load_tx_mailbox tsr f r))) = f\<lparr>mf_receive_ms := ms\<rparr>"
proof -
  have i: "mf_can_id f AND 0x7FF = mf_can_id f" and d: "length (mf_data f) = 8"
    using assms by (simp_all add: mcu_frame_wf_def kCanSffMask_def)
  have dlc: "(ucast (ucast RCR_CAN_V1_DLC AND 0xF :: u32) :: u8) = RCR_CAN_V1_DLC" by (simp add: RCR_CAN_V1_DLC_def)
  have "rx_frame ms (on_bus (CAN1_BASE + 0x180 + offset) (fst (try_load_tx_mailbox tsr f r))) =
      \<lparr>mf_can_id = mf_can_id f, mf_dlc = RCR_CAN_V1_DLC, mf_data = mf_data f, mf_extended = False, mf_rtr = False,
       mf_receive_ms = ms\<rparr>"
    unfolding mailbox_image [OF assms(5)] rx_frame_def RxMailbox.simps std_id_bits [OF i] unpack_data [OF d] dlc Let_def
    by simp
  also have "\<dots> = f\<lparr>mf_receive_ms := ms\<rparr>" using assms by (cases f) simp
  finally show ?thesis .
qed

text \<open>
  A filter bank of the CAN controller in 32-bit mask mode accepts a message when the
  identifier register agrees with the filter on the bits of the mask.
\<close>

definition filter_accepts :: "u32 \<Rightarrow> u32 \<Rightarrow> u32 \<Rightarrow> bool" where
  "filter_accepts fid fmask rir \<longleftrightarrow> (rir XOR fid) AND fmask = 0"

lemma std_id_field:
  fixes r c m :: u32
  assumes m: "\<And>k. bit m k \<longleftrightarrow> k < 11" and c: "c AND m = c"
  shows "(r XOR push_bit 21 c) AND push_bit 21 m = 0 \<longleftrightarrow> drop_bit 21 r AND m = c"
proof
  have b: "bit c k \<Longrightarrow> k < 11" for k using assms by (metis bit_and_iff)
  assume h: "(r XOR push_bit 21 c) AND push_bit 21 m = 0"
  show "drop_bit 21 r AND m = c"
  proof (rule bit_word_eqI)
    fix k assume "k < LENGTH(32)"
    have "\<not> bit ((r XOR push_bit 21 c) AND push_bit 21 m) (21 + k)" unfolding h by simp
    then show "bit (drop_bit 21 r AND m) k = bit c k"
      by (auto simp: bit_and_iff bit_xor_iff bit_push_bit_iff bit_drop_bit_eq m dest: b bit_imp_le_length)
  qed
next
  assume h: "drop_bit 21 r AND m = c"
  show "(r XOR push_bit 21 c) AND push_bit 21 m = 0"
    unfolding h [symmetric]
    by (rule bit_word_eqI) (auto simp: bit_and_iff bit_xor_iff bit_push_bit_iff bit_drop_bit_eq m)
qed

lemma filter_exact:
  "filter_accepts (push_bit 21 0x061) (push_bit 21 0x7FF OR bitv 2 OR bitv 1) (rx_rir m) \<longleftrightarrow>
   \<not> mf_extended (rx_frame ms m) \<and> \<not> mf_rtr (rx_frame ms m) \<and>
   mf_can_id (rx_frame ms m) = ucast (rcr_can_v1_make_id RCR_CAN_V1_FN_OUTPUT_COMMAND RCR_CAN_V1_NODE_ID)"
proof -
  let ?r = "rx_rir m"
  have id: "(ucast (rcr_can_v1_make_id RCR_CAN_V1_FN_OUTPUT_COMMAND RCR_CAN_V1_NODE_ID) :: u32) = 0x061"
    by (simp add: rcr_can_v1_make_id_def RCR_CAN_V1_FN_OUTPUT_COMMAND_def RCR_CAN_V1_NODE_ID_def)
  have s: "(?r XOR push_bit 21 0x061) AND push_bit 21 0x7FF = 0 \<longleftrightarrow> drop_bit 21 ?r AND 0x7FF = 0x061"
    by (rule std_id_field [OF bit_7FF]) simp
  have z: "\<not> bit (push_bit 21 0x061 :: u32) 1" "\<not> bit (push_bit 21 0x061 :: u32) 2"
    unfolding bit_push_bit_iff by simp_all
  have split: "(?r XOR push_bit 21 0x061) AND (push_bit 21 0x7FF OR bitv 2 OR bitv 1) = 0 \<longleftrightarrow>
      (?r XOR push_bit 21 0x061) AND push_bit 21 0x7FF = 0 \<and> \<not> bit ?r 2 \<and> \<not> bit ?r 1"
    unfolding bit.conj_disj_distrib or_eq_0_iff and_bitv bit_xor_iff using z by blast
  show ?thesis
    unfolding filter_accepts_def split s id by (auto simp: rx_frame_def Let_def and_bitv)
qed

section \<open>Start-up\<close>

text \<open>The rate a value of the bit timing register gives on a 36 MHz bus clock.\<close>

definition can_bit_rate :: "u32 \<Rightarrow> nat" where
  "can_bit_rate btr =
     36000000 div ((unat (btr AND 0x3FF) + 1) *
       (1 + (unat (drop_bit 16 btr AND 0xF) + 1) + (unat (drop_bit 20 btr AND 0x7) + 1)))"

lemma timing:
  "can_bit_rate (bitv 20 OR push_bit 16 14 OR 3) = 500000"
  "72000000 div (unat (71999 :: u32) + 1) = (1000 :: nat)"
  "72000000 div ((unat (71 :: u32) + 1) * (unat (19999 :: u32) + 1)) = (50 :: nat)"
  by (simp_all add: can_bit_rate_def bitv_def)

lemma clock_result:
  assumes "configure_clock_72mhz a b c r = (r', ok)"
  shows "ok \<longleftrightarrow> (\<exists>i<POLLS. a i) \<and> (\<exists>i<POLLS. b i) \<and> (\<exists>i<POLLS. c i)"
    and "x \<noteq> RCC_BASE \<Longrightarrow> x \<noteq> RCC_BASE + 0x04 \<Longrightarrow> x \<noteq> FLASH_BASE \<Longrightarrow> r' x = r x"
proof -
  have w: "wait_for f 0 POLLS \<longleftrightarrow> (\<exists>i<POLLS. f i)" for f
    using wait_for_iff [of POLLS f 0] by (simp add: POLLS_def)
  show "ok \<longleftrightarrow> (\<exists>i<POLLS. a i) \<and> (\<exists>i<POLLS. b i) \<and> (\<exists>i<POLLS. c i)"
    using assms unfolding configure_clock_72mhz_def Let_def w by (auto split: if_splits)
  show "x \<noteq> RCC_BASE \<Longrightarrow> x \<noteq> RCC_BASE + 0x04 \<Longrightarrow> x \<noteq> FLASH_BASE \<Longrightarrow> r' x = r x"
    using assms by (auto simp: configure_clock_72mhz_def Let_def reg_ops split: if_splits)
qed

lemma can_result:
  assumes "configure_can a b r = (r', ok)"
  shows "ok \<longleftrightarrow> (\<exists>i<POLLS. a i) \<and> (\<exists>i<POLLS. b i)"
    and "ok \<Longrightarrow> r' (CAN1_BASE + 0x240) = push_bit 21 0x061 \<and>
           r' (CAN1_BASE + 0x244) = (push_bit 21 0x7FF OR bitv 2 OR bitv 1) \<and>
           r' (CAN1_BASE + 0x1C) = (bitv 20 OR push_bit 16 14 OR 3)"
    and "x \<in> {GPIOC_BASE + 0x10, TIM1_BASE, TIM1_BASE + 0x28, TIM1_BASE + 0x2C, TIM1_BASE + 0x34, SYSTICK_BASE + 0x04} \<Longrightarrow> r' x = r x"
proof -
  have w: "wait_for f 0 POLLS \<longleftrightarrow> (\<exists>i<POLLS. f i)" for f
    using wait_for_iff [of POLLS f 0] by (simp add: POLLS_def)
  show "ok \<longleftrightarrow> (\<exists>i<POLLS. a i) \<and> (\<exists>i<POLLS. b i)"
    using assms unfolding configure_can_def Let_def w by (auto split: if_splits)
  show "ok \<Longrightarrow> r' (CAN1_BASE + 0x240) = push_bit 21 0x061 \<and>
           r' (CAN1_BASE + 0x244) = (push_bit 21 0x7FF OR bitv 2 OR bitv 1) \<and>
           r' (CAN1_BASE + 0x1C) = (bitv 20 OR push_bit 16 14 OR 3)"
    using assms by (auto simp: configure_can_def Let_def reg_ops reg_bases split: if_splits)
  show "x \<in> {GPIOC_BASE + 0x10, TIM1_BASE, TIM1_BASE + 0x28, TIM1_BASE + 0x2C, TIM1_BASE + 0x34, SYSTICK_BASE + 0x04} \<Longrightarrow> r' x = r x"
    using assms by (auto simp: configure_can_def Let_def reg_ops reg_bases split: if_splits)
qed

lemma setup_registers:
  "configure_led_off r (GPIOC_BASE + 0x10) = bitv 13"
  "configure_led_off r TIM1_BASE = r TIM1_BASE"
  "configure_target_sensor_input r (GPIOC_BASE + 0x10) = r (GPIOC_BASE + 0x10)"
  "configure_servo_pwm_off r (GPIOC_BASE + 0x10) = r (GPIOC_BASE + 0x10)"
  "configure_servo_pwm_off r (TIM1_BASE + 0x34) = 0"
  "configure_servo_pwm_off r (TIM1_BASE + 0x28) = 71" "configure_servo_pwm_off r (TIM1_BASE + 0x2C) = 19999"
  "configure_systick r (SYSTICK_BASE + 0x04) = 71999"
  "configure_systick r (GPIOC_BASE + 0x10) = r (GPIOC_BASE + 0x10)"
  "configure_systick r (TIM1_BASE + 0x34) = r (TIM1_BASE + 0x34)"
  "configure_systick r (TIM1_BASE + 0x28) = r (TIM1_BASE + 0x28)"
  "configure_systick r (TIM1_BASE + 0x2C) = r (TIM1_BASE + 0x2C)"
  by (simp_all add: configure_led_off_def configure_target_sensor_input_def configure_servo_pwm_off_def
    configure_systick_def Let_def reg_ops reg_bases)

lemma init_servo_off:
  assumes "rcr_platform_init p r = (r', True)"
  shows "r' (TIM1_BASE + 0x34) = 0"
proof -
  obtain r1 where "configure_can (ip_init_entered p) (ip_init_left p)
      (configure_systick (configure_servo_pwm_off r1)) = (r', True)"
    using assms by (auto simp: rcr_platform_init_def Let_def split: prod.splits if_splits)
  from can_result(3) [OF this, of "TIM1_BASE + 0x34"] show ?thesis by (simp add: setup_registers)
qed



end
