(* ===== verification/Mcu_Session.thy ===== *)
theory Mcu_Session
  imports Mcu_Platform
begin

text \<open>
  The session journal of the firmware (\<^verbatim>\<open>rcr_platform_next_session\<close> and the flash helpers of
  \<^verbatim>\<open>firmware/stm32f103/src/platform_stm32f103.c\<close>). The last flash page holds 256 records, each a
  value and its complement; a record is kept as its two half-words, low half first. The outcome of a flash
  operation is an input: the status reads of the wait before and after, and what the
  cells hold afterwards. The code reads a programmed half-word back, so nothing is assumed about programming;
  of a page erase that reports success it checks the first record only.
\<close>

unbundle bit_operations_syntax

section \<open>Flash operations\<close>

definition SESSION_PAGE :: u32 where "SESSION_PAGE = 0x0800FC00"
definition SESSION_RECORD_COUNT :: nat where "SESSION_RECORD_COUNT = 256"

type_synonym page = "(u16 \<times> u16) list"

text \<open>A wait: which read finds the controller idle, and the status register after that.\<close>

record FlashWait =
  fw_idle :: "nat \<Rightarrow> bool"
  fw_status :: u32

record FlashProgram =
  fp_before :: FlashWait
  fp_cell :: u16
  fp_after :: FlashWait

record FlashErase =
  fe_before :: FlashWait
  fe_page :: page
  fe_after :: FlashWait

definition flash_wait :: "FlashWait \<Rightarrow> bool" where
  "flash_wait w = (if \<not> wait_for (fw_idle w) 0 POLLS then False else fw_status w AND (bitv 2 OR bitv 4) = 0)"

definition flash_unlock :: "regs \<Rightarrow> regs" where
  "flash_unlock r =
     (if r (FLASH_BASE + 0x10) AND bitv 7 \<noteq> 0
      then reg_set (FLASH_BASE + 0x04) 0xCDEF89AB (reg_set (FLASH_BASE + 0x04) 0x45670123 r)
      else r)"

definition flash_lock :: "regs \<Rightarrow> regs" where
  "flash_lock r = reg_or (FLASH_BASE + 0x10) (bitv 7) r"

text \<open>Programming the low or the high half-word of record \<open>i\<close>.\<close>

definition set_half :: "bool \<Rightarrow> u16 \<Rightarrow> u16 \<times> u16 \<Rightarrow> u16 \<times> u16" where
  "set_half high v rec = (if high then (fst rec, v) else (v, snd rec))"

definition flash_program_halfword ::
  "FlashProgram \<Rightarrow> nat \<Rightarrow> bool \<Rightarrow> u16 \<Rightarrow> regs \<times> page \<Rightarrow> (regs \<times> page) \<times> bool" where
  "flash_program_halfword e i high value s =
     (let (r, page) = s in
      if \<not> flash_wait (fp_before e) then ((r, page), False)
      else let r = reg_or (FLASH_BASE + 0x10) 1 r;
               page = page[i := set_half high (fp_cell e) (page ! i)];
               ok = flash_wait (fp_after e);
               r = reg_clear (FLASH_BASE + 0x10) 1 r
           in ((r, page), ok \<and> fp_cell e = value))"

definition flash_erase_session_page :: "FlashErase \<Rightarrow> regs \<times> page \<Rightarrow> (regs \<times> page) \<times> bool" where
  "flash_erase_session_page e s =
     (let (r, page) = s in
      if \<not> flash_wait (fe_before e) then ((r, page), False)
      else let r = reg_or (FLASH_BASE + 0x10) (bitv 1) r;
               r = reg_set (FLASH_BASE + 0x14) SESSION_PAGE r;
               r = reg_or (FLASH_BASE + 0x10) (bitv 6) r;
               page = fe_page e;
               ok = flash_wait (fe_after e);
               r = reg_clear (FLASH_BASE + 0x10) (bitv 1) r
           in ((r, page), ok \<and> page ! 0 = (0xFFFF, 0xFFFF)))"

section \<open>The journal\<close>

text \<open>One scan over the records: the last valid value, and the first erased record.\<close>

fun session_scan :: "nat \<Rightarrow> page \<Rightarrow> u16 \<times> nat option \<Rightarrow> u16 \<times> nat option" where
  "session_scan index [] acc = acc"
| "session_scan index ((value, compl) # rest) (prev, empty_at) =
     session_scan (Suc index) rest
       (if (value, compl) = (0xFFFF, 0xFFFF)
        then (prev, case empty_at of None \<Rightarrow> Some index | Some e \<Rightarrow> Some e)
        else if value \<noteq> 0 \<and> compl = NOT value then (value, empty_at)
        else (prev, empty_at))"

record SessionEnv =
  se_erase :: FlashErase
  se_value :: FlashProgram
  se_complement :: FlashProgram

definition write_record :: "SessionEnv \<Rightarrow> nat \<Rightarrow> u16 \<Rightarrow> regs \<times> page \<Rightarrow> (regs \<times> page) \<times> bool" where
  "write_record e i nxt s =
     (let (s, value_ok) = flash_program_halfword (se_value e) i False nxt s
      in if value_ok then flash_program_halfword (se_complement e) i True (NOT nxt) s else (s, False))"

definition rcr_platform_next_session :: "SessionEnv \<Rightarrow> regs \<times> page \<Rightarrow> (regs \<times> page) \<times> u16 \<times> bool" where
  "rcr_platform_next_session e s =
     (let (prev, empty_at) = session_scan 0 (snd s) (0, None);
          nxt = (if prev = 0xFFFF then 1 else prev + 1);
          s = (flash_unlock (fst s), snd s);
          (s, slot) = (case empty_at of
             Some i \<Rightarrow> (s, Some i)
           | None \<Rightarrow> let (s, ok) = flash_erase_session_page (se_erase e) s in (s, if ok then Some 0 else None))
      in case slot of
           None \<Rightarrow> ((flash_lock (fst s), snd s), nxt, False)
         | Some i \<Rightarrow> let (s, compl_ok) = write_record e i nxt s in ((flash_lock (fst s), snd s), nxt, compl_ok))"

section \<open>What the journal says\<close>

definition erased :: "u16 \<times> u16" where "erased = (0xFFFF, 0xFFFF)"

definition valid_record :: "u16 \<times> u16 \<Rightarrow> bool" where
  "valid_record rec \<longleftrightarrow> fst rec \<noteq> 0 \<and> snd rec = NOT (fst rec)"

text \<open>The last session recorded, 0 if there is none.\<close>

definition journal_last :: "page \<Rightarrow> u16" where
  "journal_last page = (case filter valid_record page of [] \<Rightarrow> 0 | rs \<Rightarrow> fst (last rs))"

text \<open>Records are appended: all written records come before all erased ones.\<close>

definition journal_wf :: "page \<Rightarrow> bool" where
  "journal_wf page \<longleftrightarrow> length page = SESSION_RECORD_COUNT \<and>
     (\<exists>recs n. page = recs @ replicate n erased \<and> erased \<notin> set recs)"

lemma not_involution [simp]: "NOT (NOT (v :: u16)) = v" "NOT v \<noteq> v"
  by (auto dest: arg_cong [where f = "\<lambda>w. bit w 0"] simp: bit_not_iff)

lemma erased_invalid: "\<not> valid_record erased"
  by (simp add: valid_record_def erased_def)

lemma scan_acc:
  "session_scan k page (prev, empty_at) =
     (case filter valid_record page of [] \<Rightarrow> prev | rs \<Rightarrow> fst (last rs),
      case empty_at of Some e \<Rightarrow> Some e
      | None \<Rightarrow> if erased \<in> set page then Some (k + length (takeWhile (\<lambda>x. x \<noteq> erased) page)) else None)"
proof (induction page arbitrary: k prev empty_at)
  case (Cons rec page)
  obtain v c where rec: "rec = (v, c)" by (cases rec)
  show ?case
  proof (cases "rec = erased")
    case True
    then have vc: "v = 0xFFFF" "c = 0xFFFF" by (auto simp: rec erased_def)
    have "\<not> valid_record (0xFFFF, 0xFFFF)" using erased_invalid by (simp add: erased_def)
    then show ?thesis using Cons.IH by (simp add: rec vc erased_def split: option.splits list.splits)
  next
    case False
    then have "\<not> (v = 0xFFFF \<and> c = 0xFFFF)" "rec \<noteq> erased" "erased \<noteq> rec" by (auto simp: rec erased_def)
    moreover have "valid_record rec \<longleftrightarrow> v \<noteq> 0 \<and> c = NOT v" by (simp add: valid_record_def rec)
    ultimately show ?thesis using Cons.IH by (auto simp: rec split: option.splits list.splits)
  qed
qed (simp split: option.splits)

lemma scan_page:
  "session_scan 0 page (0, None) =
     (journal_last page, if erased \<in> set page then Some (length (takeWhile (\<lambda>x. x \<noteq> erased) page)) else None)"
  by (simp add: scan_acc journal_last_def)

lemma program_ok:
  "flash_program_halfword e i high v s = (s', True) \<Longrightarrow> snd s' = (snd s)[i := set_half high v (snd s ! i)]"
  by (auto simp: flash_program_halfword_def Let_def split: prod.splits if_splits)

lemma next_nonzero_word: "(if v = 0xFFFF then 1 else v + 1) = next_nonzero_u16 v" "next_nonzero_u16 v \<noteq> 0"
proof -
  show "(if v = 0xFFFF then 1 else v + 1) = next_nonzero_u16 v" by (simp add: next_nonzero_u16_def)
  show "next_nonzero_u16 v \<noteq> 0"
    using next_nonzero [of v] by (cases "v = 0") (simp_all add: next_nonzero_u16_def)
qed

lemma write_record_ok:
  assumes "write_record e i v s = (s', True)" and "i < length (snd s)"
  shows "snd s' = (snd s)[i := (v, NOT v)]"
proof -
  obtain s1 where "flash_program_halfword (se_value e) i False v s = (s1, True)"
    "flash_program_halfword (se_complement e) i True (NOT v) s1 = (s', True)"
    using assms(1) by (auto simp: write_record_def Let_def split: prod.splits if_splits)
  from this [THEN program_ok] assms(2) show ?thesis by (simp add: set_half_def)
qed

text \<open>A record written to the first erased place is appended.\<close>

lemma record_appended:
  assumes "erased \<notin> set recs" and "v \<noteq> 0" and "length recs + Suc n = SESSION_RECORD_COUNT"
    and "page = (recs @ replicate (Suc n) erased)[length recs := (v, NOT v)]"
  shows "journal_wf page \<and> journal_last page = v"
proof -
  have ok: "valid_record (v, NOT v)" using assms(2) by (simp add: valid_record_def)
  have p: "page = (recs @ [(v, NOT v)]) @ replicate n erased" using assms(4) by simp
  have "filter valid_record page = filter valid_record recs @ [(v, NOT v)]"
    unfolding p using ok erased_invalid by simp
  then have "journal_last page = v"
    by (cases "filter valid_record recs") (simp_all add: journal_last_def)
  moreover have "erased \<notin> set (recs @ [(v, NOT v)])" using assms(1) ok erased_invalid by auto
  then have "journal_wf page" unfolding journal_wf_def 
    using p assms(3) by (intro conjI exI [of _ "recs @ [(v, NOT v)]"] exI [of _ n]) auto
  ultimately show ?thesis by simp
qed

lemma first_erased:
  "erased \<notin> set recs \<Longrightarrow> takeWhile (\<lambda>x. x \<noteq> erased) (recs @ replicate (Suc n) erased) = recs"
  by (subst takeWhile_append2) auto

section \<open>Property\<close>

text \<open>
  C20. Sessions never repeat from one boot to the next. The session of a boot is the successor of the last
  one in the journal, 1 after 65535 and for an empty journal, and never 0. When the call reports success, the journal
  holds it as its last session and is again in order; this includes the boot that finds the page full and
  erases it, provided a page erase that reports success leaves every record erased.
\<close>

theorem session_journal_advances:
  assumes "journal_wf page"
    and "flash_wait (fe_after (se_erase e)) \<longrightarrow> fe_page (se_erase e) = replicate SESSION_RECORD_COUNT erased"
    and "rcr_platform_next_session e (r, page) = ((r', page'), sid, ok)"
  shows "sid = next_nonzero_u16 (journal_last page) \<and> sid \<noteq> 0 \<and>
         (ok \<longrightarrow> journal_wf page' \<and> journal_last page' = sid)"
proof -
  let ?v = "next_nonzero_u16 (journal_last page)"
  have v: "?v \<noteq> 0" by (rule next_nonzero_word(2))
  obtain recs n where page: "page = recs @ replicate n erased" "erased \<notin> set recs" "length recs + n = SESSION_RECORD_COUNT"
    using assms(1) by (auto simp: journal_wf_def)
  show ?thesis
  proof (cases n)
    case 0
    then have full: "erased \<notin> set page" using page by simp
    obtain s0 k where s0: "flash_erase_session_page (se_erase e) (flash_unlock r, page) = (s0, k)" by fastforce
    show ?thesis
    proof (cases k)
      case True
      then have e: "snd s0 = replicate SESSION_RECORD_COUNT erased"
        using s0 assms(2) by (auto simp: flash_erase_session_page_def Let_def split: if_splits)
      obtain s1 k1 where s1: "write_record e 0 ?v s0 = (s1, k1)" by fastforce
      have out: "page' = snd s1" "sid = ?v" "ok = k1"
        using assms(3) full s0 True s1 by (simp_all add: rcr_platform_next_session_def scan_page next_nonzero_word(1))
      have "journal_wf page' \<and> journal_last page' = sid" if ok
        unfolding out using write_record_ok [of e 0 ?v s0 s1] s1 that out(3) e v
        by (intro record_appended [of "[]" _ 255]) (auto simp: SESSION_RECORD_COUNT_def)
      then show ?thesis using out v by simp
    next
      case False
      then show ?thesis
        using assms(3) full s0 v by (simp add: rcr_platform_next_session_def scan_page next_nonzero_word(1))
    qed
  next
    case (Suc m)
    have slot: "session_scan 0 page (0, None) = (journal_last page, Some (length recs))"
      unfolding scan_page using page(1,2) first_erased [OF page(2), of m] Suc by simp
    obtain s1 k1 where s1: "write_record e (length recs) ?v (flash_unlock r, page) = (s1, k1)" by fastforce
    have out: "page' = snd s1" "sid = ?v" "ok = k1"
      using assms(3) slot s1 by (simp_all add: rcr_platform_next_session_def next_nonzero_word(1))
    have "journal_wf page' \<and> journal_last page' = sid" if ok
      unfolding out using write_record_ok [of e "length recs" ?v _ s1] s1 that out(3) page Suc v
      by (intro record_appended [of recs _ m]) auto
    then show ?thesis using out v by simp
  qed
qed

text \<open>The first boot of an erased board, and a boot that finds the page full.\<close>

definition demo_wait :: FlashWait where "demo_wait = \<lparr>fw_idle = \<lambda>_. True, fw_status = 0\<rparr>"

definition demo_session_env :: "u16 \<Rightarrow> SessionEnv" where
  "demo_session_env v =
     \<lparr>se_erase = \<lparr>fe_before = demo_wait, fe_page = replicate SESSION_RECORD_COUNT erased, fe_after = demo_wait\<rparr>,
      se_value = \<lparr>fp_before = demo_wait, fp_cell = v, fp_after = demo_wait\<rparr>,
      se_complement = \<lparr>fp_before = demo_wait, fp_cell = NOT v, fp_after = demo_wait\<rparr>\<rparr>"

definition full_page :: page where "full_page = replicate SESSION_RECORD_COUNT (7, NOT 7)"

theorem session_journal_advances_witness:
  "\<exists>r' page'. rcr_platform_next_session (demo_session_env 8) ((\<lambda>_. 0), full_page) = ((r', page'), 8, True) \<and>
     journal_wf page' \<and> journal_last page' = 8"
proof -
  have "filter valid_record full_page = full_page"
    by (simp add: full_page_def valid_record_def)
  moreover have "full_page \<noteq> []" by (simp add: full_page_def SESSION_RECORD_COUNT_def)
  moreover have "last full_page = (7, NOT 7)" unfolding full_page_def by (rule last_replicate) (simp add: SESSION_RECORD_COUNT_def)
  ultimately have last: "journal_last full_page = 7" by (simp add: journal_last_def split: list.splits)
  have wf: "journal_wf full_page"
    by (auto simp: journal_wf_def full_page_def erased_def SESSION_RECORD_COUNT_def intro!: exI [of _ "replicate 256 (7, NOT 7)"] exI [of _ 0])
  have w: "flash_wait demo_wait" by (subst flash_wait_def, subst wait_for.simps) (simp add: demo_wait_def)
  have "erased \<notin> set full_page" by (simp add: full_page_def erased_def)
  then have "snd (rcr_platform_next_session (demo_session_env 8) ((\<lambda>_. 0), full_page)) = (8, True)"
    by (simp add: rcr_platform_next_session_def scan_page last flash_erase_session_page_def demo_session_env_def w
      write_record_def flash_program_halfword_def erased_def nth_replicate SESSION_RECORD_COUNT_def)
  then obtain r' page' where r: "rcr_platform_next_session (demo_session_env 8) ((\<lambda>_. 0), full_page) = ((r', page'), 8, True)"
    by (metis prod.collapse)
  have "flash_wait (fe_after (se_erase (demo_session_env 8))) \<longrightarrow>
      fe_page (se_erase (demo_session_env 8)) = replicate SESSION_RECORD_COUNT erased"
    by (simp add: demo_session_env_def)
  from session_journal_advances [OF wf this r] r show ?thesis by blast
qed

end
