(* ===== verification/Mcu_Main.thy ===== *)
theory Mcu_Main
  imports Mcu_Session
begin

text \<open>
  The firmware's main loop (\<^verbatim>\<open>firmware/stm32f103/src/main.c\<close>). An iteration is one step;
  the interrupts that happen during it are inputs: how often the millisecond tick fires and which
  messages the receive interrupt finds, before the iteration and before each pop of the
  receive ring. A message that arrives at any other moment is indistinguishable from one that arrives
  before the next of these points. The LED command and the frames handed to the controller are the outputs of the step.
\<close>

unbundle bit_operations_syntax

section \<open>State and inputs\<close>

definition RCR_PERIOD_MS :: u32 where "RCR_PERIOD_MS = 100"

record main_state =
  ms_node :: rcr_node_t
  ms_next_heartbeat_ms :: u32
  ms_next_status_ms :: u32
  ms_applied_servo_pulse_us :: u16
  ms_bus_off_previous :: bool
  ms_position_debounce :: rcr_input_debounce_t
  ms_platform :: rcr_platform

definition sys_ticks :: "nat \<Rightarrow> rcr_platform \<Rightarrow> rcr_platform" where
  "sys_ticks n p = (SysTick_Handler ^^ n) p"

text \<open>Before a pop: ticks, then a receive interrupt; after it: the ticks until the time is read.\<close>

record RxTurn =
  rt_ticks :: nat
  rt_fifo :: "RxMailbox list"
  rt_apply_ticks :: nat

definition idle_turn :: RxTurn where
  "idle_turn = \<lparr>rt_ticks = 0, rt_fifo = [], rt_apply_ticks = 0\<rparr>"

record LoopEnv =
  le_ticks :: nat
  le_fifo :: "RxMailbox list"
  le_idr :: u32
  le_esr :: u32
  le_turns :: "RxTurn list"
  le_tsr :: "nat \<Rightarrow> u32"

section \<open>Parts of the loop\<close>

definition enqueue_or_latch :: "rcr_can_frame_t \<Rightarrow> rcr_node_t \<times> rcr_platform \<Rightarrow> rcr_node_t \<times> rcr_platform" where
  "enqueue_or_latch frame np =
     (let (p, ok) = rcr_platform_can_tx_enqueue frame (snd np)
      in (if \<not> ok then rcr_node_latch_internal_fault (fst np) else fst np, p))"

definition enqueue_periodic :: "rcr_can_frame_t \<Rightarrow> rcr_platform \<Rightarrow> rcr_platform" where
  "enqueue_periodic frame p = fst (rcr_platform_can_tx_enqueue frame p)"

definition publish_heartbeat :: "rcr_node_t \<times> rcr_platform \<Rightarrow> rcr_node_t \<times> rcr_platform" where
  "publish_heartbeat np =
     (let (node, heartbeat) = rcr_node_make_heartbeat (fst np) in
      case rcr_can_v1_encode_heartbeat heartbeat of
        None \<Rightarrow> (rcr_node_latch_internal_fault node, snd np)
      | Some frame \<Rightarrow> (node, enqueue_periodic frame (snd np)))"

definition publish_status :: "rcr_node_t \<times> rcr_platform \<Rightarrow> rcr_node_t \<times> rcr_platform" where
  "publish_status np =
     (case rcr_can_v1_encode_node_status (rcr_node_make_status (fst np)) of
        None \<Rightarrow> (rcr_node_latch_internal_fault (fst np), snd np)
      | Some frame \<Rightarrow> (fst np, enqueue_periodic frame (snd np)))"

definition handle_received :: "rcr_can_frame_t \<Rightarrow> u32 \<Rightarrow> rcr_node_t \<times> rcr_platform \<Rightarrow> rcr_node_t \<times> rcr_platform" where
  "handle_received received apply_ms np =
     (let (node, result, status) = rcr_node_on_frame received apply_ms (fst np) in
      case (result, status) of
        (FRAME_STATUS_READY, Some output_status) \<Rightarrow>
          (case rcr_can_v1_encode_output_status output_status of
             Some response \<Rightarrow> enqueue_or_latch response (node, snd np)
           | None \<Rightarrow> (rcr_node_latch_internal_fault node, snd np))
      | _ \<Rightarrow> (node, snd np))"

text \<open>One turn of the receive loop; the second result says whether a frame was popped.\<close>

definition rx_turn :: "RxTurn \<Rightarrow> rcr_node_t \<times> rcr_platform \<Rightarrow> (rcr_node_t \<times> rcr_platform) \<times> bool" where
  "rx_turn t np =
     (let p = USB_LP_CAN1_RX0_IRQHandler (rt_fifo t) (sys_ticks (rt_ticks t) (snd np));
          (p, popped) = rcr_platform_can_rx_pop p in
      case popped of
        None \<Rightarrow> ((fst np, p), False)
      | Some received \<Rightarrow>
          let p = sys_ticks (rt_apply_ticks t) p
          in (handle_received received (pf_monotonic_ms p) (fst np, p), True))"

text \<open>
  The receive loop with its interrupts; when none are left, the ring holds fewer than
  \<open>QUEUE_CAPACITY\<close> frames, so that many further turns are enough.
\<close>

fun rx_drain :: "nat \<Rightarrow> rcr_node_t \<times> rcr_platform \<Rightarrow> rcr_node_t \<times> rcr_platform" where
  "rx_drain 0 np = np"
| "rx_drain (Suc n) np = (let (np, more) = rx_turn idle_turn np in if more then rx_drain n np else np)"

fun rx_loop :: "RxTurn list \<Rightarrow> rcr_node_t \<times> rcr_platform \<Rightarrow> rcr_node_t \<times> rcr_platform" where
  "rx_loop [] np = rx_drain QUEUE_CAPACITY np"
| "rx_loop (t # ts) np = (let (np, more) = rx_turn t np in if more then rx_loop ts np else np)"

text \<open>The deadline after a report that was due: on the grid, unless a whole period was missed.\<close>

definition next_due :: "u32 \<Rightarrow> u32 \<Rightarrow> u32" where
  "next_due now_ms due_ms =
     (let due_ms = due_ms + RCR_PERIOD_MS
      in if time_after_or_equal now_ms due_ms then now_ms + RCR_PERIOD_MS else due_ms)"

section \<open>The loop\<close>

text \<open>The inputs of an iteration: position, receive overflow, state of the bus.\<close>

definition loop_inputs :: "LoopEnv \<Rightarrow> u32 \<Rightarrow> main_state \<Rightarrow> main_state" where
  "loop_inputs e now_ms s =
     (let (debounce, reached) = rcr_input_debounce_update (rcr_platform_target_sensor_active (le_idr e)) now_ms
             RCR_INPUT_DEBOUNCE_MS (ms_position_debounce s);
          node = (ms_node s)\<lparr>rn_input_bits := rcr_input_bits_from_reached reached\<rparr>;
          (p, overflow) = rcr_platform_take_rx_overflow (ms_platform s);
          node = (if overflow then rcr_node_latch_internal_fault node else node);
          bus_off = rcr_platform_can_bus_off (le_esr e);
          node = (if bus_off \<noteq> ms_bus_off_previous s then rcr_node_set_bus_ready (\<not> bus_off) node else node)
      in s\<lparr>ms_node := node, ms_bus_off_previous := bus_off, ms_position_debounce := debounce, ms_platform := p\<rparr>)"

text \<open>The periodic reports.\<close>

definition loop_reports :: "u32 \<Rightarrow> main_state \<Rightarrow> main_state" where
  "loop_reports now_ms s =
     (let s = (if time_after_or_equal now_ms (ms_next_heartbeat_ms s)
               then let (node, p) = publish_heartbeat (ms_node s, ms_platform s)
                    in s\<lparr>ms_node := node, ms_next_heartbeat_ms := next_due now_ms (ms_next_heartbeat_ms s), ms_platform := p\<rparr>
               else s)
      in if time_after_or_equal now_ms (ms_next_status_ms s)
         then let (node, p) = publish_status (ms_node s, ms_platform s)
              in s\<lparr>ms_node := node, ms_next_status_ms := next_due now_ms (ms_next_status_ms s), ms_platform := p\<rparr>
         else s)"

text \<open>The physical outputs, the transmit pump and the watchdog.\<close>

definition loop_outputs :: "(nat \<Rightarrow> u32) \<Rightarrow> main_state \<Rightarrow> main_state \<times> bool \<times> rcr_can_frame_t list" where
  "loop_outputs tsr s =
     (let node = ms_node s;
          led = (rn_output_bits node AND 1 \<noteq> 0);
          r = rcr_platform_set_output_led led (pf_regs (ms_platform s));
          target = rcr_servo_pwm_target_us (rn_lease_active node) (rn_output_bits node);
          (r, applied) = (if target \<noteq> ms_applied_servo_pulse_us s
                          then (rcr_platform_set_servo_pwm_us target r, target)
                          else (r, ms_applied_servo_pulse_us s));
          (p, sent) = rcr_platform_can_tx_pump tsr ((ms_platform s)\<lparr>pf_regs := r\<rparr>);
          p = p\<lparr>pf_regs := rcr_platform_watchdog_kick (pf_regs p)\<rparr>
      in (s\<lparr>ms_applied_servo_pulse_us := applied, ms_platform := p\<rparr>, led, sent))"

definition main_iter :: "LoopEnv \<Rightarrow> main_state \<Rightarrow> main_state \<times> bool \<times> rcr_can_frame_t list" where
  "main_iter e s =
     (let p = USB_LP_CAN1_RX0_IRQHandler (le_fifo e) (sys_ticks (le_ticks e) (ms_platform s));
          now_ms = pf_monotonic_ms p;
          s = loop_inputs e now_ms (s\<lparr>ms_platform := p\<rparr>);
          (node, p) = rx_loop (le_turns e) (ms_node s, ms_platform s);
          node = fst (rcr_node_expire_lease now_ms node);
          s = loop_reports now_ms (s\<lparr>ms_node := node, ms_platform := p\<rparr>)
      in loop_outputs (le_tsr e) s)"

text \<open>
  The part of \<open>main\<close> before the loop; without a working clock or CAN controller the firmware stops there. The ticks
  are those until the time is read.
\<close>

definition main_start :: "InitPolls \<Rightarrow> SessionEnv \<Rightarrow> nat \<Rightarrow> regs \<Rightarrow> page \<Rightarrow> main_state option \<times> page" where
  "main_start polls e ticks r page =
     (let (r, ok) = rcr_platform_init polls r in
      if \<not> ok then (None, page)
      else let ((r, page), session_id, identity_ready) = rcr_platform_next_session e (r, page);
               node = rcr_node_init RCR_CAN_V1_NODE_ID session_id session_id identity_ready;
               r = rcr_platform_watchdog_start r;
               p = sys_ticks ticks (pf_init r);
               next_heartbeat_ms = pf_monotonic_ms p
           in (Some \<lparr>ms_node = node, ms_next_heartbeat_ms = next_heartbeat_ms, ms_next_status_ms = next_heartbeat_ms,
                     ms_applied_servo_pulse_us = RCR_SERVO_PWM_DISABLED_US, ms_bus_off_previous = False,
                     ms_position_debounce = rcr_input_debounce_init, ms_platform = p\<rparr>, page))"

section \<open>What the platform operations keep\<close>

abbreviation servo_reg :: u32 where "servo_reg \<equiv> TIM1_BASE + 0x34"

definition pf_ok :: "u32 \<Rightarrow> rcr_platform \<Rightarrow> bool" where
  "pf_ok c p \<longleftrightarrow> rx_inv p \<and> tx_inv p \<and> pf_regs p servo_reg = c"

lemma pf_ok_init: "pf_ok (r servo_reg) (pf_init r)"
  by (simp add: pf_ok_def pf_init_def rx_inv_def tx_inv_def ring_inv_def QUEUE_CAPACITY_def)

lemma sys_ticks_simps [simp]:
  "pf_monotonic_ms (sys_ticks n p) = pf_monotonic_ms p + of_nat n"
  "pf_ok c (sys_ticks n p) = pf_ok c p" "rx_contents (sys_ticks n p) = rx_contents p"
  "tx_contents (sys_ticks n p) = tx_contents p" "rx_inv (sys_ticks n p) = rx_inv p" "tx_inv (sys_ticks n p) = tx_inv p"
  by (induction n) (simp_all add: sys_ticks_def SysTick_Handler_def pf_ok_def rx_inv_def tx_inv_def)

lemma rx_store_keeps: "pf_ok c p \<Longrightarrow> pf_ok c (rx_store f p)" "pf_monotonic_ms (rx_store f p) = pf_monotonic_ms p"
proof -
  assume "pf_ok c p"
  then have "rx_inv (rx_store f p)" using rxq.push_inv [of p f] by (simp add: rx_push_def pf_ok_def)
  then show "pf_ok c (rx_store f p)" using \<open>pf_ok c p\<close> by (auto simp: pf_ok_def tx_inv_def rx_store_def Let_def)
qed (simp add: rx_store_def Let_def)

lemma irq_reg_keeps: "pf_ok c (p\<lparr>pf_regs := reg_set (CAN1_BASE + 0x0C) v (pf_regs p)\<rparr>) = pf_ok c p"
  by (simp add: pf_ok_def rx_inv_def tx_inv_def reg_set_def reg_bases)

lemma irq_keeps:
  "pf_ok c p \<Longrightarrow> pf_ok c (USB_LP_CAN1_RX0_IRQHandler fifo p)"
  "pf_monotonic_ms (USB_LP_CAN1_RX0_IRQHandler fifo p) = pf_monotonic_ms p"
  unfolding USB_LP_CAN1_RX0_IRQHandler_def
  by (induction fifo arbitrary: p) (simp_all add: Let_def irq_reg_keeps rx_store_keeps)

lemma rx_pop_keeps: "pf_ok c p \<Longrightarrow> rcr_platform_can_rx_pop p = (p', f) \<Longrightarrow> pf_ok c p'"
  using rxq.pop_inv [of p p' f] by (auto simp: pf_ok_def tx_inv_def rcr_platform_can_rx_pop_def split: if_splits)

lemma take_overflow_keeps: "pf_ok c (fst (rcr_platform_take_rx_overflow p)) = pf_ok c p"
  by (simp add: rcr_platform_take_rx_overflow_def pf_ok_def rx_inv_def tx_inv_def)

lemma enqueue_keeps:
  assumes "pf_ok c p"
  shows "pf_ok c (fst (rcr_platform_can_tx_enqueue f p))"
proof -
  obtain p' ok where e: "rcr_platform_can_tx_enqueue f p = (p', ok)" by fastforce
  have "tx_inv p'" using tx_enqueue [OF _ e] assms by (simp add: pf_ok_def)
  then show ?thesis using assms e
    by (auto simp: pf_ok_def rx_inv_def rcr_platform_can_tx_enqueue_def Let_def split: if_splits)
qed

lemma load_keeps_servo: "fst (try_load_tx_mailbox tsr f r) servo_reg = r servo_reg"
  by (auto simp: try_load_tx_mailbox_def mailbox_offset_def reg_ops reg_bases Let_def split: option.splits if_splits)

lemma tx_pump_keeps:
  assumes "pf_ok c p"
  shows "pf_ok c (fst (rcr_platform_can_tx_pump tsr p))"
proof -
  have "pf_regs (fst (tx_pump_loop n tsr p)) servo_reg = pf_regs p servo_reg \<and>
        pf_rx_queue (fst (tx_pump_loop n tsr p)) = pf_rx_queue p \<and>
        pf_rx_tail (fst (tx_pump_loop n tsr p)) = pf_rx_tail p \<and> pf_rx_head (fst (tx_pump_loop n tsr p)) = pf_rx_head p"
    for n tsr p
    by (induction n arbitrary: tsr p) (simp_all add: Let_def split_beta load_keeps_servo)
  then show ?thesis
    using assms tx_pump_fifo(1) [of p tsr] by (simp add: pf_ok_def rx_inv_def rcr_platform_can_tx_pump_def prod_eq_iff)
qed

section \<open>The receive loop\<close>

definition np_ok :: "u32 \<Rightarrow> rcr_node_t \<times> rcr_platform \<Rightarrow> bool" where
  "np_ok c np \<longleftrightarrow> rn_inv (fst np) \<and> pf_ok c (snd np)"

lemma enqueue_or_latch_ok: "np_ok c np \<Longrightarrow> np_ok c (enqueue_or_latch f np)"
  using enqueue_keeps [of c "snd np" f] by (auto simp: np_ok_def enqueue_or_latch_def rn_inv_keeps split: prod.splits)

lemma handle_received_ok:
  assumes "np_ok c np"
  shows "np_ok c (handle_received f ms np)"
proof -
  obtain node result status where n: "rcr_node_on_frame f ms (fst np) = (node, result, status)" by (metis prod_cases3)
  have "np_ok c (node, snd np)" using assms rn_inv_frame [of "fst np" f ms] n by (simp add: np_ok_def)
  then show ?thesis using enqueue_or_latch_ok [of c "(node, snd np)"] rn_inv_latch [of node]
    by (auto simp: handle_received_def n np_ok_def split: option.splits rcr_node_frame_result_t.splits)
qed

lemma rx_turn_ok:
  assumes "np_ok c np"
  shows "np_ok c (fst (rx_turn t np))"
proof -
  let ?p = "USB_LP_CAN1_RX0_IRQHandler (rt_fifo t) (sys_ticks (rt_ticks t) (snd np))"
  obtain p' f where pop: "rcr_platform_can_rx_pop ?p = (p', f)" by fastforce
  have "pf_ok c p'" using assms by (intro rx_pop_keeps [OF _ pop] irq_keeps) (simp add: np_ok_def)
  then show ?thesis using assms pop handle_received_ok [of c "(fst np, sys_ticks (rt_apply_ticks t) p')"]
    by (auto simp: rx_turn_def np_ok_def Let_def split: option.splits)
qed

lemma rx_drain_ok: "np_ok c np \<Longrightarrow> np_ok c (rx_drain n np)"
proof (induction n arbitrary: np)
  case (Suc n)
  then show ?case using rx_turn_ok [OF Suc.prems, of idle_turn] by (auto simp: Let_def split: prod.splits)
qed simp

lemma rx_loop_ok: "np_ok c np \<Longrightarrow> np_ok c (rx_loop ts np)"
proof (induction ts arbitrary: np)
  case (Cons t ts)
  then show ?case using rx_turn_ok [OF Cons.prems, of t] by (auto simp: Let_def split: prod.splits)
qed (simp add: rx_drain_ok)

lemma enqueue_rx:
  "rx_contents (fst (rcr_platform_can_tx_enqueue f p)) = rx_contents p"
  by (simp add: rcr_platform_can_tx_enqueue_def Let_def)

lemma handle_received_rx: "rx_contents (snd (handle_received f ms np)) = rx_contents (snd np)"
  using enqueue_rx
  by (auto simp: handle_received_def enqueue_or_latch_def split: prod.splits option.splits rcr_node_frame_result_t.splits)
    (metis fst_conv)+

text \<open>The receive loop ends with an empty ring.\<close>

lemma rx_drain_empty:
  "np_ok c np \<Longrightarrow> length (rx_contents (snd np)) < n \<Longrightarrow> rx_contents (snd (rx_drain n np)) = []"
proof (induction n arbitrary: np)
  case (Suc n)
  have inv: "rx_inv (snd np)" using Suc.prems by (simp add: np_ok_def pf_ok_def)
  have s: "sys_ticks 0 p = p" for p by (simp add: sys_ticks_def)
  have i: "USB_LP_CAN1_RX0_IRQHandler [] p = p" for p by (simp add: USB_LP_CAN1_RX0_IRQHandler_def)
  obtain p' f where pop: "rcr_platform_can_rx_pop (snd np) = (p', f)" by fastforce
  show ?case
  proof (cases "rx_contents (snd np)")
    case Nil
    then have "f = None" "rx_contents p' = []" using rxq.pop_contents [OF inv pop] by simp_all
    then show ?thesis using pop by (simp add: rx_turn_def idle_turn_def s i)
  next
    case (Cons g gs)
    then have f: "f = Some g" "rx_contents p' = gs" using rxq.pop_contents [OF inv pop] by simp_all
    let ?np = "handle_received g (pf_monotonic_ms p') (fst np, p')"
    have t: "rx_turn idle_turn np = (?np, True)" using pop f by (simp add: rx_turn_def idle_turn_def s i)
    have "np_ok c ?np" using rx_turn_ok [OF Suc.prems(1), of idle_turn] t by simp
    moreover have "length (rx_contents (snd ?np)) < n" using f Suc.prems(2) Cons by (simp add: handle_received_rx)
    ultimately show ?thesis using Suc.IH t by simp
  qed
qed simp

lemma rx_loop_empty:
  assumes "np_ok c np"
  shows "rx_contents (snd (rx_loop ts np)) = []"
  using assms
proof (induction ts arbitrary: np)
  case Nil
  have "length (rx_contents (snd np)) < QUEUE_CAPACITY" by (simp add: ring_contents_def QUEUE_CAPACITY_def)
  then show ?case using rx_drain_empty [OF Nil] by simp
next
  case (Cons t ts)
  show ?case
  proof (cases "snd (rx_turn t np)")
    case True
    then show ?thesis using Cons.IH rx_turn_ok [OF Cons.prems, of t] by (auto simp: Let_def split: prod.splits)
  next
    case False
    let ?p = "USB_LP_CAN1_RX0_IRQHandler (rt_fifo t) (sys_ticks (rt_ticks t) (snd np))"
    obtain p' f where pop: "rcr_platform_can_rx_pop ?p = (p', f)" by fastforce
    have inv: "rx_inv ?p" using irq_keeps(1) [of c "sys_ticks (rt_ticks t) (snd np)" "rt_fifo t"] Cons.prems
      by (simp add: np_ok_def pf_ok_def [of c "USB_LP_CAN1_RX0_IRQHandler _ _"])
    have "f = None" using False pop by (auto simp: rx_turn_def split: option.splits)
    moreover from this have "rx_contents p' = []" using rxq.pop_contents [OF inv pop] by (simp split: list.splits)
    ultimately show ?thesis using pop by (simp add: rx_turn_def)
  qed
qed

section \<open>Invariant of the loop\<close>

definition main_inv :: "main_state \<Rightarrow> bool" where
  "main_inv s \<longleftrightarrow> rn_inv (ms_node s) \<and> pf_ok (ucast (ms_applied_servo_pulse_us s)) (ms_platform s) \<and>
     ms_applied_servo_pulse_us s \<in> {RCR_SERVO_PWM_DISABLED_US, RCR_SERVO_POSITION_A_US, RCR_SERVO_POSITION_B_US}"

text \<open>A lease that is running at time \<open>now\<close>.\<close>

definition leased_at :: "u32 \<Rightarrow> rcr_node_t \<Rightarrow> bool" where
  "leased_at now n \<longleftrightarrow> rn_lease_active n \<and> \<not> time_after_or_equal now (rn_lease_deadline_ms n)"

definition lease_ok :: "u32 \<Rightarrow> rcr_node_t \<Rightarrow> bool" where
  "lease_ok now n \<longleftrightarrow> (rn_lease_active n \<longrightarrow> leased_at now n)"

lemma lease_ok_expire: "lease_ok now (fst (rcr_node_expire_lease now n))"
  by (simp add: lease_ok_def leased_at_def rcr_node_expire_lease_def neutralize_output_def)

lemma inputs_ok:
  assumes "main_inv s"
  shows "main_inv (loop_inputs e now s)"
    and "ms_applied_servo_pulse_us (loop_inputs e now s) = ms_applied_servo_pulse_us s"
proof -
  obtain d k where d: "rcr_input_debounce_update (rcr_platform_target_sensor_active (le_idr e)) now
      RCR_INPUT_DEBOUNCE_MS (ms_position_debounce s) = (d, k)" by fastforce
  show "main_inv (loop_inputs e now s)"
    using assms take_overflow_keeps [of "ucast (ms_applied_servo_pulse_us s)" "ms_platform s"]
    unfolding loop_inputs_def d by (auto simp: main_inv_def Let_def rn_inv_keeps split: prod.splits)
  show "ms_applied_servo_pulse_us (loop_inputs e now s) = ms_applied_servo_pulse_us s"
    unfolding loop_inputs_def d by (simp add: Let_def split: prod.splits)
qed

lemma publish_ok:
  assumes "np_ok c np" and "lease_ok now (fst np)"
  shows "np_ok c (publish_heartbeat np) \<and> lease_ok now (fst (publish_heartbeat np))"
    and "np_ok c (publish_status np) \<and> lease_ok now (fst (publish_status np))"
proof -
  have latch: "lease_ok now (rcr_node_latch_internal_fault n)" for n
    by (simp add: lease_ok_def rcr_node_latch_internal_fault_def neutralize_output_def)
  have "lease_ok now (fst (rcr_node_make_heartbeat (fst np)))"
    using assms(2) by (simp add: lease_ok_def leased_at_def rcr_node_make_heartbeat_def)
  then show "np_ok c (publish_heartbeat np) \<and> lease_ok now (fst (publish_heartbeat np))"
    using assms rn_inv_heartbeat [of "fst np"] enqueue_keeps [of c "snd np"] latch rn_inv_latch
    by (auto simp: publish_heartbeat_def np_ok_def enqueue_periodic_def split: prod.splits option.splits)
  show "np_ok c (publish_status np) \<and> lease_ok now (fst (publish_status np))"
    using assms enqueue_keeps [of c "snd np"] latch rn_inv_latch
    by (auto simp: publish_status_def np_ok_def enqueue_periodic_def split: option.splits)
qed

lemma main_inv_np:
  "main_inv s \<longleftrightarrow> np_ok (ucast (ms_applied_servo_pulse_us s)) (ms_node s, ms_platform s) \<and>
     ms_applied_servo_pulse_us s \<in> {RCR_SERVO_PWM_DISABLED_US, RCR_SERVO_POSITION_A_US, RCR_SERVO_POSITION_B_US}"
  by (auto simp: main_inv_def np_ok_def)

lemma reports_ok:
  assumes "main_inv s" and "lease_ok now (ms_node s)"
  shows "main_inv (loop_reports now s) \<and> lease_ok now (ms_node (loop_reports now s))"
proof -
  define h where "h = (if time_after_or_equal now (ms_next_heartbeat_ms s)
      then let (node, p) = publish_heartbeat (ms_node s, ms_platform s)
           in s\<lparr>ms_node := node, ms_next_heartbeat_ms := next_due now (ms_next_heartbeat_ms s), ms_platform := p\<rparr>
      else s)"
  have h: "main_inv h \<and> lease_ok now (ms_node h)"
    using assms publish_ok(1) [of "ucast (ms_applied_servo_pulse_us s)" "(ms_node s, ms_platform s)" now]
    by (auto simp: h_def main_inv_np split: prod.splits)
  have "loop_reports now s = (if time_after_or_equal now (ms_next_status_ms h)
      then let (node, p) = publish_status (ms_node h, ms_platform h)
           in h\<lparr>ms_node := node, ms_next_status_ms := next_due now (ms_next_status_ms h), ms_platform := p\<rparr>
      else h)" by (simp add: loop_reports_def h_def Let_def)
  then show ?thesis
    using h publish_ok(2) [of "ucast (ms_applied_servo_pulse_us h)" "(ms_node h, ms_platform h)" now]
    by (auto simp: main_inv_np split: prod.splits)
qed

lemma led_keeps_servo: "rcr_platform_set_output_led b r servo_reg = r servo_reg"
  by (simp add: rcr_platform_set_output_led_def reg_ops reg_bases)

lemma servo_targets:
  "rcr_servo_pwm_target_us l b \<in> {RCR_SERVO_PWM_DISABLED_US, RCR_SERVO_POSITION_A_US, RCR_SERVO_POSITION_B_US}"
  "rcr_servo_pwm_target_us l b \<noteq> 0 \<longleftrightarrow> l"
  by (simp_all add: rcr_servo_pwm_target_us_def RCR_SERVO_PWM_DISABLED_US_def RCR_SERVO_POSITION_A_US_def
    RCR_SERVO_POSITION_B_US_def)

lemma set_servo_reg:
  "rcr_platform_set_servo_pwm_us (rcr_servo_pwm_target_us l b) r servo_reg = ucast (rcr_servo_pwm_target_us l b)"
  using servo_targets(1) [of l b] by (auto simp: rcr_platform_set_servo_pwm_us_def reg_set_def)

lemma outputs_ok:
  assumes "main_inv s" and "loop_outputs tsr s = (s', led, out)"
  shows "main_inv s'" and "ms_node s' = ms_node s"
    and "led \<longleftrightarrow> rn_output_bits (ms_node s) AND 1 \<noteq> 0"
    and "ms_applied_servo_pulse_us s' = rcr_servo_pwm_target_us (rn_lease_active (ms_node s)) (rn_output_bits (ms_node s))"
    and "out @ tx_contents (ms_platform s') = tx_contents (ms_platform s)"
proof -
  let ?t = "rcr_servo_pwm_target_us (rn_lease_active (ms_node s)) (rn_output_bits (ms_node s))"
  define r where "r = (let r = rcr_platform_set_output_led (rn_output_bits (ms_node s) AND 1 \<noteq> 0) (pf_regs (ms_platform s))
     in if ?t \<noteq> ms_applied_servo_pulse_us s then rcr_platform_set_servo_pwm_us ?t r else r)"
  have c: "pf_ok (ucast (ms_applied_servo_pulse_us s)) (ms_platform s)" using assms(1) by (simp add: main_inv_def)
  have "r servo_reg = ucast ?t"
    using c by (simp add: r_def Let_def set_servo_reg led_keeps_servo pf_ok_def)
  then have p: "pf_ok (ucast ?t) ((ms_platform s)\<lparr>pf_regs := r\<rparr>)" using c by (simp add: pf_ok_def rx_inv_def tx_inv_def)
  obtain p' where pump: "rcr_platform_can_tx_pump tsr ((ms_platform s)\<lparr>pf_regs := r\<rparr>) = (p', out)"
    and s': "s' = s\<lparr>ms_applied_servo_pulse_us := ?t,
                   ms_platform := p'\<lparr>pf_regs := rcr_platform_watchdog_kick (pf_regs p')\<rparr>\<rparr>"
    and led: "led \<longleftrightarrow> rn_output_bits (ms_node s) AND 1 \<noteq> 0"
    using assms(2) unfolding loop_outputs_def r_def by (auto simp: Let_def split: prod.splits if_splits)
  have "pf_ok (ucast ?t) p'" using tx_pump_keeps [OF p, of tsr] pump by simp
  then have "pf_ok (ucast ?t) (p'\<lparr>pf_regs := rcr_platform_watchdog_kick (pf_regs p')\<rparr>)"
    by (simp add: pf_ok_def rx_inv_def tx_inv_def rcr_platform_watchdog_kick_def reg_ops reg_bases)
  then show "main_inv s'" using assms(1) servo_targets(1) [of "rn_lease_active (ms_node s)" "rn_output_bits (ms_node s)"]
    by (simp add: s' main_inv_def)
  show "ms_node s' = ms_node s" "ms_applied_servo_pulse_us s' = ?t" by (simp_all add: s')
  show "led \<longleftrightarrow> rn_output_bits (ms_node s) AND 1 \<noteq> 0" by (rule led)
  have "tx_inv ((ms_platform s)\<lparr>pf_regs := r\<rparr>)" using p by (simp add: pf_ok_def)
  from tx_pump_fifo(2) [OF this pump] show "out @ tx_contents (ms_platform s') = tx_contents (ms_platform s)"
    by (simp add: s')
qed

text \<open>The clock an iteration works with.\<close>

definition iter_now :: "LoopEnv \<Rightarrow> main_state \<Rightarrow> u32" where
  "iter_now e s = pf_monotonic_ms (ms_platform s) + of_nat (le_ticks e)"

lemma iter_ok:
  assumes "main_inv s" and "main_iter e s = (s', led, out)"
  shows "main_inv s' \<and> lease_ok (iter_now e s) (ms_node s') \<and>
         (led \<longleftrightarrow> rn_output_bits (ms_node s') AND 1 \<noteq> 0) \<and>
         ms_applied_servo_pulse_us s' = rcr_servo_pwm_target_us (rn_lease_active (ms_node s')) (rn_output_bits (ms_node s'))"
proof -
  let ?p = "USB_LP_CAN1_RX0_IRQHandler (le_fifo e) (sys_ticks (le_ticks e) (ms_platform s))"
  let ?s1 = "loop_inputs e (iter_now e s) (s\<lparr>ms_platform := ?p\<rparr>)"
  have now: "pf_monotonic_ms ?p = iter_now e s" by (simp add: irq_keeps(2) iter_now_def)
  have "pf_ok (ucast (ms_applied_servo_pulse_us s)) ?p"
    using assms(1) by (intro irq_keeps) (simp add: main_inv_def)
  then have "main_inv (s\<lparr>ms_platform := ?p\<rparr>)" using assms(1) by (simp add: main_inv_def)
  then have s1: "main_inv ?s1" by (rule inputs_ok(1))
  obtain node p where rx: "rx_loop (le_turns e) (ms_node ?s1, ms_platform ?s1) = (node, p)" by fastforce
  let ?n = "fst (rcr_node_expire_lease (iter_now e s) node)"
  let ?s2 = "loop_reports (iter_now e s) (?s1\<lparr>ms_node := ?n, ms_platform := p\<rparr>)"
  have "np_ok (ucast (ms_applied_servo_pulse_us ?s1)) (node, p)"
    using rx_loop_ok [of _ "(ms_node ?s1, ms_platform ?s1)" "le_turns e"] s1 rx by (simp add: main_inv_np)
  then have "main_inv (?s1\<lparr>ms_node := ?n, ms_platform := p\<rparr>)"
    using s1 by (simp add: main_inv_np np_ok_def rn_inv_expire)
  then have s2: "main_inv ?s2 \<and> lease_ok (iter_now e s) (ms_node ?s2)"
    using reports_ok lease_ok_expire by simp
  have "loop_outputs (le_tsr e) ?s2 = (s', led, out)"
    using assms(2) unfolding main_iter_def Let_def now rx by simp
  from outputs_ok [OF _ this] s2 show ?thesis by simp
qed

interpretation mm: machine "\<lambda>e s. fst (main_iter e s)" main_inv
  by unfold_locales (metis iter_ok prod.collapse)

lemma flash_keeps_servo:
  "flash_unlock r servo_reg = r servo_reg" "flash_lock r servo_reg = r servo_reg"
  "fst (fst (flash_program_halfword a i h v s)) servo_reg = fst s servo_reg"
  "fst (fst (flash_erase_session_page b s)) servo_reg = fst s servo_reg"
  by (simp_all add: flash_unlock_def flash_lock_def flash_program_halfword_def flash_erase_session_page_def
    reg_ops reg_bases Let_def split: prod.splits)

lemma session_keeps_servo: "fst (fst (rcr_platform_next_session e s)) servo_reg = fst s servo_reg"
proof -
  have w: "fst (fst (write_record e i v t)) servo_reg = fst t servo_reg" for i v t
    by (simp add: write_record_def Let_def split_beta flash_keeps_servo)
  show ?thesis
    by (simp add: rcr_platform_next_session_def Let_def split_beta w flash_keeps_servo split: option.splits)
qed

lemma start_ok:
  assumes "main_start polls e ticks r page = (Some s, page')"
  shows "main_inv s"
proof -
  obtain r1 where i: "rcr_platform_init polls r = (r1, True)"
    using assms by (auto simp: main_start_def Let_def split: prod.splits if_splits)
  obtain r2 page2 sid ok where n: "rcr_platform_next_session e (r1, page) = ((r2, page2), sid, ok)" by (metis prod.collapse)
  let ?r = "rcr_platform_watchdog_start r2"
  have "?r servo_reg = 0"
    using session_keeps_servo [of e "(r1, page)"] n init_servo_off [OF i]
    by (simp add: rcr_platform_watchdog_start_def reg_ops reg_bases)
  then have "pf_ok 0 (pf_init ?r)" using pf_ok_init [of ?r] by simp
  moreover have "ms_platform s = sys_ticks ticks (pf_init ?r)" "ms_applied_servo_pulse_us s = RCR_SERVO_PWM_DISABLED_US"
    "ms_node s = rcr_node_init RCR_CAN_V1_NODE_ID sid sid ok"
    using assms i n by (auto simp: main_start_def Let_def)
  ultimately show ?thesis by (simp add: main_inv_def rn_inv_init RCR_SERVO_PWM_DISABLED_US_def)
qed

section \<open>Answers\<close>

lemma output_status_frame:
  "rcr_can_v1_encode_output_status st = Some f \<Longrightarrow> \<not> mf_extended f \<and> \<not> mf_rtr f \<and> mf_dlc f = RCR_CAN_V1_DLC"
  by (auto simp: rcr_can_v1_encode_output_status_def clear_frame_def Let_def split: if_splits)

lemma enqueue_or_latch_result:
  assumes "tx_inv p" and "\<not> mf_extended f \<and> \<not> mf_rtr f \<and> mf_dlc f = RCR_CAN_V1_DLC"
  shows "if length (tx_contents p) < 7
         then fst (enqueue_or_latch f (n, p)) = n \<and> tx_contents (snd (enqueue_or_latch f (n, p))) = tx_contents p @ [f]
         else fst (enqueue_or_latch f (n, p)) = rcr_node_latch_internal_fault n"
proof -
  obtain p' ok where e: "rcr_platform_can_tx_enqueue f p = (p', ok)" by fastforce
  from tx_enqueue [OF assms(1) e] assms(2) show ?thesis by (auto simp: enqueue_or_latch_def e)
qed

lemma on_frame_status:
  assumes "rn_inv n" and "rn_node_id n \<le> 31" and "rcr_node_on_frame f ms n = (n', res, st)"
  shows "st = None \<or> (\<exists>x resp. st = Some x \<and> res = FRAME_STATUS_READY \<and> rcr_can_v1_encode_output_status x = Some resp)"
proof (cases st)
  case (Some x)
  then obtain cmd where a: "rcr_node_apply_command cmd (mf_receive_ms f) ms n = (n', x)" "res = FRAME_STATUS_READY"
    using assms(3) by (auto simp: rcr_node_on_frame_def Let_def split: if_splits option.splits prod.splits)
  have id: "ws_node_id (snd (rcr_node_apply_command cmd (mf_receive_ms f) ms n)) = rn_node_id n"
    by (simp add: rcr_node_apply_command_def Let_def)
  have "x = snd (rcr_node_apply_command cmd (mf_receive_ms f) ms n)" using a(1) by simp
  then have "ws_node_id x = rn_node_id n" "ws_session_id x = rn_session_id n"
    using id mcu.status_echo(1) [of cmd "mf_receive_ms f" ms n] by simp_all
  then have "\<exists>resp. rcr_can_v1_encode_output_status x = Some resp"
    using assms(1,2) by (simp add: rcr_can_v1_encode_output_status_def rn_inv_def Let_def not_less)
  then show ?thesis using Some a(2) by simp
qed simp

lemma handle_received_answer:
  assumes "rn_inv n" and "rn_node_id n \<le> 31" and "tx_inv p"
    and "rcr_node_on_frame f ms n = (n', res, Some st)"
  shows "(\<exists>resp. rcr_can_v1_encode_output_status st = Some resp \<and>
            fst (handle_received f ms (n, p)) = n' \<and>
            tx_contents (snd (handle_received f ms (n, p))) = tx_contents p @ [resp]) \<or>
         length (tx_contents p) = 7 \<and> fst (handle_received f ms (n, p)) = rcr_node_latch_internal_fault n'"
proof -
  obtain resp where r: "res = FRAME_STATUS_READY" "rcr_can_v1_encode_output_status st = Some resp"
    using on_frame_status [OF assms(1,2,4)] by auto
  have "length (tx_contents p) < 8" by (simp add: ring_contents_def QUEUE_CAPACITY_def)
  moreover have "handle_received f ms (n, p) = enqueue_or_latch resp (n', p)"
    using assms(4) r by (simp add: handle_received_def)
  ultimately show ?thesis
    using enqueue_or_latch_result [OF assms(3) output_status_frame [OF r(2)], of n'] r(2) by (auto split: if_splits)
qed

section \<open>Properties\<close>

text \<open>
  C8. The firmware drives its outputs under a lease only. After every iteration of the main loop, from
  power-up on and for every pattern of interrupts, received messages, bus errors and sensor levels: the LED is
  commanded on, or the servo timer holds a pulse, only while a command accepted in this session holds a lease that
  is still running at the time the iteration read, with a good session identity, the bus up and no latched fault; and
  the pulse is one of the two positions or none.
\<close>

theorem firmware_outputs_leased:
  assumes "main_start polls se ticks r page = (Some s0, page')"
    and "s = fold (\<lambda>e s. fst (main_iter e s)) envs s0"
    and "main_iter e s = (s', led, out)"
  shows "(led \<or> pf_regs (ms_platform s') servo_reg \<noteq> 0 \<longrightarrow>
            leased_at (iter_now e s) (ms_node s') \<and> rcr_node_interlock_ready (ms_node s') \<and>
            rn_has_accepted_sequence (ms_node s')) \<and>
         pf_regs (ms_platform s') servo_reg \<in> {0, 1250, 1750}"
proof -
  have "main_inv s" unfolding assms(2) by (rule mm.run_inv) (rule start_ok [OF assms(1)])
  note i = iter_ok [OF this assms(3)]
  let ?n = "ms_node s'"
  have reg: "pf_regs (ms_platform s') servo_reg = ucast (rcr_servo_pwm_target_us (rn_lease_active ?n) (rn_output_bits ?n))"
    using i by (simp add: main_inv_def pf_ok_def)
  have "led \<or> pf_regs (ms_platform s') servo_reg \<noteq> 0 \<longrightarrow> rn_lease_active ?n"
    using i reg by (auto simp: main_inv_def rn_inv_def rcr_servo_pwm_target_us_def RCR_SERVO_PWM_DISABLED_US_def)
  moreover have "rn_lease_active ?n \<longrightarrow> leased_at (iter_now e s) ?n \<and> rcr_node_interlock_ready ?n \<and> rn_has_accepted_sequence ?n"
    using i by (auto simp: main_inv_def rn_inv_def lease_ok_def)
  moreover have "pf_regs (ms_platform s') servo_reg \<in> {0, 1250, 1750}"
    unfolding reg by (simp add: rcr_servo_pwm_target_us_def RCR_SERVO_PWM_DISABLED_US_def RCR_SERVO_POSITION_A_US_def RCR_SERVO_POSITION_B_US_def)
  ultimately show ?thesis by blast
qed

text \<open>A board that boots with an empty journal and receives a command for output 0, valid for 200 ms.\<close>

definition demo_polls :: InitPolls where
  "demo_polls = \<lparr>ip_hse_ready = \<lambda>_. True, ip_pll_ready = \<lambda>_. True, ip_pll_selected = \<lambda>_. True,
     ip_init_entered = \<lambda>_. True, ip_init_left = \<lambda>_. True\<rparr>"

definition demo_boot :: "regs \<Rightarrow> main_state" where
  "demo_boot r = \<lparr>ms_node = rcr_node_init RCR_CAN_V1_NODE_ID 1 1 True, ms_next_heartbeat_ms = 5, ms_next_status_ms = 5,
     ms_applied_servo_pulse_us = RCR_SERVO_PWM_DISABLED_US, ms_bus_off_previous = False,
     ms_position_debounce = rcr_input_debounce_init, ms_platform = sys_ticks 5 (pf_init r)\<rparr>"

definition demo_mailbox :: RxMailbox where
  "demo_mailbox = \<lparr>rx_rir = 0x0C200000, rx_rdtr = 8, rx_rdlr = 0x01000101, rx_rdhr = 0x14010100\<rparr>"

definition demo_env :: LoopEnv where
  "demo_env = \<lparr>le_ticks = 2, le_fifo = [demo_mailbox], le_idr = 0, le_esr = 0, le_turns = [], le_tsr = (\<lambda>_. 0)\<rparr>"

lemma demo_start: "\<exists>r page. main_start demo_polls (demo_session_env 1) 5 (\<lambda>_. 0) [erased] = (Some (demo_boot r), page)"
proof -
  have w: "wait_for (\<lambda>_. True) k n" for k n by (subst wait_for.simps) simp
  have f: "flash_wait demo_wait" by (simp add: flash_wait_def demo_wait_def w)
  have "snd (rcr_platform_init demo_polls (\<lambda>_. 0))"
    by (simp add: rcr_platform_init_def configure_clock_72mhz_def configure_can_def demo_polls_def w Let_def)
  then obtain r1 where i: "rcr_platform_init demo_polls (\<lambda>_. 0) = (r1, True)" by (metis prod.collapse)
  have "snd (rcr_platform_next_session (demo_session_env 1) (r1, [erased])) = (1, True)"
    by (simp add: rcr_platform_next_session_def write_record_def flash_program_halfword_def demo_session_env_def f
      erased_def Let_def)
  then obtain r2 page where n: "rcr_platform_next_session (demo_session_env 1) (r1, [erased]) = ((r2, page), 1, True)"
    by (metis prod.collapse)
  show ?thesis
    by (intro exI [of _ "rcr_platform_watchdog_start r2"] exI [of _ page])
      (simp add: main_start_def i n demo_boot_def pf_init_def)
qed

lemma demo_frame: "rx_frame 7 demo_mailbox = \<lparr>mf_can_id = 0x61, mf_dlc = 8, mf_data = [1, 1, 0, 1, 0, 1, 1, 20],
    mf_extended = False, mf_rtr = False, mf_receive_ms = 7\<rparr>"
  by code_simp

definition demo_leased :: rcr_node_t where
  "demo_leased = (rcr_node_init RCR_CAN_V1_NODE_ID 1 1 True)\<lparr>rn_output_bits := 1, rn_last_accepted_sequence := 1,
     rn_has_accepted_sequence := True, rn_lease_active := True, rn_lease_deadline_ms := 207\<rparr>"

lemma demo_on_frame:
  "rcr_node_on_frame (rx_frame 7 demo_mailbox) 7 (rcr_node_init RCR_CAN_V1_NODE_ID 1 1 True) =
     (demo_leased, FRAME_STATUS_READY, Some \<lparr>ws_node_id = 1, ws_result = Applied, ws_session_id = 1, ws_sequence = 1, ws_output_mirror = 1\<rparr>)"
  by code_simp

lemma drain_one:
  assumes "np_ok c (n, p)" and "rn_node_id n \<le> 31" and "rx_contents p = [f]" and "tx_contents p = []"
    and "rcr_node_on_frame f (pf_monotonic_ms p) n = (n', res, Some st)"
  shows "fst (rx_drain (Suc (Suc k)) (n, p)) = n'"
proof -
  have inv: "rx_inv p" "tx_inv p" "rn_inv n" using assms(1) by (auto simp: np_ok_def pf_ok_def)
  obtain p' g where pop: "rcr_platform_can_rx_pop p = (p', g)" by fastforce
  have g: "g = Some f" "rx_contents p' = []" using rxq.pop_contents [OF inv(1) pop] assms(3) by simp_all
  have p': "pf_monotonic_ms p' = pf_monotonic_ms p" "tx_contents p' = tx_contents p" "tx_inv p'"
    using pop inv(2) by (auto simp: rcr_platform_can_rx_pop_def tx_inv_def split: if_splits)
  let ?np = "handle_received f (pf_monotonic_ms p) (n, p')"
  have n: "fst ?np = n'" using handle_received_answer [OF inv(3) assms(2) p'(3) assms(5)] p'(2) assms(4) by auto
  have s: "sys_ticks 0 q = q" "USB_LP_CAN1_RX0_IRQHandler [] q = q" for q
    by (simp_all add: sys_ticks_def USB_LP_CAN1_RX0_IRQHandler_def)
  have t: "rx_turn idle_turn (n, p) = (?np, True)" using pop g p' by (simp add: rx_turn_def idle_turn_def s)
  have ok: "np_ok c ?np" using rx_turn_ok [OF assms(1), of idle_turn] t by simp
  obtain p'' h where pop2: "rcr_platform_can_rx_pop (snd ?np) = (p'', h)" by fastforce
  have "rx_inv (snd ?np)" using ok by (simp add: np_ok_def pf_ok_def)
  from rxq.pop_contents [OF this pop2] have "h = None" using g by (simp add: handle_received_rx)
  then have "rx_turn idle_turn ?np = ((n', p''), False)" using pop2 n by (simp add: rx_turn_def idle_turn_def s)
  then show ?thesis using t by simp
qed

text \<open>The platform at the start of that iteration, with the command in the receive ring.\<close>

definition demo_pf :: "regs \<Rightarrow> rcr_platform" where
  "demo_pf r = USB_LP_CAN1_RX0_IRQHandler [demo_mailbox] (sys_ticks 2 (sys_ticks 5 (pf_init r)))"

lemma demo_pf_simps:
  "rx_contents (demo_pf r) = [rx_frame 7 demo_mailbox]" "tx_contents (demo_pf r) = []" "pf_monotonic_ms (demo_pf r) = 7"
  "pf_ok (r servo_reg) (demo_pf r)" "\<not> pf_rx_overflow (demo_pf r)"
proof -
  let ?q = "sys_ticks 2 (sys_ticks 5 (pf_init r))"
  have now: "pf_monotonic_ms ?q = 7" by (simp add: pf_init_def)
  have empty: "rx_contents (pf_init r) = []" "tx_contents (pf_init r) = []" by (simp_all add: pf_init_def ring_contents_def)
  have q: "rx_inv ?q" using pf_ok_init [of r] by (simp add: pf_ok_def)
  obtain k where push: "rx_push (rx_frame 7 demo_mailbox) ?q = (rx_store (rx_frame 7 demo_mailbox) ?q, k)"
    by (simp add: rx_push_def)
  have ovf: "\<not> pf_rx_overflow ?q" by (simp add: sys_ticks_def SysTick_Handler_def pf_init_def numeral_eq_Suc)
  have k: k using rxq.push_ok [OF q push] empty by simp
  show "rx_contents (demo_pf r) = [rx_frame 7 demo_mailbox]" "\<not> pf_rx_overflow (demo_pf r)"
    using rxq.push_contents [OF q push] rxq.push_lost [OF q push] k empty ovf now
    by (simp_all add: demo_pf_def USB_LP_CAN1_RX0_IRQHandler_def Let_def)
  show "tx_contents (demo_pf r) = []"
    using empty by (simp add: demo_pf_def USB_LP_CAN1_RX0_IRQHandler_def rx_store_def Let_def)
  show "pf_monotonic_ms (demo_pf r) = 7" using now by (simp add: demo_pf_def irq_keeps(2))
  show "pf_ok (r servo_reg) (demo_pf r)" unfolding demo_pf_def by (intro irq_keeps) (simp add: pf_ok_init)
qed

lemma demo_rx:
  "\<exists>p. rx_loop [] (rcr_node_init RCR_CAN_V1_NODE_ID 1 1 True, (demo_pf r)\<lparr>pf_rx_overflow := False\<rparr>) = (demo_leased, p)"
proof -
  let ?n = "rcr_node_init RCR_CAN_V1_NODE_ID 1 1 True" and ?p = "(demo_pf r)\<lparr>pf_rx_overflow := False\<rparr>"
  have "np_ok (r servo_reg) (?n, ?p)"
    using demo_pf_simps(4) [of r] by (simp add: np_ok_def rn_inv_init pf_ok_def rx_inv_def tx_inv_def)
  from drain_one [OF this, of _ demo_leased FRAME_STATUS_READY _ 6] demo_on_frame
  have "fst (rx_loop [] (?n, ?p)) = demo_leased"
    by (simp add: QUEUE_CAPACITY_def rcr_node_init_def RCR_CAN_V1_NODE_ID_def demo_pf_simps)
  then show ?thesis by (metis prod.collapse)
qed

lemma demo_inputs:
  "loop_inputs demo_env 7 ((demo_boot r)\<lparr>ms_platform := demo_pf r\<rparr>) =
     (demo_boot r)\<lparr>ms_position_debounce := fst (rcr_input_debounce_update False 7 RCR_INPUT_DEBOUNCE_MS rcr_input_debounce_init),
        ms_platform := (demo_pf r)\<lparr>pf_rx_overflow := False\<rparr>\<rparr>"
  by (simp add: loop_inputs_def demo_env_def demo_boot_def rcr_platform_target_sensor_active_def demo_pf_simps
    rcr_target_sensor_active_def rcr_platform_target_sensor_raw_high_def RCR_TARGET_SENSOR_POLARITY_def
    rcr_input_debounce_update_def rcr_input_debounce_init_def rcr_input_bits_from_reached_def
    rcr_platform_can_bus_off_def rcr_node_init_def rcr_platform_take_rx_overflow_def Let_def)

lemma demo_led: "fst (snd (main_iter demo_env (demo_boot r)))"
proof -
  obtain p2 where rx: "rx_loop [] (rcr_node_init RCR_CAN_V1_NODE_ID 1 1 True, (demo_pf r)\<lparr>pf_rx_overflow := False\<rparr>) =
      (demo_leased, p2)" using demo_rx by blast
  have led: "fst (snd (loop_outputs tsr s)) \<longleftrightarrow> rn_output_bits (ms_node s) AND 1 \<noteq> 0" for tsr s
    by (simp add: loop_outputs_def Let_def split_beta)
  have env: "le_fifo demo_env = [demo_mailbox]" "le_ticks demo_env = 2" "le_turns demo_env = []"
    "ms_platform (demo_boot r) = sys_ticks 5 (pf_init r)" "ms_node (demo_boot r) = rcr_node_init RCR_CAN_V1_NODE_ID 1 1 True"
    by (simp_all add: demo_env_def demo_boot_def)
  have "rcr_can_v1_encode_heartbeat (snd (rcr_node_make_heartbeat demo_leased)) \<noteq> None"
    "rcr_can_v1_encode_node_status (rcr_node_make_status (fst (rcr_node_make_heartbeat demo_leased))) \<noteq> None"
    "rn_output_bits (fst (rcr_node_make_heartbeat demo_leased)) = 1" "fst (rcr_node_expire_lease 7 demo_leased) = demo_leased"
    "time_after_or_equal 7 5" by code_simp+
  then have "rn_output_bits (ms_node (loop_reports 7 s)) = 1"
    if "ms_next_heartbeat_ms s = 5" "ms_next_status_ms s = 5" "ms_node s = demo_leased" for s
    using that by (auto simp: loop_reports_def publish_heartbeat_def publish_status_def Let_def split_beta)
  then show ?thesis
    unfolding main_iter_def env demo_pf_def [symmetric] demo_pf_simps Let_def demo_inputs
    using rx \<open>fst (rcr_node_expire_lease 7 demo_leased) = demo_leased\<close>
    by (simp add: led env demo_boot_def)
qed

theorem firmware_outputs_leased_witness:
  "\<exists>s s' out. fst (main_start demo_polls (demo_session_env 1) 5 (\<lambda>_. 0) [erased]) = Some s \<and>
     main_iter demo_env s = (s', True, out) \<and> leased_at 7 (ms_node s') \<and> rcr_node_interlock_ready (ms_node s')"
proof -
  obtain r page where b: "main_start demo_polls (demo_session_env 1) 5 (\<lambda>_. 0) [erased] = (Some (demo_boot r), page)"
    using demo_start by blast
  obtain s' out where i: "main_iter demo_env (demo_boot r) = (s', True, out)"
    using demo_led [of r] by (metis prod.collapse)
  have "iter_now demo_env (demo_boot r) = 7" by (simp add: iter_now_def demo_env_def demo_boot_def pf_init_def)
  with firmware_outputs_leased [OF b, of "demo_boot r" "[]" demo_env s' True out] i b show ?thesis by simp
qed

end
