(* ===== verification/Round_Trip.thy ===== *)
theory Round_Trip
  imports Daemon_Proofs Mcu_Main
begin

text \<open>
  A command on its way from the runtime to a node and back: the output pump of
  \<^verbatim>\<open>linux/src/linux/can_io_loop.cpp\<close> sends it, a node decides on it, its output status comes back
  through the receive path, and the supervision of \<^verbatim>\<open>linux/src/supervision/node_supervisor.cpp\<close> lets the runtime
  close the acknowledgement. The interface \<open>bus_node\<close> says what the runtime relies on; the simulated
  node and the firmware node both provide it.
\<close>

unbundle bit_operations_syntax

section \<open>The way back\<close>

lemma observe_pending:
  "rt_output_ack_pending (observe_output_status s q r t rt) \<longleftrightarrow>
     rt_output_ack_pending rt \<and> \<not> (s = rt_last_sent_session rt \<and> q = rt_last_sent_sequence rt \<and> r = Applied)"
  by (auto simp: observe_output_status_def maybe_disarm_idle_command_watchdog_locked_def Let_def)

lemma status_event:
  assumes "message_event now (DOutputStatus x) = Some event" and "ws_node_id x = nc_node_id (sv_config sv)"
    and "apply_event tick event (rt, sv) = (rt', sv')"
  shows "rt_output_ack_pending rt' \<longleftrightarrow> rt_output_ack_pending rt \<and> \<not> (ws_session_id x = rt_last_sent_session rt \<and>
           ws_sequence x = rt_last_sent_sequence rt \<and> ws_result x = Applied)"
    and "sv_last_output_mirror sv' = ws_output_mirror x"
proof -
  have e: "ie_kind event = RuntimeInputKind.OutputStatus" "ie_node_id event = ws_node_id x"
    "ie_session_id event = ws_session_id x" "ie_output_sequence event = ws_sequence x"
    "ie_output_result event = ws_result x" "ie_output_mirror event = ws_output_mirror x"
    using assms(1) by auto
  have "rt' = observe_output_status (ws_session_id x) (ws_sequence x) (ws_result x) (event_time event tick) rt"
    "sv' = sv\<lparr>sv_events_processed := sv_events_processed sv + 1, sv_last_output_mirror := ws_output_mirror x\<rparr>"
    using assms(3) unfolding apply_event_def by (simp_all add: e assms(2) Let_def)
  then show "rt_output_ack_pending rt' \<longleftrightarrow> rt_output_ack_pending rt \<and> \<not> (ws_session_id x = rt_last_sent_session rt \<and>
           ws_sequence x = rt_last_sent_sequence rt \<and> ws_result x = Applied)"
    "sv_last_output_mirror sv' = ws_output_mirror x" by (simp_all add: observe_pending)
qed

section \<open>A node on the bus\<close>

text \<open>
  \<open>react f t s\<close> is what a node in state \<open>s\<close> does on a frame at time \<open>t\<close>: its next state and its answer.
  \<open>idle t s\<close> are the outputs at that time if nothing is received.
\<close>

locale bus_node =
  fixes nid :: "'s \<Rightarrow> u8" and session :: "'s \<Rightarrow> u16" and ready :: "'s \<Rightarrow> bool" and prev :: "'s \<Rightarrow> u16 option"
    and out :: "'s \<Rightarrow> u8" and idle :: "'t \<Rightarrow> 's \<Rightarrow> u8" and late :: "WireOutputCommand \<Rightarrow> 't \<Rightarrow> bool"
    and react :: "CanFrame \<Rightarrow> 't \<Rightarrow> 's \<Rightarrow> 's \<times> CanFrame option"
  assumes answers: "encode_output_command w = Inr f \<Longrightarrow> wc_node_id w = nid s \<Longrightarrow> session s \<noteq> 0 \<Longrightarrow>
      \<exists>s' x g. react f t s = (s', Some g) \<and> encode_output_status x = Inr g \<and> ws_node_id x = nid s \<and>
        ws_session_id x = session s \<and> ws_sequence x = wc_sequence w \<and> ws_output_mirror x = out s' \<and>
        ws_result x = contract_result (session s) (ready s) (prev s) (late w t) w \<and>
        out s' = (if ws_result x = Applied then contract_outputs w (idle t s) else idle t s)"
begin

text \<open>
  The runtime sent a command and waits for its acknowledgement; the node's answer is received and applied by
  the supervision. The acknowledgement is closed exactly when the node applied the command.
\<close>

lemma loop_closes:
  assumes sent: "pump_output (Inr ()) err (io, rt, q) = ((io', rt', q'), Some f)" and pending: "rt_output_ack_pending rt'"
    and node: "cic_node_id (io_config io) = nid s" "session s \<noteq> 0" "nc_node_id (sv_config sv) = nid s"
    and node_step: "react f t s = (s', answer)"
  shows "\<exists>cmd x g. pump_command io rt = Some cmd \<and> answer = Some g \<and> decode g = Inr (DOutputStatus x) \<and>
     (\<forall>event rt'' sv'. message_event now (DOutputStatus x) = Some event \<longrightarrow>
        apply_event tick event (rt', sv) = (rt'', sv') \<longrightarrow>
        (\<not> rt_output_ack_pending rt'' \<longleftrightarrow> ws_result x = Applied) \<and> sv_last_output_mirror sv' = out s') \<and>
     (ws_result x = Applied \<longrightarrow> uint (oc_session_id cmd) = uint (session s) \<and>
        (\<forall>b<8. bit (out s') b = (if bit (oc_mask cmd) b then bit (oc_values cmd) b else bit (idle t s) b)))"
proof -
  obtain cmd ns wire io1 where c: "pump_command io rt = Some cmd"
    and s: "snd (output_command_sendable cmd (pump_rt rt))"
    and w: "to_wire_command cmd (cic_node_id (io_config io)) ns = Inr wire"
    and e: "encode_output_command wire = Inr f"
    and st: "(io', rt', q') = pump_send (Inr ()) err wire ns (io1, rt_clock_read (rt_clock_read (pump_rt rt)), q)"
    using sent by (rule pump_frame)
  note fields = to_wire_fields [OF w]
  have rt': "rt' = fst (note_output_command_sent (wc_session_id wire) (wc_sequence wire) ns (rt_clock_read (rt_clock_read (pump_rt rt))))"
    using arg_cong [OF st, of "\<lambda>x. fst (snd x)"] by (simp only: pump_send_rt fst_conv snd_conv)
  have "\<not> rt_output_ack_pending (pump_rt rt)" using s by (simp add: sendable_conditions)
  then have last: "rt_last_sent_session rt' = wc_session_id wire" "rt_last_sent_sequence rt' = wc_sequence wire"
    using pending unfolding rt' by (auto simp: note_output_command_sent_def split: if_splits)
  have "wc_node_id wire = nid s" using fields(1) node(1) by simp
  from answers [OF e this node(2), of t] node_step obtain x g where x: "answer = Some g" "encode_output_status x = Inr g"
      "ws_node_id x = nid s" "ws_session_id x = session s" "ws_sequence x = wc_sequence wire" "ws_output_mirror x = out s'"
      "ws_result x = contract_result (session s) (ready s) (prev s) (late wire t) wire"
      "out s' = (if ws_result x = Applied then contract_outputs wire (idle t s) else idle t s)"
    by auto
  have d: "decode g = Inr (DOutputStatus x)" using x(2) by (intro decode_encode_message) simp
  have same: "ws_result x = Applied \<Longrightarrow> wc_session_id wire = session s"
    using x(7) by (auto simp: contract_result_def split: if_splits)
  have ack: "(\<not> rt_output_ack_pending rt'' \<longleftrightarrow> ws_result x = Applied) \<and> sv_last_output_mirror sv' = out s'"
    if "message_event now (DOutputStatus x) = Some event" "apply_event tick event (rt', sv) = (rt'', sv')" for event rt'' sv'
    using status_event [OF that(1) _ that(2)] pending last x(3-6) same node(3) by auto
  have bits: "bit (out s') b = (if bit (oc_mask cmd) b then bit (oc_values cmd) b else bit (idle t s) b)"
    if "ws_result x = Applied" "b < 8" for b
    using x(8) that by (simp add: contract_outputs_bit fields(8,9) bit_simps)
  have sess: "uint (oc_session_id cmd) = uint (session s)" if "ws_result x = Applied"
    using fields(3) same [OF that] by simp
  show ?thesis
    by (rule exI [of _ cmd], rule exI [of _ x], rule exI [of _ g])
      (intro conjI allI impI; (rule c x(1) d ack [THEN conjunct1] ack [THEN conjunct2] sess bits; assumption?))
qed

end

section \<open>Both nodes\<close>

definition sim_node_react :: "CanFrame \<Rightarrow> i64 \<Rightarrow> CanNodeLogic \<Rightarrow> CanNodeLogic \<times> CanFrame option" where
  "sim_node_react f t n =
     (let (n, h) = on_frame f t n
      in (n, if hr_send_status h then sent (encode_output_status (hr_status h)) else None))"

lemma encoded_command:
  assumes "encode_output_command w = Inr f"
  shows "decode_output_command f = Inr w" and "function_from_can_id (can_id f AND kCanSffMask) = Function_code Function.OutputCommand"
    and "node_id_from_can_id (can_id f AND kCanSffMask) = wc_node_id w" and "canonical_frame f"
    and "wc_node_id w \<noteq> 0" and "wc_node_id w \<le> 31"
proof -
  show d: "decode_output_command f = Inr w" by (rule decode_encode_output_command [OF assms])
  then have "check_frame_layer f Function.OutputCommand = Inr ()"
    by (auto simp: decode_output_command_def split: sum.splits)
  then show "function_from_can_id (can_id f AND kCanSffMask) = Function_code Function.OutputCommand"
    by (simp add: check_frame_layer_Inr)
  show "node_id_from_can_id (can_id f AND kCanSffMask) = wc_node_id w"
    using d by (auto simp: decode_output_command_def Let_def split: sum.splits if_splits)
  show "canonical_frame f" by (rule oc.enc_canon [OF assms])
  show "wc_node_id w \<noteq> 0" "wc_node_id w \<le> 31"
    using assms by (auto simp: encode_output_command_def validate_node_id_def kMaxNodeId_def not_less split: if_splits)
qed

lemma status_encodes:
  "ws_node_id x \<noteq> 0 \<Longrightarrow> ws_node_id x \<le> 31 \<Longrightarrow> ws_session_id x \<noteq> 0 \<Longrightarrow> \<exists>g. encode_output_status x = Inr g"
  by (auto simp: encode_output_status_def validate_node_id_def kMaxNodeId_def Let_def not_less)

interpretation sim_bus: bus_node "\<lambda>n. nf_node_id (nl_config n)" nl_session_id "\<lambda>n. nf_interlock_ready (nl_config n)" nl_last
  nl_output_bits "\<lambda>t n. nl_output_bits (fst (expire_output_lease t n))" "\<lambda>w t. nl_late w t t" sim_node_react
proof
  fix w f t and s :: CanNodeLogic
  assume e: "encode_output_command w = Inr f" and id: "wc_node_id w = nf_node_id (nl_config s)" and ses: "nl_session_id s \<noteq> 0"
  let ?a = "apply_command w t t s"
  have o: "on_frame f t s = ?a" using encoded_command [OF e] id by (simp add: on_frame_def Let_def)
  obtain g where g: "encode_output_status (hr_status (snd ?a)) = Inr g"
    using status_encodes [of "hr_status (snd ?a)"] encoded_command(5,6) [OF e] id ses by (auto simp: apply_echo)
  have out: "nl_output_bits (fst ?a) = (if ws_result (hr_status (snd ?a)) = Applied
      then contract_outputs w (nl_output_bits (fst (expire_output_lease t s))) else nl_output_bits (fst (expire_output_lease t s)))"
    using sim.status_result [of w t t s] sim.refused_state [of s w t t] sim.applied_state [of s w t t] by auto
  show "\<exists>s' x g. sim_node_react f t s = (s', Some g) \<and> encode_output_status x = Inr g \<and> ws_node_id x = nf_node_id (nl_config s) \<and>
      ws_session_id x = nl_session_id s \<and> ws_sequence x = wc_sequence w \<and> ws_output_mirror x = nl_output_bits s' \<and>
      ws_result x = contract_result (nl_session_id s) (nf_interlock_ready (nl_config s)) (nl_last s) (nl_late w t t) w \<and>
      nl_output_bits s' = (if ws_result x = Applied then contract_outputs w (nl_output_bits (fst (expire_output_lease t s)))
        else nl_output_bits (fst (expire_output_lease t s)))"
    using o g out sim.status_echo [of w t t s] sim.status_result [of w t t s]
    by (intro exI [of _ "fst ?a"] exI [of _ "hr_status (snd ?a)"] exI [of _ g])
      (simp add: sim_node_react_def split_beta apply_sends apply_echo sent_def)
qed

text \<open>The frame as the receive interrupt of the firmware stores it.\<close>

definition mcu_rx :: "u32 \<Rightarrow> CanFrame \<Rightarrow> rcr_can_frame_t" where
  "mcu_rx t f = \<lparr>mf_can_id = can_id f AND kCanSffMask, mf_dlc = can_len f, mf_data = can_data f,
     mf_extended = (can_id f AND kCanEffFlag \<noteq> 0), mf_rtr = (can_id f AND kCanRtrFlag \<noteq> 0), mf_receive_ms = t\<rparr>"

definition mcu_node_react :: "CanFrame \<Rightarrow> u32 \<Rightarrow> rcr_node_t \<Rightarrow> rcr_node_t \<times> CanFrame option" where
  "mcu_node_react f t n =
     (let (n, _, st) = rcr_node_on_frame (mcu_rx t f) t n
      in (n, map_option bus_frame (Option.bind st rcr_can_v1_encode_output_status)))"

lemma mcu_rx_canonical:
  assumes "canonical_frame f"
  shows "mcu_frame_wf (mcu_rx t f)" "bus_frame (mcu_rx t f) = f" "\<not> mf_extended (mcu_rx t f)"
proof -
  have sff: "can_id f AND kCanSffMask = can_id f" and len: "length (can_data f) = 8"
    using assms by (simp_all add: canonical_frame_def frame_wf_def)
  then have i: "can_id f AND k = can_id f AND (kCanSffMask AND k)" for k by (metis and.assoc)
  have "kCanSffMask AND kCanEffFlag = 0" "kCanSffMask AND kCanRtrFlag = 0"
    by (simp_all add: kCanSffMask_def kCanEffFlag_def kCanRtrFlag_def)
  then have z: "can_id f AND kCanEffFlag = 0" "can_id f AND kCanRtrFlag = 0"
    using i [of kCanEffFlag] i [of kCanRtrFlag] by simp_all
  show "mcu_frame_wf (mcu_rx t f)" "\<not> mf_extended (mcu_rx t f)"
    using z sff len by (simp_all add: mcu_rx_def mcu_frame_wf_def)
  show "bus_frame (mcu_rx t f) = f" using z sff by (cases f) (simp add: mcu_rx_def bus_frame_def)
qed

interpretation mcu_bus: bus_node rn_node_id rn_session_id rcr_node_interlock_ready rn_last rn_output_bits
  "\<lambda>t n. rn_output_bits (fst (rcr_node_expire_lease t n))" "\<lambda>w t. rn_late w t t" mcu_node_react
proof
  fix w f t and s :: rcr_node_t
  assume e: "encode_output_command w = Inr f" and id: "wc_node_id w = rn_node_id s" and ses: "rn_session_id s \<noteq> 0"
  note c = encoded_command [OF e] and m = mcu_rx_canonical [OF encoded_command(4) [OF e], of t]
  let ?a = "rcr_node_apply_command w t t s"
  have "mf_can_id (mcu_rx t f) = ucast (rcr_can_v1_make_id RCR_CAN_V1_FN_OUTPUT_COMMAND (rn_node_id s))"
    using addressed_iff [OF m(1,3), of "rn_node_id s"] c(2,3,6) id by (simp add: m(2))
  moreover have "rcr_can_v1_decode_output_command (mcu_rx t f) (rn_node_id s) = Some w"
    unfolding decode_output_command_eq [OF m(1)] m(2) using c(1) id by (simp add: for_node_def)
  ultimately have o: "rcr_node_on_frame (mcu_rx t f) t s = (fst ?a, FRAME_STATUS_READY, Some (snd ?a))"
    by (simp add: rcr_node_on_frame_def Let_def split_beta mcu_rx_def)
  have nid: "ws_node_id (snd ?a) = rn_node_id s" by (simp add: rcr_node_apply_command_def Let_def)
  obtain g where g: "encode_output_status (snd ?a) = Inr g"
    using status_encodes [of "snd ?a"] c(5,6) id ses nid mcu.status_echo(1) [of w t t s] by auto
  have out: "rn_output_bits (fst ?a) = (if ws_result (snd ?a) = Applied
      then contract_outputs w (rn_output_bits (fst (rcr_node_expire_lease t s))) else rn_output_bits (fst (rcr_node_expire_lease t s)))"
    using mcu.status_result [of w t t s] mcu.refused_state [of s w t t] mcu.applied_state [of s w t t] by auto
  have "map_option bus_frame (rcr_can_v1_encode_output_status (snd ?a)) = Some g"
    using g by (simp add: encode_output_status_eq sent_def)
  then show "\<exists>s' x g. mcu_node_react f t s = (s', Some g) \<and> encode_output_status x = Inr g \<and> ws_node_id x = rn_node_id s \<and>
      ws_session_id x = rn_session_id s \<and> ws_sequence x = wc_sequence w \<and> ws_output_mirror x = rn_output_bits s' \<and>
      ws_result x = contract_result (rn_session_id s) (rcr_node_interlock_ready s) (rn_last s) (rn_late w t t) w \<and>
      rn_output_bits s' = (if ws_result x = Applied then contract_outputs w (rn_output_bits (fst (rcr_node_expire_lease t s)))
        else rn_output_bits (fst (rcr_node_expire_lease t s)))"
    using o g out nid mcu.status_echo [of w t t s] mcu.status_result [of w t t s]
    by (intro exI [of _ "fst ?a"] exI [of _ "snd ?a"] exI [of _ g]) (simp add: mcu_node_react_def)
qed

section \<open>Properties\<close>

text \<open>
  C7. The loop closes. The runtime's output pump sends a command and waits for its acknowledgement; the firmware
  node with this address receives the frame. Then the node answers, the answer decodes to an output status, and when the
  supervision applies it, the acknowledgement is closed exactly when the node applied the command, and the
  supervisor sees the node's outputs. If it was applied, the node was in the session the
  application named, the outputs selected by the application's mask have the values it asked for, and the others are as before.
\<close>

theorem command_round_trip:
  assumes "pump_output (Inr ()) err (io, rt, q) = ((io', rt', q'), Some f)" and "rt_output_ack_pending rt'"
    and "cic_node_id (io_config io) = rn_node_id n" and "rn_session_id n \<noteq> 0" and "nc_node_id (sv_config sv) = rn_node_id n"
    and "mcu_node_react f t n = (n', answer)"
  shows "\<exists>cmd x g. pump_command io rt = Some cmd \<and> answer = Some g \<and> decode g = Inr (DOutputStatus x) \<and>
     (\<forall>event rt'' sv'. message_event now (DOutputStatus x) = Some event \<longrightarrow>
        apply_event tick event (rt', sv) = (rt'', sv') \<longrightarrow>
        (\<not> rt_output_ack_pending rt'' \<longleftrightarrow> ws_result x = Applied) \<and> sv_last_output_mirror sv' = rn_output_bits n') \<and>
     (ws_result x = Applied \<longrightarrow> uint (oc_session_id cmd) = uint (rn_session_id n) \<and>
        (\<forall>b<8. bit (rn_output_bits n') b = (if bit (oc_mask cmd) b then bit (oc_values cmd) b
           else bit (rn_output_bits (fst (rcr_node_expire_lease t n))) b)))"
  using assms by (rule mcu_bus.loop_closes)

text \<open>The same holds with the simulated node.\<close>

lemma sim_round_trip:
  assumes "pump_output (Inr ()) err (io, rt, q) = ((io', rt', q'), Some f)" and "rt_output_ack_pending rt'"
    and "cic_node_id (io_config io) = nf_node_id (nl_config n)" and "nl_session_id n \<noteq> 0"
    and "nc_node_id (sv_config sv) = nf_node_id (nl_config n)" and "sim_node_react f t n = (n', answer)"
  shows "\<exists>cmd x g. pump_command io rt = Some cmd \<and> answer = Some g \<and> decode g = Inr (DOutputStatus x) \<and>
     (\<forall>event rt'' sv'. message_event now (DOutputStatus x) = Some event \<longrightarrow>
        apply_event tick event (rt', sv) = (rt'', sv') \<longrightarrow>
        (\<not> rt_output_ack_pending rt'' \<longleftrightarrow> ws_result x = Applied) \<and> sv_last_output_mirror sv' = nl_output_bits n') \<and>
     (ws_result x = Applied \<longrightarrow> uint (oc_session_id cmd) = uint (nl_session_id n) \<and>
        (\<forall>b<8. bit (nl_output_bits n') b = (if bit (oc_mask cmd) b then bit (oc_values cmd) b
           else bit (nl_output_bits (fst (expire_output_lease t n))) b)))"
  using assms by (rule sim_bus.loop_closes)

text \<open>The runtime of the earlier examples with a firmware node in the same session.\<close>

definition peer_node :: rcr_node_t where "peer_node = rcr_node_init 5 9 9 True"

definition peer_supervisor :: NodeSupervisor where
  "peer_supervisor = sv_init \<lparr>nc_node_id = 5, nc_heartbeat_timeout_ns = 1000000000, nc_max_events_per_tick = 16\<rparr>"

definition peer_sent :: "IoState \<times> CanFrame option" where
  "peer_sent = pump_output (Inr ()) 0 (demo_io, demo_rt, bq_init 4)"

theorem command_round_trip_witness:
  "\<exists>rt' n' g x event. fst (snd (fst peer_sent)) = rt' \<and> rt_output_ack_pending rt' \<and>
     mcu_node_react (the (snd peer_sent)) 100 peer_node = (n', Some g) \<and> decode g = Inr (DOutputStatus x) \<and>
     ws_result x = Applied \<and> message_event 7 (DOutputStatus x) = Some event \<and>
     \<not> rt_output_ack_pending (fst (apply_event 8 event (rt', peer_supervisor)))"
proof -
  obtain n' answer where r: "mcu_node_react (the (snd peer_sent)) 100 peer_node = (n', answer)" by fastforce
  have some: "snd peer_sent \<noteq> None" and pend: "rt_output_ack_pending (fst (snd (fst peer_sent)))"
    and ids: "cic_node_id (io_config demo_io) = rn_node_id peer_node" "rn_session_id peer_node \<noteq> 0"
      "nc_node_id (sv_config peer_supervisor) = rn_node_id peer_node"
    and applied: "map_option (\<lambda>g. map_result (\<lambda>m. case m of DOutputStatus x \<Rightarrow> ws_result x) (decode g))
      (snd (mcu_node_react (the (snd peer_sent)) 100 peer_node)) = Some (Inr Applied)"
    by code_simp+
  obtain io' rt' q' f where p: "pump_output (Inr ()) 0 (demo_io, demo_rt, bq_init 4) = ((io', rt', q'), Some f)"
    using some unfolding peer_sent_def by (metis option.exhaust prod.exhaust_sel)
  have f: "the (snd peer_sent) = f" "fst (snd (fst peer_sent)) = rt'" using p by (simp_all add: peer_sent_def)
  from command_round_trip [OF p _ ids, of 100 n' answer 7 8] pend r obtain x g where x: "answer = Some g"
    "decode g = Inr (DOutputStatus x)" "\<And>event rt'' sv'. message_event 7 (DOutputStatus x) = Some event \<Longrightarrow>
      apply_event 8 event (rt', peer_supervisor) = (rt'', sv') \<Longrightarrow> (\<not> rt_output_ack_pending rt'' \<longleftrightarrow> ws_result x = Applied)"
    unfolding f by blast
  have "ws_result x = Applied" using applied x(1,2) r by (simp add: map_result_def)
  moreover obtain event where ev: "message_event 7 (DOutputStatus x) = Some event" by simp
  moreover have "\<not> rt_output_ack_pending (fst (apply_event 8 event (rt', peer_supervisor)))"
    using x(3) [OF ev] calculation(1) by (metis prod.collapse)
  ultimately show ?thesis using f pend r x(1,2) by blast
qed

end
