(* ===== verification/Wire_Bytes.thy ===== *)
theory Wire_Bytes
  imports Rcr_Prelude
begin

text \<open>
  Byte-level vocabulary of the workbench protocols: the little-endian field
  writers and readers that \<^verbatim>\<open>remote_frame.cpp\<close>, \<^verbatim>\<open>remote_control_protocol.cpp\<close>,
  \<^verbatim>\<open>cell_app_protocol.cpp\<close> and \<^verbatim>\<open>modbus_agent_protocol.cpp\<close> share, and the
  CRC-16/IBM of \<^verbatim>\<open>modbus_rtu.cpp\<close> that guards all of their frames. The lemmas show
  that every reader inverts its writer at any offset, and that the checksum is
  a linear bit-serial register: it distinguishes any two byte strings that
  differ inside a window of sixteen consecutive bits.
\<close>

section \<open>Little-endian fields\<close>

definition append_u16_le :: "u8 list \<Rightarrow> u16 \<Rightarrow> u8 list" where
  "append_u16_le out v = out @ [ucast (v AND 0xFF), ucast (drop_bit 8 v AND 0xFF)]"

definition append_u32_le :: "u8 list \<Rightarrow> u32 \<Rightarrow> u8 list" where
  "append_u32_le out v =
     out @ [ucast (v AND 0xFF), ucast (drop_bit 8 v AND 0xFF),
            ucast (drop_bit 16 v AND 0xFF), ucast (drop_bit 24 v AND 0xFF)]"

definition append_u64_le :: "u8 list \<Rightarrow> u64 \<Rightarrow> u8 list" where
  "append_u64_le out v =
     fold (\<lambda>i acc. acc @ [ucast (drop_bit (8 * i) v AND 0xFF)]) [0..<8] out"

definition append_i64_le :: "u8 list \<Rightarrow> i64 \<Rightarrow> u8 list" where
  "append_i64_le out v = append_u64_le out (word_of_int v)"

definition read_u16_le :: "u8 list \<Rightarrow> nat \<Rightarrow> u16" where
  "read_u16_le p i = ucast (p ! i) OR push_bit 8 (ucast (p ! (i + 1)))"

definition read_u32_le :: "u8 list \<Rightarrow> nat \<Rightarrow> u32" where
  "read_u32_le p i =
     ucast (p ! i) OR push_bit 8 (ucast (p ! (i + 1))) OR
     push_bit 16 (ucast (p ! (i + 2))) OR push_bit 24 (ucast (p ! (i + 3)))"

definition read_u64_le :: "u8 list \<Rightarrow> nat \<Rightarrow> u64" where
  "read_u64_le p j = fold (\<lambda>i v. v OR push_bit (8 * i) (ucast (p ! (j + i)))) [0..<8] 0"

definition read_i64_le :: "u8 list \<Rightarrow> nat \<Rightarrow> i64" where
  "read_i64_le p j = sint (read_u64_le p j)"

text \<open>A flag as a byte, and zero padding.\<close>

definition bool_byte :: "bool \<Rightarrow> u8" where "bool_byte b = (if b then 1 else 0)"

definition pad_to :: "nat \<Rightarrow> u8 list \<Rightarrow> u8 list" where
  "pad_to n out = out @ replicate (n - length out) 0"

lemma bool_byte_nonzero [simp]: "bool_byte b \<noteq> 0 \<longleftrightarrow> b"
  by (simp add: bool_byte_def)

text \<open>The byte at position \<open>i\<close> of a word, and the fields as byte lists.\<close>

definition byte_of :: "nat \<Rightarrow> 'a::len word \<Rightarrow> u8" where
  "byte_of i v = ucast (drop_bit (8 * i) v)"

definition le_bytes :: "nat \<Rightarrow> 'a::len word \<Rightarrow> u8 list" where
  "le_bytes n v = map (\<lambda>i. byte_of i v) [0..<n]"

lemma length_le_bytes [simp]: "length (le_bytes n v) = n"
  by (simp add: le_bytes_def)

lemma nth_le_bytes [simp]: "i < n \<Longrightarrow> le_bytes n v ! i = byte_of i v"
  by (simp add: le_bytes_def)

lemma byte_of_masked: "(ucast (drop_bit (8 * i) v AND 0xFF) :: u8) = byte_of i v"
  by (rule bit_eqI) (auto simp: byte_of_def bit_simps low_byte_mask dest: bit_imp_le_length)

lemma append_u16_le_eq: "append_u16_le out v = out @ le_bytes 2 v"
  using byte_of_masked [of 0 v] byte_of_masked [of "Suc 0" v]
  by (simp add: append_u16_le_def le_bytes_def upt_rec)

lemma append_u32_le_eq: "append_u32_le out v = out @ le_bytes 4 v"
  using byte_of_masked [of 0 v] byte_of_masked [of 1 v] byte_of_masked [of 2 v] byte_of_masked [of 3 v]
  by (simp add: append_u32_le_def le_bytes_def upt_rec numeral_eq_Suc)

lemma fold_snoc: "fold (\<lambda>i acc. acc @ [f i]) xs out = out @ map f xs"
  by (induction xs arbitrary: out) simp_all

lemma append_u64_le_eq: "append_u64_le out v = out @ le_bytes 8 v"
  unfolding append_u64_le_def le_bytes_def by (simp only: byte_of_masked fold_snoc)

lemma append_i64_le_eq: "append_i64_le out v = out @ le_bytes 8 (word_of_int v :: u64)"
  by (simp add: append_i64_le_def append_u64_le_eq)

lemmas append_le_eq = append_u16_le_eq append_u32_le_eq append_u64_le_eq append_i64_le_eq

text \<open>A reader sees a field when the bytes at its offset are the field's bytes.\<close>

lemma field_nth:
  assumes "take n (drop j p) = le_bytes n v" and "i < n" and "j + n \<le> length p"
  shows "p ! (j + i) = byte_of i v"
proof -
  have "p ! (j + i) = take n (drop j p) ! i" using assms(2,3) by simp
  then show ?thesis using assms(1,2) by simp
qed

lemma bit_byte_of: "bit (byte_of i v) n \<longleftrightarrow> n < 8 \<and> bit v (8 * i + n)"
  by (auto simp: byte_of_def bit_simps dest: bit_imp_le_length)

lemma read_u16_le_field [rcr_bytes]:
  assumes "take 2 (drop j p) = le_bytes 2 v" and "j + 2 \<le> length p"
  shows "read_u16_le p j = (v :: u16)"
proof -
  have nth: "p ! j = byte_of 0 v" "p ! (j + 1) = byte_of 1 v"
    using field_nth [OF assms(1) _ assms(2), of 0] field_nth [OF assms(1) _ assms(2), of 1] by simp_all
  show ?thesis
  proof (rule bit_eqI)
    fix n assume "possible_bit TYPE(u16) n"
    then have "n < 16" by simp
    then show "bit (read_u16_le p j) n = bit v n"
      unfolding read_u16_le_def nth by (cases "n < 8") (auto simp: bit_simps bit_byte_of)
  qed
qed

lemma read_u32_le_field [rcr_bytes]:
  assumes "take 4 (drop j p) = le_bytes 4 v" and "j + 4 \<le> length p"
  shows "read_u32_le p j = (v :: u32)"
proof -
  have nth: "p ! j = byte_of 0 v" "p ! (j + 1) = byte_of 1 v" "p ! (j + 2) = byte_of 2 v" "p ! (j + 3) = byte_of 3 v"
    using field_nth [OF assms(1) _ assms(2), of 0] field_nth [OF assms(1) _ assms(2), of 1]
      field_nth [OF assms(1) _ assms(2), of 2] field_nth [OF assms(1) _ assms(2), of 3] by simp_all
  show ?thesis
  proof (rule bit_eqI)
    fix n assume "possible_bit TYPE(u32) n"
    then have n: "n < 32" by simp
    consider "n < 8" | "8 \<le> n" "n < 16" | "16 \<le> n" "n < 24" | "24 \<le> n" by linarith
    then show "bit (read_u32_le p j) n = bit v n"
      unfolding read_u32_le_def nth using n by cases (auto simp: bit_simps bit_byte_of)
  qed
qed

lemma le_bytes_join: "le_bytes 2 (ucast (a :: u8) OR push_bit 8 (ucast (b :: u8)) :: u16) = [a, b]"
proof -
  let ?v = "ucast a OR push_bit 8 (ucast b) :: u16"
  have "byte_of 0 ?v = a"
    by (rule bit_eqI) (auto simp: bit_byte_of bit_simps)
  moreover have "byte_of 1 ?v = b"
  proof (rule bit_eqI)
    fix n assume "possible_bit TYPE(u8) n"
    then have "n < 8" by simp
    then show "bit (byte_of 1 ?v) n = bit b n"
      using bit_imp_le_length [of a "8 + n"] by (auto simp: bit_byte_of bit_simps)
  qed
  ultimately show ?thesis by (simp add: le_bytes_def upt_rec)
qed

lemma fold_or_bit: "bit (fold (\<lambda>i v. v OR f i) xs (a :: 'a::len word)) n \<longleftrightarrow> bit a n \<or> (\<exists>i\<in>set xs. bit (f i) n)"
  by (induction xs arbitrary: a) (auto simp: bit_simps)

lemma read_u64_le_field [rcr_bytes]:
  assumes "take 8 (drop j p) = le_bytes 8 v" and "j + 8 \<le> length p"
  shows "read_u64_le p j = (v :: u64)"
proof (rule bit_eqI)
  fix n assume "possible_bit TYPE(u64) n"
  then have n: "n < 64" by simp
  have nth: "p ! (j + i) = byte_of i v" if "i < 8" for i
    using field_nth [OF assms(1) that assms(2)] .
  have "bit (read_u64_le p j) n \<longleftrightarrow> (\<exists>i\<in>{0..<8}. 8 * i \<le> n \<and> bit (p ! (j + i)) (n - 8 * i))"
    unfolding read_u64_le_def fold_or_bit using n by (auto simp: bit_simps)
  also have "\<dots> \<longleftrightarrow> (\<exists>i\<in>{0..<8}. 8 * i \<le> n \<and> n - 8 * i < 8 \<and> bit v n)"
    by (intro bex_cong refl) (auto simp: nth bit_byte_of)
  also have "\<dots> \<longleftrightarrow> bit v n"
    using n by (auto intro!: bexI [of _ "n div 8"])
  finally show "bit (read_u64_le p j) n = bit v n" .
qed

definition i64_range :: "i64 \<Rightarrow> bool" where
  "i64_range v \<longleftrightarrow> - (2 ^ 63) \<le> v \<and> v < 2 ^ 63"

lemma sint_i64: "i64_range v \<Longrightarrow> sint (word_of_int v :: u64) = v"
  unfolding i64_range_def by (simp add: signed_of_int signed_take_bit_int_eq_self)

lemma read_i64_le_field [rcr_bytes]:
  assumes "take 8 (drop j p) = le_bytes 8 (word_of_int v :: u64)" and "j + 8 \<le> length p" and "i64_range v"
  shows "read_i64_le p j = v"
  using read_u64_le_field [OF assms(1,2)] assms(3) by (simp add: read_i64_le_def sint_i64)

lemma i64_range_sint: "i64_range (sint (w :: u64))"
  using sint_ge [of w] sint_lt [of w] by (simp add: i64_range_def)

lemma i64_range_read [simp]: "i64_range (read_i64_le p j)"
  by (simp add: read_i64_le_def i64_range_sint)

text \<open>A field is determined by its bytes.\<close>

lemma le_bytes_inj:
  fixes v w :: "'a::len word"
  assumes "le_bytes n v = le_bytes n w" and "LENGTH('a) \<le> 8 * n"
  shows "v = w"
proof (rule bit_eqI)
  fix k assume "possible_bit TYPE('a word) k"
  then have k: "k div 8 < n" using assms(2) by auto
  have "byte_of (k div 8) v = byte_of (k div 8) w"
    using arg_cong [OF assms(1), of "\<lambda>xs. xs ! (k div 8)"] k by simp
  then have "bit (byte_of (k div 8) v) (k mod 8) = bit (byte_of (k div 8) w) (k mod 8)" by simp
  then show "bit v k = bit w k" by (simp add: byte_of_def bit_simps)
qed

section \<open>CRC-16/IBM\<close>

definition crc16_bit :: "u16 \<Rightarrow> u16" where
  "crc16_bit crc = (if crc AND 0x0001 \<noteq> 0 then drop_bit 1 crc XOR 0xA001 else drop_bit 1 crc)"

definition crc16_byte :: "u16 \<Rightarrow> u8 \<Rightarrow> u16" where
  "crc16_byte crc byte = (crc16_bit ^^ 8) (crc XOR ucast byte)"

definition modbus_rtu_crc16 :: "u8 list \<Rightarrow> u16" where
  "modbus_rtu_crc16 data = foldl crc16_byte 0xFFFF data"

definition remote_crc16 :: "u8 list \<Rightarrow> u16" where
  "remote_crc16 data = foldl crc16_byte 0xFFFF data"

lemma remote_crc16_eq: "remote_crc16 = modbus_rtu_crc16"
  by (simp add: fun_eq_iff remote_crc16_def modbus_rtu_crc16_def)

text \<open>
  The register shifts right and folds the polynomial in when the bit that leaves
  is set. Both halves are linear over exclusive or, and the bit that leaves comes
  back as the top bit of the polynomial, so no state is lost.
\<close>

lemma crc16_bit_alt: "crc16_bit x = drop_bit 1 x XOR (if bit x 0 then 0xA001 else 0)"
  by (simp add: crc16_bit_def and_one_eq bit_0 flip: odd_iff_mod_2_eq_one)

lemma crc16_bit_xor: "crc16_bit (x XOR y) = crc16_bit x XOR crc16_bit y"
proof -
  have d: "drop_bit 1 (x XOR y) = drop_bit 1 x XOR drop_bit 1 y"
    by (rule bit_eqI) (simp add: bit_simps)
  show ?thesis
    unfolding crc16_bit_alt d
    by (cases "bit x 0"; cases "bit y 0") (simp_all add: bit_simps ac_simps)
qed

lemma bit_shift_one: "bit (push_bit 1 (y :: u16)) n \<longleftrightarrow> 1 \<le> n \<and> n < 16 \<and> bit y (n - 1)"
  by (simp only: bit_push_bit_iff) (auto dest: bit_imp_le_length)

lemma crc16_bit_shift: "\<not> bit y 15 \<Longrightarrow> crc16_bit (push_bit 1 y) = y"
proof -
  assume y: "\<not> bit y 15"
  have "drop_bit 1 (push_bit 1 y) = y"
  proof (rule bit_eqI)
    fix n assume "possible_bit TYPE(u16) n"
    then show "bit (drop_bit 1 (push_bit 1 y)) n = bit y n"
      unfolding bit_drop_bit_eq comp_def bit_shift_one using y by (cases "n = 15") auto
  qed
  moreover have "\<not> bit (push_bit 1 y) 0" by (simp only: bit_shift_one) simp
  ultimately show ?thesis unfolding crc16_bit_alt by simp
qed

lemma crc16_bit_kernel: "crc16_bit x = 0 \<Longrightarrow> x = 0"
proof (rule bit_eqI)
  fix n assume x: "crc16_bit x = 0" and "possible_bit TYPE(u16) n"
  then have n: "n < 16" by simp
  have b: "\<not> bit (crc16_bit x) m" for m using x by simp
  have top: "\<not> bit x 16" using bit_imp_le_length [of x 16] by auto
  have zero: "\<not> bit x 0" using b [of 15] top unfolding crc16_bit_alt by (simp add: bit_simps split: if_splits)
  then show "bit x n = bit 0 n"
    using b [of "n - 1"] n unfolding crc16_bit_alt by (cases n) (simp_all add: bit_simps)
qed

lemma crc16_bit_zero [simp]: "crc16_bit 0 = 0"
  by (simp add: crc16_bit_def)

lemma crc16_bits_zero [simp]: "(crc16_bit ^^ n) 0 = 0"
  by (induction n) simp_all

lemma crc16_bits_kernel: "(crc16_bit ^^ n) x = 0 \<Longrightarrow> x = 0"
  by (induction n) (auto dest: crc16_bit_kernel)

lemma crc16_bits_xor: "(crc16_bit ^^ n) (x XOR y) = (crc16_bit ^^ n) x XOR (crc16_bit ^^ n) y"
  by (induction n) (simp_all add: crc16_bit_xor)

lemma xor_zero_iff: "x XOR y = 0 \<longleftrightarrow> x = y" for x y :: "'a::len word"
  by (auto simp: bit_eq_iff bit_simps)

lemma xor_cancel_iff:
  fixes x y c :: "'a::len word"
  shows "x XOR c = y XOR c \<longleftrightarrow> x = y" and "c XOR x = c XOR y \<longleftrightarrow> x = y"
  by (auto simp: bit_eq_iff bit_simps)

lemma crc16_bits_inj: "(crc16_bit ^^ n) x = (crc16_bit ^^ n) y \<longleftrightarrow> x = y"
  using crc16_bits_kernel [of n "x XOR y"] by (auto simp: crc16_bits_xor xor_zero_iff)

text \<open>The same register clocked one message bit at a time, least significant bit of each byte first.\<close>

definition crc_bits :: "u16 \<Rightarrow> bool list \<Rightarrow> u16" where
  "crc_bits s bs = foldl (\<lambda>s b. crc16_bit (s XOR of_bool b)) s bs"

definition bits_of :: "u8 list \<Rightarrow> bool list" where
  "bits_of data = concat (map (\<lambda>b. map (bit b) [0..<8]) data)"

lemma crc_bits_append: "crc_bits s (xs @ ys) = crc_bits (crc_bits s xs) ys"
  by (simp add: crc_bits_def)

lemma crc_bits_Cons: "crc_bits s (b # w) = crc_bits (crc16_bit (s XOR of_bool b)) w"
  by (simp add: crc_bits_def)

lemma bits_of_append: "bits_of (xs @ ys) = bits_of xs @ bits_of ys"
  by (simp add: bits_of_def)

lemma length_bits_of [simp]: "length (bits_of xs) = 8 * length xs"
  by (induction xs) (simp_all add: bits_of_def)

abbreviation packed :: "bool list \<Rightarrow> u16" where
  "packed \<equiv> horner_sum of_bool 2"

lemma bit_packed: "bit (packed w) n \<longleftrightarrow> n < length w \<and> n < 16 \<and> w ! n"
  by (auto simp: bit_horner_sum_bit_word_iff)

lemma packed_Cons: "packed (b # w) = of_bool b XOR push_bit 1 (packed w)" if "length w < 16"
proof (rule bit_eqI)
  fix n assume "possible_bit TYPE(u16) n"
  then have "n < 16" by simp
  then show "bit (packed (b # w)) n = bit (of_bool b XOR push_bit 1 (packed w)) n"
    unfolding bit_packed bit_xor_iff bit_shift_one by (cases n) (auto simp: bit_packed bit_simps)
qed

lemma crc_bits_packed: "length w \<le> 16 \<Longrightarrow> crc_bits s w = (crc16_bit ^^ length w) (s XOR packed w)"
proof (induction w arbitrary: s)
  case (Cons b w)
  then have w: "length w < 16" by simp
  then have "\<not> bit (packed w) 15" by (simp add: bit_packed)
  then have top: "crc16_bit (push_bit 1 (packed w)) = packed w" by (rule crc16_bit_shift)
  have step: "crc16_bit (s XOR packed (b # w)) = crc16_bit (s XOR of_bool b) XOR packed w"
    unfolding packed_Cons [OF w] xor.assoc [symmetric] crc16_bit_xor top ..
  have "crc_bits s (b # w) = crc_bits (crc16_bit (s XOR of_bool b)) w" by (rule crc_bits_Cons)
  also have "\<dots> = (crc16_bit ^^ length w) (crc16_bit (s XOR packed (b # w)))"
    unfolding step using Cons.IH w by (simp del: horner_sum_simps)
  finally show ?case unfolding list.size(4) add_Suc_right add_0_right funpow_Suc_right comp_apply .
qed (simp add: crc_bits_def)

lemma packed_byte: "packed (map (bit (b :: u8)) [0..<8]) = ucast b"
proof (rule bit_eqI)
  fix n assume "possible_bit TYPE(u16) n"
  then show "bit (packed (map (bit b) [0..<8])) n = bit (ucast b :: u16) n"
    unfolding bit_packed using bit_imp_le_length [of b n] by (cases "n < 8") (auto simp: bit_simps)
qed

lemma crc16_byte_bits: "crc16_byte s b = crc_bits s (map (bit b) [0..<8])"
  by (simp only: crc_bits_packed packed_byte length_map length_upt crc16_byte_def) simp

lemma crc_foldl_bits: "foldl crc16_byte s data = crc_bits s (bits_of data)"
proof (induction data arbitrary: s)
  case (Cons b data)
  then show ?case by (simp only: foldl_Cons bits_of_def list.map concat.simps crc_bits_append crc16_byte_bits)
qed (simp add: crc_bits_def bits_of_def)

lemma modbus_crc_bits: "modbus_rtu_crc16 data = crc_bits 0xFFFF (bits_of data)"
  by (simp add: modbus_rtu_crc16_def crc_foldl_bits)

lemma crc_bits_inj_state: "crc_bits s w = crc_bits s' w \<longleftrightarrow> s = s'"
proof (induction w arbitrary: s s')
  case (Cons b w)
  show ?case
    unfolding crc_bits_Cons Cons.IH using crc16_bits_inj [of "Suc 0" "s XOR of_bool b" "s' XOR of_bool b"]
    by (simp only: funpow.simps o_id comp_id xor_cancel_iff)
qed (simp add: crc_bits_def)

lemma packed_inj:
  assumes "length w = length w'" and "length w \<le> 16"
  shows "packed w = packed w' \<longleftrightarrow> w = w'"
proof
  assume "packed w = packed w'"
  then have "w ! i = w' ! i" if "i < length w" for i
    using bit_packed [of w i] bit_packed [of w' i] that assms by simp
  then show "w = w'" using assms(1) by (intro nth_equalityI) simp_all
qed simp

text \<open>
  Two messages that agree outside a window of at most sixteen bits have the same
  checksum only when they agree inside it too.
\<close>

lemma crc_burst:
  assumes "length w = length w'" and "length w \<le> 16"
  shows "crc_bits s (xs @ w @ ys) = crc_bits s (xs @ w' @ ys) \<longleftrightarrow> w = w'"
  using assms
  by (simp add: crc_bits_append crc_bits_inj_state crc_bits_packed crc16_bits_inj packed_inj xor_cancel_iff del: horner_sum_simps)

lemma bits_of_inj: "bits_of xs = bits_of ys \<longleftrightarrow> xs = ys"
proof (induction xs arbitrary: ys)
  case Nil
  then show ?case by (cases ys) (simp_all add: bits_of_def)
next
  case (Cons x xs)
  show ?case
  proof (cases ys)
    case (Cons y ys')
    have "map (bit x) [0..<8] = map (bit y) [0..<8] \<longleftrightarrow> x = y"
      by (auto simp: list_eq_iff_nth_eq intro: bit_eqI)
    then show ?thesis using Cons.IH [of ys'] Cons by (simp add: bits_of_def)
  qed (simp add: bits_of_def)
qed

text \<open>A message followed by its own checksum, low byte first, leaves the register at zero, and only that checksum does.\<close>

lemma packed_field: "packed (bits_of [a, b]) = ucast a OR push_bit 8 (ucast b)"
proof (rule bit_eqI)
  fix n assume "possible_bit TYPE(u16) n"
  then have "n < 16" by simp
  then show "bit (packed (bits_of [a, b])) n = bit (ucast a OR push_bit 8 (ucast b) :: u16) n"
    unfolding bit_packed by (auto simp: bits_of_def nth_append bit_simps dest: bit_imp_le_length)
qed

lemma crc_residue:
  "modbus_rtu_crc16 (data @ [a, b]) = 0 \<longleftrightarrow> modbus_rtu_crc16 data = ucast a OR push_bit 8 (ucast b)"
proof -
  have "modbus_rtu_crc16 (data @ [a, b]) = (crc16_bit ^^ 16) (modbus_rtu_crc16 data XOR packed (bits_of [a, b]))"
    by (simp only: modbus_crc_bits bits_of_append crc_bits_append) (simp add: crc_bits_packed)
  then show ?thesis
    unfolding packed_field using crc16_bits_kernel [of 16] xor_zero_iff by auto
qed

end
