(* ===== verification/Frame_Stream.thy ===== *)
theory Frame_Stream
  imports Wire_Bytes "HOL-Library.Sublist"
begin

text \<open>
  Framing over a byte stream. Every stream protocol of the program buffers the
  bytes it receives, pops complete frames off the front of the buffer and leaves
  a partial frame for the next read. The locale \<open>frame_stream\<close> states what such a
  framer promises (an encoded frame pops as that frame, a proper prefix of one
  asks for more) and proves once that the reader recovers the frames in order
  however the stream is cut into reads. The remote frames, the cell frames, the
  Modbus agent frames and the Modbus TCP units are its instances. The three
  workbench protocols share one envelope (a twelve-byte header, the payload and
  a checksum); its layout lemmas are the second part.
\<close>

section \<open>Framers\<close>

datatype 'f pop = NeedMore | Popped 'f "u8 list" | Broken

inductive drained :: "(u8 list \<Rightarrow> 'f pop) \<Rightarrow> u8 list \<Rightarrow> 'f list \<Rightarrow> u8 list \<Rightarrow> bool" for pop where
  wait: "pop buf = NeedMore \<Longrightarrow> drained pop buf [] buf"
| frame: "pop buf = Popped f rest \<Longrightarrow> drained pop rest fs out \<Longrightarrow> drained pop buf (f # fs) out"

inductive_cases drained_NilE [elim!]: "drained pop buf [] out"
inductive_cases drained_ConsE [elim!]: "drained pop buf (f # fs) out"

lemma drained_unique:
  assumes "drained pop buf fs out" and "drained pop buf gs out'"
  shows "fs = gs \<and> out = out'"
  using assms
proof (induction arbitrary: gs rule: drained.induct)
  case (wait buf)
  from wait.prems show ?case by cases (simp_all add: wait.hyps)
next
  case (frame buf f rest fs out)
  from frame.prems show ?case by cases (use frame in auto)
qed

lemma drained_waits: "drained pop buf fs out \<Longrightarrow> pop out = NeedMore"
  by (induction rule: drained.induct) simp_all

text \<open>A sequence of reads: each chunk is appended to the buffer, which is then drained.\<close>

inductive reads :: "(u8 list \<Rightarrow> 'f pop) \<Rightarrow> u8 list \<Rightarrow> u8 list list \<Rightarrow> 'f list \<Rightarrow> u8 list \<Rightarrow> bool" for pop where
  idle: "reads pop buf [] [] buf"
| read: "drained pop (buf @ c) fs mid \<Longrightarrow> reads pop mid cs gs out \<Longrightarrow> reads pop buf (c # cs) (fs @ gs) out"

inductive_cases reads_NilE [elim!]: "reads pop buf [] fs out"
inductive_cases reads_ConsE [elim!]: "reads pop buf (c # cs) fs out"

locale frame_stream =
  fixes enc :: "'f \<Rightarrow> u8 list option" and pop :: "u8 list \<Rightarrow> 'f pop"
  assumes pop_nil: "pop [] = NeedMore"
    and enc_nonempty: "enc f = Some w \<Longrightarrow> w \<noteq> []"
    and pop_enc: "enc f = Some w \<Longrightarrow> pop (w @ rest) = Popped f rest"
    and pop_prefix: "enc f = Some w \<Longrightarrow> strict_prefix p w \<Longrightarrow> pop p = NeedMore"
begin

abbreviation encodes :: "'f list \<Rightarrow> u8 list list \<Rightarrow> bool" where
  "encodes \<equiv> list_all2 (\<lambda>f w. enc f = Some w)"

lemma stream_drained:
  assumes "encodes fs ws" and "buf @ more = concat ws"
  shows "\<exists>k rest. drained pop buf (take k fs) rest \<and> rest @ more = concat (drop k ws) \<and>
           (rest = [] \<or> k < length ws \<and> strict_prefix rest (ws ! k))"
  using assms
proof (induction fs ws arbitrary: buf rule: list_all2_induct)
  case Nil
  then show ?case by (auto intro!: exI [of _ 0] drained.wait pop_nil)
next
  case (Cons f fs w ws)
  show ?case
  proof (cases "length w \<le> length buf")
    case True
    have "take (length w) (buf @ more) = take (length w) (w @ concat ws)" using Cons.prems by simp
    then have "buf = w @ drop (length w) buf" using True by (metis append_eq_conv_conj append_take_drop_id take_append diff_is_0_eq take0 append_Nil2)
    then obtain rest where buf: "buf = w @ rest" by blast
    then have more: "rest @ more = concat ws" using Cons.prems by simp
    obtain k out where k: "drained pop rest (take k fs) out" "out @ more = concat (drop k ws)"
      "out = [] \<or> k < length ws \<and> strict_prefix out (ws ! k)" using Cons.IH [OF more] by blast
    have "drained pop buf (take (Suc k) (f # fs)) out"
      using drained.frame [OF pop_enc [OF Cons.hyps(1), of rest] k(1)] buf by simp
    then show ?thesis using k(2,3) by (intro exI [of _ "Suc k"] exI [of _ out]) auto
  next
    case False
    then have p: "strict_prefix buf w"
      using Cons.prems by (auto simp: append_eq_append_conv2 strict_prefix_def prefix_def)
    then have "drained pop buf (take 0 (f # fs)) buf"
      using pop_prefix [OF Cons.hyps(1)] by (auto intro: drained.wait)
    then show ?thesis using Cons.prems p by (intro exI [of _ 0] exI [of _ buf]) simp
  qed
qed

lemma encodes_drop: "encodes fs ws \<Longrightarrow> encodes (drop k fs) (drop k ws)"
  by (rule list_all2_dropI)

lemma encodes_nonempty: "encodes fs ws \<Longrightarrow> concat ws = [] \<Longrightarrow> ws = []"
  by (cases ws) (auto simp: list_all2_Cons2 dest: enc_nonempty)

text \<open>However the stream is cut into reads, the frames arrive complete, in order and nothing else does.\<close>

lemma stream_reads:
  assumes "encodes fs ws" and "buf @ concat cs = concat ws" and "pop buf = NeedMore"
  shows "reads pop buf cs fs []"
  using assms
proof (induction cs arbitrary: fs ws buf)
  case Nil
  show ?case
  proof (cases ws)
    case Nil
    then show ?thesis using Nil.prems by (auto intro: reads.idle)
  next
    case (Cons w ws')
    then obtain f fs' where "fs = f # fs'" "enc f = Some w" using Nil.prems(1) by (auto simp: list_all2_Cons2)
    then show ?thesis using Nil.prems(2,3) pop_enc [of f w "concat ws'"] Cons by simp
  qed
next
  case (Cons c cs)
  obtain k rest where k: "drained pop (buf @ c) (take k fs) rest" "rest @ concat cs = concat (drop k ws)"
    using stream_drained [OF Cons.prems(1), of "buf @ c" "concat cs"] Cons.prems(2) by auto
  have "pop rest = NeedMore" using k(1) by (rule drained_waits)
  then have "reads pop rest cs (drop k fs) []"
    using Cons.IH [OF encodes_drop [OF Cons.prems(1), of k] k(2)] by simp
  from reads.read [OF k(1) this] show ?case by simp
qed

lemma enc_inj: "enc f = Some w \<Longrightarrow> enc g = Some w \<Longrightarrow> f = g"
  using pop_enc [of f w "[]"] pop_enc [of g w "[]"] by simp

end

section \<open>The common envelope\<close>

definition envelope_header :: "u32 \<Rightarrow> u8 \<Rightarrow> u8 \<Rightarrow> u8 \<Rightarrow> u8 \<Rightarrow> u16 \<Rightarrow> u16 \<Rightarrow> u8 list" where
  "envelope_header magic version kind flags reserved sequence len =
     le_bytes 4 magic @ [version, kind, flags, reserved] @ le_bytes 2 sequence @ le_bytes 2 len"

definition envelope :: "u32 \<Rightarrow> u8 \<Rightarrow> u8 \<Rightarrow> u8 \<Rightarrow> u8 \<Rightarrow> u16 \<Rightarrow> u8 list \<Rightarrow> u8 list" where
  "envelope magic version kind flags reserved sequence payload =
     (let body = envelope_header magic version kind flags reserved sequence (of_nat (length payload)) @ payload
      in body @ le_bytes 2 (modbus_rtu_crc16 body))"

lemma length_envelope_header [simp]: "length (envelope_header m v k f r s l) = 12"
  by (simp add: envelope_header_def)

lemma length_envelope [simp]: "length (envelope m v k f r s p) = 14 + length p"
  by (simp add: envelope_def Let_def)

lemma nth_take_eq: "take n b = h \<Longrightarrow> i < n \<Longrightarrow> i < length h \<Longrightarrow> b ! i = h ! i"
  by (auto simp: nth_take)

lemma header_bytes:
  assumes "take 12 b = envelope_header m v k f r s l"
  shows "b ! 4 = v" "b ! 5 = k" "b ! 6 = f" "b ! 7 = r"
  using nth_take_eq [OF assms, of 4] nth_take_eq [OF assms, of 5] nth_take_eq [OF assms, of 6] nth_take_eq [OF assms, of 7]
  by (simp_all add: envelope_header_def nth_append)

lemma header_length: "take 12 b = envelope_header m v k f r s l \<Longrightarrow> 12 \<le> length b"
  using arg_cong [of "take 12 b" _ length] by fastforce

lemma take_drop_take: "j + n \<le> m \<Longrightarrow> take n (drop j b) = take n (drop j (take m b))"
  by (simp add: drop_take min_def)

lemma header_fields:
  assumes "take 12 b = envelope_header m v k f r s l"
  shows "read_u32_le b 0 = m" and "read_u16_le b 8 = s" and "read_u16_le b 10 = l"
proof -
  have len: "12 \<le> length b" using header_length [OF assms] .
  have "take 4 b = take 4 (take 12 b)" by simp
  then have "take 4 b = le_bytes 4 m" unfolding assms by (simp add: envelope_header_def)
  then show "read_u32_le b 0 = m" using len by (intro read_u32_le_field) simp_all
  show "read_u16_le b 8 = s"
    by (rule read_u16_le_field)
      (use len in \<open>simp_all add: take_drop_take [of 8 2 12 b] assms envelope_header_def\<close>)
  show "read_u16_le b 10 = l"
    by (rule read_u16_le_field)
      (use len in \<open>simp_all add: take_drop_take [of 10 2 12 b] assms envelope_header_def\<close>)
qed

lemma envelope_take_header:
  "take 12 (envelope m v k f r s p @ rest) = envelope_header m v k f r s (of_nat (length p))"
  by (simp add: envelope_def Let_def)

lemma envelope_prefix_header:
  assumes "strict_prefix b (envelope m v k f r s p)" and "12 \<le> length b"
  shows "take 12 b = envelope_header m v k f r s (of_nat (length p))"
proof -
  obtain c where "envelope m v k f r s p = b @ c" using assms(1) by (auto simp: strict_prefix_def prefix_def)
  then have "take 12 b = take 12 (envelope m v k f r s p)" using assms(2) by simp
  then show ?thesis using envelope_take_header [of m v k f r s p "[]"] by simp
qed

lemma envelope_payload:
  "take (length p) (drop 12 (envelope m v k f r s p @ rest)) = p"
  "drop (14 + length p) (envelope m v k f r s p @ rest) = rest"
  by (simp_all add: envelope_def Let_def)

lemma envelope_crc:
  "read_u16_le (envelope m v k f r s p @ rest) (12 + length p) =
   modbus_rtu_crc16 (take (12 + length p) (envelope m v k f r s p @ rest))"
proof -
  let ?body = "envelope_header m v k f r s (of_nat (length p)) @ p"
  have "read_u16_le (envelope m v k f r s p @ rest) (12 + length p) = modbus_rtu_crc16 ?body"
    by (rule read_u16_le_field) (simp_all add: envelope_def Let_def)
  moreover have "take (12 + length p) (envelope m v k f r s p @ rest) = ?body"
    by (simp add: envelope_def Let_def)
  ultimately show ?thesis by simp
qed

lemma unat_length_u16: "n < 65536 \<Longrightarrow> unat (of_nat n :: u16) = n"
  by (simp add: unat_of_nat)

end
