(* ===== verification/App_Model.thy ===== *)
theory App_Model
  imports Wire_Bytes
begin

text \<open>
  Data model of the workbench application layer,
  \<^verbatim>\<open>linux/include/rcr/workbench/application/application_model.hpp\<close>: the
  enumerations with their display names and wire numbers, and the snapshot
  structures the adapter fills and the protocols carry. An enumeration that a
  decoder fills with an unchecked cast of a byte has one constructor per
  enumerator and a last one, \<open>\<dots>_raw\<close>, for the byte values that name no enumerator;
  \<open>named\<close> predicates say that a value is an enumerator.
\<close>

section \<open>Enumerations\<close>

datatype EvidenceClass = Unspecified | Mock | Vcan | Physical | Loopback | EvidenceClass_raw u8

fun EvidenceClass_to_string :: "EvidenceClass \<Rightarrow> string" where
  "EvidenceClass_to_string EvidenceClass.Unspecified = ''UNSPECIFIED''"
| "EvidenceClass_to_string EvidenceClass.Mock = ''MOCK''"
| "EvidenceClass_to_string EvidenceClass.Vcan = ''VCAN''"
| "EvidenceClass_to_string EvidenceClass.Physical = ''PHYSICAL''"
| "EvidenceClass_to_string EvidenceClass.Loopback = ''LOOPBACK''"
| "EvidenceClass_to_string (EvidenceClass_raw c) = ''UNKNOWN''"

fun EvidenceClass_code :: "EvidenceClass \<Rightarrow> u8" where
  "EvidenceClass_code EvidenceClass.Unspecified = 0"
| "EvidenceClass_code EvidenceClass.Mock = 1"
| "EvidenceClass_code EvidenceClass.Vcan = 2"
| "EvidenceClass_code EvidenceClass.Physical = 3"
| "EvidenceClass_code EvidenceClass.Loopback = 4"
| "EvidenceClass_code (EvidenceClass_raw c) = c"

definition EvidenceClass_of_code :: "u8 \<Rightarrow> EvidenceClass" where
  "EvidenceClass_of_code c =
     (if c = 0 then EvidenceClass.Unspecified
      else if c = 1 then EvidenceClass.Mock
      else if c = 2 then EvidenceClass.Vcan
      else if c = 3 then EvidenceClass.Physical
      else if c = 4 then EvidenceClass.Loopback
      else EvidenceClass_raw c)"

definition named_EvidenceClass :: "EvidenceClass \<Rightarrow> bool" where
  "named_EvidenceClass x \<longleftrightarrow> (case x of EvidenceClass_raw c \<Rightarrow> False | _ \<Rightarrow> True)"

lemma EvidenceClass_roundtrip [simp]: "named_EvidenceClass x \<Longrightarrow> EvidenceClass_of_code (EvidenceClass_code x) = x"
  by (cases x) (simp_all add: named_EvidenceClass_def EvidenceClass_of_code_def)

lemma EvidenceClass_code_of_code [simp]: "EvidenceClass_code (EvidenceClass_of_code c) = c"
  by (simp add: EvidenceClass_of_code_def)

lemma named_EvidenceClass_of_code: "named_EvidenceClass (EvidenceClass_of_code c) \<longleftrightarrow> c < 5"
  unfolding named_EvidenceClass_def EvidenceClass_of_code_def by (auto simp: word_less_nat_alt word_unat_eq_iff)

datatype DiagnosticSource = Runtime | Communication | Device | Workbench | Test

fun DiagnosticSource_to_string :: "DiagnosticSource \<Rightarrow> string" where
  "DiagnosticSource_to_string DiagnosticSource.Runtime = ''RUNTIME''"
| "DiagnosticSource_to_string DiagnosticSource.Communication = ''COMMUNICATION''"
| "DiagnosticSource_to_string DiagnosticSource.Device = ''DEVICE''"
| "DiagnosticSource_to_string DiagnosticSource.Workbench = ''WORKBENCH''"
| "DiagnosticSource_to_string DiagnosticSource.Test = ''TEST''"

datatype DiagnosticSeverity = Info | Warning | Error

fun DiagnosticSeverity_to_string :: "DiagnosticSeverity \<Rightarrow> string" where
  "DiagnosticSeverity_to_string DiagnosticSeverity.Info = ''INFO''"
| "DiagnosticSeverity_to_string DiagnosticSeverity.Warning = ''WARNING''"
| "DiagnosticSeverity_to_string DiagnosticSeverity.Error = ''ERROR''"

datatype CommandStatus = Accepted | InvalidArgument | NotOpen | Busy | Rejected | Timeout | IoError | Unsupported | CommandStatus_raw u8

fun CommandStatus_to_string :: "CommandStatus \<Rightarrow> string" where
  "CommandStatus_to_string CommandStatus.Accepted = ''ACCEPTED''"
| "CommandStatus_to_string CommandStatus.InvalidArgument = ''INVALID_ARGUMENT''"
| "CommandStatus_to_string CommandStatus.NotOpen = ''NOT_OPEN''"
| "CommandStatus_to_string CommandStatus.Busy = ''BUSY''"
| "CommandStatus_to_string CommandStatus.Rejected = ''REJECTED''"
| "CommandStatus_to_string CommandStatus.Timeout = ''TIMEOUT''"
| "CommandStatus_to_string CommandStatus.IoError = ''IO_ERROR''"
| "CommandStatus_to_string CommandStatus.Unsupported = ''UNSUPPORTED''"
| "CommandStatus_to_string (CommandStatus_raw c) = ''UNKNOWN''"

fun CommandStatus_code :: "CommandStatus \<Rightarrow> u8" where
  "CommandStatus_code CommandStatus.Accepted = 0"
| "CommandStatus_code CommandStatus.InvalidArgument = 1"
| "CommandStatus_code CommandStatus.NotOpen = 2"
| "CommandStatus_code CommandStatus.Busy = 3"
| "CommandStatus_code CommandStatus.Rejected = 4"
| "CommandStatus_code CommandStatus.Timeout = 5"
| "CommandStatus_code CommandStatus.IoError = 6"
| "CommandStatus_code CommandStatus.Unsupported = 7"
| "CommandStatus_code (CommandStatus_raw c) = c"

definition CommandStatus_of_code :: "u8 \<Rightarrow> CommandStatus" where
  "CommandStatus_of_code c =
     (if c = 0 then CommandStatus.Accepted
      else if c = 1 then CommandStatus.InvalidArgument
      else if c = 2 then CommandStatus.NotOpen
      else if c = 3 then CommandStatus.Busy
      else if c = 4 then CommandStatus.Rejected
      else if c = 5 then CommandStatus.Timeout
      else if c = 6 then CommandStatus.IoError
      else if c = 7 then CommandStatus.Unsupported
      else CommandStatus_raw c)"

definition named_CommandStatus :: "CommandStatus \<Rightarrow> bool" where
  "named_CommandStatus x \<longleftrightarrow> (case x of CommandStatus_raw c \<Rightarrow> False | _ \<Rightarrow> True)"

lemma CommandStatus_roundtrip [simp]: "named_CommandStatus x \<Longrightarrow> CommandStatus_of_code (CommandStatus_code x) = x"
  by (cases x) (simp_all add: named_CommandStatus_def CommandStatus_of_code_def)

lemma CommandStatus_code_of_code [simp]: "CommandStatus_code (CommandStatus_of_code c) = c"
  by (simp add: CommandStatus_of_code_def)

lemma named_CommandStatus_of_code: "named_CommandStatus (CommandStatus_of_code c) \<longleftrightarrow> c < 8"
  unfolding named_CommandStatus_def CommandStatus_of_code_def by (auto simp: word_less_nat_alt word_unat_eq_iff)

datatype RuntimeModeCode = Disabled | Idle | Active | Hold | Fault | EStop | Unknown | RuntimeModeCode_raw u8

fun RuntimeModeCode_to_string :: "RuntimeModeCode \<Rightarrow> string" where
  "RuntimeModeCode_to_string RuntimeModeCode.Disabled = ''DISABLED''"
| "RuntimeModeCode_to_string RuntimeModeCode.Idle = ''IDLE''"
| "RuntimeModeCode_to_string RuntimeModeCode.Active = ''ACTIVE''"
| "RuntimeModeCode_to_string RuntimeModeCode.Hold = ''HOLD''"
| "RuntimeModeCode_to_string RuntimeModeCode.Fault = ''FAULT''"
| "RuntimeModeCode_to_string RuntimeModeCode.EStop = ''ESTOP''"
| "RuntimeModeCode_to_string RuntimeModeCode.Unknown = ''UNKNOWN''"
| "RuntimeModeCode_to_string (RuntimeModeCode_raw c) = ''UNKNOWN''"

fun RuntimeModeCode_code :: "RuntimeModeCode \<Rightarrow> u8" where
  "RuntimeModeCode_code RuntimeModeCode.Disabled = 0"
| "RuntimeModeCode_code RuntimeModeCode.Idle = 1"
| "RuntimeModeCode_code RuntimeModeCode.Active = 2"
| "RuntimeModeCode_code RuntimeModeCode.Hold = 3"
| "RuntimeModeCode_code RuntimeModeCode.Fault = 4"
| "RuntimeModeCode_code RuntimeModeCode.EStop = 5"
| "RuntimeModeCode_code RuntimeModeCode.Unknown = 6"
| "RuntimeModeCode_code (RuntimeModeCode_raw c) = c"

definition RuntimeModeCode_of_code :: "u8 \<Rightarrow> RuntimeModeCode" where
  "RuntimeModeCode_of_code c =
     (if c = 0 then RuntimeModeCode.Disabled
      else if c = 1 then RuntimeModeCode.Idle
      else if c = 2 then RuntimeModeCode.Active
      else if c = 3 then RuntimeModeCode.Hold
      else if c = 4 then RuntimeModeCode.Fault
      else if c = 5 then RuntimeModeCode.EStop
      else if c = 6 then RuntimeModeCode.Unknown
      else RuntimeModeCode_raw c)"

definition named_RuntimeModeCode :: "RuntimeModeCode \<Rightarrow> bool" where
  "named_RuntimeModeCode x \<longleftrightarrow> (case x of RuntimeModeCode_raw c \<Rightarrow> False | _ \<Rightarrow> True)"

lemma RuntimeModeCode_roundtrip [simp]: "named_RuntimeModeCode x \<Longrightarrow> RuntimeModeCode_of_code (RuntimeModeCode_code x) = x"
  by (cases x) (simp_all add: named_RuntimeModeCode_def RuntimeModeCode_of_code_def)

lemma RuntimeModeCode_code_of_code [simp]: "RuntimeModeCode_code (RuntimeModeCode_of_code c) = c"
  by (simp add: RuntimeModeCode_of_code_def)

lemma named_RuntimeModeCode_of_code: "named_RuntimeModeCode (RuntimeModeCode_of_code c) \<longleftrightarrow> c < 7"
  unfolding named_RuntimeModeCode_def RuntimeModeCode_of_code_def by (auto simp: word_less_nat_alt word_unat_eq_iff)

datatype RuntimeFaultCode = NoFault | Watchdog | InputFault | CommLoss | NodeFault | ProtocolReject | InterlockLost | Internal | AckTimeout | Unknown | RuntimeFaultCode_raw u8

fun RuntimeFaultCode_to_string :: "RuntimeFaultCode \<Rightarrow> string" where
  "RuntimeFaultCode_to_string RuntimeFaultCode.NoFault = ''NONE''"
| "RuntimeFaultCode_to_string RuntimeFaultCode.Watchdog = ''WATCHDOG''"
| "RuntimeFaultCode_to_string RuntimeFaultCode.InputFault = ''INPUT_FAULT''"
| "RuntimeFaultCode_to_string RuntimeFaultCode.CommLoss = ''COMM_LOSS''"
| "RuntimeFaultCode_to_string RuntimeFaultCode.NodeFault = ''NODE_FAULT''"
| "RuntimeFaultCode_to_string RuntimeFaultCode.ProtocolReject = ''PROTOCOL_REJECT''"
| "RuntimeFaultCode_to_string RuntimeFaultCode.InterlockLost = ''INTERLOCK_LOST''"
| "RuntimeFaultCode_to_string RuntimeFaultCode.Internal = ''INTERNAL''"
| "RuntimeFaultCode_to_string RuntimeFaultCode.AckTimeout = ''ACK_TIMEOUT''"
| "RuntimeFaultCode_to_string RuntimeFaultCode.Unknown = ''UNKNOWN''"
| "RuntimeFaultCode_to_string (RuntimeFaultCode_raw c) = ''UNKNOWN''"

fun RuntimeFaultCode_code :: "RuntimeFaultCode \<Rightarrow> u8" where
  "RuntimeFaultCode_code RuntimeFaultCode.NoFault = 0"
| "RuntimeFaultCode_code RuntimeFaultCode.Watchdog = 1"
| "RuntimeFaultCode_code RuntimeFaultCode.InputFault = 2"
| "RuntimeFaultCode_code RuntimeFaultCode.CommLoss = 3"
| "RuntimeFaultCode_code RuntimeFaultCode.NodeFault = 4"
| "RuntimeFaultCode_code RuntimeFaultCode.ProtocolReject = 5"
| "RuntimeFaultCode_code RuntimeFaultCode.InterlockLost = 6"
| "RuntimeFaultCode_code RuntimeFaultCode.Internal = 7"
| "RuntimeFaultCode_code RuntimeFaultCode.AckTimeout = 8"
| "RuntimeFaultCode_code RuntimeFaultCode.Unknown = 9"
| "RuntimeFaultCode_code (RuntimeFaultCode_raw c) = c"

definition RuntimeFaultCode_of_code :: "u8 \<Rightarrow> RuntimeFaultCode" where
  "RuntimeFaultCode_of_code c =
     (if c = 0 then RuntimeFaultCode.NoFault
      else if c = 1 then RuntimeFaultCode.Watchdog
      else if c = 2 then RuntimeFaultCode.InputFault
      else if c = 3 then RuntimeFaultCode.CommLoss
      else if c = 4 then RuntimeFaultCode.NodeFault
      else if c = 5 then RuntimeFaultCode.ProtocolReject
      else if c = 6 then RuntimeFaultCode.InterlockLost
      else if c = 7 then RuntimeFaultCode.Internal
      else if c = 8 then RuntimeFaultCode.AckTimeout
      else if c = 9 then RuntimeFaultCode.Unknown
      else RuntimeFaultCode_raw c)"

definition named_RuntimeFaultCode :: "RuntimeFaultCode \<Rightarrow> bool" where
  "named_RuntimeFaultCode x \<longleftrightarrow> (case x of RuntimeFaultCode_raw c \<Rightarrow> False | _ \<Rightarrow> True)"

lemma RuntimeFaultCode_roundtrip [simp]: "named_RuntimeFaultCode x \<Longrightarrow> RuntimeFaultCode_of_code (RuntimeFaultCode_code x) = x"
  by (cases x) (simp_all add: named_RuntimeFaultCode_def RuntimeFaultCode_of_code_def)

lemma RuntimeFaultCode_code_of_code [simp]: "RuntimeFaultCode_code (RuntimeFaultCode_of_code c) = c"
  by (simp add: RuntimeFaultCode_of_code_def)

lemma named_RuntimeFaultCode_of_code: "named_RuntimeFaultCode (RuntimeFaultCode_of_code c) \<longleftrightarrow> c < 10"
  unfolding named_RuntimeFaultCode_def RuntimeFaultCode_of_code_def by (auto simp: word_less_nat_alt word_unat_eq_iff)

datatype RuntimeExitStatus = Ok | ConfigError | InterfaceError | PermissionError | WorkerFailure | Unknown

fun RuntimeExitStatus_to_string :: "RuntimeExitStatus \<Rightarrow> string" where
  "RuntimeExitStatus_to_string RuntimeExitStatus.Ok = ''OK''"
| "RuntimeExitStatus_to_string RuntimeExitStatus.ConfigError = ''CONFIG_ERROR''"
| "RuntimeExitStatus_to_string RuntimeExitStatus.InterfaceError = ''INTERFACE_ERROR''"
| "RuntimeExitStatus_to_string RuntimeExitStatus.PermissionError = ''PERMISSION_ERROR''"
| "RuntimeExitStatus_to_string RuntimeExitStatus.WorkerFailure = ''WORKER_FAILURE''"
| "RuntimeExitStatus_to_string RuntimeExitStatus.Unknown = ''UNKNOWN''"

datatype OutputApplyResult = Applied | StaleSequence | SessionMismatch | Expired | InvalidMask | NotReady | Unknown | OutputApplyResult_raw u8

fun OutputApplyResult_to_string :: "OutputApplyResult \<Rightarrow> string" where
  "OutputApplyResult_to_string OutputApplyResult.Applied = ''APPLIED''"
| "OutputApplyResult_to_string OutputApplyResult.StaleSequence = ''STALE_SEQUENCE''"
| "OutputApplyResult_to_string OutputApplyResult.SessionMismatch = ''SESSION_MISMATCH''"
| "OutputApplyResult_to_string OutputApplyResult.Expired = ''EXPIRED''"
| "OutputApplyResult_to_string OutputApplyResult.InvalidMask = ''INVALID_MASK''"
| "OutputApplyResult_to_string OutputApplyResult.NotReady = ''NOT_READY''"
| "OutputApplyResult_to_string OutputApplyResult.Unknown = ''UNKNOWN''"
| "OutputApplyResult_to_string (OutputApplyResult_raw c) = ''UNKNOWN''"

fun OutputApplyResult_code :: "OutputApplyResult \<Rightarrow> u8" where
  "OutputApplyResult_code OutputApplyResult.Applied = 0"
| "OutputApplyResult_code OutputApplyResult.StaleSequence = 1"
| "OutputApplyResult_code OutputApplyResult.SessionMismatch = 2"
| "OutputApplyResult_code OutputApplyResult.Expired = 3"
| "OutputApplyResult_code OutputApplyResult.InvalidMask = 4"
| "OutputApplyResult_code OutputApplyResult.NotReady = 5"
| "OutputApplyResult_code OutputApplyResult.Unknown = 6"
| "OutputApplyResult_code (OutputApplyResult_raw c) = c"

definition OutputApplyResult_of_code :: "u8 \<Rightarrow> OutputApplyResult" where
  "OutputApplyResult_of_code c =
     (if c = 0 then OutputApplyResult.Applied
      else if c = 1 then OutputApplyResult.StaleSequence
      else if c = 2 then OutputApplyResult.SessionMismatch
      else if c = 3 then OutputApplyResult.Expired
      else if c = 4 then OutputApplyResult.InvalidMask
      else if c = 5 then OutputApplyResult.NotReady
      else if c = 6 then OutputApplyResult.Unknown
      else OutputApplyResult_raw c)"

definition named_OutputApplyResult :: "OutputApplyResult \<Rightarrow> bool" where
  "named_OutputApplyResult x \<longleftrightarrow> (case x of OutputApplyResult_raw c \<Rightarrow> False | _ \<Rightarrow> True)"

lemma OutputApplyResult_roundtrip [simp]: "named_OutputApplyResult x \<Longrightarrow> OutputApplyResult_of_code (OutputApplyResult_code x) = x"
  by (cases x) (simp_all add: named_OutputApplyResult_def OutputApplyResult_of_code_def)

lemma OutputApplyResult_code_of_code [simp]: "OutputApplyResult_code (OutputApplyResult_of_code c) = c"
  by (simp add: OutputApplyResult_of_code_def)

lemma named_OutputApplyResult_of_code: "named_OutputApplyResult (OutputApplyResult_of_code c) \<longleftrightarrow> c < 7"
  unfolding named_OutputApplyResult_def OutputApplyResult_of_code_def by (auto simp: word_less_nat_alt word_unat_eq_iff)

datatype CommunicationStopReason = NoReason | EventFd | Signal | IoError | SendFailure | Unknown

fun CommunicationStopReason_to_string :: "CommunicationStopReason \<Rightarrow> string" where
  "CommunicationStopReason_to_string CommunicationStopReason.NoReason = ''NONE''"
| "CommunicationStopReason_to_string CommunicationStopReason.EventFd = ''EVENTFD''"
| "CommunicationStopReason_to_string CommunicationStopReason.Signal = ''SIGNAL''"
| "CommunicationStopReason_to_string CommunicationStopReason.IoError = ''IO_ERROR''"
| "CommunicationStopReason_to_string CommunicationStopReason.SendFailure = ''SEND_FAILURE''"
| "CommunicationStopReason_to_string CommunicationStopReason.Unknown = ''UNKNOWN''"

section \<open>Snapshots\<close>

record DiagnosticEvent =
  de_observed_monotonic_ns :: i64
  de_source :: DiagnosticSource
  de_severity :: DiagnosticSeverity
  de_code :: string
  de_message :: string
  de_device_id :: string
  de_run_id :: string
  de_context :: string

record RuntimeStateView =
  rs_started :: bool
  rs_stopping :: bool
  rs_scheduler_running :: bool
  rs_interlock_ready :: bool
  rs_mode :: RuntimeModeCode
  rs_fault :: RuntimeFaultCode
  rs_exit_status :: RuntimeExitStatus

record TimingSnapshot =
  ts_target_period_ns :: i64
  ts_cycles :: u64
  ts_deadline_misses :: u64
  ts_min_lateness_ns :: i64
  ts_mean_lateness_ns :: i64
  ts_max_lateness_ns :: i64
  ts_fifo_enabled :: bool
  ts_fifo_error :: int
  ts_affinity_enabled :: bool
  ts_affinity_error :: int
  ts_worker_error :: int

record CommunicationView =
  cv_backend :: string
  cv_interface_name :: string
  cv_evidence :: EvidenceClass
  cv_frames_received :: u64
  cv_frames_sent :: u64
  cv_decode_rejects :: u64
  cv_queue_rejects :: u64
  cv_send_would_block_retries :: u64
  cv_wakeups :: u64
  cv_input_queue_capacity :: nat
  cv_input_queue_size :: nat
  cv_input_queue_drop_count :: u64
  cv_input_queue_overflow_latched :: bool
  cv_stop_reason :: CommunicationStopReason
  cv_last_errno :: int

record DeviceView =
  dv_device_id :: string
  dv_node_id :: u8
  dv_ever_seen :: bool
  dv_online :: bool
  dv_restart_latched :: bool
  dv_overflow_fault_latched :: bool
  dv_comm_loss_latched :: bool
  dv_boot_id :: u16
  dv_session_id :: u16
  dv_last_heartbeat_sequence :: u16
  dv_device_fault_code :: u16
  dv_input_bits :: u16
  dv_last_output_mirror :: u8
  dv_heartbeat_age_ns :: i64
  dv_heartbeats :: u64
  dv_status_updates :: u64
  dv_protocol_rejects :: u64

record OutputFeedbackView =
  of_ack_pending :: bool
  of_last_sent_session :: u16
  of_last_sent_sequence :: u16
  of_last_sent_time_ns :: i64
  of_last_ack_session :: u16
  of_last_ack_sequence :: u16
  of_last_ack_result :: OutputApplyResult
  of_last_ack_time_ns :: i64
  of_ack_timeout_count :: u64
  of_unexpected_ack_count :: u64

record RuntimeTelemetrySnapshot =
  tm_observed_monotonic_ns :: i64
  tm_runtime :: RuntimeStateView
  tm_timing :: TimingSnapshot
  tm_communication :: CommunicationView
  tm_device :: DeviceView
  tm_output :: OutputFeedbackView
  tm_position_reached :: bool
  tm_cell_ready :: bool
  tm_cell_modbus_online :: bool
  tm_cell_ready_do0_requested :: bool
  tm_cell_ready_do0_confirmed :: bool
  tm_cell_ready_do0_status :: u8
  tm_diagnostics :: "DiagnosticEvent list"

text \<open>The values a default-constructed snapshot starts with.\<close>

definition runtime_state_default :: RuntimeStateView where
  "runtime_state_default =
     \<lparr>rs_started = False, rs_stopping = False, rs_scheduler_running = False, rs_interlock_ready = False,
      rs_mode = RuntimeModeCode.Disabled, rs_fault = RuntimeFaultCode.NoFault,
      rs_exit_status = RuntimeExitStatus.Ok\<rparr>"

definition timing_default :: TimingSnapshot where
  "timing_default =
     \<lparr>ts_target_period_ns = 0, ts_cycles = 0, ts_deadline_misses = 0, ts_min_lateness_ns = 0,
      ts_mean_lateness_ns = 0, ts_max_lateness_ns = 0, ts_fifo_enabled = False, ts_fifo_error = 0,
      ts_affinity_enabled = False, ts_affinity_error = 0, ts_worker_error = 0\<rparr>"

definition communication_default :: CommunicationView where
  "communication_default =
     \<lparr>cv_backend = [], cv_interface_name = [], cv_evidence = EvidenceClass.Unspecified,
      cv_frames_received = 0, cv_frames_sent = 0, cv_decode_rejects = 0, cv_queue_rejects = 0,
      cv_send_would_block_retries = 0, cv_wakeups = 0, cv_input_queue_capacity = 0,
      cv_input_queue_size = 0, cv_input_queue_drop_count = 0, cv_input_queue_overflow_latched = False,
      cv_stop_reason = CommunicationStopReason.NoReason, cv_last_errno = 0\<rparr>"

definition device_default :: DeviceView where
  "device_default =
     \<lparr>dv_device_id = [], dv_node_id = 0, dv_ever_seen = False, dv_online = False,
      dv_restart_latched = False, dv_overflow_fault_latched = False, dv_comm_loss_latched = False,
      dv_boot_id = 0, dv_session_id = 0, dv_last_heartbeat_sequence = 0, dv_device_fault_code = 0,
      dv_input_bits = 0, dv_last_output_mirror = 0, dv_heartbeat_age_ns = -1, dv_heartbeats = 0,
      dv_status_updates = 0, dv_protocol_rejects = 0\<rparr>"

definition output_feedback_default :: OutputFeedbackView where
  "output_feedback_default =
     \<lparr>of_ack_pending = False, of_last_sent_session = 0, of_last_sent_sequence = 0,
      of_last_sent_time_ns = 0, of_last_ack_session = 0, of_last_ack_sequence = 0,
      of_last_ack_result = OutputApplyResult.Applied, of_last_ack_time_ns = 0,
      of_ack_timeout_count = 0, of_unexpected_ack_count = 0\<rparr>"

definition telemetry_default :: RuntimeTelemetrySnapshot where
  "telemetry_default =
     \<lparr>tm_observed_monotonic_ns = -1, tm_runtime = runtime_state_default, tm_timing = timing_default,
      tm_communication = communication_default, tm_device = device_default,
      tm_output = output_feedback_default, tm_position_reached = False, tm_cell_ready = False,
      tm_cell_modbus_online = False, tm_cell_ready_do0_requested = False,
      tm_cell_ready_do0_confirmed = False, tm_cell_ready_do0_status = 0, tm_diagnostics = []\<rparr>"

record DigitalOutputRequest =
  dr_session_id :: u64
  dr_sequence :: u64
  dr_valid_for_ms :: u32
  dr_mask :: u32
  dr_values :: u32

record CommandReply =
  cr_status :: CommandStatus
  cr_from_state :: RuntimeModeCode
  cr_to_state :: RuntimeModeCode
  cr_message :: string

definition cr_accepted :: "CommandReply \<Rightarrow> bool" where
  "cr_accepted r \<longleftrightarrow> cr_status r = CommandStatus.Accepted"

section \<open>Characters and decimal rendering\<close>

text \<open>\<^verbatim>\<open>std::to_string\<close> on unsigned and signed integers, and the byte of a character.\<close>

fun nat_to_string :: "nat \<Rightarrow> string" where
  "nat_to_string n =
     (if n < 10 then [char_of (48 + n)] else nat_to_string (n div 10) @ [char_of (48 + n mod 10)])"

declare nat_to_string.simps [simp del]

definition int_to_string :: "int \<Rightarrow> string" where
  "int_to_string i = (if i < 0 then CHR ''-'' # nat_to_string (nat (- i)) else nat_to_string (nat i))"

definition char_u8 :: "char \<Rightarrow> u8" where "char_u8 c = of_nat (of_char c)"
definition u8_char :: "u8 \<Rightarrow> char" where "u8_char b = char_of (unat b)"

lemma u8_char_u8 [simp]: "u8_char (char_u8 c) = c"
proof -
  have "(of_char c :: nat) < 256" by simp
  then have "unat (of_nat (of_char c) :: u8) = of_char c" by (simp add: unat_of_nat)
  then show ?thesis by (simp add: u8_char_def char_u8_def)
qed

lemma map_u8_char_u8 [simp]: "map (u8_char \<circ> char_u8) s = s" "map (\<lambda>c. u8_char (char_u8 c)) s = s"
  by (simp_all add: map_idI)

lemma char_u8_inj: "char_u8 a = char_u8 b \<longleftrightarrow> a = b"
  by (metis u8_char_u8)

end
