(* ===== verification/Remote_Frame.thy ===== *)
theory Remote_Frame
  imports Frame_Stream App_Model
begin

text \<open>
  Remote control frames of \<^verbatim>\<open>linux/src/workbench/application/remote_frame.cpp\<close>: the
  encoder and the streaming parser with its bounded receive buffer. The parser
  is an instance of \<open>frame_stream\<close>; the lemmas add what is special to it, the
  behaviour on damaged input (every call that does not ask for more consumes at
  least one byte, so a caller that keeps popping always gets through) and the
  capacity bound.
\<close>

definition kRemoteFrameMagic :: u32 where "kRemoteFrameMagic = 0x42524352"
definition kRemoteProtocolVersion :: u8 where "kRemoteProtocolVersion = 1"
definition kRemoteFrameHeaderSize :: nat where "kRemoteFrameHeaderSize = 12"
definition kRemoteFrameCrcSize :: nat where "kRemoteFrameCrcSize = 2"
definition kRemoteMaxPayloadSize :: nat where "kRemoteMaxPayloadSize = 512"
definition kRemoteMaxFrameSize :: nat where
  "kRemoteMaxFrameSize = kRemoteFrameHeaderSize + kRemoteMaxPayloadSize + kRemoteFrameCrcSize"
definition kRemoteRxBufferCapacity :: nat where "kRemoteRxBufferCapacity = kRemoteMaxFrameSize * 2"

lemmas remote_consts = kRemoteFrameMagic_def kRemoteProtocolVersion_def kRemoteFrameHeaderSize_def
  kRemoteFrameCrcSize_def kRemoteMaxPayloadSize_def kRemoteMaxFrameSize_def kRemoteRxBufferCapacity_def

section \<open>Frames and parser states\<close>

datatype RemoteMessageType = Hello | HelloAck | Heartbeat | HeartbeatAck | GetStatus | Status | Error | RemoteMessageType_raw u8

fun RemoteMessageType_to_string :: "RemoteMessageType \<Rightarrow> string" where
  "RemoteMessageType_to_string RemoteMessageType.Hello = ''HELLO''"
| "RemoteMessageType_to_string RemoteMessageType.HelloAck = ''HELLO_ACK''"
| "RemoteMessageType_to_string RemoteMessageType.Heartbeat = ''HEARTBEAT''"
| "RemoteMessageType_to_string RemoteMessageType.HeartbeatAck = ''HEARTBEAT_ACK''"
| "RemoteMessageType_to_string RemoteMessageType.GetStatus = ''GET_STATUS''"
| "RemoteMessageType_to_string RemoteMessageType.Status = ''STATUS''"
| "RemoteMessageType_to_string RemoteMessageType.Error = ''ERROR''"
| "RemoteMessageType_to_string (RemoteMessageType_raw c) = ''UNKNOWN''"

fun RemoteMessageType_code :: "RemoteMessageType \<Rightarrow> u8" where
  "RemoteMessageType_code RemoteMessageType.Hello = 1"
| "RemoteMessageType_code RemoteMessageType.HelloAck = 2"
| "RemoteMessageType_code RemoteMessageType.Heartbeat = 3"
| "RemoteMessageType_code RemoteMessageType.HeartbeatAck = 4"
| "RemoteMessageType_code RemoteMessageType.GetStatus = 5"
| "RemoteMessageType_code RemoteMessageType.Status = 6"
| "RemoteMessageType_code RemoteMessageType.Error = 7"
| "RemoteMessageType_code (RemoteMessageType_raw c) = c"

definition RemoteMessageType_of_code :: "u8 \<Rightarrow> RemoteMessageType" where
  "RemoteMessageType_of_code c =
     (if c = 1 then RemoteMessageType.Hello
      else if c = 2 then RemoteMessageType.HelloAck
      else if c = 3 then RemoteMessageType.Heartbeat
      else if c = 4 then RemoteMessageType.HeartbeatAck
      else if c = 5 then RemoteMessageType.GetStatus
      else if c = 6 then RemoteMessageType.Status
      else if c = 7 then RemoteMessageType.Error
      else RemoteMessageType_raw c)"

definition named_RemoteMessageType :: "RemoteMessageType \<Rightarrow> bool" where
  "named_RemoteMessageType x \<longleftrightarrow> (case x of RemoteMessageType_raw c \<Rightarrow> False | _ \<Rightarrow> True)"

lemma RemoteMessageType_roundtrip [simp]: "named_RemoteMessageType x \<Longrightarrow> RemoteMessageType_of_code (RemoteMessageType_code x) = x"
  by (cases x) (simp_all add: named_RemoteMessageType_def RemoteMessageType_of_code_def)

lemma RemoteMessageType_code_of_code [simp]: "RemoteMessageType_code (RemoteMessageType_of_code c) = c"
  by (simp add: RemoteMessageType_of_code_def)

datatype RemoteFrameParseStatus = NeedMore | Ok | InvalidMagic | UnsupportedVersion | OversizePayload | BadCrc | BufferOverflow

fun RemoteFrameParseStatus_to_string :: "RemoteFrameParseStatus \<Rightarrow> string" where
  "RemoteFrameParseStatus_to_string RemoteFrameParseStatus.NeedMore = ''NEED_MORE''"
| "RemoteFrameParseStatus_to_string RemoteFrameParseStatus.Ok = ''OK''"
| "RemoteFrameParseStatus_to_string RemoteFrameParseStatus.InvalidMagic = ''INVALID_MAGIC''"
| "RemoteFrameParseStatus_to_string RemoteFrameParseStatus.UnsupportedVersion = ''UNSUPPORTED_VERSION''"
| "RemoteFrameParseStatus_to_string RemoteFrameParseStatus.OversizePayload = ''OVERSIZE_PAYLOAD''"
| "RemoteFrameParseStatus_to_string RemoteFrameParseStatus.BadCrc = ''BAD_CRC''"
| "RemoteFrameParseStatus_to_string RemoteFrameParseStatus.BufferOverflow = ''BUFFER_OVERFLOW''"

record RemoteFrame =
  rf_version :: u8
  rf_type :: RemoteMessageType
  rf_flags :: u8
  rf_sequence :: u16
  rf_payload :: "u8 list"

record RemoteFrameParser =
  rp_buffer :: "u8 list"

definition rf_default :: RemoteFrame where
  "rf_default = \<lparr>rf_version = kRemoteProtocolVersion, rf_type = RemoteMessageType.Error, rf_flags = 0,
     rf_sequence = 0, rf_payload = []\<rparr>"

definition rp_init :: RemoteFrameParser where
  "rp_init = \<lparr>rp_buffer = []\<rparr>"

section \<open>Encoder\<close>

definition encode_remote_frame :: "RemoteFrame \<Rightarrow> u8 list \<Rightarrow> u8 list \<times> bool" where
  "encode_remote_frame frame out =
     (if length (rf_payload frame) > kRemoteMaxPayloadSize then (out, False)
      else if rf_version frame \<noteq> kRemoteProtocolVersion then (out, False)
      else
        let start = length out;
            o1 = append_u32_le out kRemoteFrameMagic;
            o2 = o1 @ [rf_version frame];
            o3 = o2 @ [RemoteMessageType_code (rf_type frame)];
            o4 = o3 @ [rf_flags frame];
            o5 = o4 @ [0];
            o6 = append_u16_le o5 (rf_sequence frame);
            o7 = append_u16_le o6 (of_nat (length (rf_payload frame)));
            o8 = o7 @ rf_payload frame;
            crc = remote_crc16 (drop start o8)
        in (append_u16_le o8 crc, True))"

section \<open>Streaming parser\<close>

definition rp_append :: "u8 list \<Rightarrow> RemoteFrameParser \<Rightarrow> RemoteFrameParser \<times> RemoteFrameParseStatus" where
  "rp_append bytes p =
     (if bytes = [] then (p, RemoteFrameParseStatus.NeedMore)
      else if length (rp_buffer p) + length bytes > kRemoteRxBufferCapacity then
        (p\<lparr>rp_buffer := []\<rparr>, RemoteFrameParseStatus.BufferOverflow)
      else (p\<lparr>rp_buffer := rp_buffer p @ bytes\<rparr>, RemoteFrameParseStatus.NeedMore))"

definition rp_try_pop ::
  "RemoteFrameParser \<Rightarrow> RemoteFrame \<Rightarrow> RemoteFrameParser \<times> RemoteFrame \<times> RemoteFrameParseStatus" where
  "rp_try_pop p frame =
     (let data = rp_buffer p;
          erase = (\<lambda>n. p\<lparr>rp_buffer := drop n data\<rparr>)
      in if length data < kRemoteFrameHeaderSize then (p, frame, RemoteFrameParseStatus.NeedMore)
         else if read_u32_le data 0 \<noteq> kRemoteFrameMagic then
           (erase 1, frame, RemoteFrameParseStatus.InvalidMagic)
         else if data ! 4 \<noteq> kRemoteProtocolVersion then
           (erase kRemoteFrameHeaderSize, frame, RemoteFrameParseStatus.UnsupportedVersion)
         else
           let payload_len = unat (read_u16_le data 10)
           in if payload_len > kRemoteMaxPayloadSize then
                (erase kRemoteFrameHeaderSize, frame, RemoteFrameParseStatus.OversizePayload)
              else
                let frame_len = kRemoteFrameHeaderSize + payload_len + kRemoteFrameCrcSize
                in if length data < frame_len then (p, frame, RemoteFrameParseStatus.NeedMore)
                   else if remote_crc16 (take (kRemoteFrameHeaderSize + payload_len) data) \<noteq>
                           read_u16_le data (kRemoteFrameHeaderSize + payload_len) then
                     (erase frame_len, frame, RemoteFrameParseStatus.BadCrc)
                   else (erase frame_len,
                         \<lparr>rf_version = data ! 4, rf_type = RemoteMessageType_of_code (data ! 5),
                          rf_flags = data ! 6, rf_sequence = read_u16_le data 8,
                          rf_payload = take payload_len (drop kRemoteFrameHeaderSize data)\<rparr>,
                         RemoteFrameParseStatus.Ok))"

definition rp_clear :: "RemoteFrameParser \<Rightarrow> RemoteFrameParser" where
  "rp_clear p = p\<lparr>rp_buffer := []\<rparr>"

section \<open>The parser inverts the encoder\<close>

text \<open>A frame the encoder can carry: the type is the one its byte decodes to.\<close>

definition canonical_type :: "RemoteMessageType \<Rightarrow> bool" where
  "canonical_type t \<longleftrightarrow> RemoteMessageType_of_code (RemoteMessageType_code t) = t"

lemma named_canonical [simp]: "named_RemoteMessageType t \<Longrightarrow> canonical_type t"
  by (simp add: canonical_type_def)

definition remote_wire :: "RemoteFrame \<Rightarrow> u8 list" where
  "remote_wire f =
     envelope kRemoteFrameMagic (rf_version f) (RemoteMessageType_code (rf_type f)) (rf_flags f) 0
       (rf_sequence f) (rf_payload f)"

definition remote_sendable :: "RemoteFrame \<Rightarrow> bool" where
  "remote_sendable f \<longleftrightarrow> length (rf_payload f) \<le> kRemoteMaxPayloadSize \<and> rf_version f = kRemoteProtocolVersion"

lemma encode_remote_frame_eq:
  "encode_remote_frame f out = (if remote_sendable f then (out @ remote_wire f, True) else (out, False))"
  by (simp add: encode_remote_frame_def remote_sendable_def remote_wire_def envelope_def envelope_header_def
      Let_def append_le_eq remote_crc16_eq)

definition remote_enc :: "RemoteFrame \<Rightarrow> u8 list option" where
  "remote_enc f = (if remote_sendable f \<and> canonical_type (rf_type f) then Some (remote_wire f) else None)"

definition remote_pop :: "u8 list \<Rightarrow> RemoteFrame pop" where
  "remote_pop buf =
     (case rp_try_pop \<lparr>rp_buffer = buf\<rparr> rf_default of (p, f, st) \<Rightarrow>
        (if st = RemoteFrameParseStatus.NeedMore then pop.NeedMore
         else if st = RemoteFrameParseStatus.Ok then Popped f (rp_buffer p) else Broken))"

lemma remote_len: "remote_sendable f \<Longrightarrow> unat (of_nat (length (rf_payload f)) :: u16) = length (rf_payload f)"
  by (simp add: remote_sendable_def remote_consts unat_length_u16)

lemma remote_pop_wire:
  assumes "remote_sendable f" and "canonical_type (rf_type f)"
  shows "rp_try_pop \<lparr>rp_buffer = remote_wire f @ rest\<rparr> g = (\<lparr>rp_buffer = rest\<rparr>, f, RemoteFrameParseStatus.Ok)"
proof -
  let ?b = "remote_wire f @ rest"
  have h: "take 12 ?b = envelope_header kRemoteFrameMagic (rf_version f) (RemoteMessageType_code (rf_type f))
      (rf_flags f) 0 (rf_sequence f) (of_nat (length (rf_payload f)))"
    unfolding remote_wire_def by (rule envelope_take_header)
  have len: "length ?b = 14 + length (rf_payload f) + length rest" by (simp add: remote_wire_def)
  have n: "unat (of_nat (length (rf_payload f)) :: u16) = length (rf_payload f)"
    using assms(1) by (rule remote_len)
  have crc: "read_u16_le ?b (12 + length (rf_payload f)) = modbus_rtu_crc16 (take (12 + length (rf_payload f)) ?b)"
    unfolding remote_wire_def by (rule envelope_crc)
  have p: "take (length (rf_payload f)) (drop 12 ?b) = rf_payload f" "drop (14 + length (rf_payload f)) ?b = rest"
    unfolding remote_wire_def by (rule envelope_payload)+
  have p': "drop (12 + length (rf_payload f) + 2) ?b = rest" using p(2) by (simp add: add.commute add.left_commute)
  show ?thesis
    unfolding rp_try_pop_def Let_def RemoteFrameParser.simps header_fields [OF h] header_bytes [OF h] n
      kRemoteFrameHeaderSize_def kRemoteFrameCrcSize_def crc p p' remote_crc16_eq
    using assms len by (simp add: remote_sendable_def canonical_type_def)
qed

lemma remote_pop_prefix:
  assumes "remote_sendable f" and "strict_prefix b (remote_wire f)"
  shows "rp_try_pop \<lparr>rp_buffer = b\<rparr> g = (\<lparr>rp_buffer = b\<rparr>, g, RemoteFrameParseStatus.NeedMore)"
proof (cases "length b < 12")
  case False
  then have "12 \<le> length b" by simp
  have h: "take 12 b = envelope_header kRemoteFrameMagic (rf_version f) (RemoteMessageType_code (rf_type f))
      (rf_flags f) 0 (rf_sequence f) (of_nat (length (rf_payload f)))"
    using envelope_prefix_header [OF assms(2) [unfolded remote_wire_def] \<open>12 \<le> length b\<close>] .
  have len: "length b < 14 + length (rf_payload f)"
    using prefix_length_less [OF assms(2)] by (simp add: remote_wire_def)
  have n: "unat (of_nat (length (rf_payload f)) :: u16) = length (rf_payload f)"
    using assms(1) by (rule remote_len)
  show ?thesis
    unfolding rp_try_pop_def Let_def RemoteFrameParser.simps header_fields [OF h] header_bytes [OF h] n
      kRemoteFrameHeaderSize_def kRemoteFrameCrcSize_def
    using assms(1) len by (simp add: remote_sendable_def)
qed (simp add: rp_try_pop_def kRemoteFrameHeaderSize_def)

interpretation rfs: frame_stream remote_enc remote_pop
proof
  show "remote_pop [] = pop.NeedMore" by (simp add: remote_pop_def rp_try_pop_def kRemoteFrameHeaderSize_def)
next
  fix f w assume "remote_enc f = Some w"
  then have f: "remote_sendable f" "canonical_type (rf_type f)" "w = remote_wire f"
    by (auto simp: remote_enc_def split: if_splits)
  then show "w \<noteq> []" by (auto simp: remote_wire_def dest: arg_cong [of _ _ length])
  show "remote_pop (w @ rest) = Popped f rest" for rest
    using remote_pop_wire [OF f(1,2)] f(3) by (simp add: remote_pop_def)
  show "strict_prefix p w \<Longrightarrow> remote_pop p = pop.NeedMore" for p
    using remote_pop_prefix [OF f(1)] f(3) by (simp add: remote_pop_def)
qed

section \<open>Damaged input\<close>

lemma rp_try_pop_progress:
  assumes "rp_try_pop p g = (p', f, st)"
  shows "(st = RemoteFrameParseStatus.NeedMore \<longrightarrow> p' = p) \<and>
         (st \<noteq> RemoteFrameParseStatus.NeedMore \<longrightarrow> length (rp_buffer p') < length (rp_buffer p)) \<and>
         st \<noteq> RemoteFrameParseStatus.BufferOverflow"
  using assms by (auto simp: rp_try_pop_def Let_def kRemoteFrameHeaderSize_def kRemoteFrameCrcSize_def split: if_splits)

lemma rp_append_bound:
  "length (rp_buffer p) \<le> kRemoteRxBufferCapacity \<Longrightarrow> length (rp_buffer (fst (rp_append bytes p))) \<le> kRemoteRxBufferCapacity"
  by (simp add: rp_append_def)

lemma rp_try_pop_accepts:
  assumes "rp_try_pop p g = (p', f, RemoteFrameParseStatus.Ok)"
  shows "remote_sendable f \<and> rf_version f = kRemoteProtocolVersion \<and> canonical_type (rf_type f)"
  using assms by (auto simp: rp_try_pop_def Let_def remote_sendable_def canonical_type_def min_def split: if_splits)

end
