(* ===== verification/Remote_Control.thy ===== *)
theory Remote_Control
  imports Remote_Frame
begin

text \<open>
  Remote control plane of \<^verbatim>\<open>linux/src/workbench/application/remote_control_protocol.cpp\<close>:
  the status view and its fixed 64-byte wire form, and the endpoint that feeds
  received bytes to the parser and answers HELLO, HEARTBEAT and GET_STATUS. The
  lemmas show the status round trip, that the endpoint's loop over the parser
  terminates, that the reply stream does not depend on how the request stream
  was cut into reads, and that only a HELLO opens a session.
\<close>

definition kRemoteStatusWireSize :: nat where "kRemoteStatusWireSize = 64"
definition kRemoteLoopbackEvidenceTag :: string where "kRemoteLoopbackEvidenceTag = ''LOOPBACK''"

section \<open>Status view\<close>

record RemoteStatusView =
  sv_observed_monotonic_ns :: i64
  sv_mode :: RuntimeModeCode
  sv_fault :: RuntimeFaultCode
  sv_started :: bool
  sv_online :: bool
  sv_session_id :: u16
  sv_last_heartbeat_sequence :: u16
  sv_heartbeat_age_ns :: i64
  sv_frames_received :: u64
  sv_frames_sent :: u64
  sv_decode_rejects :: u64
  sv_input_queue_drop_count :: u64
  sv_evidence :: EvidenceClass

definition status_view_default :: RemoteStatusView where
  "status_view_default =
     \<lparr>sv_observed_monotonic_ns = -1, sv_mode = RuntimeModeCode.Unknown, sv_fault = RuntimeFaultCode.NoFault,
      sv_started = False, sv_online = False, sv_session_id = 0, sv_last_heartbeat_sequence = 0,
      sv_heartbeat_age_ns = -1, sv_frames_received = 0, sv_frames_sent = 0, sv_decode_rejects = 0,
      sv_input_queue_drop_count = 0, sv_evidence = EvidenceClass.Loopback\<rparr>"

definition project_remote_status :: "RuntimeTelemetrySnapshot \<Rightarrow> RemoteStatusView" where
  "project_remote_status snapshot =
     \<lparr>sv_observed_monotonic_ns = tm_observed_monotonic_ns snapshot,
      sv_mode = rs_mode (tm_runtime snapshot),
      sv_fault = rs_fault (tm_runtime snapshot),
      sv_started = rs_started (tm_runtime snapshot),
      sv_online = dv_online (tm_device snapshot),
      sv_session_id = dv_session_id (tm_device snapshot),
      sv_last_heartbeat_sequence = dv_last_heartbeat_sequence (tm_device snapshot),
      sv_heartbeat_age_ns = dv_heartbeat_age_ns (tm_device snapshot),
      sv_frames_received = cv_frames_received (tm_communication snapshot),
      sv_frames_sent = cv_frames_sent (tm_communication snapshot),
      sv_decode_rejects = cv_decode_rejects (tm_communication snapshot),
      sv_input_queue_drop_count = cv_input_queue_drop_count (tm_communication snapshot),
      sv_evidence = (if cv_evidence (tm_communication snapshot) = EvidenceClass.Unspecified
                     then EvidenceClass.Loopback else cv_evidence (tm_communication snapshot))\<rparr>"

definition encode_remote_status_payload :: "RemoteStatusView \<Rightarrow> u8 list \<times> bool" where
  "encode_remote_status_payload status =
     (let o1 = append_i64_le [] (sv_observed_monotonic_ns status);
          o2 = o1 @ [RuntimeModeCode_code (sv_mode status)];
          o3 = o2 @ [RuntimeFaultCode_code (sv_fault status)];
          o4 = o3 @ [bool_byte (sv_started status)];
          o5 = o4 @ [bool_byte (sv_online status)];
          o6 = append_u16_le o5 (sv_session_id status);
          o7 = append_u16_le o6 (sv_last_heartbeat_sequence status);
          o8 = append_i64_le o7 (sv_heartbeat_age_ns status);
          o9 = append_u64_le o8 (sv_frames_received status);
          o10 = append_u64_le o9 (sv_frames_sent status);
          o11 = append_u64_le o10 (sv_decode_rejects status);
          o12 = append_u64_le o11 (sv_input_queue_drop_count status);
          o13 = o12 @ [EvidenceClass_code (sv_evidence status)];
          o14 = pad_to kRemoteStatusWireSize o13
      in (o14, length o14 = kRemoteStatusWireSize))"

definition decode_remote_status_payload :: "u8 list \<Rightarrow> RemoteStatusView option" where
  "decode_remote_status_payload p =
     (if length p \<noteq> kRemoteStatusWireSize then None
      else Some
        \<lparr>sv_observed_monotonic_ns = read_i64_le p 0,
         sv_mode = RuntimeModeCode_of_code (p ! 8),
         sv_fault = RuntimeFaultCode_of_code (p ! 9),
         sv_started = (p ! 10 \<noteq> 0),
         sv_online = (p ! 11 \<noteq> 0),
         sv_session_id = read_u16_le p 12,
         sv_last_heartbeat_sequence = read_u16_le p 14,
         sv_heartbeat_age_ns = read_i64_le p 16,
         sv_frames_received = read_u64_le p 24,
         sv_frames_sent = read_u64_le p 32,
         sv_decode_rejects = read_u64_le p 40,
         sv_input_queue_drop_count = read_u64_le p 48,
         sv_evidence = EvidenceClass_of_code (p ! 56)\<rparr>)"

section \<open>Endpoint\<close>

datatype RemoteSessionState = WaitingHello | Established | Faulted

fun RemoteSessionState_to_string :: "RemoteSessionState \<Rightarrow> string" where
  "RemoteSessionState_to_string RemoteSessionState.WaitingHello = ''WAITING_HELLO''"
| "RemoteSessionState_to_string RemoteSessionState.Established = ''ESTABLISHED''"
| "RemoteSessionState_to_string RemoteSessionState.Faulted = ''FAULTED''"

record RemoteEndpointCounters =
  ec_frames_accepted :: u64
  ec_frames_rejected :: u64
  ec_hellos :: u64
  ec_heartbeats :: u64
  ec_status_replies :: u64
  ec_malformed :: u64

definition counters_zero :: RemoteEndpointCounters where
  "counters_zero = \<lparr>ec_frames_accepted = 0, ec_frames_rejected = 0, ec_hellos = 0, ec_heartbeats = 0,
     ec_status_replies = 0, ec_malformed = 0\<rparr>"

record RemoteControlEndpoint =
  ep_status :: RemoteStatusView
  ep_parser :: RemoteFrameParser
  ep_session_state :: RemoteSessionState
  ep_counters :: RemoteEndpointCounters
  ep_heartbeat_replies_enabled :: bool
  ep_last_error :: string

definition ep_init :: RemoteControlEndpoint where
  "ep_init = \<lparr>ep_status = status_view_default, ep_parser = rp_init,
     ep_session_state = RemoteSessionState.WaitingHello, ep_counters = counters_zero,
     ep_heartbeat_replies_enabled = True, ep_last_error = []\<rparr>"

definition ep_set_status :: "RemoteStatusView \<Rightarrow> RemoteControlEndpoint \<Rightarrow> RemoteControlEndpoint" where
  "ep_set_status status e = e\<lparr>ep_status := status\<rparr>"

definition ep_set_heartbeat_replies :: "bool \<Rightarrow> RemoteControlEndpoint \<Rightarrow> RemoteControlEndpoint" where
  "ep_set_heartbeat_replies enabled e = e\<lparr>ep_heartbeat_replies_enabled := enabled\<rparr>"

definition ep_reset_session :: "RemoteControlEndpoint \<Rightarrow> RemoteControlEndpoint" where
  "ep_reset_session e = e\<lparr>ep_parser := rp_clear (ep_parser e), ep_session_state := RemoteSessionState.WaitingHello,
     ep_counters := counters_zero, ep_heartbeat_replies_enabled := True, ep_last_error := []\<rparr>"

definition rc_encode_frame :: "RemoteMessageType \<Rightarrow> u16 \<Rightarrow> u8 list \<Rightarrow> u8 list \<Rightarrow> u8 list \<times> bool" where
  "rc_encode_frame kind sequence payload out =
     encode_remote_frame (rf_default\<lparr>rf_type := kind, rf_sequence := sequence, rf_payload := payload\<rparr>) out"

definition ep_reply_error ::
  "u16 \<Rightarrow> string \<Rightarrow> RemoteControlEndpoint \<Rightarrow> u8 list \<Rightarrow> RemoteControlEndpoint \<times> u8 list" where
  "ep_reply_error sequence message e outbound =
     (let n = (if length message > 64 then 64 else length message);
          payload = [1, 0] @ map char_u8 (take n message)
      in (e\<lparr>ep_last_error := message\<rparr>, fst (rc_encode_frame RemoteMessageType.Error sequence payload outbound)))"

definition ep_handle_hello :: "RemoteFrame \<Rightarrow> RemoteControlEndpoint \<Rightarrow> u8 list \<Rightarrow> RemoteControlEndpoint \<times> u8 list" where
  "ep_handle_hello request e outbound =
     (let e1 = e\<lparr>ep_counters := (ep_counters e)\<lparr>ec_hellos := ec_hellos (ep_counters e) + 1\<rparr>\<rparr>;
          payload = [kRemoteProtocolVersion] @ map char_u8 kRemoteLoopbackEvidenceTag @ [0]
      in case rc_encode_frame RemoteMessageType.HelloAck (rf_sequence request) payload outbound of (out, ok) \<Rightarrow>
         if \<not> ok then (e1\<lparr>ep_last_error := ''encode HELLO_ACK failed''\<rparr>, out)
         else (e1\<lparr>ep_session_state := RemoteSessionState.Established, ep_last_error := []\<rparr>, out))"

definition ep_handle_heartbeat :: "RemoteFrame \<Rightarrow> RemoteControlEndpoint \<Rightarrow> u8 list \<Rightarrow> RemoteControlEndpoint \<times> u8 list" where
  "ep_handle_heartbeat request e outbound =
     (if ep_session_state e \<noteq> RemoteSessionState.Established then
        ep_reply_error (rf_sequence request) ''HEARTBEAT before HELLO'' e outbound
      else
        let e1 = e\<lparr>ep_counters := (ep_counters e)\<lparr>ec_heartbeats := ec_heartbeats (ep_counters e) + 1\<rparr>\<rparr>
        in if \<not> ep_heartbeat_replies_enabled e1 then (e1, outbound)
           else
             let payload = (if length (rf_payload request) = 8 then rf_payload request
                            else append_i64_le [] (sv_observed_monotonic_ns (ep_status e1)))
             in case rc_encode_frame RemoteMessageType.HeartbeatAck (rf_sequence request) payload outbound of (out, ok) \<Rightarrow>
                if \<not> ok then (e1\<lparr>ep_last_error := ''encode HEARTBEAT_ACK failed''\<rparr>, out) else (e1, out))"

definition ep_handle_get_status :: "RemoteFrame \<Rightarrow> RemoteControlEndpoint \<Rightarrow> u8 list \<Rightarrow> RemoteControlEndpoint \<times> u8 list" where
  "ep_handle_get_status request e outbound =
     (if ep_session_state e \<noteq> RemoteSessionState.Established then
        ep_reply_error (rf_sequence request) ''GET_STATUS before HELLO'' e outbound
      else case encode_remote_status_payload (ep_status e) of (payload, ok) \<Rightarrow>
        if \<not> ok then ep_reply_error (rf_sequence request) ''status encode failed'' e outbound
        else case rc_encode_frame RemoteMessageType.Status (rf_sequence request) payload outbound of (out, sent) \<Rightarrow>
          if \<not> sent then ep_reply_error (rf_sequence request) ''STATUS encode failed'' e out
          else (e\<lparr>ep_counters := (ep_counters e)\<lparr>ec_status_replies := ec_status_replies (ep_counters e) + 1\<rparr>\<rparr>, out))"

definition ep_handle_frame :: "RemoteFrame \<Rightarrow> RemoteControlEndpoint \<times> u8 list \<Rightarrow> RemoteControlEndpoint \<times> u8 list" where
  "ep_handle_frame request = (\<lambda>(e, outbound).
     let e1 = e\<lparr>ep_counters := (ep_counters e)\<lparr>ec_frames_accepted := ec_frames_accepted (ep_counters e) + 1\<rparr>\<rparr>
     in case rf_type request of
          RemoteMessageType.Hello \<Rightarrow> ep_handle_hello request e1 outbound
        | RemoteMessageType.Heartbeat \<Rightarrow> ep_handle_heartbeat request e1 outbound
        | RemoteMessageType.GetStatus \<Rightarrow> ep_handle_get_status request e1 outbound
        | _ \<Rightarrow> ep_reply_error (rf_sequence request) ''unsupported message type''
                 (e1\<lparr>ep_counters := (ep_counters e1)\<lparr>ec_frames_rejected := ec_frames_rejected (ep_counters e1) + 1\<rparr>\<rparr>)
                 outbound)"

definition ep_note_malformed :: "RemoteFrameParseStatus \<Rightarrow> RemoteControlEndpoint \<Rightarrow> RemoteControlEndpoint" where
  "ep_note_malformed st e =
     e\<lparr>ep_counters := (ep_counters e)\<lparr>ec_malformed := ec_malformed (ep_counters e) + 1,
                       ec_frames_rejected := ec_frames_rejected (ep_counters e) + 1\<rparr>,
       ep_last_error := RemoteFrameParseStatus_to_string st\<rparr>"

text \<open>The handlers leave the parser alone, which the termination of the loop rests on.\<close>

lemma ep_parser_reply_error [simp]: "ep_parser (fst (ep_reply_error n m e out)) = ep_parser e"
  by (simp add: ep_reply_error_def Let_def)

lemma ep_parser_handle_frame [simp]: "ep_parser (fst (ep_handle_frame f eo)) = ep_parser (fst eo)"
  by (cases eo)
    (simp add: ep_handle_frame_def ep_handle_hello_def ep_handle_heartbeat_def ep_handle_get_status_def
      Let_def split_beta split: RemoteMessageType.split)

lemma ep_parser_note_malformed [simp]: "ep_parser (ep_note_malformed st e) = ep_parser e"
  by (simp add: ep_note_malformed_def)

function ep_pump :: "RemoteControlEndpoint \<times> u8 list \<Rightarrow> RemoteControlEndpoint \<times> u8 list" where
  "ep_pump (e, out) =
     (case rp_try_pop (ep_parser e) rf_default of (p, frame, st) \<Rightarrow>
        if st = RemoteFrameParseStatus.NeedMore then (e\<lparr>ep_parser := p\<rparr>, out)
        else if st \<noteq> RemoteFrameParseStatus.Ok then ep_pump (ep_note_malformed st (e\<lparr>ep_parser := p\<rparr>), out)
        else ep_pump (ep_handle_frame frame (e\<lparr>ep_parser := p\<rparr>, out)))"
  by pat_completeness auto

termination
  by (relation "measure (\<lambda>eo. length (rp_buffer (ep_parser (fst eo))))")
    (auto dest!: rp_try_pop_progress [OF sym] rp_try_pop_progress)

declare ep_pump.simps [simp del]

definition ep_push_bytes :: "u8 list \<Rightarrow> RemoteControlEndpoint \<times> u8 list \<Rightarrow> RemoteControlEndpoint \<times> u8 list" where
  "ep_push_bytes inbound = (\<lambda>(e, outbound).
     case rp_append inbound (ep_parser e) of (p, st) \<Rightarrow>
       if st = RemoteFrameParseStatus.BufferOverflow then
         ep_reply_error 0 ''rx buffer overflow''
           (e\<lparr>ep_parser := p,
              ep_counters := (ep_counters e)\<lparr>ec_malformed := ec_malformed (ep_counters e) + 1\<rparr>,
              ep_last_error := ''rx buffer overflow'',
              ep_session_state := RemoteSessionState.Faulted\<rparr>) outbound
       else ep_pump (e\<lparr>ep_parser := p\<rparr>, outbound))"

section \<open>Requests and replies of the client side\<close>

definition encode_hello :: "u16 \<Rightarrow> u8 list \<Rightarrow> u8 list \<times> bool" where
  "encode_hello sequence out = rc_encode_frame RemoteMessageType.Hello sequence [kRemoteProtocolVersion] out"

definition rc_encode_heartbeat :: "u16 \<Rightarrow> i64 \<Rightarrow> u8 list \<Rightarrow> u8 list \<times> bool" where
  "rc_encode_heartbeat sequence client_monotonic_ns out =
     rc_encode_frame RemoteMessageType.Heartbeat sequence (append_i64_le [] client_monotonic_ns) out"

definition encode_get_status :: "u16 \<Rightarrow> u8 list \<Rightarrow> u8 list \<times> bool" where
  "encode_get_status sequence out = rc_encode_frame RemoteMessageType.GetStatus sequence [] out"

record RemoteHelloAck =
  ha_protocol_version :: u8
  ha_evidence_tag :: string

definition decode_hello_ack :: "u8 list \<Rightarrow> RemoteHelloAck option" where
  "decode_hello_ack payload =
     (case payload of [] \<Rightarrow> None
      | v # rest \<Rightarrow> Some \<lparr>ha_protocol_version = v,
          ha_evidence_tag = map u8_char (takeWhile (\<lambda>b. b \<noteq> 0) rest)\<rparr>)"

section \<open>Status round trip\<close>

text \<open>A status view that the wire can carry: time stamps are 64-bit and every enumeration holds an enumerator.\<close>

definition status_typed :: "RemoteStatusView \<Rightarrow> bool" where
  "status_typed s \<longleftrightarrow> i64_range (sv_observed_monotonic_ns s) \<and> i64_range (sv_heartbeat_age_ns s) \<and>
     named_RuntimeModeCode (sv_mode s) \<and> named_RuntimeFaultCode (sv_fault s) \<and> named_EvidenceClass (sv_evidence s)"

definition status_bytes :: "RemoteStatusView \<Rightarrow> u8 list" where
  "status_bytes s =
     le_bytes 8 (word_of_int (sv_observed_monotonic_ns s) :: u64) @
     [RuntimeModeCode_code (sv_mode s), RuntimeFaultCode_code (sv_fault s), bool_byte (sv_started s), bool_byte (sv_online s)] @
     le_bytes 2 (sv_session_id s) @ le_bytes 2 (sv_last_heartbeat_sequence s) @
     le_bytes 8 (word_of_int (sv_heartbeat_age_ns s) :: u64) @
     le_bytes 8 (sv_frames_received s) @ le_bytes 8 (sv_frames_sent s) @ le_bytes 8 (sv_decode_rejects s) @
     le_bytes 8 (sv_input_queue_drop_count s) @ [EvidenceClass_code (sv_evidence s)] @ replicate 7 0"

lemma length_status_bytes [simp]: "length (status_bytes s) = 64"
  by (simp add: status_bytes_def)

lemma encode_remote_status_eq: "encode_remote_status_payload s = (status_bytes s, True)"
  by (simp add: encode_remote_status_payload_def status_bytes_def Let_def append_le_eq pad_to_def
      kRemoteStatusWireSize_def)

lemma status_bytes_nth:
  "status_bytes s ! 8 = RuntimeModeCode_code (sv_mode s)" "status_bytes s ! 9 = RuntimeFaultCode_code (sv_fault s)"
  "status_bytes s ! 10 = bool_byte (sv_started s)" "status_bytes s ! 11 = bool_byte (sv_online s)"
  "status_bytes s ! 56 = EvidenceClass_code (sv_evidence s)"
  by (simp_all add: status_bytes_def nth_append)

lemma status_bytes_fields:
  "read_u16_le (status_bytes s) 12 = sv_session_id s" "read_u16_le (status_bytes s) 14 = sv_last_heartbeat_sequence s"
  "read_u64_le (status_bytes s) 24 = sv_frames_received s" "read_u64_le (status_bytes s) 32 = sv_frames_sent s"
  "read_u64_le (status_bytes s) 40 = sv_decode_rejects s" "read_u64_le (status_bytes s) 48 = sv_input_queue_drop_count s"
  by (rule read_u16_le_field read_u64_le_field; simp add: status_bytes_def)+

lemma status_bytes_times:
  "i64_range (sv_observed_monotonic_ns s) \<Longrightarrow> read_i64_le (status_bytes s) 0 = sv_observed_monotonic_ns s"
  "i64_range (sv_heartbeat_age_ns s) \<Longrightarrow> read_i64_le (status_bytes s) 16 = sv_heartbeat_age_ns s"
  by (rule read_i64_le_field; simp add: status_bytes_def)+

lemma remote_status_roundtrip: "status_typed s \<Longrightarrow> decode_remote_status_payload (status_bytes s) = Some s"
  by (simp add: decode_remote_status_payload_def kRemoteStatusWireSize_def status_typed_def
      status_bytes_nth status_bytes_fields status_bytes_times)

lemma rc_encode_frame_eq:
  "length payload \<le> 512 \<Longrightarrow>
   rc_encode_frame kind n payload out =
     (out @ remote_wire (rf_default\<lparr>rf_type := kind, rf_sequence := n, rf_payload := payload\<rparr>), True)"
  by (simp add: rc_encode_frame_def encode_remote_frame_eq remote_sendable_def rf_default_def kRemoteMaxPayloadSize_def)

section \<open>Delivery\<close>

definition with_parser :: "u8 list \<Rightarrow> RemoteControlEndpoint \<times> u8 list \<Rightarrow> RemoteControlEndpoint \<times> u8 list" where
  "with_parser buf eo = ((fst eo)\<lparr>ep_parser := \<lparr>rp_buffer = buf\<rparr>\<rparr>, snd eo)"

lemma with_parser_simps [simp]:
  "with_parser b (with_parser c eo) = with_parser b eo"
  "rp_buffer (ep_parser (fst (with_parser b eo))) = b"
  "ep_parser (fst (with_parser b eo)) = \<lparr>rp_buffer = b\<rparr>"
  "snd (with_parser b eo) = snd eo"
  "ep_session_state (fst (with_parser b eo)) = ep_session_state (fst eo)"
  "ep_counters (fst (with_parser b eo)) = ep_counters (fst eo)"
  by (simp_all add: with_parser_def)

lemma with_parser_id: "rp_buffer (ep_parser (fst eo)) = b \<Longrightarrow> with_parser b eo = eo"
proof -
  assume "rp_buffer (ep_parser (fst eo)) = b"
  then have "ep_parser (fst eo) = \<lparr>rp_buffer = b\<rparr>" by (cases "ep_parser (fst eo)") simp
  then show ?thesis by (cases eo) (simp add: with_parser_def)
qed

lemma reply_error_with_parser:
  "ep_reply_error n m (e\<lparr>ep_parser := p\<rparr>) out = ((fst (ep_reply_error n m e out))\<lparr>ep_parser := p\<rparr>, snd (ep_reply_error n m e out))"
  by (simp add: ep_reply_error_def Let_def)

lemma hello_with_parser:
  "ep_handle_hello f (e\<lparr>ep_parser := p\<rparr>) out = ((fst (ep_handle_hello f e out))\<lparr>ep_parser := p\<rparr>, snd (ep_handle_hello f e out))"
  by (simp add: ep_handle_hello_def Let_def split_beta)

lemma heartbeat_with_parser:
  "ep_handle_heartbeat f (e\<lparr>ep_parser := p\<rparr>) out = ((fst (ep_handle_heartbeat f e out))\<lparr>ep_parser := p\<rparr>, snd (ep_handle_heartbeat f e out))"
  by (simp add: ep_handle_heartbeat_def reply_error_with_parser Let_def split_beta)

lemma get_status_with_parser:
  "ep_handle_get_status f (e\<lparr>ep_parser := p\<rparr>) out = ((fst (ep_handle_get_status f e out))\<lparr>ep_parser := p\<rparr>, snd (ep_handle_get_status f e out))"
  by (simp add: ep_handle_get_status_def encode_remote_status_eq reply_error_with_parser Let_def split_beta)

lemma counters_with_parser:
  "(e\<lparr>ep_parser := p\<rparr>)\<lparr>ep_counters := c\<rparr> = (e\<lparr>ep_counters := c\<rparr>)\<lparr>ep_parser := p\<rparr>" for e :: RemoteControlEndpoint
  by simp

lemma handle_frame_with_parser: "ep_handle_frame f (with_parser b eo) = with_parser b (ep_handle_frame f eo)"
proof (cases eo)
  case (Pair e out)
  show ?thesis
    unfolding Pair with_parser_def ep_handle_frame_def Let_def fst_conv snd_conv split_conv
      RemoteControlEndpoint.simps(2) counters_with_parser
      hello_with_parser heartbeat_with_parser get_status_with_parser reply_error_with_parser
    by (cases "rf_type f") (simp_all add: reply_error_with_parser)
qed

lemma fold_handle_with_parser: "fold ep_handle_frame fs (with_parser b eo) = with_parser b (fold ep_handle_frame fs eo)"
  by (induction fs arbitrary: eo) (simp_all add: handle_frame_with_parser)

lemma pump_wait:
  assumes "remote_pop b = pop.NeedMore"
  shows "ep_pump (with_parser b eo) = with_parser b eo"
proof -
  obtain p f where p: "rp_try_pop \<lparr>rp_buffer = b\<rparr> rf_default = (p, f, RemoteFrameParseStatus.NeedMore)"
    using assms by (auto simp: remote_pop_def split: prod.splits if_splits)
  then have "p = \<lparr>rp_buffer = b\<rparr>" using rp_try_pop_progress by blast
  then show ?thesis using p unfolding with_parser_def by (subst ep_pump.simps) simp
qed

lemma pump_popped:
  assumes "remote_pop b = Popped f rest"
  shows "ep_pump (with_parser b eo) = ep_pump (ep_handle_frame f (with_parser rest eo))"
proof -
  obtain p where p: "rp_try_pop \<lparr>rp_buffer = b\<rparr> rf_default = (p, f, RemoteFrameParseStatus.Ok)" "rp_buffer p = rest"
    using assms by (auto simp: remote_pop_def split: prod.splits if_splits)
  then have "p = \<lparr>rp_buffer = rest\<rparr>" by (cases p) simp
  then show ?thesis using p(1) unfolding with_parser_def by (subst ep_pump.simps) simp
qed

lemma pump_drained:
  "drained remote_pop b fs rest \<Longrightarrow> ep_pump (with_parser b eo) = with_parser rest (fold ep_handle_frame fs eo)"
proof (induction arbitrary: eo rule: drained.induct)
  case (frame buf f rest fs out)
  then show ?case by (simp add: pump_popped [OF frame.hyps(1)] handle_frame_with_parser)
qed (simp add: pump_wait)

lemma push_drained:
  assumes "length b + length c \<le> kRemoteRxBufferCapacity" and "drained remote_pop (b @ c) fs rest"
  shows "ep_push_bytes c (with_parser b eo) = with_parser rest (fold ep_handle_frame fs eo)"
  using assms pump_drained [OF assms(2), of eo]
  by (auto simp: ep_push_bytes_def with_parser_def rp_append_def split_beta)

lemma remote_wire_bound: "remote_enc f = Some w \<Longrightarrow> length w \<le> kRemoteMaxFrameSize"
  by (auto simp: remote_enc_def remote_wire_def remote_sendable_def kRemoteMaxFrameSize_def kRemoteFrameHeaderSize_def
      kRemoteFrameCrcSize_def split: if_splits)

lemma push_stream:
  assumes "list_all2 (\<lambda>f w. remote_enc f = Some w) fs ws" and "b @ concat cs = concat ws"
    and "b = [] \<or> ws \<noteq> [] \<and> strict_prefix b (hd ws)" and "\<forall>c\<in>set cs. length c \<le> kRemoteMaxFrameSize"
  shows "fold ep_push_bytes cs (with_parser b eo) = with_parser [] (fold ep_handle_frame fs eo)"
  using assms
proof (induction cs arbitrary: fs ws b eo)
  case Nil
  have "remote_pop b = pop.NeedMore"
  proof (cases "b = []")
    case False
    then obtain w ws' where ws: "ws = w # ws'" "strict_prefix b w" using Nil.prems(3) by (cases ws) auto
    then obtain f where "remote_enc f = Some w" using Nil.prems(1) by (auto simp: list_all2_Cons2)
    then show ?thesis using ws(2) by (rule rfs.pop_prefix)
  qed (simp add: rfs.pop_nil)
  then have "reads remote_pop b [] fs []" by (intro rfs.stream_reads [OF Nil.prems(1,2)])
  then show ?case by auto
next
  case (Cons c cs)
  obtain k rest where k: "drained remote_pop (b @ c) (take k fs) rest" "rest @ concat cs = concat (drop k ws)"
    "rest = [] \<or> k < length ws \<and> strict_prefix rest (ws ! k)"
    using rfs.stream_drained [OF Cons.prems(1), of "b @ c" "concat cs"] Cons.prems(2) by auto
  have "length b \<le> kRemoteMaxFrameSize"
    using Cons.prems(1,3) prefix_length_less [of b "hd ws"]
    by (force simp: list_all2_Cons2 neq_Nil_conv dest: remote_wire_bound)
  then have room: "length b + length c \<le> kRemoteRxBufferCapacity"
    using Cons.prems(4) by (auto simp: kRemoteRxBufferCapacity_def)
  have "fold ep_push_bytes cs (with_parser rest (fold ep_handle_frame (take k fs) eo)) =
      with_parser [] (fold ep_handle_frame (drop k fs) (fold ep_handle_frame (take k fs) eo))"
    using Cons.prems(4) k(3)
    by (intro Cons.IH [OF rfs.encodes_drop [OF Cons.prems(1), of k] k(2)]) (auto simp: hd_drop_conv_nth)
  moreover have "fold ep_handle_frame (drop k fs) (fold ep_handle_frame (take k fs) eo) = fold ep_handle_frame fs eo"
    using fold_append [of ep_handle_frame "take k fs" "drop k fs"] by (simp del: fold_append)
  ultimately show ?case using push_drained [OF room k(1), of eo] by simp
qed

text \<open>
  C32. The endpoint is indifferent to segmentation: when a client's frames arrive
  cut into reads at arbitrary places, each read no longer than one maximal
  frame, the endpoint ends in the state, and has sent the replies, that handling
  the frames one after another gives. No frame is lost, duplicated or
  reordered, and the receive buffer never overflows.
\<close>

theorem remote_stream_delivery:
  assumes "list_all2 (\<lambda>f w. encode_remote_frame f [] = (w, True) \<and> named_RemoteMessageType (rf_type f)) fs ws"
    and "concat cs = concat ws" and "\<forall>c\<in>set cs. length c \<le> kRemoteMaxFrameSize"
    and "rp_buffer (ep_parser e) = []"
  shows "fold ep_push_bytes cs (e, out) = fold ep_handle_frame fs (e, out)"
proof -
  have enc: "list_all2 (\<lambda>f w. remote_enc f = Some w) fs ws"
    by (rule list_all2_mono [OF assms(1)]) (auto simp: encode_remote_frame_eq remote_enc_def split: if_splits)
  have id: "with_parser [] (e, out) = (e, out)" using assms(4) by (intro with_parser_id) simp
  have "fold ep_push_bytes cs (with_parser [] (e, out)) = with_parser [] (fold ep_handle_frame fs (e, out))"
    by (rule push_stream [OF enc]) (use assms(2,3) in auto)
  also have "\<dots> = fold ep_handle_frame fs (with_parser [] (e, out))" by (simp only: fold_handle_with_parser)
  finally show ?thesis by (simp only: id)
qed

definition demo_hello :: RemoteFrame where
  "demo_hello = rf_default\<lparr>rf_type := RemoteMessageType.Hello, rf_sequence := 7, rf_payload := [1]\<rparr>"

theorem remote_stream_delivery_witness:
  "ep_session_state (fst (fold ep_push_bytes [take 5 (remote_wire demo_hello), drop 5 (remote_wire demo_hello)] (ep_init, [])))
     = RemoteSessionState.Established"
proof -
  let ?w = "remote_wire demo_hello"
  have send: "encode_remote_frame demo_hello [] = (?w, True)"
    by (simp add: encode_remote_frame_eq remote_sendable_def demo_hello_def rf_default_def kRemoteMaxPayloadSize_def)
  have len: "length ?w = 15" by (simp add: remote_wire_def demo_hello_def)
  have "fold ep_push_bytes [take 5 ?w, drop 5 ?w] (ep_init, []) = fold ep_handle_frame [demo_hello] (ep_init, [])"
    by (rule remote_stream_delivery [of "[demo_hello]" "[?w]"])
      (use send len in \<open>simp_all add: named_RemoteMessageType_def demo_hello_def ep_init_def rp_init_def remote_consts\<close>)
  then show ?thesis
    by (simp add: ep_handle_frame_def ep_handle_hello_def demo_hello_def Let_def split_beta rc_encode_frame_eq
        kRemoteLoopbackEvidenceTag_def)
qed

section \<open>Session gate\<close>

definition refusal :: "RemoteFrame \<Rightarrow> string" where
  "refusal f = (case rf_type f of RemoteMessageType.Heartbeat \<Rightarrow> ''HEARTBEAT before HELLO''
     | RemoteMessageType.GetStatus \<Rightarrow> ''GET_STATUS before HELLO''
     | _ \<Rightarrow> ''unsupported message type'')"

definition error_frame :: "u16 \<Rightarrow> string \<Rightarrow> RemoteFrame" where
  "error_frame n message = rf_default\<lparr>rf_type := RemoteMessageType.Error, rf_sequence := n,
     rf_payload := [1, 0] @ map char_u8 message\<rparr>"

lemma reply_error_short:
  "length m \<le> 64 \<Longrightarrow> ep_reply_error n m e out = (e\<lparr>ep_last_error := m\<rparr>, out @ remote_wire (error_frame n m))"
  by (simp add: ep_reply_error_def Let_def rc_encode_frame_eq error_frame_def)

lemma handle_frame_refuses:
  assumes "rf_type f \<noteq> RemoteMessageType.Hello" and "ep_session_state e \<noteq> RemoteSessionState.Established"
  shows "\<exists>e'. ep_handle_frame f (e, out) = (e', out @ remote_wire (error_frame (rf_sequence f) (refusal f))) \<and>
     ep_session_state e' = ep_session_state e \<and> ec_status_replies (ep_counters e') = ec_status_replies (ep_counters e)"
  using assms
  by (cases "rf_type f")
    (simp_all add: ep_handle_frame_def ep_handle_heartbeat_def ep_handle_get_status_def refusal_def reply_error_short Let_def)

text \<open>
  Nothing is served before HELLO: while the session is not established, a
  sequence of requests without a HELLO leaves the session state and the count of
  status replies as they were, and the endpoint sends, request by request and
  under the request's own sequence number, one ERROR frame that names the reason,
  and nothing else.
\<close>

theorem remote_session_gate:
  assumes "ep_session_state e \<noteq> RemoteSessionState.Established"
    and "\<forall>f\<in>set fs. rf_type f \<noteq> RemoteMessageType.Hello"
    and "fold ep_handle_frame fs (e, out) = (e', out')"
  shows "ep_session_state e' = ep_session_state e \<and>
     ec_status_replies (ep_counters e') = ec_status_replies (ep_counters e) \<and>
     out' = out @ concat (map (\<lambda>f. remote_wire (error_frame (rf_sequence f) (refusal f))) fs)"
  using assms
proof (induction fs arbitrary: e out)
  case (Cons f fs)
  obtain e1 where e1: "ep_handle_frame f (e, out) = (e1, out @ remote_wire (error_frame (rf_sequence f) (refusal f)))"
    "ep_session_state e1 = ep_session_state e" "ec_status_replies (ep_counters e1) = ec_status_replies (ep_counters e)"
    using handle_frame_refuses [of f e out] Cons.prems by auto
  show ?case
    using Cons.IH [of e1 "out @ remote_wire (error_frame (rf_sequence f) (refusal f))"] Cons.prems e1 by simp
qed simp

theorem remote_session_gate_witness:
  "snd (ep_handle_frame (rf_default\<lparr>rf_type := RemoteMessageType.GetStatus, rf_sequence := 3\<rparr>) (ep_init, [])) =
     remote_wire (error_frame 3 ''GET_STATUS before HELLO'')"
proof -
  let ?f = "rf_default\<lparr>rf_type := RemoteMessageType.GetStatus, rf_sequence := 3\<rparr>"
  obtain e' out' where r: "ep_handle_frame ?f (ep_init, []) = (e', out')" by fastforce
  then show ?thesis
    using remote_session_gate [of ep_init "[?f]" "[]" e' out'] by (simp add: ep_init_def refusal_def)
qed

section \<open>Resynchronisation\<close>

lemma read_u32_first: "read_u32_le b 0 = v \<Longrightarrow> b ! 0 = byte_of 0 v"
proof (rule bit_eqI)
  fix n assume v: "read_u32_le b 0 = v" and "possible_bit TYPE(u8) n"
  then have "n < 8" by simp
  then have "bit v n = bit (b ! 0) n" unfolding v [symmetric] read_u32_le_def by (auto simp: bit_simps)
  then show "bit (b ! 0) n = bit (byte_of 0 v) n" using \<open>n < 8\<close> by (simp add: bit_byte_of)
qed

lemma magic_first_byte: "byte_of 0 kRemoteFrameMagic = 0x52"
  by code_simp

lemma note_malformed_with_parser: "ep_note_malformed st (e\<lparr>ep_parser := p\<rparr>) = (ep_note_malformed st e)\<lparr>ep_parser := p\<rparr>"
  by (simp add: ep_note_malformed_def)

lemma pump_garbage_byte:
  assumes "x \<noteq> 0x52" and "11 \<le> length b"
  shows "ep_pump (with_parser (x # b) (e, out)) =
         ep_pump (with_parser b (ep_note_malformed RemoteFrameParseStatus.InvalidMagic e, out))"
proof -
  have "read_u32_le (x # b) 0 \<noteq> kRemoteFrameMagic"
    using read_u32_first [of "x # b" kRemoteFrameMagic] magic_first_byte assms(1) by auto
  then have "rp_try_pop \<lparr>rp_buffer = x # b\<rparr> rf_default = (\<lparr>rp_buffer = b\<rparr>, rf_default, RemoteFrameParseStatus.InvalidMagic)"
    using assms(2) by (simp add: rp_try_pop_def Let_def kRemoteFrameHeaderSize_def)
  then show ?thesis
    unfolding with_parser_def fst_conv snd_conv
    by (subst ep_pump.simps) (simp add: note_malformed_with_parser)
qed

text \<open>
  Line noise does not wedge the endpoint: bytes that cannot start a frame are
  dropped one by one, each counted as malformed, and the frame behind them is
  then handled as if the noise had never been there.
\<close>

theorem remote_resync:
  assumes "\<forall>x\<in>set noise. x \<noteq> 0x52" and "remote_enc f = Some w"
  shows "ep_pump (with_parser (noise @ w @ rest) (e, out)) =
         ep_pump (ep_handle_frame f
           (with_parser rest ((ep_note_malformed RemoteFrameParseStatus.InvalidMagic ^^ length noise) e, out)))"
  using assms(1)
proof (induction noise arbitrary: e)
  case Nil
  show ?case using pump_popped [OF rfs.pop_enc [OF assms(2)]] by simp
next
  case (Cons x noise)
  have "14 \<le> length w" using assms(2) by (auto simp: remote_enc_def remote_wire_def split: if_splits)
  then show ?case
    using Cons pump_garbage_byte [of x "noise @ w @ rest" e out] by (simp add: funpow_swap1)
qed

theorem remote_resync_witness:
  "ep_session_state (fst (ep_pump (with_parser ([0, 9] @ remote_wire demo_hello) (ep_init, [])))) = RemoteSessionState.Established"
proof -
  have "remote_enc demo_hello = Some (remote_wire demo_hello)"
    by (simp add: remote_enc_def remote_sendable_def demo_hello_def rf_default_def kRemoteMaxPayloadSize_def named_RemoteMessageType_def)
  then have "ep_pump (with_parser ([0, 9] @ remote_wire demo_hello @ []) (ep_init, [])) =
      ep_pump (ep_handle_frame demo_hello (with_parser []
        ((ep_note_malformed RemoteFrameParseStatus.InvalidMagic ^^ length [0, 9 :: u8]) ep_init, [])))"
    by (intro remote_resync) auto
  then show ?thesis
    unfolding append_Nil2 handle_frame_with_parser
    by (simp add: pump_wait rfs.pop_nil)
      (simp add: ep_handle_frame_def ep_handle_hello_def demo_hello_def Let_def split_beta rc_encode_frame_eq
        kRemoteLoopbackEvidenceTag_def)
qed

end
