(* ===== verification/Remote_Client.thy ===== *)
theory Remote_Client
  imports Remote_Control
begin

text \<open>
  The requesting side of the remote control plane,
  \<^verbatim>\<open>linux/src/workbench/application/remote_runtime_client.cpp\<close>. The client borrows
  an endpoint by pointer, so every operation takes and returns the pair of the
  client and the endpoint it points to, if any. The lemmas compose client and
  endpoint: a session always opens, a heartbeat is reported as answered exactly
  when the endpoint answers, and a refreshed status is the endpoint's status.
\<close>

datatype RemoteBackendMode = Local | RemoteLoopback

fun RemoteBackendMode_to_string :: "RemoteBackendMode \<Rightarrow> string" where
  "RemoteBackendMode_to_string RemoteBackendMode.Local = ''LOCAL''"
| "RemoteBackendMode_to_string RemoteBackendMode.RemoteLoopback = ''REMOTE_LOOPBACK''"

record RemoteConnectionSnapshot =
  cs_mode :: RemoteBackendMode
  cs_connected :: bool
  cs_evidence_banner :: string
  cs_peer :: string
  cs_session_state :: RemoteSessionState
  cs_heartbeats_ok :: u64
  cs_heartbeats_missed :: u64
  cs_status_ok :: u64
  cs_malformed :: u64
  cs_last_error :: string
  cs_last_status :: RemoteStatusView

record RemoteRuntimeClient =
  rcl_parser :: RemoteFrameParser
  rcl_connected :: bool
  rcl_next_sequence :: u16
  rcl_heartbeats_ok :: u64
  rcl_heartbeats_missed :: u64
  rcl_status_ok :: u64
  rcl_last_error :: string
  rcl_evidence_tag :: string
  rcl_last_status :: RemoteStatusView
  rcl_session_state :: RemoteSessionState

type_synonym RemoteLink = "RemoteRuntimeClient \<times> RemoteControlEndpoint option"

definition rcl_init :: RemoteRuntimeClient where
  "rcl_init = \<lparr>rcl_parser = rp_init, rcl_connected = False, rcl_next_sequence = 1, rcl_heartbeats_ok = 0,
     rcl_heartbeats_missed = 0, rcl_status_ok = 0, rcl_last_error = [], rcl_evidence_tag = [],
     rcl_last_status = status_view_default, rcl_session_state = RemoteSessionState.WaitingHello\<rparr>"

definition rcl_fail :: "string \<Rightarrow> RemoteRuntimeClient \<Rightarrow> RemoteRuntimeClient" where
  "rcl_fail message c = c\<lparr>rcl_last_error := message\<rparr>"

definition rcl_exchange :: "u8 list \<Rightarrow> RemoteLink \<Rightarrow> RemoteLink \<times> RemoteFrame option" where
  "rcl_exchange request = (\<lambda>(c, ep). case ep of
     None \<Rightarrow> ((rcl_fail ''no endpoint'' c, ep), None)
   | Some e \<Rightarrow>
       (case ep_push_bytes request (e, []) of (e', outbound) \<Rightarrow>
          if outbound = [] then ((rcl_fail ''empty reply'' c, Some e'), None)
          else case rp_append outbound (rp_clear (rcl_parser c)) of (p1, st1) \<Rightarrow>
            if st1 = RemoteFrameParseStatus.BufferOverflow then
              ((rcl_fail ''reply buffer overflow'' (c\<lparr>rcl_parser := p1\<rparr>), Some e'), None)
            else case rp_try_pop p1 rf_default of (p2, reply, st2) \<Rightarrow>
              if st2 \<noteq> RemoteFrameParseStatus.Ok then
                ((rcl_fail (RemoteFrameParseStatus_to_string st2) (c\<lparr>rcl_parser := p2\<rparr>), Some e'), None)
              else case rp_try_pop p2 rf_default of (p3, extra, st3) \<Rightarrow>
                if st3 = RemoteFrameParseStatus.Ok then
                  ((rcl_fail ''unexpected extra reply frame'' (c\<lparr>rcl_parser := p3\<rparr>), Some e'), None)
                else ((c\<lparr>rcl_parser := p3, rcl_last_error := []\<rparr>, Some e'), Some reply)))"

definition rcl_connect_session :: "RemoteStatusView \<Rightarrow> RemoteLink \<Rightarrow> RemoteLink \<times> bool" where
  "rcl_connect_session status = (\<lambda>(c, ep). case ep of
     None \<Rightarrow> ((rcl_fail ''no endpoint'' c, ep), False)
   | Some e \<Rightarrow>
       let e1 = ep_set_status status (ep_reset_session e);
           c1 = c\<lparr>rcl_parser := rp_clear (rcl_parser c), rcl_connected := False,
                  rcl_session_state := RemoteSessionState.WaitingHello, rcl_evidence_tag := [],
                  rcl_heartbeats_ok := 0, rcl_heartbeats_missed := 0, rcl_status_ok := 0,
                  rcl_next_sequence := rcl_next_sequence c + 1\<rparr>
       in case encode_hello (rcl_next_sequence c) [] of (request, ok) \<Rightarrow>
          if \<not> ok then ((rcl_fail ''encode HELLO failed'' c1, Some e1), False)
          else case rcl_exchange request (c1, Some e1) of ((c2, ep2), reply) \<Rightarrow>
            (case reply of None \<Rightarrow> ((c2, ep2), False)
             | Some r \<Rightarrow>
                 if rf_type r \<noteq> RemoteMessageType.HelloAck then ((rcl_fail ''expected HELLO_ACK'' c2, ep2), False)
                 else (case decode_hello_ack (rf_payload r) of
                     None \<Rightarrow> ((rcl_fail ''invalid HELLO_ACK'' c2, ep2), False)
                   | Some ack \<Rightarrow>
                       if ha_protocol_version ack \<noteq> kRemoteProtocolVersion then
                         ((rcl_fail ''invalid HELLO_ACK'' c2, ep2), False)
                       else ((c2\<lparr>rcl_evidence_tag := ha_evidence_tag ack, rcl_connected := True,
                                 rcl_session_state := RemoteSessionState.Established, rcl_last_error := []\<rparr>, ep2),
                             True))))"

definition rcl_disconnect_session :: "RemoteLink \<Rightarrow> RemoteLink" where
  "rcl_disconnect_session = (\<lambda>(c, ep).
     (c\<lparr>rcl_connected := False, rcl_session_state := RemoteSessionState.WaitingHello, rcl_evidence_tag := [],
        rcl_parser := rp_clear (rcl_parser c)\<rparr>,
      map_option ep_reset_session ep))"

definition rcl_poll_heartbeat :: "i64 \<Rightarrow> RemoteLink \<Rightarrow> RemoteLink \<times> bool" where
  "rcl_poll_heartbeat client_monotonic_ns = (\<lambda>(c, ep).
     if \<not> rcl_connected c \<or> ep = None then ((rcl_fail ''not connected'' c, ep), False)
     else
       let c1 = c\<lparr>rcl_next_sequence := rcl_next_sequence c + 1\<rparr>
       in case rc_encode_heartbeat (rcl_next_sequence c) client_monotonic_ns [] of (request, ok) \<Rightarrow>
          if \<not> ok then ((rcl_fail ''encode HEARTBEAT failed'' c1, ep), False)
          else case ep_push_bytes request (the ep, []) of (e', outbound) \<Rightarrow>
            if outbound = [] then
              ((c1\<lparr>rcl_heartbeats_missed := rcl_heartbeats_missed c1 + 1,
                   rcl_last_error := ''heartbeat reply missing''\<rparr>, Some e'), False)
            else case rp_append outbound (rp_clear (rcl_parser c1)) of (p1, _) \<Rightarrow>
              (case rp_try_pop p1 rf_default of (p2, reply, st) \<Rightarrow>
                 if st \<noteq> RemoteFrameParseStatus.Ok \<or> rf_type reply \<noteq> RemoteMessageType.HeartbeatAck then
                   ((c1\<lparr>rcl_parser := p2, rcl_heartbeats_missed := rcl_heartbeats_missed c1 + 1,
                        rcl_last_error := ''heartbeat ack failed''\<rparr>, Some e'), False)
                 else ((c1\<lparr>rcl_parser := p2, rcl_heartbeats_ok := rcl_heartbeats_ok c1 + 1,
                           rcl_last_error := []\<rparr>, Some e'), True)))"

definition rcl_refresh_status :: "RemoteLink \<Rightarrow> RemoteLink \<times> bool" where
  "rcl_refresh_status = (\<lambda>(c, ep).
     if \<not> rcl_connected c \<or> ep = None then ((rcl_fail ''not connected'' c, ep), False)
     else
       let c1 = c\<lparr>rcl_next_sequence := rcl_next_sequence c + 1\<rparr>
       in case encode_get_status (rcl_next_sequence c) [] of (request, ok) \<Rightarrow>
          if \<not> ok then ((rcl_fail ''encode GET_STATUS failed'' c1, ep), False)
          else case rcl_exchange request (c1, ep) of ((c2, ep2), reply) \<Rightarrow>
            (case reply of
               Some r \<Rightarrow>
                 if rf_type r \<noteq> RemoteMessageType.Status then
                   ((if rcl_last_error c2 = [] then rcl_fail ''STATUS reply failed'' c2 else c2, ep2), False)
                 else (case decode_remote_status_payload (rf_payload r) of
                     None \<Rightarrow> ((rcl_fail ''STATUS decode failed'' c2, ep2), False)
                   | Some status \<Rightarrow>
                       ((c2\<lparr>rcl_last_status := status, rcl_status_ok := rcl_status_ok c2 + 1, rcl_last_error := []\<rparr>, ep2),
                        True))
             | None \<Rightarrow> ((if rcl_last_error c2 = [] then rcl_fail ''STATUS reply failed'' c2 else c2, ep2), False)))"

definition rcl_snapshot :: "RemoteBackendMode \<Rightarrow> RemoteLink \<Rightarrow> RemoteConnectionSnapshot" where
  "rcl_snapshot mode = (\<lambda>(c, ep).
     \<lparr>cs_mode = mode,
      cs_connected = (rcl_connected c \<and> mode = RemoteBackendMode.RemoteLoopback),
      cs_evidence_banner =
        (if mode = RemoteBackendMode.Local then ''LOCAL / SAME PROCESS''
         else if rcl_connected c then ''LOOPBACK / NO PHYSICAL PC-ARM'' else ''REMOTE_LOOPBACK / DISCONNECTED''),
      cs_peer = (if mode = RemoteBackendMode.Local then ''n/a'' else ''in-process endpoint''),
      cs_session_state = (if mode = RemoteBackendMode.Local then RemoteSessionState.WaitingHello else rcl_session_state c),
      cs_heartbeats_ok = rcl_heartbeats_ok c,
      cs_heartbeats_missed = rcl_heartbeats_missed c,
      cs_status_ok = rcl_status_ok c,
      cs_malformed = (case ep of None \<Rightarrow> 0 | Some e \<Rightarrow> ec_malformed (ep_counters e)),
      cs_last_error = rcl_last_error c,
      cs_last_status = rcl_last_status c\<rparr>)"

section \<open>One request, one reply\<close>

lemma push_one_frame:
  assumes "remote_enc f = Some w" and "rp_buffer (ep_parser e) = []"
  shows "ep_push_bytes w (e, out) = ep_handle_frame f (e, out)"
proof -
  have id: "with_parser [] (e, out) = (e, out)" using assms(2) by (intro with_parser_id) simp
  have "fold ep_push_bytes [w] (with_parser [] (e, out)) = with_parser [] (fold ep_handle_frame [f] (e, out))"
    by (rule push_stream [of "[f]" "[w]"]) (use assms(1) remote_wire_bound [OF assms(1)] in auto)
  also have "\<dots> = ep_handle_frame f (with_parser [] (e, out))" by (simp add: handle_frame_with_parser)
  finally show ?thesis by (simp add: id)
qed

definition rc_frame :: "RemoteMessageType \<Rightarrow> u16 \<Rightarrow> u8 list \<Rightarrow> RemoteFrame" where
  "rc_frame kind n payload = rf_default\<lparr>rf_type := kind, rf_sequence := n, rf_payload := payload\<rparr>"

lemma rc_frame_simps [simp]:
  "rf_type (rc_frame k n p) = k" "rf_sequence (rc_frame k n p) = n" "rf_payload (rc_frame k n p) = p"
  by (simp_all add: rc_frame_def)

lemma rc_frame_enc:
  "length p \<le> 512 \<Longrightarrow> named_RemoteMessageType k \<Longrightarrow> remote_enc (rc_frame k n p) = Some (remote_wire (rc_frame k n p))"
  by (simp add: remote_enc_def remote_sendable_def rc_frame_def rf_default_def kRemoteMaxPayloadSize_def)

lemma rc_encode_frame_wire:
  "length p \<le> 512 \<Longrightarrow> rc_encode_frame k n p out = (out @ remote_wire (rc_frame k n p), True)"
  by (simp add: rc_encode_frame_eq rc_frame_def)

lemma remote_wire_nonempty [simp]: "remote_wire f \<noteq> []"
  by (auto simp: remote_wire_def dest: arg_cong [of _ _ length])

lemma reply_parses:
  assumes "remote_enc f = Some w"
  shows "rp_append w (rp_clear p) = (\<lparr>rp_buffer = w\<rparr>, RemoteFrameParseStatus.NeedMore)"
    and "rp_try_pop \<lparr>rp_buffer = w\<rparr> g = (\<lparr>rp_buffer = []\<rparr>, f, RemoteFrameParseStatus.Ok)"
    and "rp_try_pop \<lparr>rp_buffer = []\<rparr> g = (\<lparr>rp_buffer = []\<rparr>, g, RemoteFrameParseStatus.NeedMore)"
proof -
  have f: "remote_sendable f" "canonical_type (rf_type f)" "w = remote_wire f"
    using assms by (auto simp: remote_enc_def split: if_splits)
  show "rp_append w (rp_clear p) = (\<lparr>rp_buffer = w\<rparr>, RemoteFrameParseStatus.NeedMore)"
    using remote_wire_bound [OF assms] f(3)
    by (cases p) (simp add: rp_append_def rp_clear_def kRemoteRxBufferCapacity_def)
  show "rp_try_pop \<lparr>rp_buffer = w\<rparr> g = (\<lparr>rp_buffer = []\<rparr>, f, RemoteFrameParseStatus.Ok)"
    using remote_pop_wire [OF f(1,2), of "[]"] f(3) by simp
  show "rp_try_pop \<lparr>rp_buffer = []\<rparr> g = (\<lparr>rp_buffer = []\<rparr>, g, RemoteFrameParseStatus.NeedMore)"
    by (simp add: rp_try_pop_def kRemoteFrameHeaderSize_def)
qed

lemma exchange_one:
  assumes "remote_enc f = Some w" and "rp_buffer (ep_parser e) = []"
    and "ep_handle_frame f (e, []) = (e', remote_wire g)" and "remote_enc g = Some (remote_wire g)"
  shows "rcl_exchange w (c, Some e) = ((c\<lparr>rcl_parser := \<lparr>rp_buffer = []\<rparr>, rcl_last_error := []\<rparr>, Some e'), Some g)"
  using assms(3) by (simp add: rcl_exchange_def push_one_frame [OF assms(1,2)] reply_parses [OF assms(4)])

section \<open>Sessions\<close>

definition link_ready :: "RemoteControlEndpoint \<Rightarrow> bool" where
  "link_ready e \<longleftrightarrow> ep_session_state e = RemoteSessionState.Established \<and> rp_buffer (ep_parser e) = []"

abbreviation hello_ack_payload :: "u8 list" where
  "hello_ack_payload \<equiv> [kRemoteProtocolVersion] @ map char_u8 kRemoteLoopbackEvidenceTag @ [0]"

lemma handle_hello_reply:
  assumes "rf_type f = RemoteMessageType.Hello"
  shows "\<exists>e'. ep_handle_frame f (e, []) = (e', remote_wire (rc_frame RemoteMessageType.HelloAck (rf_sequence f) hello_ack_payload)) \<and>
     ep_session_state e' = RemoteSessionState.Established \<and> ep_parser e' = ep_parser e \<and> ep_status e' = ep_status e \<and>
     ep_heartbeat_replies_enabled e' = ep_heartbeat_replies_enabled e"
  using assms
  by (simp add: ep_handle_frame_def ep_handle_hello_def Let_def rc_encode_frame_wire kRemoteLoopbackEvidenceTag_def)

lemma hello_ack_decodes:
  "decode_hello_ack hello_ack_payload = Some \<lparr>ha_protocol_version = kRemoteProtocolVersion, ha_evidence_tag = kRemoteLoopbackEvidenceTag\<rparr>"
  unfolding kRemoteLoopbackEvidenceTag_def kRemoteProtocolVersion_def by code_simp

lemma connect_opens:
  "\<exists>c' e'. rcl_connect_session st (c, Some e) = ((c', Some e'), True) \<and> rcl_connected c' \<and>
     rcl_session_state c' = RemoteSessionState.Established \<and> rcl_evidence_tag c' = kRemoteLoopbackEvidenceTag \<and>
     link_ready e' \<and> ep_status e' = st \<and> ep_heartbeat_replies_enabled e'"
proof -
  let ?e1 = "ep_set_status st (ep_reset_session e)"
  let ?f = "rc_frame RemoteMessageType.Hello (rcl_next_sequence c) [kRemoteProtocolVersion]"
  let ?g = "rc_frame RemoteMessageType.HelloAck (rcl_next_sequence c) hello_ack_payload"
  have buf: "rp_buffer (ep_parser ?e1) = []" by (simp add: ep_set_status_def ep_reset_session_def rp_clear_def)
  have enc: "remote_enc ?f = Some (remote_wire ?f)" "remote_enc ?g = Some (remote_wire ?g)"
    by (simp_all add: rc_frame_enc named_RemoteMessageType_def kRemoteLoopbackEvidenceTag_def)
  obtain e' where e': "ep_handle_frame ?f (?e1, []) = (e', remote_wire ?g)" "ep_session_state e' = RemoteSessionState.Established"
    "ep_parser e' = ep_parser ?e1" "ep_status e' = ep_status ?e1" "ep_heartbeat_replies_enabled e' = ep_heartbeat_replies_enabled ?e1"
    using handle_hello_reply [of ?f ?e1] by auto
  have req: "encode_hello (rcl_next_sequence c) [] = (remote_wire ?f, True)"
    by (simp add: encode_hello_def rc_encode_frame_wire)
  have fields: "ep_status e' = st" "ep_heartbeat_replies_enabled e'" "link_ready e'"
    using e'(2-5) buf by (simp_all add: link_ready_def ep_set_status_def ep_reset_session_def)
  have ack: "decode_hello_ack (rf_payload ?g) = Some \<lparr>ha_protocol_version = kRemoteProtocolVersion, ha_evidence_tag = kRemoteLoopbackEvidenceTag\<rparr>"
    using hello_ack_decodes by simp
  show ?thesis
    unfolding rcl_connect_session_def Let_def split_conv option.case req exchange_one [OF enc(1) buf e'(1) enc(2)] ack
    using fields by simp
qed

lemma handle_heartbeat_reply:
  assumes "rf_type f = RemoteMessageType.Heartbeat" and "ep_session_state e = RemoteSessionState.Established" and "length (rf_payload f) = 8"
  shows "\<exists>e'. ep_handle_frame f (e, []) =
       (e', if ep_heartbeat_replies_enabled e then remote_wire (rc_frame RemoteMessageType.HeartbeatAck (rf_sequence f) (rf_payload f)) else []) \<and>
     ep_session_state e' = ep_session_state e \<and> ep_parser e' = ep_parser e \<and> ep_status e' = ep_status e \<and>
     ep_heartbeat_replies_enabled e' = ep_heartbeat_replies_enabled e"
  using assms
  by (simp add: ep_handle_frame_def ep_handle_heartbeat_def Let_def rc_encode_frame_wire)

lemma poll_on_session:
  assumes "rcl_connected c" and "link_ready e"
  shows "\<exists>c' e'. rcl_poll_heartbeat t (c, Some e) = ((c', Some e'), ep_heartbeat_replies_enabled e) \<and>
     rcl_connected c' \<and> link_ready e' \<and> ep_status e' = ep_status e \<and>
     ep_heartbeat_replies_enabled e' = ep_heartbeat_replies_enabled e \<and>
     rcl_heartbeats_ok c' = rcl_heartbeats_ok c + (if ep_heartbeat_replies_enabled e then 1 else 0) \<and>
     rcl_heartbeats_missed c' = rcl_heartbeats_missed c + (if ep_heartbeat_replies_enabled e then 0 else 1)"
proof -
  let ?f = "rc_frame RemoteMessageType.Heartbeat (rcl_next_sequence c) (append_i64_le [] t)"
  let ?g = "rc_frame RemoteMessageType.HeartbeatAck (rcl_next_sequence c) (append_i64_le [] t)"
  have len: "length (append_i64_le [] t) = 8" by (simp add: append_i64_le_eq)
  have enc: "remote_enc ?f = Some (remote_wire ?f)" "remote_enc ?g = Some (remote_wire ?g)"
    using len by (simp_all add: rc_frame_enc named_RemoteMessageType_def)
  have buf: "rp_buffer (ep_parser e) = []" using assms(2) by (simp add: link_ready_def)
  obtain e' where e': "ep_handle_frame ?f (e, []) = (e', if ep_heartbeat_replies_enabled e then remote_wire ?g else [])"
    "ep_session_state e' = ep_session_state e" "ep_parser e' = ep_parser e" "ep_status e' = ep_status e"
    "ep_heartbeat_replies_enabled e' = ep_heartbeat_replies_enabled e"
    using handle_heartbeat_reply [of ?f e] assms(2) len by (auto simp: link_ready_def)
  have req: "rc_encode_heartbeat (rcl_next_sequence c) t [] = (remote_wire ?f, True)"
    using len by (simp add: rc_encode_heartbeat_def rc_encode_frame_wire)
  show ?thesis
    using assms e'
    by (simp add: rcl_poll_heartbeat_def Let_def req push_one_frame [OF enc(1) buf] reply_parses [OF enc(2)] link_ready_def)
qed

lemma handle_get_status_reply:
  assumes "rf_type f = RemoteMessageType.GetStatus" and "ep_session_state e = RemoteSessionState.Established"
  shows "\<exists>e'. ep_handle_frame f (e, []) =
       (e', remote_wire (rc_frame RemoteMessageType.Status (rf_sequence f) (status_bytes (ep_status e)))) \<and>
     ep_session_state e' = ep_session_state e \<and> ep_parser e' = ep_parser e \<and> ep_status e' = ep_status e \<and>
     ep_heartbeat_replies_enabled e' = ep_heartbeat_replies_enabled e"
  using assms
  by (simp add: ep_handle_frame_def ep_handle_get_status_def encode_remote_status_eq Let_def rc_encode_frame_wire)

lemma decode_status_total: "length p = 64 \<Longrightarrow> \<exists>s. decode_remote_status_payload p = Some s"
  by (simp add: decode_remote_status_payload_def kRemoteStatusWireSize_def)

lemma refresh_on_session:
  assumes "rcl_connected c" and "link_ready e"
  shows "\<exists>c' e'. rcl_refresh_status (c, Some e) = ((c', Some e'), True) \<and> rcl_connected c' \<and> link_ready e' \<and>
     ep_status e' = ep_status e \<and> ep_heartbeat_replies_enabled e' = ep_heartbeat_replies_enabled e \<and>
     (status_typed (ep_status e) \<longrightarrow> rcl_last_status c' = ep_status e) \<and>
     rcl_status_ok c' = rcl_status_ok c + 1"
proof -
  let ?f = "rc_frame RemoteMessageType.GetStatus (rcl_next_sequence c) []"
  let ?g = "rc_frame RemoteMessageType.Status (rcl_next_sequence c) (status_bytes (ep_status e))"
  have enc: "remote_enc ?f = Some (remote_wire ?f)" "remote_enc ?g = Some (remote_wire ?g)"
    by (simp_all add: rc_frame_enc named_RemoteMessageType_def)
  have buf: "rp_buffer (ep_parser e) = []" using assms(2) by (simp add: link_ready_def)
  obtain e' where e': "ep_handle_frame ?f (e, []) = (e', remote_wire ?g)"
    "ep_session_state e' = ep_session_state e" "ep_parser e' = ep_parser e" "ep_status e' = ep_status e"
    "ep_heartbeat_replies_enabled e' = ep_heartbeat_replies_enabled e"
    using handle_get_status_reply [of ?f e] assms(2) by (auto simp: link_ready_def)
  have req: "encode_get_status (rcl_next_sequence c) [] = (remote_wire ?f, True)"
    by (simp add: encode_get_status_def rc_encode_frame_wire)
  obtain s where s: "decode_remote_status_payload (status_bytes (ep_status e)) = Some s"
    using decode_status_total [of "status_bytes (ep_status e)"] by auto
  have "status_typed (ep_status e) \<Longrightarrow> s = ep_status e" using s remote_status_roundtrip by simp
  then show ?thesis
    using assms e' s
    by (simp add: rcl_refresh_status_def Let_def req exchange_one [OF enc(1) buf e'(1) enc(2)] link_ready_def)
qed

section \<open>Runs of client operations\<close>

datatype LinkOp = LConnect RemoteStatusView | LDisconnect | LPoll i64 | LRefresh
  | LSetReplies bool | LSetStatus RemoteStatusView

fun link_step :: "LinkOp \<Rightarrow> RemoteLink \<Rightarrow> RemoteLink" where
  "link_step (LConnect st) l = fst (rcl_connect_session st l)"
| "link_step LDisconnect l = rcl_disconnect_session l"
| "link_step (LPoll t) l = fst (rcl_poll_heartbeat t l)"
| "link_step LRefresh l = fst (rcl_refresh_status l)"
| "link_step (LSetReplies b) l = apsnd (map_option (ep_set_heartbeat_replies b)) l"
| "link_step (LSetStatus st) l = apsnd (map_option (ep_set_status st)) l"

definition link_inv :: "RemoteLink \<Rightarrow> bool" where
  "link_inv l \<longleftrightarrow> (\<exists>e. snd l = Some e \<and> (rcl_connected (fst l) \<longrightarrow> link_ready e))"

lemma link_step_inv: "link_inv l \<Longrightarrow> link_inv (link_step op l)"
proof -
  assume inv: "link_inv l"
  then obtain c e where l: "l = (c, Some e)" by (cases l) (auto simp: link_inv_def)
  show ?thesis
  proof (cases op)
    case (LConnect st)
    then show ?thesis using connect_opens [of st c e] l by (auto simp: link_inv_def)
  next
    case (LPoll t)
    then show ?thesis using poll_on_session [of c e t] inv l
      by (cases "rcl_connected c") (auto simp: link_inv_def rcl_poll_heartbeat_def rcl_fail_def)
  next
    case LRefresh
    then show ?thesis using refresh_on_session [of c e] inv l
      by (cases "rcl_connected c") (auto simp: link_inv_def rcl_refresh_status_def rcl_fail_def)
  qed (use inv l in \<open>auto simp: link_inv_def rcl_disconnect_session_def link_ready_def ep_set_heartbeat_replies_def ep_set_status_def\<close>)
qed

interpretation rlm: machine link_step link_inv
  by unfold_locales (rule link_step_inv)

text \<open>
  The client reports what the endpoint does: after any sequence of connects,
  disconnects, polls, refreshes and changes at the endpoint, a connected client
  has a live session; its next heartbeat poll succeeds exactly when the endpoint
  answers heartbeats, adding one to the answered or to the missed count; its next
  refresh succeeds and stores the endpoint's own status.
\<close>

theorem remote_client_honest:
  assumes "fold link_step ops (rcl_init, Some ep_init) = (c, ep)" and "rcl_connected c"
  shows "\<exists>e. ep = Some e \<and> ep_session_state e = RemoteSessionState.Established \<and>
     (\<forall>t. snd (rcl_poll_heartbeat t (c, ep)) = ep_heartbeat_replies_enabled e) \<and>
     (\<forall>t. rcl_heartbeats_missed (fst (fst (rcl_poll_heartbeat t (c, ep)))) =
          rcl_heartbeats_missed c + (if ep_heartbeat_replies_enabled e then 0 else 1)) \<and>
     snd (rcl_refresh_status (c, ep)) \<and>
     (status_typed (ep_status e) \<longrightarrow> rcl_last_status (fst (fst (rcl_refresh_status (c, ep)))) = ep_status e)"
proof -
  have "link_inv (rcl_init, Some ep_init)" by (simp add: link_inv_def rcl_init_def)
  then have "link_inv (c, ep)" using rlm.run_inv [of "(rcl_init, Some ep_init)" ops] assms(1) by simp
  then obtain e where e: "ep = Some e" "link_ready e" using assms(2) by (auto simp: link_inv_def)
  have poll: "snd (rcl_poll_heartbeat t (c, ep)) = ep_heartbeat_replies_enabled e \<and>
      rcl_heartbeats_missed (fst (fst (rcl_poll_heartbeat t (c, ep)))) =
      rcl_heartbeats_missed c + (if ep_heartbeat_replies_enabled e then 0 else 1)" for t
    using poll_on_session [OF assms(2) e(2), of t] e(1) by auto
  show ?thesis
    using poll refresh_on_session [OF assms(2) e(2)] e by (auto simp: link_ready_def)
qed

theorem remote_client_honest_witness:
  "snd (rcl_refresh_status (link_step (LConnect status_view_default) (rcl_init, Some ep_init)))"
proof -
  obtain c e where c: "link_step (LConnect status_view_default) (rcl_init, Some ep_init) = (c, Some e)" "rcl_connected c"
    using connect_opens [of status_view_default rcl_init ep_init] by auto
  then show ?thesis
    using remote_client_honest [of "[LConnect status_view_default]" c "Some e"] by simp
qed

end
