(* ===== verification/Modbus_Rtu.thy ===== *)
theory Modbus_Rtu
  imports Wire_Bytes
begin

text \<open>
  Modbus RTU line codec of \<^verbatim>\<open>linux/src/workbench/services/modbus_rtu.cpp\<close>: the read
  request, the bit reply, the single-coil write and its echo, and the
  hexadecimal rendering of a frame. The lemmas characterise exactly which
  replies each decoder accepts and show that a reply hit by an error burst of
  at most sixteen bits is never accepted.
\<close>

definition kModbusFnReadCoils :: u8 where "kModbusFnReadCoils = 0x01"
definition kModbusFnReadDiscreteInputs :: u8 where "kModbusFnReadDiscreteInputs = 0x02"
definition kModbusFnWriteSingleCoil :: u8 where "kModbusFnWriteSingleCoil = 0x05"
definition kMr0IoRegisterStart :: u16 where "kMr0IoRegisterStart = 0"
definition kMr0IoBitQuantity :: u16 where "kMr0IoBitQuantity = 8"

lemmas modbus_fn_defs = kModbusFnReadCoils_def kModbusFnReadDiscreteInputs_def
  kModbusFnWriteSingleCoil_def kMr0IoRegisterStart_def kMr0IoBitQuantity_def

section \<open>Hexadecimal rendering\<close>

definition hex_digit :: "nat \<Rightarrow> char" where
  "hex_digit n = (if n < 10 then char_of (48 + n) else char_of (87 + n))"

definition bytes_to_hex :: "u8 list \<Rightarrow> string" where
  "bytes_to_hex data =
     concat (map (\<lambda>b. [hex_digit (unat b div 16), hex_digit (unat b mod 16)]) data)"

section \<open>Requests\<close>

definition rtu_seal :: "u8 list \<Rightarrow> u8 list" where
  "rtu_seal frame =
     (let crc = modbus_rtu_crc16 frame
      in frame @ [ucast (crc AND 0xFF), ucast (drop_bit 8 crc AND 0xFF)])"

definition encode_rtu_read :: "u8 \<Rightarrow> u8 \<Rightarrow> u16 \<Rightarrow> u16 \<Rightarrow> u8 list" where
  "encode_rtu_read slave_id function address quantity =
     rtu_seal [slave_id, function,
       ucast (drop_bit 8 address AND 0xFF), ucast (address AND 0xFF),
       ucast (drop_bit 8 quantity AND 0xFF), ucast (quantity AND 0xFF)]"

definition encode_rtu_write_single_coil :: "u8 \<Rightarrow> u16 \<Rightarrow> bool \<Rightarrow> u8 list" where
  "encode_rtu_write_single_coil slave_id address on =
     rtu_seal [slave_id, kModbusFnWriteSingleCoil,
       ucast (drop_bit 8 address AND 0xFF), ucast (address AND 0xFF),
       if on then 0xFF else 0x00, 0x00]"

section \<open>Replies\<close>

record ModbusRtuReadBits =
  rb_slave_id :: u8
  rb_function :: u8
  rb_bit_count :: u8
  rb_bit_byte :: u8
  rb_exception :: bool
  rb_exception_code :: u8

record ModbusRtuWriteCoil =
  wc_slave_id :: u8
  wc_function :: u8
  wc_address :: u16
  wc_on :: bool
  wc_exception :: bool
  wc_exception_code :: u8

definition rtu_crc_got :: "u8 list \<Rightarrow> u16" where
  "rtu_crc_got frame =
     ucast (frame ! (length frame - 2)) OR push_bit 8 (ucast (frame ! (length frame - 1)))"

definition rtu_crc_ok :: "u8 list \<Rightarrow> bool" where
  "rtu_crc_ok frame \<longleftrightarrow> rtu_crc_got frame = modbus_rtu_crc16 (take (length frame - 2) frame)"

definition decode_rtu_read_bits :: "u8 list \<Rightarrow> u8 \<Rightarrow> u8 \<Rightarrow> ModbusRtuReadBits Result" where
  "decode_rtu_read_bits frame expected_slave expected_function =
     (if length frame < 5 then Inl (Error InvalidArgument ''RTU reply shorter than 5 bytes'')
      else if \<not> rtu_crc_ok frame then Inl (Error Rejected ''RTU CRC mismatch'')
      else if frame ! 0 \<noteq> expected_slave then Inl (Error Rejected ''RTU slave id mismatch'')
      else if frame ! 1 AND 0x80 \<noteq> 0 then
        Inr \<lparr>rb_slave_id = frame ! 0, rb_function = frame ! 1, rb_bit_count = 0, rb_bit_byte = 0,
             rb_exception = True, rb_exception_code = (if length frame > 2 then frame ! 2 else 0)\<rparr>
      else if frame ! 1 \<noteq> expected_function then Inl (Error Rejected ''RTU function mismatch'')
      else if length frame < 6 then Inl (Error InvalidArgument ''RTU bit reply missing data'')
      else if frame ! 2 < 1 \<or> length frame \<noteq> 5 + unat (frame ! 2) then
        Inl (Error InvalidArgument ''RTU bit reply length mismatch'')
      else Inr \<lparr>rb_slave_id = frame ! 0, rb_function = frame ! 1, rb_bit_count = 8, rb_bit_byte = frame ! 3,
             rb_exception = False, rb_exception_code = 0\<rparr>)"

definition decode_rtu_write_single_coil :: "u8 list \<Rightarrow> u8 \<Rightarrow> u16 \<Rightarrow> bool \<Rightarrow> ModbusRtuWriteCoil Result" where
  "decode_rtu_write_single_coil frame expected_slave expected_address expected_on =
     (if length frame < 5 then Inl (Error InvalidArgument ''RTU write reply shorter than 5 bytes'')
      else if \<not> rtu_crc_ok frame then Inl (Error Rejected ''RTU CRC mismatch'')
      else if frame ! 0 \<noteq> expected_slave then Inl (Error Rejected ''RTU slave id mismatch'')
      else if frame ! 1 AND 0x80 \<noteq> 0 then
        Inr \<lparr>wc_slave_id = frame ! 0, wc_function = frame ! 1, wc_address = 0, wc_on = False,
             wc_exception = True, wc_exception_code = (if length frame > 2 then frame ! 2 else 0)\<rparr>
      else if frame ! 1 \<noteq> kModbusFnWriteSingleCoil then Inl (Error Rejected ''RTU function mismatch'')
      else if length frame \<noteq> 8 then Inl (Error InvalidArgument ''RTU FC05 reply length mismatch'')
      else
        let address = push_bit 8 (ucast (frame ! 2)) OR ucast (frame ! 3);
            on = (frame ! 4 = 0xFF \<and> frame ! 5 = 0x00)
        in if address \<noteq> expected_address then Inl (Error Rejected ''RTU FC05 address mismatch'')
           else if on \<noteq> expected_on then Inl (Error Rejected ''RTU FC05 value mismatch'')
           else Inr \<lparr>wc_slave_id = frame ! 0, wc_function = frame ! 1, wc_address = address, wc_on = on,
                  wc_exception = False, wc_exception_code = 0\<rparr>)"

section \<open>Checksums of whole frames\<close>

lemma rtu_split_last_two:
  assumes "2 \<le> length frame"
  shows "frame = take (length frame - 2) frame @ [frame ! (length frame - 2), frame ! (length frame - 1)]"
proof (rule nth_equalityI)
  fix i assume i: "i < length frame"
  consider "i < length frame - 2" | "i = length frame - 2" | "i = length frame - 1" using i by linarith
  then show "frame ! i = (take (length frame - 2) frame @ [frame ! (length frame - 2), frame ! (length frame - 1)]) ! i"
    using assms by cases (auto simp: nth_append)
qed (use assms in simp)

lemma rtu_crc_ok_residue: "2 \<le> length frame \<Longrightarrow> rtu_crc_ok frame \<longleftrightarrow> modbus_rtu_crc16 frame = 0"
  using rtu_split_last_two [of frame]
    crc_residue [of "take (length frame - 2) frame" "frame ! (length frame - 2)" "frame ! (length frame - 1)"]
  unfolding rtu_crc_ok_def rtu_crc_got_def by metis

lemma rtu_seal_eq: "rtu_seal frame = frame @ le_bytes 2 (modbus_rtu_crc16 frame)"
  using append_u16_le_eq [of frame "modbus_rtu_crc16 frame"] by (simp add: rtu_seal_def append_u16_le_def Let_def)

lemma length_rtu_seal [simp]: "length (rtu_seal frame) = length frame + 2"
  by (simp add: rtu_seal_eq)

lemma nth_rtu_seal [simp]: "i < length frame \<Longrightarrow> rtu_seal frame ! i = frame ! i"
  by (simp add: rtu_seal_eq nth_append)

lemma rtu_seal_crc_ok [simp]: "rtu_crc_ok (rtu_seal frame)"
proof -
  have "rtu_crc_got (rtu_seal frame) = read_u16_le (rtu_seal frame) (length frame)"
    by (simp add: rtu_crc_got_def read_u16_le_def)
  also have "\<dots> = modbus_rtu_crc16 frame"
    by (rule read_u16_le_field) (simp_all add: rtu_seal_eq)
  finally show ?thesis by (simp add: rtu_crc_ok_def) (simp add: rtu_seal_eq)
qed

text \<open>
  Two frames of the same length that differ only inside a window of at most
  sixteen bits cannot both carry a matching checksum. The window may reach into
  the checksum field itself.
\<close>

definition burst :: "u8 list \<Rightarrow> u8 list \<Rightarrow> bool" where
  "burst f g \<longleftrightarrow> f \<noteq> g \<and> (\<exists>xs w w' ys. bits_of f = xs @ w @ ys \<and> bits_of g = xs @ w' @ ys \<and>
     length w = length w' \<and> length w \<le> 16)"

lemma burst_length: "burst f g \<Longrightarrow> length f = length g"
proof -
  assume "burst f g"
  then have "length (bits_of f) = length (bits_of g)" unfolding burst_def by (auto simp del: length_bits_of)
  then show ?thesis by simp
qed

lemma burst_breaks_crc:
  assumes "burst f g" and "2 \<le> length f" and "rtu_crc_ok f"
  shows "\<not> rtu_crc_ok g"
proof
  assume "rtu_crc_ok g"
  then have eq: "modbus_rtu_crc16 f = modbus_rtu_crc16 g"
    using assms burst_length [OF assms(1)] by (simp add: rtu_crc_ok_residue)
  obtain xs w w' ys where w: "bits_of f = xs @ w @ ys" "bits_of g = xs @ w' @ ys" "length w = length w'" "length w \<le> 16"
    using assms(1) unfolding burst_def by auto
  then have "w = w'" using eq crc_burst [OF w(3,4)] by (simp add: modbus_crc_bits)
  then have "bits_of f = bits_of g" using w by simp
  then show False using assms(1) by (simp add: burst_def bits_of_inj)
qed

lemma burst_bytes:
  assumes "length m = length m'" and "length m \<le> 2" and "m \<noteq> m'"
  shows "burst (xs @ m @ ys) (xs @ m' @ ys)"
  unfolding burst_def bits_of_append using assms
  by (intro conjI exI [of _ "bits_of xs"] exI [of _ "bits_of m"] exI [of _ "bits_of m'"] exI [of _ "bits_of ys"]) simp_all

text \<open>
  C31. Bit errors on the serial line are caught: when a reply passes the checksum
  and the line flips any nonempty set of bits inside sixteen consecutive
  positions of it (checksum bytes included), both decoders refuse the damaged
  reply, whatever slave, function, address and value they expect.
\<close>

theorem rtu_burst_rejected:
  assumes "5 \<le> length f" and "rtu_crc_ok f" and "burst f g"
  shows "decode_rtu_read_bits g s fn = Inl (Error Rejected ''RTU CRC mismatch'') \<and>
         decode_rtu_write_single_coil g s a v = Inl (Error Rejected ''RTU CRC mismatch'')"
proof -
  have "\<not> rtu_crc_ok g" using burst_breaks_crc [OF assms(3) _ assms(2)] assms(1) by linarith
  moreover have "\<not> length g < 5" using burst_length [OF assms(3)] assms(1) by simp
  ultimately show ?thesis by (simp add: decode_rtu_read_bits_def decode_rtu_write_single_coil_def)
qed

theorem rtu_burst_rejected_witness:
  "decode_rtu_read_bits ([1, 2, 1] @ [4] @ drop 4 (rtu_seal [1, 2, 1, 5])) 1 2
     = Inl (Error Rejected ''RTU CRC mismatch'')"
proof -
  have "burst (rtu_seal [1, 2, 1, 5]) ([1, 2, 1] @ [4] @ drop 4 (rtu_seal [1, 2, 1, 5]))"
    using burst_bytes [of "[5]" "[4]" "[1, 2, 1]" "drop 4 (rtu_seal [1, 2, 1, 5])"] by (simp add: rtu_seal_eq)
  then show ?thesis
    using rtu_burst_rejected [of "rtu_seal [1, 2, 1, 5]" _ 1 2 0 True] by simp
qed

section \<open>Accepted replies\<close>

lemma rtu_sealed:
  assumes "2 \<le> length f" and "rtu_crc_ok f"
  shows "f = rtu_seal (take (length f - 2) f)"
proof -
  let ?a = "f ! (length f - 2)" and ?b = "f ! (length f - 1)"
  have "modbus_rtu_crc16 (take (length f - 2) f) = ucast ?a OR push_bit 8 (ucast ?b)"
    using assms(2) by (simp add: rtu_crc_ok_def rtu_crc_got_def)
  then show ?thesis using rtu_split_last_two [OF assms(1)] by (simp add: rtu_seal_eq le_bytes_join)
qed

lemma length_6_conv: "length xs = 6 \<longleftrightarrow> (\<exists>a b c d e f. xs = [a, b, c, d, e, f])"
  by (auto simp: numeral_eq_Suc length_Suc_conv)

lemma rtu_crc_ok_sealed: "2 \<le> length f \<Longrightarrow> rtu_crc_ok f \<longleftrightarrow> (\<exists>body. f = rtu_seal body)"
  using rtu_sealed by auto

text \<open>
  A coil write counts as confirmed exactly when the reply is a sealed
  eight-byte FC05 frame of the addressed slave and coil whose value field is
  FF00 for ON, and anything else for OFF. A confirmed ON is therefore the
  request byte for byte; a confirmed OFF only excludes the ON pattern.
\<close>

theorem coil_confirm_exact:
  "(decode_rtu_write_single_coil f s a on = Inr d \<and> \<not> wc_exception d) \<longleftrightarrow>
   (\<exists>hi lo. f = rtu_seal [s, kModbusFnWriteSingleCoil, ucast (drop_bit 8 a AND 0xFF), ucast (a AND 0xFF), hi, lo] \<and>
      (hi = 0xFF \<and> lo = 0) = on \<and>
      d = \<lparr>wc_slave_id = s, wc_function = kModbusFnWriteSingleCoil, wc_address = a, wc_on = on,
           wc_exception = False, wc_exception_code = 0\<rparr>)"
  (is "?dec \<longleftrightarrow> ?wire")
proof
  assume dec: ?dec
  then have ok: "length f = 8" "rtu_crc_ok f" "f ! 0 = s" "f ! 1 = kModbusFnWriteSingleCoil"
    "push_bit 8 (ucast (f ! 2)) OR ucast (f ! 3) = a" "(f ! 4 = 0xFF \<and> f ! 5 = 0) = on"
    and d: "d = \<lparr>wc_slave_id = s, wc_function = kModbusFnWriteSingleCoil, wc_address = a, wc_on = on,
           wc_exception = False, wc_exception_code = 0\<rparr>"
    unfolding decode_rtu_write_single_coil_def by (auto simp: Let_def split: if_splits)
  obtain b0 b1 b2 b3 b4 b5 where body: "take 6 f = [b0, b1, b2, b3, b4, b5]"
    using ok(1) length_6_conv [of "take 6 f"] by auto
  have nth: "b0 = f ! 0" "b1 = f ! 1" "b2 = f ! 2" "b3 = f ! 3" "b4 = f ! 4" "b5 = f ! 5"
    using arg_cong [OF body, of "\<lambda>xs. xs ! 0"] arg_cong [OF body, of "\<lambda>xs. xs ! 1"]
      arg_cong [OF body, of "\<lambda>xs. xs ! 2"] arg_cong [OF body, of "\<lambda>xs. xs ! 3"]
      arg_cong [OF body, of "\<lambda>xs. xs ! 4"] arg_cong [OF body, of "\<lambda>xs. xs ! 5"] ok(1) by simp_all
  have "f = rtu_seal [b0, b1, b2, b3, b4, b5]" using rtu_sealed [of f] ok(1,2) body by simp
  moreover have "b2 = ucast (drop_bit 8 a AND 0xFF)" "b3 = ucast (a AND 0xFF)"
    unfolding nth ok(5) [symmetric] by (simp_all only: be16_high be16_low)
  ultimately show ?wire using ok nth d by (intro exI [of _ b4] exI [of _ b5]) simp
next
  assume ?wire
  then obtain hi lo where f: "f = rtu_seal [s, kModbusFnWriteSingleCoil, ucast (drop_bit 8 a AND 0xFF), ucast (a AND 0xFF), hi, lo]"
    and rest: "(hi = 0xFF \<and> lo = 0) = on" "d = \<lparr>wc_slave_id = s, wc_function = kModbusFnWriteSingleCoil, wc_address = a, wc_on = on,
           wc_exception = False, wc_exception_code = 0\<rparr>" by auto
  have nth: "f ! 0 = s" "f ! 1 = kModbusFnWriteSingleCoil" "f ! 2 = ucast (drop_bit 8 a AND 0xFF)" "f ! 3 = ucast (a AND 0xFF)"
    "f ! 4 = hi" "f ! 5 = lo" "length f = 8" "rtu_crc_ok f" unfolding f by simp_all
  show ?dec unfolding decode_rtu_write_single_coil_def Let_def nth be16_join_split
    using rest nth(8) by (simp add: kModbusFnWriteSingleCoil_def)
qed

lemma coil_echo_confirms:
  "decode_rtu_write_single_coil (encode_rtu_write_single_coil s a on) s a on =
     Inr \<lparr>wc_slave_id = s, wc_function = kModbusFnWriteSingleCoil, wc_address = a, wc_on = on,
          wc_exception = False, wc_exception_code = 0\<rparr>"
proof -
  let ?f = "encode_rtu_write_single_coil s a on"
  have nth: "?f ! 0 = s" "?f ! 1 = kModbusFnWriteSingleCoil" "?f ! 2 = ucast (drop_bit 8 a AND 0xFF)" "?f ! 3 = ucast (a AND 0xFF)"
    "?f ! 4 = (if on then 0xFF else 0)" "?f ! 5 = 0" "length ?f = 8" "rtu_crc_ok ?f"
    unfolding encode_rtu_write_single_coil_def by simp_all
  show ?thesis unfolding decode_rtu_write_single_coil_def Let_def nth be16_join_split
    using nth(8) by (simp add: kModbusFnWriteSingleCoil_def)
qed

lemma read_bits_reply:
  assumes "fn AND 0x80 = 0" and "data \<noteq> []" and "length data < 256"
  shows "decode_rtu_read_bits (rtu_seal (s # fn # of_nat (length data) # data)) s fn =
     Inr \<lparr>rb_slave_id = s, rb_function = fn, rb_bit_count = 8, rb_bit_byte = hd data,
          rb_exception = False, rb_exception_code = 0\<rparr>"
proof -
  let ?f = "rtu_seal (s # fn # of_nat (length data) # data)"
  have nth: "?f ! 0 = s" "?f ! 1 = fn" "?f ! 2 = of_nat (length data)" "?f ! 3 = hd data" "length ?f = 5 + length data" "rtu_crc_ok ?f"
    using assms(2) by (simp_all add: hd_conv_nth)
  have "unat (of_nat (length data) :: u8) = length data" using assms(3) by (simp add: unat_of_nat)
  moreover have "\<not> (of_nat (length data) :: u8) < 1"
    using assms(2,3) calculation by (simp add: word_less_nat_alt)
  moreover have "0 < length data" using assms(2) by simp
  ultimately show ?thesis unfolding decode_rtu_read_bits_def nth using assms(1) by simp
qed

lemma read_bits_exception:
  assumes "fn AND 0x80 \<noteq> 0"
  shows "decode_rtu_read_bits (rtu_seal [s, fn, code]) s fn' =
     Inr \<lparr>rb_slave_id = s, rb_function = fn, rb_bit_count = 0, rb_bit_byte = 0,
          rb_exception = True, rb_exception_code = code\<rparr>"
proof -
  let ?f = "rtu_seal [s, fn, code]"
  have nth: "?f ! 0 = s" "?f ! 1 = fn" "?f ! 2 = code" "length ?f = 5" "rtu_crc_ok ?f"
    by simp_all
  show ?thesis unfolding decode_rtu_read_bits_def nth using assms by simp
qed

end
