(* ===== verification/Serial_Port.thy ===== *)
theory Serial_Port
  imports Modbus_Rtu
begin

text \<open>
  The blocking serial port of \<^verbatim>\<open>linux/src/workbench/services/posix_serial_port.cpp\<close>.
  The results of the system calls are inputs: \<open>SerialOpenOutcome\<close> says which call of
  \<open>open\<close> fails, \<open>SerialScript\<close> lists what \<open>write\<close>, \<open>tcdrain\<close>, the clock, \<open>poll\<close> and \<open>read\<close> give
  in one transaction. After its listed entries the kernel takes the rest of the
  request in one piece, and the first clock reading past the listed iterations
  is at the deadline. The lemmas show that a complete reply is returned whole,
  and as soon as it is complete, however the driver fragments it.
\<close>

section \<open>Opening\<close>

record PosixSerialConfig =
  sc_device :: string
  sc_baud_rate :: u32
  sc_parity :: char

record PosixSerialPort =
  sp_fd_valid :: bool
  sp_device :: string

definition serial_init :: PosixSerialPort where
  "serial_init = \<lparr>sp_fd_valid = False, sp_device = []\<rparr>"

definition io_error :: "string \<Rightarrow> string \<Rightarrow> Error" where
  "io_error prefix strerror = Error IoError (prefix @ '': '' @ strerror)"

definition posix_baud :: "u32 \<Rightarrow> u32" where
  "posix_baud baud = (if baud \<in> {9600, 19200, 38400, 115200} then baud else 0)"

datatype SerialOpenOutcome = OpenOk | OpenFails string | GetAttrFails string | SetSpeedFails string | SetAttrFails string

definition serial_close :: "PosixSerialPort \<Rightarrow> PosixSerialPort" where
  "serial_close p = p\<lparr>sp_fd_valid := False, sp_device := []\<rparr>"

definition serial_open :: "PosixSerialConfig \<Rightarrow> SerialOpenOutcome \<Rightarrow> PosixSerialPort \<Rightarrow> PosixSerialPort \<times> unit Result" where
  "serial_open config outcome p =
     (let p1 = serial_close p in
      if posix_baud (sc_baud_rate config) = 0 then (p1, Inl (Error InvalidArgument ''unsupported serial baud''))
      else if sc_parity config \<noteq> CHR ''N'' \<and> sc_parity config \<noteq> CHR ''E'' \<and> sc_parity config \<noteq> CHR ''O'' then
        (p1, Inl (Error InvalidArgument ''unsupported serial parity''))
      else case outcome of
        OpenFails e \<Rightarrow> (p1, Inl (io_error ''open serial'' e))
      | GetAttrFails e \<Rightarrow> (p1, Inl (io_error ''tcgetattr'' e))
      | SetSpeedFails e \<Rightarrow> (p1, Inl (io_error ''cfsetspeed'' e))
      | SetAttrFails e \<Rightarrow> (p1, Inl (io_error ''tcsetattr'' e))
      | OpenOk \<Rightarrow> (p1\<lparr>sp_fd_valid := True, sp_device := sc_device config\<rparr>, Inr ()))"

section \<open>One transaction\<close>

datatype WriteCall = Wrote nat | WriteEintr | WriteFails string
datatype PollCall = PollReady | PollTimeout | PollEintr | PollFails string
datatype ReadCall = ReadBytes "u8 list" | ReadEintr | ReadFails string

record SerialStep =
  st_loop_now :: i64
  st_left_now :: i64
  st_poll :: PollCall
  st_read :: ReadCall

record SerialScript =
  ser_writes :: "WriteCall list"
  ser_drain :: "string option"
  ser_start :: i64
  ser_steps :: "SerialStep list"

text \<open>The write loop: \<open>None\<close> when the whole request was written.\<close>

fun serial_write :: "nat \<Rightarrow> nat \<Rightarrow> WriteCall list \<Rightarrow> Error option" where
  "serial_write written len [] = None"
| "serial_write written len (c # cs) =
     (if written \<ge> len then None
      else case c of
        WriteEintr \<Rightarrow> serial_write written len cs
      | WriteFails e \<Rightarrow> Some (io_error ''serial write'' e)
      | Wrote n \<Rightarrow> serial_write (written + n) len cs)"

text \<open>The completeness test after each read: the reply to return, if it is complete.\<close>

definition reply_complete :: "u8 list \<Rightarrow> u8 list option" where
  "reply_complete reply =
     (if length reply \<ge> 5 then
        let function = reply ! 1 in
        if function AND 0x80 \<noteq> 0 then (if length reply \<ge> 5 then Some reply else None)
        else if function = 0x01 \<or> function = 0x02 then
          (let expected = 5 + unat (reply ! 2) in
           if length reply \<ge> expected then Some (take expected reply) else None)
        else if function = 0x05 then (if length reply \<ge> 8 then Some (take 8 reply) else None)
        else if length reply \<ge> 8 then Some reply
        else None
      else None)"

definition serial_finish :: "u8 list \<Rightarrow> u8 list Result" where
  "serial_finish reply = (if reply = [] then Inl (Error Timeout ''serial RTU timeout'') else Inr reply)"

fun serial_collect :: "i64 \<Rightarrow> u8 list \<Rightarrow> SerialStep list \<Rightarrow> u8 list Result" where
  "serial_collect deadline reply [] = serial_finish reply"
| "serial_collect deadline reply (s # ss) =
     (if \<not> st_loop_now s < deadline then serial_finish reply
      else if (deadline - st_left_now s) div 1000000 \<le> 0 then serial_finish reply
      else case st_poll s of
        PollEintr \<Rightarrow> serial_collect deadline reply ss
      | PollFails e \<Rightarrow> Inl (io_error ''serial poll'' e)
      | PollTimeout \<Rightarrow> serial_finish reply
      | PollReady \<Rightarrow> (case st_read s of
          ReadEintr \<Rightarrow> serial_collect deadline reply ss
        | ReadFails e \<Rightarrow> Inl (io_error ''serial read'' e)
        | ReadBytes buf \<Rightarrow>
            if buf = [] then Inl (Error IoError ''serial hung up'')
            else case reply_complete (reply @ buf) of
              Some r \<Rightarrow> Inr r
            | None \<Rightarrow> serial_collect deadline (reply @ buf) ss))"

definition serial_transact :: "u8 list \<Rightarrow> i64 \<Rightarrow> SerialScript \<Rightarrow> PosixSerialPort \<Rightarrow> u8 list Result" where
  "serial_transact request timeout_ms script p =
     (if \<not> sp_fd_valid p then Inl (Error NotOpen ''serial port not open'')
      else if request = [] then Inl (Error InvalidArgument ''empty RTU request'')
      else if timeout_ms \<le> 0 then Inl (Error InvalidArgument ''serial timeout must be positive'')
      else case serial_write 0 (length request) (ser_writes script) of
        Some e \<Rightarrow> Inl e
      | None \<Rightarrow> (case ser_drain script of
          Some e \<Rightarrow> Inl (io_error ''tcdrain'' e)
        | None \<Rightarrow> serial_collect (ser_start script + timeout_ms * 1000000) [] (ser_steps script)))"

section \<open>Fragmentation\<close>

text \<open>
  \<open>reply_frame f\<close>: \<open>f\<close> is a whole reply whose length the port can tell from its bytes.
  Exception replies have five bytes, bit reads announce their size, and coil
  writes echo eight bytes.
\<close>

definition reply_frame :: "u8 list \<Rightarrow> bool" where
  "reply_frame f \<longleftrightarrow> length f \<ge> 5 \<and>
     (if f ! 1 AND 0x80 \<noteq> 0 then length f = 5
      else if f ! 1 = 0x01 \<or> f ! 1 = 0x02 then length f = 5 + unat (f ! 2)
      else f ! 1 = 0x05 \<and> length f = 8)"

lemma reply_frame_complete: "reply_frame f \<Longrightarrow> reply_complete f = Some f"
  by (auto simp: reply_frame_def reply_complete_def Let_def split: if_splits)

lemma reply_prefix_incomplete:
  assumes "reply_frame f" and "f = p @ q" and "q \<noteq> []"
  shows "reply_complete p = None"
proof (cases "length p < 5")
  case True then show ?thesis by (simp add: reply_complete_def)
next
  case False
  then have "p ! 1 = f ! 1" "p ! 2 = f ! 2" "length p < length f"
    using assms(2,3) by (auto simp: nth_append)
  then show ?thesis using assms(1) False
    by (auto simp: reply_frame_def reply_complete_def Let_def split: if_splits)
qed

text \<open>A step that delivers bytes in time, and the bytes a list of steps delivers.\<close>

definition in_time :: "i64 \<Rightarrow> SerialStep \<Rightarrow> bool" where
  "in_time deadline s \<longleftrightarrow> st_loop_now s < deadline \<and> deadline - st_left_now s \<ge> 1000000 \<and>
     (st_poll s = PollEintr \<or> st_poll s = PollReady \<and>
       (st_read s = ReadEintr \<or> (\<exists>b. st_read s = ReadBytes b \<and> b \<noteq> [])))"

definition step_bytes :: "SerialStep \<Rightarrow> u8 list" where
  "step_bytes s = (case st_poll s of PollReady \<Rightarrow> (case st_read s of ReadBytes b \<Rightarrow> b | _ \<Rightarrow> []) | _ \<Rightarrow> [])"

lemma collect_fragments:
  assumes "reply_frame f" and "f = reply @ concat (map step_bytes ss)" and "reply \<noteq> f"
    and "list_all (in_time deadline) ss"
  shows "serial_collect deadline reply ss = Inr f"
  using assms
proof (induction ss arbitrary: reply)
  case Nil then show ?case by simp
next
  case (Cons s ss)
  have guards: "st_loop_now s < deadline" "\<not> (deadline - st_left_now s) div 1000000 \<le> 0"
    using Cons.prems(4) by (auto simp: in_time_def)
  show ?case
  proof (cases "step_bytes s = []")
    case True
    with Cons guards show ?thesis
      by (auto simp: in_time_def step_bytes_def)
  next
    case False
    then have s: "st_poll s = PollReady" "st_read s = ReadBytes (step_bytes s)"
      by (auto simp: step_bytes_def split: PollCall.splits ReadCall.splits)
    show ?thesis
    proof (cases "reply @ step_bytes s = f")
      case True
      with Cons.prems(1) guards s False show ?thesis by (simp add: reply_frame_complete)
    next
      case more: False
      moreover have eq: "f = (reply @ step_bytes s) @ concat (map step_bytes ss)"
        using Cons.prems(2) by simp
      ultimately have "reply_complete (reply @ step_bytes s) = None"
        using reply_prefix_incomplete [OF Cons.prems(1) eq] by auto
      with Cons.IH [OF Cons.prems(1) eq more] Cons.prems(4) guards s False show ?thesis by simp
    qed
  qed
qed

lemma serial_write_all: "list_all (\<lambda>c. \<forall>e. c \<noteq> WriteFails e) cs \<Longrightarrow> serial_write w len cs = None"
  by (induction w len cs rule: serial_write.induct) (auto split: WriteCall.split)

text \<open>
  C30. A reply reaches the caller whole however the driver cuts it up. Take any
  complete exception, bit-read or coil reply, and any transaction on an open
  port in which no write or drain fails and the reads, interrupted calls
  included, deliver exactly those bytes before the deadline. Then the
  transaction returns exactly the reply.
\<close>
theorem serial_fragments:
  assumes "sp_fd_valid p" and "request \<noteq> []" and "0 < timeout_ms"
    and "list_all (\<lambda>c. \<forall>e. c \<noteq> WriteFails e) (ser_writes script)" and "ser_drain script = None"
    and "list_all (in_time (ser_start script + timeout_ms * 1000000)) (ser_steps script)"
    and "reply_frame f" and "concat (map step_bytes (ser_steps script)) = f"
  shows "serial_transact request timeout_ms script p = Inr f"
proof -
  have "f \<noteq> []" using assms(7) by (auto simp: reply_frame_def)
  then have "serial_collect (ser_start script + timeout_ms * 1000000) [] (ser_steps script) = Inr f"
    using assms by (intro collect_fragments) auto
  with assms show ?thesis by (simp add: serial_transact_def serial_write_all)
qed

definition example_step :: "ReadCall \<Rightarrow> SerialStep" where
  "example_step r = \<lparr>st_loop_now = 5, st_left_now = 6, st_poll = PollReady, st_read = r\<rparr>"

theorem serial_fragments_witness:
  "serial_transact (encode_rtu_write_single_coil 1 0 True) 200
     \<lparr>ser_writes = [Wrote 3, WriteEintr], ser_drain = None, ser_start = 0,
      ser_steps = map example_step [ReadBytes [1, 5, 0], ReadEintr, ReadBytes [0, 0xFF, 0, 0x8C], ReadBytes [0x3A]]\<rparr>
     \<lparr>sp_fd_valid = True, sp_device = ''/dev/ttyS7''\<rparr>
   = Inr [1, 5, 0, 0, 0xFF, 0, 0x8C, 0x3A]"
  by (rule serial_fragments)
    (simp_all add: in_time_def step_bytes_def example_step_def reply_frame_def encode_rtu_write_single_coil_def rtu_seal_def Let_def)

text \<open>Silence is a timeout, and a failed operation leaves the port open.\<close>

lemma serial_silence:
  "sp_fd_valid p \<Longrightarrow> request \<noteq> [] \<Longrightarrow> 0 < timeout_ms \<Longrightarrow>
   list_all (\<lambda>c. \<forall>e. c \<noteq> WriteFails e) (ser_writes script) \<Longrightarrow> ser_drain script = None \<Longrightarrow>
   list_all (\<lambda>s. st_poll s = PollTimeout \<or> st_poll s = PollEintr) (ser_steps script) \<Longrightarrow>
   serial_transact request timeout_ms script p = Inl (Error Timeout ''serial RTU timeout'')"
proof -
  assume a: "sp_fd_valid p" "request \<noteq> []" "0 < timeout_ms"
    "list_all (\<lambda>c. \<forall>e. c \<noteq> WriteFails e) (ser_writes script)" "ser_drain script = None"
    "list_all (\<lambda>s. st_poll s = PollTimeout \<or> st_poll s = PollEintr) (ser_steps script)"
  have "list_all (\<lambda>s. st_poll s = PollTimeout \<or> st_poll s = PollEintr) ss \<Longrightarrow>
      serial_collect d [] ss = Inl (Error Timeout ''serial RTU timeout'')" for d ss
    by (induction ss) (auto simp: serial_finish_def)
  with a show ?thesis by (simp add: serial_transact_def serial_write_all)
qed

lemma serial_open_device:
  "serial_open c OpenOk p = (p', Inr u) \<Longrightarrow> sp_fd_valid p' \<and> sp_device p' = sc_device c"
  by (auto simp: serial_open_def Let_def split: if_splits)

lemma serial_open_failed:
  "serial_open c out p = (p', Inl e) \<Longrightarrow> \<not> sp_fd_valid p' \<and> sp_device p' = []"
  by (auto simp: serial_open_def serial_close_def Let_def split: if_splits SerialOpenOutcome.splits)

end
