(* ===== verification/Sock_Io.thy ===== *)
theory Sock_Io
  imports Frame_Stream Serial_Port
begin

text \<open>
  Socket plumbing the workbench services share: the send loop, the bounded
  receive loop of \<^verbatim>\<open>read_frame\<close> and \<^verbatim>\<open>read_request\<close>, the non-blocking \<^verbatim>\<open>connect\<close> and
  \<^verbatim>\<open>listen\<close> of \<^verbatim>\<open>linux/src/workbench/services/modbus_agent_client.cpp\<close>,
  \<^verbatim>\<open>modbus_agent_server.cpp\<close>, \<^verbatim>\<open>cell_app_client.cpp\<close> and \<^verbatim>\<open>cell_app_server.cpp\<close>. System calls
  are inputs as in \<open>Serial_Port\<close>. The last part scans one envelope off a buffer, the
  common core of the agent and cell decoders.
\<close>

section \<open>Sending\<close>

definition sock_error :: "string \<Rightarrow> string \<Rightarrow> Error" where
  "sock_error what strerror = Error IoError (what @ '': '' @ strerror)"

fun write_all_from :: "nat \<Rightarrow> nat \<Rightarrow> WriteCall list \<Rightarrow> unit Result" where
  "write_all_from sent len [] = Inr ()"
| "write_all_from sent len (c # cs) =
     (if sent \<ge> len then Inr ()
      else case c of
        WriteEintr \<Rightarrow> write_all_from sent len cs
      | WriteFails e \<Rightarrow> Inl (sock_error ''send'' e)
      | Wrote n \<Rightarrow> write_all_from (sent + n) len cs)"

definition write_all :: "u8 list \<Rightarrow> WriteCall list \<Rightarrow> unit Result" where
  "write_all bytes calls = write_all_from 0 (length bytes) calls"

definition no_write_failure :: "WriteCall list \<Rightarrow> bool" where
  "no_write_failure calls \<longleftrightarrow> list_all (\<lambda>c. case c of WriteFails e \<Rightarrow> False | _ \<Rightarrow> True) calls"

lemma write_all_ok: "no_write_failure calls \<Longrightarrow> write_all bytes calls = Inr ()"
proof -
  have "list_all (\<lambda>c. case c of WriteFails e \<Rightarrow> False | _ \<Rightarrow> True) calls \<Longrightarrow> write_all_from s n calls = Inr ()" for s n
    by (induction s n calls rule: write_all_from.induct) (auto split: WriteCall.splits)
  then show "no_write_failure calls \<Longrightarrow> ?thesis" by (simp add: write_all_def no_write_failure_def)
qed

section \<open>Receiving\<close>

text \<open>
  The receive loop with what differs between its four copies: the four errors and
  the decoder that is tried after each chunk. An empty chunk is a closed
  connection. The first clock reading past the listed iterations is at the
  deadline.
\<close>

record RecvErrors =
  re_timeout :: Error
  re_poll :: "string \<Rightarrow> Error"
  re_recv :: "string \<Rightarrow> Error"
  re_closed :: Error

fun recv_loop :: "RecvErrors \<Rightarrow> (u8 list \<Rightarrow> 'r Result) \<Rightarrow> i64 \<Rightarrow> u8 list \<Rightarrow> SerialStep list \<Rightarrow> 'r Result" where
  "recv_loop errs decode deadline buffer [] = Inl (re_timeout errs)"
| "recv_loop errs decode deadline buffer (s # ss) =
     (if \<not> st_loop_now s < deadline then Inl (re_timeout errs)
      else if (deadline - st_left_now s) div 1000000 \<le> 0 then Inl (re_timeout errs)
      else case st_poll s of
        PollEintr \<Rightarrow> recv_loop errs decode deadline buffer ss
      | PollFails e \<Rightarrow> Inl (re_poll errs e)
      | PollTimeout \<Rightarrow> Inl (re_timeout errs)
      | PollReady \<Rightarrow> (case st_read s of
          ReadEintr \<Rightarrow> recv_loop errs decode deadline buffer ss
        | ReadFails e \<Rightarrow> Inl (re_recv errs e)
        | ReadBytes chunk \<Rightarrow>
            if chunk = [] then Inl (re_closed errs)
            else case decode (buffer @ chunk) of
              Inr r \<Rightarrow> Inr r
            | Inl e \<Rightarrow> if err_code e = WouldBlock then recv_loop errs decode deadline (buffer @ chunk) ss else Inl e))"

record RecvScript =
  rs_start :: i64
  rs_steps :: "SerialStep list"

text \<open>A script that delivers exactly the bytes \<open>w\<close> in time.\<close>

definition delivers :: "i64 \<Rightarrow> u8 list \<Rightarrow> RecvScript \<Rightarrow> bool" where
  "delivers timeout_ms w script \<longleftrightarrow>
     list_all (in_time (rs_start script + timeout_ms * 1000000)) (rs_steps script) \<and>
     concat (map step_bytes (rs_steps script)) = w"

lemma recv_loop_frame:
  assumes "decode w = Inr r" and "\<And>p. strict_prefix p w \<Longrightarrow> \<exists>e. decode p = Inl e \<and> err_code e = WouldBlock"
    and "w = buffer @ concat (map step_bytes ss)" and "buffer \<noteq> w" and "list_all (in_time deadline) ss"
  shows "recv_loop errs decode deadline buffer ss = Inr r"
  using assms
proof (induction ss arbitrary: buffer)
  case Nil then show ?case by simp
next
  case (Cons s ss)
  have guards: "st_loop_now s < deadline" "\<not> (deadline - st_left_now s) div 1000000 \<le> 0"
    using Cons.prems(5) by (auto simp: in_time_def)
  show ?case
  proof (cases "step_bytes s = []")
    case True
    with Cons guards show ?thesis by (auto simp: in_time_def step_bytes_def)
  next
    case False
    then have s: "st_poll s = PollReady" "st_read s = ReadBytes (step_bytes s)"
      by (auto simp: step_bytes_def split: PollCall.splits ReadCall.splits)
    show ?thesis
    proof (cases "buffer @ step_bytes s = w")
      case True
      with Cons.prems(1) guards s False show ?thesis by simp
    next
      case more: False
      have eq: "w = (buffer @ step_bytes s) @ concat (map step_bytes ss)" using Cons.prems(3) by simp
      then have "strict_prefix (buffer @ step_bytes s) w" using more by (auto simp: strict_prefix_def prefix_def)
      then obtain e where "decode (buffer @ step_bytes s) = Inl e" "err_code e = WouldBlock"
        using Cons.prems(2) by blast
      with Cons.IH [OF Cons.prems(1,2) eq more] Cons.prems(5) guards s False show ?thesis by simp
    qed
  qed
qed

lemma recv_loop_delivered:
  assumes "delivers timeout_ms w script" and "w \<noteq> []"
    and "decode w = Inr r" and "\<And>p. strict_prefix p w \<Longrightarrow> \<exists>e. decode p = Inl e \<and> err_code e = WouldBlock"
  shows "recv_loop errs decode (rs_start script + timeout_ms * 1000000) [] (rs_steps script) = Inr r"
  using assms by (intro recv_loop_frame) (auto simp: delivers_def)

section \<open>Connecting and listening\<close>

datatype ConnectOutcome = ResolveFails string | SocketFails string | FcntlFails string | ConnectFails string
  | ConnectPollTimeout | ConnectPollFails string | ConnectSoError string | Connected

definition sock_connect :: "string \<Rightarrow> ConnectOutcome \<Rightarrow> unit Result" where
  "sock_connect timeout_text outcome =
     (case outcome of
        ResolveFails e \<Rightarrow> Inl (Error InvalidArgument (''getaddrinfo: '' @ e))
      | SocketFails e \<Rightarrow> Inl (sock_error ''socket'' e)
      | FcntlFails e \<Rightarrow> Inl (sock_error ''fcntl'' e)
      | ConnectFails e \<Rightarrow> Inl (sock_error ''connect'' e)
      | ConnectPollTimeout \<Rightarrow> Inl (Error Timeout timeout_text)
      | ConnectPollFails e \<Rightarrow> Inl (sock_error ''connect poll'' e)
      | ConnectSoError e \<Rightarrow> Inl (sock_error ''connect'' e)
      | Connected \<Rightarrow> Inr ())"

datatype ListenOutcome = ListenSocketFails string | BadBindAddress | BindFails string | ListenFails string
  | GetsocknameFails string | Listening u16

definition sock_listen :: "ListenOutcome \<Rightarrow> u16 Result" where
  "sock_listen outcome =
     (case outcome of
        ListenSocketFails e \<Rightarrow> Inl (sock_error ''socket'' e)
      | BadBindAddress \<Rightarrow> Inl (Error InvalidArgument ''invalid bind address'')
      | BindFails e \<Rightarrow> Inl (sock_error ''bind'' e)
      | ListenFails e \<Rightarrow> Inl (sock_error ''listen'' e)
      | GetsocknameFails e \<Rightarrow> Inl (sock_error ''getsockname'' e)
      | Listening port \<Rightarrow> Inr port)"

lemma sock_connect_ok: "sock_connect t out = Inr u \<longleftrightarrow> out = Connected"
  by (cases out) (simp_all add: sock_connect_def)

section \<open>Scanning an envelope\<close>

datatype scan = ScanShort | ScanMagic | ScanVersion | ScanLarge | ScanPartial | ScanCrc | ScanFrame u8 u16 "u8 list" nat

definition env_scan :: "u32 \<Rightarrow> u8 \<Rightarrow> nat \<Rightarrow> u8 list \<Rightarrow> scan" where
  "env_scan magic version maxp b =
     (if length b < 14 then ScanShort
      else if read_u32_le b 0 \<noteq> magic then ScanMagic
      else if b ! 4 \<noteq> version then ScanVersion
      else
        let n = unat (read_u16_le b 10)
        in if n > maxp then ScanLarge
           else if length b < 14 + n then ScanPartial
           else if read_u16_le b (12 + n) \<noteq> modbus_rtu_crc16 (take (12 + n) b) then ScanCrc
           else ScanFrame (b ! 5) (read_u16_le b 8) (take n (drop 12 b)) (14 + n))"

lemma env_scan_wire:
  assumes "length p \<le> maxp" and "maxp < 65536"
  shows "env_scan magic version maxp (envelope magic version k f r s p @ rest) = ScanFrame k s p (14 + length p)"
proof -
  let ?b = "envelope magic version k f r s p @ rest"
  have h: "take 12 ?b = envelope_header magic version k f r s (of_nat (length p))" by (rule envelope_take_header)
  have n: "unat (of_nat (length p) :: u16) = length p" using assms by (intro unat_length_u16) simp
  have crc: "read_u16_le ?b (12 + length p) = modbus_rtu_crc16 (take (12 + length p) ?b)" by (rule envelope_crc)
  have p: "take (length p) (drop 12 ?b) = p" by (rule envelope_payload)
  show ?thesis unfolding env_scan_def Let_def header_fields [OF h] header_bytes [OF h] n crc p
    using assms by simp
qed

lemma env_scan_prefix:
  assumes "length p \<le> maxp" and "maxp < 65536" and "strict_prefix b (envelope magic version k f r s p)"
  shows "env_scan magic version maxp b = ScanShort \<or> env_scan magic version maxp b = ScanPartial"
proof (cases "length b < 14")
  case True then show ?thesis by (simp add: env_scan_def)
next
  case False
  then have "12 \<le> length b" by simp
  have h: "take 12 b = envelope_header magic version k f r s (of_nat (length p))"
    by (rule envelope_prefix_header [OF assms(3) \<open>12 \<le> length b\<close>])
  have n: "unat (of_nat (length p) :: u16) = length p" using assms by (intro unat_length_u16) simp
  have "length b < 14 + length p" using prefix_length_less [OF assms(3)] by simp
  then show ?thesis unfolding env_scan_def Let_def header_fields [OF h] header_bytes [OF h] n
    using assms False by simp
qed

lemma env_scan_frame:
  "env_scan magic version maxp b = ScanFrame k s p n \<Longrightarrow> 14 \<le> n \<and> n \<le> length b \<and> length p \<le> maxp"
  by (auto simp: env_scan_def Let_def split: if_splits)

end
