(* ===== verification/Cell_App.thy ===== *)
theory Cell_App
  imports App_Model Sock_Io
begin

text \<open>
  The engineering-station protocol of the edge cell application:
  \<^verbatim>\<open>linux/src/workbench/application/cell_app_protocol.cpp\<close>,
  \<^verbatim>\<open>linux/src/workbench/services/cell_app_server.cpp\<close> and \<^verbatim>\<open>cell_app_client.cpp\<close>. The
  server's handler is a record of functions over its own state. The lemmas show
  that the framer is a \<open>frame_stream\<close>, that status, output request and command reply
  round-trip, and that the server answers every complete request in order,
  however the requests are cut into reads, and never hands the handler anything
  else.
\<close>

section \<open>Protocol\<close>

definition kCellAppMagic :: u32 where "kCellAppMagic = 0x314C4543"
definition kCellAppVersion :: u8 where "kCellAppVersion = 1"
definition kCellAppHeaderSize :: nat where "kCellAppHeaderSize = 12"
definition kCellAppCrcSize :: nat where "kCellAppCrcSize = 2"
definition kCellAppMaxPayload :: nat where "kCellAppMaxPayload = 256"
definition kCellAppStatusWireSize :: nat where "kCellAppStatusWireSize = 80"
definition kCellAppOutputPayloadSize :: nat where "kCellAppOutputPayloadSize = 28"

datatype CellAppMessage = GetStatus | GetStatusAck | Activate | ActivateAck | SubmitOutput | SubmitOutputAck | Error | ProbeCellIo | ProbeCellIoAck | CellAppMessage_raw u8

fun CellAppMessage_code :: "CellAppMessage \<Rightarrow> u8" where
  "CellAppMessage_code CellAppMessage.GetStatus = 1"
| "CellAppMessage_code CellAppMessage.GetStatusAck = 2"
| "CellAppMessage_code CellAppMessage.Activate = 3"
| "CellAppMessage_code CellAppMessage.ActivateAck = 4"
| "CellAppMessage_code CellAppMessage.SubmitOutput = 5"
| "CellAppMessage_code CellAppMessage.SubmitOutputAck = 6"
| "CellAppMessage_code CellAppMessage.Error = 7"
| "CellAppMessage_code CellAppMessage.ProbeCellIo = 8"
| "CellAppMessage_code CellAppMessage.ProbeCellIoAck = 9"
| "CellAppMessage_code (CellAppMessage_raw c) = c"

definition CellAppMessage_of_code :: "u8 \<Rightarrow> CellAppMessage" where
  "CellAppMessage_of_code c =
     (if c = 1 then CellAppMessage.GetStatus
      else if c = 2 then CellAppMessage.GetStatusAck
      else if c = 3 then CellAppMessage.Activate
      else if c = 4 then CellAppMessage.ActivateAck
      else if c = 5 then CellAppMessage.SubmitOutput
      else if c = 6 then CellAppMessage.SubmitOutputAck
      else if c = 7 then CellAppMessage.Error
      else if c = 8 then CellAppMessage.ProbeCellIo
      else if c = 9 then CellAppMessage.ProbeCellIoAck
      else CellAppMessage_raw c)"

definition named_CellAppMessage :: "CellAppMessage \<Rightarrow> bool" where
  "named_CellAppMessage x \<longleftrightarrow> (case x of CellAppMessage_raw c \<Rightarrow> False | _ \<Rightarrow> True)"

lemma CellAppMessage_roundtrip [simp]: "named_CellAppMessage x \<Longrightarrow> CellAppMessage_of_code (CellAppMessage_code x) = x"
  by (cases x) (simp_all add: named_CellAppMessage_def CellAppMessage_of_code_def)

lemma CellAppMessage_code_of_code [simp]: "CellAppMessage_code (CellAppMessage_of_code c) = c"
  by (simp add: CellAppMessage_of_code_def)


record CellAppFrame =
  cf_type :: CellAppMessage
  cf_sequence :: u16
  cf_payload :: "u8 list"

record CellAppStatus =
  ca_observed_monotonic_ns :: i64
  ca_mode :: RuntimeModeCode
  ca_fault :: RuntimeFaultCode
  ca_started :: bool
  ca_interlock_ready :: bool
  ca_online :: bool
  ca_position_reached :: bool
  ca_cell_ready :: bool
  ca_node_id :: u8
  ca_boot_id :: u16
  ca_session_id :: u16
  ca_last_heartbeat_sequence :: u16
  ca_heartbeat_age_ns :: i64
  ca_input_bits :: u16
  ca_device_fault_code :: u16
  ca_frames_received :: u64
  ca_frames_sent :: u64
  ca_decode_rejects :: u64
  ca_input_queue_drop_count :: u64
  ca_last_ack_session :: u16
  ca_last_ack_sequence :: u16
  ca_last_ack_result :: OutputApplyResult
  ca_ack_pending :: bool
  ca_evidence :: EvidenceClass
  ca_modbus_online :: bool
  ca_do0_requested :: bool
  ca_do0_confirmed :: bool
  ca_do0_status :: u8

definition encode_cell_app_frame :: "CellAppFrame \<Rightarrow> u8 list option" where
  "encode_cell_app_frame frame =
     (if length (cf_payload frame) > kCellAppMaxPayload then None
      else
        let o1 = append_u32_le [] kCellAppMagic;
            o2 = o1 @ [kCellAppVersion] @ [CellAppMessage_code (cf_type frame)] @ [0] @ [0];
            o3 = append_u16_le o2 (cf_sequence frame);
            o4 = append_u16_le o3 (of_nat (length (cf_payload frame)));
            o5 = o4 @ cf_payload frame;
            crc = modbus_rtu_crc16 o5
        in Some (append_u16_le o5 crc))"

definition try_decode_cell_app_frame :: "u8 list \<Rightarrow> CellAppFrame Result \<times> nat" where
  "try_decode_cell_app_frame bytes =
     (if length bytes < kCellAppHeaderSize + kCellAppCrcSize then
        (Inl (Error.Error Errc.WouldBlock ''short cell frame''), 0)
      else if read_u32_le bytes 0 \<noteq> kCellAppMagic then (Inl (Error.Error Errc.InvalidArgument ''bad cell magic''), 0)
      else if bytes ! 4 \<noteq> kCellAppVersion then (Inl (Error.Error Errc.InvalidArgument ''bad cell version''), 0)
      else
        let payload_size = unat (read_u16_le bytes 10)
        in if payload_size > kCellAppMaxPayload then (Inl (Error.Error Errc.InvalidArgument ''cell payload too large''), 0)
           else
             let total = kCellAppHeaderSize + payload_size + kCellAppCrcSize
             in if length bytes < total then (Inl (Error.Error Errc.WouldBlock ''incomplete cell frame''), 0)
                else if modbus_rtu_crc16 (take (total - kCellAppCrcSize) bytes) \<noteq> read_u16_le bytes (total - 2) then
                  (Inl (Error.Error Errc.InvalidArgument ''cell crc mismatch''), 0)
                else
                  (Inr \<lparr>cf_type = CellAppMessage_of_code (bytes ! 5), cf_sequence = read_u16_le bytes 8,
                        cf_payload = drop kCellAppHeaderSize (take (total - 2) bytes)\<rparr>, total))"

definition encode_cell_app_status :: "CellAppStatus \<Rightarrow> u8 list \<times> bool" where
  "encode_cell_app_status s =
     (let o1 = append_i64_le [] (ca_observed_monotonic_ns s);
          o2 = o1 @ [RuntimeModeCode_code (ca_mode s), RuntimeFaultCode_code (ca_fault s), bool_byte (ca_started s),
                     bool_byte (ca_interlock_ready s), bool_byte (ca_online s), bool_byte (ca_position_reached s),
                     bool_byte (ca_cell_ready s), ca_node_id s];
          o3 = append_u16_le o2 (ca_boot_id s);
          o4 = append_u16_le o3 (ca_session_id s);
          o5 = append_u16_le o4 (ca_last_heartbeat_sequence s);
          o6 = append_i64_le o5 (ca_heartbeat_age_ns s);
          o7 = append_u16_le o6 (ca_input_bits s);
          o8 = append_u16_le o7 (ca_device_fault_code s);
          o9 = append_u64_le o8 (ca_frames_received s);
          o10 = append_u64_le o9 (ca_frames_sent s);
          o11 = append_u64_le o10 (ca_decode_rejects s);
          o12 = append_u64_le o11 (ca_input_queue_drop_count s);
          o13 = append_u16_le o12 (ca_last_ack_session s);
          o14 = append_u16_le o13 (ca_last_ack_sequence s);
          o15 = o14 @ [OutputApplyResult_code (ca_last_ack_result s), bool_byte (ca_ack_pending s),
                       EvidenceClass_code (ca_evidence s), bool_byte (ca_modbus_online s), bool_byte (ca_do0_requested s),
                       bool_byte (ca_do0_confirmed s), ca_do0_status s];
          o16 = pad_to kCellAppStatusWireSize o15
      in (o16, length o16 = kCellAppStatusWireSize))"

definition decode_cell_app_status :: "u8 list \<Rightarrow> CellAppStatus Result" where
  "decode_cell_app_status p =
     (if length p \<noteq> kCellAppStatusWireSize then Inl (Error.Error Errc.InvalidArgument ''cell status size'')
      else Inr
        \<lparr>ca_observed_monotonic_ns = read_i64_le p 0, ca_mode = RuntimeModeCode_of_code (p ! 8),
         ca_fault = RuntimeFaultCode_of_code (p ! 9), ca_started = (p ! 10 \<noteq> 0), ca_interlock_ready = (p ! 11 \<noteq> 0),
         ca_online = (p ! 12 \<noteq> 0), ca_position_reached = (p ! 13 \<noteq> 0), ca_cell_ready = (p ! 14 \<noteq> 0), ca_node_id = p ! 15,
         ca_boot_id = read_u16_le p 16, ca_session_id = read_u16_le p 18, ca_last_heartbeat_sequence = read_u16_le p 20,
         ca_heartbeat_age_ns = read_i64_le p 22, ca_input_bits = read_u16_le p 30, ca_device_fault_code = read_u16_le p 32,
         ca_frames_received = read_u64_le p 34, ca_frames_sent = read_u64_le p 42, ca_decode_rejects = read_u64_le p 50,
         ca_input_queue_drop_count = read_u64_le p 58, ca_last_ack_session = read_u16_le p 66,
         ca_last_ack_sequence = read_u16_le p 68, ca_last_ack_result = OutputApplyResult_of_code (p ! 70),
         ca_ack_pending = (p ! 71 \<noteq> 0), ca_evidence = EvidenceClass_of_code (p ! 72), ca_modbus_online = (p ! 73 \<noteq> 0),
         ca_do0_requested = (p ! 74 \<noteq> 0), ca_do0_confirmed = (p ! 75 \<noteq> 0), ca_do0_status = p ! 76\<rparr>)"

definition encode_cell_output_payload :: "DigitalOutputRequest \<Rightarrow> u8 list" where
  "encode_cell_output_payload r =
     (let o1 = append_u64_le [] (dr_session_id r); o2 = append_u64_le o1 (dr_sequence r);
          o3 = append_u32_le o2 (dr_valid_for_ms r); o4 = append_u32_le o3 (dr_mask r)
      in append_u32_le o4 (dr_values r))"

definition decode_cell_output_payload :: "u8 list \<Rightarrow> DigitalOutputRequest Result" where
  "decode_cell_output_payload p =
     (if length p \<noteq> kCellAppOutputPayloadSize then Inl (Error.Error Errc.InvalidArgument ''cell output payload'')
      else Inr \<lparr>dr_session_id = read_u64_le p 0, dr_sequence = read_u64_le p 8, dr_valid_for_ms = read_u32_le p 16,
             dr_mask = read_u32_le p 20, dr_values = read_u32_le p 24\<rparr>)"

definition encode_cell_command_reply :: "CommandReply \<Rightarrow> u8 list" where
  "encode_cell_command_reply r =
     (let n = min (length (cr_message r)) 255
      in [CommandStatus_code (cr_status r), RuntimeModeCode_code (cr_from_state r), RuntimeModeCode_code (cr_to_state r), of_nat n]
         @ map char_u8 (take n (cr_message r)))"

definition decode_cell_command_reply :: "u8 list \<Rightarrow> CommandReply Result" where
  "decode_cell_command_reply p =
     (if length p < 4 then Inl (Error.Error Errc.InvalidArgument ''short command reply'')
      else
        let n = unat (p ! 3)
        in if length p \<noteq> 4 + n then Inl (Error.Error Errc.InvalidArgument ''command reply length'')
           else Inr \<lparr>cr_status = CommandStatus_of_code (p ! 0), cr_from_state = RuntimeModeCode_of_code (p ! 1),
                  cr_to_state = RuntimeModeCode_of_code (p ! 2), cr_message = map u8_char (take n (drop 4 p))\<rparr>)"

definition project_cell_app_status :: "RuntimeTelemetrySnapshot \<Rightarrow> CellAppStatus" where
  "project_cell_app_status t =
     \<lparr>ca_observed_monotonic_ns = tm_observed_monotonic_ns t, ca_mode = rs_mode (tm_runtime t), ca_fault = rs_fault (tm_runtime t),
      ca_started = rs_started (tm_runtime t), ca_interlock_ready = rs_interlock_ready (tm_runtime t),
      ca_online = dv_online (tm_device t), ca_position_reached = tm_position_reached t, ca_cell_ready = tm_cell_ready t,
      ca_node_id = dv_node_id (tm_device t), ca_boot_id = dv_boot_id (tm_device t), ca_session_id = dv_session_id (tm_device t),
      ca_last_heartbeat_sequence = dv_last_heartbeat_sequence (tm_device t), ca_heartbeat_age_ns = dv_heartbeat_age_ns (tm_device t),
      ca_input_bits = dv_input_bits (tm_device t), ca_device_fault_code = dv_device_fault_code (tm_device t),
      ca_frames_received = cv_frames_received (tm_communication t), ca_frames_sent = cv_frames_sent (tm_communication t),
      ca_decode_rejects = cv_decode_rejects (tm_communication t),
      ca_input_queue_drop_count = cv_input_queue_drop_count (tm_communication t),
      ca_last_ack_session = of_last_ack_session (tm_output t), ca_last_ack_sequence = of_last_ack_sequence (tm_output t),
      ca_last_ack_result = of_last_ack_result (tm_output t), ca_ack_pending = of_ack_pending (tm_output t),
      ca_evidence = cv_evidence (tm_communication t), ca_modbus_online = tm_cell_modbus_online t,
      ca_do0_requested = tm_cell_ready_do0_requested t, ca_do0_confirmed = tm_cell_ready_do0_confirmed t,
      ca_do0_status = tm_cell_ready_do0_status t\<rparr>"

definition cell_status_to_snapshot :: "CellAppStatus \<Rightarrow> RuntimeTelemetrySnapshot" where
  "cell_status_to_snapshot s = telemetry_default\<lparr>
     tm_observed_monotonic_ns := ca_observed_monotonic_ns s,
     tm_runtime := runtime_state_default\<lparr>rs_mode := ca_mode s, rs_fault := ca_fault s, rs_started := ca_started s,
        rs_interlock_ready := ca_interlock_ready s, rs_scheduler_running := ca_started s\<rparr>,
     tm_device := device_default\<lparr>dv_online := ca_online s, dv_node_id := ca_node_id s,
        dv_device_id := ''CAN_NODE_'' @ nat_to_string (unat (ca_node_id s)), dv_boot_id := ca_boot_id s,
        dv_session_id := ca_session_id s, dv_last_heartbeat_sequence := ca_last_heartbeat_sequence s,
        dv_heartbeat_age_ns := ca_heartbeat_age_ns s, dv_heartbeats := ucast (ca_last_heartbeat_sequence s),
        dv_input_bits := ca_input_bits s, dv_device_fault_code := ca_device_fault_code s,
        dv_ever_seen := (ca_online s \<or> ca_session_id s \<noteq> 0)\<rparr>,
     tm_communication := communication_default\<lparr>cv_backend := ''SOCKETCAN'', cv_evidence := ca_evidence s,
        cv_frames_received := ca_frames_received s, cv_frames_sent := ca_frames_sent s,
        cv_decode_rejects := ca_decode_rejects s, cv_input_queue_drop_count := ca_input_queue_drop_count s\<rparr>,
     tm_output := output_feedback_default\<lparr>of_last_ack_session := ca_last_ack_session s,
        of_last_ack_sequence := ca_last_ack_sequence s, of_last_ack_result := ca_last_ack_result s,
        of_ack_pending := ca_ack_pending s\<rparr>,
     tm_position_reached := ca_position_reached s, tm_cell_ready := ca_cell_ready s,
     tm_cell_modbus_online := ca_modbus_online s, tm_cell_ready_do0_requested := ca_do0_requested s,
     tm_cell_ready_do0_confirmed := ca_do0_confirmed s, tm_cell_ready_do0_status := ca_do0_status s\<rparr>"

section \<open>Server\<close>

definition kMaxEngineeringClients :: nat where "kMaxEngineeringClients = 8"

record 'h CellAppHandler =
  ch_status :: "'h \<Rightarrow> 'h \<times> CellAppStatus"
  ch_probe_cell_io :: "'h \<Rightarrow> 'h \<times> CellAppStatus"
  ch_activate :: "'h \<Rightarrow> 'h \<times> CommandReply"
  ch_submit_output :: "DigitalOutputRequest \<Rightarrow> 'h \<Rightarrow> 'h \<times> CommandReply"

definition make_error :: "u16 \<Rightarrow> string \<Rightarrow> CellAppFrame" where
  "make_error sequence message = \<lparr>cf_type = CellAppMessage.Error, cf_sequence = sequence, cf_payload = map char_u8 message\<rparr>"

definition cell_handle_request :: "'h CellAppHandler \<Rightarrow> CellAppFrame \<Rightarrow> 'h \<Rightarrow> 'h \<times> CellAppFrame" where
  "cell_handle_request H request h =
     (let reply = (\<lambda>t p. \<lparr>cf_type = t, cf_sequence = cf_sequence request, cf_payload = p\<rparr>)
      in case cf_type request of
           CellAppMessage.GetStatus \<Rightarrow>
             (case ch_status H h of (h1, s) \<Rightarrow>
                case encode_cell_app_status s of (payload, ok) \<Rightarrow>
                  (h1, if \<not> ok then make_error (cf_sequence request) ''status encode'' else reply CellAppMessage.GetStatusAck payload))
         | CellAppMessage.ProbeCellIo \<Rightarrow>
             (case ch_probe_cell_io H h of (h1, s) \<Rightarrow>
                case encode_cell_app_status s of (payload, ok) \<Rightarrow>
                  (h1, if \<not> ok then make_error (cf_sequence request) ''cell io probe status encode''
                       else reply CellAppMessage.ProbeCellIoAck payload))
         | CellAppMessage.Activate \<Rightarrow>
             (case ch_activate H h of (h1, r) \<Rightarrow> (h1, reply CellAppMessage.ActivateAck (encode_cell_command_reply r)))
         | CellAppMessage.SubmitOutput \<Rightarrow>
             (case decode_cell_output_payload (cf_payload request) of
                Inl e \<Rightarrow> (h, make_error (cf_sequence request) (err_message e))
              | Inr req \<Rightarrow>
                  (case ch_submit_output H req h of (h1, r) \<Rightarrow>
                     (h1, reply CellAppMessage.SubmitOutputAck (encode_cell_command_reply r))))
         | _ \<Rightarrow> (h, make_error (cf_sequence request) ''unknown cell message''))"

text \<open>
  A client session is its receive buffer. The loop of \<open>service_client\<close> pops frames
  until the buffer is empty or needs more, with one entry of \<open>sends\<close> per reply (a
  reply past the listed ones is sent whole). It returns the buffer, or \<open>None\<close>
  when the client is dropped, the replies written, and the result.
\<close>

definition send_of :: "WriteCall list list \<Rightarrow> WriteCall list" where
  "send_of sends = (case sends of [] \<Rightarrow> [] | s # _ \<Rightarrow> s)"

lemma decoded_length:
  "try_decode_cell_app_frame b = (Inr f, n) \<Longrightarrow> 0 < n \<and> n \<le> length b"
  by (auto simp: try_decode_cell_app_frame_def Let_def kCellAppHeaderSize_def split: if_splits)

function cell_drain ::
  "'h CellAppHandler \<Rightarrow> WriteCall list list \<Rightarrow> u8 list \<Rightarrow> 'h \<Rightarrow> 'h \<times> u8 list option \<times> u8 list list \<times> unit Result" where
  "cell_drain H sends buffer h =
     (if buffer = [] then (h, Some [], [], Inr ())
      else case try_decode_cell_app_frame buffer of
        (Inl e, _) \<Rightarrow>
          if err_code e = Errc.WouldBlock then (h, Some buffer, [], Inr ())
          else (h, None, (case encode_cell_app_frame (make_error 0 (err_message e)) of
                            None \<Rightarrow> [] | Some wire \<Rightarrow> (case write_all wire (send_of sends) of Inl _ \<Rightarrow> [] | Inr _ \<Rightarrow> [wire])), Inr ())
      | (Inr request, consumed) \<Rightarrow>
          (case cell_handle_request H request h of (h1, reply) \<Rightarrow>
             case encode_cell_app_frame reply of
               None \<Rightarrow> (h1, None, [], Inl (Error.Error Errc.InvalidArgument ''failed to encode cell reply''))
             | Some wire \<Rightarrow>
                 (case write_all wire (send_of sends) of
                    Inl e \<Rightarrow> (h1, None, [], Inr ())
                  | Inr _ \<Rightarrow> (case cell_drain H (tl sends) (drop consumed buffer) h1 of
                               (h2, b, wires, r) \<Rightarrow> (h2, b, wire # wires, r)))))"
  by pat_completeness auto

termination
  by (relation "measure (\<lambda>(H, sends, buffer, h). length buffer)") (auto dest!: decoded_length [OF sym])

declare cell_drain.simps [simp del]

datatype RecvCall = Received "u8 list" | RecvAgain | RecvFails

definition service_client ::
  "'h CellAppHandler \<Rightarrow> RecvCall \<Rightarrow> WriteCall list list \<Rightarrow> u8 list \<Rightarrow> 'h \<Rightarrow> 'h \<times> u8 list option \<times> u8 list list \<times> unit Result" where
  "service_client H call sends buffer h =
     (case call of
        RecvAgain \<Rightarrow> (h, Some buffer, [], Inr ())
      | RecvFails \<Rightarrow> (h, None, [], Inr ())
      | Received chunk \<Rightarrow> if chunk = [] then (h, None, [], Inr ()) else cell_drain H sends (buffer @ chunk) h)"

record CellAppServer =
  cs_listening :: bool
  cs_clients :: "u8 list list"
  cs_port :: u16

definition cell_server_close :: "CellAppServer \<Rightarrow> CellAppServer" where
  "cell_server_close srv = srv\<lparr>cs_clients := [], cs_listening := False, cs_port := 0\<rparr>"

definition cell_server_listen :: "ListenOutcome \<Rightarrow> CellAppServer \<Rightarrow> CellAppServer \<times> unit Result" where
  "cell_server_listen outcome srv =
     (let closed = cell_server_close srv
      in case sock_listen outcome of Inl e \<Rightarrow> (closed, Inl e)
         | Inr port \<Rightarrow> (closed\<lparr>cs_listening := True, cs_port := port\<rparr>, Inr ()))"

definition drop_client :: "nat \<Rightarrow> CellAppServer \<Rightarrow> CellAppServer" where
  "drop_client index srv =
     (if index < length (cs_clients srv)
      then srv\<lparr>cs_clients := take index (cs_clients srv) @ drop (Suc index) (cs_clients srv)\<rparr> else srv)"

text \<open>The accept loop; past the listed calls there is nothing to accept.\<close>

datatype AcceptCall = NewClient | AcceptAgain | AcceptEintr | AcceptError string

fun accept_pending :: "AcceptCall list \<Rightarrow> CellAppServer \<Rightarrow> CellAppServer \<times> unit Result" where
  "accept_pending [] srv = (srv, Inr ())"
| "accept_pending (c # cs) srv =
     (if length (cs_clients srv) \<ge> kMaxEngineeringClients then (srv, Inr ())
      else case c of
        AcceptAgain \<Rightarrow> (srv, Inr ())
      | AcceptEintr \<Rightarrow> accept_pending cs srv
      | AcceptError e \<Rightarrow> (srv, Inl (sock_error ''accept'' e))
      | NewClient \<Rightarrow> accept_pending cs (srv\<lparr>cs_clients := cs_clients srv @ [[]]\<rparr>))"

text \<open>
  The poll step. \<open>pfds\<close> is the vector handed to \<^verbatim>\<open>poll\<close>, the listener first and then the
  clients there were; \<open>beyond i\<close> stands for what reading its element \<open>i\<close> gives when the
  vector has no such element. The index runs over the clients there are after
  accepting.
\<close>

record Revents =
  rv_in :: bool
  rv_bad :: bool

definition revents_at :: "Revents list \<Rightarrow> (nat \<Rightarrow> Revents) \<Rightarrow> nat \<Rightarrow> Revents" where
  "revents_at pfds beyond i = (if i < length pfds then pfds ! i else beyond i)"

fun poll_clients ::
  "'h CellAppHandler \<Rightarrow> (nat \<Rightarrow> Revents) \<Rightarrow> (nat \<Rightarrow> RecvCall \<times> WriteCall list list) \<Rightarrow> nat \<Rightarrow> CellAppServer \<times> 'h \<Rightarrow>
     (CellAppServer \<times> 'h) \<times> unit Result" where
  "poll_clients H flags io 0 st = (st, Inr ())"
| "poll_clients H flags io (Suc index) st =
     (let revents = flags (index + 1); srv = fst st; h = snd st
      in if rv_bad revents \<and> \<not> rv_in revents then poll_clients H flags io index (drop_client index srv, h)
         else if rv_in revents then
           (case service_client H (fst (io index)) (snd (io index)) (cs_clients srv ! index) h of (h1, b, wires, r) \<Rightarrow>
              let srv1 = (case b of None \<Rightarrow> drop_client index srv
                          | Some buf \<Rightarrow> srv\<lparr>cs_clients := (cs_clients srv)[index := buf]\<rparr>)
              in case r of Inl e \<Rightarrow> ((srv1, h1), Inl e) | Inr _ \<Rightarrow> poll_clients H flags io index (srv1, h1))
         else poll_clients H flags io index st)"

datatype PollOutcome = PollInterrupted | PollError string | PollIdle | PollReadable "Revents list"

definition cell_server_poll ::
  "'h CellAppHandler \<Rightarrow> PollOutcome \<Rightarrow> AcceptCall list \<Rightarrow> (nat \<Rightarrow> Revents) \<Rightarrow> (nat \<Rightarrow> RecvCall \<times> WriteCall list list) \<Rightarrow>
     CellAppServer \<times> 'h \<Rightarrow> (CellAppServer \<times> 'h) \<times> unit Result" where
  "cell_server_poll H outcome accepts beyond io st =
     (if \<not> cs_listening (fst st) then (st, Inl (Error.Error Errc.NotOpen ''cell server not listening''))
      else case outcome of
        PollInterrupted \<Rightarrow> (st, Inr ())
      | PollError e \<Rightarrow> (st, Inl (sock_error ''poll'' e))
      | PollIdle \<Rightarrow> (st, Inr ())
      | PollReadable pfds \<Rightarrow>
          (case (if rv_in (pfds ! 0) then accept_pending accepts (fst st) else (fst st, Inr ())) of
             (srv1, Inl e) \<Rightarrow> ((srv1, snd st), Inl e)
           | (srv1, Inr _) \<Rightarrow> poll_clients H (revents_at pfds beyond) io (length (cs_clients srv1)) (srv1, snd st)))"

section \<open>Client\<close>

record CellAppClient =
  cl_connected :: bool
  cl_host :: string
  cl_port :: u16
  cl_next_sequence :: u16

definition cell_client_init :: CellAppClient where
  "cell_client_init = \<lparr>cl_connected = False, cl_host = [], cl_port = 0, cl_next_sequence = 1\<rparr>"

definition cl_disconnect :: "CellAppClient \<Rightarrow> CellAppClient" where
  "cl_disconnect c = (if \<not> cl_connected c then c else c\<lparr>cl_connected := False\<rparr>)"

definition cl_connect :: "string \<Rightarrow> u16 \<Rightarrow> ConnectOutcome \<Rightarrow> CellAppClient \<Rightarrow> CellAppClient \<times> unit Result" where
  "cl_connect host port outcome c =
     (let c1 = cl_disconnect (c\<lparr>cl_host := host, cl_port := port\<rparr>)
      in case sock_connect ''cell connect timeout'' outcome of
           Inl e \<Rightarrow> (c1, Inl e)
         | Inr _ \<Rightarrow> (c1\<lparr>cl_connected := True\<rparr>, Inr ()))"

definition cl_reconnect :: "ConnectOutcome \<Rightarrow> CellAppClient \<Rightarrow> CellAppClient \<times> unit Result" where
  "cl_reconnect outcome c =
     (if cl_host c = [] \<or> cl_port c = 0 then (c, Inl (Error.Error Errc.NotOpen ''cell client has no peer''))
      else cl_connect (cl_host c) (cl_port c) outcome c)"

definition cell_read_frame :: "i64 \<Rightarrow> RecvScript \<Rightarrow> u8 list Result" where
  "cell_read_frame timeout_ms script =
     recv_loop \<lparr>re_timeout = Error.Error Errc.Timeout ''cell reply timeout'', re_poll = sock_error ''poll'',
         re_recv = sock_error ''recv'', re_closed = Error.Error Errc.IoError ''cell app disconnected''\<rparr>
       (\<lambda>buffer. case try_decode_cell_app_frame buffer of
           (Inr _, consumed) \<Rightarrow> Inr (take consumed buffer) | (Inl e, _) \<Rightarrow> Inl e)
       (rs_start script + timeout_ms * 1000000) [] (rs_steps script)"

definition cl_request :: "CellAppMessage \<Rightarrow> u8 list \<Rightarrow> CellAppClient \<Rightarrow> CellAppFrame" where
  "cl_request request_type payload c =
     \<lparr>cf_type = request_type, cf_sequence = cl_next_sequence c, cf_payload = payload\<rparr>"

definition cl_exchange ::
  "CellAppMessage \<Rightarrow> CellAppMessage \<Rightarrow> u8 list \<Rightarrow> i64 \<Rightarrow> WriteCall list \<Rightarrow> RecvScript \<Rightarrow>
     CellAppClient \<Rightarrow> CellAppClient \<times> CellAppFrame Result" where
  "cl_exchange request_type ack_type payload timeout_ms sends script c =
     (if \<not> cl_connected c then (c, Inl (Error.Error Errc.NotOpen ''cell client not connected''))
      else
        let request = cl_request request_type payload c;
            c1 = c\<lparr>cl_next_sequence := cl_next_sequence c + 1\<rparr>
        in case encode_cell_app_frame request of
             None \<Rightarrow> (c1, Inl (Error.Error Errc.InvalidArgument ''failed to encode cell request''))
           | Some wire \<Rightarrow>
               (case write_all wire sends of
                  Inl e \<Rightarrow> (cl_disconnect c1, Inl e)
                | Inr _ \<Rightarrow>
                    (case cell_read_frame timeout_ms script of
                       Inl e \<Rightarrow> (cl_disconnect c1, Inl e)
                     | Inr raw \<Rightarrow>
                         (case fst (try_decode_cell_app_frame raw) of
                            Inl e \<Rightarrow> (cl_disconnect c1, Inl e)
                          | Inr frame \<Rightarrow>
                              if cf_type frame = CellAppMessage.Error then (c1, Inl (Error.Error Errc.Rejected ''cell app returned ERROR''))
                              else if cf_type frame \<noteq> ack_type then (cl_disconnect c1, Inl (Error.Error Errc.Rejected ''unexpected cell message''))
                              else (c1, Inr frame)))))"

definition decode_reply :: "(u8 list \<Rightarrow> 'r Result) \<Rightarrow> CellAppClient \<times> CellAppFrame Result \<Rightarrow> CellAppClient \<times> 'r Result" where
  "decode_reply dec = (\<lambda>(c, r). (c, case r of Inl e \<Rightarrow> Inl e | Inr frame \<Rightarrow> dec (cf_payload frame)))"

definition cl_get_status where
  "cl_get_status timeout_ms sends script c = decode_reply decode_cell_app_status
     (cl_exchange CellAppMessage.GetStatus CellAppMessage.GetStatusAck [] timeout_ms sends script c)"

definition cl_probe_cell_io where
  "cl_probe_cell_io timeout_ms sends script c = decode_reply decode_cell_app_status
     (cl_exchange CellAppMessage.ProbeCellIo CellAppMessage.ProbeCellIoAck [] timeout_ms sends script c)"

definition cl_activate where
  "cl_activate timeout_ms sends script c = decode_reply decode_cell_command_reply
     (cl_exchange CellAppMessage.Activate CellAppMessage.ActivateAck [] timeout_ms sends script c)"

definition cl_submit_output where
  "cl_submit_output request timeout_ms sends script c = decode_reply decode_cell_command_reply
     (cl_exchange CellAppMessage.SubmitOutput CellAppMessage.SubmitOutputAck (encode_cell_output_payload request)
        timeout_ms sends script c)"

section \<open>Framing\<close>

definition cell_wire :: "CellAppFrame \<Rightarrow> u8 list" where
  "cell_wire f = envelope kCellAppMagic kCellAppVersion (CellAppMessage_code (cf_type f)) 0 0 (cf_sequence f) (cf_payload f)"

lemma encode_cell_eq:
  "encode_cell_app_frame f = (if length (cf_payload f) \<le> kCellAppMaxPayload then Some (cell_wire f) else None)"
  by (simp add: encode_cell_app_frame_def cell_wire_def envelope_def envelope_header_def Let_def append_le_eq)

lemma decode_cell_scan:
  "try_decode_cell_app_frame b =
     (case env_scan kCellAppMagic kCellAppVersion kCellAppMaxPayload b of
        ScanShort \<Rightarrow> (Inl (Error.Error Errc.WouldBlock ''short cell frame''), 0)
      | ScanMagic \<Rightarrow> (Inl (Error.Error Errc.InvalidArgument ''bad cell magic''), 0)
      | ScanVersion \<Rightarrow> (Inl (Error.Error Errc.InvalidArgument ''bad cell version''), 0)
      | ScanLarge \<Rightarrow> (Inl (Error.Error Errc.InvalidArgument ''cell payload too large''), 0)
      | ScanPartial \<Rightarrow> (Inl (Error.Error Errc.WouldBlock ''incomplete cell frame''), 0)
      | ScanCrc \<Rightarrow> (Inl (Error.Error Errc.InvalidArgument ''cell crc mismatch''), 0)
      | ScanFrame k s p n \<Rightarrow> (Inr \<lparr>cf_type = CellAppMessage_of_code k, cf_sequence = s, cf_payload = p\<rparr>, n))"
  unfolding try_decode_cell_app_frame_def env_scan_def Let_def kCellAppHeaderSize_def kCellAppCrcSize_def
  by (simp add: add.commute add.left_commute drop_take)

definition cell_enc :: "CellAppFrame \<Rightarrow> u8 list option" where
  "cell_enc f = (if named_CellAppMessage (cf_type f) then encode_cell_app_frame f else None)"

definition cell_pop :: "u8 list \<Rightarrow> CellAppFrame pop" where
  "cell_pop b = (case try_decode_cell_app_frame b of
      (Inr f, n) \<Rightarrow> Popped f (drop n b)
    | (Inl e, _) \<Rightarrow> if err_code e = Errc.WouldBlock then pop.NeedMore else Broken)"

lemma cell_decode_wire:
  "cell_enc f = Some w \<Longrightarrow> try_decode_cell_app_frame (w @ rest) = (Inr f, length w)"
  unfolding cell_enc_def encode_cell_eq cell_wire_def
  by (auto simp: decode_cell_scan env_scan_wire kCellAppMaxPayload_def split: if_splits)

lemma cell_decode_prefix:
  "cell_enc f = Some w \<Longrightarrow> strict_prefix p w \<Longrightarrow> \<exists>e. try_decode_cell_app_frame p = (Inl e, 0) \<and> err_code e = Errc.WouldBlock"
proof -
  assume "cell_enc f = Some w" and p: "strict_prefix p w"
  then have w: "w = cell_wire f" "length (cf_payload f) \<le> kCellAppMaxPayload"
    by (auto simp: cell_enc_def encode_cell_eq split: if_splits)
  have "env_scan kCellAppMagic kCellAppVersion kCellAppMaxPayload p = ScanShort \<or>
      env_scan kCellAppMagic kCellAppVersion kCellAppMaxPayload p = ScanPartial"
    by (rule env_scan_prefix [OF w(2) _ p [unfolded w(1) cell_wire_def]]) (simp add: kCellAppMaxPayload_def)
  then show ?thesis by (auto simp: decode_cell_scan)
qed

interpretation cas: frame_stream cell_enc cell_pop
proof
  show "cell_pop [] = pop.NeedMore" by (simp add: cell_pop_def decode_cell_scan env_scan_def)
next
  fix f w assume w: "cell_enc f = Some w"
  then show "w \<noteq> []" by (auto simp: cell_enc_def encode_cell_eq cell_wire_def split: if_splits dest: arg_cong [of _ _ length])
  show "cell_pop (w @ rest) = Popped f rest" for rest
    using cell_decode_wire [OF w] by (simp add: cell_pop_def)
  show "strict_prefix p w \<Longrightarrow> cell_pop p = pop.NeedMore" for p
    using cell_decode_prefix [OF w, of p] by (auto simp: cell_pop_def)
qed

lemma cell_reply_delivered:
  "cell_enc f = Some w \<Longrightarrow> delivers timeout_ms w script \<Longrightarrow> cell_read_frame timeout_ms script = Inr w"
  unfolding cell_read_frame_def
  using cell_decode_wire [of f w "[]"] cell_decode_prefix [of f w] cas.enc_nonempty [of f w]
  by (intro recv_loop_delivered) fastforce+

section \<open>Payload round trips\<close>

definition cell_status_typed :: "CellAppStatus \<Rightarrow> bool" where
  "cell_status_typed s \<longleftrightarrow> i64_range (ca_observed_monotonic_ns s) \<and> i64_range (ca_heartbeat_age_ns s) \<and>
     named_RuntimeModeCode (ca_mode s) \<and> named_RuntimeFaultCode (ca_fault s) \<and> named_OutputApplyResult (ca_last_ack_result s) \<and>
     named_EvidenceClass (ca_evidence s)"

definition cell_status_bytes :: "CellAppStatus \<Rightarrow> u8 list" where
  "cell_status_bytes s =
     le_bytes 8 (word_of_int (ca_observed_monotonic_ns s) :: u64) @
     [RuntimeModeCode_code (ca_mode s), RuntimeFaultCode_code (ca_fault s), bool_byte (ca_started s), bool_byte (ca_interlock_ready s),
      bool_byte (ca_online s), bool_byte (ca_position_reached s), bool_byte (ca_cell_ready s), ca_node_id s] @
     le_bytes 2 (ca_boot_id s) @ le_bytes 2 (ca_session_id s) @ le_bytes 2 (ca_last_heartbeat_sequence s) @
     le_bytes 8 (word_of_int (ca_heartbeat_age_ns s) :: u64) @ le_bytes 2 (ca_input_bits s) @ le_bytes 2 (ca_device_fault_code s) @
     le_bytes 8 (ca_frames_received s) @ le_bytes 8 (ca_frames_sent s) @ le_bytes 8 (ca_decode_rejects s) @
     le_bytes 8 (ca_input_queue_drop_count s) @ le_bytes 2 (ca_last_ack_session s) @ le_bytes 2 (ca_last_ack_sequence s) @
     [OutputApplyResult_code (ca_last_ack_result s), bool_byte (ca_ack_pending s), EvidenceClass_code (ca_evidence s),
      bool_byte (ca_modbus_online s), bool_byte (ca_do0_requested s), bool_byte (ca_do0_confirmed s), ca_do0_status s] @ replicate 3 0"

lemma length_cell_status_bytes [simp]: "length (cell_status_bytes s) = 80"
  by (simp add: cell_status_bytes_def)

lemma encode_cell_status_eq: "encode_cell_app_status s = (cell_status_bytes s, True)"
  by (simp add: encode_cell_app_status_def cell_status_bytes_def Let_def append_le_eq pad_to_def kCellAppStatusWireSize_def)

lemma cell_status_nth:
  "cell_status_bytes s ! 8 = RuntimeModeCode_code (ca_mode s)" "cell_status_bytes s ! 9 = RuntimeFaultCode_code (ca_fault s)"
  "cell_status_bytes s ! 10 = bool_byte (ca_started s)" "cell_status_bytes s ! 11 = bool_byte (ca_interlock_ready s)"
  "cell_status_bytes s ! 12 = bool_byte (ca_online s)" "cell_status_bytes s ! 13 = bool_byte (ca_position_reached s)"
  "cell_status_bytes s ! 14 = bool_byte (ca_cell_ready s)" "cell_status_bytes s ! 15 = ca_node_id s"
  "cell_status_bytes s ! 70 = OutputApplyResult_code (ca_last_ack_result s)" "cell_status_bytes s ! 71 = bool_byte (ca_ack_pending s)"
  "cell_status_bytes s ! 72 = EvidenceClass_code (ca_evidence s)" "cell_status_bytes s ! 73 = bool_byte (ca_modbus_online s)"
  "cell_status_bytes s ! 74 = bool_byte (ca_do0_requested s)" "cell_status_bytes s ! 75 = bool_byte (ca_do0_confirmed s)"
  "cell_status_bytes s ! 76 = ca_do0_status s"
  by (simp_all add: cell_status_bytes_def nth_append)

lemma cell_status_fields:
  "read_u16_le (cell_status_bytes s) 16 = ca_boot_id s" "read_u16_le (cell_status_bytes s) 18 = ca_session_id s"
  "read_u16_le (cell_status_bytes s) 20 = ca_last_heartbeat_sequence s" "read_u16_le (cell_status_bytes s) 30 = ca_input_bits s"
  "read_u16_le (cell_status_bytes s) 32 = ca_device_fault_code s" "read_u64_le (cell_status_bytes s) 34 = ca_frames_received s"
  "read_u64_le (cell_status_bytes s) 42 = ca_frames_sent s" "read_u64_le (cell_status_bytes s) 50 = ca_decode_rejects s"
  "read_u64_le (cell_status_bytes s) 58 = ca_input_queue_drop_count s" "read_u16_le (cell_status_bytes s) 66 = ca_last_ack_session s"
  "read_u16_le (cell_status_bytes s) 68 = ca_last_ack_sequence s"
  by (rule read_u16_le_field read_u64_le_field; simp add: cell_status_bytes_def)+

lemma cell_status_times:
  "i64_range (ca_observed_monotonic_ns s) \<Longrightarrow> read_i64_le (cell_status_bytes s) 0 = ca_observed_monotonic_ns s"
  "i64_range (ca_heartbeat_age_ns s) \<Longrightarrow> read_i64_le (cell_status_bytes s) 22 = ca_heartbeat_age_ns s"
  by (rule read_i64_le_field; simp add: cell_status_bytes_def)+

lemma cell_status_roundtrip: "cell_status_typed s \<Longrightarrow> decode_cell_app_status (cell_status_bytes s) = Inr s"
  unfolding decode_cell_app_status_def cell_status_nth cell_status_fields
  by (simp add: cell_status_times cell_status_typed_def kCellAppStatusWireSize_def)

lemma cell_output_roundtrip: "decode_cell_output_payload (encode_cell_output_payload r) = Inr r"
proof -
  have e: "encode_cell_output_payload r = le_bytes 8 (dr_session_id r) @ le_bytes 8 (dr_sequence r) @ le_bytes 4 (dr_valid_for_ms r) @
      le_bytes 4 (dr_mask r) @ le_bytes 4 (dr_values r)" (is "_ = ?p")
    by (simp add: encode_cell_output_payload_def Let_def append_le_eq)
  have "read_u64_le ?p 0 = dr_session_id r" "read_u64_le ?p 8 = dr_sequence r" "read_u32_le ?p 16 = dr_valid_for_ms r"
    "read_u32_le ?p 20 = dr_mask r" "read_u32_le ?p 24 = dr_values r"
    by (rule read_u32_le_field read_u64_le_field; simp)+
  then show ?thesis unfolding e decode_cell_output_payload_def by (simp add: kCellAppOutputPayloadSize_def)
qed

definition reply_typed :: "CommandReply \<Rightarrow> bool" where
  "reply_typed r \<longleftrightarrow> named_CommandStatus (cr_status r) \<and> named_RuntimeModeCode (cr_from_state r) \<and> named_RuntimeModeCode (cr_to_state r)"

lemma cell_reply_roundtrip:
  assumes "reply_typed r"
  shows "decode_cell_command_reply (encode_cell_command_reply r) = Inr (r\<lparr>cr_message := take 255 (cr_message r)\<rparr>)"
proof -
  let ?n = "min (length (cr_message r)) 255"
  have n: "unat (of_nat ?n :: u8) = ?n" by (simp add: unat_of_nat)
  have t: "take ?n (cr_message r) = take 255 (cr_message r)" by (simp add: min_def)
  show ?thesis using assms n
    by (simp add: encode_cell_command_reply_def decode_cell_command_reply_def Let_def reply_typed_def t)
qed

text \<open>What the engineering station rebuilds from a status projects back to that status.\<close>

lemma project_after_rebuild: "project_cell_app_status (cell_status_to_snapshot s) = s"
  by (simp add: project_cell_app_status_def cell_status_to_snapshot_def telemetry_default_def)

lemma cell_payloads_fit:
  "length (encode_cell_output_payload r) \<le> kCellAppMaxPayload" "length (cell_status_bytes s) \<le> kCellAppMaxPayload"
  by (simp_all add: encode_cell_output_payload_def Let_def append_le_eq kCellAppMaxPayload_def)

section \<open>The server answers the requests of the stream\<close>

fun run_requests :: "'h CellAppHandler \<Rightarrow> CellAppFrame list \<Rightarrow> 'h \<Rightarrow> 'h \<times> u8 list list" where
  "run_requests H [] h = (h, [])"
| "run_requests H (f # fs) h =
     (case cell_handle_request H f h of (h1, reply) \<Rightarrow>
        case run_requests H fs h1 of (h2, wires) \<Rightarrow> (h2, cell_wire reply # wires))"

lemma run_requests_append:
  "run_requests H (fs @ gs) h =
     (case run_requests H fs h of (h1, ws) \<Rightarrow> case run_requests H gs h1 of (h2, vs) \<Rightarrow> (h2, ws @ vs))"
  by (induction fs arbitrary: h) (auto split: prod.splits)

text \<open>A session: the chunks a client sends, each received by one \<open>service_client\<close>, as long as it is connected.\<close>

fun cell_session :: "'h CellAppHandler \<Rightarrow> u8 list list \<Rightarrow> u8 list \<Rightarrow> 'h \<Rightarrow> 'h \<times> u8 list option \<times> u8 list list" where
  "cell_session H [] buffer h = (h, Some buffer, [])"
| "cell_session H (c # cs) buffer h =
     (case service_client H (Received c) [] buffer h of (h1, b, wires, r) \<Rightarrow>
        case b of None \<Rightarrow> (h1, None, wires)
        | Some buf \<Rightarrow> (case cell_session H cs buf h1 of (h2, b2, wires2) \<Rightarrow> (h2, b2, wires @ wires2)))"

definition replies_fit :: "'h CellAppHandler \<Rightarrow> bool" where
  "replies_fit H \<longleftrightarrow> (\<forall>f h. length (cf_payload (snd (cell_handle_request H f h))) \<le> kCellAppMaxPayload)"

lemma cell_pop_cases:
  "cell_pop b = Popped f rest \<Longrightarrow> \<exists>n. try_decode_cell_app_frame b = (Inr f, n) \<and> rest = drop n b"
  "cell_pop b = pop.NeedMore \<Longrightarrow> \<exists>e n. try_decode_cell_app_frame b = (Inl e, n) \<and> err_code e = Errc.WouldBlock"
  by (auto simp: cell_pop_def split: prod.splits sum.splits if_splits)

lemma write_all_none [simp]: "write_all w [] = Inr ()"
  by (simp add: write_all_def)

lemma drain_drained:
  assumes "replies_fit H"
  shows "drained cell_pop buffer fs out \<Longrightarrow>
    cell_drain H [] buffer h = (fst (run_requests H fs h), Some out, snd (run_requests H fs h), Inr ())"
proof (induction buffer fs out arbitrary: h rule: drained.induct)
  case (wait buf)
  then show ?case using cell_pop_cases(2) [of buf] by (subst cell_drain.simps) auto
next
  case (frame buf f rest fs out)
  obtain n where n: "try_decode_cell_app_frame buf = (Inr f, n)" "rest = drop n buf"
    using cell_pop_cases(1) [OF frame.hyps(1)] by blast
  have ne: "buf \<noteq> []" using frame.hyps(1) cas.pop_nil by auto
  obtain h1 reply where hr: "cell_handle_request H f h = (h1, reply)" by fastforce
  have "encode_cell_app_frame reply = Some (cell_wire reply)"
    using assms hr unfolding replies_fit_def encode_cell_eq by (metis snd_conv)
  then show ?case using n ne hr frame.IH [of h1]
    by (subst cell_drain.simps) (simp add: send_of_def split: prod.split)
qed

lemma session_reads:
  assumes "replies_fit H"
  shows "reads cell_pop buffer cs fs out \<Longrightarrow> list_all (\<lambda>c. c \<noteq> []) cs \<Longrightarrow>
    cell_session H cs buffer h = (fst (run_requests H fs h), Some out, snd (run_requests H fs h))"
proof (induction buffer cs fs out arbitrary: h rule: reads.induct)
  case (read buf c fs mid cs gs out)
  have "service_client H (Received c) [] buf h = (fst (run_requests H fs h), Some mid, snd (run_requests H fs h), Inr ())"
    using drain_drained [OF assms read.hyps(1)] read.prems by (simp add: service_client_def)
  then show ?case using read.IH read.prems by (auto simp: run_requests_append split: prod.splits)
qed simp

text \<open>
  C25. The server answers exactly the requests of the stream, in order. A client
  sends any sequence of requests, its bytes arrive in any non-empty pieces, and
  replies fit their frames. Then the handler has been called for precisely these
  requests in this order, one reply per request has been written in this order,
  the client is still connected and nothing is left in its buffer.
\<close>
theorem cell_server_in_order:
  assumes "replies_fit H" and "list_all2 (\<lambda>f w. cell_enc f = Some w) fs ws"
    and "concat chunks = concat ws" and "list_all (\<lambda>c. c \<noteq> []) chunks"
  shows "cell_session H chunks [] h = (fst (run_requests H fs h), Some [], snd (run_requests H fs h))"
  using session_reads [OF assms(1) cas.stream_reads [OF assms(2)] assms(4)] assms(3) cas.pop_nil by simp

definition example_handler :: "nat CellAppHandler" where
  "example_handler = \<lparr>ch_status = (\<lambda>n. (n, project_cell_app_status telemetry_default)),
     ch_probe_cell_io = (\<lambda>n. (n, project_cell_app_status telemetry_default)),
     ch_activate = (\<lambda>n. (Suc n, \<lparr>cr_status = CommandStatus.Accepted, cr_from_state = RuntimeModeCode.Idle,
        cr_to_state = RuntimeModeCode.Active, cr_message = ''ok''\<rparr>)),
     ch_submit_output = (\<lambda>r n. (n, \<lparr>cr_status = CommandStatus.Rejected, cr_from_state = RuntimeModeCode.Idle,
        cr_to_state = RuntimeModeCode.Idle, cr_message = ''no''\<rparr>))\<rparr>"

lemma example_handler_fits: "replies_fit example_handler"
  unfolding replies_fit_def
proof (intro allI)
  fix f and h :: nat
  show "length (cf_payload (snd (cell_handle_request example_handler f h))) \<le> kCellAppMaxPayload"
    by (auto simp: cell_handle_request_def example_handler_def Let_def encode_cell_status_eq make_error_def
      encode_cell_command_reply_def decode_cell_output_payload_def kCellAppMaxPayload_def split: CellAppMessage.split)
qed

theorem cell_server_in_order_witness:
  "let f = \<lparr>cf_type = CellAppMessage.Activate, cf_sequence = 1, cf_payload = []\<rparr>; w = cell_wire f
   in cell_session example_handler [take 5 w, drop 5 w @ w] [] 0 =
        (2, Some [], snd (run_requests example_handler [f, f] 0))"
proof -
  let ?f = "\<lparr>cf_type = CellAppMessage.Activate, cf_sequence = 1, cf_payload = []\<rparr>"
  have e: "cell_enc ?f = Some (cell_wire ?f)"
    by (simp add: cell_enc_def encode_cell_eq named_CellAppMessage_def)
  have len: "length (cell_wire ?f) = 14" by (simp add: cell_wire_def)
  have two: "fst (run_requests example_handler [?f, ?f] 0) = 2"
    by (simp add: cell_handle_request_def example_handler_def Let_def)
  have "take 5 (cell_wire ?f) \<noteq> [] \<and> drop 5 (cell_wire ?f) @ cell_wire ?f \<noteq> []" using len by auto
  then show ?thesis
    using cell_server_in_order [OF example_handler_fits, of "[?f, ?f]" "[cell_wire ?f, cell_wire ?f]"
        "[take 5 (cell_wire ?f), drop 5 (cell_wire ?f) @ cell_wire ?f]" 0] e two
    by (simp add: Let_def append_assoc [symmetric] del: append_assoc)
qed

text \<open>Bytes that are not a frame end the session and never reach the handler.\<close>

lemma broken_stream_drops:
  assumes "cell_pop buffer = Broken"
  shows "\<exists>wires. cell_drain H sends buffer h = (h, None, wires, Inr ())"
proof -
  obtain e n where e: "try_decode_cell_app_frame buffer = (Inl e, n)" "err_code e \<noteq> Errc.WouldBlock"
    using assms by (auto simp: cell_pop_def split: prod.splits sum.splits if_splits)
  have "buffer \<noteq> []" using assms cas.pop_nil by auto
  then show ?thesis using e by (subst cell_drain.simps) simp
qed

section \<open>The poll step reads past its descriptors\<close>

lemma accepted_count:
  "accept_pending cs srv = (srv', r) \<Longrightarrow> length (cs_clients srv) \<le> kMaxEngineeringClients \<Longrightarrow>
     length (cs_clients srv) \<le> length (cs_clients srv') \<and> length (cs_clients srv') \<le> kMaxEngineeringClients"
  by (induction cs srv rule: accept_pending.induct) (auto split: if_splits AcceptCall.splits)


text \<open>When the poll accepts nobody, every read is of an element that exists.\<close>

lemma poll_clients_flags:
  assumes "\<And>i. i \<le> n \<Longrightarrow> flags i = flags' i"
  shows "poll_clients H flags io n st = poll_clients H flags' io n st"
  using assms
proof (induction n arbitrary: st)
  case (Suc n)
  then have "flags (n + 1) = flags' (n + 1)" by simp
  moreover have "poll_clients H flags io n st' = poll_clients H flags' io n st'" for st' using Suc by simp
  ultimately show ?case by (simp add: Let_def split: prod.split sum.split)
qed simp

lemma poll_without_accept:
  assumes "length pfds = Suc (length (cs_clients (fst st)))" and "\<not> rv_in (pfds ! 0)"
  shows "cell_server_poll H (PollReadable pfds) accepts b io st = cell_server_poll H (PollReadable pfds) accepts b' io st"
  using assms poll_clients_flags [of "length (cs_clients (fst st))" "revents_at pfds b" "revents_at pfds b'" H io st]
  by (simp add: cell_server_poll_def revents_at_def)

section \<open>Client against server\<close>

lemma handled_sequence: "cf_sequence (snd (cell_handle_request H f h)) = cf_sequence f"
  by (simp add: cell_handle_request_def Let_def make_error_def split: CellAppMessage.split prod.split sum.split)

text \<open>An exchange whose request is served and whose reply arrives returns the server's reply.\<close>

lemma cell_exchange_served:
  assumes "cl_connected c" and "no_write_failure sends" and "named_CellAppMessage rt" and "length payload \<le> kCellAppMaxPayload"
    and "cell_handle_request H (cl_request rt payload c) h = (h', reply)"
    and "cf_type reply = ack" and "named_CellAppMessage ack" and "ack \<noteq> CellAppMessage.Error"
    and "length (cf_payload reply) \<le> kCellAppMaxPayload" and "delivers timeout_ms (cell_wire reply) script"
  shows "cl_exchange rt ack payload timeout_ms sends script c =
     (c\<lparr>cl_next_sequence := cl_next_sequence c + 1\<rparr>, Inr reply)"
proof -
  have req: "encode_cell_app_frame (cl_request rt payload c) = Some (cell_wire (cl_request rt payload c))"
    using assms(4) by (simp add: encode_cell_eq cl_request_def)
  have ans: "cell_enc reply = Some (cell_wire reply)" using assms(6,7,9) by (simp add: cell_enc_def encode_cell_eq)
  have rf: "cell_read_frame timeout_ms script = Inr (cell_wire reply)" using cell_reply_delivered [OF ans assms(10)] .
  have dec: "fst (try_decode_cell_app_frame (cell_wire reply)) = Inr reply" using cell_decode_wire [OF ans, of "[]"] by simp
  show ?thesis using assms(1,6,8) req write_all_ok [OF assms(2)] rf dec by (simp add: cl_exchange_def Let_def)
qed

text \<open>After a failed exchange the client never reuses the connection, unless the server answered with an error frame.\<close>

lemma cell_exchange_failed:
  assumes "cl_exchange rt ack payload timeout_ms sends script c = (c', Inl e)" and "length payload \<le> kCellAppMaxPayload"
  shows "\<not> cl_connected c' \<or> e = Error.Error Errc.Rejected ''cell app returned ERROR''"
  using assms
  by (auto simp: cl_exchange_def Let_def cl_disconnect_def encode_cell_eq cl_request_def split: if_splits sum.splits)

end
