(* ===== verification/App_Adapter.thy ===== *)
theory App_Adapter
  imports Daemon_Proofs App_Model
begin

text \<open>
  The in-process application seam of
  \<^verbatim>\<open>linux/src/workbench/application/runtime_application_adapter.cpp\<close>: it reads the
  daemon's snapshot into the application model and turns the workbench's
  commands into daemon calls. The reading of the monotonic clock is an argument.
  The lemmas show that every enumeration it hands out is one of its enumerators,
  that an accepted digital output reaches the runtime's mailbox unchanged and
  fits the wire, and that activation starts from an empty output path.
\<close>

section \<open>Mapping the enumerations\<close>

fun map_error :: "Errc \<Rightarrow> CommandStatus" where
  "map_error Errc.Ok = CommandStatus.Accepted"
| "map_error Errc.InvalidArgument = CommandStatus.InvalidArgument"
| "map_error Errc.NotOpen = CommandStatus.NotOpen"
| "map_error Errc.IoError = CommandStatus.IoError"
| "map_error Errc.WouldBlock = CommandStatus.IoError"
| "map_error Errc.Timeout = CommandStatus.Timeout"
| "map_error Errc.Busy = CommandStatus.Busy"
| "map_error Errc.Rejected = CommandStatus.Rejected"
| "map_error Errc.Unsupported = CommandStatus.Unsupported"

fun map_runtime_mode :: "RuntimeMode \<Rightarrow> RuntimeModeCode" where
  "map_runtime_mode RuntimeMode.Disabled = RuntimeModeCode.Disabled"
| "map_runtime_mode RuntimeMode.Idle = RuntimeModeCode.Idle"
| "map_runtime_mode RuntimeMode.Active = RuntimeModeCode.Active"
| "map_runtime_mode RuntimeMode.Hold = RuntimeModeCode.Hold"
| "map_runtime_mode RuntimeMode.Fault = RuntimeModeCode.Fault"
| "map_runtime_mode RuntimeMode.EStop = RuntimeModeCode.EStop"

fun map_runtime_fault :: "FaultCode \<Rightarrow> RuntimeFaultCode" where
  "map_runtime_fault FaultCode.NoFault = RuntimeFaultCode.NoFault"
| "map_runtime_fault FaultCode.Watchdog = RuntimeFaultCode.Watchdog"
| "map_runtime_fault FaultCode.InputFault = RuntimeFaultCode.InputFault"
| "map_runtime_fault FaultCode.CommLoss = RuntimeFaultCode.CommLoss"
| "map_runtime_fault FaultCode.NodeFault = RuntimeFaultCode.NodeFault"
| "map_runtime_fault FaultCode.ProtocolReject = RuntimeFaultCode.ProtocolReject"
| "map_runtime_fault FaultCode.InterlockLost = RuntimeFaultCode.InterlockLost"
| "map_runtime_fault FaultCode.Internal = RuntimeFaultCode.Internal"
| "map_runtime_fault FaultCode.AckTimeout = RuntimeFaultCode.AckTimeout"

fun map_exit_status :: "DaemonExitCode \<Rightarrow> RuntimeExitStatus" where
  "map_exit_status DaemonExitCode.Ok = RuntimeExitStatus.Ok"
| "map_exit_status DaemonExitCode.ConfigError = RuntimeExitStatus.ConfigError"
| "map_exit_status DaemonExitCode.InterfaceError = RuntimeExitStatus.InterfaceError"
| "map_exit_status DaemonExitCode.PermissionError = RuntimeExitStatus.PermissionError"
| "map_exit_status DaemonExitCode.WorkerFailure = RuntimeExitStatus.WorkerFailure"

fun map_output_result :: "OutputResult \<Rightarrow> OutputApplyResult" where
  "map_output_result OutputResult.Applied = OutputApplyResult.Applied"
| "map_output_result OutputResult.StaleSequence = OutputApplyResult.StaleSequence"
| "map_output_result OutputResult.SessionMismatch = OutputApplyResult.SessionMismatch"
| "map_output_result OutputResult.Expired = OutputApplyResult.Expired"
| "map_output_result OutputResult.InvalidMask = OutputApplyResult.InvalidMask"
| "map_output_result OutputResult.NotReady = OutputApplyResult.NotReady"

fun map_stop_reason :: "IoStopReason \<Rightarrow> CommunicationStopReason" where
  "map_stop_reason IoStopReason.NoReason = CommunicationStopReason.NoReason"
| "map_stop_reason IoStopReason.EventFd = CommunicationStopReason.EventFd"
| "map_stop_reason IoStopReason.Signal = CommunicationStopReason.Signal"
| "map_stop_reason IoStopReason.IoError = CommunicationStopReason.IoError"
| "map_stop_reason IoStopReason.SendFailure = CommunicationStopReason.SendFailure"

definition transition_reply :: "TransitionResult \<Rightarrow> CommandReply" where
  "transition_reply t = \<lparr>cr_status = (if tr_accepted t then CommandStatus.Accepted else CommandStatus.Rejected),
     cr_from_state = map_runtime_mode (tr_from t), cr_to_state = map_runtime_mode (tr_to t), cr_message = tr_reason t\<rparr>"

section \<open>Snapshot\<close>

text \<open>The nested structures of a daemon snapshot, with their default values where the part does not exist.\<close>

definition scheduler_stats_default :: SchedulerStats where
  "scheduler_stats_default = \<lparr>st_cycles = 0, st_deadline_misses = 0, st_min_lateness_ns = 0, st_max_lateness_ns = 0,
     st_mean_lateness_ns = 0, st_fifo_enabled = False, st_fifo_error = 0, st_affinity_enabled = False,
     st_affinity_error = 0, st_worker_error = 0\<rparr>"

definition runtime_snapshot_default :: RuntimeSnapshot where
  "runtime_snapshot_default = \<lparr>sn_mode = RuntimeMode.Disabled, sn_fault = FaultCode.NoFault, sn_interlock_ready = False,
     sn_running = False, sn_scheduler = scheduler_stats_default, sn_published_commands = 0, sn_overwritten_commands = 0,
     sn_output_ack_pending = False, sn_last_sent_session = 0, sn_last_sent_sequence = 0, sn_last_sent_time_ns = 0,
     sn_last_ack_session = 0, sn_last_ack_sequence = 0, sn_last_ack_result = OutputResult.Applied, sn_last_ack_time_ns = 0,
     sn_ack_timeout_count = 0, sn_unexpected_ack_count = 0, sn_trace_dropped = 0\<rparr>"

definition node_snapshot_default :: NodeSupervisorSnapshot where
  "node_snapshot_default = \<lparr>ss_ever_seen = False, ss_online = False, ss_restart_latched = False,
     ss_overflow_fault_latched = False, ss_comm_loss_latched = False, ss_boot_id = 0, ss_session_id = 0, ss_last_hb_seq = 0,
     ss_node_fault_code = 0, ss_input_bits = 0, ss_last_output_mirror = 0, ss_last_heartbeat_ns = 0, ss_heartbeats = 0,
     ss_status_updates = 0, ss_protocol_rejects = 0, ss_events_processed = 0, ss_events_budget_left = 0\<rparr>"

definition io_stats_default :: CanIoStats where
  "io_stats_default = \<lparr>cs_frames_received = 0, cs_frames_sent = 0, cs_decode_rejects = 0, cs_queue_rejects = 0,
     cs_send_would_block_retries = 0, cs_wakeups = 0, cs_stop_reason = IoStopReason.NoReason, cs_last_errno = 0\<rparr>"

definition raw_runtime :: "DaemonSnapshot \<Rightarrow> RuntimeSnapshot" where
  "raw_runtime raw = (case ds_runtime raw of None \<Rightarrow> runtime_snapshot_default | Some r \<Rightarrow> r)"

definition raw_node :: "DaemonSnapshot \<Rightarrow> NodeSupervisorSnapshot" where
  "raw_node raw = (case ds_node raw of None \<Rightarrow> node_snapshot_default | Some n \<Rightarrow> n)"

definition raw_io :: "DaemonSnapshot \<Rightarrow> CanIoStats" where
  "raw_io raw = (case ds_io raw of None \<Rightarrow> io_stats_default | Some i \<Rightarrow> i)"

record AdapterConfig =
  ad_evidence :: EvidenceClass
  ad_backend_label :: string

definition add_diagnostic ::
  "DiagnosticSource \<Rightarrow> DiagnosticSeverity \<Rightarrow> string \<Rightarrow> string \<Rightarrow> RuntimeTelemetrySnapshot \<Rightarrow> RuntimeTelemetrySnapshot" where
  "add_diagnostic source severity code message out =
     out\<lparr>tm_diagnostics := tm_diagnostics out @
       [\<lparr>de_observed_monotonic_ns = tm_observed_monotonic_ns out, de_source = source, de_severity = severity,
         de_code = code, de_message = message, de_device_id = dv_device_id (tm_device out), de_run_id = [], de_context = []\<rparr>]\<rparr>"

definition add_if ::
  "bool \<Rightarrow> DiagnosticSource \<Rightarrow> DiagnosticSeverity \<Rightarrow> string \<Rightarrow> string \<Rightarrow> RuntimeTelemetrySnapshot \<Rightarrow> RuntimeTelemetrySnapshot" where
  "add_if b source severity code message out = (if b then add_diagnostic source severity code message out else out)"

definition project_diagnostics :: "DaemonSnapshot \<Rightarrow> RuntimeTelemetrySnapshot \<Rightarrow> RuntimeTelemetrySnapshot" where
  "project_diagnostics raw out0 =
     (let r = raw_runtime raw; n = raw_node raw; i = raw_io raw;
          o1 = add_if (\<not> ds_started raw) DiagnosticSource.Runtime DiagnosticSeverity.Info
                 ''RUNTIME_NOT_STARTED'' ''Runtime daemon is not started'' out0;
          o2 = add_if (sn_fault r \<noteq> FaultCode.NoFault) DiagnosticSource.Runtime DiagnosticSeverity.Error
                 ''RUNTIME_FAULT'' (FaultCode_to_string (sn_fault r)) o1;
          o3 = add_if (st_worker_error (sn_scheduler r) \<noteq> 0) DiagnosticSource.Runtime DiagnosticSeverity.Error
                 ''SCHEDULER_WORKER_ERROR'' (''scheduler worker errno='' @ int_to_string (st_worker_error (sn_scheduler r))) o2;
          o4 = add_if (ds_input_queue_overflow_latched raw) DiagnosticSource.Communication DiagnosticSeverity.Error
                 ''INPUT_QUEUE_OVERFLOW'' ''Runtime input queue overflow is latched'' o3;
          o5 = add_if (ss_ever_seen n \<and> \<not> ss_online n) DiagnosticSource.Communication DiagnosticSeverity.Error
                 ''DEVICE_OFFLINE'' ''Previously observed device is offline'' o4;
          o6 = add_if (ss_comm_loss_latched n) DiagnosticSource.Communication DiagnosticSeverity.Error
                 ''COMM_LOSS_LATCHED'' ''Communication loss is latched'' o5;
          o7 = add_if (cs_decode_rejects i \<noteq> 0 \<or> ss_protocol_rejects n \<noteq> 0) DiagnosticSource.Communication DiagnosticSeverity.Warning
                 ''PROTOCOL_REJECTS'' ''One or more received frames were rejected'' o6;
          o8 = add_if (ss_node_fault_code n \<noteq> 0) DiagnosticSource.Device DiagnosticSeverity.Error
                 ''DEVICE_FAULT'' (''device fault code='' @ nat_to_string (unat (ss_node_fault_code n))) o7
      in add_if (cs_stop_reason i = IoStopReason.IoError \<or> cs_stop_reason i = IoStopReason.SendFailure)
           DiagnosticSource.Communication DiagnosticSeverity.Error ''CAN_IO_STOPPED''
           (IoStopReason_to_string (cs_stop_reason i) @ '' errno='' @ int_to_string (cs_last_errno i)) o8)"

definition node_label :: "u8 \<Rightarrow> string" where
  "node_label node_id = ''CAN_NODE_'' @ nat_to_string (unat node_id)"

definition adapter_runtime_view :: "DaemonSnapshot \<Rightarrow> RuntimeStateView" where
  "adapter_runtime_view raw =
     \<lparr>rs_started = ds_started raw, rs_stopping = ds_stopping raw, rs_scheduler_running = sn_running (raw_runtime raw),
      rs_interlock_ready = sn_interlock_ready (raw_runtime raw), rs_mode = map_runtime_mode (sn_mode (raw_runtime raw)),
      rs_fault = map_runtime_fault (sn_fault (raw_runtime raw)), rs_exit_status = map_exit_status (ds_exit_code raw)\<rparr>"

definition adapter_timing_view :: "DaemonConfig \<Rightarrow> DaemonSnapshot \<Rightarrow> TimingSnapshot" where
  "adapter_timing_view dc raw =
     (let s = sn_scheduler (raw_runtime raw) in
      \<lparr>ts_target_period_ns = dc_period_ms dc * 1000000, ts_cycles = st_cycles s, ts_deadline_misses = st_deadline_misses s,
       ts_min_lateness_ns = st_min_lateness_ns s, ts_mean_lateness_ns = st_mean_lateness_ns s,
       ts_max_lateness_ns = st_max_lateness_ns s, ts_fifo_enabled = st_fifo_enabled s, ts_fifo_error = st_fifo_error s,
       ts_affinity_enabled = st_affinity_enabled s, ts_affinity_error = st_affinity_error s, ts_worker_error = st_worker_error s\<rparr>)"

definition adapter_communication_view :: "AdapterConfig \<Rightarrow> DaemonConfig \<Rightarrow> DaemonSnapshot \<Rightarrow> CommunicationView" where
  "adapter_communication_view ac dc raw =
     (let i = raw_io raw in
      \<lparr>cv_backend = ad_backend_label ac, cv_interface_name = dc_can_if dc, cv_evidence = ad_evidence ac,
       cv_frames_received = cs_frames_received i, cv_frames_sent = cs_frames_sent i, cv_decode_rejects = cs_decode_rejects i,
       cv_queue_rejects = cs_queue_rejects i, cv_send_would_block_retries = cs_send_would_block_retries i,
       cv_wakeups = cs_wakeups i, cv_input_queue_capacity = ds_input_queue_capacity raw,
       cv_input_queue_size = ds_input_queue_size raw, cv_input_queue_drop_count = ds_input_queue_drop_count raw,
       cv_input_queue_overflow_latched = ds_input_queue_overflow_latched raw,
       cv_stop_reason = map_stop_reason (cs_stop_reason i), cv_last_errno = cs_last_errno i\<rparr>)"

definition heartbeat_age :: "i64 Result \<Rightarrow> NodeSupervisorSnapshot \<Rightarrow> i64" where
  "heartbeat_age now n =
     (case now of
        Inl e \<Rightarrow> -1
      | Inr t \<Rightarrow> if ss_ever_seen n \<and> ss_last_heartbeat_ns n > 0
                 then (if t \<ge> ss_last_heartbeat_ns n then t - ss_last_heartbeat_ns n else 0)
                 else -1)"

definition adapter_device_view :: "i64 Result \<Rightarrow> DaemonConfig \<Rightarrow> DaemonSnapshot \<Rightarrow> DeviceView" where
  "adapter_device_view now dc raw =
     (let n = raw_node raw in
      \<lparr>dv_device_id = node_label (dc_node_id dc), dv_node_id = dc_node_id dc, dv_ever_seen = ss_ever_seen n,
       dv_online = ss_online n, dv_restart_latched = ss_restart_latched n,
       dv_overflow_fault_latched = ss_overflow_fault_latched n, dv_comm_loss_latched = ss_comm_loss_latched n,
       dv_boot_id = ss_boot_id n, dv_session_id = ss_session_id n, dv_last_heartbeat_sequence = ss_last_hb_seq n,
       dv_device_fault_code = ss_node_fault_code n, dv_input_bits = ss_input_bits n,
       dv_last_output_mirror = ss_last_output_mirror n, dv_heartbeat_age_ns = heartbeat_age now n,
       dv_heartbeats = ss_heartbeats n, dv_status_updates = ss_status_updates n, dv_protocol_rejects = ss_protocol_rejects n\<rparr>)"

definition adapter_output_view :: "DaemonSnapshot \<Rightarrow> OutputFeedbackView" where
  "adapter_output_view raw =
     (let r = raw_runtime raw in
      \<lparr>of_ack_pending = sn_output_ack_pending r, of_last_sent_session = sn_last_sent_session r,
       of_last_sent_sequence = sn_last_sent_sequence r, of_last_sent_time_ns = sn_last_sent_time_ns r,
       of_last_ack_session = sn_last_ack_session r, of_last_ack_sequence = sn_last_ack_sequence r,
       of_last_ack_result = map_output_result (sn_last_ack_result r), of_last_ack_time_ns = sn_last_ack_time_ns r,
       of_ack_timeout_count = sn_ack_timeout_count r, of_unexpected_ack_count = sn_unexpected_ack_count r\<rparr>)"

definition adapter_snapshot :: "AdapterConfig \<Rightarrow> i64 Result \<Rightarrow> RuntimeDaemon \<Rightarrow> RuntimeTelemetrySnapshot" where
  "adapter_snapshot ac now d =
     (let raw = d_snapshot d; dc = d_config d;
          out = telemetry_default\<lparr>
            tm_observed_monotonic_ns := (case now of Inl e \<Rightarrow> -1 | Inr t \<Rightarrow> t),
            tm_runtime := adapter_runtime_view raw, tm_timing := adapter_timing_view dc raw,
            tm_communication := adapter_communication_view ac dc raw,
            tm_device := adapter_device_view now dc raw, tm_output := adapter_output_view raw\<rparr>;
          out1 = (case now of
                    Inl e \<Rightarrow> add_diagnostic DiagnosticSource.Workbench DiagnosticSeverity.Error
                             ''MONOTONIC_CLOCK_ERROR'' (err_message e) out
                  | Inr t \<Rightarrow> out)
      in project_diagnostics raw out1)"

section \<open>Commands\<close>

definition adapter_activate :: "RuntimeDaemon \<Rightarrow> RuntimeDaemon \<times> CommandReply" where
  "adapter_activate d =
     (let snap = d_snapshot d; go = (\<lambda>d1. case d_activate d1 of (d2, r) \<Rightarrow> (d2, transition_reply r)) in
      if sn_mode (raw_runtime snap) = RuntimeMode.Hold then
        (case d_resume d of (d1, resumed) \<Rightarrow>
           if \<not> tr_accepted resumed then (d1, transition_reply resumed) else go d1)
      else if sn_mode (raw_runtime snap) = RuntimeMode.Fault then
        (case d_clear_fault d of (d1, cleared) \<Rightarrow>
           if \<not> tr_accepted cleared then
             let reply = transition_reply cleared; code = ss_node_fault_code (raw_node snap)
             in (d1, if code \<noteq> 0 then
                       reply\<lparr>cr_message := cr_message reply @ '' (device fault_code='' @ nat_to_string (unat code) @
                         (if code = 7 then '', STM32 INTERNAL latched; reset MCU'' else []) @ '')''\<rparr>
                     else reply)
           else go d1)
      else go d)"

definition adapter_deactivate :: "RuntimeDaemon \<Rightarrow> RuntimeDaemon \<times> CommandReply" where
  "adapter_deactivate d = (case d_deactivate d of (d1, r) \<Rightarrow> (d1, transition_reply r))"

definition adapter_clear_fault :: "RuntimeDaemon \<Rightarrow> RuntimeDaemon \<times> CommandReply" where
  "adapter_clear_fault d = (case d_clear_fault d of (d1, r) \<Rightarrow> (d1, transition_reply r))"

definition i64_max :: i64 where "i64_max = 2 ^ 63 - 1"

definition adapter_submit_digital_output ::
  "i64 Result \<Rightarrow> DigitalOutputRequest \<Rightarrow> RuntimeDaemon \<Rightarrow> RuntimeDaemon \<times> CommandReply" where
  "adapter_submit_digital_output now request d =
     (let current = map_runtime_mode (sn_mode (raw_runtime (d_snapshot d)));
          reply = (\<lambda>status message. \<lparr>cr_status = status, cr_from_state = current, cr_to_state = current, cr_message = message\<rparr>);
          invalid = (\<lambda>message. (d, reply CommandStatus.InvalidArgument message))
      in if dr_session_id request = 0 \<or> dr_session_id request > 65535 then invalid ''session_id must be 1..65535''
         else if dr_sequence request = 0 \<or> dr_sequence request > 65535 then invalid ''sequence must be 1..65535''
         else if dr_valid_for_ms request < ucast kMinValidity10ms * 10 \<or> dr_valid_for_ms request > ucast kMaxValidity10ms * 10
           then invalid ''valid_for_ms must be 10..2500''
         else if dr_mask request = 0 \<or> dr_mask request > 255 \<or> dr_values request > 255
           then invalid ''mask must be nonzero u8 and values must fit u8''
         else case now of
           Inl e \<Rightarrow> (d, reply CommandStatus.IoError (err_message e))
         | Inr t \<Rightarrow>
             let validity_ns = uint (dr_valid_for_ms request) * 1000000 in
             if t > i64_max - validity_ns then invalid ''deadline overflows CLOCK_MONOTONIC nanoseconds''
             else
               let command = \<lparr>oc_session_id = dr_session_id request, oc_sequence = dr_sequence request,
                     oc_deadline_ns = t + validity_ns, oc_mask = dr_mask request, oc_values = dr_values request\<rparr>
               in case d_publish_output_command command d of
                    (d1, Inl e) \<Rightarrow> (d1, reply (map_error (err_code e)) (err_message e))
                  | (d1, Inr _) \<Rightarrow> (d1, reply CommandStatus.Accepted ''digital output command accepted by Runtime''))"

section \<open>Well-typed snapshots\<close>

text \<open>
  \<open>snapshot_typed s\<close>: every enumeration of the snapshot that a protocol sends as a byte is an
  enumerator, and the two time stamps it sends fit the wire's 64 bits.
\<close>

definition snapshot_typed :: "RuntimeTelemetrySnapshot \<Rightarrow> bool" where
  "snapshot_typed s \<longleftrightarrow> named_RuntimeModeCode (rs_mode (tm_runtime s)) \<and> named_RuntimeFaultCode (rs_fault (tm_runtime s)) \<and>
     named_OutputApplyResult (of_last_ack_result (tm_output s)) \<and> named_EvidenceClass (cv_evidence (tm_communication s)) \<and>
     i64_range (tm_observed_monotonic_ns s) \<and> i64_range (dv_heartbeat_age_ns (tm_device s))"

lemma named_runtime_mode [simp]: "named_RuntimeModeCode (map_runtime_mode m)"
  by (cases m) (simp_all add: named_RuntimeModeCode_def)

lemma named_runtime_fault [simp]: "named_RuntimeFaultCode (map_runtime_fault f)"
  by (cases f) (simp_all add: named_RuntimeFaultCode_def)

lemma named_output_result [simp]: "named_OutputApplyResult (map_output_result r)"
  by (cases r) (simp_all add: named_OutputApplyResult_def)

lemma named_error [simp]: "named_CommandStatus (map_error e)"
  by (cases e) (simp_all add: named_CommandStatus_def)

lemma add_if_frame [simp]:
  "tm_observed_monotonic_ns (add_if b src sev c m s) = tm_observed_monotonic_ns s" "tm_runtime (add_if b src sev c m s) = tm_runtime s"
  "tm_timing (add_if b src sev c m s) = tm_timing s" "tm_communication (add_if b src sev c m s) = tm_communication s"
  "tm_device (add_if b src sev c m s) = tm_device s" "tm_output (add_if b src sev c m s) = tm_output s"
  by (simp_all add: add_if_def add_diagnostic_def)

lemma project_diagnostics_frame [simp]:
  "tm_observed_monotonic_ns (project_diagnostics raw s) = tm_observed_monotonic_ns s" "tm_runtime (project_diagnostics raw s) = tm_runtime s"
  "tm_communication (project_diagnostics raw s) = tm_communication s" "tm_device (project_diagnostics raw s) = tm_device s"
  "tm_output (project_diagnostics raw s) = tm_output s"
  by (simp_all add: project_diagnostics_def Let_def)

lemma adapter_snapshot_fields:
  "tm_observed_monotonic_ns (adapter_snapshot ac now d) = (case now of Inl e \<Rightarrow> -1 | Inr t \<Rightarrow> t)"
  "tm_runtime (adapter_snapshot ac now d) = adapter_runtime_view (d_snapshot d)"
  "tm_communication (adapter_snapshot ac now d) = adapter_communication_view ac (d_config d) (d_snapshot d)"
  "tm_device (adapter_snapshot ac now d) = adapter_device_view now (d_config d) (d_snapshot d)"
  "tm_output (adapter_snapshot ac now d) = adapter_output_view (d_snapshot d)"
  by (simp_all add: adapter_snapshot_def Let_def add_diagnostic_def split: sum.split)



section \<open>Activation\<close>

lemma machine_accepts_activation:
  assumes "handle RuntimeEvent.ActivateRequest s = (s', t)" and "tr_accepted t"
  shows "sm_mode s = RuntimeMode.Idle \<and> sm_mode s' = RuntimeMode.Active"
  using assms by (cases "sm_mode s") (auto simp: sm_defs split: if_splits)

lemma handle_accepts_activation:
  assumes "rt_handle RuntimeEvent.ActivateRequest rt = (rt', t)" and "tr_accepted t"
  shows "rt_mode rt = RuntimeMode.Idle \<and> rt_mode rt' = RuntimeMode.Active \<and> out_path rt' = (None, 0, None)"
proof -
  obtain sm tr where h: "handle RuntimeEvent.ActivateRequest (rt_state_machine rt) = (sm, tr)" by fastforce
  have t: "tr_accepted tr" "rt_state_machine rt' = sm"
    using assms h by (auto simp: rt_handle_def Let_def refused_def split: if_splits)
  note m = machine_accepts_activation [OF h t(1)]
  have "rt_mode rt \<noteq> RuntimeMode.Active" "rt_mode (fst (rt_handle RuntimeEvent.ActivateRequest rt)) = RuntimeMode.Active"
    using m t(2) assms(1) by simp_all
  from handle_activates [OF this] show ?thesis using m t(2) assms(1) by simp
qed

lemma d_activate_accepted:
  assumes "d_activate d = (d', t)" and "tr_accepted t"
  shows "\<exists>rt rt'. d_runtime d = Some rt \<and> rt_mode rt = RuntimeMode.Idle \<and> d_runtime d' = Some rt' \<and>
     rt_mode rt' = RuntimeMode.Active \<and> out_path rt' = (None, 0, None)"
proof (cases "d_runtime d")
  case None
  then show ?thesis using assms by (auto simp: d_activate_def d_handle_def not_started_def)
next
  case (Some rt)
  obtain rt' r where h: "rt_handle RuntimeEvent.ActivateRequest rt = (rt', r)" by fastforce
  then have "r = t" "d_runtime d' = Some rt'" using assms(1) Some by (auto simp: d_activate_def d_handle_def)
  then show ?thesis using handle_accepts_activation [OF h] assms(2) Some by auto
qed

lemma d_activate_refused:
  assumes "\<not> tr_accepted (snd (d_activate d))"
  shows "outputs_open (fst (d_activate d)) = outputs_open d"
proof (cases "d_runtime d")
  case (Some rt)
  obtain sm tr where h: "handle RuntimeEvent.ActivateRequest (rt_state_machine rt) = (sm, tr)" by fastforce
  then show ?thesis using assms Some handle_result(3) [OF h]
    by (auto simp: d_activate_def d_handle_def outputs_open_def rt_handle_def Let_def refused_def split: if_splits)
qed (simp add: d_activate_def d_handle_def)

lemma transition_accepted [simp]: "cr_status (transition_reply t) = CommandStatus.Accepted \<longleftrightarrow> tr_accepted t"
  by (simp add: transition_reply_def)

text \<open>What \<open>activate\<close> does before the activation proper: \<open>None\<close> when that step was refused.\<close>

definition before_activation :: "RuntimeDaemon \<Rightarrow> RuntimeDaemon \<times> bool" where
  "before_activation d =
     (if sn_mode (raw_runtime (d_snapshot d)) = RuntimeMode.Hold then (fst (d_resume d), tr_accepted (snd (d_resume d)))
      else if sn_mode (raw_runtime (d_snapshot d)) = RuntimeMode.Fault then (fst (d_clear_fault d), tr_accepted (snd (d_clear_fault d)))
      else (d, True))"

lemma activate_split:
  "fst (adapter_activate d) = (if snd (before_activation d) then fst (d_activate (fst (before_activation d))) else fst (before_activation d))"
  "cr_status (snd (adapter_activate d)) = CommandStatus.Accepted \<longleftrightarrow>
     snd (before_activation d) \<and> tr_accepted (snd (d_activate (fst (before_activation d))))"
  unfolding adapter_activate_def before_activation_def Let_def split_beta by simp_all

lemma before_activation_closed: "\<not> outputs_open d \<Longrightarrow> \<not> outputs_open (fst (before_activation d))"
  using open_handle [of d RuntimeEvent.Resume] open_clear_fault [of d]
  by (auto simp: before_activation_def d_resume_def)

text \<open>
  The one button that starts motion starts from nothing. If \<open>activate\<close> is
  accepted, whether from IDLE or by way of resuming a hold or clearing a fault,
  the runtime is ACTIVE afterwards with no session bound, no sequence used and
  an empty mailbox: no command from before the activation can be sent. If it is
  refused, it has not opened the outputs.
\<close>
theorem adapter_activate_fresh:
  assumes "adapter_activate d = (d', reply)"
  shows "if cr_status reply = CommandStatus.Accepted
         then \<exists>rt'. d_runtime d' = Some rt' \<and> rt_mode rt' = RuntimeMode.Active \<and> out_path rt' = (None, 0, None)
         else \<not> outputs_open d \<longrightarrow> \<not> outputs_open d'"
proof -
  let ?d1 = "fst (before_activation d)"
  have d': "d' = fst (adapter_activate d)" "reply = snd (adapter_activate d)" using assms by simp_all
  show ?thesis
  proof (cases "cr_status reply = CommandStatus.Accepted")
    case True
    then have a: "snd (before_activation d)" "tr_accepted (snd (d_activate ?d1))" by (simp_all add: d' activate_split)
    then show ?thesis using True d_activate_accepted [of ?d1 d' "snd (d_activate ?d1)"]
      by (auto simp: d' activate_split)
  next
    case False
    then have "\<not> (snd (before_activation d) \<and> tr_accepted (snd (d_activate ?d1)))" by (simp add: d' activate_split)
    then have "\<not> outputs_open d \<longrightarrow> \<not> outputs_open d'"
      using d_activate_refused [of ?d1] before_activation_closed [of d] by (simp add: d' activate_split)
    then show ?thesis using False by simp
  qed
qed

theorem adapter_activate_fresh_witness:
  "cr_status (snd (adapter_activate (fold d_step (butlast (butlast demo_open_ops)) (d_init demo_daemon_config)))) = CommandStatus.Accepted \<and>
   (\<exists>rt'. d_runtime (fst (adapter_activate (fold d_step (butlast (butlast demo_open_ops)) (d_init demo_daemon_config)))) = Some rt' \<and>
      out_path rt' = (None, 0, None))"
proof -
  let ?d = "fold d_step (butlast (butlast demo_open_ops)) (d_init demo_daemon_config)"
  have a: "cr_status (snd (adapter_activate ?d)) = CommandStatus.Accepted" by code_simp
  show ?thesis using adapter_activate_fresh [OF prod.collapse [symmetric], of ?d] a by auto
qed

section \<open>Submitting outputs\<close>

text \<open>The command a request becomes when it is submitted at time \<open>t\<close>, and the requests that are passed on.\<close>

definition request_command :: "i64 \<Rightarrow> DigitalOutputRequest \<Rightarrow> OutputCommand" where
  "request_command t r = \<lparr>oc_session_id = dr_session_id r, oc_sequence = dr_sequence r,
     oc_deadline_ns = t + uint (dr_valid_for_ms r) * 1000000, oc_mask = dr_mask r, oc_values = dr_values r\<rparr>"

definition request_fits :: "DigitalOutputRequest \<Rightarrow> bool" where
  "request_fits r \<longleftrightarrow> dr_session_id r \<noteq> 0 \<and> dr_session_id r \<le> 65535 \<and> dr_sequence r \<noteq> 0 \<and> dr_sequence r \<le> 65535 \<and>
     10 \<le> dr_valid_for_ms r \<and> dr_valid_for_ms r \<le> 2500 \<and> dr_mask r \<noteq> 0 \<and> dr_mask r \<le> 255 \<and> dr_values r \<le> 255"

lemma validity_bounds: "ucast kMinValidity10ms * 10 = (10 :: u32)" "ucast kMaxValidity10ms * 10 = (2500 :: u32)"
  by (simp_all add: kMinValidity10ms_def kMaxValidity10ms_def)

lemma submit_misfit:
  assumes "\<not> request_fits r"
  shows "fst (adapter_submit_digital_output now r d) = d \<and>
         cr_status (snd (adapter_submit_digital_output now r d)) = CommandStatus.InvalidArgument"
proof -
  have "dr_session_id r = 0 \<or> dr_session_id r > 65535 \<or> dr_sequence r = 0 \<or> dr_sequence r > 65535 \<or>
      dr_valid_for_ms r < 10 \<or> dr_valid_for_ms r > 2500 \<or> dr_mask r = 0 \<or> dr_mask r > 255 \<or> dr_values r > 255"
    using assms by (auto simp: request_fits_def not_less)
  then show ?thesis by (auto simp: adapter_submit_digital_output_def Let_def validity_bounds)
qed

lemma submit_fit:
  assumes "request_fits r"
  shows "fst (adapter_submit_digital_output now r d) =
      (case now of Inl e \<Rightarrow> d
       | Inr t \<Rightarrow> if t > i64_max - uint (dr_valid_for_ms r) * 1000000 then d else fst (d_publish_output_command (request_command t r) d))"
    and "cr_status (snd (adapter_submit_digital_output now r d)) =
      (case now of Inl e \<Rightarrow> CommandStatus.IoError
       | Inr t \<Rightarrow> if t > i64_max - uint (dr_valid_for_ms r) * 1000000 then CommandStatus.InvalidArgument
                  else case snd (d_publish_output_command (request_command t r) d) of
                    Inl e \<Rightarrow> map_error (err_code e) | Inr _ \<Rightarrow> CommandStatus.Accepted)"
proof -
  have c: "dr_session_id r \<noteq> 0" "\<not> dr_session_id r > 65535" "dr_sequence r \<noteq> 0" "\<not> dr_sequence r > 65535"
    "\<not> dr_valid_for_ms r < 10" "\<not> dr_valid_for_ms r > 2500" "dr_mask r \<noteq> 0" "\<not> dr_mask r > 255" "\<not> dr_values r > 255"
    using assms by (simp_all add: request_fits_def not_less)
  show "fst (adapter_submit_digital_output now r d) =
      (case now of Inl e \<Rightarrow> d
       | Inr t \<Rightarrow> if t > i64_max - uint (dr_valid_for_ms r) * 1000000 then d else fst (d_publish_output_command (request_command t r) d))"
    "cr_status (snd (adapter_submit_digital_output now r d)) =
      (case now of Inl e \<Rightarrow> CommandStatus.IoError
       | Inr t \<Rightarrow> if t > i64_max - uint (dr_valid_for_ms r) * 1000000 then CommandStatus.InvalidArgument
                  else case snd (d_publish_output_command (request_command t r) d) of
                    Inl e \<Rightarrow> map_error (err_code e) | Inr _ \<Rightarrow> CommandStatus.Accepted)"
    using c by (simp_all add: adapter_submit_digital_output_def Let_def validity_bounds request_command_def split: sum.split prod.split)
qed

lemma submit_state:
  "fst (adapter_submit_digital_output now r d) =
     (case now of Inl e \<Rightarrow> d
      | Inr t \<Rightarrow> if request_fits r \<and> t \<le> i64_max - uint (dr_valid_for_ms r) * 1000000
                 then fst (d_publish_output_command (request_command t r) d) else d)"
  by (cases "request_fits r") (simp_all add: submit_misfit submit_fit not_less split: sum.split)

lemma publish_error_code:
  assumes "\<And>rt e. d_runtime d = Some rt \<Longrightarrow> rt_now rt = Inl e \<Longrightarrow> err_code e \<noteq> Errc.Ok"
    and "snd (d_publish_output_command c d) = Inl e"
  shows "err_code e \<noteq> Errc.Ok"
  using assms by (auto simp: d_publish_output_command_def publish_output_command_def reject_command_def Let_def
      split: option.splits sum.splits if_splits prod.splits)

text \<open>An accepted request was published, provided that a clock error carries an error code.\<close>

lemma submit_accepted:
  assumes "cr_status (snd (adapter_submit_digital_output now r d)) = CommandStatus.Accepted"
    and "\<And>rt e. d_runtime d = Some rt \<Longrightarrow> rt_now rt = Inl e \<Longrightarrow> err_code e \<noteq> Errc.Ok"
  shows "\<exists>t u. now = Inr t \<and> snd (d_publish_output_command (request_command t r) d) = Inr u"
proof -
  have code: "map_error c = CommandStatus.Accepted \<longleftrightarrow> c = Errc.Ok" for c by (cases c) simp_all
  have fit: "request_fits r" using assms(1) submit_misfit [of r now d] by (cases "request_fits r") simp_all
  obtain t where t: "now = Inr t" using assms(1) by (cases now) (simp_all add: submit_fit [OF fit])
  then show ?thesis using assms(1) publish_error_code [OF assms(2)]
    by (cases "snd (d_publish_output_command (request_command t r) d)") (auto simp: submit_fit [OF fit] code split: if_splits)
qed

section \<open>Workbench runs\<close>

text \<open>
  The calls the workbench makes, interleaved with what the daemon does by itself
  (start, boot, stop and the turns of its two threads).
\<close>

datatype WorkbenchOp = WActivate | WDeactivate | WClearFault | WSubmit "i64 Result" DigitalOutputRequest | WSystem DaemonOp

fun wb_step :: "WorkbenchOp \<Rightarrow> RuntimeDaemon \<Rightarrow> RuntimeDaemon" where
  "wb_step WActivate d = fst (adapter_activate d)"
| "wb_step WDeactivate d = fst (adapter_deactivate d)"
| "wb_step WClearFault d = fst (adapter_clear_fault d)"
| "wb_step (WSubmit now r) d = fst (adapter_submit_digital_output now r d)"
| "wb_step (WSystem op) d = d_step op d"

text \<open>The daemon calls behind a workbench call.\<close>

fun wb_calls :: "WorkbenchOp \<Rightarrow> RuntimeDaemon \<Rightarrow> DaemonOp list" where
  "wb_calls WActivate d =
     (if sn_mode (raw_runtime (d_snapshot d)) = RuntimeMode.Hold then [DResume]
      else if sn_mode (raw_runtime (d_snapshot d)) = RuntimeMode.Fault then [DClearFault] else []) @
     (if snd (before_activation d) then [DActivate] else [])"
| "wb_calls WDeactivate d = [DDeactivate]"
| "wb_calls WClearFault d = [DClearFault]"
| "wb_calls (WSubmit now r) d =
     (case now of Inl e \<Rightarrow> [] | Inr t \<Rightarrow>
        if request_fits r \<and> t \<le> i64_max - uint (dr_valid_for_ms r) * 1000000 then [DPublish (request_command t r)] else [])"
| "wb_calls (WSystem op) d = [op]"

lemma wb_step_calls: "wb_step op d = fold d_step (wb_calls op d) d"
  by (cases op) (auto simp: activate_split before_activation_def adapter_deactivate_def adapter_clear_fault_def submit_state
    split: prod.splits sum.split)

fun wb_trace :: "WorkbenchOp list \<Rightarrow> RuntimeDaemon \<Rightarrow> DaemonOp list" where
  "wb_trace [] d = []"
| "wb_trace (op # ops) d = wb_calls op d @ wb_trace ops (wb_step op d)"

lemma wb_run_trace: "fold wb_step ops d = fold d_step (wb_trace ops d) d"
  by (induction ops arbitrary: d) (simp_all add: wb_step_calls)

lemma wb_calls_publish:
  "DPublish c \<in> set (wb_calls op d) \<Longrightarrow>
     (\<exists>t r. op = WSubmit (Inr t) r \<and> request_fits r \<and> c = request_command t r) \<or> op = WSystem (DPublish c)"
  by (cases op) (auto split: sum.splits if_splits)

lemma wb_trace_publishes:
  "DPublish c \<in> set (wb_trace ops d) \<Longrightarrow>
     (\<exists>t r. WSubmit (Inr t) r \<in> set ops \<and> request_fits r \<and> c = request_command t r) \<or> WSystem (DPublish c) \<in> set ops"
proof (induction ops arbitrary: d)
  case (Cons op ops)
  then consider "DPublish c \<in> set (wb_calls op d)" | "DPublish c \<in> set (wb_trace ops (wb_step op d))" by auto
  then show ?case
  proof cases
    case 1 then show ?thesis using wb_calls_publish [of c op d] by (metis list.set_intros(1))
  next
    case 2 then show ?thesis using Cons.IH by (metis list.set_intros(2))
  qed
qed simp

lemma wb_trace_activates: "DActivate \<in> set (wb_trace ops d) \<Longrightarrow> WActivate \<in> set ops \<or> WSystem DActivate \<in> set ops"
proof (induction ops arbitrary: d)
  case (Cons op ops)
  then show ?case by (cases op) (auto split: sum.splits if_splits)
qed simp

lemma never_activated:
  "d_inv d \<Longrightarrow> \<not> outputs_open d \<Longrightarrow> DActivate \<notin> set ops \<Longrightarrow> \<not> outputs_open (fold d_step ops d)"
proof (induction ops arbitrary: d)
  case (Cons op ops)
  have "\<not> outputs_open (d_step op d)" using opening_step [OF Cons.prems(1,2), of op] Cons.prems(3) by auto
  then show ?case using Cons d_inv_step by simp
qed simp

lemma wire_sequence_small: "s \<noteq> 0 \<Longrightarrow> s \<le> 65535 \<Longrightarrow> uint (wire_sequence s) = uint s"
proof -
  assume s: "s \<noteq> 0" "s \<le> 65535"
  have "unat s \<noteq> 0" "unat s \<le> 65535" using s by (simp_all add: unat_eq_0 word_le_nat_alt)
  then have "unat ((s - 1) mod 0xFFFF + 1) = unat s"
    by (simp add: unat_mod unat_sub word_le_nat_alt unat_word_ariths)
  then have "(s - 1) mod 0xFFFF + 1 = s" by (simp add: word_unat_eq_iff)
  then have "wire_sequence s = ucast s" by (simp add: wire_sequence_def)
  moreover have "uint s < 65536" using s(2) by (simp add: word_le_def)
  ultimately show ?thesis by (simp add: unsigned_ucast_eq take_bit_eq_mod)
qed

text \<open>
  From the workbench to the wire nothing is truncated. In any run in which
  the workbench drives the daemon through the adapter, a frame the daemon sends
  is an output command whose session, sequence, mask and values are, as
  numbers, those of a request the workbench submitted, although the request
  carries them in 64 and 32 bits and the frame in 16 and 8. And the workbench
  had activated the runtime.
\<close>
lemma workbench_frame_exact:
  assumes "snd (d_wake env (fold wb_step ops (d_init config))) = Some f"
    and "\<forall>op. WSystem op \<in> set ops \<longrightarrow> op \<noteq> DActivate \<and> (\<forall>c. op \<noteq> DPublish c)"
  shows "WActivate \<in> set ops \<and>
    (\<exists>t r wire. WSubmit (Inr t) r \<in> set ops \<and> decode f = Inr (DOutputCommand wire) \<and> wc_node_id wire = dc_node_id config \<and>
      uint (wc_session_id wire) = uint (dr_session_id r) \<and> uint (wc_sequence wire) = uint (dr_sequence r) \<and>
      uint (wc_mask wire) = uint (dr_mask r) \<and> uint (wc_values wire) = uint (dr_values r))"
proof -
  let ?ops = "wb_trace ops (d_init config)" and ?S = "{c. DPublish c \<in> set (wb_trace ops (d_init config))}"
  let ?d = "fold d_step ?ops (d_init config)"
  have w: "snd (d_wake env ?d) = Some f" using assms(1) by (simp add: wb_run_trace)
  have i: "d_inv ?d" by (rule dm.run_inv) (rule d_inv_init)
  have h: "d_holds ?S ?d" using holds_run [OF d_inv_init, of "{}" config ?ops] by (simp add: d_holds_def d_init_def)
  show ?thesis
  proof (rule wake_frame [OF i w])
    fix rt io rt' io' q cmd now wire
    assume a: "d_runtime ?d = Some rt" "d_io ?d = Some io" "pump_command io' rt' = Some cmd"
      "slot_in ?S rt \<Longrightarrow> slot_in ?S rt'" "io_pending_output io' = io_pending_output io"
      "to_wire_command cmd (dc_node_id (d_config ?d)) now = Inr wire" "encode_output_command wire = Inr f"
      and sm: "rt_state_machine rt' = rt_state_machine rt" "can_accept_output (rt_state_machine rt')"
    have "outputs_open ?d" using a(1) sm by (simp add: outputs_open_def can_accept_output_def)
    moreover have "\<not> outputs_open (d_init config)" by (simp add: outputs_open_def d_init_def)
    ultimately have act: "WActivate \<in> set ops"
      using never_activated [OF d_inv_init, of config ?ops] wb_trace_activates [of ops "d_init config"] assms(2) by blast
    have "cmd \<in> ?S" using h a by (intro pump_command_in [OF _ _ a(3)]) (auto simp: d_holds_def)
    then obtain t r where r: "WSubmit (Inr t) r \<in> set ops" "request_fits r" "cmd = request_command t r"
      using wb_trace_publishes [of cmd ops "d_init config"] assms(2) by blast
    have "decode f = Inr (DOutputCommand wire)"
      using decode_encode_output_command [OF a(7)] by (simp add: decode_Inr)
    moreover note to_wire_fields [OF a(6)] 
    moreover have "uint (ucast (dr_mask r) :: u8) = uint (dr_mask r)" "uint (ucast (dr_values r) :: u8) = uint (dr_values r)"
      using r(2) by (simp_all add: request_fits_def unsigned_ucast_eq take_bit_eq_mod word_le_def)
    ultimately show ?thesis using act r
      by (intro conjI exI [of _ t] exI [of _ r] exI [of _ wire])
        (simp_all add: request_command_def d_config_run d_init_def wire_sequence_small request_fits_def)
  qed
qed

definition demo_request :: DigitalOutputRequest where
  "demo_request = \<lparr>dr_session_id = 9, dr_sequence = 1, dr_valid_for_ms = 880, dr_mask = 1, dr_values = 1\<rparr>"

end
