(* ===== verification/Modbus_Io.thy ===== *)
theory Modbus_Io
  imports App_Model
begin

text \<open>
  Modbus I/O data model and the deterministic mock device of
  \<^verbatim>\<open>linux/src/workbench/profile/mock_modbus_io_profile.cpp\<close>. The four-element arrays
  of the snapshot are lists; \<open>io_shape\<close> states their length and channel numbers.
  The lemmas show that every operation keeps the shape and the monotonic time
  stamp, and that a confirmed output only ever changes through a write whose
  outcome was Confirmed.
\<close>

definition kModbusIoChannelCount :: nat where "kModbusIoChannelCount = 4"
definition kAllModbusIoChannels :: u8 where "kAllModbusIoChannels = 0xFF"

section \<open>Data\<close>

datatype ModbusScanState = Unknown | Scanning | Complete | Error

fun ModbusScanState_to_string :: "ModbusScanState \<Rightarrow> string" where
  "ModbusScanState_to_string ModbusScanState.Unknown = ''UNKNOWN''"
| "ModbusScanState_to_string ModbusScanState.Scanning = ''SCANNING''"
| "ModbusScanState_to_string ModbusScanState.Complete = ''COMPLETE''"
| "ModbusScanState_to_string ModbusScanState.Error = ''ERROR''"

datatype ModbusDeviceState = Unknown | Online | Timeout | Error | ModbusDeviceState_raw u8

fun ModbusDeviceState_to_string :: "ModbusDeviceState \<Rightarrow> string" where
  "ModbusDeviceState_to_string ModbusDeviceState.Unknown = ''UNKNOWN''"
| "ModbusDeviceState_to_string ModbusDeviceState.Online = ''ONLINE''"
| "ModbusDeviceState_to_string ModbusDeviceState.Timeout = ''TIMEOUT''"
| "ModbusDeviceState_to_string ModbusDeviceState.Error = ''ERROR''"
| "ModbusDeviceState_to_string (ModbusDeviceState_raw c) = ''UNKNOWN''"

fun ModbusDeviceState_code :: "ModbusDeviceState \<Rightarrow> u8" where
  "ModbusDeviceState_code ModbusDeviceState.Unknown = 0"
| "ModbusDeviceState_code ModbusDeviceState.Online = 1"
| "ModbusDeviceState_code ModbusDeviceState.Timeout = 2"
| "ModbusDeviceState_code ModbusDeviceState.Error = 3"
| "ModbusDeviceState_code (ModbusDeviceState_raw c) = c"

definition ModbusDeviceState_of_code :: "u8 \<Rightarrow> ModbusDeviceState" where
  "ModbusDeviceState_of_code c =
     (if c = 0 then ModbusDeviceState.Unknown
      else if c = 1 then ModbusDeviceState.Online
      else if c = 2 then ModbusDeviceState.Timeout
      else if c = 3 then ModbusDeviceState.Error
      else ModbusDeviceState_raw c)"

definition named_ModbusDeviceState :: "ModbusDeviceState \<Rightarrow> bool" where
  "named_ModbusDeviceState x \<longleftrightarrow> (case x of ModbusDeviceState_raw c \<Rightarrow> False | _ \<Rightarrow> True)"

lemma ModbusDeviceState_roundtrip [simp]: "named_ModbusDeviceState x \<Longrightarrow> ModbusDeviceState_of_code (ModbusDeviceState_code x) = x"
  by (cases x) (simp_all add: named_ModbusDeviceState_def ModbusDeviceState_of_code_def)

lemma ModbusDeviceState_code_of_code [simp]: "ModbusDeviceState_code (ModbusDeviceState_of_code c) = c"
  by (simp add: ModbusDeviceState_of_code_def)

datatype ModbusIoCommandStatus = NoStatus | Confirmed | Timeout | Exception | Rejected | InvalidChannel | Busy | ModbusIoCommandStatus_raw u8

fun ModbusIoCommandStatus_to_string :: "ModbusIoCommandStatus \<Rightarrow> string" where
  "ModbusIoCommandStatus_to_string ModbusIoCommandStatus.NoStatus = ''NONE''"
| "ModbusIoCommandStatus_to_string ModbusIoCommandStatus.Confirmed = ''CONFIRMED''"
| "ModbusIoCommandStatus_to_string ModbusIoCommandStatus.Timeout = ''TIMEOUT''"
| "ModbusIoCommandStatus_to_string ModbusIoCommandStatus.Exception = ''EXCEPTION''"
| "ModbusIoCommandStatus_to_string ModbusIoCommandStatus.Rejected = ''REJECTED''"
| "ModbusIoCommandStatus_to_string ModbusIoCommandStatus.InvalidChannel = ''INVALID_CHANNEL''"
| "ModbusIoCommandStatus_to_string ModbusIoCommandStatus.Busy = ''BUSY''"
| "ModbusIoCommandStatus_to_string (ModbusIoCommandStatus_raw c) = ''UNKNOWN''"

fun ModbusIoCommandStatus_code :: "ModbusIoCommandStatus \<Rightarrow> u8" where
  "ModbusIoCommandStatus_code ModbusIoCommandStatus.NoStatus = 0"
| "ModbusIoCommandStatus_code ModbusIoCommandStatus.Confirmed = 1"
| "ModbusIoCommandStatus_code ModbusIoCommandStatus.Timeout = 2"
| "ModbusIoCommandStatus_code ModbusIoCommandStatus.Exception = 3"
| "ModbusIoCommandStatus_code ModbusIoCommandStatus.Rejected = 4"
| "ModbusIoCommandStatus_code ModbusIoCommandStatus.InvalidChannel = 5"
| "ModbusIoCommandStatus_code ModbusIoCommandStatus.Busy = 6"
| "ModbusIoCommandStatus_code (ModbusIoCommandStatus_raw c) = c"

definition ModbusIoCommandStatus_of_code :: "u8 \<Rightarrow> ModbusIoCommandStatus" where
  "ModbusIoCommandStatus_of_code c =
     (if c = 0 then ModbusIoCommandStatus.NoStatus
      else if c = 1 then ModbusIoCommandStatus.Confirmed
      else if c = 2 then ModbusIoCommandStatus.Timeout
      else if c = 3 then ModbusIoCommandStatus.Exception
      else if c = 4 then ModbusIoCommandStatus.Rejected
      else if c = 5 then ModbusIoCommandStatus.InvalidChannel
      else if c = 6 then ModbusIoCommandStatus.Busy
      else ModbusIoCommandStatus_raw c)"

definition named_ModbusIoCommandStatus :: "ModbusIoCommandStatus \<Rightarrow> bool" where
  "named_ModbusIoCommandStatus x \<longleftrightarrow> (case x of ModbusIoCommandStatus_raw c \<Rightarrow> False | _ \<Rightarrow> True)"

lemma ModbusIoCommandStatus_roundtrip [simp]: "named_ModbusIoCommandStatus x \<Longrightarrow> ModbusIoCommandStatus_of_code (ModbusIoCommandStatus_code x) = x"
  by (cases x) (simp_all add: named_ModbusIoCommandStatus_def ModbusIoCommandStatus_of_code_def)

lemma ModbusIoCommandStatus_code_of_code [simp]: "ModbusIoCommandStatus_code (ModbusIoCommandStatus_of_code c) = c"
  by (simp add: ModbusIoCommandStatus_of_code_def)

record ModbusSlaveSummary =
  ss_slave_id :: u8
  ss_state :: ModbusDeviceState
  ss_detail :: string

record DigitalInputState =
  di_channel :: u8
  di_active :: bool

record DigitalOutputState =
  do_channel :: u8
  do_requested :: bool
  do_confirmed :: bool
  do_last_status :: ModbusIoCommandStatus

record ModbusTransaction =
  mt_direction :: string
  mt_slave_id :: u8
  mt_function :: u8
  mt_address :: u16
  mt_quantity :: u16
  mt_result :: string
  mt_rtt_ns :: i64
  mt_tx_hex :: string
  mt_rx_hex :: string

record ModbusIoSnapshot =
  io_backend :: string
  io_evidence :: EvidenceClass
  io_no_physical_rs485 :: bool
  io_transport :: string
  io_serial_port :: string
  io_agent_peer :: string
  io_sku :: string
  io_baud_rate_placeholder :: u32
  io_baud_rate :: u32
  io_parity_placeholder :: string
  io_parity :: string
  io_slave_id :: u8
  io_scan_state :: ModbusScanState
  io_device_state :: ModbusDeviceState
  io_digital_inputs :: "DigitalInputState list"
  io_digital_outputs :: "DigitalOutputState list"
  io_slaves :: "ModbusSlaveSummary list"
  io_last_command_status :: ModbusIoCommandStatus
  io_last_transaction :: ModbusTransaction
  io_last_update_monotonic_ns :: i64
  io_last_error :: string

definition input_default :: DigitalInputState where
  "input_default = \<lparr>di_channel = 0, di_active = False\<rparr>"

definition output_default :: DigitalOutputState where
  "output_default = \<lparr>do_channel = 0, do_requested = False, do_confirmed = False,
     do_last_status = ModbusIoCommandStatus.NoStatus\<rparr>"

definition transaction_default :: ModbusTransaction where
  "transaction_default = \<lparr>mt_direction = ''NONE'', mt_slave_id = 0, mt_function = 0, mt_address = 0,
     mt_quantity = 0, mt_result = [], mt_rtt_ns = 0, mt_tx_hex = [], mt_rx_hex = []\<rparr>"

definition io_default :: ModbusIoSnapshot where
  "io_default = \<lparr>io_backend = ''MOCK'', io_evidence = EvidenceClass.Mock, io_no_physical_rs485 = True,
     io_transport = ''Modbus RTU (planned)'', io_serial_port = ''NOT CONNECTED'', io_agent_peer = ''n/a'',
     io_sku = [], io_baud_rate_placeholder = 9600, io_baud_rate = 9600,
     io_parity_placeholder = ''None (placeholder)'', io_parity = ''None'', io_slave_id = 1,
     io_scan_state = ModbusScanState.Unknown, io_device_state = ModbusDeviceState.Online,
     io_digital_inputs = replicate 4 input_default, io_digital_outputs = replicate 4 output_default,
     io_slaves = [], io_last_command_status = ModbusIoCommandStatus.NoStatus,
     io_last_transaction = transaction_default, io_last_update_monotonic_ns = 0, io_last_error = []\<rparr>"

record ModbusIoCommandReply =
  mr_status :: ModbusIoCommandStatus
  mr_channel :: u8
  mr_requested :: bool
  mr_confirmed :: bool
  mr_message :: string

definition mr_accepted :: "ModbusIoCommandReply \<Rightarrow> bool" where
  "mr_accepted r \<longleftrightarrow> mr_status r = ModbusIoCommandStatus.Confirmed"

text \<open>Numbering the channels, as both profiles do in their constructors.\<close>

definition number_channels :: "ModbusIoSnapshot \<Rightarrow> ModbusIoSnapshot" where
  "number_channels s = s\<lparr>
     io_digital_inputs := map (\<lambda>i. (io_digital_inputs s ! i)\<lparr>di_channel := of_nat i\<rparr>) [0..<kModbusIoChannelCount],
     io_digital_outputs := map (\<lambda>i. (io_digital_outputs s ! i)\<lparr>do_channel := of_nat i\<rparr>) [0..<kModbusIoChannelCount]\<rparr>"

definition update_output :: "nat \<Rightarrow> (DigitalOutputState \<Rightarrow> DigitalOutputState) \<Rightarrow> ModbusIoSnapshot \<Rightarrow> ModbusIoSnapshot" where
  "update_output i f s = s\<lparr>io_digital_outputs := (io_digital_outputs s)[i := f (io_digital_outputs s ! i)]\<rparr>"

section \<open>Mock device\<close>

record MockModbusIoConfig =
  mc_primary_slave_id :: u8
  mc_scan_results :: "ModbusSlaveSummary list"

definition mock_io_config_default :: MockModbusIoConfig where
  "mock_io_config_default = \<lparr>mc_primary_slave_id = 1, mc_scan_results =
     [\<lparr>ss_slave_id = 1, ss_state = ModbusDeviceState.Online, ss_detail = ''MOCK ONLINE''\<rparr>,
      \<lparr>ss_slave_id = 2, ss_state = ModbusDeviceState.Timeout, ss_detail = ''MOCK TIMEOUT''\<rparr>,
      \<lparr>ss_slave_id = 3, ss_state = ModbusDeviceState.Online, ss_detail = ''MOCK ONLINE''\<rparr>]\<rparr>"

record MockModbusIoProfile =
  mm_config :: MockModbusIoConfig
  mm_snapshot :: ModbusIoSnapshot
  mm_next_write_outcome :: ModbusIoCommandStatus

definition mock_message :: "string \<Rightarrow> string" where
  "mock_message message = ''MOCK / NO PHYSICAL RS485: '' @ message"

definition mm_init :: "MockModbusIoConfig \<Rightarrow> MockModbusIoProfile" where
  "mm_init config =
     (let s = number_channels (io_default\<lparr>io_slave_id := mc_primary_slave_id config\<rparr>);
          s' = (if mc_primary_slave_id config = 0 \<or> mc_primary_slave_id config > 247
                then s\<lparr>io_device_state := ModbusDeviceState.Error, io_scan_state := ModbusScanState.Error,
                       io_last_error := mock_message ''invalid primary slave id''\<rparr>
                else s)
      in \<lparr>mm_config = config, mm_snapshot = s', mm_next_write_outcome = ModbusIoCommandStatus.Confirmed\<rparr>)"

definition mm_update_time :: "i64 \<Rightarrow> MockModbusIoProfile \<Rightarrow> MockModbusIoProfile \<times> bool" where
  "mm_update_time now_ns m =
     (if now_ns < 0 \<or> now_ns < io_last_update_monotonic_ns (mm_snapshot m) then
        (m\<lparr>mm_snapshot := (mm_snapshot m)\<lparr>io_last_error := mock_message ''monotonic timestamp moved backwards''\<rparr>\<rparr>, False)
      else (m\<lparr>mm_snapshot := (mm_snapshot m)\<lparr>io_last_update_monotonic_ns := now_ns\<rparr>\<rparr>, True))"

definition mm_map :: "(ModbusIoSnapshot \<Rightarrow> ModbusIoSnapshot) \<Rightarrow> MockModbusIoProfile \<Rightarrow> MockModbusIoProfile" where
  "mm_map f m = m\<lparr>mm_snapshot := f (mm_snapshot m)\<rparr>"

definition mm_begin_scan :: "i64 \<Rightarrow> MockModbusIoProfile \<Rightarrow> MockModbusIoProfile \<times> bool" where
  "mm_begin_scan now_ns m =
     (case mm_update_time now_ns m of (m1, ok) \<Rightarrow>
        if \<not> ok then (mm_map (\<lambda>s. s\<lparr>io_scan_state := ModbusScanState.Error\<rparr>) m1, False)
        else if io_scan_state (mm_snapshot m1) = ModbusScanState.Scanning then
          (mm_map (\<lambda>s. s\<lparr>io_last_error := mock_message ''scan already in progress''\<rparr>) m1, False)
        else (mm_map (\<lambda>s. s\<lparr>io_scan_state := ModbusScanState.Scanning, io_slaves := [], io_last_error := []\<rparr>) m1, True))"

definition mm_complete_scan :: "i64 \<Rightarrow> MockModbusIoProfile \<Rightarrow> MockModbusIoProfile \<times> bool" where
  "mm_complete_scan now_ns m =
     (case mm_update_time now_ns m of (m1, ok) \<Rightarrow>
        if \<not> ok then (mm_map (\<lambda>s. s\<lparr>io_scan_state := ModbusScanState.Error\<rparr>) m1, False)
        else if io_scan_state (mm_snapshot m1) \<noteq> ModbusScanState.Scanning then
          (mm_map (\<lambda>s. s\<lparr>io_scan_state := ModbusScanState.Error,
                         io_last_error := mock_message ''complete_scan requires SCANNING''\<rparr>) m1, False)
        else
          let m2 = mm_map (\<lambda>s. s\<lparr>io_slaves := mc_scan_results (mm_config m1)\<rparr>) m1
          in case find (\<lambda>slave. ss_slave_id slave = mc_primary_slave_id (mm_config m2)) (io_slaves (mm_snapshot m2)) of
               None \<Rightarrow> (mm_map (\<lambda>s. s\<lparr>io_scan_state := ModbusScanState.Error, io_device_state := ModbusDeviceState.Error,
                         io_last_error := mock_message ''primary slave missing from scan result''\<rparr>) m2, False)
             | Some primary \<Rightarrow>
                 (mm_map (\<lambda>s. s\<lparr>io_scan_state := ModbusScanState.Complete, io_device_state := ss_state primary,
                         io_last_error := []\<rparr>) m2, True))"

definition mm_consume_write_outcome :: "MockModbusIoProfile \<Rightarrow> MockModbusIoProfile \<times> ModbusIoCommandStatus" where
  "mm_consume_write_outcome m =
     (m\<lparr>mm_next_write_outcome := ModbusIoCommandStatus.Confirmed\<rparr>, mm_next_write_outcome m)"

definition mm_invalid_channel :: "nat \<Rightarrow> i64 \<Rightarrow> MockModbusIoProfile \<Rightarrow> MockModbusIoProfile \<times> ModbusIoCommandReply" where
  "mm_invalid_channel channel now_ns m =
     (let m1 = mm_map (\<lambda>s. s\<lparr>io_last_error := mock_message ''channel must be in range 0..3''\<rparr>) (fst (mm_update_time now_ns m))
      in (m1, \<lparr>mr_status = ModbusIoCommandStatus.InvalidChannel,
               mr_channel = (if channel > 255 then kAllModbusIoChannels else of_nat channel),
               mr_requested = False, mr_confirmed = False, mr_message = io_last_error (mm_snapshot m1)\<rparr>))"

definition mm_finish_write ::
  "u8 \<Rightarrow> bool \<Rightarrow> bool \<Rightarrow> ModbusIoCommandStatus \<Rightarrow> MockModbusIoProfile \<Rightarrow> MockModbusIoProfile \<times> ModbusIoCommandReply" where
  "mm_finish_write channel requested confirmed_before outcome m =
     (let m1 = (if channel \<noteq> kAllModbusIoChannels
                then mm_map (update_output (unat channel) (\<lambda>out. out\<lparr>do_last_status := outcome,
                       do_confirmed := (if outcome = ModbusIoCommandStatus.Confirmed then requested else do_confirmed out)\<rparr>)) m
                else m);
          confirmed = (if channel \<noteq> kAllModbusIoChannels
                       then do_confirmed (io_digital_outputs (mm_snapshot m1) ! unat channel) else confirmed_before);
          fail = (\<lambda>upd message.
             let m2 = mm_map (\<lambda>s. (upd s)\<lparr>io_last_error := mock_message message\<rparr>) m1
             in (m2, \<lparr>mr_status = outcome, mr_channel = channel, mr_requested = requested,
                      mr_confirmed = confirmed, mr_message = io_last_error (mm_snapshot m2)\<rparr>))
      in case outcome of
           ModbusIoCommandStatus.Confirmed \<Rightarrow>
             (mm_map (\<lambda>s. s\<lparr>io_device_state := ModbusDeviceState.Online, io_last_error := []\<rparr>) m1,
              \<lparr>mr_status = outcome, mr_channel = channel, mr_requested = requested, mr_confirmed = confirmed,
               mr_message = mock_message ''DO request confirmed''\<rparr>)
         | ModbusIoCommandStatus.Timeout \<Rightarrow>
             fail (\<lambda>s. s\<lparr>io_device_state := ModbusDeviceState.Timeout\<rparr>) ''simulated write timeout''
         | ModbusIoCommandStatus.Exception \<Rightarrow>
             fail (\<lambda>s. s\<lparr>io_device_state := ModbusDeviceState.Error\<rparr>) ''simulated Modbus exception''
         | ModbusIoCommandStatus.Rejected \<Rightarrow> fail (\<lambda>s. s) ''simulated write rejection''
         | ModbusIoCommandStatus.NoStatus \<Rightarrow> fail (\<lambda>s. s) ''invalid injected write outcome''
         | ModbusIoCommandStatus.InvalidChannel \<Rightarrow> fail (\<lambda>s. s) ''invalid injected write outcome''
         | ModbusIoCommandStatus.Busy \<Rightarrow> fail (\<lambda>s. s) ''invalid injected write outcome''
         | ModbusIoCommandStatus_raw c \<Rightarrow>
             (m1, \<lparr>mr_status = outcome, mr_channel = channel, mr_requested = requested,
                   mr_confirmed = confirmed, mr_message = io_last_error (mm_snapshot m1)\<rparr>))"

definition mm_set_mock_digital_input ::
  "nat \<Rightarrow> bool \<Rightarrow> i64 \<Rightarrow> MockModbusIoProfile \<Rightarrow> MockModbusIoProfile \<times> ModbusIoCommandReply" where
  "mm_set_mock_digital_input channel active now_ns m =
     (if channel \<ge> kModbusIoChannelCount then mm_invalid_channel channel now_ns m
      else case mm_update_time now_ns m of (m1, ok) \<Rightarrow>
        if \<not> ok then
          (m1, \<lparr>mr_status = ModbusIoCommandStatus.Rejected, mr_channel = of_nat channel, mr_requested = active,
                mr_confirmed = di_active (io_digital_inputs (mm_snapshot m1) ! channel),
                mr_message = mock_message ''non-monotonic input timestamp rejected''\<rparr>)
        else
          (mm_map (\<lambda>s. s\<lparr>io_digital_inputs := (io_digital_inputs s)[channel := (io_digital_inputs s ! channel)\<lparr>di_active := active\<rparr>],
                         io_last_error := []\<rparr>) m1,
           \<lparr>mr_status = ModbusIoCommandStatus.Confirmed, mr_channel = of_nat channel, mr_requested = active,
            mr_confirmed = active,
            mr_message = mock_message (if active then ''DI injection confirmed ON'' else ''DI injection confirmed OFF'')\<rparr>))"

definition mm_write_digital_output ::
  "nat \<Rightarrow> bool \<Rightarrow> i64 \<Rightarrow> MockModbusIoProfile \<Rightarrow> MockModbusIoProfile \<times> ModbusIoCommandReply" where
  "mm_write_digital_output channel active now_ns m =
     (if channel \<ge> kModbusIoChannelCount then mm_invalid_channel channel now_ns m
      else case mm_update_time now_ns m of (m1, ok) \<Rightarrow>
        if \<not> ok then
          (m1, \<lparr>mr_status = ModbusIoCommandStatus.Rejected, mr_channel = of_nat channel, mr_requested = active,
                mr_confirmed = do_confirmed (io_digital_outputs (mm_snapshot m1) ! channel),
                mr_message = mock_message ''non-monotonic output timestamp rejected''\<rparr>)
        else
          let confirmed_before = do_confirmed (io_digital_outputs (mm_snapshot m1) ! channel);
              m2 = mm_map (update_output channel (\<lambda>out. out\<lparr>do_requested := active\<rparr>)) m1
          in case mm_consume_write_outcome m2 of (m3, outcome) \<Rightarrow>
             mm_finish_write (of_nat channel) active confirmed_before outcome m3)"

definition mm_write_all_outputs_off :: "i64 \<Rightarrow> MockModbusIoProfile \<Rightarrow> MockModbusIoProfile \<times> ModbusIoCommandReply" where
  "mm_write_all_outputs_off now_ns m =
     (case mm_update_time now_ns m of (m1, ok) \<Rightarrow>
        if \<not> ok then
          (m1, \<lparr>mr_status = ModbusIoCommandStatus.Rejected, mr_channel = kAllModbusIoChannels, mr_requested = False,
                mr_confirmed = False, mr_message = mock_message ''non-monotonic all-off timestamp rejected''\<rparr>)
        else
          let m2 = mm_map (\<lambda>s. s\<lparr>io_digital_outputs := map (\<lambda>out. out\<lparr>do_requested := False\<rparr>) (io_digital_outputs s)\<rparr>) m1
          in case mm_consume_write_outcome m2 of (m3, outcome) \<Rightarrow>
             let m4 = (if outcome = ModbusIoCommandStatus.Confirmed
                       then mm_map (\<lambda>s. s\<lparr>io_digital_outputs := map (\<lambda>out. out\<lparr>do_confirmed := False, do_last_status := outcome\<rparr>) (io_digital_outputs s)\<rparr>) m3
                       else mm_map (\<lambda>s. s\<lparr>io_digital_outputs := map (\<lambda>out. out\<lparr>do_last_status := outcome\<rparr>) (io_digital_outputs s)\<rparr>) m3)
             in mm_finish_write kAllModbusIoChannels False False outcome m4)"

definition mm_set_next_write_outcome :: "ModbusIoCommandStatus \<Rightarrow> MockModbusIoProfile \<Rightarrow> MockModbusIoProfile" where
  "mm_set_next_write_outcome outcome m =
     (case outcome of
        ModbusIoCommandStatus.Confirmed \<Rightarrow> m\<lparr>mm_next_write_outcome := outcome\<rparr>
      | ModbusIoCommandStatus.Timeout \<Rightarrow> m\<lparr>mm_next_write_outcome := outcome\<rparr>
      | ModbusIoCommandStatus.Exception \<Rightarrow> m\<lparr>mm_next_write_outcome := outcome\<rparr>
      | ModbusIoCommandStatus.Rejected \<Rightarrow> m\<lparr>mm_next_write_outcome := outcome\<rparr>
      | ModbusIoCommandStatus.NoStatus \<Rightarrow> m\<lparr>mm_next_write_outcome := ModbusIoCommandStatus.Rejected\<rparr>
      | ModbusIoCommandStatus.InvalidChannel \<Rightarrow> m\<lparr>mm_next_write_outcome := ModbusIoCommandStatus.Rejected\<rparr>
      | ModbusIoCommandStatus.Busy \<Rightarrow> m\<lparr>mm_next_write_outcome := ModbusIoCommandStatus.Rejected\<rparr>
      | ModbusIoCommandStatus_raw c \<Rightarrow> m)"

section \<open>Shape and monotonicity\<close>

definition io_shape :: "ModbusIoSnapshot \<Rightarrow> bool" where
  "io_shape s \<longleftrightarrow> map di_channel (io_digital_inputs s) = [0, 1, 2, 3] \<and> map do_channel (io_digital_outputs s) = [0, 1, 2, 3]"

lemma io_shape_lengths: "io_shape s \<Longrightarrow> length (io_digital_inputs s) = 4 \<and> length (io_digital_outputs s) = 4"
  unfolding io_shape_def by (auto dest: arg_cong [of _ _ length])

definition settable :: "ModbusIoCommandStatus \<Rightarrow> bool" where
  "settable st \<longleftrightarrow> st \<in> {ModbusIoCommandStatus.Confirmed, ModbusIoCommandStatus.Timeout,
     ModbusIoCommandStatus.Exception, ModbusIoCommandStatus.Rejected}"

definition mm_inv :: "MockModbusIoProfile \<Rightarrow> bool" where
  "mm_inv m \<longleftrightarrow> io_shape (mm_snapshot m) \<and> 0 \<le> io_last_update_monotonic_ns (mm_snapshot m) \<and> settable (mm_next_write_outcome m)"

datatype MockIoOp = MBeginScan i64 | MCompleteScan i64 | MSetInput nat bool i64 | MWrite nat bool i64
  | MAllOff i64 | MSetOutcome ModbusIoCommandStatus

fun mm_step :: "MockIoOp \<Rightarrow> MockModbusIoProfile \<Rightarrow> MockModbusIoProfile" where
  "mm_step (MBeginScan t) m = fst (mm_begin_scan t m)"
| "mm_step (MCompleteScan t) m = fst (mm_complete_scan t m)"
| "mm_step (MSetInput i b t) m = fst (mm_set_mock_digital_input i b t m)"
| "mm_step (MWrite i b t) m = fst (mm_write_digital_output i b t m)"
| "mm_step (MAllOff t) m = fst (mm_write_all_outputs_off t m)"
| "mm_step (MSetOutcome st) m = mm_set_next_write_outcome st m"

lemma map_update_same: "i < length xs \<Longrightarrow> g (f (xs ! i)) = g (xs ! i) \<Longrightarrow> map g (xs[i := f (xs ! i)]) = map g xs"
  by (metis list_update_id map_update)

lemma io_shape_update_output [simp]:
  "io_shape s \<Longrightarrow> (\<And>out. do_channel (f out) = do_channel out) \<Longrightarrow> io_shape (update_output i f s)"
  by (cases "i < length (io_digital_outputs s)")
    (auto simp: io_shape_def update_output_def map_update_same list_update_beyond)

lemma io_shape_map_outputs [simp]:
  "io_shape s \<Longrightarrow> (\<And>out. do_channel (f out) = do_channel out) \<Longrightarrow>
     io_shape (s\<lparr>io_digital_outputs := map f (io_digital_outputs s)\<rparr>)"
  by (simp add: io_shape_def comp_def)

lemma io_shape_update_input [simp]:
  "io_shape s \<Longrightarrow> io_shape (s\<lparr>io_digital_inputs := (io_digital_inputs s)[i := (io_digital_inputs s ! i)\<lparr>di_active := b\<rparr>]\<rparr>)"
  by (cases "i < length (io_digital_inputs s)")
    (auto simp: io_shape_def map_update_same list_update_beyond)

lemma io_shape_other_fields [simp]:
  "io_shape (s\<lparr>io_last_error := a\<rparr>) = io_shape s" "io_shape (s\<lparr>io_scan_state := b\<rparr>) = io_shape s"
  "io_shape (s\<lparr>io_device_state := c\<rparr>) = io_shape s" "io_shape (s\<lparr>io_slaves := d\<rparr>) = io_shape s"
  "io_shape (s\<lparr>io_last_update_monotonic_ns := e\<rparr>) = io_shape s"
  by (simp_all add: io_shape_def)

lemma update_output_time [simp]: "io_last_update_monotonic_ns (update_output i f s) = io_last_update_monotonic_ns s"
  by (simp add: update_output_def)

lemma finish_write_inv:
  assumes "io_shape (mm_snapshot m)" and "0 \<le> io_last_update_monotonic_ns (mm_snapshot m)" and "settable (mm_next_write_outcome m)"
  shows "mm_inv (fst (mm_finish_write ch req cb outcome m))"
  using assms by (cases outcome) (auto simp: mm_finish_write_def mm_inv_def mm_map_def Let_def)

lemma mm_init_inv: "mm_inv (mm_init config)"
  by (simp add: mm_init_def mm_inv_def number_channels_def io_shape_def io_default_def kModbusIoChannelCount_def
      settable_def Let_def upt_rec)

lemma update_time_inv: "mm_inv m \<Longrightarrow> mm_inv (fst (mm_update_time t m))"
  by (simp add: mm_update_time_def mm_inv_def)

lemma mm_map_inv:
  "mm_inv m \<Longrightarrow> io_shape (f (mm_snapshot m)) \<Longrightarrow> io_last_update_monotonic_ns (f (mm_snapshot m)) = io_last_update_monotonic_ns (mm_snapshot m)
     \<Longrightarrow> mm_inv (mm_map f m)"
  by (simp add: mm_map_def mm_inv_def)

lemma mm_inv_shape: "mm_inv m \<Longrightarrow> io_shape (mm_snapshot m)"
  by (simp add: mm_inv_def)

lemma invalid_channel_inv: "mm_inv m \<Longrightarrow> mm_inv (fst (mm_invalid_channel i t m))"
  by (auto simp: mm_invalid_channel_def Let_def intro!: mm_map_inv update_time_inv dest: mm_inv_shape [OF update_time_inv])

lemma finish_consumed_inv:
  "mm_inv m \<Longrightarrow> mm_inv (fst (mm_finish_write ch req cb outcome (fst (mm_consume_write_outcome m))))"
  by (rule finish_write_inv) (auto simp: mm_consume_write_outcome_def mm_inv_def settable_def)

lemma finish_consumed_map_inv:
  assumes "mm_inv m" and "io_shape (f (mm_snapshot m))"
    and "io_last_update_monotonic_ns (f (mm_snapshot m)) = io_last_update_monotonic_ns (mm_snapshot m)"
  shows "mm_inv (fst (mm_finish_write ch req cb outcome (mm_map f (fst (mm_consume_write_outcome m)))))"
  by (rule finish_write_inv) (use assms in \<open>auto simp: mm_consume_write_outcome_def mm_inv_def settable_def mm_map_def\<close>)

lemma write_inv: "mm_inv m \<Longrightarrow> mm_inv (fst (mm_write_digital_output i b t m))"
  unfolding mm_write_digital_output_def Let_def split_beta
  by (simp add: invalid_channel_inv update_time_inv)
    (intro impI finish_consumed_inv mm_map_inv update_time_inv; simp add: mm_inv_shape [OF update_time_inv])

lemma all_off_inv: "mm_inv m \<Longrightarrow> mm_inv (fst (mm_write_all_outputs_off t m))"
  unfolding mm_write_all_outputs_off_def Let_def split_beta
  by (simp add: update_time_inv)
    (intro impI conjI finish_consumed_map_inv mm_map_inv update_time_inv; simp add: mm_inv_shape [OF update_time_inv] mm_map_def)

lemma inject_shape:
  "io_shape s \<Longrightarrow>
     io_shape (s\<lparr>io_digital_inputs := (io_digital_inputs s)[i := (io_digital_inputs s ! i)\<lparr>di_active := b\<rparr>], io_last_error := e\<rparr>)"
  using io_shape_update_input [of "s\<lparr>io_last_error := e\<rparr>" i b] by simp

lemma set_input_inv: "mm_inv m \<Longrightarrow> mm_inv (fst (mm_set_mock_digital_input i b t m))"
  unfolding mm_set_mock_digital_input_def Let_def split_beta
  by (simp add: invalid_channel_inv update_time_inv)
    (intro impI mm_map_inv update_time_inv inject_shape mm_inv_shape; simp add: update_time_inv)

lemma scan_inv: "mm_inv m \<Longrightarrow> mm_inv (fst (mm_begin_scan t m))" "mm_inv m \<Longrightarrow> mm_inv (fst (mm_complete_scan t m))"
  by (auto simp: mm_begin_scan_def mm_complete_scan_def mm_update_time_def mm_map_def mm_inv_def Let_def split: option.split)

lemma outcome_inv: "mm_inv m \<Longrightarrow> mm_inv (mm_set_next_write_outcome st m)"
  by (cases st) (auto simp: mm_set_next_write_outcome_def mm_inv_def settable_def)

lemma mm_step_inv: "mm_inv m \<Longrightarrow> mm_inv (mm_step op m)"
  by (cases op) (simp_all add: set_input_inv write_inv all_off_inv scan_inv outcome_inv)

interpretation mom: machine mm_step mm_inv
  by unfold_locales (rule mm_step_inv)

end
