(* ===== verification/Modbus_Physical.thy ===== *)
theory Modbus_Physical
  imports Modbus_Io Serial_Port
begin

text \<open>
  The physical Modbus I/O service of
  \<^verbatim>\<open>linux/src/workbench/services/physical_modbus_io_service.cpp\<close>. What is outside the
  program, the clock and the wire, is an \<open>RtuEnv\<close> over a state of its own: either the
  injected transaction function or the system calls of the serial port.
  The lemmas show that a channel marked Confirmed has the value the device has.
\<close>

section \<open>Environment and state\<close>

record PhysicalModbusIoConfig =
  pc_serial_port :: string
  pc_baud_rate :: u32
  pc_parity :: char
  pc_slave_id :: u8
  pc_sku :: string
  pc_timeout_ms :: i64

definition physical_config_default :: PhysicalModbusIoConfig where
  "physical_config_default = \<lparr>pc_serial_port = ''/dev/ttyS7'', pc_baud_rate = 9600, pc_parity = CHR ''N'',
     pc_slave_id = 1, pc_sku = ''MR0-IOR08'', pc_timeout_ms = 200\<rparr>"

record 'b RtuEnv =
  env_clock :: "'b \<Rightarrow> i64 Result \<times> 'b"
  env_injected :: "(u8 list \<Rightarrow> i64 \<Rightarrow> 'b \<Rightarrow> u8 list Result \<times> 'b) option"
  env_open :: "PosixSerialConfig \<Rightarrow> 'b \<Rightarrow> SerialOpenOutcome \<times> 'b"
  env_serial :: "u8 list \<Rightarrow> 'b \<Rightarrow> SerialScript \<times> 'b"

record PhysicalModbusIoService =
  pm_config :: PhysicalModbusIoConfig
  pm_serial :: PosixSerialPort
  pm_snapshot :: ModbusIoSnapshot

definition pm_map :: "(ModbusIoSnapshot \<Rightarrow> ModbusIoSnapshot) \<Rightarrow> PhysicalModbusIoService \<Rightarrow> PhysicalModbusIoService" where
  "pm_map f pm = pm\<lparr>pm_snapshot := f (pm_snapshot pm)\<rparr>"

definition now_ns_or_zero :: "'b RtuEnv \<Rightarrow> 'b \<Rightarrow> i64 \<times> 'b" where
  "now_ns_or_zero env b = (case env_clock env b of (r, b') \<Rightarrow> (case r of Inl e \<Rightarrow> 0 | Inr t \<Rightarrow> t, b'))"

definition parity_string :: "char \<Rightarrow> string" where
  "parity_string p = (if p = CHR ''N'' then ''None'' else [p])"

definition apply_device_identity :: "PhysicalModbusIoConfig \<Rightarrow> ModbusIoSnapshot \<Rightarrow> ModbusIoSnapshot" where
  "apply_device_identity c s = number_channels (s\<lparr>
     io_backend := ''PHYSICAL'', io_evidence := EvidenceClass.Physical, io_no_physical_rs485 := False,
     io_transport := ''Modbus RTU'', io_serial_port := pc_serial_port c, io_sku := pc_sku c,
     io_baud_rate := pc_baud_rate c, io_baud_rate_placeholder := pc_baud_rate c,
     io_parity := parity_string (pc_parity c), io_parity_placeholder := parity_string (pc_parity c),
     io_slave_id := pc_slave_id c, io_device_state := ModbusDeviceState.Unknown,
     io_scan_state := ModbusScanState.Unknown\<rparr>)"

definition pm_init :: "PhysicalModbusIoConfig \<Rightarrow> PhysicalModbusIoService" where
  "pm_init c = \<lparr>pm_config = c, pm_serial = serial_init, pm_snapshot = apply_device_identity c io_default\<rparr>"

definition pm_disconnect :: "PhysicalModbusIoService \<Rightarrow> PhysicalModbusIoService" where
  "pm_disconnect pm = pm_map (\<lambda>s. s\<lparr>io_device_state := ModbusDeviceState.Unknown,
      io_scan_state := ModbusScanState.Unknown, io_last_error := []\<rparr>) (pm\<lparr>pm_serial := serial_close (pm_serial pm)\<rparr>)"

section \<open>Transactions\<close>

definition set_transaction :: "(ModbusTransaction \<Rightarrow> ModbusTransaction) \<Rightarrow> ModbusIoSnapshot \<Rightarrow> ModbusIoSnapshot" where
  "set_transaction f s = s\<lparr>io_last_transaction := f (io_last_transaction s)\<rparr>"

definition begin_transaction :: "u8 \<Rightarrow> u16 \<Rightarrow> u16 \<Rightarrow> u8 list \<Rightarrow> PhysicalModbusIoService \<Rightarrow> PhysicalModbusIoService" where
  "begin_transaction function address quantity tx pm =
     pm_map (\<lambda>s. set_transaction (\<lambda>t. t\<lparr>mt_direction := ''REQUEST'', mt_slave_id := pc_slave_id (pm_config pm),
        mt_function := function, mt_address := address, mt_quantity := quantity, mt_tx_hex := bytes_to_hex tx,
        mt_rx_hex := [], mt_result := []\<rparr>) (s\<lparr>io_last_error := []\<rparr>)) pm"

definition apply_fault :: "Error \<Rightarrow> PhysicalModbusIoService \<Rightarrow> PhysicalModbusIoService" where
  "apply_fault e = pm_map (\<lambda>s. set_transaction (\<lambda>t. t\<lparr>mt_result := Errc_to_string (err_code e)\<rparr>)
     (s\<lparr>io_scan_state := ModbusScanState.Error,
        io_last_command_status := (if err_code e = Errc.Timeout then ModbusIoCommandStatus.Timeout else ModbusIoCommandStatus.Rejected),
        io_device_state := (if err_code e = Errc.Timeout then ModbusDeviceState.Timeout else ModbusDeviceState.Error),
        io_last_error := err_message e\<rparr>))"

definition pm_transact ::
  "'b RtuEnv \<Rightarrow> u8 list \<Rightarrow> PhysicalModbusIoService \<times> 'b \<Rightarrow> (PhysicalModbusIoService \<times> 'b) \<times> u8 list Result" where
  "pm_transact env request = (\<lambda>(pm, b). case env_injected env of
      Some tr \<Rightarrow> (case tr request (pc_timeout_ms (pm_config pm)) b of (r, b') \<Rightarrow> ((pm, b'), r))
    | None \<Rightarrow>
        (case (if sp_fd_valid (pm_serial pm) then (pm, b, Inr ())
               else let cfg = \<lparr>sc_device = pc_serial_port (pm_config pm), sc_baud_rate = pc_baud_rate (pm_config pm),
                               sc_parity = pc_parity (pm_config pm)\<rparr>
                    in case env_open env cfg b of (outcome, b') \<Rightarrow>
                      (case serial_open cfg outcome (pm_serial pm) of (p, r) \<Rightarrow> (pm\<lparr>pm_serial := p\<rparr>, b', r))) of
           (pm1, b1, Inl e) \<Rightarrow> ((pm1, b1), Inl e)
         | (pm1, b1, Inr _) \<Rightarrow>
             (case env_serial env request b1 of (script, b2) \<Rightarrow>
                ((pm1, b2), serial_transact request (pc_timeout_ms (pm_config pm1)) script (pm_serial pm1)))))"

text \<open>The timed transaction that every operation makes: clock, wire, clock, then the stamps.\<close>

definition timed_transact ::
  "'b RtuEnv \<Rightarrow> u8 list \<Rightarrow> PhysicalModbusIoService \<times> 'b \<Rightarrow> (PhysicalModbusIoService \<times> 'b) \<times> u8 list Result" where
  "timed_transact env tx = (\<lambda>(pm, b).
     case now_ns_or_zero env b of (t0, b0) \<Rightarrow>
     case pm_transact env tx (pm, b0) of ((pm1, b1), rx) \<Rightarrow>
     case now_ns_or_zero env b1 of (t1, b2) \<Rightarrow>
       ((pm_map (\<lambda>s. set_transaction (\<lambda>t. t\<lparr>mt_rtt_ns := (if t1 > t0 then t1 - t0 else 0)\<rparr>)
           (s\<lparr>io_last_update_monotonic_ns := t1\<rparr>)) pm1, b2), rx))"

definition exception_text :: "u8 \<Rightarrow> string" where
  "exception_text code = ''Modbus exception '' @ nat_to_string (unat code)"

definition set_exception :: "string \<Rightarrow> PhysicalModbusIoService \<Rightarrow> PhysicalModbusIoService" where
  "set_exception message = pm_map (\<lambda>s. set_transaction (\<lambda>t. t\<lparr>mt_result := message\<rparr>)
     (s\<lparr>io_scan_state := ModbusScanState.Error, io_device_state := ModbusDeviceState.Error,
        io_last_command_status := ModbusIoCommandStatus.Exception, io_last_error := message\<rparr>))"

definition set_rx :: "u8 list \<Rightarrow> PhysicalModbusIoService \<Rightarrow> PhysicalModbusIoService" where
  "set_rx rx = pm_map (set_transaction (\<lambda>t. t\<lparr>mt_rx_hex := bytes_to_hex rx\<rparr>))"

definition response_ok :: "ModbusIoSnapshot \<Rightarrow> ModbusIoSnapshot" where
  "response_ok = set_transaction (\<lambda>t. t\<lparr>mt_result := ''OK'', mt_direction := ''RESPONSE''\<rparr>)"

definition bit_on :: "u8 \<Rightarrow> nat \<Rightarrow> bool" where
  "bit_on b channel \<longleftrightarrow> b AND push_bit channel 1 \<noteq> 0"

section \<open>Operations\<close>

definition read_discrete_inputs ::
  "'b RtuEnv \<Rightarrow> bool \<Rightarrow> PhysicalModbusIoService \<times> 'b \<Rightarrow> (PhysicalModbusIoService \<times> 'b) \<times> ModbusIoSnapshot Result" where
  "read_discrete_inputs env scanning = (\<lambda>(pm, b).
     let pm0 = (if scanning then pm_map (\<lambda>s. s\<lparr>io_scan_state := ModbusScanState.Scanning\<rparr>) pm else pm);
         slave = pc_slave_id (pm_config pm);
         tx = encode_rtu_read slave kModbusFnReadDiscreteInputs kMr0IoRegisterStart kMr0IoBitQuantity
     in case timed_transact env tx (begin_transaction kModbusFnReadDiscreteInputs kMr0IoRegisterStart kMr0IoBitQuantity tx pm0, b) of
       ((pm1, b1), Inl e) \<Rightarrow> ((apply_fault e pm1, b1), Inl e)
     | ((pm1, b1), Inr rx) \<Rightarrow>
         let pm2 = set_rx rx pm1 in
         case decode_rtu_read_bits rx slave kModbusFnReadDiscreteInputs of
           Inl e \<Rightarrow> ((set_exception (err_message e) pm2, b1), Inl e)
         | Inr d \<Rightarrow>
             if rb_exception d then
               ((set_exception (exception_text (rb_exception_code d)) pm2, b1),
                Inl (Error.Error Errc.Rejected (exception_text (rb_exception_code d))))
             else
               let pm3 = pm_map (\<lambda>s. response_ok (s\<lparr>
                     io_digital_inputs := map (\<lambda>i. (io_digital_inputs s ! i)\<lparr>di_active := bit_on (rb_bit_byte d) i\<rparr>) [0..<kModbusIoChannelCount],
                     io_scan_state := ModbusScanState.Complete, io_device_state := ModbusDeviceState.Online,
                     io_last_command_status := ModbusIoCommandStatus.Confirmed\<rparr>)) pm2
               in ((pm3, b1), Inr (pm_snapshot pm3)))"

definition refresh_coils ::
  "'b RtuEnv \<Rightarrow> PhysicalModbusIoService \<times> 'b \<Rightarrow> (PhysicalModbusIoService \<times> 'b) \<times> unit Result" where
  "refresh_coils env = (\<lambda>(pm, b).
     let slave = pc_slave_id (pm_config pm);
         tx = encode_rtu_read slave kModbusFnReadCoils kMr0IoRegisterStart kMr0IoBitQuantity
     in case timed_transact env tx (begin_transaction kModbusFnReadCoils kMr0IoRegisterStart kMr0IoBitQuantity tx pm, b) of
       ((pm1, b1), Inl e) \<Rightarrow> ((pm1, b1), Inl e)
     | ((pm1, b1), Inr rx) \<Rightarrow>
         let pm2 = set_rx rx pm1 in
         case decode_rtu_read_bits rx slave kModbusFnReadCoils of
           Inl e \<Rightarrow> ((pm2, b1), Inl e)
         | Inr d \<Rightarrow>
             if rb_exception d then ((pm2, b1), Inl (Error.Error Errc.Rejected (exception_text (rb_exception_code d))))
             else
               ((pm_map (\<lambda>s. response_ok (s\<lparr>io_digital_outputs :=
                   map (\<lambda>i. (io_digital_outputs s ! i)\<lparr>do_confirmed := bit_on (rb_bit_byte d) i,
                        do_requested := bit_on (rb_bit_byte d) i, do_last_status := ModbusIoCommandStatus.Confirmed\<rparr>)
                     [0..<kModbusIoChannelCount]\<rparr>)) pm2, b1), Inr ()))"

definition pm_probe ::
  "'b RtuEnv \<Rightarrow> PhysicalModbusIoService \<times> 'b \<Rightarrow> (PhysicalModbusIoService \<times> 'b) \<times> ModbusIoSnapshot Result" where
  "pm_probe env st = (case read_discrete_inputs env True st of
      (st1, Inl e) \<Rightarrow> (st1, Inl e)
    | (st1, Inr _) \<Rightarrow>
        (case refresh_coils env st1 of ((pm2, b2), coils) \<Rightarrow>
           let pm3 = (case coils of
                 Inl e \<Rightarrow> pm_map (\<lambda>s. set_transaction (\<lambda>t. t\<lparr>mt_result := ''coil refresh: '' @ err_message e\<rparr>)
                            (s\<lparr>io_last_error := ''coil refresh: '' @ err_message e\<rparr>)) pm2
               | Inr _ \<Rightarrow> pm2);
               pm4 = pm_map (\<lambda>s. s\<lparr>io_device_state := ModbusDeviceState.Online, io_scan_state := ModbusScanState.Complete,
                       io_last_command_status := ModbusIoCommandStatus.Confirmed\<rparr>) pm3
           in ((pm4, b2), Inr (pm_snapshot pm4))))"

definition pm_read_inputs ::
  "'b RtuEnv \<Rightarrow> PhysicalModbusIoService \<times> 'b \<Rightarrow> (PhysicalModbusIoService \<times> 'b) \<times> ModbusIoSnapshot Result" where
  "pm_read_inputs env = read_discrete_inputs env False"

definition set_output :: "nat \<Rightarrow> (DigitalOutputState \<Rightarrow> DigitalOutputState) \<Rightarrow> PhysicalModbusIoService \<Rightarrow> PhysicalModbusIoService" where
  "set_output channel f = pm_map (update_output channel f)"

definition pm_write_output ::
  "'b RtuEnv \<Rightarrow> nat \<Rightarrow> bool \<Rightarrow> PhysicalModbusIoService \<times> 'b \<Rightarrow> (PhysicalModbusIoService \<times> 'b) \<times> ModbusIoSnapshot Result" where
  "pm_write_output env channel active = (\<lambda>(pm, b).
     if channel \<ge> kModbusIoChannelCount then
       ((pm_map (\<lambda>s. s\<lparr>io_last_command_status := ModbusIoCommandStatus.InvalidChannel,
           io_last_error := ''DO channel must be in range 0..3''\<rparr>) pm, b),
        Inl (Error.Error Errc.InvalidArgument ''DO channel must be in range 0..3''))
     else
       let pm0 = set_output channel (\<lambda>out. out\<lparr>do_requested := active, do_last_status := ModbusIoCommandStatus.NoStatus\<rparr>) pm;
           slave = pc_slave_id (pm_config pm);
           address = of_nat channel;
           tx = encode_rtu_write_single_coil slave address active
       in case timed_transact env tx (begin_transaction kModbusFnWriteSingleCoil address 1 tx pm0, b) of
         ((pm1, b1), Inl e) \<Rightarrow>
           (let pm2 = apply_fault e pm1
            in ((set_output channel (\<lambda>out. out\<lparr>do_last_status := io_last_command_status (pm_snapshot pm2)\<rparr>) pm2, b1), Inl e))
       | ((pm1, b1), Inr rx) \<Rightarrow>
           let pm2 = set_rx rx pm1 in
           case decode_rtu_write_single_coil rx slave address active of
             Inl e \<Rightarrow>
               ((set_output channel (\<lambda>out. out\<lparr>do_last_status := ModbusIoCommandStatus.Exception\<rparr>) (set_exception (err_message e) pm2), b1), Inl e)
           | Inr d \<Rightarrow>
               if wc_exception d then
                 ((set_output channel (\<lambda>out. out\<lparr>do_last_status := ModbusIoCommandStatus.Exception\<rparr>)
                     (set_exception (exception_text (wc_exception_code d)) pm2), b1),
                  Inl (Error.Error Errc.Rejected (exception_text (wc_exception_code d))))
               else
                 let pm3 = pm_map (\<lambda>s. response_ok (s\<lparr>io_scan_state := ModbusScanState.Complete,
                       io_device_state := ModbusDeviceState.Online,
                       io_last_command_status := ModbusIoCommandStatus.Confirmed\<rparr>))
                     (set_output channel (\<lambda>out. out\<lparr>do_confirmed := active, do_last_status := ModbusIoCommandStatus.Confirmed\<rparr>) pm2)
                 in ((pm3, b1), Inr (pm_snapshot pm3)))"

fun pm_all_off_from ::
  "'b RtuEnv \<Rightarrow> nat list \<Rightarrow> ModbusIoSnapshot Result \<Rightarrow> PhysicalModbusIoService \<times> 'b \<Rightarrow>
     (PhysicalModbusIoService \<times> 'b) \<times> ModbusIoSnapshot Result" where
  "pm_all_off_from env [] prev st = (st, prev)"
| "pm_all_off_from env (channel # cs) prev st =
     (case pm_write_output env channel False st of
        (st1, Inl e) \<Rightarrow> (st1, Inl e)
      | (st1, Inr s) \<Rightarrow> pm_all_off_from env cs (Inr s) st1)"

definition pm_write_all_outputs_off ::
  "'b RtuEnv \<Rightarrow> PhysicalModbusIoService \<times> 'b \<Rightarrow> (PhysicalModbusIoService \<times> 'b) \<times> ModbusIoSnapshot Result" where
  "pm_write_all_outputs_off env st = pm_all_off_from env [0..<kModbusIoChannelCount] (Inr (pm_snapshot (fst st))) st"

section \<open>Frame lemmas\<close>

lemma pm_map_simps [simp]:
  "pm_snapshot (pm_map f pm) = f (pm_snapshot pm)" "pm_config (pm_map f pm) = pm_config pm" "pm_serial (pm_map f pm) = pm_serial pm"
  by (simp_all add: pm_map_def)

lemma set_transaction_simps [simp]:
  "io_digital_outputs (set_transaction f s) = io_digital_outputs s" "io_digital_inputs (set_transaction f s) = io_digital_inputs s"
  "io_device_state (set_transaction f s) = io_device_state s" "io_last_command_status (set_transaction f s) = io_last_command_status s"
  "io_scan_state (set_transaction f s) = io_scan_state s"
  by (simp_all add: set_transaction_def)

lemma update_output_outputs [simp]:
  "io_digital_outputs (update_output i f s) = (io_digital_outputs s)[i := f (io_digital_outputs s ! i)]"
  by (simp add: update_output_def)

abbreviation pm_outputs :: "PhysicalModbusIoService \<Rightarrow> DigitalOutputState list" where
  "pm_outputs pm \<equiv> io_digital_outputs (pm_snapshot pm)"

lemma frame_outputs [simp]:
  "pm_outputs (begin_transaction fn a q tx pm) = pm_outputs pm" "pm_config (begin_transaction fn a q tx pm) = pm_config pm"
  "pm_outputs (apply_fault e pm) = pm_outputs pm" "pm_config (apply_fault e pm) = pm_config pm"
  "pm_outputs (set_exception m pm) = pm_outputs pm" "pm_config (set_exception m pm) = pm_config pm"
  "pm_outputs (set_rx rx pm) = pm_outputs pm" "pm_config (set_rx rx pm) = pm_config pm"
  "pm_config (set_output c g pm) = pm_config pm"
  "pm_outputs (set_output c g pm) = (pm_outputs pm)[c := g (pm_outputs pm ! c)]"
  "io_digital_outputs (response_ok s) = io_digital_outputs s"
  by (simp_all add: begin_transaction_def apply_fault_def set_exception_def set_rx_def set_output_def response_ok_def)

lemma pm_transact_frame:
  "pm_transact env tx (pm, b) = ((pm', b'), r) \<Longrightarrow> pm_snapshot pm' = pm_snapshot pm \<and> pm_config pm' = pm_config pm"
  unfolding pm_transact_def
  by (auto simp: Let_def split: option.splits prod.splits if_splits sum.splits)

lemma now_state: "snd (now_ns_or_zero env b) = snd (env_clock env b)"
  by (simp add: now_ns_or_zero_def split: prod.split)

lemma timed_transact_frame:
  assumes "timed_transact env tx (pm, b) = ((pm1, b1), rx)"
  shows "\<exists>pm' b'. pm_transact env tx (pm, snd (env_clock env b)) = ((pm', b'), rx) \<and> b1 = snd (env_clock env b') \<and>
           pm_outputs pm1 = pm_outputs pm \<and> pm_config pm1 = pm_config pm"
  using assms pm_transact_frame [of env tx pm "snd (env_clock env b)"]
  unfolding timed_transact_def now_state [symmetric]
  by (auto split: prod.splits)

lemma bit_on_iff: "c < 8 \<Longrightarrow> bit_on b c \<longleftrightarrow> bit b c"
proof -
  assume "c < 8"
  have "bit b c \<longleftrightarrow> b AND push_bit c 1 \<noteq> 0" by (simp add: bit_iff_and_push_bit_not_eq_0)
  then show ?thesis by (simp add: bit_on_def)
qed

section \<open>Confirmed values are device values\<close>

text \<open>
  \<open>honest_slave env slave coil\<close>: what the service relies on, for a device whose coils
  are \<open>coil b\<close> in state \<open>b\<close>. Time and reads leave the coils alone. A normal reply to a
  coil read carries the coils. A write touches only its coil, and its normal
  reply is the echo of the request, sent once the coil has the value. Nothing
  is assumed about a transaction that fails, in which the coil may or may not
  have been written.
\<close>

definition reads_keep :: "'b RtuEnv \<Rightarrow> u8 \<Rightarrow> ('b \<Rightarrow> nat \<Rightarrow> bool) \<Rightarrow> bool" where
  "reads_keep env slave coil \<longleftrightarrow> (\<forall>b. coil (snd (env_clock env b)) = coil b) \<and>
     (\<forall>pm b pm' b' r. pc_slave_id (pm_config pm) = slave \<longrightarrow>
        (pm_transact env (encode_rtu_read slave kModbusFnReadDiscreteInputs kMr0IoRegisterStart kMr0IoBitQuantity) (pm, b) = ((pm', b'), r) \<longrightarrow>
           coil b' = coil b) \<and>
        (pm_transact env (encode_rtu_read slave kModbusFnReadCoils kMr0IoRegisterStart kMr0IoBitQuantity) (pm, b) = ((pm', b'), r) \<longrightarrow>
           coil b' = coil b \<and>
           (\<forall>f. r = Inr f \<longrightarrow> 6 \<le> length f \<longrightarrow> rtu_crc_ok f \<longrightarrow> f ! 0 = slave \<longrightarrow> f ! 1 = kModbusFnReadCoils \<longrightarrow>
              (\<forall>c<kModbusIoChannelCount. bit (f ! 3) c = coil b c))))"

definition writes_echo :: "'b RtuEnv \<Rightarrow> u8 \<Rightarrow> ('b \<Rightarrow> nat \<Rightarrow> bool) \<Rightarrow> bool" where
  "writes_echo env slave coil \<longleftrightarrow>
     (\<forall>pm b pm' b' r c v. pc_slave_id (pm_config pm) = slave \<longrightarrow> c < kModbusIoChannelCount \<longrightarrow>
        pm_transact env (encode_rtu_write_single_coil slave (of_nat c) v) (pm, b) = ((pm', b'), r) \<longrightarrow>
          (\<forall>d. d \<noteq> c \<longrightarrow> coil b' d = coil b d) \<and>
          (\<forall>f. r = Inr f \<longrightarrow> length f = 8 \<longrightarrow> rtu_crc_ok f \<longrightarrow> f ! 0 = slave \<longrightarrow> f ! 1 = kModbusFnWriteSingleCoil \<longrightarrow>
             f = encode_rtu_write_single_coil slave (of_nat c) v \<and> coil b' c = v))"

definition honest_slave :: "'b RtuEnv \<Rightarrow> u8 \<Rightarrow> ('b \<Rightarrow> nat \<Rightarrow> bool) \<Rightarrow> bool" where
  "honest_slave env slave coil \<longleftrightarrow> reads_keep env slave coil \<and> writes_echo env slave coil"

definition coil_truth :: "u8 \<Rightarrow> ('b \<Rightarrow> nat \<Rightarrow> bool) \<Rightarrow> PhysicalModbusIoService \<times> 'b \<Rightarrow> bool" where
  "coil_truth slave coil st \<longleftrightarrow> pc_slave_id (pm_config (fst st)) = slave \<and> length (pm_outputs (fst st)) = kModbusIoChannelCount \<and>
     (\<forall>c<kModbusIoChannelCount. do_last_status (pm_outputs (fst st) ! c) = ModbusIoCommandStatus.Confirmed \<longrightarrow>
        do_confirmed (pm_outputs (fst st) ! c) = coil (snd st) c)"

lemma coil_truth_cong:
  "pm_outputs pm' = pm_outputs pm \<Longrightarrow> pm_config pm' = pm_config pm \<Longrightarrow> coil b' = coil b \<Longrightarrow>
     coil_truth slave coil (pm', b') = coil_truth slave coil (pm, b)"
  by (simp add: coil_truth_def)

lemma timed_read_keeps:
  assumes "reads_keep env slave coil" and "pc_slave_id (pm_config pm) = slave"
    and "fn = kModbusFnReadDiscreteInputs \<or> fn = kModbusFnReadCoils"
    and "timed_transact env (encode_rtu_read slave fn kMr0IoRegisterStart kMr0IoBitQuantity) (pm, b) = ((pm1, b1), rx)"
  shows "coil b1 = coil b" "pm_outputs pm1 = pm_outputs pm" "pm_config pm1 = pm_config pm"
  using timed_transact_frame [OF assms(4)] assms(1,2,3) unfolding reads_keep_def by metis+

lemma timed_coils_reply:
  assumes "reads_keep env slave coil" and "pc_slave_id (pm_config pm) = slave"
    and "timed_transact env (encode_rtu_read slave kModbusFnReadCoils kMr0IoRegisterStart kMr0IoBitQuantity) (pm, b) = ((pm1, b1), Inr f)"
    and "decode_rtu_read_bits f slave kModbusFnReadCoils = Inr d" and "\<not> rb_exception d" and "c < kModbusIoChannelCount"
  shows "bit_on (rb_bit_byte d) c = coil b1 c"
proof -
  have d: "6 \<le> length f" "rtu_crc_ok f" "f ! 0 = slave" "f ! 1 = kModbusFnReadCoils" "rb_bit_byte d = f ! 3"
    using assms(4,5) unfolding decode_rtu_read_bits_def by (auto split: if_splits)
  obtain pm' b' where tr: "pm_transact env (encode_rtu_read slave kModbusFnReadCoils kMr0IoRegisterStart kMr0IoBitQuantity)
      (pm, snd (env_clock env b)) = ((pm', b'), Inr f)" and b1: "b1 = snd (env_clock env b')"
    using timed_transact_frame [OF assms(3)] by auto
  have "bit (f ! 3) c = coil (snd (env_clock env b)) c" "coil b' = coil (snd (env_clock env b))" "coil b1 = coil b'"
    using assms(1,2,6) tr d b1 unfolding reads_keep_def by blast+
  with d(5) assms(6) show ?thesis by (simp add: bit_on_iff kModbusIoChannelCount_def)
qed

lemma timed_write_reply:
  assumes "honest_slave env slave coil" and "pc_slave_id (pm_config pm) = slave" and "c < kModbusIoChannelCount"
    and "timed_transact env (encode_rtu_write_single_coil slave (of_nat c) v) (pm, b) = ((pm1, b1), rx)"
  shows "d \<noteq> c \<Longrightarrow> coil b1 d = coil b d"
    and "rx = Inr f \<Longrightarrow> decode_rtu_write_single_coil f slave (of_nat c) v = Inr dec \<Longrightarrow> \<not> wc_exception dec \<Longrightarrow> coil b1 c = v"
proof -
  obtain pm' b' where tr: "pm_transact env (encode_rtu_write_single_coil slave (of_nat c) v)
      (pm, snd (env_clock env b)) = ((pm', b'), rx)" and b1: "b1 = snd (env_clock env b')"
    using timed_transact_frame [OF assms(4)] by auto
  have clock: "coil b1 = coil b'" "coil (snd (env_clock env b)) = coil b"
    using assms(1) b1 unfolding honest_slave_def reads_keep_def by blast+
  have w: "writes_echo env slave coil" using assms(1) by (simp add: honest_slave_def)
  show "coil b1 d = coil b d" if "d \<noteq> c"
    using w assms(2,3) tr that clock unfolding writes_echo_def by metis
  show "coil b1 c = v" if rx: "rx = Inr f" and dec: "decode_rtu_write_single_coil f slave (of_nat c) v = Inr dec" "\<not> wc_exception dec"
  proof -
    have "length f = 8" "rtu_crc_ok f" "f ! 0 = slave" "f ! 1 = kModbusFnWriteSingleCoil"
      using dec unfolding decode_rtu_write_single_coil_def by (auto simp: Let_def split: if_splits)
    then have "coil b' c = v" using w assms(2,3) tr rx unfolding writes_echo_def by blast
    then show ?thesis using clock by simp
  qed
qed

lemma read_inputs_truth:
  assumes "reads_keep env slave coil" and "coil_truth slave coil st"
  shows "coil_truth slave coil (fst (read_discrete_inputs env scanning st))"
proof -
  obtain pm b where st: "st = (pm, b)" by (cases st)
  let ?pm0 = "if scanning then pm_map (\<lambda>s. s\<lparr>io_scan_state := ModbusScanState.Scanning\<rparr>) pm else pm"
  let ?tx = "encode_rtu_read slave kModbusFnReadDiscreteInputs kMr0IoRegisterStart kMr0IoBitQuantity"
  let ?pmb = "begin_transaction kModbusFnReadDiscreteInputs kMr0IoRegisterStart kMr0IoBitQuantity ?tx ?pm0"
  have slave: "pc_slave_id (pm_config pm) = slave" using assms(2) st by (simp add: coil_truth_def)
  obtain pm1 b1 rx where tt: "timed_transact env ?tx (?pmb, b) = ((pm1, b1), rx)" by (metis prod.collapse)
  have "pc_slave_id (pm_config ?pmb) = slave" using slave by simp
  note keep = timed_read_keeps [OF assms(1) this _ tt]
  have "fst (read_discrete_inputs env scanning st) = (pm', b1) \<Longrightarrow> pm_outputs pm' = pm_outputs pm1 \<and> pm_config pm' = pm_config pm1" for pm'
    unfolding st read_discrete_inputs_def Let_def prod.case slave tt by (auto split: sum.splits if_splits)
  moreover have "snd (fst (read_discrete_inputs env scanning st)) = b1"
    unfolding st read_discrete_inputs_def Let_def prod.case slave tt by (simp split: sum.split)
  moreover have "pm_outputs pm1 = pm_outputs pm" "pm_config pm1 = pm_config pm" "coil b1 = coil b"
    using keep by (simp_all split: if_splits)
  ultimately show ?thesis using assms(2) st by (metis coil_truth_cong prod.collapse)
qed

lemma refresh_truth:
  assumes "reads_keep env slave coil" and "coil_truth slave coil st"
  shows "coil_truth slave coil (fst (refresh_coils env st))"
proof -
  obtain pm b where st: "st = (pm, b)" by (cases st)
  let ?tx = "encode_rtu_read slave kModbusFnReadCoils kMr0IoRegisterStart kMr0IoBitQuantity"
  let ?pmb = "begin_transaction kModbusFnReadCoils kMr0IoRegisterStart kMr0IoBitQuantity ?tx pm"
  have slave: "pc_slave_id (pm_config pm) = slave" using assms(2) st by (simp add: coil_truth_def)
  obtain pm1 b1 rx where tt: "timed_transact env ?tx (?pmb, b) = ((pm1, b1), rx)" by (metis prod.collapse)
  have sb: "pc_slave_id (pm_config ?pmb) = slave" using slave by simp
  note keep = timed_read_keeps [OF assms(1) sb _ tt, simplified]
  have t1: "coil_truth slave coil (pm1, b1)"
    using assms(2) keep unfolding st by (simp add: coil_truth_def)
  show ?thesis
  proof (cases "\<exists>f d. rx = Inr f \<and> decode_rtu_read_bits f slave kModbusFnReadCoils = Inr d \<and> \<not> rb_exception d")
    case True
    then obtain f d where f: "rx = Inr f" "decode_rtu_read_bits f slave kModbusFnReadCoils = Inr d" "\<not> rb_exception d" by auto
    have bits: "c < kModbusIoChannelCount \<Longrightarrow> bit_on (rb_bit_byte d) c = coil b1 c" for c
      using timed_coils_reply [OF assms(1) sb] tt f by blast
    show ?thesis using t1 bits unfolding st refresh_coils_def Let_def prod.case slave tt
      by (simp add: f coil_truth_def)
  next
    case False
    then have "coil_truth slave coil (fst (refresh_coils env st)) = coil_truth slave coil (pm1, b1)"
      unfolding st refresh_coils_def Let_def prod.case slave tt
      by (auto simp: coil_truth_def split: sum.split)
    with t1 show ?thesis by simp
  qed
qed

lemma write_truth:
  assumes "honest_slave env slave coil" and "coil_truth slave coil st"
  shows "coil_truth slave coil (fst (pm_write_output env channel active st))"
proof (cases "channel < kModbusIoChannelCount")
  case False
  then show ?thesis using assms(2) by (cases st) (simp add: pm_write_output_def coil_truth_def)
next
  case True
  obtain pm b where st: "st = (pm, b)" by (cases st)
  let ?tx = "encode_rtu_write_single_coil slave (of_nat channel) active"
  let ?pm0 = "set_output channel (\<lambda>out. out\<lparr>do_requested := active, do_last_status := ModbusIoCommandStatus.NoStatus\<rparr>) pm"
  let ?pmb = "begin_transaction kModbusFnWriteSingleCoil (of_nat channel) 1 ?tx ?pm0"
  have slave: "pc_slave_id (pm_config pm) = slave" and len: "length (pm_outputs pm) = kModbusIoChannelCount"
    using assms(2) st by (simp_all add: coil_truth_def)
  obtain pm1 b1 rx where tt: "timed_transact env ?tx (?pmb, b) = ((pm1, b1), rx)" by (metis prod.collapse)
  have "pc_slave_id (pm_config ?pmb) = slave" using slave by simp
  note reply = timed_write_reply [OF assms(1) this True tt]
  have o1: "pm_outputs pm1 = (pm_outputs pm)[channel := (pm_outputs pm ! channel)\<lparr>do_requested := active, do_last_status := ModbusIoCommandStatus.NoStatus\<rparr>]"
    and c1: "pm_config pm1 = pm_config pm" using timed_transact_frame [OF tt] by auto
  have others: "c < kModbusIoChannelCount \<Longrightarrow> c \<noteq> channel \<Longrightarrow> do_last_status (pm_outputs pm ! c) = ModbusIoCommandStatus.Confirmed \<Longrightarrow>
      do_confirmed (pm_outputs pm ! c) = coil b1 c" for c
    using assms(2) reply(1) [of c] unfolding st coil_truth_def by simp
  have fault: "io_last_command_status (pm_snapshot (apply_fault e pm1)) \<noteq> ModbusIoCommandStatus.Confirmed" for e
    by (simp add: apply_fault_def)
  show ?thesis using True len slave others fault reply(2)
    unfolding st pm_write_output_def Let_def prod.case slave tt
    by (auto simp: coil_truth_def o1 c1 slave nth_list_update split: sum.split)
qed

lemma all_off_truth:
  assumes "honest_slave env slave coil"
  shows "coil_truth slave coil st \<Longrightarrow> coil_truth slave coil (fst (pm_all_off_from env cs prev st))"
proof (induction cs arbitrary: prev st)
  case (Cons c cs)
  note t1 = write_truth [OF assms Cons.prems, of c False]
  show ?case
  proof (cases "pm_write_output env c False st")
    case (Pair st1 r)
    with t1 Cons.IH show ?thesis by (cases r) simp_all
  qed
qed simp

lemma probe_truth:
  assumes "reads_keep env slave coil" and "coil_truth slave coil st"
  shows "coil_truth slave coil (fst (pm_probe env st))"
proof (cases "read_discrete_inputs env True st")
  case (Pair st1 r)
  have t1: "coil_truth slave coil st1" using read_inputs_truth [OF assms, of True] Pair by simp
  obtain pm2 b2 coils where rc: "refresh_coils env st1 = ((pm2, b2), coils)" by (metis prod.collapse)
  have "coil_truth slave coil (pm2, b2)" using refresh_truth [OF assms(1) t1] rc by simp
  then show ?thesis using t1 Pair rc
    by (cases r; cases coils) (simp_all add: pm_probe_def Let_def coil_truth_def)
qed

section \<open>Runs\<close>

datatype PhysicalOp = PmProbe | PmReadInputs | PmWriteOutput nat bool | PmAllOff | PmDisconnect

fun pm_step :: "'b RtuEnv \<Rightarrow> PhysicalOp \<Rightarrow> PhysicalModbusIoService \<times> 'b \<Rightarrow> PhysicalModbusIoService \<times> 'b" where
  "pm_step env PmProbe st = fst (pm_probe env st)"
| "pm_step env PmReadInputs st = fst (pm_read_inputs env st)"
| "pm_step env (PmWriteOutput c v) st = fst (pm_write_output env c v st)"
| "pm_step env PmAllOff st = fst (pm_write_all_outputs_off env st)"
| "pm_step env PmDisconnect st = (pm_disconnect (fst st), snd st)"

lemma pm_step_truth:
  assumes "honest_slave env slave coil" and "coil_truth slave coil st"
  shows "coil_truth slave coil (pm_step env op st)"
proof -
  have "reads_keep env slave coil" using assms(1) by (simp add: honest_slave_def)
  with assms show ?thesis
    by (cases op) (simp_all add: probe_truth read_inputs_truth write_truth all_off_truth pm_read_inputs_def
      pm_write_all_outputs_off_def, simp add: coil_truth_def pm_disconnect_def)
qed

lemma init_truth: "coil_truth (pc_slave_id c) coil (pm_init c, b)"
  by (auto simp: coil_truth_def pm_init_def apply_device_identity_def number_channels_def io_default_def output_default_def
    kModbusIoChannelCount_def nth_Cons split: nat.splits)

text \<open>
  C29. What the service calls confirmed is what the device has. Against a device
  that behaves as its protocol says, after any sequence of probes, reads,
  writes, all-off commands and disconnections, every output channel whose last
  status is Confirmed shows the value its coil has, whatever transactions
  timed out, were garbled or raised exceptions on the way.
\<close>
theorem confirmed_is_coil:
  assumes "honest_slave env (pc_slave_id cfg) coil" and "c < kModbusIoChannelCount"
    and "fold (pm_step env) ops (pm_init cfg, b) = (pm, b')"
    and "do_last_status (pm_outputs pm ! c) = ModbusIoCommandStatus.Confirmed"
  shows "do_confirmed (pm_outputs pm ! c) = coil b' c"
proof -
  have "coil_truth (pc_slave_id cfg) coil st \<Longrightarrow> coil_truth (pc_slave_id cfg) coil (fold (pm_step env) ops st)" for st
    by (induction ops arbitrary: st) (simp, simp only: fold_Cons comp_apply pm_step_truth [OF assms(1)])
  from this [OF init_truth, of b] assms(2-4) show ?thesis by (simp add: coil_truth_def)
qed

text \<open>A device for the witness: four coils behind slave 1, and a clock that stands still.\<close>

definition coil_bits :: "(nat \<Rightarrow> bool) \<Rightarrow> u8" where
  "coil_bits k = (if k 0 then 1 else 0) OR (if k 1 then 2 else 0) OR (if k 2 then 4 else 0) OR (if k 3 then 8 else 0)"

definition example_slave :: "u8 list \<Rightarrow> i64 \<Rightarrow> (nat \<Rightarrow> bool) \<Rightarrow> u8 list Result \<times> (nat \<Rightarrow> bool)" where
  "example_slave req timeout k =
     (if req ! 1 = kModbusFnWriteSingleCoil then (Inr req, k(unat (req ! 3) := (req ! 4 = 0xFF)))
      else if req ! 1 = kModbusFnReadCoils then (Inr (rtu_seal [1, kModbusFnReadCoils, 1, coil_bits k]), k)
      else (Inr (rtu_seal [1, kModbusFnReadDiscreteInputs, 1, 5]), k))"

definition example_rtu :: "(nat \<Rightarrow> bool) RtuEnv" where
  "example_rtu = \<lparr>env_clock = (\<lambda>k. (Inr 7, k)), env_injected = Some example_slave,
     env_open = (\<lambda>c k. (OpenOk, k)),
     env_serial = (\<lambda>r k. (\<lparr>ser_writes = [], ser_drain = None, ser_start = 0, ser_steps = []\<rparr>, k))\<rparr>"

lemma coil_bits_bit: "c < kModbusIoChannelCount \<Longrightarrow> bit (coil_bits k) c = k c"
proof -
  assume "c < kModbusIoChannelCount"
  then have "c = 0 \<or> c = 1 \<or> c = 2 \<or> c = 3" by (auto simp: kModbusIoChannelCount_def)
  then show ?thesis by (auto simp: coil_bits_def bit_simps)
qed

lemma channel_byte: "c < 4 \<Longrightarrow> unat (ucast (of_nat c AND 255 :: u16) :: u8) = c"
proof -
  assume "c < 4"
  then have "c = 0 \<or> c = 1 \<or> c = 2 \<or> c = 3" by auto
  then show ?thesis by auto
qed

lemma example_honest: "honest_slave example_rtu 1 (\<lambda>k. k)"
proof -
  have "reads_keep example_rtu 1 (\<lambda>k. k)"
    unfolding reads_keep_def pm_transact_def
    by (simp add: example_rtu_def example_slave_def encode_rtu_read_def modbus_fn_defs coil_bits_bit
      split: prod.split)
  moreover have "writes_echo example_rtu 1 (\<lambda>k. k)"
    unfolding writes_echo_def pm_transact_def
    by (auto simp: example_rtu_def example_slave_def encode_rtu_write_single_coil_def modbus_fn_defs kModbusIoChannelCount_def channel_byte)
  ultimately show ?thesis by (simp add: honest_slave_def)
qed

theorem confirmed_is_coil_witness:
  "do_last_status (pm_outputs (fst (fold (pm_step example_rtu) [PmWriteOutput 2 True]
       (pm_init physical_config_default, \<lambda>_. False))) ! 2) = ModbusIoCommandStatus.Confirmed \<and>
   do_confirmed (pm_outputs (fst (fold (pm_step example_rtu) [PmWriteOutput 2 True]
       (pm_init physical_config_default, \<lambda>_. False))) ! 2) =
     snd (fold (pm_step example_rtu) [PmWriteOutput 2 True] (pm_init physical_config_default, \<lambda>_. False)) 2"
proof -
  let ?st = "fold (pm_step example_rtu) [PmWriteOutput 2 True] (pm_init physical_config_default, \<lambda>_. False)"
  have "do_last_status (pm_outputs (fst ?st) ! 2) = ModbusIoCommandStatus.Confirmed"
    using coil_echo_confirms [of 1 2 True]
    by (simp add: pm_write_output_def kModbusIoChannelCount_def pm_init_def apply_device_identity_def number_channels_def
      io_default_def output_default_def physical_config_default_def timed_transact_def now_ns_or_zero_def pm_transact_def
      example_rtu_def example_slave_def Let_def begin_transaction_def set_output_def update_output_def set_rx_def
      nth_Cons encode_rtu_write_single_coil_def)
  moreover have "honest_slave example_rtu (pc_slave_id physical_config_default) (\<lambda>k. k)"
    using example_honest by (simp add: physical_config_default_def)
  ultimately show ?thesis
    using confirmed_is_coil [of example_rtu physical_config_default "\<lambda>k. k" 2 "[PmWriteOutput 2 True]" "\<lambda>_. False" "fst ?st" "snd ?st"]
    by (simp add: kModbusIoChannelCount_def)
qed

end
