(* ===== verification/Modbus_Agent.thy ===== *)
theory Modbus_Agent
  imports Modbus_Physical Sock_Io
begin

text \<open>
  The Modbus agent: the framed TCP protocol between the engineering side and the
  process that owns the serial line. Models
  \<^verbatim>\<open>linux/src/workbench/application/modbus_agent_protocol.cpp\<close>,
  \<^verbatim>\<open>linux/src/workbench/services/modbus_agent_server.cpp\<close> and
  \<^verbatim>\<open>modbus_agent_client.cpp\<close>. The lemmas show that the framer is a \<open>frame_stream\<close>,
  that a probe acknowledgement round-trips to the agent's view of the snapshot,
  and that an exchange through the server gives the client the state the device
  was left in.
\<close>

section \<open>Protocol\<close>

definition kModbusAgentMagic :: u32 where "kModbusAgentMagic = 0x4D524352"
definition kModbusAgentVersion :: u8 where "kModbusAgentVersion = 1"
definition kModbusAgentHeaderSize :: nat where "kModbusAgentHeaderSize = 12"
definition kModbusAgentCrcSize :: nat where "kModbusAgentCrcSize = 2"
definition kModbusAgentMaxPayload :: nat where "kModbusAgentMaxPayload = 256"

lemmas agent_consts = kModbusAgentMagic_def kModbusAgentVersion_def kModbusAgentHeaderSize_def
  kModbusAgentCrcSize_def kModbusAgentMaxPayload_def

datatype ModbusAgentMessage = Probe | ProbeAck | ReadDi | ReadDiAck | WriteDo | WriteDoAck | Error | AllOff | AllOffAck | ModbusAgentMessage_raw u8

fun ModbusAgentMessage_code :: "ModbusAgentMessage \<Rightarrow> u8" where
  "ModbusAgentMessage_code ModbusAgentMessage.Probe = 1"
| "ModbusAgentMessage_code ModbusAgentMessage.ProbeAck = 2"
| "ModbusAgentMessage_code ModbusAgentMessage.ReadDi = 3"
| "ModbusAgentMessage_code ModbusAgentMessage.ReadDiAck = 4"
| "ModbusAgentMessage_code ModbusAgentMessage.WriteDo = 5"
| "ModbusAgentMessage_code ModbusAgentMessage.WriteDoAck = 6"
| "ModbusAgentMessage_code ModbusAgentMessage.Error = 7"
| "ModbusAgentMessage_code ModbusAgentMessage.AllOff = 8"
| "ModbusAgentMessage_code ModbusAgentMessage.AllOffAck = 9"
| "ModbusAgentMessage_code (ModbusAgentMessage_raw c) = c"

definition ModbusAgentMessage_of_code :: "u8 \<Rightarrow> ModbusAgentMessage" where
  "ModbusAgentMessage_of_code c =
     (if c = 1 then ModbusAgentMessage.Probe
      else if c = 2 then ModbusAgentMessage.ProbeAck
      else if c = 3 then ModbusAgentMessage.ReadDi
      else if c = 4 then ModbusAgentMessage.ReadDiAck
      else if c = 5 then ModbusAgentMessage.WriteDo
      else if c = 6 then ModbusAgentMessage.WriteDoAck
      else if c = 7 then ModbusAgentMessage.Error
      else if c = 8 then ModbusAgentMessage.AllOff
      else if c = 9 then ModbusAgentMessage.AllOffAck
      else ModbusAgentMessage_raw c)"

definition named_ModbusAgentMessage :: "ModbusAgentMessage \<Rightarrow> bool" where
  "named_ModbusAgentMessage x \<longleftrightarrow> (case x of ModbusAgentMessage_raw c \<Rightarrow> False | _ \<Rightarrow> True)"

lemma ModbusAgentMessage_roundtrip [simp]: "named_ModbusAgentMessage x \<Longrightarrow> ModbusAgentMessage_of_code (ModbusAgentMessage_code x) = x"
  by (cases x) (simp_all add: named_ModbusAgentMessage_def ModbusAgentMessage_of_code_def)

lemma ModbusAgentMessage_code_of_code [simp]: "ModbusAgentMessage_code (ModbusAgentMessage_of_code c) = c"
  by (simp add: ModbusAgentMessage_of_code_def)


record ModbusAgentFrame =
  af_type :: ModbusAgentMessage
  af_sequence :: u16
  af_payload :: "u8 list"

definition encode_modbus_agent_frame :: "ModbusAgentFrame \<Rightarrow> u8 list option" where
  "encode_modbus_agent_frame frame =
     (if length (af_payload frame) > kModbusAgentMaxPayload then None
      else
        let o1 = append_u32_le [] kModbusAgentMagic;
            o2 = o1 @ [kModbusAgentVersion] @ [ModbusAgentMessage_code (af_type frame)] @ [0] @ [0];
            o3 = append_u16_le o2 (af_sequence frame);
            o4 = append_u16_le o3 (of_nat (length (af_payload frame)));
            o5 = o4 @ af_payload frame;
            crc = modbus_rtu_crc16 o5
        in Some (append_u16_le o5 crc))"

text \<open>The decoder returns the frame and the number of bytes it consumed.\<close>

definition try_decode_modbus_agent_frame :: "u8 list \<Rightarrow> ModbusAgentFrame Result \<times> nat" where
  "try_decode_modbus_agent_frame bytes =
     (if length bytes < kModbusAgentHeaderSize + kModbusAgentCrcSize then
        (Inl (Error.Error Errc.WouldBlock ''need more agent bytes''), 0)
      else if read_u32_le bytes 0 \<noteq> kModbusAgentMagic then (Inl (Error.Error Errc.Rejected ''bad agent magic''), 0)
      else if bytes ! 4 \<noteq> kModbusAgentVersion then (Inl (Error.Error Errc.Unsupported ''unsupported agent version''), 0)
      else
        let payload_len = unat (read_u16_le bytes 10)
        in if payload_len > kModbusAgentMaxPayload then (Inl (Error.Error Errc.InvalidArgument ''agent payload too large''), 0)
           else
             let total = kModbusAgentHeaderSize + payload_len + kModbusAgentCrcSize
             in if length bytes < total then (Inl (Error.Error Errc.WouldBlock ''need more agent bytes''), 0)
                else if read_u16_le bytes (total - 2) \<noteq> modbus_rtu_crc16 (take (total - 2) bytes) then
                  (Inl (Error.Error Errc.Rejected ''agent CRC mismatch''), 0)
                else
                  (Inr \<lparr>af_type = ModbusAgentMessage_of_code (bytes ! 5), af_sequence = read_u16_le bytes 8,
                        af_payload = take payload_len (drop kModbusAgentHeaderSize bytes)\<rparr>, total))"

definition append_lp_string :: "u8 list \<Rightarrow> string \<Rightarrow> u8 list" where
  "append_lp_string out v =
     (let n = min (length v) 255 in out @ [of_nat n] @ map char_u8 (take n v))"

definition read_lp_string :: "u8 list \<Rightarrow> nat \<Rightarrow> (string \<times> nat) Result" where
  "read_lp_string inp offset =
     (if offset \<ge> length inp then Inl (Error.Error Errc.InvalidArgument ''truncated agent string'')
      else
        let n = unat (inp ! offset); offset1 = offset + 1
        in if offset1 + n > length inp then Inl (Error.Error Errc.InvalidArgument ''truncated agent string body'')
           else Inr (map u8_char (take n (drop offset1 inp)), offset1 + n))"

definition rtt_ms :: "i64 \<Rightarrow> u32" where
  "rtt_ms rtt_ns = word_of_int (if rtt_ns \<ge> 0 then rtt_ns div 1000000 else - ((- rtt_ns) div 1000000))"

definition parity_byte :: "string \<Rightarrow> u8" where
  "parity_byte p = char_u8 (if p = ''None'' then CHR ''N'' else if p = [] then CHR ''N'' else p ! 0)"

definition encode_probe_ack_payload :: "ModbusIoSnapshot \<Rightarrow> u8 list" where
  "encode_probe_ack_payload s =
     (let o1 = [ModbusDeviceState_code (io_device_state s), io_slave_id s, of_nat kModbusIoChannelCount];
          o2 = o1 @ map (\<lambda>i. if di_active i then 1 else 0) (io_digital_inputs s);
          o3 = o2 @ concat (map (\<lambda>d. [if do_requested d then 1 else 0, if do_confirmed d then 1 else 0,
                                        ModbusIoCommandStatus_code (do_last_status d)]) (io_digital_outputs s));
          o4 = append_u32_le o3 (io_baud_rate s);
          o5 = o4 @ [parity_byte (io_parity s)];
          o6 = append_u32_le o5 (rtt_ms (mt_rtt_ns (io_last_transaction s)));
          o7 = o6 @ [ModbusIoCommandStatus_code (io_last_command_status s), mt_function (io_last_transaction s)];
          o8 = append_lp_string o7 (io_serial_port s);
          o9 = append_lp_string o8 (io_sku s);
          o10 = append_lp_string o9 (io_last_error s);
          o11 = append_lp_string o10 (mt_tx_hex (io_last_transaction s));
          o12 = append_lp_string o11 (mt_rx_hex (io_last_transaction s))
      in append_lp_string o12 (mt_result (io_last_transaction s)))"

definition probe_ack_fixed :: nat where
  "probe_ack_fixed = 3 + kModbusIoChannelCount + kModbusIoChannelCount * 3 + 4 + 1 + 4 + 1 + 1"

text \<open>The fixed part of the payload, at the offsets of the source, on a default snapshot.\<close>

definition probe_ack_base :: "u8 list \<Rightarrow> ModbusIoSnapshot" where
  "probe_ack_base payload =
     (let parity = u8_char (payload ! 23);
          ptext = (if parity = CHR ''N'' then ''None'' else [parity]);
          baud = read_u32_le payload 19
      in io_default\<lparr>io_backend := ''PHYSICAL'', io_evidence := EvidenceClass.Physical, io_no_physical_rs485 := False,
           io_transport := ''Modbus RTU'', io_device_state := ModbusDeviceState_of_code (payload ! 0),
           io_slave_id := payload ! 1,
           io_digital_inputs := map (\<lambda>c. \<lparr>di_channel = of_nat c, di_active = (payload ! (3 + c) \<noteq> 0)\<rparr>) [0..<kModbusIoChannelCount],
           io_digital_outputs := map (\<lambda>c. \<lparr>do_channel = of_nat c, do_requested = (payload ! (7 + 3 * c) \<noteq> 0),
                do_confirmed = (payload ! (8 + 3 * c) \<noteq> 0),
                do_last_status = ModbusIoCommandStatus_of_code (payload ! (9 + 3 * c))\<rparr>) [0..<kModbusIoChannelCount],
           io_baud_rate := baud, io_baud_rate_placeholder := baud, io_parity := ptext, io_parity_placeholder := ptext,
           io_last_command_status := ModbusIoCommandStatus_of_code (payload ! 28),
           io_last_transaction := transaction_default\<lparr>mt_rtt_ns := uint (read_u32_le payload 24) * 1000000,
                mt_function := payload ! 29\<rparr>\<rparr>)"

fun read_lp_strings :: "nat \<Rightarrow> u8 list \<Rightarrow> nat \<Rightarrow> string list Result" where
  "read_lp_strings 0 inp offset = Inr []"
| "read_lp_strings (Suc k) inp offset =
     (case read_lp_string inp offset of
        Inl e \<Rightarrow> Inl e
      | Inr (s, offset') \<Rightarrow> (case read_lp_strings k inp offset' of Inl e \<Rightarrow> Inl e | Inr ss \<Rightarrow> Inr (s # ss)))"

definition decode_probe_ack_payload :: "u8 list \<Rightarrow> ModbusIoSnapshot Result" where
  "decode_probe_ack_payload payload =
     (if length payload < probe_ack_fixed then Inl (Error.Error Errc.InvalidArgument ''probe ack too short'')
      else if payload ! 2 \<noteq> of_nat kModbusIoChannelCount then Inl (Error.Error Errc.InvalidArgument ''unexpected DI count'')
      else case read_lp_strings 6 payload probe_ack_fixed of
        Inl e \<Rightarrow> Inl e
      | Inr ss \<Rightarrow>
          let s = probe_ack_base payload
          in Inr (s\<lparr>io_serial_port := ss ! 0, io_sku := ss ! 1, io_last_error := ss ! 2,
               io_last_transaction := (io_last_transaction s)\<lparr>mt_tx_hex := ss ! 3, mt_rx_hex := ss ! 4,
                  mt_result := ss ! 5, mt_slave_id := io_slave_id s\<rparr>,
               io_scan_state := (if io_device_state s = ModbusDeviceState.Online then ModbusScanState.Complete else ModbusScanState.Error)\<rparr>))"

definition encode_write_do_payload :: "u8 \<Rightarrow> bool \<Rightarrow> u8 list" where
  "encode_write_do_payload channel active = [channel, if active then 1 else 0]"

definition decode_write_do_payload :: "u8 list \<Rightarrow> (u8 \<times> bool) Result" where
  "decode_write_do_payload payload =
     (if length payload < 2 then Inl (Error.Error Errc.InvalidArgument ''write-do payload too short'')
      else Inr (payload ! 0, payload ! 1 \<noteq> 0))"

section \<open>Server\<close>

definition agent_read_request :: "i64 \<Rightarrow> RecvScript \<Rightarrow> ModbusAgentFrame Result" where
  "agent_read_request timeout_ms script =
     recv_loop \<lparr>re_timeout = Error.Error Errc.Timeout ''agent request timeout'', re_poll = sock_error ''poll'',
         re_recv = (\<lambda>_. Error.Error Errc.IoError ''client disconnected''),
         re_closed = Error.Error Errc.IoError ''client disconnected''\<rparr>
       (\<lambda>buffer. fst (try_decode_modbus_agent_frame buffer))
       (rs_start script + timeout_ms * 1000000) [] (rs_steps script)"

definition agent_handle_request ::
  "'b RtuEnv \<Rightarrow> ModbusAgentFrame \<Rightarrow> PhysicalModbusIoService \<times> 'b \<Rightarrow> (PhysicalModbusIoService \<times> 'b) \<times> ModbusAgentFrame" where
  "agent_handle_request env request st =
     (let ack = (\<lambda>st' t. (st', \<lparr>af_type = t, af_sequence = af_sequence request,
                             af_payload = encode_probe_ack_payload (pm_snapshot (fst st'))\<rparr>));
          err = (st, \<lparr>af_type = ModbusAgentMessage.Error, af_sequence = af_sequence request, af_payload = []\<rparr>)
      in case af_type request of
           ModbusAgentMessage.Probe \<Rightarrow> ack (fst (pm_probe env st)) ModbusAgentMessage.ProbeAck
         | ModbusAgentMessage.ReadDi \<Rightarrow> ack (fst (pm_read_inputs env st)) ModbusAgentMessage.ReadDiAck
         | ModbusAgentMessage.WriteDo \<Rightarrow>
             (case decode_write_do_payload (af_payload request) of
                Inl e \<Rightarrow> err
              | Inr (channel, active) \<Rightarrow> ack (fst (pm_write_output env (unat channel) active st)) ModbusAgentMessage.WriteDoAck)
         | ModbusAgentMessage.AllOff \<Rightarrow> ack (fst (pm_write_all_outputs_off env st)) ModbusAgentMessage.AllOffAck
         | _ \<Rightarrow> err)"

text \<open>
  One connection: each turn of the loop has a receive script and the results of
  the sends. When the listed turns are over the client has gone quiet. The
  result carries the replies that were written.
\<close>

record AgentTurn =
  at_recv :: RecvScript
  at_sends :: "WriteCall list"

fun agent_serve ::
  "'b RtuEnv \<Rightarrow> bool \<Rightarrow> AgentTurn list \<Rightarrow> PhysicalModbusIoService \<times> 'b \<Rightarrow>
     (PhysicalModbusIoService \<times> 'b) \<times> u8 list list \<times> unit Result" where
  "agent_serve env served [] st =
     (st, [], if served then Inr () else Inl (Error.Error Errc.Timeout ''agent request timeout''))"
| "agent_serve env served (t # ts) st =
     (case agent_read_request (if served then 5000 else 1000) (at_recv t) of
        Inl e \<Rightarrow> (st, [], if served \<and> (err_code e = Errc.Timeout \<or> err_code e = Errc.IoError) then Inr () else Inl e)
      | Inr req \<Rightarrow>
          (case agent_handle_request env req st of (st1, reply) \<Rightarrow>
             case encode_modbus_agent_frame reply of
               None \<Rightarrow> (st1, [], Inl (Error.Error Errc.InvalidArgument ''failed to encode agent reply''))
             | Some wire \<Rightarrow>
                 (case write_all wire (at_sends t) of
                    Inl e \<Rightarrow> (st1, [], Inl e)
                  | Inr _ \<Rightarrow>
                      (case agent_serve env True ts st1 of (st2, wires, r) \<Rightarrow> (st2, wire # wires, r)))))"

datatype AcceptOutcome = AcceptTimeout | AcceptPollFails string | AcceptFails string | Accepted "AgentTurn list"

record ModbusAgentServer =
  as_listening :: bool
  as_port :: u16

definition agent_close :: "ModbusAgentServer \<Rightarrow> ModbusAgentServer" where
  "agent_close srv = srv\<lparr>as_listening := False, as_port := 0\<rparr>"

definition agent_listen :: "ListenOutcome \<Rightarrow> ModbusAgentServer \<Rightarrow> ModbusAgentServer \<times> unit Result" where
  "agent_listen outcome srv =
     (let closed = agent_close srv
      in case sock_listen outcome of Inl e \<Rightarrow> (closed, Inl e)
         | Inr port \<Rightarrow> (closed\<lparr>as_listening := True, as_port := port\<rparr>, Inr ()))"

definition agent_serve_one ::
  "'b RtuEnv \<Rightarrow> AcceptOutcome \<Rightarrow> ModbusAgentServer \<Rightarrow> PhysicalModbusIoService \<times> 'b \<Rightarrow>
     (PhysicalModbusIoService \<times> 'b) \<times> u8 list list \<times> unit Result" where
  "agent_serve_one env outcome srv st =
     (if \<not> as_listening srv then (st, [], Inl (Error.Error Errc.NotOpen ''agent server not listening''))
      else case outcome of
        AcceptTimeout \<Rightarrow> (st, [], Inl (Error.Error Errc.Timeout ''accept timeout''))
      | AcceptPollFails e \<Rightarrow> (st, [], Inl (sock_error ''accept poll'' e))
      | AcceptFails e \<Rightarrow> (st, [], Inl (sock_error ''accept'' e))
      | Accepted turns \<Rightarrow> agent_serve env False turns st)"

section \<open>Client\<close>

record ModbusAgentClient =
  ac_connected :: bool
  ac_next_sequence :: u16

definition agent_client_init :: ModbusAgentClient where
  "agent_client_init = \<lparr>ac_connected = False, ac_next_sequence = 1\<rparr>"

definition ac_disconnect :: "ModbusAgentClient \<Rightarrow> ModbusAgentClient" where
  "ac_disconnect c = (if \<not> ac_connected c then c else c\<lparr>ac_connected := False\<rparr>)"

definition ac_connect :: "ConnectOutcome \<Rightarrow> ModbusAgentClient \<Rightarrow> ModbusAgentClient \<times> unit Result" where
  "ac_connect outcome c =
     (let c1 = ac_disconnect c
      in case sock_connect ''agent connect timeout'' outcome of
           Inl e \<Rightarrow> (c1, Inl e)
         | Inr _ \<Rightarrow> (c1\<lparr>ac_connected := True\<rparr>, Inr ()))"

definition agent_read_frame :: "i64 \<Rightarrow> RecvScript \<Rightarrow> u8 list Result" where
  "agent_read_frame timeout_ms script =
     recv_loop \<lparr>re_timeout = Error.Error Errc.Timeout ''agent reply timeout'', re_poll = sock_error ''poll'',
         re_recv = sock_error ''recv'', re_closed = Error.Error Errc.IoError ''agent disconnected''\<rparr>
       (\<lambda>buffer. case try_decode_modbus_agent_frame buffer of
           (Inr _, consumed) \<Rightarrow> Inr (take consumed buffer) | (Inl e, _) \<Rightarrow> Inl e)
       (rs_start script + timeout_ms * 1000000) [] (rs_steps script)"

definition ac_request :: "ModbusAgentMessage \<Rightarrow> u8 list \<Rightarrow> ModbusAgentClient \<Rightarrow> ModbusAgentFrame" where
  "ac_request request_type payload c =
     \<lparr>af_type = request_type, af_sequence = ac_next_sequence c, af_payload = payload\<rparr>"

definition ac_exchange ::
  "ModbusAgentMessage \<Rightarrow> ModbusAgentMessage \<Rightarrow> u8 list \<Rightarrow> i64 \<Rightarrow> WriteCall list \<Rightarrow> RecvScript \<Rightarrow>
     ModbusAgentClient \<Rightarrow> ModbusAgentClient \<times> ModbusIoSnapshot Result" where
  "ac_exchange request_type ack_type payload timeout_ms sends script c =
     (if \<not> ac_connected c then (c, Inl (Error.Error Errc.NotOpen ''agent client not connected''))
      else
        let request = ac_request request_type payload c;
            c1 = c\<lparr>ac_next_sequence := ac_next_sequence c + 1\<rparr>
        in (c1, case encode_modbus_agent_frame request of
             None \<Rightarrow> Inl (Error.Error Errc.InvalidArgument ''failed to encode agent request'')
           | Some wire \<Rightarrow>
               (case write_all wire sends of
                  Inl e \<Rightarrow> Inl e
                | Inr _ \<Rightarrow>
                    (case agent_read_frame timeout_ms script of
                       Inl e \<Rightarrow> Inl e
                     | Inr raw \<Rightarrow>
                         (case fst (try_decode_modbus_agent_frame raw) of
                            Inl e \<Rightarrow> Inl e
                          | Inr frame \<Rightarrow>
                              if af_type frame = ModbusAgentMessage.Error then Inl (Error.Error Errc.Rejected ''agent returned ERROR'')
                              else if af_type frame \<noteq> ack_type then Inl (Error.Error Errc.Rejected ''unexpected agent message'')
                              else decode_probe_ack_payload (af_payload frame))))))"

definition ac_probe where
  "ac_probe = ac_exchange ModbusAgentMessage.Probe ModbusAgentMessage.ProbeAck []"

definition ac_read_inputs where
  "ac_read_inputs = ac_exchange ModbusAgentMessage.ReadDi ModbusAgentMessage.ReadDiAck []"

definition ac_write_output where
  "ac_write_output channel active =
     ac_exchange ModbusAgentMessage.WriteDo ModbusAgentMessage.WriteDoAck (encode_write_do_payload channel active)"

definition ac_write_all_outputs_off where
  "ac_write_all_outputs_off = ac_exchange ModbusAgentMessage.AllOff ModbusAgentMessage.AllOffAck []"

section \<open>Framing\<close>

definition agent_wire :: "ModbusAgentFrame \<Rightarrow> u8 list" where
  "agent_wire f = envelope kModbusAgentMagic kModbusAgentVersion (ModbusAgentMessage_code (af_type f)) 0 0 (af_sequence f) (af_payload f)"

lemma encode_agent_eq:
  "encode_modbus_agent_frame f = (if length (af_payload f) \<le> kModbusAgentMaxPayload then Some (agent_wire f) else None)"
  by (simp add: encode_modbus_agent_frame_def agent_wire_def envelope_def envelope_header_def Let_def append_le_eq)

lemma decode_agent_scan:
  "try_decode_modbus_agent_frame b =
     (case env_scan kModbusAgentMagic kModbusAgentVersion kModbusAgentMaxPayload b of
        ScanShort \<Rightarrow> (Inl (Error.Error Errc.WouldBlock ''need more agent bytes''), 0)
      | ScanMagic \<Rightarrow> (Inl (Error.Error Errc.Rejected ''bad agent magic''), 0)
      | ScanVersion \<Rightarrow> (Inl (Error.Error Errc.Unsupported ''unsupported agent version''), 0)
      | ScanLarge \<Rightarrow> (Inl (Error.Error Errc.InvalidArgument ''agent payload too large''), 0)
      | ScanPartial \<Rightarrow> (Inl (Error.Error Errc.WouldBlock ''need more agent bytes''), 0)
      | ScanCrc \<Rightarrow> (Inl (Error.Error Errc.Rejected ''agent CRC mismatch''), 0)
      | ScanFrame k s p n \<Rightarrow> (Inr \<lparr>af_type = ModbusAgentMessage_of_code k, af_sequence = s, af_payload = p\<rparr>, n))"
  unfolding try_decode_modbus_agent_frame_def env_scan_def Let_def kModbusAgentHeaderSize_def kModbusAgentCrcSize_def
  by (simp add: add.commute add.left_commute)

definition agent_enc :: "ModbusAgentFrame \<Rightarrow> u8 list option" where
  "agent_enc f = (if named_ModbusAgentMessage (af_type f) then encode_modbus_agent_frame f else None)"

definition agent_pop :: "u8 list \<Rightarrow> ModbusAgentFrame pop" where
  "agent_pop b = (case try_decode_modbus_agent_frame b of
      (Inr f, n) \<Rightarrow> Popped f (drop n b)
    | (Inl e, _) \<Rightarrow> if err_code e = Errc.WouldBlock then pop.NeedMore else Broken)"

lemma agent_decode_wire:
  "agent_enc f = Some w \<Longrightarrow> try_decode_modbus_agent_frame (w @ rest) = (Inr f, length w)"
  unfolding agent_enc_def encode_agent_eq agent_wire_def
  by (auto simp: decode_agent_scan env_scan_wire kModbusAgentMaxPayload_def split: if_splits)

lemma agent_decode_prefix:
  "agent_enc f = Some w \<Longrightarrow> strict_prefix p w \<Longrightarrow>
     try_decode_modbus_agent_frame p = (Inl (Error.Error Errc.WouldBlock ''need more agent bytes''), 0)"
proof -
  assume "agent_enc f = Some w" and p: "strict_prefix p w"
  then have w: "w = agent_wire f" "length (af_payload f) \<le> kModbusAgentMaxPayload"
    by (auto simp: agent_enc_def encode_agent_eq split: if_splits)
  have "env_scan kModbusAgentMagic kModbusAgentVersion kModbusAgentMaxPayload p = ScanShort \<or>
      env_scan kModbusAgentMagic kModbusAgentVersion kModbusAgentMaxPayload p = ScanPartial"
    by (rule env_scan_prefix [OF w(2) _ p [unfolded w(1) agent_wire_def]]) (simp add: kModbusAgentMaxPayload_def)
  then show ?thesis by (auto simp: decode_agent_scan)
qed

interpretation ags: frame_stream agent_enc agent_pop
proof
  show "agent_pop [] = pop.NeedMore" by (simp add: agent_pop_def decode_agent_scan env_scan_def)
next
  fix f w assume w: "agent_enc f = Some w"
  then show "w \<noteq> []" by (auto simp: agent_enc_def encode_agent_eq agent_wire_def split: if_splits dest: arg_cong [of _ _ length])
  show "agent_pop (w @ rest) = Popped f rest" for rest
    using agent_decode_wire [OF w] by (simp add: agent_pop_def)
  show "strict_prefix p w \<Longrightarrow> agent_pop p = pop.NeedMore" for p
    using agent_decode_prefix [OF w] by (simp add: agent_pop_def)
qed

lemma agent_request_delivered:
  "agent_enc f = Some w \<Longrightarrow> delivers timeout_ms w script \<Longrightarrow> agent_read_request timeout_ms script = Inr f"
  unfolding agent_read_request_def
  using agent_decode_wire [of f w "[]"] agent_decode_prefix [of f w] ags.enc_nonempty [of f w]
  by (intro recv_loop_delivered) auto

lemma agent_reply_delivered:
  "agent_enc f = Some w \<Longrightarrow> delivers timeout_ms w script \<Longrightarrow> agent_read_frame timeout_ms script = Inr w"
  unfolding agent_read_frame_def
  using agent_decode_wire [of f w "[]"] agent_decode_prefix [of f w] ags.enc_nonempty [of f w]
  by (intro recv_loop_delivered) auto

section \<open>The acknowledgement payload\<close>

lemma read_lp_appended:
  assumes "drop off inp = of_nat (min (length v) 255) # map char_u8 (take (min (length v) 255) v) @ rest"
  shows "\<exists>off'. read_lp_string inp off = Inr (take 255 v, off') \<and> drop off' inp = rest"
proof -
  let ?n = "min (length v) 255"
  have n: "unat (of_nat ?n :: u8) = ?n" by (simp add: unat_of_nat)
  have lt: "off < length inp" using assms by (metis drop_all list.distinct(1) not_le)
  have at: "inp ! off = of_nat ?n" using assms lt by (metis nth_via_drop)
  have d1: "drop (off + 1) inp = map char_u8 (take ?n v) @ rest"
    using assms by (metis Suc_eq_plus1 drop_Suc list.sel(3) tl_drop)
  have len: "length inp = off + 1 + ?n + length rest" using arg_cong [OF assms, of length] lt by simp
  have "drop (off + 1 + ?n) inp = rest" using arg_cong [OF d1, of "drop ?n"] by (simp add: add.commute)
  moreover have "read_lp_string inp off = Inr (take 255 v, off + 1 + ?n)"
    unfolding read_lp_string_def Let_def at n d1 using lt len by (simp add: min_def)
  ultimately show ?thesis by blast
qed

definition lp_all :: "string list \<Rightarrow> u8 list" where
  "lp_all vs = concat (map (\<lambda>v. of_nat (min (length v) 255) # map char_u8 (take (min (length v) 255) v)) vs)"

lemma read_lp_strings_all:
  "drop off inp = lp_all vs \<Longrightarrow> read_lp_strings (length vs) inp off = Inr (map (take 255) vs)"
proof (induction vs arbitrary: off)
  case (Cons v vs)
  then obtain off' where "read_lp_string inp off = Inr (take 255 v, off')" "drop off' inp = lp_all vs"
    using read_lp_appended [of off inp v "lp_all vs"] by (auto simp: lp_all_def)
  then show ?case using Cons.IH [of off'] by simp
qed simp

text \<open>What the receiver of an acknowledgement sees of the agent's snapshot.\<close>

definition agent_view :: "ModbusIoSnapshot \<Rightarrow> ModbusIoSnapshot" where
  "agent_view s = io_default\<lparr>io_backend := ''PHYSICAL'', io_evidence := EvidenceClass.Physical, io_no_physical_rs485 := False,
     io_transport := ''Modbus RTU'', io_device_state := io_device_state s, io_slave_id := io_slave_id s,
     io_digital_inputs := map2 (\<lambda>c i. i\<lparr>di_channel := of_nat c\<rparr>) [0..<kModbusIoChannelCount] (io_digital_inputs s),
     io_digital_outputs := map2 (\<lambda>c d. d\<lparr>do_channel := of_nat c\<rparr>) [0..<kModbusIoChannelCount] (io_digital_outputs s),
     io_baud_rate := io_baud_rate s, io_baud_rate_placeholder := io_baud_rate s,
     io_parity := parity_string (if io_parity s = ''None'' \<or> io_parity s = [] then CHR ''N'' else hd (io_parity s)),
     io_parity_placeholder := parity_string (if io_parity s = ''None'' \<or> io_parity s = [] then CHR ''N'' else hd (io_parity s)),
     io_last_command_status := io_last_command_status s,
     io_serial_port := take 255 (io_serial_port s), io_sku := take 255 (io_sku s), io_last_error := take 255 (io_last_error s),
     io_last_transaction := transaction_default\<lparr>mt_rtt_ns := uint (rtt_ms (mt_rtt_ns (io_last_transaction s))) * 1000000,
        mt_function := mt_function (io_last_transaction s), mt_tx_hex := take 255 (mt_tx_hex (io_last_transaction s)),
        mt_rx_hex := take 255 (mt_rx_hex (io_last_transaction s)), mt_result := take 255 (mt_result (io_last_transaction s)),
        mt_slave_id := io_slave_id s\<rparr>,
     io_scan_state := (if io_device_state s = ModbusDeviceState.Online then ModbusScanState.Complete else ModbusScanState.Error)\<rparr>"

definition io_typed :: "ModbusIoSnapshot \<Rightarrow> bool" where
  "io_typed s \<longleftrightarrow> length (io_digital_inputs s) = kModbusIoChannelCount \<and> length (io_digital_outputs s) = kModbusIoChannelCount \<and>
     named_ModbusDeviceState (io_device_state s) \<and> named_ModbusIoCommandStatus (io_last_command_status s) \<and>
     list_all (\<lambda>d. named_ModbusIoCommandStatus (do_last_status d)) (io_digital_outputs s)"

definition ack_fixed_bytes :: "ModbusIoSnapshot \<Rightarrow> u8 list" where
  "ack_fixed_bytes s =
     [ModbusDeviceState_code (io_device_state s), io_slave_id s, of_nat kModbusIoChannelCount] @
     map (\<lambda>i. if di_active i then 1 else 0) (io_digital_inputs s) @
     concat (map (\<lambda>d. [if do_requested d then 1 else 0, if do_confirmed d then 1 else 0,
        ModbusIoCommandStatus_code (do_last_status d)]) (io_digital_outputs s)) @
     le_bytes 4 (io_baud_rate s) @ [parity_byte (io_parity s)] @ le_bytes 4 (rtt_ms (mt_rtt_ns (io_last_transaction s))) @
     [ModbusIoCommandStatus_code (io_last_command_status s), mt_function (io_last_transaction s)]"

definition ack_strings :: "ModbusIoSnapshot \<Rightarrow> string list" where
  "ack_strings s = [io_serial_port s, io_sku s, io_last_error s, mt_tx_hex (io_last_transaction s),
     mt_rx_hex (io_last_transaction s), mt_result (io_last_transaction s)]"

lemma encode_ack_split: "encode_probe_ack_payload s = ack_fixed_bytes s @ lp_all (ack_strings s)"
  by (simp add: encode_probe_ack_payload_def ack_fixed_bytes_def ack_strings_def lp_all_def append_lp_string_def Let_def append_le_eq)

lemma four_elements: "length xs = kModbusIoChannelCount \<Longrightarrow> \<exists>a b c d. xs = [a, b, c, d]"
  by (auto simp: kModbusIoChannelCount_def numeral_eq_Suc length_Suc_conv)

lemma ack_layout:
  assumes "io_typed s"
  obtains i0 i1 i2 i3 d0 d1 d2 d3 where
    "io_digital_inputs s = [i0, i1, i2, i3]" "io_digital_outputs s = [d0, d1, d2, d3]"
  using assms that four_elements [of "io_digital_inputs s"] four_elements [of "io_digital_outputs s"]
  unfolding io_typed_def by metis

lemma ack_base_view:
  assumes "io_typed s"
  shows "probe_ack_base (ack_fixed_bytes s @ t) = (agent_view s)\<lparr>io_serial_port := ''NOT CONNECTED'', io_sku := [], io_last_error := [],
     io_scan_state := ModbusScanState.Unknown,
     io_last_transaction := transaction_default\<lparr>mt_rtt_ns := uint (rtt_ms (mt_rtt_ns (io_last_transaction s))) * 1000000,
        mt_function := mt_function (io_last_transaction s)\<rparr>\<rparr>"
proof -
  obtain i0 i1 i2 i3 d0 d1 d2 d3 where l: "io_digital_inputs s = [i0, i1, i2, i3]" "io_digital_outputs s = [d0, d1, d2, d3]"
    using assms by (rule ack_layout)
  let ?p = "ack_fixed_bytes s @ t"
  have baud: "read_u32_le ?p 19 = io_baud_rate s"
    by (rule read_u32_le_field) (simp_all add: ack_fixed_bytes_def l)
  have rtt: "read_u32_le ?p 24 = rtt_ms (mt_rtt_ns (io_last_transaction s))"
    by (rule read_u32_le_field) (simp_all add: ack_fixed_bytes_def l)
  have b: "?p ! 0 = ModbusDeviceState_code (io_device_state s)" "?p ! 1 = io_slave_id s"
    "?p ! 23 = parity_byte (io_parity s)" "?p ! 28 = ModbusIoCommandStatus_code (io_last_command_status s)"
    "?p ! 29 = mt_function (io_last_transaction s)"
    by (simp_all add: ack_fixed_bytes_def l nth_append)
  have ins: "map (\<lambda>c. \<lparr>di_channel = of_nat c, di_active = (?p ! (3 + c) \<noteq> 0)\<rparr>) [0..<kModbusIoChannelCount] =
      map2 (\<lambda>c i. i\<lparr>di_channel := of_nat c\<rparr>) [0..<kModbusIoChannelCount] (io_digital_inputs s)"
    by (simp add: ack_fixed_bytes_def l kModbusIoChannelCount_def upt_rec)
  have outs: "map (\<lambda>c. \<lparr>do_channel = of_nat c, do_requested = (?p ! (7 + 3 * c) \<noteq> 0), do_confirmed = (?p ! (8 + 3 * c) \<noteq> 0),
        do_last_status = ModbusIoCommandStatus_of_code (?p ! (9 + 3 * c))\<rparr>) [0..<kModbusIoChannelCount] =
      map2 (\<lambda>c d. d\<lparr>do_channel := of_nat c\<rparr>) [0..<kModbusIoChannelCount] (io_digital_outputs s)"
    using assms by (simp add: io_typed_def ack_fixed_bytes_def l kModbusIoChannelCount_def upt_rec)
  have par: "u8_char (parity_byte (io_parity s)) = (if io_parity s = ''None'' \<or> io_parity s = [] then CHR ''N'' else hd (io_parity s))"
    by (simp add: parity_byte_def hd_conv_nth)
  show ?thesis unfolding probe_ack_base_def Let_def baud rtt b ins outs par
    using assms by (simp add: agent_view_def io_typed_def parity_string_def io_default_def)
qed

lemma length_ack_fixed: "io_typed s \<Longrightarrow> length (ack_fixed_bytes s) = probe_ack_fixed"
  by (erule ack_layout) (simp add: ack_fixed_bytes_def probe_ack_fixed_def kModbusIoChannelCount_def)

lemma probe_ack_roundtrip:
  assumes "io_typed s"
  shows "decode_probe_ack_payload (encode_probe_ack_payload s) = Inr (agent_view s)"
proof -
  let ?p = "ack_fixed_bytes s @ lp_all (ack_strings s)"
  have len: "\<not> length ?p < probe_ack_fixed" using length_ack_fixed [OF assms] by simp
  have count: "?p ! 2 = of_nat kModbusIoChannelCount" by (simp add: ack_fixed_bytes_def)
  have "drop probe_ack_fixed ?p = lp_all (ack_strings s)" using length_ack_fixed [OF assms] by simp
  moreover have "length (ack_strings s) = 6" by (simp add: ack_strings_def)
  ultimately have ss: "read_lp_strings 6 ?p probe_ack_fixed = Inr (map (take 255) (ack_strings s))"
    using read_lp_strings_all by metis
  show ?thesis unfolding encode_ack_split decode_probe_ack_payload_def ss Let_def ack_base_view [OF assms]
    using len count by (simp add: ack_strings_def agent_view_def)
qed

section \<open>The service keeps its snapshot well typed\<close>

lemmas pm_writes = begin_transaction_def apply_fault_def set_exception_def set_rx_def set_output_def response_ok_def

lemma named_constants [simp]:
  "named_ModbusDeviceState ModbusDeviceState.Online" "named_ModbusDeviceState ModbusDeviceState.Timeout"
  "named_ModbusDeviceState ModbusDeviceState.Error" "named_ModbusDeviceState ModbusDeviceState.Unknown"
  "named_ModbusIoCommandStatus ModbusIoCommandStatus.NoStatus" "named_ModbusIoCommandStatus ModbusIoCommandStatus.Confirmed"
  "named_ModbusIoCommandStatus ModbusIoCommandStatus.Timeout" "named_ModbusIoCommandStatus ModbusIoCommandStatus.Exception"
  "named_ModbusIoCommandStatus ModbusIoCommandStatus.Rejected" "named_ModbusIoCommandStatus ModbusIoCommandStatus.InvalidChannel"
  by (simp_all add: named_ModbusDeviceState_def named_ModbusIoCommandStatus_def)

abbreviation pm_typed :: "PhysicalModbusIoService \<Rightarrow> bool" where
  "pm_typed pm \<equiv> io_typed (pm_snapshot pm)"

lemma timed_transact_typed: "timed_transact env tx (pm, b) = ((pm1, b1), rx) \<Longrightarrow> pm_typed pm1 = pm_typed pm"
  unfolding timed_transact_def
  by (auto simp: io_typed_def dest!: pm_transact_frame split: prod.splits)

lemma io_typed_other [simp]:
  "io_typed (s\<lparr>io_last_error := e\<rparr>) = io_typed s" "io_typed (s\<lparr>io_scan_state := st\<rparr>) = io_typed s"
  "io_typed (set_transaction f s) = io_typed s"
  by (simp_all add: io_typed_def)

lemma begin_typed [simp]: "pm_typed (begin_transaction fn a q tx pm) = pm_typed pm"
  and set_rx_typed [simp]: "pm_typed (set_rx rx pm) = pm_typed pm"
  and fault_typed: "pm_typed pm \<Longrightarrow> pm_typed (apply_fault e pm)"
  and exception_typed: "pm_typed pm \<Longrightarrow> pm_typed (set_exception m pm)"
  by (simp_all add: pm_writes) (simp_all add: io_typed_def)

lemma read_inputs_typed:
  "pm_typed (fst st) \<Longrightarrow> pm_typed (fst (fst (read_discrete_inputs env scanning st)))"
proof -
  assume st: "pm_typed (fst st)"
  obtain pm b where s: "st = (pm, b)" by (cases st)
  let ?tx = "encode_rtu_read (pc_slave_id (pm_config pm)) kModbusFnReadDiscreteInputs kMr0IoRegisterStart kMr0IoBitQuantity"
  let ?pm0 = "if scanning then pm_map (\<lambda>s. s\<lparr>io_scan_state := ModbusScanState.Scanning\<rparr>) pm else pm"
  obtain pm1 b1 rx where tt: "timed_transact env ?tx
      (begin_transaction kModbusFnReadDiscreteInputs kMr0IoRegisterStart kMr0IoBitQuantity ?tx ?pm0, b) = ((pm1, b1), rx)"
    by (metis prod.collapse)
  have "pm_typed pm1" using timed_transact_typed [OF tt] st s by simp
  then show ?thesis unfolding s read_discrete_inputs_def Let_def prod.case tt
    by (auto simp: fault_typed exception_typed response_ok_def split: sum.split) (simp add: io_typed_def set_rx_def)
qed

lemma refresh_typed: "pm_typed (fst st) \<Longrightarrow> pm_typed (fst (fst (refresh_coils env st)))"
proof -
  assume st: "pm_typed (fst st)"
  obtain pm b where s: "st = (pm, b)" by (cases st)
  let ?tx = "encode_rtu_read (pc_slave_id (pm_config pm)) kModbusFnReadCoils kMr0IoRegisterStart kMr0IoBitQuantity"
  obtain pm1 b1 rx where tt: "timed_transact env ?tx
      (begin_transaction kModbusFnReadCoils kMr0IoRegisterStart kMr0IoBitQuantity ?tx pm, b) = ((pm1, b1), rx)"
    by (metis prod.collapse)
  have "pm_typed pm1" using timed_transact_typed [OF tt] st s by simp
  then show ?thesis unfolding s refresh_coils_def Let_def prod.case tt
    by (auto simp: response_ok_def split: sum.split) (simp add: io_typed_def set_rx_def list_all_iff)
qed

lemma set_output_typed:
  assumes "pm_typed pm" and "\<And>d. named_ModbusIoCommandStatus (do_last_status d) \<Longrightarrow> named_ModbusIoCommandStatus (do_last_status (f d))"
    and "c < kModbusIoChannelCount"
  shows "pm_typed (set_output c f pm)"
  using assms by (auto simp: io_typed_def set_output_def update_output_def list_all_iff dest!: set_update_subset_insert [THEN subsetD])

lemma write_output_typed: "pm_typed (fst st) \<Longrightarrow> pm_typed (fst (fst (pm_write_output env c v st)))"
proof (cases "c < kModbusIoChannelCount")
  case False
  assume "pm_typed (fst st)"
  then show ?thesis using False by (cases st) (simp add: pm_write_output_def, simp add: io_typed_def)
next
  case c: True
  assume st: "pm_typed (fst st)"
  obtain pm b where s: "st = (pm, b)" by (cases st)
  let ?tx = "encode_rtu_write_single_coil (pc_slave_id (pm_config pm)) (of_nat c) v"
  let ?pm0 = "set_output c (\<lambda>out. out\<lparr>do_requested := v, do_last_status := ModbusIoCommandStatus.NoStatus\<rparr>) pm"
  obtain pm1 b1 rx where tt: "timed_transact env ?tx
      (begin_transaction kModbusFnWriteSingleCoil (of_nat c) 1 ?tx ?pm0, b) = ((pm1, b1), rx)"
    by (metis prod.collapse)
  have pm1: "pm_typed pm1" using timed_transact_typed [OF tt] st s c by (simp add: set_output_typed)
  have status: "named_ModbusIoCommandStatus (io_last_command_status (pm_snapshot (apply_fault e pm1)))" for e
    using fault_typed [OF pm1] by (simp add: io_typed_def)
  have finished: "pm_typed pm' \<Longrightarrow> io_typed (response_ok ((pm_snapshot pm')\<lparr>io_scan_state := ModbusScanState.Complete,
      io_device_state := ModbusDeviceState.Online, io_last_command_status := ModbusIoCommandStatus.Confirmed\<rparr>))" for pm'
    by (simp add: response_ok_def) (simp add: io_typed_def)
  show ?thesis using pm1 c unfolding s pm_write_output_def Let_def prod.case tt
    by (auto intro!: set_output_typed finished fault_typed exception_typed status split: sum.split)
qed

lemma all_off_typed: "pm_typed (fst st) \<Longrightarrow> pm_typed (fst (fst (pm_all_off_from env cs prev st)))"
proof (induction cs arbitrary: prev st)
  case (Cons c cs)
  note t1 = write_output_typed [OF Cons.prems, of env c False]
  show ?case
  proof (cases "pm_write_output env c False st")
    case (Pair st1 r)
    with t1 Cons.IH show ?thesis by (cases r) simp_all
  qed
qed simp

lemma probe_typed: "pm_typed (fst st) \<Longrightarrow> pm_typed (fst (fst (pm_probe env st)))"
proof (cases "read_discrete_inputs env True st")
  case (Pair st1 r)
  assume "pm_typed (fst st)"
  then have t1: "pm_typed (fst st1)" using read_inputs_typed [of st env True] Pair by simp
  obtain pm2 b2 coils where rc: "refresh_coils env st1 = ((pm2, b2), coils)" by (metis prod.collapse)
  have "pm_typed pm2" using refresh_typed [OF t1, of env] rc by simp
  then show ?thesis using t1 Pair rc
    by (cases r; cases coils) (simp_all add: pm_probe_def Let_def, simp_all add: io_typed_def)
qed

lemma init_typed: "pm_typed (pm_init c)"
  by (simp add: pm_init_def apply_device_identity_def number_channels_def io_default_def io_typed_def kModbusIoChannelCount_def
    output_default_def upt_rec)

lemma pm_step_typed: "pm_typed (fst st) \<Longrightarrow> pm_typed (fst (pm_step env op st))"
  by (cases op) (simp_all add: probe_typed read_inputs_typed write_output_typed all_off_typed pm_read_inputs_def
    pm_write_all_outputs_off_def, simp add: pm_disconnect_def io_typed_def)

interpretation pmm: machine "pm_step env" "\<lambda>st. pm_typed (fst st)"
  by unfold_locales (rule pm_step_typed)

section \<open>Client, server and device together\<close>

text \<open>The request and acknowledgement that carry an operation of the service.\<close>

fun agent_call :: "PhysicalOp \<Rightarrow> (ModbusAgentMessage \<times> ModbusAgentMessage \<times> u8 list) option" where
  "agent_call PmProbe = Some (ModbusAgentMessage.Probe, ModbusAgentMessage.ProbeAck, [])"
| "agent_call PmReadInputs = Some (ModbusAgentMessage.ReadDi, ModbusAgentMessage.ReadDiAck, [])"
| "agent_call (PmWriteOutput c v) =
     (if c < 256 then Some (ModbusAgentMessage.WriteDo, ModbusAgentMessage.WriteDoAck, encode_write_do_payload (of_nat c) v) else None)"
| "agent_call PmAllOff = Some (ModbusAgentMessage.AllOff, ModbusAgentMessage.AllOffAck, [])"
| "agent_call PmDisconnect = None"

lemma agent_call_handled:
  assumes "agent_call op = Some (rt, ack, payload)" and "af_type req = rt" and "af_payload req = payload"
  shows "agent_handle_request env req st =
     (pm_step env op st, \<lparr>af_type = ack, af_sequence = af_sequence req,
        af_payload = encode_probe_ack_payload (pm_snapshot (fst (pm_step env op st)))\<rparr>)"
proof (cases op)
  case (PmWriteOutput ch v)
  then have "ch < 256" "rt = ModbusAgentMessage.WriteDo" "ack = ModbusAgentMessage.WriteDoAck"
    "af_payload req = [of_nat ch, if v then 1 else 0]"
    using assms by (auto simp: encode_write_do_payload_def split: if_splits)
  then show ?thesis using assms(2) PmWriteOutput
    by (simp add: agent_handle_request_def Let_def decode_write_do_payload_def unat_of_nat)
qed (use assms in \<open>auto simp: agent_handle_request_def Let_def\<close>)

lemma agent_call_named:
  "agent_call op = Some (rt, ack, payload) \<Longrightarrow>
     named_ModbusAgentMessage rt \<and> named_ModbusAgentMessage ack \<and> ack \<noteq> ModbusAgentMessage.Error \<and> length payload \<le> kModbusAgentMaxPayload"
  by (cases op) (auto simp: named_ModbusAgentMessage_def encode_write_do_payload_def kModbusAgentMaxPayload_def split: if_splits)

lemma agent_exchange_state:
  assumes call: "agent_call op = Some (rt, ack, payload)" and conn: "ac_connected c" and sends: "no_write_failure sends"
    and req: "encode_modbus_agent_frame (ac_request rt payload c) = Some w"
    and turn: "delivers (if served then 5000 else 1000) w (at_recv t)"
    and serve: "agent_serve env served [t] st = (st', [reply], r)" and reply: "delivers timeout_ms reply script"
    and typed: "pm_typed (fst st)"
  shows "st' = pm_step env op st \<and> snd (ac_exchange rt ack payload timeout_ms sends script c) = Inr (agent_view (pm_snapshot (fst st')))"
proof -
  let ?req = "ac_request rt payload c"
  let ?st1 = "pm_step env op st"
  let ?ans = "\<lparr>af_type = ack, af_sequence = af_sequence ?req, af_payload = encode_probe_ack_payload (pm_snapshot (fst ?st1))\<rparr>"
  note named = agent_call_named [OF call]
  have "agent_enc ?req = Some w" using req named by (simp add: agent_enc_def ac_request_def)
  then have rr: "agent_read_request (if served then 5000 else 1000) (at_recv t) = Inr ?req"
    using agent_request_delivered turn by blast
  have hr: "agent_handle_request env ?req st = (?st1, ?ans)"
    by (rule agent_call_handled [OF call]) (simp_all add: ac_request_def)
  have st': "st' = ?st1" and enc: "encode_modbus_agent_frame ?ans = Some reply"
    using serve unfolding agent_serve.simps rr sum.case hr prod.case
    by (auto split: option.splits sum.splits)
  have ans: "agent_enc ?ans = Some reply" using enc named by (simp add: agent_enc_def)
  have rf: "agent_read_frame timeout_ms script = Inr reply" using agent_reply_delivered [OF ans reply] .
  have dec: "try_decode_modbus_agent_frame reply = (Inr ?ans, length reply)" using agent_decode_wire [OF ans, of "[]"] by simp
  have "pm_typed (fst ?st1)" by (rule pm_step_typed [OF typed])
  then have "decode_probe_ack_payload (af_payload ?ans) = Inr (agent_view (pm_snapshot (fst ?st1)))"
    by (simp add: probe_ack_roundtrip)
  then show ?thesis unfolding ac_exchange_def Let_def
    using conn req write_all_ok [OF sends, of w] rf dec named st' by simp
qed

text \<open>
  C28. Across client, server, service and device, what the client is told is
  confirmed is what the device has. Take any connected client and any operation,
  a server whose service has executed any operations since its construction, and
  a device that behaves as its protocol says. If the request bytes reach the
  server and the server's reply bytes reach the client, in any fragmentation,
  then the operation was executed exactly once, the client gets the agent's view
  of the resulting snapshot, and each channel it sees with status Confirmed has
  the value of the coil.
\<close>
theorem agent_exchange_honest:
  assumes "honest_slave env (pc_slave_id cfg) coil" and "st = fold (pm_step env) ops (pm_init cfg, b)"
    and "agent_call op = Some (rt, ack, payload)" and "ac_connected c" and "no_write_failure sends"
    and "encode_modbus_agent_frame (ac_request rt payload c) = Some w"
    and "delivers (if served then 5000 else 1000) w (at_recv t)"
    and "agent_serve env served [t] st = (st', [reply], r)" and "delivers timeout_ms reply script"
  shows "st' = pm_step env op st \<and>
    (\<exists>s. snd (ac_exchange rt ack payload timeout_ms sends script c) = Inr s \<and> s = agent_view (pm_snapshot (fst st')) \<and>
       (\<forall>ch<kModbusIoChannelCount. do_last_status (io_digital_outputs s ! ch) = ModbusIoCommandStatus.Confirmed \<longrightarrow>
          do_confirmed (io_digital_outputs s ! ch) = coil (snd st') ch))"
proof -
  have "pm_typed (fst st)" unfolding assms(2) by (rule pmm.run_inv) (simp add: init_typed)
  note ex = agent_exchange_state [OF assms(3-9) this]
  have "coil_truth (pc_slave_id cfg) coil x \<Longrightarrow> coil_truth (pc_slave_id cfg) coil (fold (pm_step env) ops x)" for x
    by (induction ops arbitrary: x) (simp, simp only: fold_Cons comp_apply pm_step_truth [OF assms(1)])
  from this [OF init_truth, of b] have "coil_truth (pc_slave_id cfg) coil st'"
    using ex assms(2) pm_step_truth [OF assms(1)] by simp
  then have "\<forall>ch<kModbusIoChannelCount. do_last_status (io_digital_outputs (agent_view (pm_snapshot (fst st'))) ! ch) = ModbusIoCommandStatus.Confirmed \<longrightarrow>
      do_confirmed (io_digital_outputs (agent_view (pm_snapshot (fst st'))) ! ch) = coil (snd st') ch"
    by (simp add: coil_truth_def agent_view_def)
  then show ?thesis using ex by auto
qed

lemma length_lp_all: "length (lp_all vs) = sum_list (map (\<lambda>v. 1 + min (length v) 255) vs)"
  by (induction vs) (simp_all add: lp_all_def)

text \<open>An acknowledgement fits its frame exactly when its six strings, cut at 255 bytes, take at most 220 bytes.\<close>

lemma ack_fits:
  "io_typed s \<Longrightarrow> length (encode_probe_ack_payload s) \<le> kModbusAgentMaxPayload \<longleftrightarrow>
     sum_list (map (\<lambda>v. min (length v) 255) (ack_strings s)) \<le> 220"
  by (simp add: encode_ack_split length_ack_fixed length_lp_all probe_ack_fixed_def kModbusIoChannelCount_def
    kModbusAgentMaxPayload_def ack_strings_def)

lemma length_bytes_to_hex [simp]: "length (bytes_to_hex data) = 2 * length data"
  by (induction data) (simp_all add: bytes_to_hex_def)

abbreviation example_service :: "PhysicalModbusIoService \<times> (nat \<Rightarrow> bool)" where
  "example_service \<equiv> (pm_init physical_config_default, \<lambda>_. False)"

abbreviation example_client :: ModbusAgentClient where
  "example_client \<equiv> \<lparr>ac_connected = True, ac_next_sequence = 1\<rparr>"

abbreviation example_reply :: ModbusAgentFrame where
  "example_reply \<equiv> \<lparr>af_type = ModbusAgentMessage.WriteDoAck, af_sequence = 1,
     af_payload = encode_probe_ack_payload (pm_snapshot (fst (pm_step example_rtu (PmWriteOutput 2 True) example_service)))\<rparr>"

abbreviation one_chunk :: "u8 list \<Rightarrow> RecvScript" where
  "one_chunk w \<equiv> \<lparr>rs_start = 0, rs_steps = [example_step (ReadBytes w)]\<rparr>"

abbreviation example_turn :: AgentTurn where
  "example_turn \<equiv> \<lparr>at_recv = one_chunk (agent_wire (ac_request ModbusAgentMessage.WriteDo [2, 1] example_client)), at_sends = []\<rparr>"

lemma agent_wire_nonempty: "agent_wire f \<noteq> []"
  by (auto simp: agent_wire_def dest: arg_cong [of _ _ length])

lemma one_chunk_delivers: "w \<noteq> [] \<Longrightarrow> 1 < timeout_ms \<Longrightarrow> delivers timeout_ms w (one_chunk w)"
  by (simp add: delivers_def in_time_def step_bytes_def example_step_def)

lemma example_fits: "length (af_payload example_reply) \<le> kModbusAgentMaxPayload"
proof -
  have "pm_typed (fst (pm_step example_rtu (PmWriteOutput 2 True) example_service))"
    by (rule pm_step_typed) (simp add: init_typed)
  moreover have "sum_list (map (\<lambda>v. min (length v) 255)
      (ack_strings (pm_snapshot (fst (pm_step example_rtu (PmWriteOutput 2 True) example_service))))) \<le> 220"
    using coil_echo_confirms [of 1 2 True]
    by (simp add: ack_strings_def pm_write_output_def kModbusIoChannelCount_def pm_init_def apply_device_identity_def number_channels_def
      io_default_def output_default_def physical_config_default_def timed_transact_def now_ns_or_zero_def pm_transact_def
      example_rtu_def example_slave_def Let_def begin_transaction_def set_output_def update_output_def set_rx_def
      nth_Cons encode_rtu_write_single_coil_def set_transaction_def response_ok_def transaction_default_def)
  ultimately show ?thesis by (simp add: ack_fits)
qed

theorem agent_exchange_honest_witness:
  "\<exists>s. snd (ac_write_output 2 True 1000 [] (one_chunk (agent_wire example_reply)) example_client) = Inr s \<and>
     s = agent_view (pm_snapshot (fst (pm_step example_rtu (PmWriteOutput 2 True) example_service)))"
proof -
  let ?w = "agent_wire (ac_request ModbusAgentMessage.WriteDo [2, 1] example_client)"
  have call: "agent_call (PmWriteOutput 2 True) = Some (ModbusAgentMessage.WriteDo, ModbusAgentMessage.WriteDoAck, [2, 1])"
    by (simp add: encode_write_do_payload_def)
  have req: "encode_modbus_agent_frame (ac_request ModbusAgentMessage.WriteDo [2, 1] example_client) = Some ?w"
    by (simp add: encode_agent_eq ac_request_def kModbusAgentMaxPayload_def)
  then have "agent_enc (ac_request ModbusAgentMessage.WriteDo [2, 1] example_client) = Some ?w"
    by (simp add: agent_enc_def ac_request_def named_ModbusAgentMessage_def)
  then have rr: "agent_read_request 1000 (at_recv example_turn) = Inr (ac_request ModbusAgentMessage.WriteDo [2, 1] example_client)"
    using agent_request_delivered one_chunk_delivers [OF agent_wire_nonempty, of 1000] by simp
  have serve: "agent_serve example_rtu False [example_turn] example_service =
      (pm_step example_rtu (PmWriteOutput 2 True) example_service, [agent_wire example_reply], Inr ())"
    using rr agent_call_handled [OF call, of "ac_request ModbusAgentMessage.WriteDo [2, 1] example_client" example_rtu example_service] example_fits
    by (simp add: ac_request_def encode_agent_eq write_all_def)
  show ?thesis
    using agent_exchange_honest [OF _ _ call _ _ req _ serve, of physical_config_default "\<lambda>k. k" "[]" "\<lambda>_. False" "[]" 1000
        "one_chunk (agent_wire example_reply)"] example_honest
    by (simp add: ac_write_output_def encode_write_do_payload_def no_write_failure_def one_chunk_delivers agent_wire_nonempty
      physical_config_default_def)
qed

end
