(* ===== verification/Cli_Text.thy ===== *)
theory Cli_Text
  imports App_Model
begin

text \<open>
  Numbers on a command line. The programs parse them with \<^verbatim>\<open>std::stoul\<close>
  (\<^verbatim>\<open>rcr_cell_app.cpp\<close>, \<^verbatim>\<open>rcr_modbus_rtu_agent.cpp\<close>), \<^verbatim>\<open>std::stoll\<close> (\<^verbatim>\<open>rcrd.cpp\<close>, \<^verbatim>\<open>rcr_node_sim.cpp\<close>)
  or \<^verbatim>\<open>std::from_chars\<close> (\<^verbatim>\<open>rcr_multibus_observer.cpp\<close>, \<^verbatim>\<open>mbus_sensor_server.cpp\<close>), and refuse text that is
  not consumed whole. The lemmas show that each parser reads back a printed number.
\<close>

section \<open>Digits\<close>

definition is_space :: "char \<Rightarrow> bool" where
  "is_space c \<longleftrightarrow> (of_char c :: nat) = 32 \<or> 9 \<le> (of_char c :: nat) \<and> (of_char c :: nat) \<le> 13"

definition is_digit :: "char \<Rightarrow> bool" where
  "is_digit c \<longleftrightarrow> 48 \<le> (of_char c :: nat) \<and> (of_char c :: nat) \<le> 57"

definition digits_value :: "string \<Rightarrow> nat" where
  "digits_value ds = foldl (\<lambda>n c. 10 * n + (of_char c - 48)) 0 ds"

text \<open>
  The subject of \<^verbatim>\<open>strtoul\<close> and \<^verbatim>\<open>strtoll\<close> in base ten: blanks, an optional sign, digits.
  The result is whether there is a minus sign, the digits and the number of characters used.
\<close>

definition scan_number :: "string \<Rightarrow> bool \<times> string \<times> nat" where
  "scan_number text =
     (let blanks = takeWhile is_space text; rest = dropWhile is_space text;
          sign = (case rest of c # _ \<Rightarrow> c = CHR ''+'' \<or> c = CHR ''-'' | [] \<Rightarrow> False);
          ds = takeWhile is_digit (if sign then tl rest else rest)
      in (rest \<noteq> [] \<and> hd rest = CHR ''-'', ds, length blanks + (if sign then 1 else 0) + length ds))"

section \<open>Parsers\<close>

text \<open>
  \<^verbatim>\<open>std::stoul\<close>: a minus sign wraps modulo two to the 64; \<open>None\<close> is an exception. The
  second component is the number of characters used.
\<close>

definition stoul :: "string \<Rightarrow> (nat \<times> nat) option" where
  "stoul text =
     (case scan_number text of (negative, ds, used) \<Rightarrow>
        let v = digits_value ds
        in if ds = [] \<or> v \<ge> 2 ^ 64 then None
           else Some (if negative \<and> v \<noteq> 0 then 2 ^ 64 - v else v, used))"

definition parse_u32 :: "string \<Rightarrow> u32 option" where
  "parse_u32 text =
     (case stoul text of
        None \<Rightarrow> None
      | Some (parsed, used) \<Rightarrow> if used \<noteq> length text \<or> parsed > 0xFFFFFFFF then None else Some (of_nat parsed))"

definition stoll :: "string \<Rightarrow> (i64 \<times> nat) option" where
  "stoll text =
     (case scan_number text of (negative, ds, used) \<Rightarrow>
        let v = (if negative then - int (digits_value ds) else int (digits_value ds))
        in if ds = [] \<or> v < - (2 ^ 63) \<or> v \<ge> 2 ^ 63 then None else Some (v, used))"

definition parse_i64 :: "string \<Rightarrow> i64 option" where
  "parse_i64 text =
     (case stoll text of None \<Rightarrow> None | Some (v, used) \<Rightarrow> if used = length text then Some v else None)"

text \<open>\<^verbatim>\<open>std::from_chars\<close> takes no blanks and no plus sign.\<close>

definition from_chars_i64 :: "string \<Rightarrow> i64 option" where
  "from_chars_i64 text =
     (let negative = (text \<noteq> [] \<and> hd text = CHR ''-''); ds = (if negative then tl text else text);
          v = (if negative then - int (digits_value ds) else int (digits_value ds))
      in if ds = [] \<or> \<not> list_all is_digit ds \<or> v < - (2 ^ 63) \<or> v \<ge> 2 ^ 63 then None else Some v)"

text \<open>A number in a closed range, the test that follows nearly every parse.\<close>

definition parse_in :: "i64 \<Rightarrow> i64 \<Rightarrow> string \<Rightarrow> i64 option" where
  "parse_in lo hi text =
     (case parse_i64 text of None \<Rightarrow> None | Some v \<Rightarrow> if v < lo \<or> v > hi then None else Some v)"

lemma parse_in_range: "parse_in lo hi text = Some v \<Longrightarrow> lo \<le> v \<and> v \<le> hi"
  by (auto simp: parse_in_def split: option.splits if_splits)

section \<open>Printed numbers are read back\<close>

lemma of_char_digit: "d < 10 \<Longrightarrow> (of_char (char_of (48 + d) :: char) :: nat) = 48 + d"
  by simp

lemma nat_to_string_value: "digits_value (nat_to_string n) = n"
proof (induction n rule: nat_to_string.induct)
  case (1 n)
  have d: "(of_char (char_of (48 + n mod 10) :: char) :: nat) = 48 + n mod 10" by (rule of_char_digit) simp
  show ?case
  proof (cases "n < 10")
    case True
    then show ?thesis using d by (subst nat_to_string.simps) (simp add: digits_value_def)
  next
    case False
    then show ?thesis using d 1 [OF False] by (subst nat_to_string.simps) (simp add: digits_value_def)
  qed
qed

lemma nat_to_string_digits: "list_all is_digit (nat_to_string n)" "nat_to_string n \<noteq> []"
proof (induction n rule: nat_to_string.induct)
  case (1 n)
  have d: "is_digit (char_of (48 + n mod 10))"
    using of_char_digit [of "n mod 10"] by (simp add: is_digit_def del: of_char_of)
  {
    case 1
    then show ?case using d "1.IH"(1) by (cases "n < 10") (subst nat_to_string.simps, simp)+
  next
    case 2
    then show ?case by (subst nat_to_string.simps) simp
  }
qed

lemma digit_facts:
  "is_digit c \<Longrightarrow> \<not> is_space c" "is_digit c \<Longrightarrow> c \<noteq> CHR ''-''" "is_digit c \<Longrightarrow> c \<noteq> CHR ''+''"
  by (auto simp: is_digit_def is_space_def)

lemma takeWhile_digits: "list_all is_digit ds \<Longrightarrow> takeWhile is_digit ds = ds"
  by (simp add: list_all_iff takeWhile_eq_all_conv)

lemma scan_digits: "list_all is_digit ds \<Longrightarrow> ds \<noteq> [] \<Longrightarrow> scan_number ds = (False, ds, length ds)"
  by (cases ds) (auto simp: scan_number_def Let_def digit_facts takeWhile_digits)

lemma scan_minus: "list_all is_digit ds \<Longrightarrow> scan_number (CHR ''-'' # ds) = (True, ds, Suc (length ds))"
  by (simp add: scan_number_def Let_def is_space_def takeWhile_digits)

theorem printed_read_back:
  "- (2 ^ 63) \<le> v \<Longrightarrow> v < 2 ^ 63 \<Longrightarrow> parse_i64 (int_to_string v) = Some v \<and> from_chars_i64 (int_to_string v) = Some v"
  using nat_to_string_digits(1) [of "nat v"] nat_to_string_digits(2) [of "nat v"]
    nat_to_string_digits(1) [of "nat (- v)"] nat_to_string_digits(2) [of "nat (- v)"]
    digit_facts(2) [of "hd (nat_to_string (nat v))"]
  by (auto simp: parse_i64_def stoll_def from_chars_i64_def Let_def int_to_string_def scan_digits scan_minus
      nat_to_string_value list_all_iff)

theorem printed_u32: "parse_u32 (nat_to_string (unat w)) = Some w"
proof -
  have "unat w < 2 ^ 32" using unsigned_less [of w] by simp
  then show ?thesis
    using nat_to_string_digits [of "unat w"] by (simp add: parse_u32_def stoul_def scan_digits nat_to_string_value)
qed

end
