(* ===== verification/Daemon_App.thy ===== *)
theory Daemon_App
  imports Daemon_Proofs Cli_Text
begin

text \<open>
  The daemon program \<^verbatim>\<open>linux/apps/rcrd.cpp\<close>: its options and its exit code. What happens
  between start and stop (the turns of the threads and the requests) is a list of
  steps of the daemon, an argument. The lemmas show that the option parser
  leaves only one configuration for the daemon to refuse.
\<close>

section \<open>Options\<close>

definition daemon_config_default :: DaemonConfig where
  "daemon_config_default =
     \<lparr>dc_can_if = ''vcan0'', dc_node_id = 1, dc_period_ms = 10, dc_command_timeout_ms = 100, dc_output_ack_timeout_ms = 100,
      dc_heartbeat_timeout_ms = 300, dc_fifo_priority = 0, dc_require_fifo = False, dc_cpu_affinity = -1, dc_duration_ms = 0,
      dc_event_queue_capacity = 256, dc_max_events_per_tick = 32, dc_max_frames_per_wake = 32, dc_trace_capacity = 4096,
      dc_test_throw_on_tick = False\<rparr>"

datatype RcrdOptions = RcrdConfig DaemonConfig | RcrdHelp | RcrdBad

text \<open>One option with its value; \<open>None\<close> is refused.\<close>

definition rcrd_option :: "string \<Rightarrow> string \<Rightarrow> DaemonConfig \<Rightarrow> DaemonConfig option" where
  "rcrd_option arg v config =
     (if arg = ''--can'' then Some (config\<lparr>dc_can_if := v\<rparr>)
      else if arg = ''--node-id'' then
        map_option (\<lambda>w. config\<lparr>dc_node_id := of_int w\<rparr>) (parse_in 1 31 v)
      else if arg = ''--period-ms'' then
        map_option (\<lambda>w. config\<lparr>dc_period_ms := w\<rparr>) (parse_in 1 60000 v)
      else if arg = ''--command-timeout-ms'' then
        map_option (\<lambda>w. config\<lparr>dc_command_timeout_ms := w\<rparr>) (parse_in 1 60000 v)
      else if arg = ''--output-ack-timeout-ms'' then
        map_option (\<lambda>w. config\<lparr>dc_output_ack_timeout_ms := w\<rparr>) (parse_in 1 60000 v)
      else if arg = ''--heartbeat-timeout-ms'' then
        map_option (\<lambda>w. config\<lparr>dc_heartbeat_timeout_ms := w\<rparr>) (parse_in 1 60000 v)
      else if arg = ''--fifo-priority'' then
        map_option (\<lambda>w. config\<lparr>dc_fifo_priority := w\<rparr>) (parse_in 0 99 v)
      else if arg = ''--cpu-affinity'' then
        map_option (\<lambda>w. config\<lparr>dc_cpu_affinity := w\<rparr>) (parse_in 0 (CPU_SETSIZE - 1) v)
      else if arg = ''--duration-ms'' then
        map_option (\<lambda>w. config\<lparr>dc_duration_ms := w\<rparr>) (parse_in 0 3600000 v)
      else None)"

fun rcrd_parse_options :: "string list \<Rightarrow> DaemonConfig \<Rightarrow> RcrdOptions" where
  "rcrd_parse_options [] config = RcrdConfig config"
| "rcrd_parse_options (arg # args) config =
     (if arg = ''--help'' \<or> arg = ''-h'' then RcrdHelp
      else if arg = ''--require-fifo'' then rcrd_parse_options args (config\<lparr>dc_require_fifo := True\<rparr>)
      else case args of
        [] \<Rightarrow> RcrdBad
      | v # rest \<Rightarrow>
          (case rcrd_option arg v config of
             None \<Rightarrow> RcrdBad
           | Some config \<Rightarrow> rcrd_parse_options rest config))"

section \<open>Main program\<close>

definition rcrd_main :: "string list \<Rightarrow> DaemonEnv \<Rightarrow> DaemonOp list \<Rightarrow> int" where
  "rcrd_main args env ops =
     (case rcrd_parse_options args daemon_config_default of
        RcrdBad \<Rightarrow> DaemonExitCode_code DaemonExitCode.ConfigError
      | RcrdHelp \<Rightarrow> DaemonExitCode_code DaemonExitCode.Ok
      | RcrdConfig config \<Rightarrow>
          (case d_start env (d_init config) of
             (d, Inl _) \<Rightarrow> DaemonExitCode_code (d_exit_code d)
           | (d, Inr _) \<Rightarrow> DaemonExitCode_code (snd (d_wait_and_stop (fold d_step ops d)))))"

section \<open>Accepted options\<close>

text \<open>What every accepted command line guarantees of the configuration.\<close>

definition rcrd_valid :: "DaemonConfig \<Rightarrow> bool" where
  "rcrd_valid c \<longleftrightarrow> config_error c = None \<and> 0 \<le> dc_fifo_priority c \<and> dc_fifo_priority c \<le> 99"

lemma config_error_None:
  "config_error c = None \<longleftrightarrow>
     dc_node_id c \<noteq> 0 \<and> dc_node_id c \<le> 31 \<and> 0 < dc_period_ms c \<and> 0 < dc_command_timeout_ms c \<and>
     0 < dc_output_ack_timeout_ms c \<and> 0 < dc_heartbeat_timeout_ms c \<and> - 1 \<le> dc_cpu_affinity c \<and>
     dc_cpu_affinity c < CPU_SETSIZE \<and> dc_event_queue_capacity c \<noteq> 0 \<and> dc_max_events_per_tick c \<noteq> 0 \<and>
     dc_max_frames_per_wake c \<noteq> 0 \<and> dc_trace_capacity c \<noteq> 0"
  unfolding config_error_def by (simp add: not_less not_le)

lemma node_id_range: "1 \<le> w \<Longrightarrow> w \<le> 31 \<Longrightarrow> (of_int w :: u8) \<noteq> 0 \<and> (of_int w :: u8) \<le> 31"
  by (simp add: word_le_def uint_word_of_int flip: uint_0_iff)

lemma rcrd_option_valid: "rcrd_option arg v c = Some c' \<Longrightarrow> rcrd_valid c \<Longrightarrow> rcrd_valid c'"
  unfolding rcrd_option_def rcrd_valid_def config_error_None
  by (auto simp: node_id_range dest!: parse_in_range split: if_split_asm)

lemma rcrd_parse_valid: "rcrd_parse_options args c = RcrdConfig c' \<Longrightarrow> rcrd_valid c \<Longrightarrow> rcrd_valid c'"
proof (induction args c rule: rcrd_parse_options.induct)
  case (2 arg args c)
  show ?case
  proof (cases "arg = ''--require-fifo''")
    case True
    have "rcrd_valid (c\<lparr>dc_require_fifo := True\<rparr>)" using 2(4) by (simp add: rcrd_valid_def config_error_None)
    then show ?thesis using 2(1,3) True by simp
  next
    case False
    with 2(3) obtain v rest c1 where r: "args = v # rest" "rcrd_option arg v c = Some c1"
        "rcrd_parse_options rest c1 = RcrdConfig c'" "arg \<noteq> ''--help''" "arg \<noteq> ''-h''"
      by (auto split: if_splits list.splits option.splits)
    then show ?thesis using 2(2) False rcrd_option_valid [OF r(2) 2(4)] by simp
  qed
qed simp

lemma rcrd_default_valid: "rcrd_valid daemon_config_default"
  by (simp add: rcrd_valid_def config_error_None daemon_config_default_def CPU_SETSIZE_def)

text \<open>The system does not answer with \<^verbatim>\<open>EINVAL\<close>: the CPU exists, the socket accepts its options.\<close>

definition no_invalid_argument :: "DaemonEnv \<Rightarrow> bool" where
  "no_invalid_argument env \<longleftrightarrow>
     se_affinity_rc (de_runtime env) \<noteq> EINVAL \<and> ise_affinity_rc (de_io env) \<noteq> EINVAL \<and>
     (case se_clock (de_runtime env) of Inl e \<Rightarrow> err_code e \<noteq> Errc.InvalidArgument | Inr _ \<Rightarrow> True) \<and>
     (case ise_setup (de_io env) of Inl e \<Rightarrow> err_code e \<noteq> Errc.InvalidArgument | Inr _ \<Rightarrow> True)"

lemma run_startup_code:
  assumes "se_affinity_rc env \<noteq> EINVAL" and "case se_clock env of Inl e \<Rightarrow> err_code e \<noteq> Errc.InvalidArgument | Inr _ \<Rightarrow> True"
    and "run_startup env ps = (ps', Some e)"
  shows "err_code e \<noteq> Errc.InvalidArgument"
  using assms by (auto simp: run_startup_def run_fifo_def run_affinity_def Let_def split: sum.splits if_splits)

lemma start_runtime_code:
  assumes "rcrd_valid c" and "no_invalid_argument env"
    and "rt_start (de_runtime env) (rt_init (runtime_config c) busy clock) = (rt, Inl e)"
  shows "err_code e = Errc.InvalidArgument \<longleftrightarrow> dc_require_fifo c \<and> dc_fifo_priority c = 0"
proof -
  let ?ps = "rt_scheduler (rt_init (runtime_config c) busy clock)"
  have v: "ps_config ?ps = rc_scheduler (runtime_config c)" "\<not> ps_joinable ?ps"
    by (simp_all add: rt_init_def ps_init_def)
  have "snd (ps_start (de_runtime env) True ?ps) = Inl e"
    using assms(1,3) by (auto simp: rt_start_def rcrd_valid_def config_error_None runtime_config_def rt_init_def split: prod.splits)
  then show ?thesis
    using assms(1,2) v run_startup_code [of "de_runtime env"]
    by (auto simp: ps_start_def Let_def runtime_config_def rcrd_valid_def config_error_None no_invalid_argument_def
        split: if_splits option.splits prod.splits)
qed

lemma start_io_code:
  assumes "rcrd_valid c" and "no_invalid_argument env" and "io_start (de_io env) (io_init (io_loop_config c)) = (io, Inl e)"
  shows "err_code e \<noteq> Errc.InvalidArgument"
  using assms
  by (auto simp: io_start_def io_init_def io_loop_config_def thread_main_start_def maybe_set_affinity_def Let_def
      rcrd_valid_def config_error_None no_invalid_argument_def split: if_splits sum.splits prod.splits)

lemma start_runtime_ok:
  assumes "rt_start (de_runtime env) (rt_init (runtime_config c) busy clock) = (rt, Inr u)"
  shows "\<not> (dc_require_fifo c \<and> dc_fifo_priority c = 0)"
  using assms by (auto simp: rt_start_def ps_start_def rt_init_def ps_init_def runtime_config_def Let_def split: if_splits prod.splits)

text \<open>
  Only one accepted command line is refused as a configuration. With options that
  the parser takes, and a system that never answers \<^verbatim>\<open>EINVAL\<close>, the daemon's start ends with
  the exit code \<^verbatim>\<open>CONFIG_ERROR\<close> exactly if \<^verbatim>\<open>--require-fifo\<close> was given without a positive
  \<^verbatim>\<open>--fifo-priority\<close> and the interface and the descriptors before it were available; everything
  else the daemon would refuse is already refused by the parser.
\<close>

theorem rcrd_config_exit:
  assumes "rcrd_parse_options args daemon_config_default = RcrdConfig c" and "no_invalid_argument env"
  shows "d_exit_code (fst (d_start env (d_init c))) = DaemonExitCode.ConfigError \<longleftrightarrow>
    de_can_available env \<and> is_ok (de_signals env) \<and> is_ok (de_stop_event env) \<and>
    dc_require_fifo c \<and> dc_fifo_priority c = 0"
proof -
  let ?d = "(d_init c)\<lparr>d_signals := True, d_stop_event := True\<rparr>"
  have v: "rcrd_valid c" using rcrd_parse_valid [OF assms(1) rcrd_default_valid] .
  have p: "d_exit_code (fst (start_parts env ?d)) = DaemonExitCode.ConfigError \<longleftrightarrow> dc_require_fifo c \<and> dc_fifo_priority c = 0"
    using start_runtime_code [OF v assms(2), of "de_busy env" "de_clock env"] start_io_code [OF v assms(2)]
      start_runtime_ok [of env c "de_busy env" "de_clock env"]
    by (auto simp: start_parts_def start_io_def d_init_def Let_def rollback_started_parts_def runtime_exit_code_def
        io_exit_code_def split: prod.splits sum.splits if_splits)
  show ?thesis
    using v p by (auto simp: d_start_def d_fail_def rcrd_valid_def d_init_def split: sum.splits)
qed

theorem rcrd_config_exit_witness:
  "d_exit_code (fst (d_start (demo_env True) (d_init (daemon_config_default\<lparr>dc_require_fifo := True, dc_node_id := 5\<rparr>)))) =
     DaemonExitCode.ConfigError \<and>
   rcrd_main [''--require-fifo'', ''--node-id'', ''5''] (demo_env True) [] = 1 \<and>
   rcrd_main [''--require-fifo'', ''--fifo-priority'', ''80''] (demo_env True) [] \<noteq> 1"
proof (intro conjI)
  show "d_exit_code (fst (d_start (demo_env True) (d_init (daemon_config_default\<lparr>dc_require_fifo := True, dc_node_id := 5\<rparr>)))) =
      DaemonExitCode.ConfigError"
    by (subst rcrd_config_exit [of "[''--require-fifo'', ''--node-id'', ''5'']"]) code_simp+
qed code_simp+

end
