(* ===== verification/Cell_Edge.thy ===== *)
theory Cell_Edge
  imports Cell_App App_Adapter Modbus_Agent Daemon_App
begin

text \<open>
  The edge cell application \<^verbatim>\<open>linux/apps/rcr_cell_app.cpp\<close> with the decision of
  \<^verbatim>\<open>linux/src/workbench/application/cell_ready_mapper.cpp\<close>: it owns the daemon, serves
  the engineering stations and writes the cell-ready coil on the edges of its
  decision. What the outside gives (clock readings, connections, the agent's
  replies) is a list of environments that each call takes one of. The lemmas
  show that a coil is written only on an edge of an observed decision, and that
  a CAN frame goes back to requests of an engineering station.
\<close>

section \<open>Cell-ready decision\<close>

record CellReadyDecision =
  cd_position_reached :: bool
  cd_cell_ready :: bool

datatype CellReadyDo0Action = NoAction | RequestOn | RequestOff

definition evaluate_cell_ready :: "RuntimeTelemetrySnapshot \<Rightarrow> CellReadyDecision" where
  "evaluate_cell_ready s =
     (let reached = (dv_input_bits (tm_device s) AND kInputBitPositionReached \<noteq> 0)
      in \<lparr>cd_position_reached = reached,
          cd_cell_ready = (dv_online (tm_device s) \<and> rs_mode (tm_runtime s) = RuntimeModeCode.Active \<and> reached \<and>
             dv_device_fault_code (tm_device s) = 0 \<and> rs_fault (tm_runtime s) = RuntimeFaultCode.NoFault)\<rparr>)"

record CellReadyMapper =
  crm_armed :: bool
  crm_last_ready :: bool

definition mapper_init :: CellReadyMapper where
  "mapper_init = \<lparr>crm_armed = False, crm_last_ready = False\<rparr>"

definition note_modbus_offline :: "CellReadyMapper \<Rightarrow> CellReadyMapper" where
  "note_modbus_offline m = m\<lparr>crm_armed := False\<rparr>"

definition synchronize_after_probe :: "CellReadyDecision \<Rightarrow> CellReadyMapper \<Rightarrow> CellReadyMapper" where
  "synchronize_after_probe decision m = m\<lparr>crm_armed := True, crm_last_ready := cd_cell_ready decision\<rparr>"

definition mapper_observe :: "CellReadyDecision \<Rightarrow> bool \<Rightarrow> CellReadyMapper \<Rightarrow> CellReadyMapper \<times> CellReadyDo0Action" where
  "mapper_observe decision modbus_online m =
     (if \<not> modbus_online then
        (m\<lparr>crm_armed := False, crm_last_ready := cd_cell_ready decision\<rparr>, CellReadyDo0Action.NoAction)
      else if \<not> crm_armed m then (synchronize_after_probe decision m, CellReadyDo0Action.NoAction)
      else if cd_cell_ready decision = crm_last_ready m then (m, CellReadyDo0Action.NoAction)
      else (m\<lparr>crm_last_ready := cd_cell_ready decision\<rparr>,
            if cd_cell_ready decision then CellReadyDo0Action.RequestOn else CellReadyDo0Action.RequestOff))"

section \<open>Application state\<close>

record EdgeCellIoState =
  ei_modbus_online :: bool
  ei_do0_requested :: bool
  ei_do0_confirmed :: bool
  ei_do0_status :: ModbusIoCommandStatus

text \<open>What one call of the application gets from outside: two clock readings and one agent exchange.\<close>

record EdgeEnv =
  ee_now :: "i64 Result"
  ee_now2 :: "i64 Result"
  ee_connect :: ConnectOutcome
  ee_sends :: "WriteCall list"
  ee_recv :: RecvScript

definition edge_quiet :: EdgeEnv where
  "edge_quiet = \<lparr>ee_now = Inl clock_error, ee_now2 = Inl clock_error, ee_connect = ConnectPollTimeout, ee_sends = [],
     ee_recv = \<lparr>rs_start = 0, rs_steps = []\<rparr>\<rparr>"

record EdgeApp =
  ed_daemon :: RuntimeDaemon
  ed_mapper :: CellReadyMapper
  ed_modbus :: ModbusAgentClient
  ed_io :: EdgeCellIoState
  ed_envs :: "EdgeEnv list"

definition edge_init :: "DaemonConfig \<Rightarrow> EdgeEnv list \<Rightarrow> EdgeApp" where
  "edge_init config envs =
     \<lparr>ed_daemon = d_init config, ed_mapper = mapper_init, ed_modbus = agent_client_init,
      ed_io = \<lparr>ei_modbus_online = False, ei_do0_requested = False, ei_do0_confirmed = False,
               ei_do0_status = ModbusIoCommandStatus.NoStatus\<rparr>,
      ed_envs = envs\<rparr>"

definition ed_env :: "EdgeApp \<Rightarrow> EdgeEnv" where
  "ed_env app = (case ed_envs app of [] \<Rightarrow> edge_quiet | e # _ \<Rightarrow> e)"

definition ed_next :: "EdgeApp \<Rightarrow> EdgeApp" where
  "ed_next app = app\<lparr>ed_envs := tl (ed_envs app)\<rparr>"

section \<open>Handler\<close>

definition edge_status_view :: "AdapterConfig \<Rightarrow> i64 Result \<Rightarrow> EdgeApp \<Rightarrow> CellAppStatus" where
  "edge_status_view ac now app =
     (let snap = adapter_snapshot ac now (ed_daemon app); cell = evaluate_cell_ready snap; io = ed_io app
      in project_cell_app_status (snap\<lparr>tm_position_reached := cd_position_reached cell, tm_cell_ready := cd_cell_ready cell,
           tm_cell_modbus_online := ei_modbus_online io, tm_cell_ready_do0_requested := ei_do0_requested io,
           tm_cell_ready_do0_confirmed := ei_do0_confirmed io,
           tm_cell_ready_do0_status := ModbusIoCommandStatus_code (ei_do0_status io)\<rparr>))"

definition edge_status :: "AdapterConfig \<Rightarrow> EdgeApp \<Rightarrow> EdgeApp \<times> CellAppStatus" where
  "edge_status ac app = (let e = ed_env app; app1 = ed_next app in (app1, edge_status_view ac (ee_now e) app1))"

text \<open>The failure branch that the probe and the tick share.\<close>

definition edge_offline :: "EdgeApp \<Rightarrow> EdgeApp" where
  "edge_offline app = app\<lparr>ed_mapper := note_modbus_offline (ed_mapper app),
     ed_io := (ed_io app)\<lparr>ei_modbus_online := False, ei_do0_status := ModbusIoCommandStatus.Timeout\<rparr>\<rparr>"

definition edge_connect :: "EdgeEnv \<Rightarrow> EdgeApp \<Rightarrow> EdgeApp \<times> bool" where
  "edge_connect e app =
     (if ac_connected (ed_modbus app) then (app, True)
      else case ac_connect (ee_connect e) (ed_modbus app) of
        (c, Inl _) \<Rightarrow> (edge_offline (app\<lparr>ed_modbus := c\<rparr>), False)
      | (c, Inr _) \<Rightarrow> (app\<lparr>ed_modbus := c\<rparr>, True))"

definition edge_probe_cell_io :: "AdapterConfig \<Rightarrow> EdgeApp \<Rightarrow> EdgeApp \<times> CellAppStatus" where
  "edge_probe_cell_io ac app0 =
     (let e = ed_env app0; app = ed_next app0; status = (\<lambda>a. (a, edge_status_view ac (ee_now2 e) a))
      in case edge_connect e app of
           (app1, False) \<Rightarrow> status app1
         | (app1, True) \<Rightarrow>
             (case ac_probe 1000 (ee_sends e) (ee_recv e) (ed_modbus app1) of (c, probed) \<Rightarrow>
                let app2 = app1\<lparr>ed_modbus := ac_disconnect c\<rparr>
                in case probed of
                     Inl _ \<Rightarrow> status (edge_offline app2)
                   | Inr snap \<Rightarrow>
                       let do0 = io_digital_outputs snap ! 0
                       in status (app2\<lparr>ed_io := \<lparr>ei_modbus_online = True, ei_do0_requested = do_requested do0,
                               ei_do0_confirmed = do_confirmed do0, ei_do0_status = do_last_status do0\<rparr>,
                             ed_mapper := synchronize_after_probe
                               (evaluate_cell_ready (adapter_snapshot ac (ee_now e) (ed_daemon app2))) (ed_mapper app2)\<rparr>)))"

definition edge_activate :: "EdgeApp \<Rightarrow> EdgeApp \<times> CommandReply" where
  "edge_activate app = (case adapter_activate (ed_daemon app) of (d, r) \<Rightarrow> (app\<lparr>ed_daemon := d\<rparr>, r))"

definition edge_submit_output :: "DigitalOutputRequest \<Rightarrow> EdgeApp \<Rightarrow> EdgeApp \<times> CommandReply" where
  "edge_submit_output request app0 =
     (let e = ed_env app0; app = ed_next app0
      in case adapter_submit_digital_output (ee_now e) request (ed_daemon app) of (d, r) \<Rightarrow> (app\<lparr>ed_daemon := d\<rparr>, r))"

definition edge_handler :: "AdapterConfig \<Rightarrow> EdgeApp CellAppHandler" where
  "edge_handler ac = \<lparr>ch_status = edge_status ac, ch_probe_cell_io = edge_probe_cell_io ac, ch_activate = edge_activate,
     ch_submit_output = edge_submit_output\<rparr>"

section \<open>Tick\<close>

text \<open>
  The tick returns the coil write it attempted, if any. Its second half, once an
  action is due, is \<open>edge_write_do0\<close>.
\<close>

definition edge_write_do0 :: "EdgeEnv \<Rightarrow> bool \<Rightarrow> EdgeApp \<Rightarrow> EdgeApp \<times> bool option" where
  "edge_write_do0 e on app1 =
     (case edge_connect e app1 of
        (app2, False) \<Rightarrow> (app2, None)
      | (app2, True) \<Rightarrow>
          let app3 = app2\<lparr>ed_io := (ed_io app2)\<lparr>ei_do0_requested := on\<rparr>\<rparr>
          in case ac_write_output 0 on 1000 (ee_sends e) (ee_recv e) (ed_modbus app3) of (c, written) \<Rightarrow>
               let app4 = app3\<lparr>ed_modbus := ac_disconnect c\<rparr>
               in case written of
                    Inl _ \<Rightarrow> (edge_offline app4, Some on)
                  | Inr snap \<Rightarrow>
                      let ch = io_digital_outputs snap ! 0
                      in (app4\<lparr>ed_io := (ed_io app4)\<lparr>ei_modbus_online := True, ei_do0_requested := do_requested ch,
                            ei_do0_confirmed := do_confirmed ch, ei_do0_status := do_last_status ch\<rparr>\<rparr>, Some on))"

definition tick_cell_ready :: "AdapterConfig \<Rightarrow> EdgeApp \<Rightarrow> EdgeApp \<times> bool option" where
  "tick_cell_ready ac app0 =
     (let e = ed_env app0; app = ed_next app0;
          decision = evaluate_cell_ready (adapter_snapshot ac (ee_now e) (ed_daemon app))
      in case mapper_observe decision True (ed_mapper app) of (m, action) \<Rightarrow>
           let app1 = app\<lparr>ed_mapper := m\<rparr>
           in if action = CellReadyDo0Action.NoAction then (app1, None)
              else edge_write_do0 e (action = CellReadyDo0Action.RequestOn) app1)"

section \<open>Options\<close>

definition parse_host_port :: "string \<Rightarrow> (string \<times> u16) option" where
  "parse_host_port v =
     (if CHR '':'' \<notin> set v then None
      else
        let tail = rev (takeWhile (\<lambda>c. c \<noteq> CHR '':'') (rev v)); host = take (length v - length tail - 1) v
        in if host = [] then None
           else case parse_u32 tail of
             None \<Rightarrow> None
           | Some p \<Rightarrow> if p > 65535 then None else Some (host, ucast p))"

record EdgeOptions =
  eo_daemon :: DaemonConfig
  eo_evidence :: EvidenceClass
  eo_modbus :: "string \<times> u16"
  eo_listen :: "string \<times> u16"

datatype ParseOutcome = Parsed EdgeOptions | BadOptions | HelpRequested

fun parse_options_from :: "string list \<Rightarrow> EdgeOptions \<Rightarrow> ParseOutcome" where
  "parse_options_from [] options = Parsed options"
| "parse_options_from (arg # args) options =
     (if arg = ''--help'' \<or> arg = ''-h'' then HelpRequested
      else case args of
        [] \<Rightarrow> BadOptions
      | v # rest \<Rightarrow>
          if arg = ''--can'' then parse_options_from rest (options\<lparr>eo_daemon := (eo_daemon options)\<lparr>dc_can_if := v\<rparr>\<rparr>)
          else if arg = ''--node-id'' then
            (case parse_u32 v of
               None \<Rightarrow> BadOptions
             | Some node \<Rightarrow>
                 if node < 1 \<or> node > 31 then BadOptions
                 else parse_options_from rest (options\<lparr>eo_daemon := (eo_daemon options)\<lparr>dc_node_id := ucast node\<rparr>\<rparr>))
          else if arg = ''--evidence'' then
            (if v = ''vcan'' then parse_options_from rest (options\<lparr>eo_evidence := EvidenceClass.Vcan\<rparr>)
             else if v = ''physical'' then parse_options_from rest (options\<lparr>eo_evidence := EvidenceClass.Physical\<rparr>)
             else BadOptions)
          else if arg = ''--modbus'' then
            (case parse_host_port v of None \<Rightarrow> BadOptions
             | Some hp \<Rightarrow> parse_options_from rest (options\<lparr>eo_modbus := hp\<rparr>))
          else if arg = ''--listen'' then
            (case parse_host_port v of None \<Rightarrow> BadOptions
             | Some hp \<Rightarrow> parse_options_from rest (options\<lparr>eo_listen := hp\<rparr>))
          else BadOptions)"

definition parse_options :: "string list \<Rightarrow> ParseOutcome" where
  "parse_options args =
     parse_options_from args
       \<lparr>eo_daemon = daemon_config_default\<lparr>dc_can_if := ''can0'', dc_node_id := 1, dc_period_ms := 10,
          dc_command_timeout_ms := 2500, dc_output_ack_timeout_ms := 500, dc_heartbeat_timeout_ms := 300\<rparr>,
        eo_evidence = EvidenceClass.Unspecified, eo_modbus = (''127.0.0.1'', 5740), eo_listen = (''0.0.0.0'', 5750)\<rparr>"

section \<open>Main program\<close>

text \<open>
  The start of \<^verbatim>\<open>main\<close>: an exit code, or the adapter's configuration, the server
  and the application. The environments are those of the calls to come.
\<close>

definition cell_server_init :: CellAppServer where
  "cell_server_init = \<lparr>cs_listening = False, cs_clients = [], cs_port = 0\<rparr>"

definition edge_main_start ::
  "string list \<Rightarrow> DaemonEnv \<Rightarrow> ListenOutcome \<Rightarrow> EdgeEnv list \<Rightarrow> int + AdapterConfig \<times> CellAppServer \<times> EdgeApp" where
  "edge_main_start args env listen envs =
     (case parse_options args of
        HelpRequested \<Rightarrow> Inl 0
      | BadOptions \<Rightarrow> Inl 1
      | Parsed options \<Rightarrow>
          if eo_evidence options = EvidenceClass.Unspecified then Inl 1
          else case d_start env (d_init (eo_daemon options)) of
            (d, Inl _) \<Rightarrow> Inl (DaemonExitCode_code (d_exit_code d))
          | (d, Inr _) \<Rightarrow>
              (case d_boot d of (d1, boot) \<Rightarrow>
                 if \<not> tr_accepted boot then Inl 4
                 else case cell_server_listen listen cell_server_init of
                   (srv, Inl _) \<Rightarrow> Inl 2
                 | (srv, Inr _) \<Rightarrow>
                     Inr (\<lparr>ad_evidence = eo_evidence options, ad_backend_label = ''SOCKETCAN''\<rparr>, srv,
                          (edge_init (eo_daemon options) envs)\<lparr>ed_daemon := d1\<rparr>)))"

text \<open>One round of the loop: the server's poll, then the tick. The daemon's threads run in between.\<close>

record EdgeTurn =
  et_system :: "DaemonOp list"
  et_poll :: PollOutcome
  et_accepts :: "AcceptCall list"
  et_beyond :: "nat \<Rightarrow> Revents"
  et_io :: "nat \<Rightarrow> RecvCall \<times> WriteCall list list"

definition edge_running :: "EdgeApp \<Rightarrow> bool" where
  "edge_running app \<longleftrightarrow> d_started (ed_daemon app) \<and>
     (let snap = d_snapshot (ed_daemon app)
      in \<not> ((case ds_io snap of None \<Rightarrow> False | Some st \<Rightarrow> cs_stop_reason st \<noteq> IoStopReason.NoReason) \<or> ds_stopping snap))"

definition edge_turn :: "AdapterConfig \<Rightarrow> EdgeTurn \<Rightarrow> CellAppServer \<times> EdgeApp \<Rightarrow> CellAppServer \<times> EdgeApp" where
  "edge_turn ac t st =
     (case fst (cell_server_poll (edge_handler ac) (et_poll t) (et_accepts t) (et_beyond t) (et_io t) st) of
        (srv, app) \<Rightarrow> (srv, fst (tick_cell_ready ac app)))"

definition edge_finish :: "CellAppServer \<times> EdgeApp \<Rightarrow> (CellAppServer \<times> EdgeApp) \<times> int" where
  "edge_finish st =
     (let app = (snd st)\<lparr>ed_modbus := ac_disconnect (ed_modbus (snd st))\<rparr>; srv = cell_server_close (fst st)
      in case d_wait_and_stop (d_request_stop (ed_daemon app)) of (d, code) \<Rightarrow>
           ((srv, app\<lparr>ed_daemon := d\<rparr>), DaemonExitCode_code code))"

fun edge_loop :: "AdapterConfig \<Rightarrow> EdgeTurn list \<Rightarrow> CellAppServer \<times> EdgeApp \<Rightarrow> CellAppServer \<times> EdgeApp" where
  "edge_loop ac [] st = st"
| "edge_loop ac (t # ts) (srv, app0) =
     (let app = app0\<lparr>ed_daemon := fold d_step (et_system t) (ed_daemon app0)\<rparr>
      in if edge_running app then edge_loop ac ts (edge_turn ac t (srv, app)) else (srv, app))"

section \<open>Runs\<close>

text \<open>
  What happens to the application: a server turn that hands it requests, a tick,
  and the daemon's own steps.
\<close>

datatype EdgeOp = EdgeServe "CellAppFrame list" | EdgeTick | EdgeSystem DaemonOp

fun edge_step :: "AdapterConfig \<Rightarrow> EdgeOp \<Rightarrow> EdgeApp \<Rightarrow> EdgeApp" where
  "edge_step ac (EdgeServe fs) app = fst (run_requests (edge_handler ac) fs app)"
| "edge_step ac EdgeTick app = fst (tick_cell_ready ac app)"
| "edge_step ac (EdgeSystem op) app = app\<lparr>ed_daemon := d_step op (ed_daemon app)\<rparr>"

text \<open>The workbench calls behind a request.\<close>

definition request_calls :: "CellAppFrame \<Rightarrow> EdgeApp \<Rightarrow> WorkbenchOp list" where
  "request_calls f app =
     (case cf_type f of
        CellAppMessage.Activate \<Rightarrow> [WActivate]
      | CellAppMessage.SubmitOutput \<Rightarrow>
          (case decode_cell_output_payload (cf_payload f) of Inl e \<Rightarrow> [] | Inr r \<Rightarrow> [WSubmit (ee_now (ed_env app)) r])
      | _ \<Rightarrow> [])"

lemma edge_frames [simp]:
  "ed_daemon (ed_next app) = ed_daemon app" "ed_daemon (edge_offline app) = ed_daemon app"
  "ed_mapper (ed_next app) = ed_mapper app" "ed_mapper (edge_offline app) = note_modbus_offline (ed_mapper app)"
  by (simp_all add: ed_next_def edge_offline_def)

lemma connect_frame:
  "edge_connect e app = (app', b) \<Longrightarrow> ed_daemon app' = ed_daemon app \<and>
     ed_mapper app' = (if b then ed_mapper app else note_modbus_offline (ed_mapper app))"
  by (auto simp: edge_connect_def split: prod.splits sum.splits if_splits)

lemma write_frame:
  "edge_write_do0 e on app = (app', w) \<Longrightarrow> ed_daemon app' = ed_daemon app \<and>
     (ed_mapper app' = ed_mapper app \<or> ed_mapper app' = note_modbus_offline (ed_mapper app)) \<and> (w = None \<or> w = Some on)"
  by (auto simp: edge_write_do0_def Let_def dest!: connect_frame split: prod.splits sum.splits bool.splits)

lemma tick_frame:
  assumes "tick_cell_ready ac app = (app', w)"
  shows "ed_daemon app' = ed_daemon app"
  using assms unfolding tick_cell_ready_def Let_def
  by (auto dest!: write_frame split: prod.splits if_splits)

lemma probe_frame:
  assumes "edge_probe_cell_io ac app = (app', s)"
  shows "ed_daemon app' = ed_daemon app"
  using assms unfolding edge_probe_cell_io_def Let_def
  by (auto dest!: connect_frame split: prod.splits sum.splits bool.splits)

lemma request_daemon:
  "ed_daemon (fst (cell_handle_request (edge_handler ac) f app)) = fold wb_step (request_calls f app) (ed_daemon app)"
proof (cases "cf_type f")
  case GetStatus then show ?thesis
    by (simp add: cell_handle_request_def edge_handler_def edge_status_def request_calls_def Let_def encode_cell_status_eq)
next
  case Activate then show ?thesis
    by (simp add: cell_handle_request_def edge_handler_def edge_activate_def request_calls_def Let_def split: prod.split)
next
  case SubmitOutput then show ?thesis
    by (simp add: cell_handle_request_def edge_handler_def edge_submit_output_def request_calls_def Let_def split: prod.split sum.split)
next
  case ProbeCellIo
  obtain app' s where p: "edge_probe_cell_io ac app = (app', s)" by fastforce
  with ProbeCellIo probe_frame [OF p] show ?thesis
    by (simp add: cell_handle_request_def edge_handler_def request_calls_def Let_def encode_cell_status_eq)
qed (simp_all add: cell_handle_request_def request_calls_def Let_def)

lemma calls_not_system: "WSystem op \<notin> set (request_calls f app)"
  and calls_activate: "WActivate \<in> set (request_calls f app) \<Longrightarrow> cf_type f = CellAppMessage.Activate"
  and calls_submit: "WSubmit t r \<in> set (request_calls f app) \<Longrightarrow>
    cf_type f = CellAppMessage.SubmitOutput \<and> decode_cell_output_payload (cf_payload f) = Inr r"
  by (auto simp: request_calls_def split: CellAppMessage.splits sum.splits)

lemma serve_daemon:
  "\<exists>wops. ed_daemon (fst (run_requests (edge_handler ac) fs app)) = fold wb_step wops (ed_daemon app) \<and>
     (\<forall>op. WSystem op \<notin> set wops) \<and> (\<forall>op\<in>set wops. \<exists>f\<in>set fs. \<exists>app'. op \<in> set (request_calls f app'))"
proof (induction fs arbitrary: app)
  case Nil then show ?case by (intro exI [of _ "[]"]) simp
next
  case (Cons f fs)
  let ?app1 = "fst (cell_handle_request (edge_handler ac) f app)"
  obtain wops where w: "ed_daemon (fst (run_requests (edge_handler ac) fs ?app1)) = fold wb_step wops (ed_daemon ?app1)"
    "\<forall>op. WSystem op \<notin> set wops" "\<forall>op\<in>set wops. \<exists>g\<in>set fs. \<exists>app'. op \<in> set (request_calls g app')"
    using Cons.IH by blast
  have none: "\<forall>op. WSystem op \<notin> set (request_calls f app)"
    by (auto simp: request_calls_def split: CellAppMessage.splits sum.splits)
  have "ed_daemon (fst (run_requests (edge_handler ac) (f # fs) app)) = fold wb_step (request_calls f app @ wops) (ed_daemon app)"
    using w(1) by (simp add: request_daemon split_beta)
  then show ?case using w(2,3) none by (intro exI [of _ "request_calls f app @ wops"]) auto
qed

lemma edge_step_daemon:
  "\<exists>wops. ed_daemon (edge_step ac op app) = fold wb_step wops (ed_daemon app) \<and>
     (\<forall>w\<in>set wops. (\<exists>dop. op = EdgeSystem dop \<and> w = WSystem dop) \<or>
        (\<exists>fs f app'. op = EdgeServe fs \<and> f \<in> set fs \<and> w \<in> set (request_calls f app')))"
proof (cases op)
  case (EdgeServe fs)
  obtain wops where w: "ed_daemon (fst (run_requests (edge_handler ac) fs app)) = fold wb_step wops (ed_daemon app)"
    "\<forall>op\<in>set wops. \<exists>f\<in>set fs. \<exists>app'. op \<in> set (request_calls f app')" using serve_daemon by blast
  then show ?thesis using EdgeServe by (intro exI [of _ wops]) (simp; blast)
next
  case EdgeTick
  obtain app' w where "tick_cell_ready ac app = (app', w)" by fastforce
  then show ?thesis using EdgeTick tick_frame by (intro exI [of _ "[]"]) simp
next
  case (EdgeSystem dop)
  then show ?thesis by (intro exI [of _ "[WSystem dop]"]) simp
qed

lemma edge_run_daemon:
  "\<exists>wops. ed_daemon (fold (edge_step ac) ops app) = fold wb_step wops (ed_daemon app) \<and>
     (\<forall>w\<in>set wops. (\<exists>dop. EdgeSystem dop \<in> set ops \<and> w = WSystem dop) \<or>
        (\<exists>fs f app'. EdgeServe fs \<in> set ops \<and> f \<in> set fs \<and> w \<in> set (request_calls f app')))"
proof (induction ops arbitrary: app)
  case Nil then show ?case by (intro exI [of _ "[]"]) simp
next
  case (Cons op ops)
  obtain w1 where a: "ed_daemon (edge_step ac op app) = fold wb_step w1 (ed_daemon app)"
    "\<forall>w\<in>set w1. (\<exists>dop. op = EdgeSystem dop \<and> w = WSystem dop) \<or>
        (\<exists>fs f app'. op = EdgeServe fs \<and> f \<in> set fs \<and> w \<in> set (request_calls f app'))"
    using edge_step_daemon by blast
  obtain w2 where b: "ed_daemon (fold (edge_step ac) ops (edge_step ac op app)) = fold wb_step w2 (ed_daemon (edge_step ac op app))"
    "\<forall>w\<in>set w2. (\<exists>dop. EdgeSystem dop \<in> set ops \<and> w = WSystem dop) \<or>
        (\<exists>fs f app'. EdgeServe fs \<in> set ops \<and> f \<in> set fs \<and> w \<in> set (request_calls f app'))"
    using Cons.IH by blast
  have "ed_daemon (fold (edge_step ac) (op # ops) app) = fold wb_step (w1 @ w2) (ed_daemon app)" using a(1) b(1) by simp
  moreover have "\<forall>w\<in>set (w1 @ w2). (\<exists>dop. EdgeSystem dop \<in> set (op # ops) \<and> w = WSystem dop) \<or>
        (\<exists>fs f app'. EdgeServe fs \<in> set (op # ops) \<and> f \<in> set fs \<and> w \<in> set (request_calls f app'))"
    using a(2) b(2) by (metis UnE list.set_intros set_append)
  ultimately show ?case by blast
qed

section \<open>A poll is a run of requests\<close>

lemma drain_runs: "\<exists>fs. fst (cell_drain H sends buffer h) = fst (run_requests H fs h)"
proof (induction H sends buffer h rule: cell_drain.induct)
  case (1 H sends buffer h)
  show ?case
  proof (cases "buffer \<noteq> [] \<and> (\<exists>f n. try_decode_cell_app_frame buffer = (Inr f, n))")
    case False
    then have "fst (cell_drain H sends buffer h) = h"
      by (subst cell_drain.simps) (auto split: prod.splits sum.splits)
    then show ?thesis by (intro exI [of _ "[]"]) simp
  next
    case True
    then obtain f n where f: "buffer \<noteq> []" "try_decode_cell_app_frame buffer = (Inr f, n)" by blast
    obtain h1 reply where r: "cell_handle_request H f h = (h1, reply)" by fastforce
    show ?thesis
    proof (cases "\<exists>wire. encode_cell_app_frame reply = Some wire \<and> write_all wire (send_of sends) = Inr ()")
      case True
      then obtain wire where w: "encode_cell_app_frame reply = Some wire" "write_all wire (send_of sends) = Inr ()" by blast
      from 1 [OF f(1) f(2) [symmetric] refl r [symmetric] w]
      obtain fs where "fst (cell_drain H (tl sends) (drop n buffer) h1) = fst (run_requests H fs h1)" by blast
      then show ?thesis using f r w by (subst cell_drain.simps) (auto intro!: exI [of _ "f # fs"] split: prod.splits)
    next
      case False
      then have "fst (cell_drain H sends buffer h) = h1"
        using f r by (subst cell_drain.simps) (auto split: option.splits sum.splits)
      then show ?thesis using r by (intro exI [of _ "[f]"]) simp
    qed
  qed
qed

lemma service_runs: "\<exists>fs. fst (service_client H call sends buffer h) = fst (run_requests H fs h)"
  using drain_runs [of H sends] by (cases call) (auto simp: service_client_def intro: exI [of _ "[]"])

lemma poll_clients_runs: "\<exists>fs. snd (fst (poll_clients H flags io n st)) = fst (run_requests H fs (snd st))"
proof (induction n arbitrary: st)
  case 0 then show ?case by (intro exI [of _ "[]"]) simp
next
  case (Suc n)
  obtain h1 b wires r where s: "service_client H (fst (io n)) (snd (io n)) (cs_clients (fst st) ! n) (snd st) = (h1, b, wires, r)"
    by (metis prod.collapse)
  obtain fs where fs: "h1 = fst (run_requests H fs (snd st))" using service_runs s by (metis fst_conv)
  have more: "\<exists>gs. snd (fst (poll_clients H flags io n (srv, h1))) = fst (run_requests H gs (snd st))" for srv
  proof -
    obtain gs where "snd (fst (poll_clients H flags io n (srv, h1))) = fst (run_requests H gs h1)" using Suc.IH [of "(srv, h1)"] by auto
    then show ?thesis using fs by (intro exI [of _ "fs @ gs"]) (simp add: run_requests_append split: prod.split)
  qed
  show ?case using s fs more Suc.IH [of st] Suc.IH [of "(drop_client n (fst st), snd st)"]
    by (auto simp: Let_def split: sum.split)
qed

lemma server_poll_runs: "\<exists>fs. snd (fst (cell_server_poll H outcome accepts beyond io st)) = fst (run_requests H fs (snd st))"
proof (cases "snd (fst (cell_server_poll H outcome accepts beyond io st)) = snd st")
  case True then show ?thesis by (intro exI [of _ "[]"]) simp
next
  case False
  then obtain srv n flags where "cell_server_poll H outcome accepts beyond io st = poll_clients H flags io n (srv, snd st)"
    by (cases st) (auto simp: cell_server_poll_def split: if_splits PollOutcome.splits prod.splits sum.splits)
  then show ?thesis using poll_clients_runs [of H flags io n "(srv, snd st)"] by simp
qed

text \<open>The loop of \<^verbatim>\<open>main\<close> is a run of server turns, ticks and steps of the daemon's own threads.\<close>

lemma turn_steps: "\<exists>fs. snd (edge_turn ac t st) = fold (edge_step ac) [EdgeServe fs, EdgeTick] (snd st)"
  using server_poll_runs [of "edge_handler ac" "et_poll t" "et_accepts t" "et_beyond t" "et_io t" st]
  by (auto simp: edge_turn_def split: prod.split)

lemma system_steps: "app\<lparr>ed_daemon := fold d_step ops (ed_daemon app)\<rparr> = fold (edge_step ac) (map EdgeSystem ops) app"
  by (induction ops arbitrary: app) (simp_all, metis EdgeApp.simps(1) EdgeApp.surjective EdgeApp.update_convs(1) EdgeApp.fold_congs(1))

lemma loop_steps:
  "\<exists>ops. snd (edge_loop ac ts st) = fold (edge_step ac) ops (snd st) \<and>
     (\<forall>dop. EdgeSystem dop \<in> set ops \<longrightarrow> (\<exists>t\<in>set ts. dop \<in> set (et_system t)))"
proof (induction ac ts st rule: edge_loop.induct)
  case (1 ac st) then show ?case by (intro exI [of _ "[]"]) simp
next
  case (2 ac t ts srv app0)
  let ?app = "app0\<lparr>ed_daemon := fold d_step (et_system t) (ed_daemon app0)\<rparr>"
  have sys: "?app = fold (edge_step ac) (map EdgeSystem (et_system t)) app0" by (rule system_steps)
  show ?case
  proof (cases "edge_running ?app")
    case True
    obtain ops where o: "snd (edge_loop ac ts (edge_turn ac t (srv, ?app))) = fold (edge_step ac) ops (snd (edge_turn ac t (srv, ?app)))"
      "\<forall>dop. EdgeSystem dop \<in> set ops \<longrightarrow> (\<exists>t\<in>set ts. dop \<in> set (et_system t))" using 2 True by (auto simp: Let_def)
    obtain fs where "snd (edge_turn ac t (srv, ?app)) = fold (edge_step ac) [EdgeServe fs, EdgeTick] ?app"
      using turn_steps [of ac t "(srv, ?app)"] by auto
    then have "snd (edge_loop ac (t # ts) (srv, app0)) =
        fold (edge_step ac) (map EdgeSystem (et_system t) @ [EdgeServe fs, EdgeTick] @ ops) app0"
      using True o(1) unfolding sys by (simp add: Let_def sys del: edge_step.simps)
    moreover have "\<forall>dop. EdgeSystem dop \<in> set (map EdgeSystem (et_system t) @ [EdgeServe fs, EdgeTick] @ ops) \<longrightarrow>
        (\<exists>t\<in>set (t # ts). dop \<in> set (et_system t))" using o(2) by auto
    ultimately show ?thesis by (metis snd_conv)
  next
    case False
    then show ?thesis using sys by (intro exI [of _ "map EdgeSystem (et_system t)"]) (auto simp: Let_def)
  qed
qed

text \<open>And \<^verbatim>\<open>main\<close> gets there by starting and booting the daemon it constructed from its options.\<close>

lemma main_start_steps:
  assumes "edge_main_start args env listen envs = Inr (ac, srv, app)"
  shows "\<exists>options. parse_options args = Parsed options \<and>
     app = fold (edge_step ac) [EdgeSystem (DStart env), EdgeSystem DBoot] (edge_init (eo_daemon options) envs)"
proof -
  obtain options where o: "parse_options args = Parsed options" using assms
    by (auto simp: edge_main_start_def split: ParseOutcome.splits)
  obtain d r where s: "d_start env (d_init (eo_daemon options)) = (d, r)" by fastforce
  then have "app = (edge_init (eo_daemon options) envs)\<lparr>ed_daemon := fst (d_boot d)\<rparr>"
    using assms o by (auto simp: edge_main_start_def split: sum.splits prod.splits if_splits)
  moreover have "d = fst (d_start env (d_init (eo_daemon options)))" using s by simp
  ultimately show ?thesis using o by (simp add: edge_init_def)
qed

section \<open>The coil is written on edges\<close>

datatype MapperOp = MObserve CellReadyDecision bool | MOffline | MSync CellReadyDecision

fun mapper_step :: "MapperOp \<Rightarrow> CellReadyMapper \<Rightarrow> CellReadyMapper" where
  "mapper_step (MObserve d online) m = fst (mapper_observe d online m)"
| "mapper_step MOffline m = note_modbus_offline m"
| "mapper_step (MSync d) m = synchronize_after_probe d m"

text \<open>The baseline an operation leaves for the next observation.\<close>

fun baseline :: "MapperOp \<Rightarrow> bool option" where
  "baseline (MObserve d online) = (if online then Some (cd_cell_ready d) else None)"
| "baseline MOffline = None"
| "baseline (MSync d) = Some (cd_cell_ready d)"

lemma step_baseline:
  "(if crm_armed (mapper_step op m) then Some (crm_last_ready (mapper_step op m)) else None) = baseline op"
  by (cases op) (auto simp: mapper_observe_def note_modbus_offline_def synchronize_after_probe_def)

lemma run_baseline:
  "(if crm_armed (fold mapper_step ops mapper_init) then Some (crm_last_ready (fold mapper_step ops mapper_init)) else None) =
     (if ops = [] then None else baseline (List.last ops))"
proof (cases ops rule: rev_cases)
  case (snoc ys y)
  then show ?thesis using step_baseline [of y "fold mapper_step ys mapper_init"] by (simp split: if_splits)
qed (simp add: mapper_init_def)

lemma observe_action:
  "snd (mapper_observe d online m) =
     (if online \<and> crm_armed m \<and> crm_last_ready m \<noteq> cd_cell_ready d
      then if cd_cell_ready d then CellReadyDo0Action.RequestOn else CellReadyDo0Action.RequestOff
      else CellReadyDo0Action.NoAction)"
  by (auto simp: mapper_observe_def)


lemma observed_edge:
  assumes "mapper_observe d True m = (m', action)" and "action \<noteq> CellReadyDo0Action.NoAction"
  shows "crm_armed m \<and> crm_last_ready m = (\<not> cd_cell_ready d) \<and> (action = CellReadyDo0Action.RequestOn) = cd_cell_ready d"
  using assms by (auto simp: mapper_observe_def split: if_splits)

text \<open>The tick writes what the decision it just took says, from an armed mapper with the opposite baseline.\<close>

lemma tick_writes:
  assumes "tick_cell_ready ac app = (app', Some on)"
  shows "crm_armed (ed_mapper app) \<and> crm_last_ready (ed_mapper app) = (\<not> on) \<and>
    cd_cell_ready (evaluate_cell_ready (adapter_snapshot ac (ee_now (ed_env app)) (ed_daemon app))) = on"
proof -
  let ?d = "evaluate_cell_ready (adapter_snapshot ac (ee_now (ed_env app)) (ed_daemon app))"
  obtain m action where o: "mapper_observe ?d True (ed_mapper app) = (m, action)" by fastforce
  have "action \<noteq> CellReadyDo0Action.NoAction"
    "on = (action = CellReadyDo0Action.RequestOn)"
    using assms o by (auto simp: tick_cell_ready_def Let_def dest!: write_frame split: if_splits)
  then show ?thesis using observed_edge [OF o] by simp
qed

text \<open>Whatever the tick does, its outcome leaves no write to be repeated by the next one.\<close>

lemma tick_mapper:
  assumes "tick_cell_ready ac app = (app', w)"
  shows "\<not> crm_armed (ed_mapper app') \<or>
    crm_last_ready (ed_mapper app') = cd_cell_ready (evaluate_cell_ready (adapter_snapshot ac (ee_now (ed_env app)) (ed_daemon app)))"
proof -
  let ?d = "evaluate_cell_ready (adapter_snapshot ac (ee_now (ed_env app)) (ed_daemon app))"
  obtain m action where o: "mapper_observe ?d True (ed_mapper app) = (m, action)" by fastforce
  then have "crm_last_ready m = cd_cell_ready ?d"
    by (auto simp: mapper_observe_def synchronize_after_probe_def split: if_splits)
  then show ?thesis using assms o unfolding tick_cell_ready_def Let_def
    by (auto simp: note_modbus_offline_def dest!: write_frame split: if_splits)
qed

text \<open>
  A coil write is never repeated. Once a tick has tried to write the coil,
  whether the write succeeded or failed, the next tick writes nothing as long as
  its decision asks for the same value, whatever the daemon has done in between:
  a failed write is not retried.
\<close>
theorem tick_never_repeats:
  assumes "tick_cell_ready ac app = (app1, Some on)"
    and "cd_cell_ready (evaluate_cell_ready (adapter_snapshot ac (ee_now (ed_env app1)) d)) = on"
  shows "snd (tick_cell_ready ac (app1\<lparr>ed_daemon := d\<rparr>)) = None"
proof (rule ccontr)
  let ?app = "app1\<lparr>ed_daemon := d\<rparr>"
  assume "snd (tick_cell_ready ac ?app) \<noteq> None"
  then obtain app2 on2 where t: "tick_cell_ready ac ?app = (app2, Some on2)" by (metis option.exhaust prod.collapse)
  have "ed_env ?app = ed_env app1" by (simp add: ed_env_def)
  then show False using tick_writes [OF assms(1)] tick_mapper [OF assms(1)] tick_writes [OF t] assms(2) by auto
qed

definition demo_adapter :: AdapterConfig where
  "demo_adapter = \<lparr>ad_evidence = EvidenceClass.Vcan, ad_backend_label = ''SOCKETCAN''\<rparr>"

text \<open>An application that saw the cell ready and whose agent accepts the connection and never answers.\<close>

definition demo_tick_app :: EdgeApp where
  "demo_tick_app = (edge_init daemon_config_default [edge_quiet\<lparr>ee_connect := Connected\<rparr>])
     \<lparr>ed_mapper := \<lparr>crm_armed = True, crm_last_ready = True\<rparr>\<rparr>"

lemma demo_not_ready: "\<not> cd_cell_ready (evaluate_cell_ready (adapter_snapshot demo_adapter now (d_init daemon_config_default)))"
  by (simp add: evaluate_cell_ready_def Let_def adapter_snapshot_fields adapter_device_view_def d_snapshot_def d_init_def raw_node_def node_snapshot_default_def)

lemma demo_tick: "snd (tick_cell_ready demo_adapter demo_tick_app) = Some False"
proof -
  have w: "snd (edge_write_do0 e on app) = Some on" if "ee_connect e = Connected" for e on app
    using that by (simp add: edge_write_do0_def edge_connect_def ac_connect_def sock_connect_def Let_def split: prod.split sum.split)
  have "ee_connect (ed_env demo_tick_app) = Connected" by (simp add: ed_env_def demo_tick_app_def edge_init_def)
  with demo_not_ready show ?thesis
    by (simp add: tick_cell_ready_def Let_def mapper_observe_def w) (simp add: demo_tick_app_def edge_init_def ed_next_def)
qed

theorem tick_never_repeats_witness:
  "snd (tick_cell_ready demo_adapter demo_tick_app) = Some False \<and>
   snd (tick_cell_ready demo_adapter ((fst (tick_cell_ready demo_adapter demo_tick_app))\<lparr>ed_daemon := d_init daemon_config_default\<rparr>)) = None"
  using tick_never_repeats [of demo_adapter demo_tick_app "fst (tick_cell_ready demo_adapter demo_tick_app)" False "d_init daemon_config_default"]
    demo_tick demo_not_ready by (metis prod.collapse)

section \<open>From an engineering station to the bus\<close>

text \<open>
  C23. A CAN frame goes back to an engineering station. The edge application
  starts from its constructor; server turns, ticks and steps of the daemon's
  threads follow in any order, none of the latter an activation or a
  publication. If the daemon then sends a frame, a station had sent an activate
  request, and a submit request whose payload decodes to the session, sequence,
  mask and values that the frame carries to the configured node. Ticks, probes
  and status requests move nothing on the bus.
\<close>
theorem edge_frame_from_station:
  assumes "snd (d_wake env (ed_daemon (fold (edge_step ac) ops (edge_init config envs)))) = Some f"
    and "\<forall>op. EdgeSystem op \<in> set ops \<longrightarrow> op \<noteq> DActivate \<and> (\<forall>c. op \<noteq> DPublish c)"
  shows "(\<exists>fs a. EdgeServe fs \<in> set ops \<and> a \<in> set fs \<and> cf_type a = CellAppMessage.Activate) \<and>
    (\<exists>fs q r wire. EdgeServe fs \<in> set ops \<and> q \<in> set fs \<and> cf_type q = CellAppMessage.SubmitOutput \<and>
       decode_cell_output_payload (cf_payload q) = Inr r \<and>
       decode f = Inr (DOutputCommand wire) \<and> wc_node_id wire = dc_node_id config \<and>
       uint (wc_session_id wire) = uint (dr_session_id r) \<and> uint (wc_sequence wire) = uint (dr_sequence r) \<and>
       uint (wc_mask wire) = uint (dr_mask r) \<and> uint (wc_values wire) = uint (dr_values r))"
proof -
  obtain wops where w: "ed_daemon (fold (edge_step ac) ops (edge_init config envs)) = fold wb_step wops (d_init config)"
    "\<forall>w\<in>set wops. (\<exists>dop. EdgeSystem dop \<in> set ops \<and> w = WSystem dop) \<or>
       (\<exists>fs f app'. EdgeServe fs \<in> set ops \<and> f \<in> set fs \<and> w \<in> set (request_calls f app'))"
    using edge_run_daemon [of ac ops "edge_init config envs"] by (auto simp: edge_init_def)
  have "\<forall>op. WSystem op \<in> set wops \<longrightarrow> op \<noteq> DActivate \<and> (\<forall>c. op \<noteq> DPublish c)"
    using w(2) assms(2) calls_not_system by fastforce
  note x = workbench_frame_exact [OF assms(1) [unfolded w(1)] this]
  then obtain t r wire where r: "WActivate \<in> set wops" "WSubmit (Inr t) r \<in> set wops" "decode f = Inr (DOutputCommand wire)"
    "wc_node_id wire = dc_node_id config" "uint (wc_session_id wire) = uint (dr_session_id r)"
    "uint (wc_sequence wire) = uint (dr_sequence r)" "uint (wc_mask wire) = uint (dr_mask r)"
    "uint (wc_values wire) = uint (dr_values r)" by blast
  obtain fs a app1 where a: "EdgeServe fs \<in> set ops" "a \<in> set fs" "WActivate \<in> set (request_calls a app1)"
    using w(2) r(1) by blast
  obtain fs2 q app2 where q: "EdgeServe fs2 \<in> set ops" "q \<in> set fs2" "WSubmit (Inr t) r \<in> set (request_calls q app2)"
    using w(2) r(2) by blast
  show ?thesis using a q r(3-) calls_activate [OF a(3)] calls_submit [OF q(3)] by blast
qed

text \<open>The daemon brought up to the point where a station's requests reach the bus.\<close>

definition demo_edge_ops :: "EdgeOp list" where
  "demo_edge_ops = map EdgeSystem (take 3 demo_open_ops) @
     [EdgeServe [\<lparr>cf_type = CellAppMessage.Activate, cf_sequence = 1, cf_payload = []\<rparr>,
                 \<lparr>cf_type = CellAppMessage.SubmitOutput, cf_sequence = 2, cf_payload = encode_cell_output_payload demo_request\<rparr>],
      EdgeTick]"

definition demo_edge_envs :: "EdgeEnv list" where
  "demo_edge_envs = [edge_quiet\<lparr>ee_now := Inr 20000000\<rparr>]"

lemma run_requests_fst: "fst (run_requests H (f # fs) h) = fst (run_requests H fs (fst (cell_handle_request H f h)))"
  by (simp add: split_beta)

lemma tick_daemon: "ed_daemon (fst (tick_cell_ready ac app)) = ed_daemon app"
  using tick_frame [of ac app] by (metis prod.collapse)

lemma activate_envs:
  "cf_type f = CellAppMessage.Activate \<Longrightarrow> ed_envs (fst (cell_handle_request (edge_handler ac) f app)) = ed_envs app"
  by (simp add: cell_handle_request_def edge_handler_def edge_activate_def Let_def split: prod.split)

lemma demo_edge_sends:
  "snd (d_wake (demo_wake False) (ed_daemon (fold (edge_step demo_adapter) demo_edge_ops (edge_init demo_daemon_config demo_edge_envs)))) \<noteq> None"
proof -
  let ?app = "fold (edge_step demo_adapter) (map EdgeSystem (take 3 demo_open_ops)) (edge_init demo_daemon_config demo_edge_envs)"
  have d: "ed_daemon ?app = fold d_step (take 3 demo_open_ops) (d_init demo_daemon_config)" "ed_envs ?app = demo_edge_envs"
    unfolding system_steps [symmetric] by (simp_all add: edge_init_def)
  have "ed_daemon (fold (edge_step demo_adapter) demo_edge_ops (edge_init demo_daemon_config demo_edge_envs)) =
     fold wb_step [WActivate, WSubmit (Inr 20000000) demo_request] (fold d_step (take 3 demo_open_ops) (d_init demo_daemon_config))"
    unfolding demo_edge_ops_def fold_append comp_def
    by (simp add: tick_daemon request_daemon run_requests_fst request_calls_def d [unfolded demo_edge_envs_def] activate_envs ed_env_def demo_edge_envs_def
      cell_output_roundtrip del: run_requests.simps(2))
  moreover have "snd (d_wake (demo_wake False) (fold wb_step [WActivate, WSubmit (Inr 20000000) demo_request]
     (fold d_step (take 3 demo_open_ops) (d_init demo_daemon_config)))) \<noteq> None" by code_simp
  ultimately show ?thesis by simp
qed

theorem edge_frame_from_station_witness:
  "\<exists>f wire. snd (d_wake (demo_wake False)
       (ed_daemon (fold (edge_step demo_adapter) demo_edge_ops (edge_init demo_daemon_config demo_edge_envs)))) = Some f \<and>
     decode f = Inr (DOutputCommand wire) \<and> wc_node_id wire = dc_node_id demo_daemon_config"
proof -
  obtain f where f: "snd (d_wake (demo_wake False)
      (ed_daemon (fold (edge_step demo_adapter) demo_edge_ops (edge_init demo_daemon_config demo_edge_envs)))) = Some f"
    using demo_edge_sends by blast
  have "\<forall>op. EdgeSystem op \<in> set demo_edge_ops \<longrightarrow> op \<noteq> DActivate \<and> (\<forall>c. op \<noteq> DPublish c)"
    by (auto simp: demo_edge_ops_def demo_open_ops_def)
  with edge_frame_from_station [OF f this] show ?thesis using f by blast
qed

end
