(* ===== verification/Mbus_Tcp.thy ===== *)
theory Mbus_Tcp
  imports Frame_Stream App_Model
begin

text \<open>
  The Modbus TCP experiment, \<^verbatim>\<open>experiments/modbus_tcp\<close>: the codec of \<^verbatim>\<open>codec.cpp\<close>, the stream
  framer of \<^verbatim>\<open>framing.cpp\<close>, the holding registers of \<^verbatim>\<open>register_map.cpp\<close>, the client with its
  reconnects of \<^verbatim>\<open>client.cpp\<close> and the reference server of \<^verbatim>\<open>server.cpp\<close>. What the
  sockets give is a script: connection outcomes, send results, chunks received.
  The lemmas show that the framer is a \<open>frame_stream\<close>, that a multiple write is
  all or nothing and is read back, that client and server agree on every
  transaction however the bytes are cut, and that one late reply shifts every
  later transaction of the connection.
\<close>

section \<open>Constants and errors\<close>

definition kProtocolId :: u16 where "kProtocolId = 0"
definition kMbapSize :: nat where "kMbapSize = 7"
definition kMaxAduSize :: nat where "kMaxAduSize = 260"
definition kMaxPduSize :: nat where "kMaxPduSize = 253"
definition kFcReadHolding :: u8 where "kFcReadHolding = 0x03"
definition kFcWriteSingle :: u8 where "kFcWriteSingle = 0x06"
definition kFcWriteMultiple :: u8 where "kFcWriteMultiple = 0x10"
definition kExIllegalFunction :: u8 where "kExIllegalFunction = 0x01"
definition kExIllegalDataAddress :: u8 where "kExIllegalDataAddress = 0x02"
definition kExIllegalDataValue :: u8 where "kExIllegalDataValue = 0x03"

datatype MbusError = Ok | NeedMore | InvalidProtocolId | InvalidLength | Truncated | BufferOverflow | UnsupportedFunction | IllegalAddress | IllegalValue | ExceptionResponse | TransactionMismatch | UnexpectedPdu | Io | Timeout | Closed | Busy

fun MbusError_to_string :: "MbusError \<Rightarrow> string" where
  "MbusError_to_string MbusError.Ok = ''ok''"
| "MbusError_to_string MbusError.NeedMore = ''need_more''"
| "MbusError_to_string MbusError.InvalidProtocolId = ''invalid_protocol_id''"
| "MbusError_to_string MbusError.InvalidLength = ''invalid_length''"
| "MbusError_to_string MbusError.Truncated = ''truncated''"
| "MbusError_to_string MbusError.BufferOverflow = ''buffer_overflow''"
| "MbusError_to_string MbusError.UnsupportedFunction = ''unsupported_function''"
| "MbusError_to_string MbusError.IllegalAddress = ''illegal_address''"
| "MbusError_to_string MbusError.IllegalValue = ''illegal_value''"
| "MbusError_to_string MbusError.ExceptionResponse = ''exception_response''"
| "MbusError_to_string MbusError.TransactionMismatch = ''transaction_mismatch''"
| "MbusError_to_string MbusError.UnexpectedPdu = ''unexpected_pdu''"
| "MbusError_to_string MbusError.Io = ''io''"
| "MbusError_to_string MbusError.Timeout = ''timeout''"
| "MbusError_to_string MbusError.Closed = ''closed''"
| "MbusError_to_string MbusError.Busy = ''busy''"

text \<open>A result: error code and message, or the value.\<close>

type_synonym 'a MbusResult = "(MbusError \<times> string) + 'a"

record Mbap =
  mh_transaction_id :: u16
  mh_protocol_id :: u16
  mh_length :: u16
  mh_unit_id :: u8

record Adu =
  adu_mbap :: Mbap
  adu_pdu :: "u8 list"

section \<open>Codec\<close>

definition put_u16_be :: "u8 list \<Rightarrow> u16 \<Rightarrow> u8 list" where
  "put_u16_be out v = out @ [ucast (drop_bit 8 v AND 0xFF), ucast (v AND 0xFF)]"

definition get_u16_be :: "u8 list \<Rightarrow> nat \<Rightarrow> u16 MbusResult" where
  "get_u16_be b off =
     (if off + 2 > length b then Inl (MbusError.Truncated, ''need 2 bytes'')
      else Inr (push_bit 8 (ucast (b ! off)) OR ucast (b ! (off + 1))))"

definition encode_adu :: "Adu \<Rightarrow> u8 list MbusResult" where
  "encode_adu adu =
     (if adu_pdu adu = [] then Inl (MbusError.InvalidLength, ''empty pdu'')
      else if length (adu_pdu adu) > kMaxPduSize then Inl (MbusError.InvalidLength, ''pdu too large'')
      else if mh_protocol_id (adu_mbap adu) \<noteq> kProtocolId then Inl (MbusError.InvalidProtocolId, ''protocol_id must be 0'')
      else
        let out = put_u16_be [] (mh_transaction_id (adu_mbap adu));
            out = put_u16_be out (mh_protocol_id (adu_mbap adu));
            out = put_u16_be out (of_nat (1 + length (adu_pdu adu)))
        in Inr (out @ [mh_unit_id (adu_mbap adu)] @ adu_pdu adu))"

definition decode_adu :: "u8 list \<Rightarrow> Adu MbusResult" where
  "decode_adu bytes =
     (if length bytes < kMbapSize then Inl (MbusError.Truncated, ''adu shorter than MBAP'')
      else case (get_u16_be bytes 0, get_u16_be bytes 2, get_u16_be bytes 4) of
        (Inr tid, Inr pid, Inr len) \<Rightarrow>
          if pid \<noteq> kProtocolId then Inl (MbusError.InvalidProtocolId, ''protocol_id != 0'')
          else if len < 2 then Inl (MbusError.InvalidLength, ''length < 2'')
          else
            let expected = 6 + unat len
            in if expected > kMaxAduSize then Inl (MbusError.InvalidLength, ''adu exceeds max'')
               else if length bytes < expected then Inl (MbusError.Truncated, ''adu incomplete'')
               else if length bytes \<noteq> expected then
                 Inl (MbusError.InvalidLength, ''adu size mismatch (caller must pass exact frame)'')
               else
                 let pdu = take (unat len - 1) (drop kMbapSize bytes)
                 in if pdu = [] then Inl (MbusError.InvalidLength, ''empty pdu after unit'')
                    else Inr \<lparr>adu_mbap = \<lparr>mh_transaction_id = tid, mh_protocol_id = pid, mh_length = len, mh_unit_id = bytes ! 6\<rparr>,
                              adu_pdu = pdu\<rparr>
      | _ \<Rightarrow> Inl (MbusError.Truncated, ''mbap truncated''))"

definition encode_read_holding_request :: "u16 \<Rightarrow> u16 \<Rightarrow> u8 list MbusResult" where
  "encode_read_holding_request address quantity =
     (if quantity < 1 \<or> quantity > 125 then Inl (MbusError.IllegalValue, ''read quantity out of range'')
      else Inr (put_u16_be (put_u16_be [kFcReadHolding] address) quantity))"

definition encode_write_single_request :: "u16 \<Rightarrow> u16 \<Rightarrow> u8 list MbusResult" where
  "encode_write_single_request address v = Inr (put_u16_be (put_u16_be [kFcWriteSingle] address) v)"

definition encode_write_multiple_request :: "u16 \<Rightarrow> u16 list \<Rightarrow> u8 list MbusResult" where
  "encode_write_multiple_request address values =
     (if values = [] \<or> length values > 123 then Inl (MbusError.IllegalValue, ''write multiple quantity out of range'')
      else
        let byte_count = of_nat (length values * 2);
            pdu = put_u16_be (put_u16_be [kFcWriteMultiple] address) (of_nat (length values)) @ [byte_count]
        in Inr (foldl put_u16_be pdu values))"

definition encode_read_holding_response :: "u16 list \<Rightarrow> u8 list MbusResult" where
  "encode_read_holding_response values =
     (if values = [] \<or> length values > 125 then Inl (MbusError.IllegalValue, ''response quantity out of range'')
      else Inr (foldl put_u16_be [kFcReadHolding, of_nat (length values * 2)] values))"

definition encode_write_single_response :: "u16 \<Rightarrow> u16 \<Rightarrow> u8 list MbusResult" where
  "encode_write_single_response address v = encode_write_single_request address v"

definition encode_write_multiple_response :: "u16 \<Rightarrow> u16 \<Rightarrow> u8 list MbusResult" where
  "encode_write_multiple_response address quantity = Inr (put_u16_be (put_u16_be [kFcWriteMultiple] address) quantity)"

definition encode_exception_response :: "u8 \<Rightarrow> u8 \<Rightarrow> u8 list MbusResult" where
  "encode_exception_response function code = Inr [function OR 0x80, code]"

record WriteSingleResponse =
  ws_address :: u16
  ws_value :: u16

record WriteMultipleResponse =
  wm_address :: u16
  wm_quantity :: u16

record ExceptionInfo =
  ex_function :: u8
  ex_code :: u8

text \<open>The register loop of a read response, from the index \<open>i\<close> on.\<close>

fun get_values :: "u8 list \<Rightarrow> nat \<Rightarrow> nat \<Rightarrow> u16 list MbusResult" where
  "get_values pdu off 0 = Inr []"
| "get_values pdu off (Suc n) =
     (case get_u16_be pdu off of
        Inl e \<Rightarrow> Inl e
      | Inr v \<Rightarrow> (case get_values pdu (off + 2) n of Inl e \<Rightarrow> Inl e | Inr vs \<Rightarrow> Inr (v # vs)))"

definition decode_read_holding_response :: "u8 list \<Rightarrow> u16 list MbusResult" where
  "decode_read_holding_response pdu =
     (if length pdu < 2 then Inl (MbusError.Truncated, ''pdu too short'')
      else if pdu ! 0 \<noteq> kFcReadHolding then Inl (MbusError.UnexpectedPdu, ''not read holding response'')
      else
        let byte_count = unat (pdu ! 1)
        in if byte_count mod 2 \<noteq> 0 then Inl (MbusError.IllegalValue, ''odd byte count'')
           else if length pdu \<noteq> 2 + byte_count then Inl (MbusError.Truncated, ''byte_count mismatch'')
           else get_values pdu 2 (byte_count div 2))"

definition decode_write_single_response :: "u8 list \<Rightarrow> WriteSingleResponse MbusResult" where
  "decode_write_single_response pdu =
     (if length pdu \<noteq> 5 \<or> pdu ! 0 \<noteq> kFcWriteSingle then Inl (MbusError.UnexpectedPdu, ''not write single response'')
      else case (get_u16_be pdu 1, get_u16_be pdu 3) of
        (Inr a, Inr v) \<Rightarrow> Inr \<lparr>ws_address = a, ws_value = v\<rparr>
      | _ \<Rightarrow> Inl (MbusError.Truncated, ''write single truncated''))"

definition decode_write_multiple_response :: "u8 list \<Rightarrow> WriteMultipleResponse MbusResult" where
  "decode_write_multiple_response pdu =
     (if length pdu \<noteq> 5 \<or> pdu ! 0 \<noteq> kFcWriteMultiple then Inl (MbusError.UnexpectedPdu, ''not write multiple response'')
      else case (get_u16_be pdu 1, get_u16_be pdu 3) of
        (Inr a, Inr q) \<Rightarrow> Inr \<lparr>wm_address = a, wm_quantity = q\<rparr>
      | _ \<Rightarrow> Inl (MbusError.Truncated, ''write multiple truncated''))"

definition decode_exception_response :: "u8 list \<Rightarrow> ExceptionInfo MbusResult" where
  "decode_exception_response pdu =
     (if length pdu \<noteq> 2 \<or> pdu ! 0 AND 0x80 = 0 then Inl (MbusError.UnexpectedPdu, ''not exception response'')
      else Inr \<lparr>ex_function = pdu ! 0 AND 0x7F, ex_code = pdu ! 1\<rparr>)"

section \<open>Framing\<close>

text \<open>The framer is its buffer.\<close>

definition try_pop_adu :: "u8 list \<Rightarrow> u8 list \<times> u8 list MbusResult" where
  "try_pop_adu buffer =
     (if length buffer < kMbapSize then (buffer, Inl (MbusError.NeedMore, ''wait mbap''))
      else case (get_u16_be buffer 2, get_u16_be buffer 4) of
        (Inr pid, Inr len) \<Rightarrow>
          if pid \<noteq> kProtocolId then (buffer, Inl (MbusError.InvalidProtocolId, ''protocol_id != 0''))
          else if len < 2 then (buffer, Inl (MbusError.InvalidLength, ''length < 2''))
          else
            let n = 6 + unat len
            in if n > kMaxAduSize then (buffer, Inl (MbusError.InvalidLength, ''length implies oversized adu''))
               else if length buffer < n then (buffer, Inl (MbusError.NeedMore, ''wait body''))
               else (drop n buffer, Inr (take n buffer))
      | _ \<Rightarrow> (buffer, Inl (MbusError.Truncated, ''mbap read failed'')))"

section \<open>Holding registers\<close>

type_synonym HoldingMap = "u16 list"

definition hm_init :: "nat \<Rightarrow> HoldingMap" where
  "hm_init n = replicate n 0"

definition hm_read :: "u16 \<Rightarrow> u16 \<Rightarrow> HoldingMap \<Rightarrow> u16 list MbusResult" where
  "hm_read address quantity regs =
     (if quantity < 1 \<or> quantity > 125 then Inl (MbusError.IllegalValue, ''quantity out of range'')
      else if unat address + unat quantity > length regs then Inl (MbusError.IllegalAddress, ''read past map'')
      else Inr (take (unat quantity) (drop (unat address) regs)))"

definition hm_write_single :: "u16 \<Rightarrow> u16 \<Rightarrow> HoldingMap \<Rightarrow> HoldingMap \<times> unit MbusResult" where
  "hm_write_single address v regs =
     (if unat address \<ge> length regs then (regs, Inl (MbusError.IllegalAddress, ''write past map''))
      else (regs[unat address := v], Inr ()))"

text \<open>The store loop of a multiple write.\<close>

fun store_values :: "nat \<Rightarrow> u16 list \<Rightarrow> HoldingMap \<Rightarrow> HoldingMap" where
  "store_values start [] regs = regs"
| "store_values start (v # vs) regs = store_values (Suc start) vs (regs[start := v])"

definition hm_write_multiple :: "u16 \<Rightarrow> u16 list \<Rightarrow> HoldingMap \<Rightarrow> HoldingMap \<times> unit MbusResult" where
  "hm_write_multiple address values regs =
     (if values = [] \<or> length values > 123 then (regs, Inl (MbusError.IllegalValue, ''quantity out of range''))
      else if unat address + length values > length regs then (regs, Inl (MbusError.IllegalAddress, ''write past map''))
      else (store_values (unat address) values regs, Inr ()))"

definition handle_read_pdu :: "u8 list \<Rightarrow> HoldingMap \<Rightarrow> HoldingMap \<times> u8 list MbusResult" where
  "handle_read_pdu pdu regs =
     (if length pdu \<noteq> 5 then (regs, encode_exception_response (pdu ! 0) kExIllegalDataValue)
      else case (get_u16_be pdu 1, get_u16_be pdu 3) of
        (Inr addr, Inr qty) \<Rightarrow>
          (case hm_read addr qty regs of
             Inr values \<Rightarrow> (regs, encode_read_holding_response values)
           | Inl (e, message) \<Rightarrow>
               (regs, if e = MbusError.IllegalAddress then encode_exception_response (pdu ! 0) kExIllegalDataAddress
                      else if e = MbusError.IllegalValue then encode_exception_response (pdu ! 0) kExIllegalDataValue
                      else Inl (e, message)))
      | _ \<Rightarrow> (regs, encode_exception_response (pdu ! 0) kExIllegalDataValue))"

definition handle_write_single_pdu :: "u8 list \<Rightarrow> HoldingMap \<Rightarrow> HoldingMap \<times> u8 list MbusResult" where
  "handle_write_single_pdu pdu regs =
     (if length pdu \<noteq> 5 then (regs, encode_exception_response (pdu ! 0) kExIllegalDataValue)
      else case (get_u16_be pdu 1, get_u16_be pdu 3) of
        (Inr addr, Inr v) \<Rightarrow>
          (case hm_write_single addr v regs of
             (regs1, Inr _) \<Rightarrow> (regs1, encode_write_single_response addr v)
           | (regs1, Inl (e, message)) \<Rightarrow>
               (regs1, if e = MbusError.IllegalAddress then encode_exception_response (pdu ! 0) kExIllegalDataAddress
                       else Inl (e, message)))
      | _ \<Rightarrow> (regs, encode_exception_response (pdu ! 0) kExIllegalDataValue))"

definition handle_write_multiple_pdu :: "u8 list \<Rightarrow> HoldingMap \<Rightarrow> HoldingMap \<times> u8 list MbusResult" where
  "handle_write_multiple_pdu pdu regs =
     (if length pdu < 6 then (regs, encode_exception_response (pdu ! 0) kExIllegalDataValue)
      else case (get_u16_be pdu 1, get_u16_be pdu 3) of
        (Inr addr, Inr qty) \<Rightarrow>
          let byte_count = unat (pdu ! 5)
          in if byte_count \<noteq> unat qty * 2 \<or> length pdu \<noteq> 6 + byte_count then
               (regs, encode_exception_response (pdu ! 0) kExIllegalDataValue)
             else (case get_values pdu 6 (unat qty) of
                 Inl _ \<Rightarrow> (regs, encode_exception_response (pdu ! 0) kExIllegalDataValue)
               | Inr values \<Rightarrow>
                   (case hm_write_multiple addr values regs of
                      (regs1, Inr _) \<Rightarrow> (regs1, encode_write_multiple_response addr qty)
                    | (regs1, Inl (e, message)) \<Rightarrow>
                        (regs1, if e = MbusError.IllegalAddress then encode_exception_response (pdu ! 0) kExIllegalDataAddress
                                else if e = MbusError.IllegalValue then encode_exception_response (pdu ! 0) kExIllegalDataValue
                                else Inl (e, message))))
      | _ \<Rightarrow> (regs, encode_exception_response (pdu ! 0) kExIllegalDataValue))"

definition handle_pdu :: "u8 list \<Rightarrow> HoldingMap \<Rightarrow> HoldingMap \<times> u8 list MbusResult" where
  "handle_pdu pdu regs =
     (if pdu = [] then (regs, Inl (MbusError.Truncated, ''empty pdu''))
      else
        let fc = pdu ! 0
        in if fc = kFcReadHolding then handle_read_pdu pdu regs
           else if fc = kFcWriteSingle then handle_write_single_pdu pdu regs
           else if fc = kFcWriteMultiple then handle_write_multiple_pdu pdu regs
           else (regs, encode_exception_response fc kExIllegalFunction))"

section \<open>Client\<close>

record MbusClientConfig =
  mcc_host :: string
  mcc_port :: u16
  mcc_unit_id :: u8
  mcc_connect_timeout_ms :: int
  mcc_response_timeout_ms :: int
  mcc_reconnect_base_ms :: int
  mcc_reconnect_max_ms :: int
  mcc_reconnect_attempts :: int

definition mbus_client_config_default :: MbusClientConfig where
  "mbus_client_config_default = \<lparr>mcc_host = ''127.0.0.1'', mcc_port = 1502, mcc_unit_id = 1, mcc_connect_timeout_ms = 1000,
     mcc_response_timeout_ms = 1000, mcc_reconnect_base_ms = 50, mcc_reconnect_max_ms = 1000, mcc_reconnect_attempts = 5\<rparr>"

record MbusClient =
  mc_config :: MbusClientConfig
  mc_connected :: bool
  mc_next_tid :: u16
  mc_framer :: "u8 list"

definition mc_init :: "MbusClientConfig \<Rightarrow> MbusClient" where
  "mc_init cfg = \<lparr>mc_config = cfg, mc_connected = False, mc_next_tid = 1, mc_framer = []\<rparr>"

definition mc_close :: "MbusClient \<Rightarrow> MbusClient" where
  "mc_close c = c\<lparr>mc_connected := False, mc_framer := []\<rparr>"

datatype MbusConnectOutcome = MbSocketFails string | MbBadAddress | MbFcntlFails string | MbConnectFails string
  | MbConnectTimeout | MbPollFails string | MbSoError string | MbClearFails string | MbConnected

definition mc_connect :: "MbusConnectOutcome \<Rightarrow> MbusClient \<Rightarrow> MbusClient \<times> unit MbusResult" where
  "mc_connect outcome c =
     (let c1 = mc_close c
      in case outcome of
           MbSocketFails e \<Rightarrow> (c1, Inl (MbusError.Io, ''socket: '' @ e))
         | MbBadAddress \<Rightarrow> (c1, Inl (MbusError.Io, ''inet_pton failed''))
         | MbFcntlFails e \<Rightarrow> (c1, Inl (MbusError.Io, ''fcntl: '' @ e))
         | MbConnectFails e \<Rightarrow> (c1, Inl (MbusError.Io, ''connect: '' @ e))
         | MbConnectTimeout \<Rightarrow> (c1, Inl (MbusError.Timeout, ''connect timeout''))
         | MbPollFails e \<Rightarrow> (c1, Inl (MbusError.Io, ''poll: '' @ e))
         | MbSoError e \<Rightarrow> (c1, Inl (MbusError.Io, ''connect so_error: '' @ e))
         | MbClearFails e \<Rightarrow> (c1, Inl (MbusError.Io, ''fcntl clear O_NONBLOCK: '' @ e))
         | MbConnected \<Rightarrow> (c1\<lparr>mc_connected := True, mc_framer := []\<rparr>, Inr ()))"

text \<open>The reconnect loop also returns the delays it slept, in milliseconds.\<close>

fun mc_reconnect_from ::
  "nat \<Rightarrow> nat \<Rightarrow> int \<Rightarrow> MbusError \<times> string \<Rightarrow> (nat \<Rightarrow> MbusConnectOutcome) \<Rightarrow> MbusClient \<Rightarrow> (MbusClient \<times> int list) \<times> unit MbusResult" where
  "mc_reconnect_from i 0 delay failure env c = ((c, []), Inl failure)"
| "mc_reconnect_from i (Suc n) delay failure env c =
     (case mc_connect (env i) c of
        (c1, Inr u) \<Rightarrow> ((c1, []), Inr u)
      | (c1, Inl e) \<Rightarrow>
          (case mc_reconnect_from (Suc i) n (min (delay * 2) (mcc_reconnect_max_ms (mc_config c1))) e env c1 of
             ((c2, sleeps), r) \<Rightarrow> ((c2, delay # sleeps), r)))"

definition mc_reconnect_with_backoff ::
  "(nat \<Rightarrow> MbusConnectOutcome) \<Rightarrow> MbusClient \<Rightarrow> (MbusClient \<times> int list) \<times> unit MbusResult" where
  "mc_reconnect_with_backoff env c =
     mc_reconnect_from 0 (nat (mcc_reconnect_attempts (mc_config c))) (mcc_reconnect_base_ms (mc_config c))
       (MbusError.Io, ''reconnect failed'') env c"

definition mc_ensure_connected :: "(nat \<Rightarrow> MbusConnectOutcome) \<Rightarrow> MbusClient \<Rightarrow> MbusClient \<times> unit MbusResult" where
  "mc_ensure_connected env c =
     (if mc_connected c then (c, Inr ())
      else case mc_reconnect_with_backoff env c of ((c1, _), r) \<Rightarrow> (c1, r))"

text \<open>Results of the calls of one transaction. When a script ends, the remaining bytes are sent and nothing more is received.\<close>

datatype MbusSend = SendTimeout | SendPollFails string | Sent nat | SendEintr | SendFails string
datatype MbusRecv = MbRecvTimeout | MbRecvPollFails string | MbRecvHup | MbRecvEintr | MbRecvFails string | MbRecvBytes "u8 list"

record MbusIo =
  mi_send :: "MbusSend list"
  mi_recv :: "MbusRecv list"

fun mc_send_from :: "nat \<Rightarrow> nat \<Rightarrow> MbusSend list \<Rightarrow> unit MbusResult" where
  "mc_send_from off len [] = Inr ()"
| "mc_send_from off len (s # ss) =
     (if off \<ge> len then Inr ()
      else case s of
        SendTimeout \<Rightarrow> Inl (MbusError.Timeout, ''send timeout'')
      | SendPollFails e \<Rightarrow> Inl (MbusError.Io, ''poll send: '' @ e)
      | SendEintr \<Rightarrow> mc_send_from off len ss
      | SendFails e \<Rightarrow> Inl (MbusError.Io, ''send: '' @ e)
      | Sent n \<Rightarrow> if n = 0 then Inl (MbusError.Closed, ''send returned 0'') else mc_send_from (off + n) len ss)"

definition mc_send_all :: "u8 list \<Rightarrow> MbusSend list \<Rightarrow> unit MbusResult" where
  "mc_send_all bytes sends = mc_send_from 0 (length bytes) sends"

fun mc_recv_adu :: "MbusRecv list \<Rightarrow> u8 list \<Rightarrow> u8 list \<times> u8 list MbusResult" where
  "mc_recv_adu [] framer =
     (case try_pop_adu framer of
        (f, Inr frame) \<Rightarrow> (f, Inr frame)
      | (f, Inl (e, m)) \<Rightarrow> (f, if e \<noteq> MbusError.NeedMore then Inl (e, m) else Inl (MbusError.Timeout, ''response timeout'')))"
| "mc_recv_adu (s # ss) framer =
     (case try_pop_adu framer of
        (f, Inr frame) \<Rightarrow> (f, Inr frame)
      | (f, Inl (e, m)) \<Rightarrow>
          if e \<noteq> MbusError.NeedMore then (f, Inl (e, m))
          else case s of
            MbRecvTimeout \<Rightarrow> (f, Inl (MbusError.Timeout, ''response timeout''))
          | MbRecvPollFails x \<Rightarrow> (f, Inl (MbusError.Io, ''poll recv: '' @ x))
          | MbRecvHup \<Rightarrow> (f, Inl (MbusError.Closed, ''peer closed or error''))
          | MbRecvEintr \<Rightarrow> mc_recv_adu ss f
          | MbRecvFails x \<Rightarrow> (f, Inl (MbusError.Io, ''recv: '' @ x))
          | MbRecvBytes chunk \<Rightarrow>
              if chunk = [] then (f, Inl (MbusError.Closed, ''peer EOF'')) else mc_recv_adu ss (f @ chunk))"

definition mc_request :: "u16 \<Rightarrow> u8 \<Rightarrow> u8 list \<Rightarrow> Adu" where
  "mc_request tid unit_id pdu =
     \<lparr>adu_mbap = \<lparr>mh_transaction_id = tid, mh_protocol_id = kProtocolId, mh_length = 0, mh_unit_id = unit_id\<rparr>, adu_pdu = pdu\<rparr>"

definition mc_transact_once :: "MbusIo \<Rightarrow> u8 list \<Rightarrow> u16 \<Rightarrow> MbusClient \<Rightarrow> MbusClient \<times> Adu MbusResult" where
  "mc_transact_once io pdu tid c =
     (case encode_adu (mc_request tid (mcc_unit_id (mc_config c)) pdu) of
        Inl e \<Rightarrow> (c, Inl e)
      | Inr wire \<Rightarrow>
          (case mc_send_all wire (mi_send io) of
             Inl e \<Rightarrow> (c, Inl e)
           | Inr _ \<Rightarrow>
               (case mc_recv_adu (mi_recv io) (mc_framer c) of
                  (f, Inl e) \<Rightarrow> (c\<lparr>mc_framer := f\<rparr>, Inl e)
                | (f, Inr frame) \<Rightarrow>
                    (c\<lparr>mc_framer := f\<rparr>,
                     case decode_adu frame of
                       Inl e \<Rightarrow> Inl e
                     | Inr adu \<Rightarrow>
                         if mh_transaction_id (adu_mbap adu) \<noteq> tid then
                           Inl (MbusError.TransactionMismatch, ''response transaction id mismatch'')
                         else if mh_unit_id (adu_mbap adu) \<noteq> mcc_unit_id (mc_config c) then
                           Inl (MbusError.UnexpectedPdu, ''unit id mismatch'')
                         else Inr adu))))"

definition mc_transact_raw_expect_tid ::
  "(nat \<Rightarrow> MbusConnectOutcome) \<Rightarrow> MbusIo \<Rightarrow> u8 list \<Rightarrow> u16 \<Rightarrow> MbusClient \<Rightarrow> MbusClient \<times> Adu MbusResult" where
  "mc_transact_raw_expect_tid env io pdu tid c =
     (case mc_ensure_connected env c of (c1, Inl e) \<Rightarrow> (c1, Inl e) | (c1, Inr _) \<Rightarrow> mc_transact_once io pdu tid c1)"

definition mc_take_tid :: "MbusClient \<Rightarrow> MbusClient \<times> u16" where
  "mc_take_tid c = (c\<lparr>mc_next_tid := (if mc_next_tid c + 1 = 0 then 1 else mc_next_tid c + 1)\<rparr>, mc_next_tid c)"

text \<open>What the environment gives to one raw transaction: connects and calls of the first try and of the second.\<close>

record MbusEnv =
  me_connects :: "nat \<Rightarrow> MbusConnectOutcome"
  me_io :: MbusIo
  me_reconnects :: "nat \<Rightarrow> MbusConnectOutcome"
  me_retry_io :: MbusIo

definition mc_transact_raw :: "MbusEnv \<Rightarrow> u8 list \<Rightarrow> MbusClient \<Rightarrow> MbusClient \<times> Adu MbusResult" where
  "mc_transact_raw env pdu c =
     (case mc_ensure_connected (me_connects env) c of
        (c1, Inl e) \<Rightarrow> (c1, Inl e)
      | (c1, Inr _) \<Rightarrow>
          (case mc_take_tid c1 of (c2, tid) \<Rightarrow>
             case mc_transact_once (me_io env) pdu tid c2 of
               (c3, Inr adu) \<Rightarrow> (c3, Inr adu)
             | (c3, Inl (e, m)) \<Rightarrow>
                 if e = MbusError.Closed \<or> e = MbusError.Io then
                   (case mc_reconnect_with_backoff (me_reconnects env) (mc_close c3) of
                      ((c4, _), Inl x) \<Rightarrow> (c4, Inl x)
                    | ((c4, _), Inr _) \<Rightarrow>
                        (case mc_take_tid c4 of (c5, tid2) \<Rightarrow> mc_transact_once (me_retry_io env) pdu tid2 c5))
                 else (c3, Inl (e, m))))"

text \<open>The common end of the three requests: an exception reply, or the reply of the function.\<close>

definition mc_finish :: "(u8 list \<Rightarrow> 'r MbusResult) \<Rightarrow> MbusClient \<times> Adu MbusResult \<Rightarrow> MbusClient \<times> 'r MbusResult" where
  "mc_finish dec cr =
     (case cr of
        (c, Inl e) \<Rightarrow> (c, Inl e)
      | (c, Inr adu) \<Rightarrow>
          (c, if adu_pdu adu \<noteq> [] \<and> (adu_pdu adu ! 0) AND 0x80 \<noteq> 0 then
                Inl (MbusError.ExceptionResponse,
                     case decode_exception_response (adu_pdu adu) of
                       Inl _ \<Rightarrow> ''exception'' | Inr ex \<Rightarrow> ''exception code='' @ nat_to_string (unat (ex_code ex)))
              else dec (adu_pdu adu)))"

definition mc_read_holding :: "MbusEnv \<Rightarrow> u16 \<Rightarrow> u16 \<Rightarrow> MbusClient \<Rightarrow> MbusClient \<times> u16 list MbusResult" where
  "mc_read_holding env address quantity c =
     (case encode_read_holding_request address quantity of
        Inl e \<Rightarrow> (c, Inl e)
      | Inr pdu \<Rightarrow> mc_finish decode_read_holding_response (mc_transact_raw env pdu c))"

definition mc_write_single :: "MbusEnv \<Rightarrow> u16 \<Rightarrow> u16 \<Rightarrow> MbusClient \<Rightarrow> MbusClient \<times> WriteSingleResponse MbusResult" where
  "mc_write_single env address v c =
     (case encode_write_single_request address v of
        Inl e \<Rightarrow> (c, Inl e)
      | Inr pdu \<Rightarrow> mc_finish decode_write_single_response (mc_transact_raw env pdu c))"

definition mc_write_multiple :: "MbusEnv \<Rightarrow> u16 \<Rightarrow> u16 list \<Rightarrow> MbusClient \<Rightarrow> MbusClient \<times> WriteMultipleResponse MbusResult" where
  "mc_write_multiple env address values c =
     (case encode_write_multiple_request address values of
        Inl e \<Rightarrow> (c, Inl e)
      | Inr pdu \<Rightarrow> mc_finish decode_write_multiple_response (mc_transact_raw env pdu c))"

section \<open>Reference server\<close>

lemma try_pop_length: "try_pop_adu b = (b', Inr frame) \<Longrightarrow> length b' < length b"
  by (auto simp: try_pop_adu_def kMbapSize_def Let_def split: if_splits sum.splits)

text \<open>
  Draining the framer of a connection: the registers, the framer or \<open>None\<close> when
  the connection is dropped, and the replies sent. \<open>sends\<close> says which replies go out;
  when it ends, all do.
\<close>

function mbs_drain :: "bool list \<Rightarrow> HoldingMap \<Rightarrow> u8 list \<Rightarrow> HoldingMap \<times> u8 list option \<times> u8 list list" where
  "mbs_drain sends regs framer =
     (case try_pop_adu framer of
        (f, Inl (e, _)) \<Rightarrow> if e = MbusError.NeedMore then (regs, Some f, []) else (regs, None, [])
      | (f, Inr frame) \<Rightarrow>
          (case decode_adu frame of
             Inl _ \<Rightarrow> (regs, None, [])
           | Inr adu \<Rightarrow>
               (case handle_pdu (adu_pdu adu) regs of
                  (regs1, Inl _) \<Rightarrow> (regs1, None, [])
                | (regs1, Inr pdu) \<Rightarrow>
                    (case encode_adu \<lparr>adu_mbap = (adu_mbap adu)\<lparr>mh_protocol_id := kProtocolId\<rparr>, adu_pdu = pdu\<rparr> of
                       Inl _ \<Rightarrow> (regs1, None, [])
                     | Inr wire \<Rightarrow>
                         if sends \<noteq> [] \<and> \<not> hd sends then (regs1, None, [])
                         else (case mbs_drain (tl sends) regs1 f of (r, g, ws) \<Rightarrow> (r, g, wire # ws))))))"
  by pat_completeness auto

termination
  by (relation "measure (\<lambda>(sends, regs, framer). length framer)") (auto dest!: try_pop_length [OF sym])

declare mbs_drain.simps [simp del]

datatype MbusServeStep = SvIdle | SvFails | SvHup | SvRecvEnds | SvRecv "u8 list" "bool list"

fun mbs_serve_client :: "MbusServeStep list \<Rightarrow> HoldingMap \<Rightarrow> u8 list \<Rightarrow> HoldingMap \<times> u8 list option \<times> u8 list list" where
  "mbs_serve_client [] regs framer = (regs, Some framer, [])"
| "mbs_serve_client (s # ss) regs framer =
     (case s of
        SvIdle \<Rightarrow> mbs_serve_client ss regs framer
      | SvFails \<Rightarrow> (regs, None, [])
      | SvHup \<Rightarrow> (regs, None, [])
      | SvRecvEnds \<Rightarrow> (regs, None, [])
      | SvRecv chunk sends \<Rightarrow>
          (case mbs_drain sends regs (framer @ chunk) of
             (regs1, None, ws) \<Rightarrow> (regs1, None, ws)
           | (regs1, Some f, ws) \<Rightarrow>
               (case mbs_serve_client ss regs1 f of (regs2, g, ws2) \<Rightarrow> (regs2, g, ws @ ws2))))"

record RefServer =
  srv_running :: bool
  srv_listening :: bool
  srv_port :: u16
  srv_map :: HoldingMap

definition srv_init :: "nat \<Rightarrow> RefServer" where
  "srv_init holding_count = \<lparr>srv_running = False, srv_listening = False, srv_port = 0, srv_map = hm_init holding_count\<rparr>"

datatype MbusStartOutcome = StSocketFails string | StBadAddress | StBindFails string | StListenFails string | StBound "u16 option"

definition srv_start :: "u16 \<Rightarrow> MbusStartOutcome \<Rightarrow> RefServer \<Rightarrow> RefServer \<times> unit MbusResult" where
  "srv_start cfg_port outcome srv =
     (if srv_running srv then (srv, Inl (MbusError.Busy, ''already running''))
      else case outcome of
        StSocketFails e \<Rightarrow> (srv, Inl (MbusError.Io, ''socket: '' @ e))
      | StBadAddress \<Rightarrow> (srv, Inl (MbusError.Io, ''inet_pton failed''))
      | StBindFails e \<Rightarrow> (srv, Inl (MbusError.Io, ''bind: '' @ e))
      | StListenFails e \<Rightarrow> (srv, Inl (MbusError.Io, ''listen: '' @ e))
      | StBound port \<Rightarrow> (srv\<lparr>srv_port := (case port of None \<Rightarrow> cfg_port | Some p \<Rightarrow> p), srv_listening := True, srv_running := True\<rparr>, Inr ()))"

definition srv_stop :: "RefServer \<Rightarrow> RefServer" where
  "srv_stop srv = srv\<lparr>srv_running := False, srv_listening := False\<rparr>"

text \<open>The accept loop: a list of what each round finds, ending when the server is stopped.\<close>

datatype MbusAccept = AcIdle | AcPollFails | AcFails | AcClient "MbusServeStep list"

fun srv_thread_main :: "MbusAccept list \<Rightarrow> RefServer \<Rightarrow> RefServer" where
  "srv_thread_main [] srv = srv"
| "srv_thread_main (a # as) srv =
     (if \<not> srv_running srv then srv
      else case a of
        AcIdle \<Rightarrow> srv_thread_main as srv
      | AcPollFails \<Rightarrow> srv
      | AcFails \<Rightarrow> srv_thread_main as srv
      | AcClient steps \<Rightarrow> srv_thread_main as (srv\<lparr>srv_map := fst (mbs_serve_client steps (srv_map srv) [])\<rparr>))"

section \<open>Codec lemmas\<close>

definition be_bytes :: "u16 \<Rightarrow> u8 list" where
  "be_bytes v = [ucast (drop_bit 8 v AND 0xFF), ucast (v AND 0xFF)]"

lemma length_be_bytes [simp]: "length (be_bytes v) = 2" by (simp add: be_bytes_def)

lemma mbus_put_u16_eq: "put_u16_be out v = out @ be_bytes v"
  by (simp add: put_u16_be_def be_bytes_def)

lemma foldl_put_eq: "foldl put_u16_be out vs = out @ concat (map be_bytes vs)"
  by (induction vs arbitrary: out) (simp_all add: mbus_put_u16_eq)

lemma get_u16_be_field:
  assumes "take 2 (drop off b) = be_bytes v"
  shows "get_u16_be b off = Inr v"
proof -
  have "length (take 2 (drop off b)) = 2" unfolding assms by simp
  then have len: "off + 2 \<le> length b" by simp
  have "b ! off = take 2 (drop off b) ! 0" "b ! (off + 1) = take 2 (drop off b) ! 1" using len by simp_all
  then have "b ! off = ucast (drop_bit 8 v AND 0xFF)" "b ! (off + 1) = ucast (v AND 0xFF)"
    unfolding assms by (simp_all add: be_bytes_def)
  then show ?thesis using len by (simp add: get_u16_be_def be16_join_split)
qed

lemma get_u16_be_at: "off = length xs \<Longrightarrow> get_u16_be (xs @ be_bytes v @ ys) off = Inr v"
  by (intro get_u16_be_field) simp

lemma get_values_at:
  "off = length xs \<Longrightarrow> get_values (xs @ concat (map be_bytes vs) @ ys) off (length vs) = Inr vs"
proof (induction vs arbitrary: xs off)
  case (Cons v vs)
  have "get_u16_be (xs @ be_bytes v @ concat (map be_bytes vs) @ ys) off = Inr v"
    using Cons.prems by (intro get_u16_be_at)
  moreover have "get_values ((xs @ be_bytes v) @ concat (map be_bytes vs) @ ys) (off + 2) (length vs) = Inr vs"
    using Cons.prems by (intro Cons.IH) simp
  ultimately show ?case by simp
qed simp

lemma length_concat_be [simp]: "length (concat (map be_bytes vs)) = 2 * length vs"
  by (induction vs) simp_all

definition adu_wire :: "u16 \<Rightarrow> u8 \<Rightarrow> u8 list \<Rightarrow> u8 list" where
  "adu_wire tid u pdu = be_bytes tid @ be_bytes 0 @ be_bytes (of_nat (1 + length pdu)) @ [u] @ pdu"

lemma length_adu_wire [simp]: "length (adu_wire tid u pdu) = 7 + length pdu"
  by (simp add: adu_wire_def)

lemma encode_adu_eq:
  assumes "mh_protocol_id (adu_mbap adu) = kProtocolId" and "adu_pdu adu \<noteq> []" and "length (adu_pdu adu) \<le> kMaxPduSize"
  shows "encode_adu adu = Inr (adu_wire (mh_transaction_id (adu_mbap adu)) (mh_unit_id (adu_mbap adu)) (adu_pdu adu))"
  using assms by (simp add: encode_adu_def adu_wire_def mbus_put_u16_eq Let_def kProtocolId_def)

text \<open>The three header fields of a buffer that starts with a frame.\<close>

lemma header_of:
  assumes "take 6 b = take 6 (adu_wire tid u pdu)"
  shows "get_u16_be b 0 = Inr tid" "get_u16_be b 2 = Inr 0" "get_u16_be b 4 = Inr (of_nat (1 + length pdu))"
proof -
  have f: "take 2 (drop j b) = take 2 (drop j (adu_wire tid u pdu))" if "j \<le> 4" for j
    using that take_drop_take [of j 2 6 b] take_drop_take [of j 2 6 "adu_wire tid u pdu"] assms by simp
  show "get_u16_be b 0 = Inr tid" by (rule get_u16_be_field) (use f [of 0] in \<open>simp add: adu_wire_def\<close>)
  show "get_u16_be b 2 = Inr 0" by (rule get_u16_be_field) (use f [of 2] in \<open>simp add: adu_wire_def\<close>)
  show "get_u16_be b 4 = Inr (of_nat (1 + length pdu))" by (rule get_u16_be_field) (use f [of 4] in \<open>simp add: adu_wire_def\<close>)
qed

definition mb_fits :: "u8 list \<Rightarrow> bool" where
  "mb_fits pdu \<longleftrightarrow> pdu \<noteq> [] \<and> length pdu \<le> kMaxPduSize"

lemma mbap_length:
  assumes "mb_fits pdu"
  shows "unat (of_nat (1 + length pdu) :: u16) = 1 + length pdu" "\<not> (of_nat (1 + length pdu) :: u16) < 2"
proof -
  have "1 + length pdu < 65536" "2 \<le> 1 + length pdu"
    using assms by (auto simp: mb_fits_def kMaxPduSize_def Suc_le_eq)
  then show u: "unat (of_nat (1 + length pdu) :: u16) = 1 + length pdu" by (intro unat_length_u16)
  show "\<not> (of_nat (1 + length pdu) :: u16) < 2"
    unfolding word_less_nat_alt u using \<open>2 \<le> 1 + length pdu\<close> by auto
qed

lemma try_pop_wire:
  assumes "mb_fits pdu"
  shows "try_pop_adu (adu_wire tid u pdu @ rest) = (rest, Inr (adu_wire tid u pdu))"
proof -
  let ?b = "adu_wire tid u pdu @ rest"
  have h: "take 6 ?b = take 6 (adu_wire tid u pdu)" by simp
  have "6 + (1 + length pdu) \<le> kMaxAduSize" using assms by (simp add: mb_fits_def kMaxPduSize_def kMaxAduSize_def)
  then show ?thesis using mbap_length [OF assms] unfolding try_pop_adu_def header_of [OF h]
    by (simp add: kMbapSize_def kProtocolId_def Let_def)
qed

lemma try_pop_prefix:
  assumes "mb_fits pdu" and "strict_prefix p (adu_wire tid u pdu)"
  shows "\<exists>m. try_pop_adu p = (p, Inl (MbusError.NeedMore, m))"
proof (cases "length p < 7")
  case True then show ?thesis by (simp add: try_pop_adu_def kMbapSize_def)
next
  case False
  obtain c where c: "adu_wire tid u pdu = p @ c" using assms(2) by (auto simp: strict_prefix_def prefix_def)
  then have h: "take 6 p = take 6 (adu_wire tid u pdu)" using False by simp
  have "length p < 6 + (1 + length pdu)" using prefix_length_less [OF assms(2)] by simp
  moreover have "6 + (1 + length pdu) \<le> kMaxAduSize" using assms by (simp add: mb_fits_def kMaxPduSize_def kMaxAduSize_def)
  ultimately show ?thesis using mbap_length [OF assms(1)] False unfolding try_pop_adu_def header_of [OF h]
    by (simp add: kMbapSize_def kProtocolId_def Let_def)
qed

lemma decode_wire:
  assumes "mb_fits pdu"
  shows "decode_adu (adu_wire tid u pdu) =
    Inr \<lparr>adu_mbap = \<lparr>mh_transaction_id = tid, mh_protocol_id = 0, mh_length = of_nat (1 + length pdu), mh_unit_id = u\<rparr>, adu_pdu = pdu\<rparr>"
proof -
  have h: "take 6 (adu_wire tid u pdu) = take 6 (adu_wire tid u pdu)" ..
  have "6 + (1 + length pdu) \<le> kMaxAduSize" "pdu \<noteq> []"
    using assms by (simp_all add: mb_fits_def kMaxPduSize_def kMaxAduSize_def)
  moreover have "adu_wire tid u pdu ! 6 = u" "drop 7 (adu_wire tid u pdu) = pdu"
    by (simp_all add: adu_wire_def nth_append be_bytes_def)
  ultimately show ?thesis using mbap_length [OF assms] unfolding decode_adu_def header_of [OF h]
    by (simp add: kMbapSize_def kProtocolId_def Let_def)
qed

section \<open>The framer is a frame stream\<close>

definition mbus_enc :: "u16 \<times> u8 \<times> u8 list \<Rightarrow> u8 list option" where
  "mbus_enc = (\<lambda>(tid, u, pdu). if mb_fits pdu then Some (adu_wire tid u pdu) else None)"

definition mbus_pop :: "u8 list \<Rightarrow> (u16 \<times> u8 \<times> u8 list) pop" where
  "mbus_pop b =
     (case try_pop_adu b of
        (rest, Inr frame) \<Rightarrow>
          (case decode_adu frame of
             Inl _ \<Rightarrow> Broken
           | Inr adu \<Rightarrow> Popped (mh_transaction_id (adu_mbap adu), mh_unit_id (adu_mbap adu), adu_pdu adu) rest)
      | (_, Inl (e, _)) \<Rightarrow> if e = MbusError.NeedMore then pop.NeedMore else Broken)"

lemma mbus_pop_wire: "mb_fits pdu \<Longrightarrow> mbus_pop (adu_wire tid u pdu @ rest) = Popped (tid, u, pdu) rest"
  by (simp add: mbus_pop_def try_pop_wire decode_wire)

interpretation mbs: frame_stream mbus_enc mbus_pop
proof
  show "mbus_pop [] = pop.NeedMore" by (simp add: mbus_pop_def try_pop_adu_def kMbapSize_def)
next
  fix f w assume "mbus_enc f = Some w"
  then obtain tid u pdu where f: "f = (tid, u, pdu)" "mb_fits pdu" "w = adu_wire tid u pdu"
    by (cases f) (auto simp: mbus_enc_def split: if_splits)
  show "w \<noteq> []" using f(3) by (auto dest: arg_cong [of _ _ length])
  show "mbus_pop (w @ rest) = Popped f rest" for rest using f by (simp add: mbus_pop_wire)
  show "strict_prefix p w \<Longrightarrow> mbus_pop p = pop.NeedMore" for p
    using try_pop_prefix [OF f(2), of p tid u] f(3) by (auto simp: mbus_pop_def)
qed

section \<open>Registers\<close>

lemma length_store_values [simp]: "length (store_values start vs regs) = length regs"
  by (induction start vs regs rule: store_values.induct) simp_all

lemma store_values_outside:
  "i < start \<or> start + length vs \<le> i \<Longrightarrow> store_values start vs regs ! i = regs ! i"
  by (induction start vs regs rule: store_values.induct) auto

lemma store_values_inside:
  "start + length vs \<le> length regs \<Longrightarrow> take (length vs) (drop start (store_values start vs regs)) = vs"
proof (induction start vs regs rule: store_values.induct)
  case (2 start v vs regs)
  let ?r = "store_values (Suc start) vs (regs[start := v])"
  have "?r ! start = v" using 2 by (simp add: store_values_outside)
  moreover have "drop start ?r = ?r ! start # drop (Suc start) ?r" using 2 by (simp add: Cons_nth_drop_Suc)
  ultimately show ?case using 2 by simp
qed simp

lemma read_length: "hm_read a q regs = Inr vs \<Longrightarrow> vs \<noteq> [] \<and> length vs \<le> 125"
proof -
  assume r: "hm_read a q regs = Inr vs"
  then have q: "\<not> q < 1" "\<not> q > 125" "unat a + unat q \<le> length regs" "vs = take (unat q) (drop (unat a) regs)"
    by (auto simp: hm_read_def split: if_splits)
  then have "1 \<le> unat q" "unat q \<le> 125" by (simp_all add: word_less_nat_alt word_le_nat_alt not_less)
  moreover have "length vs = unat q" using q(3,4) by simp
  ultimately show ?thesis by (auto simp: Suc_le_eq)
qed

text \<open>Every non-empty request is answered, by a reply that fits a frame.\<close>

definition mb_answers :: "HoldingMap \<times> u8 list MbusResult \<Rightarrow> bool" where
  "mb_answers x \<longleftrightarrow> (case snd x of Inl _ \<Rightarrow> False | Inr r \<Rightarrow> mb_fits r)"

lemma answers_encoders:
  "mb_answers (regs, encode_exception_response f c)"
  "mb_answers (regs, encode_write_single_response a v)"
  "mb_answers (regs, encode_write_multiple_response a q)"
  by (simp_all add: mb_answers_def encode_exception_response_def encode_write_single_response_def encode_write_single_request_def
    encode_write_multiple_response_def mbus_put_u16_eq mb_fits_def kMaxPduSize_def)

lemma answers_read: "hm_read a q regs = Inr vs \<Longrightarrow> mb_answers (regs1, encode_read_holding_response vs)"
  using read_length [of a q regs vs]
  by (simp add: mb_answers_def encode_read_holding_response_def foldl_put_eq mb_fits_def kMaxPduSize_def)

lemma map_refusals:
  "hm_read a q regs = Inl (e, m) \<Longrightarrow> e = MbusError.IllegalAddress \<or> e = MbusError.IllegalValue"
  "hm_write_single a v regs = (regs1, Inl (e, m)) \<Longrightarrow> e = MbusError.IllegalAddress"
  "hm_write_multiple a vs regs = (regs1, Inl (e, m)) \<Longrightarrow> e = MbusError.IllegalAddress \<or> e = MbusError.IllegalValue"
  by (auto simp: hm_read_def hm_write_single_def hm_write_multiple_def split: if_splits)

lemma answers_read_pdu: "mb_answers (handle_read_pdu pdu regs)"
  unfolding handle_read_pdu_def
  by (auto simp: answers_encoders answers_read dest: map_refusals(1) split: sum.split prod.split)

lemma answers_write_single_pdu: "mb_answers (handle_write_single_pdu pdu regs)"
  unfolding handle_write_single_pdu_def
  by (auto simp: answers_encoders dest: map_refusals(2) split: sum.split prod.split)

lemma answers_write_multiple_pdu: "mb_answers (handle_write_multiple_pdu pdu regs)"
  unfolding handle_write_multiple_pdu_def Let_def
  by (auto simp: answers_encoders dest: map_refusals(3) split: sum.split prod.split)

lemma handle_pdu_fits:
  assumes "pdu \<noteq> []"
  shows "\<exists>regs1 r. handle_pdu pdu regs = (regs1, Inr r) \<and> mb_fits r"
proof -
  have "mb_answers (handle_pdu pdu regs)" using assms
    by (simp add: handle_pdu_def Let_def answers_encoders answers_read_pdu answers_write_single_pdu answers_write_multiple_pdu)
  then show ?thesis by (cases "handle_pdu pdu regs") (auto simp: mb_answers_def split: sum.splits)
qed

section \<open>The server answers the requests of the stream\<close>

fun mb_replies :: "(u16 \<times> u8 \<times> u8 list) list \<Rightarrow> HoldingMap \<Rightarrow> HoldingMap \<times> u8 list list" where
  "mb_replies [] regs = (regs, [])"
| "mb_replies ((tid, u, pdu) # fs) regs =
     (case handle_pdu pdu regs of (regs1, r) \<Rightarrow>
        case mb_replies fs regs1 of (regs2, ws) \<Rightarrow>
          (regs2, (case r of Inl _ \<Rightarrow> [] | Inr p \<Rightarrow> adu_wire tid u p) # ws))"

lemma mb_replies_append:
  "mb_replies (fs @ gs) regs =
     (case mb_replies fs regs of (regs1, ws) \<Rightarrow> case mb_replies gs regs1 of (regs2, vs) \<Rightarrow> (regs2, ws @ vs))"
  by (induction fs regs rule: mb_replies.induct) (auto split: prod.splits)

lemma popped_parts:
  assumes "mbus_pop b = Popped (tid, u, pdu) rest"
  shows "\<exists>frame adu. try_pop_adu b = (rest, Inr frame) \<and> decode_adu frame = Inr adu \<and> mh_transaction_id (adu_mbap adu) = tid \<and>
    mh_unit_id (adu_mbap adu) = u \<and> adu_pdu adu = pdu \<and> pdu \<noteq> []"
proof -
  obtain frame adu where f: "try_pop_adu b = (rest, Inr frame)" "decode_adu frame = Inr adu"
    "mh_transaction_id (adu_mbap adu) = tid" "mh_unit_id (adu_mbap adu) = u" "adu_pdu adu = pdu"
    using assms by (auto simp: mbus_pop_def split: prod.splits sum.splits if_splits)
  have "adu_pdu adu \<noteq> []" using f(2) by (auto simp: decode_adu_def Let_def split: if_splits sum.splits)
  with f show ?thesis by blast
qed

lemma waiting_parts: "mbus_pop b = pop.NeedMore \<Longrightarrow> \<exists>m. try_pop_adu b = (b, Inl (MbusError.NeedMore, m))"
  by (auto simp: mbus_pop_def try_pop_adu_def Let_def split: prod.splits sum.splits if_splits)

lemma mbs_drain_drained:
  "drained mbus_pop buf fs out \<Longrightarrow>
     mbs_drain [] regs buf = (fst (mb_replies fs regs), Some out, snd (mb_replies fs regs))"
proof (induction buf fs out arbitrary: regs rule: drained.induct)
  case (wait buf)
  then show ?case using waiting_parts [of buf] by (subst mbs_drain.simps) auto
next
  case (frame buf f rest fs out)
  obtain tid u pdu where f: "f = (tid, u, pdu)" by (cases f)
  obtain fr adu where a: "try_pop_adu buf = (rest, Inr fr)" "decode_adu fr = Inr adu" "mh_transaction_id (adu_mbap adu) = tid"
    "mh_unit_id (adu_mbap adu) = u" "adu_pdu adu = pdu" "pdu \<noteq> []"
    using popped_parts [OF frame.hyps(1) [unfolded f]] by blast
  obtain regs1 r where h: "handle_pdu pdu regs = (regs1, Inr r)" "mb_fits r" using handle_pdu_fits [OF a(6)] by blast
  have "encode_adu \<lparr>adu_mbap = (adu_mbap adu)\<lparr>mh_protocol_id := kProtocolId\<rparr>, adu_pdu = r\<rparr> = Inr (adu_wire tid u r)"
    using h(2) a(3,4) by (subst encode_adu_eq) (simp_all add: mb_fits_def)
  then show ?case using a h frame.IH [of regs1] f
    by (subst mbs_drain.simps) (simp split: prod.split)
qed

lemma serve_reads:
  "reads mbus_pop buf cs fs out \<Longrightarrow>
     mbs_serve_client (map (\<lambda>c. SvRecv c []) cs) regs buf = (fst (mb_replies fs regs), Some out, snd (mb_replies fs regs))"
proof (induction buf cs fs out arbitrary: regs rule: reads.induct)
  case (read buf c fs mid cs gs out)
  then show ?case using mbs_drain_drained [OF read.hyps(1)] by (simp add: mb_replies_append split: prod.split)
qed simp

lemma serve_request:
  assumes "mb_fits pdu" and "concat chunks = adu_wire tid u pdu" and "handle_pdu pdu regs = (regs1, Inr r)"
  shows "mbs_serve_client (map (\<lambda>c. SvRecv c []) chunks) regs [] = (regs1, Some [], [adu_wire tid u r])"
proof -
  have "reads mbus_pop [] chunks [(tid, u, pdu)] []"
    by (rule mbs.stream_reads [of _ "[adu_wire tid u pdu]"])
      (use assms in \<open>simp_all add: mbus_enc_def mbs.pop_nil\<close>)
  from serve_reads [OF this, of regs] show ?thesis using assms(3) by simp
qed

section \<open>Client against server\<close>

definition no_send_failure :: "MbusSend list \<Rightarrow> bool" where
  "no_send_failure sends \<longleftrightarrow> list_all (\<lambda>s. s = SendEintr \<or> (\<exists>n. s = Sent n \<and> 0 < n)) sends"

lemma send_succeeds: "no_send_failure sends \<Longrightarrow> mc_send_from off len sends = Inr ()"
  by (induction off len sends rule: mc_send_from.induct) (auto simp: no_send_failure_def)

text \<open>A receive script that delivers exactly the given bytes, interrupted or not.\<close>

fun recv_bytes :: "MbusRecv \<Rightarrow> u8 list option" where
  "recv_bytes (MbRecvBytes c) = (if c = [] then None else Some c)"
| "recv_bytes MbRecvEintr = Some []"
| "recv_bytes _ = None"

definition recv_gives :: "u8 list \<Rightarrow> MbusRecv list \<Rightarrow> bool" where
  "recv_gives w script \<longleftrightarrow> list_all (\<lambda>s. recv_bytes s \<noteq> None) script \<and> concat (map (the \<circ> recv_bytes) script) = w"

lemma recv_delivers:
  assumes "mb_fits pdu"
  shows "f @ w = adu_wire tid u pdu \<Longrightarrow> recv_gives w script \<Longrightarrow> mc_recv_adu script f = ([], Inr (adu_wire tid u pdu))"
proof (induction script arbitrary: f w)
  case Nil
  then have "f = adu_wire tid u pdu" by (simp add: recv_gives_def)
  then show ?case using try_pop_wire [OF assms, of tid u "[]"] by simp
next
  case (Cons s script)
  show ?case
  proof (cases "f = adu_wire tid u pdu")
    case True then show ?thesis using try_pop_wire [OF assms, of tid u "[]"] by simp
  next
    case False
    then have "strict_prefix f (adu_wire tid u pdu)" using Cons.prems(1) by (metis prefixI strict_prefixI)
    then obtain m where m: "try_pop_adu f = (f, Inl (MbusError.NeedMore, m))" using try_pop_prefix [OF assms] by blast
    obtain c where c: "recv_bytes s = Some c" "w = c @ concat (map (the \<circ> recv_bytes) script)"
      "recv_gives (concat (map (the \<circ> recv_bytes) script)) script"
      using Cons.prems(2) by (auto simp: recv_gives_def)
    from c(1) show ?thesis
    proof (cases s)
      case MbRecvEintr
      then show ?thesis using m c Cons.IH [of f w] Cons.prems by simp
    next
      case (MbRecvBytes d)
      then have "d = c" "c \<noteq> []" using c(1) by (simp_all split: if_splits)
      then show ?thesis using m MbRecvBytes c(2,3) Cons.IH [of "f @ c"] Cons.prems(1) by simp
    qed simp_all
  qed
qed

lemma transact_delivered:
  assumes "mc_framer c = []" and "mb_fits pdu" and "no_send_failure (mi_send io)"
    and "mb_fits r" and "recv_gives (adu_wire tid2 u r) (mi_recv io)" and "u = mcc_unit_id (mc_config c)"
  shows "mc_transact_once io pdu tid c =
    (c, if tid2 = tid
        then Inr \<lparr>adu_mbap = \<lparr>mh_transaction_id = tid, mh_protocol_id = 0, mh_length = of_nat (1 + length r), mh_unit_id = u\<rparr>, adu_pdu = r\<rparr>
        else Inl (MbusError.TransactionMismatch, ''response transaction id mismatch''))"
proof -
  have e: "encode_adu (mc_request tid (mcc_unit_id (mc_config c)) pdu) = Inr (adu_wire tid (mcc_unit_id (mc_config c)) pdu)"
    using assms(2) by (subst encode_adu_eq) (simp_all add: mc_request_def mb_fits_def)
  have r: "mc_recv_adu (mi_recv io) (mc_framer c) = ([], Inr (adu_wire tid2 u r))"
    using recv_delivers [OF assms(4), of "[]"] assms(1,5) by simp
  have "c\<lparr>mc_framer := []\<rparr> = c" using assms(1) by simp
  then show ?thesis unfolding mc_transact_once_def e r
    using send_succeeds [OF assms(3)] assms(6) by (simp add: mc_send_all_def decode_wire [OF assms(4)])
qed

text \<open>
  One transaction of a connected client with a server that holds \<open>regs\<close>: the
  server receives the request in any pieces and leaves \<open>regs'\<close>, and its replies
  reach the client in any pieces.
\<close>

definition mbus_call :: "HoldingMap \<Rightarrow> u8 list \<Rightarrow> MbusClient \<Rightarrow> MbusEnv \<Rightarrow> HoldingMap \<Rightarrow> bool" where
  "mbus_call regs pdu c env regs' \<longleftrightarrow> no_send_failure (mi_send (me_io env)) \<and>
     (\<exists>chunks rest replies. concat chunks = adu_wire (mc_next_tid c) (mcc_unit_id (mc_config c)) pdu \<and>
        mbs_serve_client (map (\<lambda>x. SvRecv x []) chunks) regs [] = (regs', rest, replies) \<and>
        recv_gives (concat replies) (mi_recv (me_io env)))"

definition mc_ready :: "MbusClient \<Rightarrow> bool" where
  "mc_ready c \<longleftrightarrow> mc_connected c \<and> mc_framer c = []"

lemma call_answered:
  assumes "mc_ready c" and "mb_fits pdu" and "mbus_call regs pdu c env regs'"
  shows "\<exists>r c' adu. handle_pdu pdu regs = (regs', Inr r) \<and> mc_transact_raw env pdu c = (c', Inr adu) \<and> adu_pdu adu = r \<and>
    mc_ready c' \<and> mc_config c' = mc_config c"
proof -
  obtain chunks rest replies where l: "no_send_failure (mi_send (me_io env))"
    "concat chunks = adu_wire (mc_next_tid c) (mcc_unit_id (mc_config c)) pdu"
    "mbs_serve_client (map (\<lambda>x. SvRecv x []) chunks) regs [] = (regs', rest, replies)"
    "recv_gives (concat replies) (mi_recv (me_io env))" using assms(3) by (auto simp: mbus_call_def)
  obtain regs1 r where h: "handle_pdu pdu regs = (regs1, Inr r)" "mb_fits r"
    using handle_pdu_fits [of pdu regs] assms(2) by (auto simp: mb_fits_def)
  have s: "regs' = regs1" "replies = [adu_wire (mc_next_tid c) (mcc_unit_id (mc_config c)) r]"
    using serve_request [OF assms(2) l(2) h(1)] l(3) by simp_all
  obtain c2 where t: "mc_take_tid c = (c2, mc_next_tid c)" "mc_framer c2 = []" "mc_config c2 = mc_config c" "mc_connected c2"
    using assms(1) by (simp add: mc_take_tid_def mc_ready_def)
  obtain adu where adu: "mc_transact_once (me_io env) pdu (mc_next_tid c) c2 = (c2, Inr adu)" "adu_pdu adu = r"
  proof -
    have "recv_gives (adu_wire (mc_next_tid c) (mcc_unit_id (mc_config c)) r) (mi_recv (me_io env))" using l(4) s(2) by simp
    moreover have "mcc_unit_id (mc_config c) = mcc_unit_id (mc_config c2)" using t(3) by simp
    ultimately show thesis using transact_delivered [OF t(2) assms(2) l(1) h(2), of "mc_next_tid c" _ "mc_next_tid c"] that by auto
  qed
  have "mc_ensure_connected (me_connects env) c = (c, Inr ())" using assms(1) by (simp add: mc_ensure_connected_def mc_ready_def)
  then have "mc_transact_raw env pdu c = (c2, Inr adu)" by (simp add: mc_transact_raw_def t(1) adu(1))
  moreover have "mc_ready c2" using t by (simp add: mc_ready_def)
  ultimately show ?thesis using h(1) s(1) adu(2) t(3) by blast
qed

lemma unat_length_u8: "n < 256 \<Longrightarrow> unat (of_nat n :: u8) = n"
  by (simp add: unat_of_nat)

lemma handle_write_multiple:
  assumes "vs \<noteq> []" and "length vs \<le> 123" and "unat a + length vs \<le> length regs"
    and "encode_write_multiple_request a vs = Inr pdu"
  shows "handle_pdu pdu regs = (store_values (unat a) vs regs, encode_write_multiple_response a (of_nat (length vs))) \<and> mb_fits pdu"
proof -
  let ?n = "length vs"
  have pdu: "pdu = [kFcWriteMultiple] @ be_bytes a @ be_bytes (of_nat ?n) @ [of_nat (?n * 2)] @ concat (map be_bytes vs)"
    using assms(1,2,4) by (simp add: encode_write_multiple_request_def Let_def mbus_put_u16_eq foldl_put_eq)
  have g: "get_u16_be pdu 1 = Inr a" "get_u16_be pdu 3 = Inr (of_nat ?n)" "get_values pdu 6 ?n = Inr vs"
    using get_u16_be_at [of 1 "[kFcWriteMultiple]" a] get_u16_be_at [of 3 "[kFcWriteMultiple] @ be_bytes a" "of_nat ?n"]
      get_values_at [of 6 "[kFcWriteMultiple] @ be_bytes a @ be_bytes (of_nat ?n) @ [of_nat (?n * 2)]" vs "[]"]
    unfolding pdu by simp_all
  have n: "unat (of_nat ?n :: u16) = ?n" "unat (of_nat (?n * 2) :: u8) = ?n * 2"
    using assms(2) by (simp add: unat_of_nat, intro unat_length_u8) simp
  have b: "pdu ! 0 = kFcWriteMultiple" "pdu ! 5 = of_nat (?n * 2)" "length pdu = 6 + ?n * 2"
    unfolding pdu by (simp_all add: be_bytes_def)
  have "handle_write_multiple_pdu pdu regs = (store_values (unat a) vs regs, encode_write_multiple_response a (of_nat ?n))"
    using assms unfolding handle_write_multiple_pdu_def g b n by (simp add: g n hm_write_multiple_def Let_def)
  moreover have "pdu \<noteq> []" "length pdu \<le> 253" using b(3) assms(2) by auto
  ultimately show ?thesis using b(1)
    by (simp add: handle_pdu_def kFcWriteMultiple_def kFcWriteSingle_def kFcReadHolding_def mb_fits_def kMaxPduSize_def)
qed

lemma handle_read:
  assumes "1 \<le> n" and "n \<le> 125" and "unat a + n \<le> length regs" and "encode_read_holding_request a (of_nat n) = Inr pdu"
  shows "handle_pdu pdu regs = (regs, encode_read_holding_response (take n (drop (unat a) regs))) \<and> mb_fits pdu"
proof -
  have n: "unat (of_nat n :: u16) = n" using assms(2) by (simp add: unat_of_nat)
  have pdu: "pdu = [kFcReadHolding] @ be_bytes a @ be_bytes (of_nat n)"
    using assms(4) by (auto simp: encode_read_holding_request_def mbus_put_u16_eq split: if_splits)
  have g: "get_u16_be pdu 1 = Inr a" "get_u16_be pdu 3 = Inr (of_nat n)"
    using get_u16_be_at [of 1 "[kFcReadHolding]" a] get_u16_be_at [of 3 "[kFcReadHolding] @ be_bytes a" "of_nat n" "[]"]
    unfolding pdu by simp_all
  have q: "\<not> (of_nat n :: u16) < 1" "\<not> (of_nat n :: u16) > 125"
    using assms(1,2) by (simp_all add: word_less_nat_alt n)
  have r: "hm_read a (of_nat n) regs = Inr (take n (drop (unat a) regs))" using q assms(3) by (simp add: hm_read_def n)
  show ?thesis unfolding pdu [symmetric] handle_pdu_def Let_def handle_read_pdu_def g
    by (simp add: r) (simp add: pdu mb_fits_def kMaxPduSize_def)
qed

lemma decode_read_roundtrip:
  assumes "encode_read_holding_response vs = Inr r"
  shows "decode_read_holding_response r = Inr vs \<and> r ! 0 AND 0x80 = 0"
proof -
  have v: "vs \<noteq> []" "length vs \<le> 125" "r = [kFcReadHolding, of_nat (length vs * 2)] @ concat (map be_bytes vs)"
    using assms by (auto simp: encode_read_holding_response_def foldl_put_eq split: if_splits)
  have n: "unat (of_nat (length vs * 2) :: u8) = length vs * 2" using v(2) by (intro unat_length_u8) simp
  have "get_values r 2 (length vs) = Inr vs"
    using get_values_at [of 2 "[kFcReadHolding, of_nat (length vs * 2)]" vs "[]"] unfolding v(3) by simp
  moreover have "r ! 0 = kFcReadHolding" "r ! 1 = of_nat (length vs * 2)" "length r = 2 + length vs * 2"
    unfolding v(3) by simp_all
  ultimately show ?thesis using n by (simp add: decode_read_holding_response_def Let_def kFcReadHolding_def)
qed

lemma decode_write_multiple_roundtrip:
  assumes "encode_write_multiple_response a q = Inr r"
  shows "decode_write_multiple_response r = Inr \<lparr>wm_address = a, wm_quantity = q\<rparr> \<and> r ! 0 AND 0x80 = 0"
proof -
  have r: "r = [kFcWriteMultiple] @ be_bytes a @ be_bytes q" using assms by (simp add: encode_write_multiple_response_def mbus_put_u16_eq)
  have "get_u16_be r 1 = Inr a" "get_u16_be r 3 = Inr q"
    using get_u16_be_at [of 1 "[kFcWriteMultiple]" a] get_u16_be_at [of 3 "[kFcWriteMultiple] @ be_bytes a" q "[]"] unfolding r by simp_all
  moreover have "length r = 5" "r ! 0 = kFcWriteMultiple" unfolding r by simp_all
  ultimately show ?thesis by (simp add: decode_write_multiple_response_def kFcWriteMultiple_def)
qed

text \<open>
  C33. A multiple write is read back. Let a connected client write registers that
  exist and then read the same range, with request and reply bytes of both
  transactions cut up in any way and calls interrupted at any time. Then the
  write is confirmed with its address and count, the read returns exactly the
  values written, it changes no register, and every register outside the range
  is as it was before the write.
\<close>
theorem mbus_write_read:
  assumes "mc_ready c" and "vs \<noteq> []" and "length vs \<le> 123" and "unat a + length vs \<le> length regs"
    and "encode_write_multiple_request a vs = Inr wpdu" and "mbus_call regs wpdu c wenv regs'"
    and "mc_write_multiple wenv a vs c = (c', written)"
    and "encode_read_holding_request a (of_nat (length vs)) = Inr rpdu" and "mbus_call regs' rpdu c' renv regs''"
  shows "written = Inr \<lparr>wm_address = a, wm_quantity = of_nat (length vs)\<rparr> \<and>
    snd (mc_read_holding renv a (of_nat (length vs)) c') = Inr vs \<and> regs'' = regs' \<and>
    length regs' = length regs \<and> (\<forall>i. i < unat a \<or> unat a + length vs \<le> i \<longrightarrow> regs' ! i = regs ! i)"
proof -
  note w = handle_write_multiple [OF assms(2-5)]
  obtain r c1 adu where a1: "handle_pdu wpdu regs = (regs', Inr r)" "mc_transact_raw wenv wpdu c = (c1, Inr adu)" "adu_pdu adu = r"
    "mc_ready c1" "mc_config c1 = mc_config c" using call_answered [OF assms(1) _ assms(6)] w by blast
  have m: "regs' = store_values (unat a) vs regs" "encode_write_multiple_response a (of_nat (length vs)) = Inr r" using a1(1) w by auto
  note d1 = decode_write_multiple_roundtrip [OF m(2)]
  have c': "c' = c1" "written = Inr \<lparr>wm_address = a, wm_quantity = of_nat (length vs)\<rparr>"
    using assms(5,7) a1(2,3) d1 by (auto simp: mc_write_multiple_def mc_finish_def)
  have "1 \<le> length vs" "length vs \<le> 125" "unat a + length vs \<le> length regs'" using assms(2-4) m(1) by (auto simp: Suc_le_eq)
  note rd = handle_read [OF this assms(8)]
  obtain r2 c2 adu2 where a2: "handle_pdu rpdu regs' = (regs'', Inr r2)" "mc_transact_raw renv rpdu c' = (c2, Inr adu2)" "adu_pdu adu2 = r2"
    using call_answered [of c' rpdu regs' renv regs''] a1(4) c'(1) rd assms(9) by blast
  have "encode_read_holding_response vs = Inr r2" "regs'' = regs'"
    using a2(1) rd store_values_inside [OF assms(4)] m(1) by simp_all
  note d2 = decode_read_roundtrip [OF this(1)]
  have "snd (mc_read_holding renv a (of_nat (length vs)) c') = Inr vs"
    using assms(8) a2(2,3) d2 by (auto simp: mc_read_holding_def mc_finish_def)
  then show ?thesis using c'(2) \<open>regs'' = regs'\<close> m(1) store_values_outside [of _ "unat a" vs regs] by simp
qed

text \<open>A transaction whose reply arrives in one piece.\<close>

definition demo_mbus_env :: "u8 list \<Rightarrow> MbusClient \<Rightarrow> MbusEnv" where
  "demo_mbus_env r c = \<lparr>me_connects = (\<lambda>_. MbConnectTimeout),
     me_io = \<lparr>mi_send = [], mi_recv = [MbRecvBytes (adu_wire (mc_next_tid c) (mcc_unit_id (mc_config c)) r)]\<rparr>,
     me_reconnects = (\<lambda>_. MbConnectTimeout), me_retry_io = \<lparr>mi_send = [], mi_recv = []\<rparr>\<rparr>"

lemma demo_call:
  assumes "mb_fits pdu" and "handle_pdu pdu regs = (regs', Inr r)"
  shows "mbus_call regs pdu c (demo_mbus_env r c) regs'"
proof -
  have "adu_wire t u r \<noteq> []" for t u by (auto dest: arg_cong [of _ _ length])
  then show ?thesis using serve_request [OF assms(1) _ assms(2), of "[adu_wire (mc_next_tid c) (mcc_unit_id (mc_config c)) pdu]"]
    unfolding mbus_call_def
    by (intro conjI exI [of _ "[adu_wire (mc_next_tid c) (mcc_unit_id (mc_config c)) pdu]"])
      (simp_all add: demo_mbus_env_def no_send_failure_def recv_gives_def)
qed

definition demo_mbus_client :: MbusClient where
  "demo_mbus_client = (mc_init mbus_client_config_default)\<lparr>mc_connected := True\<rparr>"

theorem mbus_write_read_witness:
  "\<exists>wenv renv c'. mc_write_multiple wenv 2 [7] demo_mbus_client = (c', Inr \<lparr>wm_address = 2, wm_quantity = 1\<rparr>) \<and>
     snd (mc_read_holding renv 2 1 c') = Inr [7]"
proof -
  let ?wpdu = "[0x10, 0, 2, 0, 1, 2, 0, 7]" and ?rpdu = "[3, 0, 2, 0, 1]" and ?regs = "[0, 0, 7, 0] :: u16 list"
  let ?wenv = "demo_mbus_env [0x10, 0, 2, 0, 1] demo_mbus_client"
  have w: "encode_write_multiple_request 2 [7] = Inr ?wpdu" "handle_pdu ?wpdu (hm_init 4) = (?regs, Inr [0x10, 0, 2, 0, 1])" by code_simp+
  have r: "encode_read_holding_request 2 (of_nat (length [7::u16])) = Inr ?rpdu" "handle_pdu ?rpdu ?regs = (?regs, Inr [3, 2, 0, 7])" by code_simp+
  have f: "mb_fits ?wpdu" "mb_fits ?rpdu" by (simp_all add: mb_fits_def kMaxPduSize_def)
  obtain c' written where c': "mc_write_multiple ?wenv 2 [7] demo_mbus_client = (c', written)" by fastforce
  have ready: "mc_ready demo_mbus_client" by (simp add: mc_ready_def demo_mbus_client_def mc_init_def)
  have range: "unat (2 :: u16) + length [7 :: u16] \<le> length (hm_init 4)" by (simp add: hm_init_def)
  from mbus_write_read [OF ready _ _ range w(1) demo_call [OF f(1) w(2)] c' r(1) demo_call [OF f(2) r(2)]]
  show ?thesis using c' by auto
qed

section \<open>Late replies\<close>

definition tid_succ :: "u16 \<Rightarrow> u16" where
  "tid_succ t = (if t + 1 = 0 then 1 else t + 1)"

lemma tid_succ_differs: "t \<noteq> tid_succ t"
proof
  assume "t = tid_succ t"
  then have "t + 1 = 0 \<and> t = 1 \<or> t = t + 1" by (auto simp: tid_succ_def split: if_splits)
  then show False by auto
qed

fun mb_run :: "(MbusEnv \<times> u8 list) list \<Rightarrow> MbusClient \<Rightarrow> MbusClient \<times> Adu MbusResult list" where
  "mb_run [] c = (c, [])"
| "mb_run ((env, pdu) # txs) c =
     (case mc_transact_raw env pdu c of (c1, r) \<Rightarrow> case mb_run txs c1 of (c2, rs) \<Rightarrow> (c2, r # rs))"

text \<open>Each transaction receives a well-formed reply, but the one to the transaction before it; \<open>tid\<close> is that of the first.\<close>

fun lagging :: "u16 \<Rightarrow> u8 \<Rightarrow> (MbusEnv \<times> u8 list) list \<Rightarrow> bool" where
  "lagging tid u [] = True"
| "lagging tid u ((env, pdu) # txs) \<longleftrightarrow> mb_fits pdu \<and> no_send_failure (mi_send (me_io env)) \<and>
     (\<exists>r. mb_fits r \<and> recv_gives (adu_wire tid u r) (mi_recv (me_io env))) \<and> lagging (tid_succ tid) u txs"

abbreviation mismatch :: "Adu MbusResult" where
  "mismatch \<equiv> Inl (MbusError.TransactionMismatch, ''response transaction id mismatch'')"

lemma lagging_transaction:
  assumes "mc_ready c" and "mc_next_tid c = tid_succ tid" and "lagging tid (mcc_unit_id (mc_config c)) ((env, pdu) # txs)"
  shows "mc_transact_raw env pdu c = (fst (mc_take_tid c), mismatch)"
proof -
  obtain r where r: "mb_fits pdu" "no_send_failure (mi_send (me_io env))" "mb_fits r"
    "recv_gives (adu_wire tid (mcc_unit_id (mc_config c)) r) (mi_recv (me_io env))" using assms(3) by auto
  obtain c2 where t: "mc_take_tid c = (c2, tid_succ tid)" "mc_framer c2 = []" "mc_config c2 = mc_config c"
    using assms(1,2) by (simp add: mc_take_tid_def mc_ready_def)
  have u: "mcc_unit_id (mc_config c) = mcc_unit_id (mc_config c2)" using t(3) by simp
  have "mc_transact_once (me_io env) pdu (tid_succ tid) c2 = (c2, mismatch)"
    using transact_delivered [OF t(2) r(1,2,3,4) u, of "tid_succ tid"] tid_succ_differs [of tid] by simp
  moreover have "mc_ensure_connected (me_connects env) c = (c, Inr ())" using assms(1) by (simp add: mc_ensure_connected_def mc_ready_def)
  ultimately show ?thesis using t(1) by (simp add: mc_transact_raw_def)
qed

lemma take_tid_ready:
  "mc_ready c \<Longrightarrow> mc_ready (fst (mc_take_tid c))" "mc_config (fst (mc_take_tid c)) = mc_config c"
  "mc_next_tid (fst (mc_take_tid c)) = tid_succ (mc_next_tid c)"
  by (simp_all add: mc_take_tid_def mc_ready_def tid_succ_def)

lemma lagging_run:
  "mc_ready c \<Longrightarrow> mc_next_tid c = tid_succ tid \<Longrightarrow> lagging tid (mcc_unit_id (mc_config c)) txs \<Longrightarrow>
     snd (mb_run txs c) = replicate (length txs) mismatch \<and> mc_connected (fst (mb_run txs c))"
proof (induction txs arbitrary: c tid)
  case Nil then show ?case by (simp add: mc_ready_def)
next
  case (Cons tx txs)
  obtain env pdu where tx: "tx = (env, pdu)" by (cases tx)
  have l: "lagging (tid_succ tid) (mcc_unit_id (mc_config c)) txs" using Cons.prems(3) tx by simp
  have "mc_transact_raw env pdu c = (fst (mc_take_tid c), mismatch)" using lagging_transaction Cons.prems tx by blast
  moreover have "snd (mb_run txs (fst (mc_take_tid c))) = replicate (length txs) mismatch \<and> mc_connected (fst (mb_run txs (fst (mc_take_tid c))))"
    by (rule Cons.IH [of _ "tid_succ tid"]) (use Cons.prems l take_tid_ready in simp_all)
  ultimately show ?case using tx by (simp add: split_beta)
qed

lemma timeout_keeps:
  assumes "mc_ready c" and "mb_fits pdu" and "no_send_failure (mi_send (me_io env))" and "mi_recv (me_io env) = []"
  shows "mc_transact_raw env pdu c = (fst (mc_take_tid c), Inl (MbusError.Timeout, ''response timeout''))"
proof -
  obtain c2 where t: "mc_take_tid c = (c2, mc_next_tid c)" "mc_framer c2 = []" "mc_config c2 = mc_config c"
    using assms(1) by (simp add: mc_take_tid_def mc_ready_def)
  have e: "encode_adu (mc_request (mc_next_tid c) (mcc_unit_id (mc_config c2)) pdu) =
      Inr (adu_wire (mc_next_tid c) (mcc_unit_id (mc_config c2)) pdu)"
    using assms(2) by (subst encode_adu_eq) (simp_all add: mc_request_def mb_fits_def)
  have "c2\<lparr>mc_framer := []\<rparr> = c2" using t(2) by simp
  then have "mc_transact_once (me_io env) pdu (mc_next_tid c) c2 = (c2, Inl (MbusError.Timeout, ''response timeout''))"
    using send_succeeds [OF assms(3)] assms(4) t(2) unfolding mc_transact_once_def e
    by (simp add: mc_send_all_def try_pop_adu_def kMbapSize_def)
  moreover have "mc_ensure_connected (me_connects env) c = (c, Inr ())" using assms(1) by (simp add: mc_ensure_connected_def mc_ready_def)
  ultimately show ?thesis using t(1) by (simp add: mc_transact_raw_def)
qed



section \<open>Backoff\<close>

text \<open>When every attempt fails, the client made them all, with delays that double up to the maximum.\<close>

lemma backoff_delays:
  "mc_reconnect_from i n (min (base * 2 ^ k) maxd) failure env c = ((c', sleeps), Inl e) \<Longrightarrow>
     0 \<le> base \<Longrightarrow> 0 \<le> maxd \<Longrightarrow> mcc_reconnect_max_ms (mc_config c) = maxd \<Longrightarrow>
     sleeps = map (\<lambda>j. min (base * 2 ^ (k + j)) maxd) [0..<n]"
proof (induction n arbitrary: i k failure c sleeps)
  case (Suc n)
  obtain c1 x where c1: "mc_connect (env i) c = (c1, Inl x)"
    using Suc.prems(1) by (auto split: prod.splits sum.splits)
  have m: "mcc_reconnect_max_ms (mc_config c1) = maxd"
    using c1 Suc.prems(4) by (auto simp: mc_connect_def mc_close_def Let_def split: MbusConnectOutcome.splits)
  have d: "min (min (base * 2 ^ k) maxd * 2) maxd = min (base * 2 ^ Suc k) maxd"
    using Suc.prems(2,3) by (auto simp: min_def)
  obtain ss where ss: "mc_reconnect_from (Suc i) n (min (base * 2 ^ Suc k) maxd) x env c1 = ((c', ss), Inl e)"
    "sleeps = min (base * 2 ^ k) maxd # ss"
    using Suc.prems(1) c1 m d by (auto split: prod.splits)
  from Suc.IH [OF ss(1) Suc.prems(2,3) m] show ?case
    by (simp add: ss(2) upt_conv_Cons map_Suc_upt [symmetric] del: upt_Suc)
qed simp

end
