(* ===== verification/Multibus.thy ===== *)
theory Multibus
  imports Mbus_Tcp Can_V1 Cli_Text
begin

text \<open>
  The multibus observer, \<^verbatim>\<open>experiments/multibus_observer\<close>: a store with the latest CAN status
  and the latest Modbus temperature (\<^verbatim>\<open>observation.cpp\<close>, \<^verbatim>\<open>can_status_adapter.cpp\<close>,
  \<^verbatim>\<open>modbus_temperature_adapter.cpp\<close>), the two workers that fill it (\<^verbatim>\<open>rcr_multibus_observer.cpp\<close>)
  and the sensor server it is tried with (\<^verbatim>\<open>mbus_sensor_server.cpp\<close>). A call on the store holds
  its mutex, so it is one step; a worker is the list of the calls it makes, and the two
  threads together are an interleaving of two lists. The lemmas show that the
  sources do not disturb each other, that a temperature reaches the snapshot
  unchanged, and that one slow reply leaves the Modbus source faulted for good.
\<close>

section \<open>The store\<close>

datatype SourceHealth = Waiting | Healthy | Faulted

fun SourceHealth_to_string :: "SourceHealth \<Rightarrow> string" where
  "SourceHealth_to_string SourceHealth.Waiting = ''waiting''"
| "SourceHealth_to_string SourceHealth.Healthy = ''healthy''"
| "SourceHealth_to_string SourceHealth.Faulted = ''faulted''"

record SourceStatus =
  ss_health :: SourceHealth
  ss_updates :: u64
  ss_failures :: u64
  ss_last_change_ns :: i64
  ss_detail :: string

record CanStatusSample =
  cs_valid :: bool
  cs_sampled_ns :: i64
  cs_node_id :: u8
  cs_session_id :: u16
  cs_interlock_ready :: bool
  cs_input_bits :: u16
  cs_fault_code :: u16

text \<open>\<open>ts_deci_celsius\<close> is the signed value of the 16-bit field.\<close>

record TemperatureSample =
  ts_valid :: bool
  ts_sampled_ns :: i64
  ts_register_address :: u16
  ts_deci_celsius :: int

record ObservationSnapshot =
  ob_can :: CanStatusSample
  ob_temperature :: TemperatureSample
  ob_can_source :: SourceStatus
  ob_modbus_source :: SourceStatus

definition source_init :: SourceStatus where
  "source_init = \<lparr>ss_health = SourceHealth.Waiting, ss_updates = 0, ss_failures = 0, ss_last_change_ns = 0,
     ss_detail = ''waiting for first sample''\<rparr>"

definition obs_init :: ObservationSnapshot where
  "obs_init =
     \<lparr>ob_can = \<lparr>cs_valid = False, cs_sampled_ns = 0, cs_node_id = 0, cs_session_id = 0, cs_interlock_ready = False,
                cs_input_bits = 0, cs_fault_code = 0\<rparr>,
      ob_temperature = \<lparr>ts_valid = False, ts_sampled_ns = 0, ts_register_address = 0, ts_deci_celsius = 0\<rparr>,
      ob_can_source = source_init, ob_modbus_source = source_init\<rparr>"

definition mark_healthy :: "i64 \<Rightarrow> SourceStatus \<Rightarrow> SourceStatus" where
  "mark_healthy now_ns st =
     st\<lparr>ss_health := SourceHealth.Healthy, ss_updates := ss_updates st + 1, ss_last_change_ns := now_ns, ss_detail := ''ok''\<rparr>"

definition mark_failure :: "i64 \<Rightarrow> string \<Rightarrow> SourceStatus \<Rightarrow> SourceStatus" where
  "mark_failure now_ns detail st =
     st\<lparr>ss_health := SourceHealth.Faulted, ss_failures := ss_failures st + 1, ss_last_change_ns := now_ns, ss_detail := detail\<rparr>"

definition publish_can :: "CanStatusSample \<Rightarrow> ObservationSnapshot \<Rightarrow> ObservationSnapshot" where
  "publish_can sample ob =
     ob\<lparr>ob_can := sample\<lparr>cs_valid := True\<rparr>, ob_can_source := mark_healthy (cs_sampled_ns sample) (ob_can_source ob)\<rparr>"

definition publish_temperature :: "TemperatureSample \<Rightarrow> ObservationSnapshot \<Rightarrow> ObservationSnapshot" where
  "publish_temperature sample ob =
     ob\<lparr>ob_temperature := sample\<lparr>ts_valid := True\<rparr>,
        ob_modbus_source := mark_healthy (ts_sampled_ns sample) (ob_modbus_source ob)\<rparr>"

definition mark_can_failure :: "i64 \<Rightarrow> string \<Rightarrow> ObservationSnapshot \<Rightarrow> ObservationSnapshot" where
  "mark_can_failure now_ns detail ob = ob\<lparr>ob_can_source := mark_failure now_ns detail (ob_can_source ob)\<rparr>"

definition mark_modbus_failure :: "i64 \<Rightarrow> string \<Rightarrow> ObservationSnapshot \<Rightarrow> ObservationSnapshot" where
  "mark_modbus_failure now_ns detail ob = ob\<lparr>ob_modbus_source := mark_failure now_ns detail (ob_modbus_source ob)\<rparr>"

definition sample_is_stale :: "bool \<Rightarrow> i64 \<Rightarrow> i64 \<Rightarrow> i64 \<Rightarrow> bool" where
  "sample_is_stale valid sampled_ns now_ns max_age_ns \<longleftrightarrow>
     (if \<not> valid \<or> sampled_ns \<le> 0 \<or> now_ns < sampled_ns \<or> max_age_ns < 0 then True else now_ns - sampled_ns > max_age_ns)"

text \<open>The calls on the store.\<close>

datatype StoreOp = PublishCan CanStatusSample | PublishTemperature TemperatureSample
  | CanFailure i64 string | ModbusFailure i64 string

fun store_step :: "StoreOp \<Rightarrow> ObservationSnapshot \<Rightarrow> ObservationSnapshot" where
  "store_step (PublishCan sample) = publish_can sample"
| "store_step (PublishTemperature sample) = publish_temperature sample"
| "store_step (CanFailure now detail) = mark_can_failure now detail"
| "store_step (ModbusFailure now detail) = mark_modbus_failure now detail"

section \<open>Adapters\<close>

datatype CanIngestResult = Updated | Ignored | Rejected

text \<open>The calls \<^verbatim>\<open>ingest_can_frame\<close> makes on the store, and its result.\<close>

definition ingest_can_frame :: "CanFrame \<Rightarrow> u8 \<Rightarrow> i64 \<Rightarrow> StoreOp list \<times> CanIngestResult" where
  "ingest_can_frame frame expected_node_id sampled_ns =
     (case decode frame of
        Inl e \<Rightarrow> ([CanFailure sampled_ns (err_message e)], CanIngestResult.Rejected)
      | Inr (DStatus status) \<Rightarrow>
          if ns_node_id status \<noteq> expected_node_id then ([], CanIngestResult.Ignored)
          else ([PublishCan
                   \<lparr>cs_valid = False, cs_sampled_ns = sampled_ns, cs_node_id = ns_node_id status,
                    cs_session_id = ns_session_id status, cs_interlock_ready = ns_interlock_ready status,
                    cs_input_bits = ns_input_bits status, cs_fault_code = ns_fault_code status\<rparr>], CanIngestResult.Updated)
      | Inr _ \<Rightarrow> ([], CanIngestResult.Ignored))"

definition decode_temperature_register :: "u16 \<Rightarrow> u16 \<Rightarrow> i64 \<Rightarrow> TemperatureSample" where
  "decode_temperature_register raw_register address sampled_ns =
     \<lparr>ts_valid = True, ts_sampled_ns = sampled_ns, ts_register_address = address, ts_deci_celsius = sint raw_register\<rparr>"

section \<open>Options\<close>

record ObserverConfig =
  oc_can_interface :: string
  oc_node :: u8
  oc_modbus_host :: string
  oc_modbus_port :: u16
  oc_temperature_register :: u16
  oc_modbus_period_ms :: i64
  oc_print_period_ms :: i64
  oc_run_duration_ms :: i64

definition observer_config_default :: ObserverConfig where
  "observer_config_default =
     \<lparr>oc_can_interface = ''vcan0'', oc_node = 1, oc_modbus_host = ''127.0.0.1'', oc_modbus_port = 1502,
      oc_temperature_register = 0, oc_modbus_period_ms = 100, oc_print_period_ms = 200, oc_run_duration_ms = 3000\<rparr>"

definition observer_number :: "string \<Rightarrow> int \<Rightarrow> ObserverConfig \<Rightarrow> ObserverConfig option" where
  "observer_number arg number cfg =
     (if arg = ''--node-id'' \<and> number \<ge> 1 \<and> number \<le> 31 then Some (cfg\<lparr>oc_node := of_int number\<rparr>)
      else if arg = ''--modbus-port'' \<and> number \<ge> 1 \<and> number \<le> 65535 then Some (cfg\<lparr>oc_modbus_port := of_int number\<rparr>)
      else if arg = ''--temperature-register'' \<and> number \<ge> 0 \<and> number \<le> 65535
        then Some (cfg\<lparr>oc_temperature_register := of_int number\<rparr>)
      else if arg = ''--modbus-period-ms'' \<and> number \<ge> 10 \<and> number \<le> 60000 then Some (cfg\<lparr>oc_modbus_period_ms := number\<rparr>)
      else if arg = ''--print-period-ms'' \<and> number \<ge> 10 \<and> number \<le> 60000 then Some (cfg\<lparr>oc_print_period_ms := number\<rparr>)
      else if arg = ''--duration-ms'' \<and> number \<ge> 10 \<and> number \<le> 86400000 then Some (cfg\<lparr>oc_run_duration_ms := number\<rparr>)
      else None)"

fun observer_parse_config :: "string list \<Rightarrow> ObserverConfig \<Rightarrow> ObserverConfig option" where
  "observer_parse_config [] cfg = Some cfg"
| "observer_parse_config [arg] cfg = None"
| "observer_parse_config (arg # v # rest) cfg =
     (if arg = ''-h'' \<or> arg = ''--help'' then None
      else if arg = ''--can'' then (if v = [] then None else observer_parse_config rest (cfg\<lparr>oc_can_interface := v\<rparr>))
      else if arg = ''--modbus-host'' then (if v = [] then None else observer_parse_config rest (cfg\<lparr>oc_modbus_host := v\<rparr>))
      else case from_chars_i64 v of
        None \<Rightarrow> None
      | Some number \<Rightarrow>
          (case observer_number arg number cfg of None \<Rightarrow> None | Some cfg \<Rightarrow> observer_parse_config rest cfg))"

section \<open>CAN worker\<close>

text \<open>
  The receive calls of one readiness event, each with the clock reading that follows. A script
  that ends stands for \<^verbatim>\<open>WouldBlock\<close>. The flag says that the source failed.
\<close>

fun can_drain :: "nat \<Rightarrow> u8 \<Rightarrow> (CanFrame Result \<times> i64) list \<Rightarrow> StoreOp list \<times> bool" where
  "can_drain 0 node rx = ([], False)"
| "can_drain (Suc budget) node [] = ([], False)"
| "can_drain (Suc budget) node ((received, now) # rx) =
     (case received of
        Inl e \<Rightarrow> if err_code e = Errc.WouldBlock then ([], False) else ([CanFailure now (err_message e)], True)
      | Inr frame \<Rightarrow>
          (case can_drain budget node rx of (ops, failed) \<Rightarrow> (fst (ingest_can_frame frame node now) @ ops, failed)))"

record CanEvent =
  cv_is_can :: bool
  cv_error :: bool
  cv_input :: bool
  cv_now :: i64
  cv_rx :: "(CanFrame Result \<times> i64) list"

fun can_events :: "u8 \<Rightarrow> CanEvent list \<Rightarrow> StoreOp list \<times> bool" where
  "can_events node [] = ([], False)"
| "can_events node (event # events) =
     (if \<not> cv_is_can event then can_events node events
      else if cv_error event then ([CanFailure (cv_now event) ''SocketCAN epoll error/hangup''], True)
      else if \<not> cv_input event then can_events node events
      else case can_drain 64 node (cv_rx event) of (ops, failed) \<Rightarrow>
        case can_events node events of (ops', failed') \<Rightarrow> (ops @ ops', failed \<or> failed'))"

text \<open>A turn of the loop: the wait fails, the stop event is among the events, or not.\<close>

datatype CanTurn = CanWaitFails Error i64 | CanStopReady | CanEvents "CanEvent list"

fun can_loop :: "u8 \<Rightarrow> CanTurn list \<Rightarrow> StoreOp list" where
  "can_loop node [] = []"
| "can_loop node (turn # turns) =
     (case turn of
        CanWaitFails e now \<Rightarrow> [CanFailure now (err_message e)]
      | CanStopReady \<Rightarrow> []
      | CanEvents events \<Rightarrow>
          (case can_events node events of (ops, failed) \<Rightarrow> ops @ (if failed then [] else can_loop node turns)))"

text \<open>The set-up calls in order; the first that fails ends the worker.\<close>

record CanSetup =
  cu_open :: "unit Result"
  cu_nonblocking :: "unit Result"
  cu_reactor :: bool
  cu_add_can :: "unit Result"
  cu_add_stop :: "unit Result"
  cu_now :: i64

definition run_can_worker :: "ObserverConfig \<Rightarrow> CanSetup \<Rightarrow> CanTurn list \<Rightarrow> StoreOp list" where
  "run_can_worker cfg prep turns =
     (case cu_open prep of Inl e \<Rightarrow> [CanFailure (cu_now prep) (err_message e)] | Inr _ \<Rightarrow>
      case cu_nonblocking prep of Inl e \<Rightarrow> [CanFailure (cu_now prep) (err_message e)] | Inr _ \<Rightarrow>
      if \<not> cu_reactor prep then [CanFailure (cu_now prep) ''epoll_create failed'']
      else case cu_add_can prep of Inl e \<Rightarrow> [CanFailure (cu_now prep) (err_message e)] | Inr _ \<Rightarrow>
      case cu_add_stop prep of Inl e \<Rightarrow> [CanFailure (cu_now prep) (err_message e)] | Inr _ \<Rightarrow>
      can_loop (oc_node cfg) turns)"

section \<open>Modbus worker\<close>

definition modbus_client_config :: "ObserverConfig \<Rightarrow> MbusClientConfig" where
  "modbus_client_config cfg =
     mbus_client_config_default\<lparr>mcc_host := oc_modbus_host cfg, mcc_port := oc_modbus_port cfg, mcc_connect_timeout_ms := 150,
       mcc_response_timeout_ms := 150, mcc_reconnect_attempts := 1, mcc_reconnect_base_ms := 10, mcc_reconnect_max_ms := 10\<rparr>"

definition modbus_poll :: "ObserverConfig \<Rightarrow> MbusEnv \<Rightarrow> i64 \<Rightarrow> MbusClient \<Rightarrow> MbusClient \<times> StoreOp" where
  "modbus_poll cfg env sampled_ns c =
     (case mc_read_holding env (oc_temperature_register cfg) 1 c of
        (c, Inl (e, message)) \<Rightarrow> (c, ModbusFailure sampled_ns (MbusError_to_string e @ '': '' @ message))
      | (c, Inr vs) \<Rightarrow>
          (c, if length vs \<noteq> 1 then ModbusFailure sampled_ns ''read_holding returned unexpected quantity''
              else PublishTemperature (decode_temperature_register (hd vs) (oc_temperature_register cfg) sampled_ns)))"

text \<open>The next boundary after \<open>now\<close>; the period is positive for every accepted configuration.\<close>

function skip_missed :: "i64 \<Rightarrow> i64 \<Rightarrow> i64 \<Rightarrow> i64" where
  "skip_missed period next_at now =
     (if next_at \<le> now \<and> 0 < period then skip_missed period (next_at + period) now else next_at)"
  by auto
termination by (relation "measure (\<lambda>(p, n, t). nat (t - n + 1))") auto

declare skip_missed.simps [simp del]

text \<open>
  A turn: what the client meets, the clock reading of the sample and the one that
  decides on the next boundary. The list ends when a stop is requested. The wake-up
  times are returned beside the calls.
\<close>

fun modbus_loop :: "ObserverConfig \<Rightarrow> (MbusEnv \<times> i64 \<times> i64) list \<Rightarrow> i64 \<Rightarrow> MbusClient \<Rightarrow> StoreOp list \<times> i64 list" where
  "modbus_loop cfg [] next_at c = ([], [])"
| "modbus_loop cfg ((env, sampled_ns, now) # turns) next_at c =
     (case modbus_poll cfg env sampled_ns c of (c, op) \<Rightarrow>
        let wake = skip_missed (oc_modbus_period_ms cfg * 1000000) (next_at + oc_modbus_period_ms cfg * 1000000) now
        in case modbus_loop cfg turns wake c of (ops, wakes) \<Rightarrow> (op # ops, wake # wakes))"

definition run_modbus_worker :: "ObserverConfig \<Rightarrow> i64 \<Rightarrow> (MbusEnv \<times> i64 \<times> i64) list \<Rightarrow> StoreOp list" where
  "run_modbus_worker cfg started turns = fst (modbus_loop cfg turns started (mc_init (modbus_client_config cfg)))"

section \<open>Display and main program\<close>

definition age_ms :: "i64 \<Rightarrow> i64 \<Rightarrow> i64" where
  "age_ms sampled_ns now_ns = (if sampled_ns \<le> 0 \<or> now_ns < sampled_ns then -1 else (now_ns - sampled_ns) div 1000000)"

text \<open>What \<^verbatim>\<open>print_snapshot\<close> shows besides the fields of the snapshot: age and staleness of the two samples.\<close>

definition snapshot_ages :: "ObserverConfig \<Rightarrow> ObservationSnapshot \<Rightarrow> i64 \<Rightarrow> (i64 \<times> bool) \<times> (i64 \<times> bool)" where
  "snapshot_ages cfg ob now_ns =
     ((age_ms (cs_sampled_ns (ob_can ob)) now_ns,
       sample_is_stale (cs_valid (ob_can ob)) (cs_sampled_ns (ob_can ob)) now_ns 350000000),
      (age_ms (ts_sampled_ns (ob_temperature ob)) now_ns,
       sample_is_stale (ts_valid (ob_temperature ob)) (ts_sampled_ns (ob_temperature ob)) now_ns
         (oc_modbus_period_ms cfg * 3 * 1000000)))"

text \<open>
  The exit code and the final snapshot. \<open>calls\<close> is the order in which the two threads
  got the mutex.
\<close>

definition observer_main :: "string list \<Rightarrow> bool \<Rightarrow> (ObserverConfig \<Rightarrow> StoreOp list) \<Rightarrow> int \<times> ObservationSnapshot option" where
  "observer_main args eventfd_ok calls =
     (if ''-h'' \<in> set args \<or> ''--help'' \<in> set args then (0, None)
      else case observer_parse_config args observer_config_default of
        None \<Rightarrow> (2, None)
      | Some cfg \<Rightarrow> if \<not> eventfd_ok then (1, None) else (0, Some (fold store_step (calls cfg) obs_init)))"

section \<open>Sensor server\<close>

record SensorConfig =
  sk_host :: string
  sk_port :: u16
  sk_register_address :: u16
  sk_temperature_deci_c :: int

definition sensor_config_default :: SensorConfig where
  "sensor_config_default =
     \<lparr>sk_host = ''127.0.0.1'', sk_port = 1502, sk_register_address = 0, sk_temperature_deci_c = 255\<rparr>"

fun sensor_parse_config :: "string list \<Rightarrow> SensorConfig \<Rightarrow> SensorConfig option" where
  "sensor_parse_config [] cfg = Some cfg"
| "sensor_parse_config [arg] cfg = None"
| "sensor_parse_config (arg # v # rest) cfg =
     (if arg = ''-h'' \<or> arg = ''--help'' then None
      else if arg = ''--host'' then (if v = [] then None else sensor_parse_config rest (cfg\<lparr>sk_host := v\<rparr>))
      else case from_chars_i64 v of
        None \<Rightarrow> None
      | Some number \<Rightarrow>
          if arg = ''--port'' \<and> number \<ge> 1 \<and> number \<le> 65535
            then sensor_parse_config rest (cfg\<lparr>sk_port := of_int number\<rparr>)
          else if arg = ''--register'' \<and> number \<ge> 0 \<and> number < 64
            then sensor_parse_config rest (cfg\<lparr>sk_register_address := of_int number\<rparr>)
          else if arg = ''--temperature-deci-c'' \<and> number \<ge> - 32768 \<and> number \<le> 32767
            then sensor_parse_config rest (cfg\<lparr>sk_temperature_deci_c := number\<rparr>)
          else None)"

text \<open>The exit code, or the running server.\<close>

definition sensor_main :: "string list \<Rightarrow> MbusStartOutcome \<Rightarrow> int + RefServer" where
  "sensor_main args outcome =
     (if ''-h'' \<in> set args \<or> ''--help'' \<in> set args then Inl 0
      else case sensor_parse_config args sensor_config_default of
        None \<Rightarrow> Inl 2
      | Some cfg \<Rightarrow>
          let srv = srv_init 64 in
          (case hm_write_single (sk_register_address cfg) (of_int (sk_temperature_deci_c cfg)) (srv_map srv) of
             (regs, Inl _) \<Rightarrow> Inl 1
           | (regs, Inr _) \<Rightarrow>
               (case srv_start (sk_port cfg) outcome (srv\<lparr>srv_map := regs\<rparr>) of
                  (srv, Inl _) \<Rightarrow> Inl 1
                | (srv, Inr _) \<Rightarrow> Inr srv)))"

section \<open>Staleness and boundaries\<close>

lemma fresh_iff:
  "\<not> sample_is_stale valid sampled now max_age \<longleftrightarrow> valid \<and> 0 < sampled \<and> sampled \<le> now \<and> now \<le> sampled + max_age"
  by (auto simp: sample_is_stale_def)

text \<open>The worker sleeps to the first point of its grid after the current time.\<close>

lemma skip_missed_next:
  assumes "0 < period"
  shows "now < skip_missed period n now \<and> (\<exists>k \<ge> 0. skip_missed period n now = n + k * period) \<and>
    (n \<le> now \<longrightarrow> skip_missed period n now \<le> now + period)"
  using assms
proof (induction period n now rule: skip_missed.induct)
  case (1 period n now)
  show ?case
  proof (cases "n \<le> now")
    case True
    then have e: "skip_missed period n now = skip_missed period (n + period) now"
      using 1(2) by (subst skip_missed.simps) simp
    from 1(1) [OF conjI [OF True 1(2)] 1(2)] obtain k where k: "now < skip_missed period n now" "k \<ge> 0"
      "skip_missed period n now = n + period + k * period" "n + period \<le> now \<longrightarrow> skip_missed period n now \<le> now + period"
      unfolding e by blast
    have "\<exists>k' \<ge> 0. skip_missed period n now = n + k' * period" using k(2,3) by (intro exI [of _ "k + 1"]) (simp add: algebra_simps)
    moreover have "skip_missed period n now \<le> now + period"
    proof (cases "n + period \<le> now")
      case False
      then have "skip_missed period n now = n + period" unfolding e by (subst skip_missed.simps) simp
      then show ?thesis using True by simp
    qed (use k(4) in simp)
    ultimately show ?thesis using k(1) by blast
  next
    case False
    then show ?thesis by (subst (1 2 3) skip_missed.simps) (auto intro: exI [of _ 0])
  qed
qed

section \<open>Independent sources\<close>

fun is_can_op :: "StoreOp \<Rightarrow> bool" where
  "is_can_op (PublishCan _) = True"
| "is_can_op (CanFailure _ _) = True"
| "is_can_op _ = False"

definition can_half :: "ObservationSnapshot \<Rightarrow> CanStatusSample \<times> SourceStatus" where
  "can_half ob = (ob_can ob, ob_can_source ob)"

definition modbus_half :: "ObservationSnapshot \<Rightarrow> TemperatureSample \<times> SourceStatus" where
  "modbus_half ob = (ob_temperature ob, ob_modbus_source ob)"

lemmas store_defs = publish_can_def publish_temperature_def mark_can_failure_def mark_modbus_failure_def
  can_half_def modbus_half_def

lemma step_halves:
  "is_can_op op \<Longrightarrow> modbus_half (store_step op ob) = modbus_half ob"
  "\<not> is_can_op op \<Longrightarrow> can_half (store_step op ob) = can_half ob"
  "can_half a = can_half b \<Longrightarrow> can_half (store_step op a) = can_half (store_step op b)"
  "modbus_half a = modbus_half b \<Longrightarrow> modbus_half (store_step op a) = modbus_half (store_step op b)"
  by (cases op; simp add: store_defs)+

lemma fold_can_half: "can_half a = can_half b \<Longrightarrow> can_half (fold store_step zs a) = can_half (fold store_step (filter is_can_op zs) b)"
proof (induction zs arbitrary: a b)
  case (Cons z zs)
  show ?case
  proof (cases "is_can_op z")
    case True
    then show ?thesis using Cons.IH [OF step_halves(3) [OF Cons.prems, of z]] by simp
  next
    case False
    then show ?thesis using Cons.IH [of "store_step z a" b] Cons.prems step_halves(2) by simp
  qed
qed simp

lemma fold_modbus_half:
  "modbus_half a = modbus_half b \<Longrightarrow>
     modbus_half (fold store_step zs a) = modbus_half (fold store_step (filter (\<lambda>z. \<not> is_can_op z) zs) b)"
proof (induction zs arbitrary: a b)
  case (Cons z zs)
  show ?case
  proof (cases "is_can_op z")
    case False
    then show ?thesis using Cons.IH [OF step_halves(4) [OF Cons.prems, of z]] by simp
  next
    case True
    then show ?thesis using Cons.IH [of "store_step z a" b] Cons.prems step_halves(1) by simp
  qed
qed simp

lemma ingest_can: "list_all is_can_op (fst (ingest_can_frame f node now))"
  by (auto simp: ingest_can_frame_def split: sum.splits DecodedMessage.splits)

lemma can_drain_can: "list_all is_can_op (fst (can_drain n node rx))"
  by (induction n node rx rule: can_drain.induct) (auto simp: ingest_can split: sum.splits prod.splits)

lemma can_events_can: "list_all is_can_op (fst (can_events node evs))"
proof (induction evs)
  case (Cons e evs)
  then show ?case using can_drain_can [of 64 node "cv_rx e"] by (auto split: prod.splits)
qed simp

lemma can_loop_can: "list_all is_can_op (can_loop node turns)"
proof (induction turns)
  case (Cons t turns)
  show ?case
  proof (cases t)
    case (CanEvents evs)
    then show ?thesis using Cons can_events_can [of node evs] by (auto split: prod.splits)
  qed simp_all
qed simp

lemma can_worker_can: "list_all is_can_op (run_can_worker cfg prep turns)"
  using can_loop_can by (auto simp: run_can_worker_def split: sum.splits)

lemma modbus_worker_modbus: "list_all (\<lambda>z. \<not> is_can_op z) (run_modbus_worker cfg started turns)"
proof -
  have "list_all (\<lambda>z. \<not> is_can_op z) (fst (modbus_loop cfg turns t c))" for t c
    by (induction cfg turns t c rule: modbus_loop.induct) (auto simp: modbus_poll_def Let_def split: prod.splits sum.splits)
  then show ?thesis by (simp add: run_modbus_worker_def)
qed

lemma filter_shuffle:
  assumes "zs \<in> shuffles xs ys" and "list_all P xs" and "list_all (\<lambda>z. \<not> P z) ys"
  shows "filter P zs = xs" "filter (\<lambda>z. \<not> P z) zs = ys"
proof -
  have "filter P zs \<in> shuffles (filter P xs) (filter P ys)" "filter (\<lambda>z. \<not> P z) zs \<in> shuffles (filter (\<lambda>z. \<not> P z) xs) (filter (\<lambda>z. \<not> P z) ys)"
    using assms(1) by (auto simp flip: filter_shuffles)
  moreover have "filter P xs = xs" "filter P ys = []" "filter (\<lambda>z. \<not> P z) xs = []" "filter (\<lambda>z. \<not> P z) ys = ys"
    using assms(2,3) by (auto simp: list_all_iff filter_empty_conv)
  ultimately show "filter P zs = xs" "filter (\<lambda>z. \<not> P z) zs = ys" by auto
qed

section \<open>What the snapshot says\<close>

fun can_samples :: "StoreOp list \<Rightarrow> CanStatusSample list" where
  "can_samples [] = []"
| "can_samples (PublishCan c # ops) = c\<lparr>cs_valid := True\<rparr> # can_samples ops"
| "can_samples (op # ops) = can_samples ops"

fun temperature_samples :: "StoreOp list \<Rightarrow> TemperatureSample list" where
  "temperature_samples [] = []"
| "temperature_samples (PublishTemperature t # ops) = t\<lparr>ts_valid := True\<rparr> # temperature_samples ops"
| "temperature_samples (op # ops) = temperature_samples ops"

fun is_publish :: "StoreOp \<Rightarrow> bool" where
  "is_publish (PublishCan _) = True"
| "is_publish (PublishTemperature _) = True"
| "is_publish _ = False"

text \<open>Health and counters of a source after its calls.\<close>

definition source_after :: "StoreOp list \<Rightarrow> SourceStatus \<Rightarrow> bool" where
  "source_after ops st \<longleftrightarrow>
     ss_health st = (if ops = [] then SourceHealth.Waiting else if is_publish (last ops) then SourceHealth.Healthy else SourceHealth.Faulted) \<and>
     ss_updates st = of_nat (length (filter is_publish ops)) \<and>
     ss_failures st = of_nat (length (filter (\<lambda>op. \<not> is_publish op) ops))"

lemma can_samples_append [simp]: "can_samples (xs @ ys) = can_samples xs @ can_samples ys"
  by (induction xs rule: can_samples.induct) simp_all

lemma temperature_samples_append [simp]: "temperature_samples (xs @ ys) = temperature_samples xs @ temperature_samples ys"
  by (induction xs rule: temperature_samples.induct) simp_all

lemma can_alone:
  "list_all is_can_op cs \<Longrightarrow>
     ob_can (fold store_step cs obs_init) = last (ob_can obs_init # can_samples cs) \<and>
     source_after cs (ob_can_source (fold store_step cs obs_init))"
proof (induction cs rule: rev_induct)
  case (snoc op cs)
  then show ?case
    by (cases op) (auto simp: store_defs source_after_def mark_healthy_def mark_failure_def add.commute)
qed (simp add: source_after_def obs_init_def source_init_def)

lemma modbus_alone:
  "list_all (\<lambda>z. \<not> is_can_op z) ms \<Longrightarrow>
     ob_temperature (fold store_step ms obs_init) = last (ob_temperature obs_init # temperature_samples ms) \<and>
     source_after ms (ob_modbus_source (fold store_step ms obs_init))"
proof (induction ms rule: rev_induct)
  case (snoc op ms)
  then show ?case
    by (cases op) (auto simp: store_defs source_after_def mark_healthy_def mark_failure_def add.commute)
qed (simp add: source_after_def obs_init_def source_init_def)

section \<open>Properties\<close>

text \<open>
  The snapshot is exact and the sources are independent. However the calls of the
  CAN worker and of the Modbus worker interleave, the snapshot shows the last CAN
  sample and the last temperature published (or that there is none yet), each
  source is healthy exactly if its own last call was a sample, and the counters are the
  numbers of its samples and failures: nothing one worker does shows in the half of the other.
\<close>

theorem observer_snapshot_exact:
  assumes "calls \<in> shuffles (run_can_worker cfg prep turns) (run_modbus_worker cfg started polls)"
    and "ob = fold store_step calls obs_init"
  shows "ob_can ob = last (ob_can obs_init # can_samples (run_can_worker cfg prep turns)) \<and>
    source_after (run_can_worker cfg prep turns) (ob_can_source ob) \<and>
    ob_temperature ob = last (ob_temperature obs_init # temperature_samples (run_modbus_worker cfg started polls)) \<and>
    source_after (run_modbus_worker cfg started polls) (ob_modbus_source ob)"
proof -
  note f = filter_shuffle [OF assms(1) can_worker_can modbus_worker_modbus]
  show ?thesis
    using fold_can_half [of obs_init obs_init calls] fold_modbus_half [of obs_init obs_init calls]
      can_alone [OF can_worker_can, of cfg prep turns] modbus_alone [OF modbus_worker_modbus, of cfg started polls]
    unfolding assms(2) f by (simp add: can_half_def modbus_half_def)
qed

lemma sensor_register:
  "sensor_parse_config args cfg0 = Some cfg \<Longrightarrow> unat (sk_register_address cfg0) < 64 \<Longrightarrow>
     - 32768 \<le> sk_temperature_deci_c cfg0 \<Longrightarrow> sk_temperature_deci_c cfg0 \<le> 32767 \<Longrightarrow>
     unat (sk_register_address cfg) < 64 \<and> - 32768 \<le> sk_temperature_deci_c cfg \<and> sk_temperature_deci_c cfg \<le> 32767"
proof (induction args cfg0 rule: sensor_parse_config.induct)
  case (3 arg v rest cfg0)
  have u: "unat (of_int n :: u16) < 64" if "0 \<le> n" "n < 64" for n :: int
    using that by (simp add: unat_eq_nat_uint uint_word_of_int nat_less_iff)
  show ?case using 3 u by (auto split: if_splits option.splits)
qed simp_all

lemma sint_of_deci: "- 32768 \<le> t \<Longrightarrow> t \<le> 32767 \<Longrightarrow> sint (of_int t :: u16) = t"
  by (simp add: signed_of_int signed_take_bit_int_eq_self)

text \<open>
  C36. A temperature reaches the observer unchanged. Let the sensor server run with any
  accepted command line, and let the observer's connected client poll the register
  of the sensor, with request and reply cut up in any way. Then the poll publishes a valid
  sample with exactly the temperature on the server's command line, negative ones included,
  and leaves the registers and the connection as they were.
\<close>

theorem temperature_end_to_end:
  assumes "sensor_parse_config args sensor_config_default = Some sensor" and "sensor_main args outcome = Inr srv"
    and "oc_temperature_register cfg = sk_register_address sensor" and "mc_ready c"
    and "encode_read_holding_request (sk_register_address sensor) 1 = Inr pdu" and "mbus_call (srv_map srv) pdu c env regs'"
  shows "snd (modbus_poll cfg env now c) =
      PublishTemperature \<lparr>ts_valid = True, ts_sampled_ns = now, ts_register_address = sk_register_address sensor,
                          ts_deci_celsius = sk_temperature_deci_c sensor\<rparr> \<and>
    mc_ready (fst (modbus_poll cfg env now c)) \<and> regs' = srv_map srv"
proof -
  let ?a = "sk_register_address sensor" and ?t = "sk_temperature_deci_c sensor"
  have k: "unat ?a < 64" "- 32768 \<le> ?t" "?t \<le> 32767"
    using sensor_register [OF assms(1)] by (simp_all add: sensor_config_default_def)
  have m: "srv_map srv = (hm_init 64)[unat ?a := of_int ?t]"
    using assms(1,2) k(1)
    by (auto simp: sensor_main_def Let_def hm_write_single_def srv_init_def hm_init_def srv_start_def
        split: if_splits prod.splits sum.splits MbusStartOutcome.splits)
  have r: "unat ?a + 1 \<le> length (srv_map srv)" "take 1 (drop (unat ?a) (srv_map srv)) = [of_int ?t]"
    using k(1) unfolding m by (simp_all add: hm_init_def take_Suc hd_drop_conv_nth)
  have pdu: "encode_read_holding_request ?a (of_nat 1) = Inr pdu" using assms(5) by simp
  note h = handle_read [OF _ _ r(1) pdu, unfolded r(2)]
  obtain rep c' adu where a: "handle_pdu pdu (srv_map srv) = (regs', Inr rep)" "mc_transact_raw env pdu c = (c', Inr adu)"
    "adu_pdu adu = rep" "mc_ready c'"
    using call_answered [OF assms(4) _ assms(6)] h by auto
  have "encode_read_holding_response [of_int ?t] = Inr rep" "regs' = srv_map srv" using a(1) h by simp_all
  note d = decode_read_roundtrip [OF this(1)]
  have "mc_read_holding env ?a 1 c = (c', Inr [of_int ?t])"
    using assms(5) a(2,3) d by (simp add: mc_read_holding_def mc_finish_def)
  then show ?thesis
    using assms(3) a(4) \<open>regs' = srv_map srv\<close> sint_of_deci [OF k(2,3)]
    by (simp add: modbus_poll_def decode_temperature_register_def)
qed

text \<open>Polls that all fail publish nothing.\<close>

lemma poll_failure:
  assumes "encode_read_holding_request (oc_temperature_register cfg) 1 = Inr pdu"
    and "mc_transact_raw env pdu c = (c', Inl (e, m))"
  shows "modbus_poll cfg env now c = (c', ModbusFailure now (MbusError_to_string e @ '': '' @ m))"
  using assms by (simp add: modbus_poll_def mc_read_holding_def mc_finish_def)

lemma lagging_polls:
  "mc_ready c \<Longrightarrow> mc_next_tid c = tid_succ tid \<Longrightarrow>
     encode_read_holding_request (oc_temperature_register cfg) 1 = Inr pdu \<Longrightarrow>
     lagging tid (mcc_unit_id (mc_config c)) (map (\<lambda>(env, _). (env, pdu)) polls) \<Longrightarrow>
     list_all (\<lambda>op. \<exists>now m. op = ModbusFailure now m) (fst (modbus_loop cfg polls next_at c))"
proof (induction polls arbitrary: c tid next_at)
  case (Cons p polls)
  obtain env sampled now where p: "p = (env, sampled, now)" by (cases p)
  have l: "lagging tid (mcc_unit_id (mc_config c)) ((env, pdu) # map (\<lambda>(env, _). (env, pdu)) polls)" using Cons.prems(4) p by simp
  note t = lagging_transaction [OF Cons.prems(1,2) l]
  note rest = Cons.IH [of "fst (mc_take_tid c)" "tid_succ tid", OF take_tid_ready(1) [OF Cons.prems(1)]]
  show ?case
    using rest Cons.prems l take_tid_ready(2,3) [of c] unfolding p
    by (simp add: poll_failure [OF Cons.prems(3) t] Let_def split_beta)
qed simp

lemma modbus_failures_keep:
  "list_all (\<lambda>op. \<exists>now m. op = ModbusFailure now m) ops \<Longrightarrow>
     ob_temperature (fold store_step ops ob) = ob_temperature ob \<and>
     (ops \<noteq> [] \<longrightarrow> ss_health (ob_modbus_source (fold store_step ops ob)) = SourceHealth.Faulted)"
proof (induction ops rule: rev_induct)
  case (snoc op ops)
  then show ?case by (auto simp: mark_modbus_failure_def mark_failure_def)
qed simp

text \<open>
  One slow reply blinds the observer. When the reply to one poll comes after the
  response timeout, and the server answers every later poll correctly but each client read
  finds the reply to the poll before it, then no later poll publishes a sample: the
  temperature stays the one from before, the source stays faulted, however long the
  observer runs.
\<close>

theorem slow_reply_blinds:
  assumes "mc_ready c" and "encode_read_holding_request (oc_temperature_register cfg) 1 = Inr pdu"
    and "no_send_failure (mi_send (me_io env))" and "mi_recv (me_io env) = []"
    and "lagging (mc_next_tid c) (mcc_unit_id (mc_config c)) (map (\<lambda>(env, _). (env, pdu)) polls)"
    and "ob' = fold store_step (fst (modbus_loop cfg ((env, sampled, now) # polls) next_at c)) ob"
  shows "ob_temperature ob' = ob_temperature ob \<and> ss_health (ob_modbus_source ob') = SourceHealth.Faulted"
proof -
  have fits: "mb_fits pdu" using assms(2) by (auto simp: encode_read_holding_request_def mb_fits_def kMaxPduSize_def mbus_put_u16_eq split: if_splits)
  note t = timeout_keeps [OF assms(1) fits assms(3,4)]
  have "list_all (\<lambda>op. \<exists>now m. op = ModbusFailure now m) (fst (modbus_loop cfg polls n (fst (mc_take_tid c))))" for n
    by (rule lagging_polls [of _ "mc_next_tid c" _ pdu]) (use assms take_tid_ready in simp_all)
  then have "list_all (\<lambda>op. \<exists>now m. op = ModbusFailure now m) (fst (modbus_loop cfg ((env, sampled, now) # polls) next_at c))"
    by (simp add: poll_failure [OF assms(2) t] Let_def split_beta)
  then show ?thesis using modbus_failures_keep [of "fst (modbus_loop cfg ((env, sampled, now) # polls) next_at c)" ob] assms(6)
    by (auto simp: poll_failure [OF assms(2) t] Let_def split_beta)
qed

section \<open>A concrete observer\<close>

definition demo_can_turns :: "CanTurn list" where
  "demo_can_turns =
     [CanEvents [\<lparr>cv_is_can = True, cv_error = False, cv_input = True, cv_now = 5,
        cv_rx = [(encode_node_status \<lparr>ns_node_id = 1, ns_interlock_ready = True, ns_session_id = 9, ns_input_bits = 3, ns_fault_code = 0\<rparr>, 6)]\<rparr>],
      CanStopReady]"

definition demo_can_prep :: CanSetup where
  "demo_can_prep = \<lparr>cu_open = Inr (), cu_nonblocking = Inr (), cu_reactor = True, cu_add_can = Inr (), cu_add_stop = Inr (), cu_now = 1\<rparr>"

theorem observer_snapshot_exact_witness:
  "\<exists>calls. calls \<in> shuffles (run_can_worker observer_config_default demo_can_prep demo_can_turns)
        (run_modbus_worker observer_config_default 0 []) \<and>
     ss_health (ob_can_source (fold store_step calls obs_init)) = SourceHealth.Healthy \<and>
     ss_health (ob_modbus_source (fold store_step calls obs_init)) = SourceHealth.Waiting"
proof -
  let ?cs = "run_can_worker observer_config_default demo_can_prep demo_can_turns"
  have e: "run_modbus_worker observer_config_default 0 [] = []" by (simp add: run_modbus_worker_def)
  have c: "?cs \<noteq> []" "is_publish (last ?cs)" by code_simp+
  have m: "?cs \<in> shuffles ?cs (run_modbus_worker observer_config_default 0 [])" by (simp add: e)
  from observer_snapshot_exact [OF m refl] show ?thesis using m c by (auto simp: source_after_def e)
qed

definition demo_sensor_args :: "string list" where
  "demo_sensor_args = [''--register'', ''2'', ''--temperature-deci-c'', ''-40'']"

theorem temperature_end_to_end_witness:
  "\<exists>env c. snd (modbus_poll (observer_config_default\<lparr>oc_temperature_register := 2\<rparr>) env 7 c) =
     PublishTemperature \<lparr>ts_valid = True, ts_sampled_ns = 7, ts_register_address = 2, ts_deci_celsius = - 40\<rparr>"
proof -
  let ?sensor = "sensor_config_default\<lparr>sk_register_address := 2, sk_temperature_deci_c := - 40\<rparr>"
  let ?pdu = "[3, 0, 2, 0, 1] :: u8 list" and ?r = "[3, 2, 0xFF, 0xD8] :: u8 list"
  have s: "sensor_parse_config demo_sensor_args sensor_config_default = Some ?sensor" by code_simp
  obtain srv where srv: "sensor_main demo_sensor_args (StBound None) = Inr srv" "handle_pdu ?pdu (srv_map srv) = (srv_map srv, Inr ?r)"
  proof
    show "sensor_main demo_sensor_args (StBound None) = Inr (projr (sensor_main demo_sensor_args (StBound None)))" by code_simp
    show "handle_pdu ?pdu (srv_map (projr (sensor_main demo_sensor_args (StBound None)))) =
        (srv_map (projr (sensor_main demo_sensor_args (StBound None))), Inr ?r)" by code_simp
  qed
  have e: "encode_read_holding_request (sk_register_address ?sensor) 1 = Inr ?pdu" by code_simp
  have f: "mb_fits ?pdu" by (simp add: mb_fits_def kMaxPduSize_def)
  have ready: "mc_ready demo_mbus_client" by (simp add: mc_ready_def demo_mbus_client_def mc_init_def)
  from temperature_end_to_end [OF s srv(1) _ ready e demo_call [OF f srv(2)],
      of "observer_config_default\<lparr>oc_temperature_register := 2\<rparr>" 7]
  show ?thesis by auto
qed

theorem slow_reply_blinds_witness:
  "\<exists>env polls c. ss_health (ob_modbus_source (fold store_step
      (fst (modbus_loop observer_config_default ((env, 1, 2) # polls) 0 c)) obs_init)) = SourceHealth.Faulted \<and> length polls = 1"
proof -
  let ?pdu = "[3, 0, 0, 0, 1] :: u8 list" and ?r = "[3, 2, 0, 7] :: u8 list"
  let ?env1 = "(demo_mbus_env ?r demo_mbus_client)\<lparr>me_io := \<lparr>mi_send = [], mi_recv = []\<rparr>\<rparr>"
  let ?polls = "[(demo_mbus_env ?r demo_mbus_client, 3, 4)]"
  have e: "encode_read_holding_request (oc_temperature_register observer_config_default) 1 = Inr ?pdu" by code_simp
  have f: "mb_fits ?pdu" "mb_fits ?r" by (simp_all add: mb_fits_def kMaxPduSize_def)
  have ready: "mc_ready demo_mbus_client" by (simp add: mc_ready_def demo_mbus_client_def mc_init_def)
  have "adu_wire t u p \<noteq> []" for t u p by (auto dest: arg_cong [of _ _ length])
  then have l: "lagging (mc_next_tid demo_mbus_client) (mcc_unit_id (mc_config demo_mbus_client)) (map (\<lambda>(env, _). (env, ?pdu)) ?polls)"
    using f by (auto simp: demo_mbus_env_def no_send_failure_def recv_gives_def)
  have "no_send_failure (mi_send (me_io ?env1))" "mi_recv (me_io ?env1) = []" by (simp_all add: no_send_failure_def)
  from slow_reply_blinds [OF ready e this l refl, of 1 2 0 obs_init]
  show ?thesis by (intro exI [of _ ?env1] exI [of _ ?polls] exI [of _ demo_mbus_client]) (simp del: modbus_loop.simps)
qed

end
