(* ===== verification/Node_Sim_App.thy ===== *)
theory Node_Sim_App
  imports Node_Sim Cli_Text
begin

text \<open>
  The simulated node as a program, \<^verbatim>\<open>linux/apps/rcr_node_sim.cpp\<close>: its options, the delayed
  answers of the fault injection, the one timer that serves every deadline, and the
  event loop. Each event carries what the system gives with it: the clock reading
  that follows, the frames the socket holds. Frames handed to \<^verbatim>\<open>send\<close> are collected in
  order; whether the socket takes them is ignored by the source. The lemmas show
  that the timer is always armed for the earliest deadline, rounded up by less than a
  millisecond, so an output never outlives its lease by more.
\<close>

section \<open>Options\<close>

record SimOptions =
  so_can_if :: string
  so_node_id :: u8
  so_heartbeat_ms :: i64
  so_duration_ms :: i64
  so_boot_id :: u16
  so_session_id :: u16
  so_interlock_ready :: bool
  so_input_bits :: u16
  so_fault_stop_heartbeat :: bool
  so_fault_delay_response_ms :: i64
  so_fault_restart_after_ms :: i64
  so_fault_send_illegal_after_ms :: i64

definition sim_options_default :: SimOptions where
  "sim_options_default =
     \<lparr>so_can_if = ''vcan0'', so_node_id = 1, so_heartbeat_ms = 100, so_duration_ms = 0, so_boot_id = 1,
      so_session_id = 1, so_interlock_ready = True, so_input_bits = 0, so_fault_stop_heartbeat = False,
      so_fault_delay_response_ms = 0, so_fault_restart_after_ms = 0, so_fault_send_illegal_after_ms = 0\<rparr>"

definition sim_parse_u16 :: "string \<Rightarrow> u16 option" where
  "sim_parse_u16 text = map_option of_int (parse_in 0 65535 text)"

definition sim_nonzero_u16 :: "string \<Rightarrow> u16 option" where
  "sim_nonzero_u16 text = (case sim_parse_u16 text of Some w \<Rightarrow> if w = 0 then None else Some w | None \<Rightarrow> None)"

definition sim_option :: "string \<Rightarrow> string \<Rightarrow> SimOptions \<Rightarrow> SimOptions option" where
  "sim_option arg v options =
     (if arg = ''--can'' then Some (options\<lparr>so_can_if := v\<rparr>)
      else if arg = ''--node-id'' then map_option (\<lambda>w. options\<lparr>so_node_id := of_int w\<rparr>) (parse_in 1 31 v)
      else if arg = ''--heartbeat-ms'' then map_option (\<lambda>w. options\<lparr>so_heartbeat_ms := w\<rparr>) (parse_in 1 60000 v)
      else if arg = ''--duration-ms'' then map_option (\<lambda>w. options\<lparr>so_duration_ms := w\<rparr>) (parse_in 0 86400000 v)
      else if arg = ''--boot-id'' then map_option (\<lambda>w. options\<lparr>so_boot_id := w\<rparr>) (sim_nonzero_u16 v)
      else if arg = ''--session-id'' then map_option (\<lambda>w. options\<lparr>so_session_id := w\<rparr>) (sim_nonzero_u16 v)
      else if arg = ''--interlock'' then map_option (\<lambda>w. options\<lparr>so_interlock_ready := (w = 1)\<rparr>) (parse_in 0 1 v)
      else if arg = ''--input-bits'' then map_option (\<lambda>w. options\<lparr>so_input_bits := w\<rparr>) (sim_parse_u16 v)
      else if arg = ''--fault-delay-response-ms'' then
        map_option (\<lambda>w. options\<lparr>so_fault_delay_response_ms := w\<rparr>) (parse_in 0 60000 v)
      else if arg = ''--fault-restart-after-ms'' then
        map_option (\<lambda>w. options\<lparr>so_fault_restart_after_ms := w\<rparr>) (parse_in 0 86400000 v)
      else if arg = ''--fault-send-illegal-after-ms'' then
        map_option (\<lambda>w. options\<lparr>so_fault_send_illegal_after_ms := w\<rparr>) (parse_in 0 86400000 v)
      else None)"

text \<open>\<^verbatim>\<open>--help\<close> and every error are the same failure.\<close>

fun sim_parse_options :: "string list \<Rightarrow> SimOptions \<Rightarrow> SimOptions option" where
  "sim_parse_options [] options = Some options"
| "sim_parse_options (arg # args) options =
     (if arg = ''--fault-stop-heartbeat'' then sim_parse_options args (options\<lparr>so_fault_stop_heartbeat := True\<rparr>)
      else if arg = ''--help'' \<or> arg = ''-h'' then None
      else case args of
        [] \<Rightarrow> None
      | v # rest \<Rightarrow>
          (case sim_option arg v options of None \<Rightarrow> None | Some options \<Rightarrow> sim_parse_options rest options))"

section \<open>State\<close>

record PendingCommand =
  pc_command :: WireOutputCommand
  pc_receive_ns :: i64
  pc_due_ns :: i64

text \<open>
  The deadline timer: when it was set and the relative delay in milliseconds, if it
  is armed. \<open>sa_restart\<close> and \<open>sa_illegal\<close> say whether the one-shot descriptors are still valid.
\<close>

record SimApp =
  sa_options :: SimOptions
  sa_node :: CanNodeLogic
  sa_pending :: "PendingCommand list"
  sa_timer :: "(i64 \<times> i64) option"
  sa_restart :: bool
  sa_illegal :: bool
  sa_heartbeat_sends :: nat
  sa_sent :: "CanFrame list"

definition sa_send :: "CanFrame Result \<Rightarrow> SimApp \<Rightarrow> SimApp" where
  "sa_send encoded s = (case encoded of Inr frame \<Rightarrow> s\<lparr>sa_sent := sa_sent s @ [frame]\<rparr> | Inl _ \<Rightarrow> s)"

definition sa_send_status :: "HandleResult \<Rightarrow> SimApp \<Rightarrow> SimApp" where
  "sa_send_status handled s = (if hr_send_status handled then sa_send (encode_output_status (hr_status handled)) s else s)"

section \<open>The deadline timer\<close>

definition arm_oneshot :: "i64 \<Rightarrow> i64 \<Rightarrow> SimApp \<Rightarrow> SimApp" where
  "arm_oneshot now_ns delay_ms s = s\<lparr>sa_timer := (if delay_ms > 0 then Some (now_ns, delay_ms) else None)\<rparr>"

definition min_due :: "SimApp \<Rightarrow> i64" where
  "min_due s =
     foldl (\<lambda>m entry. if pc_due_ns entry < m then pc_due_ns entry else m)
       (if nl_output_lease_active (sa_node s) then nl_output_lease_deadline_ns (sa_node s) else pc_due_ns (hd (sa_pending s)))
       (sa_pending s)"

definition arm_deadline_timer :: "i64 \<Rightarrow> SimApp \<Rightarrow> SimApp" where
  "arm_deadline_timer now_ns s =
     (if sa_pending s = [] \<and> \<not> nl_output_lease_active (sa_node s) then arm_oneshot now_ns 0 s
      else arm_oneshot now_ns (if min_due s > now_ns then (min_due s - now_ns + 999999) div 1000000 else 1) s)"

section \<open>Commands\<close>

fun flush_items :: "PendingCommand list \<Rightarrow> i64 \<Rightarrow> SimApp \<Rightarrow> SimApp \<times> PendingCommand list" where
  "flush_items [] now_ns s = (s, [])"
| "flush_items (item # items) now_ns s =
     (if pc_due_ns item \<le> now_ns then
        case apply_command (pc_command item) (pc_receive_ns item) now_ns (sa_node s) of (n, handled) \<Rightarrow>
          flush_items items now_ns (sa_send_status handled (s\<lparr>sa_node := n\<rparr>))
      else case flush_items items now_ns s of (s, remain) \<Rightarrow> (s, item # remain))"

definition flush_pending_commands :: "i64 \<Rightarrow> SimApp \<Rightarrow> SimApp" where
  "flush_pending_commands now_ns s =
     (case flush_items (sa_pending s) now_ns (s\<lparr>sa_node := fst (expire_output_lease now_ns (sa_node s))\<rparr>) of
        (s, remain) \<Rightarrow> arm_deadline_timer now_ns (s\<lparr>sa_pending := remain\<rparr>))"

definition handle_command_now_or_later :: "WireOutputCommand \<Rightarrow> i64 \<Rightarrow> SimApp \<Rightarrow> SimApp" where
  "handle_command_now_or_later command receive_ns s =
     (if so_fault_delay_response_ms (sa_options s) \<le> 0 then
        case apply_command command receive_ns receive_ns (sa_node s) of (n, handled) \<Rightarrow>
          arm_deadline_timer receive_ns (sa_send_status handled (s\<lparr>sa_node := n\<rparr>))
      else
        arm_deadline_timer receive_ns
          (s\<lparr>sa_pending := sa_pending s @
               [\<lparr>pc_command = command, pc_receive_ns = receive_ns,
                 pc_due_ns = receive_ns + so_fault_delay_response_ms (sa_options s) * 1000000\<rparr>]\<rparr>))"

text \<open>The frames the socket gives before \<^verbatim>\<open>receive\<close> fails, each with the clock reading that follows it.\<close>

fun drain_can :: "(CanFrame \<times> i64 option) list \<Rightarrow> SimApp \<Rightarrow> SimApp" where
  "drain_can [] s = s"
| "drain_can ((frame, clock) # rest) s =
     (case clock of
        None \<Rightarrow> s
      | Some now \<Rightarrow>
          let raw11 = can_id frame AND kCanSffMask in
          if function_from_can_id raw11 \<noteq> Function_code Function.OutputCommand \<or>
             node_id_from_can_id raw11 \<noteq> nf_node_id (nl_config (sa_node s))
          then drain_can rest s
          else case decode_output_command frame of
            Inl _ \<Rightarrow> drain_can rest (s\<lparr>sa_node := fst (on_frame frame now (sa_node s))\<rparr>)
          | Inr command \<Rightarrow> drain_can rest (handle_command_now_or_later command now s))"

section \<open>The event loop\<close>

datatype SimEvent = SigReady | DurationReady | HeartbeatReady "i64 option" | DelayReady "i64 option"
  | RestartReady "i64 option" | IllegalReady | CanReady "(CanFrame \<times> i64 option) list"

definition flush_if :: "i64 option \<Rightarrow> SimApp \<Rightarrow> SimApp" where
  "flush_if clock s = (case clock of Some now \<Rightarrow> flush_pending_commands now s | None \<Rightarrow> s)"

definition sim_heartbeat :: "SimApp \<Rightarrow> SimApp" where
  "sim_heartbeat s =
     (if so_fault_stop_heartbeat (sa_options s) then s
      else case make_heartbeat (sa_node s) of (n, hb) \<Rightarrow>
        let s1 = s\<lparr>sa_node := n, sa_heartbeat_sends := sa_heartbeat_sends s + (if is_ok (encode_heartbeat hb) then 1 else 0)\<rparr>
        in sa_send (encode_node_status (make_status n)) (sa_send (encode_heartbeat hb) s1))"

text \<open>A heartbeat frame of an unsupported version.\<close>

definition illegal_frame :: "u8 \<Rightarrow> CanFrame" where
  "illegal_frame node_id =
     \<lparr>can_id = make_can_id Function.Heartbeat node_id, len = 8, data = [0x02, 0, 0x00, 0x01, 0x00, 0x01, 0, 0]\<rparr>"

text \<open>One ready descriptor; \<open>False\<close> ends the loop.\<close>

fun sim_event :: "SimEvent \<Rightarrow> SimApp \<Rightarrow> SimApp \<times> bool" where
  "sim_event SigReady s = (s, False)"
| "sim_event DurationReady s = (s, \<not> so_duration_ms (sa_options s) > 0)"
| "sim_event (HeartbeatReady clock) s = (flush_if clock (sim_heartbeat s), True)"
| "sim_event (DelayReady clock) s = (flush_if clock (s\<lparr>sa_timer := None\<rparr>), True)"
| "sim_event (RestartReady clock) s =
     (if \<not> sa_restart s then (s, True)
      else let s = s\<lparr>sa_node := soft_restart (sa_node s)\<rparr>;
               s = (case clock of Some now \<Rightarrow> arm_deadline_timer now s | None \<Rightarrow> s)
           in (s\<lparr>sa_restart := False\<rparr>, True))"
| "sim_event IllegalReady s =
     (if \<not> sa_illegal s then (s, True)
      else (sa_send (Inr (illegal_frame (so_node_id (sa_options s)))) s\<lparr>sa_illegal := False\<rparr>, True))"
| "sim_event (CanReady frames) s = (drain_can frames s, True)"

fun sim_batch :: "SimEvent list \<Rightarrow> SimApp \<Rightarrow> SimApp \<times> bool" where
  "sim_batch [] s = (s, True)"
| "sim_batch (event # events) s =
     (case sim_event event s of (s, running) \<Rightarrow> if running then sim_batch events s else (s, False))"

text \<open>The results of the coming \<^verbatim>\<open>epoll_wait\<close> calls: a batch of events, or an error that ends the loop.\<close>

fun sim_loop :: "SimEvent list Result list \<Rightarrow> SimApp \<Rightarrow> SimApp" where
  "sim_loop [] s = s"
| "sim_loop (ready # waits) s =
     (case ready of
        Inl _ \<Rightarrow> s
      | Inr events \<Rightarrow> (case sim_batch events s of (s, running) \<Rightarrow> if running then sim_loop waits s else s))"

section \<open>Main program\<close>

text \<open>What the system answers while the program starts.\<close>

record SimStartEnv =
  sse_can_available :: bool
  sse_open :: bool
  sse_nonblocking :: bool
  sse_signal_fd :: bool
  sse_heartbeat_fd :: bool
  sse_delay_fd :: bool
  sse_duration_fd :: bool
  sse_restart_fd :: bool
  sse_illegal_fd :: bool
  sse_reactor :: bool
  sse_adds :: bool

definition sim_node_config :: "SimOptions \<Rightarrow> NodeConfig" where
  "sim_node_config options =
     \<lparr>nf_node_id = so_node_id options, nf_boot_id = so_boot_id options, nf_session_id = so_session_id options,
      nf_interlock_ready = so_interlock_ready options, nf_input_bits = so_input_bits options, nf_fault_code = 0\<rparr>"

definition sim_start :: "SimOptions \<Rightarrow> SimStartEnv \<Rightarrow> SimApp option" where
  "sim_start options env =
     (if \<not> sse_can_available env \<or> \<not> sse_open env \<or> \<not> sse_nonblocking env then None
      else if \<not> sse_signal_fd env \<or> \<not> sse_heartbeat_fd env \<or> \<not> sse_delay_fd env then None
      else if so_duration_ms options > 0 \<and> \<not> sse_duration_fd env then None
      else if so_fault_restart_after_ms options > 0 \<and> \<not> sse_restart_fd env then None
      else if so_fault_send_illegal_after_ms options > 0 \<and> \<not> sse_illegal_fd env then None
      else if \<not> sse_reactor env \<or> \<not> sse_adds env then None
      else Some \<lparr>sa_options = options, sa_node = nl_init (sim_node_config options), sa_pending = [], sa_timer = None,
                 sa_restart = (so_fault_restart_after_ms options > 0),
                 sa_illegal = (so_fault_send_illegal_after_ms options > 0),
                 sa_heartbeat_sends = 0, sa_sent = []\<rparr>)"

text \<open>The exit code and the final state, if the loop was entered.\<close>

definition sim_main :: "string list \<Rightarrow> SimStartEnv \<Rightarrow> SimEvent list Result list \<Rightarrow> int \<times> SimApp option" where
  "sim_main args env waits =
     (case sim_parse_options args sim_options_default of
        None \<Rightarrow> (1, None)
      | Some options \<Rightarrow>
          (case sim_start options env of
             None \<Rightarrow> (1, None)
           | Some s \<Rightarrow> (0, Some (sim_loop waits s))))"

section \<open>The timer serves the earliest deadline\<close>

text \<open>The deadlines the program waits for: the lease of the outputs and the delayed commands.\<close>

definition dues :: "SimApp \<Rightarrow> i64 list" where
  "dues s =
     (if nl_output_lease_active (sa_node s) then [nl_output_lease_deadline_ns (sa_node s)] else []) @
     map pc_due_ns (sa_pending s)"

text \<open>
  The timer runs whenever there is a deadline, does not fire before the first one, and
  fires at most a millisecond after any of them or after the moment it was set.
\<close>

definition sa_armed :: "SimApp \<Rightarrow> bool" where
  "sa_armed s \<longleftrightarrow> (dues s \<noteq> [] \<longrightarrow>
     (\<exists>t d. sa_timer s = Some (t, d) \<and> 0 < d \<and> (\<exists>due \<in> set (dues s). due \<le> t + d * 1000000) \<and>
            (\<forall>due \<in> set (dues s). t + d * 1000000 \<le> max due t + 1000000)))"

lemma foldl_min:
  fixes m :: i64
  shows "foldl (\<lambda>m e. if f e < m then f e else m) m xs \<in> insert m (f ` set xs) \<and>
    (\<forall>y \<in> insert m (f ` set xs). foldl (\<lambda>m e. if f e < m then f e else m) m xs \<le> y)"
proof (induction xs arbitrary: m)
  case (Cons x xs)
  from Cons [of "if f x < m then f x else m"] show ?case by (auto split: if_splits)
qed simp

lemma min_due_least:
  assumes "dues s \<noteq> []"
  shows "min_due s \<in> set (dues s)" "due \<in> set (dues s) \<Longrightarrow> min_due s \<le> due"
  using assms
    foldl_min [of pc_due_ns "if nl_output_lease_active (sa_node s) then nl_output_lease_deadline_ns (sa_node s) else pc_due_ns (hd (sa_pending s))" "sa_pending s"]
  by (auto simp: dues_def min_due_def split: if_splits)

lemma ceil_ms:
  fixes m t :: i64
  assumes "t < m"
  shows "0 < (m - t + 999999) div 1000000" "m \<le> t + (m - t + 999999) div 1000000 * 1000000"
    "t + (m - t + 999999) div 1000000 * 1000000 \<le> m + 1000000"
  using assms by linarith+

lemma arm_deadline_dues [simp]: "dues (arm_deadline_timer now s) = dues s" "sa_node (arm_deadline_timer now s) = sa_node s"
  by (simp_all add: arm_deadline_timer_def arm_oneshot_def dues_def)

lemma arm_deadline_armed: "sa_armed (arm_deadline_timer now s)"
proof (cases "dues s = []")
  case False
  define d where "d = (if min_due s > now then (min_due s - now + 999999) div 1000000 else 1)"
  have ne: "\<not> (sa_pending s = [] \<and> \<not> nl_output_lease_active (sa_node s))" using False by (auto simp: dues_def split: if_splits)
  have d: "0 < d" "min_due s \<le> now + d * 1000000" "now + d * 1000000 \<le> max (min_due s) now + 1000000"
    using ceil_ms [of now "min_due s"] by (auto simp: d_def)
  have "sa_timer (arm_deadline_timer now s) = Some (now, d)"
    using ne d(1) by (simp add: arm_deadline_timer_def arm_oneshot_def d_def)
  moreover have "now + d * 1000000 \<le> max due now + 1000000" if "due \<in> set (dues s)" for due
    using d(3) min_due_least(2) [OF False that] by linarith
  ultimately show ?thesis using d(1,2) min_due_least(1) [OF False] by (auto simp: sa_armed_def)
qed (simp add: sa_armed_def)

section \<open>Invariant of the loop\<close>

definition sa_inv :: "SimApp \<Rightarrow> bool" where
  "sa_inv s \<longleftrightarrow> nl_inv (sa_node s) \<and> sa_armed s"

definition lease_fresh :: "i64 \<Rightarrow> CanNodeLogic \<Rightarrow> bool" where
  "lease_fresh now n \<longleftrightarrow> (nl_output_lease_active n \<longrightarrow> now < nl_output_lease_deadline_ns n)"

lemma send_frame [simp]:
  "sa_node (sa_send f s) = sa_node s" "sa_pending (sa_send f s) = sa_pending s" "sa_timer (sa_send f s) = sa_timer s"
  "sa_node (sa_send_status h s) = sa_node s" "sa_pending (sa_send_status h s) = sa_pending s"
  "sa_options (sa_send_status h s) = sa_options s"
  by (auto simp: sa_send_def sa_send_status_def split: sum.splits)

lemma expire_fresh: "lease_fresh now (fst (expire_output_lease now n))"
  by (auto simp: lease_fresh_def expire_output_lease_def)

lemma apply_fresh: "lease_fresh now n \<Longrightarrow> lease_fresh now (fst (apply_command c rx now n))"
  by (auto simp: apply_command_def Let_def lease_fresh_def expire_output_lease_def)

lemma flush_items_node:
  "flush_items items now s = (s', remain) \<Longrightarrow>
     (nl_inv (sa_node s) \<longrightarrow> nl_inv (sa_node s')) \<and> (lease_fresh now (sa_node s) \<longrightarrow> lease_fresh now (sa_node s'))"
proof (induction items arbitrary: s s' remain)
  case (Cons item items)
  obtain n h where a: "apply_command (pc_command item) (pc_receive_ns item) now (sa_node s) = (n, h)"
    by (cases "apply_command (pc_command item) (pc_receive_ns item) now (sa_node s)")
  have n: "nl_inv (sa_node s) \<longrightarrow> nl_inv n" "lease_fresh now (sa_node s) \<longrightarrow> lease_fresh now n"
    using nl_inv_apply [of "sa_node s" "pc_command item" "pc_receive_ns item" now]
      apply_fresh [of now "sa_node s" "pc_command item" "pc_receive_ns item"] by (simp_all add: a)
  show ?case
  proof (cases "pc_due_ns item \<le> now")
    case True
    then have "flush_items items now (sa_send_status h (s\<lparr>sa_node := n\<rparr>)) = (s', remain)" using Cons(2) a by simp
    from Cons(1) [OF this] show ?thesis using n by simp
  next
    case False
    then obtain r where "flush_items items now s = (s', r)" using Cons(2) by (auto split: prod.splits)
    from Cons(1) [OF this] show ?thesis .
  qed
qed simp

lemma flush_pending_inv:
  assumes "nl_inv (sa_node s)"
  shows "sa_inv (flush_pending_commands now s) \<and> lease_fresh now (sa_node (flush_pending_commands now s))"
proof -
  obtain s1 remain where f: "flush_items (sa_pending s) now (s\<lparr>sa_node := fst (expire_output_lease now (sa_node s))\<rparr>) = (s1, remain)"
    by (cases "flush_items (sa_pending s) now (s\<lparr>sa_node := fst (expire_output_lease now (sa_node s))\<rparr>)")
  show ?thesis
    using flush_items_node [OF f] nl_inv_expire [OF assms, of now] expire_fresh [of now "sa_node s"]
    by (simp add: flush_pending_commands_def f sa_inv_def arm_deadline_armed)
qed

lemma handle_command_inv: "nl_inv (sa_node s) \<Longrightarrow> sa_inv (handle_command_now_or_later c now s)"
  using nl_inv_apply [of "sa_node s" c now now]
  by (auto simp: handle_command_now_or_later_def sa_inv_def arm_deadline_armed split: prod.splits)

lemma drain_can_inv:
  assumes "\<forall>(frame, clock) \<in> set frames. clock \<noteq> None" "sa_inv s"
  shows "sa_inv (drain_can frames s)"
  using assms
proof (induction frames s rule: drain_can.induct)
  case (2 frame clock rest s)
  obtain now where c: "clock = Some now" using 2(4) by auto
  have r: "sa_inv (s\<lparr>sa_node := fst (on_frame frame now (sa_node s))\<rparr>)" if "decode_output_command frame = Inl e" for e
    using 2(5) that by (auto simp: on_frame_def Let_def sa_inv_def sa_armed_def dues_def nl_inv_def)
  show ?case
    using 2 c r handle_command_inv [of s] by (auto simp: Let_def sa_inv_def split: sum.splits)
qed simp

text \<open>The clock readings of an event succeed.\<close>

fun clock_ok :: "SimEvent \<Rightarrow> bool" where
  "clock_ok (HeartbeatReady c) \<longleftrightarrow> c \<noteq> None"
| "clock_ok (DelayReady c) \<longleftrightarrow> c \<noteq> None"
| "clock_ok (RestartReady c) \<longleftrightarrow> c \<noteq> None"
| "clock_ok (CanReady frames) \<longleftrightarrow> list_all (\<lambda>(frame, c). c \<noteq> None) frames"
| "clock_ok _ \<longleftrightarrow> True"

lemma heartbeat_inv: "nl_inv (sa_node s) \<Longrightarrow> nl_inv (sa_node (sim_heartbeat s))"
  using nl_inv_step [of "sa_node s" NHeartbeat] by (auto simp: sim_heartbeat_def Let_def split: prod.splits)

lemma sim_event_inv:
  assumes "clock_ok e" and "sa_inv s"
  shows "sa_inv (fst (sim_event e s))"
proof (cases e)
  case (RestartReady c)
  have "nl_inv (soft_restart (sa_node s))" using nl_inv_step [of "sa_node s" NRestart] assms(2) by (simp add: sa_inv_def)
  moreover have "sa_armed (t\<lparr>sa_restart := b\<rparr>) = sa_armed t" for t b by (simp add: sa_armed_def dues_def)
  ultimately show ?thesis using assms RestartReady by (auto simp: sa_inv_def Let_def arm_deadline_armed)
next
  case (CanReady frames)
  then show ?thesis using assms drain_can_inv [of frames s] by (auto simp: list_all_iff)
next
  case IllegalReady
  then show ?thesis using assms by (auto simp: sa_inv_def sa_armed_def dues_def)
qed (use assms flush_pending_inv [of "sim_heartbeat s"] flush_pending_inv [of "s\<lparr>sa_timer := None\<rparr>"] heartbeat_inv [of s]
    in \<open>auto simp: flush_if_def sa_inv_def\<close>)

lemma sim_batch_inv: "list_all clock_ok es \<Longrightarrow> sa_inv s \<Longrightarrow> sa_inv (fst (sim_batch es s))"
proof (induction es arbitrary: s)
  case (Cons e es)
  obtain s1 r where e: "sim_event e s = (s1, r)" by (cases "sim_event e s")
  have "sa_inv s1" using sim_event_inv [of e s] Cons(2,3) by (simp add: e)
  then show ?case using Cons by (simp add: e)
qed simp

lemma sim_loop_inv:
  "list_all (\<lambda>w. case w of Inr es \<Rightarrow> list_all clock_ok es | Inl _ \<Rightarrow> True) waits \<Longrightarrow> sa_inv s \<Longrightarrow> sa_inv (sim_loop waits s)"
proof (induction waits arbitrary: s)
  case (Cons w waits)
  show ?case
  proof (cases w)
    case (Inr es)
    obtain s1 r where e: "sim_batch es s = (s1, r)" by (cases "sim_batch es s")
    have "sa_inv s1" using sim_batch_inv [of es s] Cons(2,3) Inr by (simp add: e)
    then show ?thesis using Cons Inr by (simp add: e)
  qed (use Cons in simp)
qed simp

lemma sim_start_inv:
  assumes "sim_start options env = Some s"
  shows "sa_inv s"
proof -
  have "sa_node s = nl_init (sim_node_config options)" "sa_pending s = []"
    using assms by (auto simp: sim_start_def split: if_splits)
  then show ?thesis by (simp add: sa_inv_def sa_armed_def dues_def nl_inv_init) (simp add: nl_init_def)
qed

section \<open>Properties\<close>

text \<open>
  C35. The simulator lets no output outlive its lease. In every run of the event loop whose
  clock readings succeed, with any frames, restarts and delayed answers: while an output
  is on, the interlock is ready, a lease runs, and the deadline timer is armed to fire at most a
  millisecond after the later of the lease's deadline and the moment it was set; and once
  the timer or a heartbeat has been handled at a time \<open>now\<close>, an output is on only under
  a lease that ends after \<open>now\<close>.
\<close>

theorem sim_outputs_timed:
  assumes "sim_start options env = Some s0"
    and "list_all (\<lambda>w. case w of Inr es \<Rightarrow> list_all clock_ok es | Inl _ \<Rightarrow> True) waits"
    and "s = sim_loop waits s0" and "nl_output_bits (sa_node s) \<noteq> 0"
  shows "nf_interlock_ready (nl_config (sa_node s)) \<and> nl_output_lease_active (sa_node s) \<and>
    (\<exists>t d. sa_timer s = Some (t, d) \<and> 0 < d \<and>
       t + d * 1000000 \<le> max (nl_output_lease_deadline_ns (sa_node s)) t + 1000000) \<and>
    (\<forall>now. \<forall>s' \<in> {fst (sim_event (DelayReady (Some now)) s), fst (sim_event (HeartbeatReady (Some now)) s)}.
       nl_output_bits (sa_node s') \<noteq> 0 \<longrightarrow> now < nl_output_lease_deadline_ns (sa_node s'))"
proof -
  have i: "nl_inv (sa_node s)" "sa_armed s" using sim_loop_inv [OF assms(2) sim_start_inv [OF assms(1)]] assms(3) by (simp_all add: sa_inv_def)
  have f: "nl_output_bits (sa_node (flush_pending_commands now s1)) \<noteq> 0 \<longrightarrow>
      now < nl_output_lease_deadline_ns (sa_node (flush_pending_commands now s1))" if "nl_inv (sa_node s1)" for now s1
    using flush_pending_inv [OF that, of now] by (auto simp: sa_inv_def nl_inv_def lease_fresh_def)
  have l: "nl_output_lease_active (sa_node s)" "nf_interlock_ready (nl_config (sa_node s))" using i(1) assms(4) by (auto simp: nl_inv_def)
  then have "nl_output_lease_deadline_ns (sa_node s) \<in> set (dues s)" by (simp add: dues_def)
  then have "\<exists>t d. sa_timer s = Some (t, d) \<and> 0 < d \<and> t + d * 1000000 \<le> max (nl_output_lease_deadline_ns (sa_node s)) t + 1000000"
    using i(2) unfolding sa_armed_def by (metis empty_iff empty_set)
  then show ?thesis using l f [of s] f [of "s\<lparr>sa_timer := None\<rparr>"] f [OF heartbeat_inv [OF i(1)]] i(1) by (simp add: flush_if_def)
qed

definition demo_sim_args :: "string list" where
  "demo_sim_args = [''--node-id'', ''5'', ''--session-id'', ''9'', ''--boot-id'', ''3'']"

definition demo_sim_env :: SimStartEnv where
  "demo_sim_env =
     \<lparr>sse_can_available = True, sse_open = True, sse_nonblocking = True, sse_signal_fd = True, sse_heartbeat_fd = True,
      sse_delay_fd = True, sse_duration_fd = False, sse_restart_fd = False, sse_illegal_fd = False, sse_reactor = True,
      sse_adds = True\<rparr>"

definition demo_sim_start :: SimApp where
  "demo_sim_start = the (sim_start (the (sim_parse_options demo_sim_args sim_options_default)) demo_sim_env)"

definition demo_sim_waits :: "SimEvent list Result list" where
  "demo_sim_waits = [Inr [HeartbeatReady (Some 500), CanReady (case encode_output_command (demo_wire 1) of
     Inr frame \<Rightarrow> [(frame, Some 1000)] | Inl _ \<Rightarrow> [])]]"

theorem sim_outputs_timed_witness:
  "nl_output_bits (sa_node (sim_loop demo_sim_waits demo_sim_start)) = 1 \<and>
   (\<exists>t d. sa_timer (sim_loop demo_sim_waits demo_sim_start) = Some (t, d) \<and> 0 < d)"
proof -
  have s: "sim_start (the (sim_parse_options demo_sim_args sim_options_default)) demo_sim_env = Some demo_sim_start" by code_simp
  have c: "list_all (\<lambda>w. case w of Inr es \<Rightarrow> list_all clock_ok es | Inl _ \<Rightarrow> True) demo_sim_waits" by code_simp
  have o: "nl_output_bits (sa_node (sim_loop demo_sim_waits demo_sim_start)) = 1" by code_simp
  then show ?thesis using sim_outputs_timed [OF s c refl] by auto
qed

end
