(* ===== verification/Test_Runner.thy ===== *)
theory Test_Runner
  imports App_Model
begin

text \<open>
  The test runner of the workbench (\<^verbatim>\<open>linux/include/rcr/workbench/services/test_runner.hpp\<close>,
  \<^verbatim>\<open>linux/src/workbench/services/test_runner.cpp\<close>): the life cycle of one test run around four
  callbacks of the test case. The callbacks are functions on the context, over a
  state \<open>'s\<close> of their own; the readings of the clocks and of the cancel flag, which another
  thread may set at any time, are inputs. The floating-point value of a measurement is
  kept as the integers it is computed from. The lemmas show that a run passes only on
  evidence, that cleanup always runs, and that every failure is sealed with its evidence.
\<close>

section \<open>Data\<close>

datatype TestRunStage = Idle | Preparing | Executing | Evaluating | CleaningUp | Completed

fun TestRunStage_to_string :: "TestRunStage \<Rightarrow> string" where
  "TestRunStage_to_string TestRunStage.Idle = ''IDLE''"
| "TestRunStage_to_string TestRunStage.Preparing = ''PREPARING''"
| "TestRunStage_to_string TestRunStage.Executing = ''EXECUTING''"
| "TestRunStage_to_string TestRunStage.Evaluating = ''EVALUATING''"
| "TestRunStage_to_string TestRunStage.CleaningUp = ''CLEANING_UP''"
| "TestRunStage_to_string TestRunStage.Completed = ''COMPLETED''"

datatype TestOutcome = Passed | Failed | Error | Aborted | Skipped

fun TestOutcome_to_string :: "TestOutcome \<Rightarrow> string" where
  "TestOutcome_to_string TestOutcome.Passed = ''PASS''"
| "TestOutcome_to_string TestOutcome.Failed = ''FAIL''"
| "TestOutcome_to_string TestOutcome.Error = ''ERROR''"
| "TestOutcome_to_string TestOutcome.Aborted = ''ABORTED''"
| "TestOutcome_to_string TestOutcome.Skipped = ''SKIPPED''"

datatype CleanupStatus = NotRun | Passed | Failed

fun CleanupStatus_to_string :: "CleanupStatus \<Rightarrow> string" where
  "CleanupStatus_to_string CleanupStatus.NotRun = ''NOT_RUN''"
| "CleanupStatus_to_string CleanupStatus.Passed = ''PASSED''"
| "CleanupStatus_to_string CleanupStatus.Failed = ''FAILED''"

datatype MeasurementQuality = Valid | Simulated | Invalid

fun MeasurementQuality_to_string :: "MeasurementQuality \<Rightarrow> string" where
  "MeasurementQuality_to_string MeasurementQuality.Valid = ''VALID''"
| "MeasurementQuality_to_string MeasurementQuality.Simulated = ''SIMULATED''"
| "MeasurementQuality_to_string MeasurementQuality.Invalid = ''INVALID''"

text \<open>A value converted from an integer, or divided by a constant after the conversion.\<close>

datatype MeasuredValue = FromInteger int | Quotient int int

record Measurement =
  me_name :: string
  me_unit :: string
  me_value :: MeasuredValue
  me_monotonic_ns :: i64
  me_quality :: MeasurementQuality

record CriterionResult =
  cn_name :: string
  cn_passed :: bool
  cn_expected :: string
  cn_actual :: string

record TestEvaluation =
  ev_passed :: bool
  ev_summary :: string
  ev_criteria :: "CriterionResult list"

record TestParameter =
  tp_name :: string
  tp_value :: string

record TestRunEnvironment =
  tn_backend :: string
  tn_interface_name :: string
  tn_dut_id :: string
  tn_profile :: string
  tn_evidence :: EvidenceClass

record TestRunProvenance =
  pv_git_commit :: string
  pv_git_dirty :: bool
  pv_build_type :: string

record TestResult =
  re_run_id :: string
  re_case_id :: string
  re_case_name :: string
  re_case_version :: string
  re_outcome :: TestOutcome
  re_started_ns :: i64
  re_finished_ns :: i64
  re_started_wall_ns :: i64
  re_finished_wall_ns :: i64
  re_measurements :: "Measurement list"
  re_criteria :: "CriterionResult list"
  re_diagnostics :: "DiagnosticEvent list"
  re_parameters :: "TestParameter list"
  re_environment :: TestRunEnvironment
  re_provenance :: TestRunProvenance
  re_summary :: string
  re_reason :: string
  re_error :: Error
  re_cleanup_status :: CleanupStatus
  re_cleanup_error :: Error

definition no_error :: Error where "no_error = Error.Error Errc.Ok []"

definition result_init :: "string \<Rightarrow> string \<Rightarrow> string \<Rightarrow> string \<Rightarrow> TestResult" where
  "result_init run_id case_id case_name case_version =
     \<lparr>re_run_id = run_id, re_case_id = case_id, re_case_name = case_name,
      re_case_version = (if case_version = [] then ''1'' else case_version), re_outcome = TestOutcome.Error,
      re_started_ns = 0, re_finished_ns = 0, re_started_wall_ns = 0, re_finished_wall_ns = 0, re_measurements = [],
      re_criteria = [], re_diagnostics = [], re_parameters = [],
      re_environment = \<lparr>tn_backend = [], tn_interface_name = [], tn_dut_id = [], tn_profile = [],
                        tn_evidence = EvidenceClass.Unspecified\<rparr>,
      re_provenance = \<lparr>pv_git_commit = ''unknown'', pv_git_dirty = True, pv_build_type = ''unknown''\<rparr>,
      re_summary = [], re_reason = [], re_error = no_error, re_cleanup_status = CleanupStatus.NotRun,
      re_cleanup_error = no_error\<rparr>"

section \<open>Context\<close>

text \<open>
  \<open>cx_cancels\<close> are the coming reads of the cancel flag until it is set, \<open>cx_clock\<close> the coming readings
  of the clock; an exhausted list stands for a flag that stays clear and a clock that fails.
  \<open>cx_stages\<close> are the stages stored so far, the latest first.
\<close>

record 's TestRunContext =
  cx_cancelled :: bool
  cx_cancels :: "bool list"
  cx_clock :: "i64 Result list"
  cx_deadline_ns :: i64
  cx_result :: TestResult
  cx_stages :: "TestRunStage list"
  cx_state :: 's

definition cancellation_requested :: "'s TestRunContext \<Rightarrow> 's TestRunContext \<times> bool" where
  "cancellation_requested cx =
     (let now = (cx_cancelled cx \<or> (cx_cancels cx \<noteq> [] \<and> hd (cx_cancels cx)))
      in (cx\<lparr>cx_cancelled := now, cx_cancels := tl (cx_cancels cx)\<rparr>, now))"

definition cx_now_ns :: "'s TestRunContext \<Rightarrow> 's TestRunContext \<times> i64 Result" where
  "cx_now_ns cx =
     (case cx_clock cx of
        [] \<Rightarrow> (cx, Inl (Error.Error Errc.IoError ''clock_gettime(CLOCK_MONOTONIC)''))
      | r # rest \<Rightarrow> (cx\<lparr>cx_clock := rest\<rparr>, r))"

definition deadline_expired :: "'s TestRunContext \<Rightarrow> 's TestRunContext \<times> bool Result" where
  "deadline_expired cx =
     (case cx_now_ns cx of
        (cx, Inl e) \<Rightarrow> (cx, Inl e)
      | (cx, Inr now) \<Rightarrow> (cx, Inr (now \<ge> cx_deadline_ns cx)))"

definition cx_update :: "(TestResult \<Rightarrow> TestResult) \<Rightarrow> 's TestRunContext \<Rightarrow> 's TestRunContext" where
  "cx_update f cx = cx\<lparr>cx_result := f (cx_result cx)\<rparr>"

definition cx_add_measurement :: "Measurement \<Rightarrow> 's TestRunContext \<Rightarrow> 's TestRunContext" where
  "cx_add_measurement m = cx_update (\<lambda>r. r\<lparr>re_measurements := re_measurements r @ [m]\<rparr>)"

definition cx_add_diagnostic :: "DiagnosticEvent \<Rightarrow> 's TestRunContext \<Rightarrow> 's TestRunContext" where
  "cx_add_diagnostic event = cx_update (\<lambda>r.
     r\<lparr>re_diagnostics := re_diagnostics r @ [if de_run_id event = [] then event\<lparr>de_run_id := re_run_id r\<rparr> else event]\<rparr>)"

definition cx_add_parameter :: "string \<Rightarrow> string \<Rightarrow> 's TestRunContext \<Rightarrow> 's TestRunContext" where
  "cx_add_parameter name v = cx_update (\<lambda>r. r\<lparr>re_parameters := re_parameters r @ [\<lparr>tp_name = name, tp_value = v\<rparr>]\<rparr>)"

definition cx_set_environment :: "TestRunEnvironment \<Rightarrow> 's TestRunContext \<Rightarrow> 's TestRunContext" where
  "cx_set_environment e = cx_update (\<lambda>r. r\<lparr>re_environment := e\<rparr>)"

section \<open>Evidence of a failure\<close>

definition assign_failure_reason :: "string \<Rightarrow> TestResult \<Rightarrow> TestResult" where
  "assign_failure_reason fallback r =
     (if re_reason r \<noteq> [] then r
      else if err_message (re_error r) \<noteq> [] then r\<lparr>re_reason := err_message (re_error r)\<rparr>
      else if re_summary r \<noteq> [] then r\<lparr>re_reason := re_summary r\<rparr>
      else r\<lparr>re_reason := fallback\<rparr>)"

definition evidence_time :: "TestResult \<Rightarrow> i64" where
  "evidence_time r = (if re_finished_ns r \<noteq> 0 then re_finished_ns r else re_started_ns r)"

definition seal_measurement :: "TestResult \<Rightarrow> TestResult" where
  "seal_measurement r =
     (if re_measurements r = [] then
        r\<lparr>re_measurements := [\<lparr>me_name = ''lifecycle_samples'', me_unit = ''count'', me_value = FromInteger 0,
                               me_monotonic_ns = evidence_time r, me_quality = MeasurementQuality.Invalid\<rparr>]\<rparr>
      else r)"

definition seal_criterion :: "TestResult \<Rightarrow> TestResult" where
  "seal_criterion r =
     (if re_criteria r = [] then
        r\<lparr>re_criteria := [\<lparr>cn_name = ''evaluation completed'', cn_passed = False, cn_expected = ''completed'',
                           cn_actual = re_reason r\<rparr>]\<rparr>
      else r)"

definition seal_diagnostic :: "TestResult \<Rightarrow> TestResult" where
  "seal_diagnostic r =
     (if list_ex (\<lambda>event. de_source event = DiagnosticSource.Test) (re_diagnostics r) then r
      else r\<lparr>re_diagnostics := re_diagnostics r @
               [\<lparr>de_observed_monotonic_ns = evidence_time r, de_source = DiagnosticSource.Test,
                 de_severity = DiagnosticSeverity.Error,
                 de_code = (if re_outcome r = TestOutcome.Failed then ''TEST_FAILED'' else ''TEST_ERROR''),
                 de_message = re_reason r, de_device_id = tn_dut_id (re_environment r), de_run_id = re_run_id r,
                 de_context = []\<rparr>]\<rparr>)"

definition seal_failure_evidence :: "TestResult \<Rightarrow> TestResult" where
  "seal_failure_evidence r =
     (if re_outcome r \<noteq> TestOutcome.Failed \<and> re_outcome r \<noteq> TestOutcome.Error
      then (if re_reason r = [] then r\<lparr>re_reason := re_summary r\<rparr> else r)
      else seal_diagnostic (seal_criterion (seal_measurement
             (assign_failure_reason (TestOutcome_to_string (re_outcome r)) r))))"

section \<open>The run\<close>

record 's TestCase =
  tc_id :: string
  tc_name :: string
  tc_version :: string
  tc_timeout_ns :: i64
  tc_prepare :: "('s TestRunContext \<Rightarrow> 's TestRunContext \<times> unit Result) option"
  tc_execute :: "('s TestRunContext \<Rightarrow> 's TestRunContext \<times> unit Result) option"
  tc_evaluate :: "('s TestRunContext \<Rightarrow> 's TestRunContext \<times> TestEvaluation Result) option"
  tc_cleanup :: "('s TestRunContext \<Rightarrow> 's TestRunContext \<times> unit Result) option"

record TestRunner =
  tr_running :: bool
  tr_stage :: TestRunStage
  tr_cancel_requested :: bool

definition runner_init :: TestRunner where
  "runner_init = \<lparr>tr_running = False, tr_stage = TestRunStage.Idle, tr_cancel_requested = False\<rparr>"

definition request_cancel :: "TestRunner \<Rightarrow> TestRunner" where
  "request_cancel tr = (if tr_running tr then tr\<lparr>tr_cancel_requested := True\<rparr> else tr)"

definition tr_validate :: "string \<Rightarrow> 's TestCase \<Rightarrow> unit Result" where
  "tr_validate run_id tc =
     (if run_id = [] \<or> tc_id tc = [] \<or> tc_name tc = []
        then Inl (Error.Error Errc.InvalidArgument ''run id, case id and case name must be non-empty'')
      else if tc_timeout_ns tc \<le> 0 then Inl (Error.Error Errc.InvalidArgument ''test timeout must be positive'')
      else if tc_prepare tc = None \<or> tc_execute tc = None \<or> tc_evaluate tc = None \<or> tc_cleanup tc = None
        then Inl (Error.Error Errc.InvalidArgument ''all test lifecycle callbacks are required'')
      else Inr ())"

definition should_stop :: "'s TestRunContext \<Rightarrow> 's TestRunContext \<times> bool Result" where
  "should_stop cx =
     (case cancellation_requested cx of (cx, c) \<Rightarrow> if c then (cx, Inr True) else deadline_expired cx)"

definition set_step_error :: "Error \<Rightarrow> string \<Rightarrow> TestResult \<Rightarrow> TestResult" where
  "set_step_error e summary r =
     assign_failure_reason summary (r\<lparr>re_outcome := TestOutcome.Error, re_error := e, re_summary := summary\<rparr>)"

definition set_aborted :: "TestResult \<Rightarrow> TestResult" where
  "set_aborted r =
     r\<lparr>re_outcome := TestOutcome.Aborted, re_error := Error.Error Errc.Rejected ''test run cancelled'',
       re_summary := ''test run cancelled'', re_reason := ''test run cancelled''\<rparr>"

text \<open>The check after a stage; \<open>True\<close> means go on.\<close>

definition check_stop :: "string \<Rightarrow> 's TestRunContext \<Rightarrow> 's TestRunContext \<times> bool" where
  "check_stop timed_out cx =
     (case should_stop cx of
        (cx, Inl e) \<Rightarrow> (cx_update (set_step_error e ''failed to check test deadline'') cx, False)
      | (cx, Inr False) \<Rightarrow> (cx, True)
      | (cx, Inr True) \<Rightarrow>
          (case cancellation_requested cx of (cx, c) \<Rightarrow>
             (if c then cx_update set_aborted cx
              else cx_update (set_step_error (Error.Error Errc.Timeout ''test run deadline expired'') timed_out) cx, False)))"

definition enter_stage :: "TestRunStage \<Rightarrow> 's TestRunContext \<Rightarrow> 's TestRunContext" where
  "enter_stage stage cx = cx\<lparr>cx_stages := stage # cx_stages cx\<rparr>"

text \<open>Prepare and execute have the same shape: the callback, then the check.\<close>

definition run_step ::
  "TestRunStage \<Rightarrow> string \<Rightarrow> string \<Rightarrow> ('s TestRunContext \<Rightarrow> 's TestRunContext \<times> unit Result) \<Rightarrow>
   's TestRunContext \<Rightarrow> 's TestRunContext \<times> bool" where
  "run_step stage failed timed_out step cx =
     (case step (enter_stage stage cx) of
        (cx, Inl e) \<Rightarrow> (cx_update (set_step_error e failed) cx, False)
      | (cx, Inr _) \<Rightarrow> check_stop timed_out cx)"

definition apply_evaluation :: "TestEvaluation \<Rightarrow> TestResult \<Rightarrow> TestResult" where
  "apply_evaluation ev r =
     r\<lparr>re_criteria := ev_criteria ev, re_summary := ev_summary ev,
       re_outcome := (if ev_passed ev then TestOutcome.Passed else TestOutcome.Failed), re_reason := ev_summary ev\<rparr>"

definition run_evaluate ::
  "('s TestRunContext \<Rightarrow> 's TestRunContext \<times> TestEvaluation Result) \<Rightarrow> 's TestRunContext \<Rightarrow> 's TestRunContext" where
  "run_evaluate evaluate cx =
     (case evaluate (enter_stage TestRunStage.Evaluating cx) of
        (cx, Inl e) \<Rightarrow> cx_update (set_step_error e ''evaluation failed'') cx
      | (cx, Inr ev) \<Rightarrow>
          (case check_stop ''test timed out during evaluation'' cx of (cx, go) \<Rightarrow>
             if go then cx_update (apply_evaluation ev) cx else cx))"

definition note_cleanup :: "unit Result \<Rightarrow> TestResult \<Rightarrow> TestResult" where
  "note_cleanup cleaned r =
     (case cleaned of
        Inr _ \<Rightarrow> r\<lparr>re_cleanup_status := CleanupStatus.Passed\<rparr>
      | Inl e \<Rightarrow>
          let r = r\<lparr>re_cleanup_status := CleanupStatus.Failed, re_cleanup_error := e\<rparr>
          in if re_outcome r = TestOutcome.Passed then
               r\<lparr>re_outcome := TestOutcome.Error, re_error := e, re_summary := ''cleanup failed after a passing evaluation'',
                 re_reason := (if err_message e = [] then ''cleanup failed after a passing evaluation'' else err_message e)\<rparr>
             else r)"

definition note_finish :: "i64 Result \<Rightarrow> TestResult \<Rightarrow> TestResult" where
  "note_finish finish r =
     (case finish of
        Inr t \<Rightarrow> r\<lparr>re_finished_ns := t\<rparr>
      | Inl e \<Rightarrow>
          if re_outcome r = TestOutcome.Passed then
            assign_failure_reason ''failed to sample test finish time''
              (r\<lparr>re_outcome := TestOutcome.Error, re_error := e, re_summary := ''failed to sample test finish time''\<rparr>)
          else r)"

definition run_test :: "'s TestCase \<Rightarrow> 's TestRunContext \<Rightarrow> 's TestRunContext" where
  "run_test tc cx =
     (case run_step TestRunStage.Preparing ''prepare failed'' ''test timed out after prepare'' (the (tc_prepare tc)) cx of (cx, go) \<Rightarrow>
        if \<not> go then cx
        else case run_step TestRunStage.Executing ''execute failed'' ''test timed out after execute'' (the (tc_execute tc)) cx of (cx, go) \<Rightarrow>
          if \<not> go then cx else run_evaluate (the (tc_evaluate tc)) cx)"

text \<open>Cleanup and the end of the run; the wall clock reading at the end may fail.\<close>

definition finish_run ::
  "i64 option \<Rightarrow> ('s TestRunContext \<Rightarrow> 's TestRunContext \<times> unit Result) \<Rightarrow> 's TestRunContext \<Rightarrow> 's TestRunContext" where
  "finish_run finished_wall cleanup cx =
     (case cleanup (enter_stage TestRunStage.CleaningUp cx) of (cx, cleaned) \<Rightarrow>
        case cx_now_ns (cx_update (note_cleanup cleaned) cx) of (cx, finish) \<Rightarrow>
          cx_update (\<lambda>r. seal_failure_evidence
            (let r = note_finish finish r in case finished_wall of Some w \<Rightarrow> r\<lparr>re_finished_wall_ns := w\<rparr> | None \<Rightarrow> r)) cx)"

definition run_stages :: "i64 option \<Rightarrow> 's TestCase \<Rightarrow> 's TestRunContext \<Rightarrow> 's TestRunContext" where
  "run_stages finished_wall tc cx = finish_run finished_wall (the (tc_cleanup tc)) (run_test tc cx)"

text \<open>A result that ends the run before the first stage.\<close>

definition fail_early :: "Error \<Rightarrow> string \<Rightarrow> TestResult \<Rightarrow> TestResult" where
  "fail_early e summary r = seal_failure_evidence (r\<lparr>re_error := e, re_summary := summary\<rparr>)"

record RunEnv =
  rv_cancels :: "bool list"
  rv_clock :: "i64 Result list"
  rv_started_wall :: "i64 option"
  rv_finished_wall :: "i64 option"

definition int64_max :: int where "int64_max = 2 ^ 63 - 1"

text \<open>The result, the stages stored (latest first, without the final \<^verbatim>\<open>Completed\<close>) and the state of the callbacks.\<close>

definition tr_body :: "RunEnv \<Rightarrow> string \<Rightarrow> 's TestCase \<Rightarrow> 's \<Rightarrow> TestResult \<times> TestRunStage list \<times> 's" where
  "tr_body env run_id tc st =
     (let r = result_init run_id (tc_id tc) (tc_name tc) (tc_version tc) in
      case tr_validate run_id tc of
        Inl e \<Rightarrow> (fail_early e (err_message e) r, [], st)
      | Inr _ \<Rightarrow>
        (case rv_clock env of
           [] \<Rightarrow> (fail_early (Error.Error Errc.IoError ''clock_gettime(CLOCK_MONOTONIC)'') ''failed to sample test start time'' r, [], st)
         | Inl e # _ \<Rightarrow> (fail_early e ''failed to sample test start time'' r, [], st)
         | Inr started # clock \<Rightarrow>
             let r = r\<lparr>re_started_ns := started, re_started_wall_ns := (case rv_started_wall env of Some w \<Rightarrow> w | None \<Rightarrow> 0)\<rparr> in
             if started > int64_max - tc_timeout_ns tc then
               (fail_early (Error.Error Errc.InvalidArgument ''test deadline overflows int64'') ''test deadline overflows int64'' r, [], st)
             else
               let cx = run_stages (rv_finished_wall env) tc
                          \<lparr>cx_cancelled = False, cx_cancels = rv_cancels env, cx_clock = clock,
                           cx_deadline_ns = started + tc_timeout_ns tc, cx_result = r, cx_stages = [], cx_state = st\<rparr>
               in (cx_result cx, cx_stages cx, cx_state cx)))"

definition tr_run :: "RunEnv \<Rightarrow> string \<Rightarrow> 's TestCase \<Rightarrow> 's \<Rightarrow> TestRunner \<Rightarrow> TestRunner \<times> TestResult \<times> 's" where
  "tr_run env run_id tc st tr =
     (if tr_running tr then
        (tr, fail_early (Error.Error Errc.Busy ''test runner already has an active run'') ''test runner already has an active run''
               (result_init run_id (tc_id tc) (tc_name tc) (tc_version tc)), st)
      else case tr_body env run_id tc st of (r, _, st) \<Rightarrow>
        (tr\<lparr>tr_running := False, tr_stage := TestRunStage.Completed, tr_cancel_requested := list_ex id (rv_cancels env)\<rparr>, r, st))"

section \<open>Every failure is sealed\<close>

text \<open>A failed or broken run names a reason and has a measurement, a criterion and a diagnostic of the test.\<close>

definition sealed :: "TestResult \<Rightarrow> bool" where
  "sealed r \<longleftrightarrow> re_outcome r \<in> {TestOutcome.Failed, TestOutcome.Error} \<longrightarrow>
     re_reason r \<noteq> [] \<and> re_measurements r \<noteq> [] \<and> re_criteria r \<noteq> [] \<and>
     list_ex (\<lambda>event. de_source event = DiagnosticSource.Test) (re_diagnostics r)"

lemma assign_reason_fields [simp]:
  "re_outcome (assign_failure_reason f r) = re_outcome r" "re_criteria (assign_failure_reason f r) = re_criteria r"
  "f \<noteq> [] \<Longrightarrow> re_reason (assign_failure_reason f r) \<noteq> []"
  by (simp_all add: assign_failure_reason_def)

lemma assign_reason_more [simp]:
  "re_cleanup_status (assign_failure_reason f r) = re_cleanup_status r" "re_finished_ns (assign_failure_reason f r) = re_finished_ns r"
  by (simp_all add: assign_failure_reason_def)

lemma seal_measurement_fields [simp]:
  "re_outcome (seal_measurement r) = re_outcome r" "re_reason (seal_measurement r) = re_reason r"
  "re_cleanup_status (seal_measurement r) = re_cleanup_status r" "re_finished_ns (seal_measurement r) = re_finished_ns r"
  "re_measurements (seal_measurement r) \<noteq> []"
  by (simp_all add: seal_measurement_def)

lemma seal_criterion_fields [simp]:
  "re_outcome (seal_criterion r) = re_outcome r" "re_reason (seal_criterion r) = re_reason r"
  "re_cleanup_status (seal_criterion r) = re_cleanup_status r" "re_finished_ns (seal_criterion r) = re_finished_ns r"
  "re_measurements (seal_criterion r) = re_measurements r" "re_criteria (seal_criterion r) \<noteq> []"
  by (simp_all add: seal_criterion_def)

lemma seal_diagnostic_fields [simp]:
  "re_outcome (seal_diagnostic r) = re_outcome r" "re_reason (seal_diagnostic r) = re_reason r"
  "re_cleanup_status (seal_diagnostic r) = re_cleanup_status r" "re_finished_ns (seal_diagnostic r) = re_finished_ns r"
  "re_measurements (seal_diagnostic r) = re_measurements r" "re_criteria (seal_diagnostic r) = re_criteria r"
  "list_ex (\<lambda>event. de_source event = DiagnosticSource.Test) (re_diagnostics (seal_diagnostic r))"
  by (simp_all add: seal_diagnostic_def)

lemma seal_fields [simp]:
  "re_outcome (seal_failure_evidence r) = re_outcome r"
  "re_cleanup_status (seal_failure_evidence r) = re_cleanup_status r"
  "re_finished_ns (seal_failure_evidence r) = re_finished_ns r"
  by (simp_all add: seal_failure_evidence_def)

lemma seal_passed:
  assumes "re_outcome r = TestOutcome.Passed"
  shows "re_criteria (seal_failure_evidence r) = re_criteria r" "re_measurements (seal_failure_evidence r) = re_measurements r"
    "re_environment (seal_failure_evidence r) = re_environment r"
  using assms by (simp_all add: seal_failure_evidence_def)

lemma outcome_name: "TestOutcome_to_string oc \<noteq> []"
  by (cases oc) simp_all

lemma seal_sealed: "sealed (seal_failure_evidence r)"
  using outcome_name [of "re_outcome r"] by (simp add: sealed_def seal_failure_evidence_def)

lemma run_stages_sealed: "sealed (cx_result (run_stages w tc cx))"
  by (simp add: run_stages_def finish_run_def Let_def split_beta cx_update_def seal_sealed)

lemma tr_body_sealed: "tr_body env run_id tc st = (r, ss, st') \<Longrightarrow> sealed r"
  using run_stages_sealed
  by (auto simp: tr_body_def fail_early_def Let_def seal_sealed split: sum.splits list.splits if_splits)

section \<open>Test cases that keep to the context\<close>

text \<open>
  What a callback can do through its context: it reads the clock and the flag and adds
  measurements, diagnostics, parameters and the environment.
\<close>

definition cx_extends :: "'s TestRunContext \<Rightarrow> 's TestRunContext \<Rightarrow> bool" where
  "cx_extends cx cx' \<longleftrightarrow> cx_stages cx' = cx_stages cx \<and> cx_deadline_ns cx' = cx_deadline_ns cx \<and>
     (cx_cancelled cx \<longrightarrow> cx_cancelled cx') \<and>
     (\<exists>ms ds ps e. cx_result cx' = (cx_result cx)
        \<lparr>re_measurements := re_measurements (cx_result cx) @ ms, re_diagnostics := re_diagnostics (cx_result cx) @ ds,
         re_parameters := re_parameters (cx_result cx) @ ps, re_environment := e\<rparr>)"

lemma extends_refl: "cx_extends cx cx"
  unfolding cx_extends_def by (intro conjI impI exI [of _ "[]"] exI [of _ "re_environment (cx_result cx)"]) simp_all

lemma extends_trans:
  assumes "cx_extends a b" and "cx_extends b c"
  shows "cx_extends a c"
proof -
  obtain ms ds ps e where b: "cx_result b = (cx_result a)
      \<lparr>re_measurements := re_measurements (cx_result a) @ ms, re_diagnostics := re_diagnostics (cx_result a) @ ds,
       re_parameters := re_parameters (cx_result a) @ ps, re_environment := e\<rparr>" using assms(1) unfolding cx_extends_def by blast
  obtain ms' ds' ps' e' where c: "cx_result c = (cx_result b)
      \<lparr>re_measurements := re_measurements (cx_result b) @ ms', re_diagnostics := re_diagnostics (cx_result b) @ ds',
       re_parameters := re_parameters (cx_result b) @ ps', re_environment := e'\<rparr>" using assms(2) unfolding cx_extends_def by blast
  show ?thesis
    using assms unfolding cx_extends_def
    by (intro conjI exI [of _ "ms @ ms'"] exI [of _ "ds @ ds'"] exI [of _ "ps @ ps'"] exI [of _ e']) (simp_all add: b c)
qed

lemma extends_cancel: "cx_extends cx (fst (cancellation_requested cx))"
  using extends_refl [of cx] by (auto simp: cancellation_requested_def cx_extends_def Let_def)

lemma extends_now: "cx_extends cx (fst (cx_now_ns cx))"
  using extends_refl [of cx] by (auto simp: cx_now_ns_def cx_extends_def split: list.splits)

lemma extends_deadline: "cx_extends cx (fst (deadline_expired cx))"
  using extends_now [of cx] by (auto simp: deadline_expired_def split: prod.splits sum.splits)

lemma extends_measurement: "cx_extends cx (cx_add_measurement m cx)"
  unfolding cx_extends_def cx_add_measurement_def cx_update_def
  by (intro conjI impI exI [of _ "[m]"] exI [of _ "[]"] exI [of _ "re_environment (cx_result cx)"]) simp_all

lemma extends_diagnostic: "cx_extends cx (cx_add_diagnostic d cx)"
  unfolding cx_extends_def cx_add_diagnostic_def cx_update_def
  by (intro conjI impI exI [of _ "[]"] exI [of _ "[if de_run_id d = [] then d\<lparr>de_run_id := re_run_id (cx_result cx)\<rparr> else d]"]
      exI [of _ "re_environment (cx_result cx)"]) simp_all

lemma extends_parameter: "cx_extends cx (cx_add_parameter n v cx)"
  unfolding cx_extends_def cx_add_parameter_def cx_update_def
  by (intro conjI impI exI [of _ "[]"] exI [of _ "[\<lparr>tp_name = n, tp_value = v\<rparr>]"] exI [of _ "re_environment (cx_result cx)"]) simp_all

lemma extends_environment: "cx_extends cx (cx_set_environment e cx)"
  unfolding cx_extends_def cx_set_environment_def cx_update_def
  by (intro conjI impI exI [of _ "[]"] exI [of _ e]) simp_all

lemma extends_state: "cx_extends cx cx' \<Longrightarrow> cx_extends cx (cx'\<lparr>cx_state := s\<rparr>)"
  by (simp add: cx_extends_def)

lemmas extends_intros = extends_refl extends_cancel extends_now extends_deadline extends_measurement extends_diagnostic
  extends_parameter extends_environment

lemma extends_outcome:
  "cx_extends a b \<Longrightarrow> re_outcome (cx_result b) = re_outcome (cx_result a)"
  "cx_extends a b \<Longrightarrow> re_criteria (cx_result b) = re_criteria (cx_result a)"
  "cx_extends a b \<Longrightarrow> cx_stages b = cx_stages a"
  by (auto simp: cx_extends_def)

section \<open>The life cycle\<close>

lemma update_fields [simp]:
  "cx_stages (cx_update f cx) = cx_stages cx" "cx_result (cx_update f cx) = f (cx_result cx)"
  "cx_cancelled (cx_update f cx) = cx_cancelled cx" "cx_state (cx_update f cx) = cx_state cx"
  by (simp_all add: cx_update_def)

lemma enter_fields [simp]:
  "cx_stages (enter_stage st cx) = st # cx_stages cx" "cx_result (enter_stage st cx) = cx_result cx"
  by (simp_all add: enter_stage_def)

lemma stop_outcomes [simp]:
  "re_outcome (set_step_error e m r) = TestOutcome.Error" "re_outcome (set_aborted r) = TestOutcome.Aborted"
  by (simp_all add: set_step_error_def set_aborted_def)

lemma should_stop_same:
  assumes "should_stop cx = (cx', r)"
  shows "cx_stages cx' = cx_stages cx" "cx_state cx' = cx_state cx" "cx_result cx' = cx_result cx"
  using assms
  by (auto simp: should_stop_def cancellation_requested_def deadline_expired_def cx_now_ns_def Let_def
      split: if_splits list.splits sum.splits)

lemma cancel_same:
  assumes "cancellation_requested cx = (cx', r)"
  shows "cx_stages cx' = cx_stages cx"
  using assms by (auto simp: cancellation_requested_def Let_def)

text \<open>A check that lets the run go on changes neither the result nor the state of the case.\<close>

lemma check_stop_cases:
  assumes "check_stop m cx = (cx', go)"
  shows "cx_stages cx' = cx_stages cx" "go \<Longrightarrow> cx_state cx' = cx_state cx \<and> cx_result cx' = cx_result cx"
    "\<not> go \<Longrightarrow> re_outcome (cx_result cx') \<in> {TestOutcome.Error, TestOutcome.Aborted}"
proof -
  obtain c1 r where s: "should_stop cx = (c1, r)" by (cases "should_stop cx")
  obtain c3 d where k: "cancellation_requested c1 = (c3, d)" by (cases "cancellation_requested c1")
  show "cx_stages cx' = cx_stages cx" "go \<Longrightarrow> cx_state cx' = cx_state cx \<and> cx_result cx' = cx_result cx"
    "\<not> go \<Longrightarrow> re_outcome (cx_result cx') \<in> {TestOutcome.Error, TestOutcome.Aborted}"
    using assms should_stop_same [OF s] cancel_same [OF k] by (auto simp: check_stop_def s k split: sum.splits bool.splits if_splits)
qed

lemma run_step_cases:
  assumes "run_step stage m1 m2 step cx = (cx', go)" and "\<And>c. cx_extends c (fst (step c))"
  shows "cx_stages cx' = stage # cx_stages cx"
    "go \<Longrightarrow> \<exists>c u. step (enter_stage stage cx) = (c, Inr u) \<and> cx_state cx' = cx_state c \<and> cx_result cx' = cx_result c"
    "\<not> go \<Longrightarrow> re_outcome (cx_result cx') \<in> {TestOutcome.Error, TestOutcome.Aborted}"
proof -
  obtain c r where s: "step (enter_stage stage cx) = (c, r)" by (cases "step (enter_stage stage cx)")
  have st: "cx_stages c = stage # cx_stages cx" using extends_outcome(3) [OF assms(2), of "enter_stage stage cx"] by (simp add: s)
  show "cx_stages cx' = stage # cx_stages cx"
    "go \<Longrightarrow> \<exists>c u. step (enter_stage stage cx) = (c, Inr u) \<and> cx_state cx' = cx_state c \<and> cx_result cx' = cx_result c"
    "\<not> go \<Longrightarrow> re_outcome (cx_result cx') \<in> {TestOutcome.Error, TestOutcome.Aborted}"
    using assms(1) st check_stop_cases [of m2 c cx' go] by (auto simp: run_step_def s split: sum.splits)
qed

lemma run_evaluate_cases:
  assumes "\<And>c. cx_extends c (fst (evaluate c))"
  shows "cx_stages (run_evaluate evaluate cx) = TestRunStage.Evaluating # cx_stages cx"
    "re_outcome (cx_result (run_evaluate evaluate cx)) = TestOutcome.Passed \<Longrightarrow>
       \<exists>c ev. evaluate (enter_stage TestRunStage.Evaluating cx) = (c, Inr ev) \<and> ev_passed ev \<and>
         cx_state (run_evaluate evaluate cx) = cx_state c \<and> cx_result (run_evaluate evaluate cx) = apply_evaluation ev (cx_result c)"
proof -
  obtain c r where s: "evaluate (enter_stage TestRunStage.Evaluating cx) = (c, r)"
    by (cases "evaluate (enter_stage TestRunStage.Evaluating cx)")
  have st: "cx_stages c = TestRunStage.Evaluating # cx_stages cx"
    using extends_outcome(3) [OF assms, of "enter_stage TestRunStage.Evaluating cx"] by (simp add: s)
  obtain c2 go where k: "check_stop ''test timed out during evaluation'' c = (c2, go)"
    by (cases "check_stop ''test timed out during evaluation'' c")
  show "cx_stages (run_evaluate evaluate cx) = TestRunStage.Evaluating # cx_stages cx"
    using st check_stop_cases(1) [OF k] by (auto simp: run_evaluate_def s k split: sum.splits)
  assume p: "re_outcome (cx_result (run_evaluate evaluate cx)) = TestOutcome.Passed"
  obtain ev where r: "r = Inr ev" using p by (cases r) (auto simp: run_evaluate_def s)
  have g: go using p check_stop_cases(3) [OF k] by (cases go) (auto simp: run_evaluate_def s r k)
  have "ev_passed ev" using p g by (auto simp: run_evaluate_def s r k apply_evaluation_def split: if_splits)
  moreover have "cx_state (run_evaluate evaluate cx) = cx_state c \<and> cx_result (run_evaluate evaluate cx) = apply_evaluation ev (cx_result c)"
    using g check_stop_cases(2) [OF k g] by (simp add: run_evaluate_def s r k)
  ultimately show "\<exists>c ev. evaluate (enter_stage TestRunStage.Evaluating cx) = (c, Inr ev) \<and> ev_passed ev \<and>
      cx_state (run_evaluate evaluate cx) = cx_state c \<and> cx_result (run_evaluate evaluate cx) = apply_evaluation ev (cx_result c)"
    using s r by blast
qed

text \<open>
  A test case whose callbacks keep to the context. The client's lemmas: the stages come in order and
  end with one cleanup, and a run passes only if every callback succeeded.
\<close>

locale test_case =
  fixes prepare :: "'s TestRunContext \<Rightarrow> 's TestRunContext \<times> unit Result"
    and execute :: "'s TestRunContext \<Rightarrow> 's TestRunContext \<times> unit Result"
    and evaluate :: "'s TestRunContext \<Rightarrow> 's TestRunContext \<times> TestEvaluation Result"
    and cleanup :: "'s TestRunContext \<Rightarrow> 's TestRunContext \<times> unit Result"
  assumes prepare_extends: "cx_extends c (fst (prepare c))"
    and execute_extends: "cx_extends c (fst (execute c))"
    and evaluate_extends: "cx_extends c (fst (evaluate c))"
    and cleanup_extends: "cx_extends c (fst (cleanup c))"
begin

lemma finish_passed:
  assumes "re_outcome (cx_result (finish_run w cleanup cx)) = TestOutcome.Passed"
  obtains c u where "re_outcome (cx_result cx) = TestOutcome.Passed"
    "cleanup (enter_stage TestRunStage.CleaningUp cx) = (c, Inr u)" "cx_state (finish_run w cleanup cx) = cx_state c"
    "re_cleanup_status (cx_result (finish_run w cleanup cx)) = CleanupStatus.Passed"
    "re_criteria (cx_result (finish_run w cleanup cx)) = re_criteria (cx_result cx)"
    "re_measurements (cx_result (finish_run w cleanup cx)) = re_measurements (cx_result c)"
    "re_environment (cx_result (finish_run w cleanup cx)) = re_environment (cx_result c)"
proof -
  obtain c cleaned where c: "cleanup (enter_stage TestRunStage.CleaningUp cx) = (c, cleaned)" by fastforce
  obtain c' finish where f: "cx_now_ns (cx_update (note_cleanup cleaned) c) = (c', finish)" by fastforce
  have c': "cx_result c' = note_cleanup cleaned (cx_result c)" "cx_state c' = cx_state c"
    using f by (auto simp: cx_now_ns_def split: list.splits)
  have o: "re_outcome (cx_result c) = re_outcome (cx_result cx)" "re_criteria (cx_result c) = re_criteria (cx_result cx)"
    using extends_outcome(1,2) [OF cleanup_extends, of "enter_stage TestRunStage.CleaningUp cx"] c by simp_all
  have p: "re_outcome (note_finish finish (cx_result c')) = TestOutcome.Passed"
    using assms by (auto simp: finish_run_def c f Let_def split: option.splits)
  have q: "\<exists>t. finish = Inr t" "re_outcome (cx_result c') = TestOutcome.Passed"
    using p by (cases finish; auto simp: note_finish_def split: if_splits)+
  obtain u where k: "cleaned = Inr u" using q(2) c' by (cases cleaned) (auto simp: note_cleanup_def Let_def split: if_splits)
  obtain t where t: "finish = Inr t" using q(1) by blast
  define x where "x = (let r = note_finish finish (cx_result c') in case w of Some t \<Rightarrow> r\<lparr>re_finished_wall_ns := t\<rparr> | None \<Rightarrow> r)"
  have x: "re_outcome x = re_outcome (cx_result c)" "re_cleanup_status x = CleanupStatus.Passed" "re_criteria x = re_criteria (cx_result c)"
    "re_measurements x = re_measurements (cx_result c)" "re_environment x = re_environment (cx_result c)"
    by (cases w; simp add: x_def t k c' note_finish_def note_cleanup_def)+
  have p: "re_outcome (cx_result c) = TestOutcome.Passed" using q(2) by (simp add: c' k note_cleanup_def)
  have r: "cx_result (finish_run w cleanup cx) = seal_failure_evidence x" by (simp add: finish_run_def c f x_def)
  have s: "cx_state (finish_run w cleanup cx) = cx_state c" using c'(2) by (simp add: finish_run_def c f)
  show ?thesis
    by (rule that [OF _ c [unfolded k] s]) (use o p r x seal_passed [of x] in simp_all)
qed

lemma finish_stages: "cx_stages (finish_run w cleanup cx) = TestRunStage.CleaningUp # cx_stages cx"
proof -
  obtain c cleaned where c: "cleanup (enter_stage TestRunStage.CleaningUp cx) = (c, cleaned)" by fastforce
  show ?thesis
    using extends_outcome(3) [OF cleanup_extends, of "enter_stage TestRunStage.CleaningUp cx"]
      extends_outcome(3) [OF extends_now [of "cx_update (note_cleanup cleaned) c"]]
    by (simp add: finish_run_def c split_beta)
qed

lemma run_test_split:
  assumes "tc_prepare tc = Some prepare" "tc_execute tc = Some execute" "tc_evaluate tc = Some evaluate"
    and "run_step TestRunStage.Preparing ''prepare failed'' ''test timed out after prepare'' prepare cx = (a, ga)"
    and "run_step TestRunStage.Executing ''execute failed'' ''test timed out after execute'' execute a = (b, gb)"
  shows "run_test tc cx = (if \<not> ga then a else if \<not> gb then b else run_evaluate evaluate b)"
  by (simp add: run_test_def assms)

lemma run_test_stages:
  assumes tc: "tc_prepare tc = Some prepare" "tc_execute tc = Some execute" "tc_evaluate tc = Some evaluate"
  shows "cx_stages (run_test tc cx) \<in> {TestRunStage.Preparing # cx_stages cx,
      TestRunStage.Executing # TestRunStage.Preparing # cx_stages cx,
      TestRunStage.Evaluating # TestRunStage.Executing # TestRunStage.Preparing # cx_stages cx}"
proof -
  obtain a ga where a: "run_step TestRunStage.Preparing ''prepare failed'' ''test timed out after prepare'' prepare cx = (a, ga)" by fastforce
  obtain b gb where b: "run_step TestRunStage.Executing ''execute failed'' ''test timed out after execute'' execute a = (b, gb)" by fastforce
  show ?thesis
    using run_step_cases(1) [OF a prepare_extends] run_step_cases(1) [OF b execute_extends]
      run_evaluate_cases(1) [OF evaluate_extends, of b] by (simp add: run_test_split [OF tc a b])
qed

lemma run_test_passed:
  assumes tc: "tc_prepare tc = Some prepare" "tc_execute tc = Some execute" "tc_evaluate tc = Some evaluate"
    and passed: "re_outcome (cx_result (run_test tc cx)) = TestOutcome.Passed"
  obtains c1 u1 c2 c3 u2 c4 c5 ev where "prepare (enter_stage TestRunStage.Preparing cx) = (c1, Inr u1)"
    "cx_state c2 = cx_state c1" "cx_result c2 = cx_result c1"
    "execute (enter_stage TestRunStage.Executing c2) = (c3, Inr u2)" "cx_state c4 = cx_state c3" "cx_result c4 = cx_result c3"
    "evaluate (enter_stage TestRunStage.Evaluating c4) = (c5, Inr ev)" "ev_passed ev"
    "cx_state (run_test tc cx) = cx_state c5" "cx_result (run_test tc cx) = apply_evaluation ev (cx_result c5)"
proof -
  obtain a ga where a: "run_step TestRunStage.Preparing ''prepare failed'' ''test timed out after prepare'' prepare cx = (a, ga)" by fastforce
  obtain b gb where b: "run_step TestRunStage.Executing ''execute failed'' ''test timed out after execute'' execute a = (b, gb)" by fastforce
  note e = run_test_split [OF tc a b]
  note ra = run_step_cases(2,3) [OF a prepare_extends] and rb = run_step_cases(2,3) [OF b execute_extends]
  have ga: ga
  proof (rule ccontr)
    assume n: "\<not> ga"
    then have "run_test tc cx = a" by (simp add: e)
    then show False using ra(2) [OF n] passed by simp
  qed
  have gb: gb
  proof (rule ccontr)
    assume n: "\<not> gb"
    then have "run_test tc cx = b" using ga by (simp add: e)
    then show False using rb(2) [OF n] passed by simp
  qed
  have r: "run_test tc cx = run_evaluate evaluate b" using ga gb by (simp add: e)
  obtain c1 u1 where p: "prepare (enter_stage TestRunStage.Preparing cx) = (c1, Inr u1)" "cx_state a = cx_state c1" "cx_result a = cx_result c1"
    using ra(1) [OF ga] by (elim exE conjE)
  obtain c3 u2 where x: "execute (enter_stage TestRunStage.Executing a) = (c3, Inr u2)" "cx_state b = cx_state c3" "cx_result b = cx_result c3"
    using rb(1) [OF gb] by (elim exE conjE)
  obtain c5 ev where v: "evaluate (enter_stage TestRunStage.Evaluating b) = (c5, Inr ev)" "ev_passed ev"
    "cx_state (run_evaluate evaluate b) = cx_state c5" "cx_result (run_evaluate evaluate b) = apply_evaluation ev (cx_result c5)"
    using run_evaluate_cases(2) [OF evaluate_extends passed [unfolded r]] by (elim exE conjE)
  show ?thesis by (rule that [OF p x v [folded r]])
qed

lemma passed_only:
  assumes tc: "tc_prepare tc = Some prepare" "tc_execute tc = Some execute" "tc_evaluate tc = Some evaluate" "tc_cleanup tc = Some cleanup"
    and passed: "re_outcome (cx_result (run_stages w tc cx)) = TestOutcome.Passed"
  obtains c1 u1 c2 c3 u2 c4 c5 ev c6 c7 u3 where "prepare (enter_stage TestRunStage.Preparing cx) = (c1, Inr u1)"
    "cx_state c2 = cx_state c1" "cx_result c2 = cx_result c1"
    "execute (enter_stage TestRunStage.Executing c2) = (c3, Inr u2)" "cx_state c4 = cx_state c3" "cx_result c4 = cx_result c3"
    "evaluate (enter_stage TestRunStage.Evaluating c4) = (c5, Inr ev)" "ev_passed ev"
    "cx_state c6 = cx_state c5" "cx_result c6 = apply_evaluation ev (cx_result c5)"
    "cleanup (enter_stage TestRunStage.CleaningUp c6) = (c7, Inr u3)" "cx_state (run_stages w tc cx) = cx_state c7"
    "re_cleanup_status (cx_result (run_stages w tc cx)) = CleanupStatus.Passed"
    "re_criteria (cx_result (run_stages w tc cx)) = ev_criteria ev"
    "re_measurements (cx_result (run_stages w tc cx)) = re_measurements (cx_result c7)"
    "re_environment (cx_result (run_stages w tc cx)) = re_environment (cx_result c7)"
proof -
  have e: "run_stages w tc cx = finish_run w cleanup (run_test tc cx)" using tc(4) by (simp add: run_stages_def)
  obtain c7 u3 where f: "re_outcome (cx_result (run_test tc cx)) = TestOutcome.Passed"
    "cleanup (enter_stage TestRunStage.CleaningUp (run_test tc cx)) = (c7, Inr u3)" "cx_state (run_stages w tc cx) = cx_state c7"
    "re_cleanup_status (cx_result (run_stages w tc cx)) = CleanupStatus.Passed"
    "re_criteria (cx_result (run_stages w tc cx)) = re_criteria (cx_result (run_test tc cx))"
    "re_measurements (cx_result (run_stages w tc cx)) = re_measurements (cx_result c7)"
    "re_environment (cx_result (run_stages w tc cx)) = re_environment (cx_result c7)"
    using finish_passed [OF passed [unfolded e]] unfolding e .
  obtain c1 u1 c2 c3 u2 c4 c5 ev where t: "prepare (enter_stage TestRunStage.Preparing cx) = (c1, Inr u1)"
    "cx_state c2 = cx_state c1" "cx_result c2 = cx_result c1"
    "execute (enter_stage TestRunStage.Executing c2) = (c3, Inr u2)" "cx_state c4 = cx_state c3" "cx_result c4 = cx_result c3"
    "evaluate (enter_stage TestRunStage.Evaluating c4) = (c5, Inr ev)" "ev_passed ev"
    "cx_state (run_test tc cx) = cx_state c5" "cx_result (run_test tc cx) = apply_evaluation ev (cx_result c5)"
    using run_test_passed [OF tc(1-3) f(1)] .
  have k: "re_criteria (cx_result (run_stages w tc cx)) = ev_criteria ev" by (simp add: f(5) t(10) apply_evaluation_def)
  show ?thesis by (rule that [OF t f(2-4) k f(6,7)])
qed

lemma cleanup_last:
  assumes "tc_prepare tc = Some prepare" "tc_execute tc = Some execute" "tc_evaluate tc = Some evaluate" "tc_cleanup tc = Some cleanup"
    and "cx_stages cx = []"
  shows "rev (cx_stages (run_stages w tc cx)) \<in>
    {[TestRunStage.Preparing, TestRunStage.CleaningUp], [TestRunStage.Preparing, TestRunStage.Executing, TestRunStage.CleaningUp],
     [TestRunStage.Preparing, TestRunStage.Executing, TestRunStage.Evaluating, TestRunStage.CleaningUp]}"
proof -
  have "cx_stages (run_stages w tc cx) = TestRunStage.CleaningUp # cx_stages (run_test tc cx)"
    using finish_stages assms(4) by (simp add: run_stages_def)
  moreover have "cx_stages (run_test tc cx) = [TestRunStage.Preparing] \<or>
      cx_stages (run_test tc cx) = [TestRunStage.Executing, TestRunStage.Preparing] \<or>
      cx_stages (run_test tc cx) = [TestRunStage.Evaluating, TestRunStage.Executing, TestRunStage.Preparing]"
    using run_test_stages [OF assms(1-3), of cx] unfolding assms(5) by simp
  ultimately show ?thesis by (elim disjE) simp_all
qed

end

section \<open>Property\<close>

text \<open>
  Every failure is sealed with its evidence. Whatever the callbacks, the clocks and a
  concurrent cancel do, and however early the run ends (another run is active, the case is
  invalid, the clock fails): a result that is \<^verbatim>\<open>FAIL\<close> or \<^verbatim>\<open>ERROR\<close> has a reason, at least one
  measurement, one criterion and one diagnostic of the test.
\<close>

theorem failure_sealed: "sealed (fst (snd (tr_run env run_id tc st tr)))"
proof -
  obtain r ss st' where b: "tr_body env run_id tc st = (r, ss, st')" by (cases "tr_body env run_id tc st")
  show ?thesis using tr_body_sealed [OF b] by (simp add: tr_run_def b fail_early_def seal_sealed)
qed

end
