(* ===== verification/Can_Health.thy ===== *)
theory Can_Health
  imports Test_Runner
begin

text \<open>
  The CAN communication health test
  (\<^verbatim>\<open>linux/src/workbench/services/can_health_test.cpp\<close>), a test case of the runner: it samples the
  runtime's snapshots over a window and judges eight criteria. The snapshots the
  provider returns and the results of the waits are inputs, kept in the state
  of the case. The lemmas show that its callbacks keep to the context and what a
  passing result says about the snapshots.
\<close>

section \<open>State and criteria\<close>

text \<open>Durations are in milliseconds.\<close>

record CanHealthCriteria =
  hc_expected_evidence :: EvidenceClass
  hc_observation_window_ms :: i64
  hc_sample_interval_ms :: i64
  hc_test_timeout_ms :: i64
  hc_min_heartbeat_delta :: u64
  hc_max_heartbeat_age_ms :: i64
  hc_max_decode_reject_delta :: u64
  hc_max_queue_reject_delta :: u64
  hc_max_input_queue_drop_delta :: u64

definition can_health_default :: CanHealthCriteria where
  "can_health_default =
     \<lparr>hc_expected_evidence = EvidenceClass.Vcan, hc_observation_window_ms = 500, hc_sample_interval_ms = 20,
      hc_test_timeout_ms = 1000, hc_min_heartbeat_delta = 3, hc_max_heartbeat_age_ms = 200,
      hc_max_decode_reject_delta = 0, hc_max_queue_reject_delta = 0, hc_max_input_queue_drop_delta = 0\<rparr>"

text \<open>
  The observation, and what the callbacks of the case will meet: whether they are set, the
  coming snapshots and the results of the coming waits. After the listed snapshots the
  last one stands still; after the listed waits every wait succeeds. \<open>hs_waited_ns\<close> are the
  durations waited for, the latest first.
\<close>

record HealthState =
  hs_baseline :: RuntimeTelemetrySnapshot
  hs_latest :: RuntimeTelemetrySnapshot
  hs_samples :: u64
  hs_max_heartbeat_age_ns :: i64
  hs_offline_after_seen :: bool
  hs_callbacks :: bool
  hs_snapshots :: "RuntimeTelemetrySnapshot list"
  hs_waits :: "unit Result list"
  hs_waited_ns :: "i64 list"

definition health_init :: "bool \<Rightarrow> RuntimeTelemetrySnapshot list \<Rightarrow> unit Result list \<Rightarrow> HealthState" where
  "health_init callbacks snapshots waits =
     \<lparr>hs_baseline = telemetry_default, hs_latest = telemetry_default, hs_samples = 0, hs_max_heartbeat_age_ns = -1,
      hs_offline_after_seen = False, hs_callbacks = callbacks, hs_snapshots = snapshots, hs_waits = waits, hs_waited_ns = []\<rparr>"

definition next_snapshot :: "HealthState \<Rightarrow> HealthState \<times> RuntimeTelemetrySnapshot" where
  "next_snapshot st = (case hs_snapshots st of [] \<Rightarrow> (st, hs_latest st) | s # rest \<Rightarrow> (st\<lparr>hs_snapshots := rest\<rparr>, s))"

definition next_wait :: "i64 \<Rightarrow> HealthState \<Rightarrow> HealthState \<times> unit Result" where
  "next_wait wait_ns st0 =
     (let st = st0\<lparr>hs_waited_ns := wait_ns # hs_waited_ns st0\<rparr>
      in case hs_waits st of [] \<Rightarrow> (st, Inr ()) | w # rest \<Rightarrow> (st\<lparr>hs_waits := rest\<rparr>, w))"

fun quality_for :: "EvidenceClass \<Rightarrow> MeasurementQuality" where
  "quality_for EvidenceClass.Physical = MeasurementQuality.Valid"
| "quality_for EvidenceClass.Mock = MeasurementQuality.Simulated"
| "quality_for EvidenceClass.Vcan = MeasurementQuality.Simulated"
| "quality_for EvidenceClass.Loopback = MeasurementQuality.Simulated"
| "quality_for _ = MeasurementQuality.Invalid"

definition validate_criteria :: "CanHealthCriteria \<Rightarrow> unit Result" where
  "validate_criteria c =
     (if hc_expected_evidence c = EvidenceClass.Unspecified
        then Inl (Error.Error Errc.InvalidArgument ''CAN health evidence class must be explicit'')
      else if hc_observation_window_ms c \<le> 0 \<or> hc_sample_interval_ms c \<le> 0 \<or>
              hc_test_timeout_ms c \<le> hc_observation_window_ms c \<or> hc_max_heartbeat_age_ms c \<le> 0 \<or>
              hc_min_heartbeat_delta c = 0
        then Inl (Error.Error Errc.InvalidArgument ''CAN health durations and heartbeat threshold are invalid'')
      else Inr ())"

definition checked_delta :: "u64 \<Rightarrow> u64 \<Rightarrow> string \<Rightarrow> u64 Result" where
  "checked_delta before after name =
     (if after < before
      then Inl (Error.Error Errc.Rejected (name @ '' counter moved backwards; Runtime likely restarted''))
      else Inr (after - before))"

definition criterion :: "string \<Rightarrow> bool \<Rightarrow> string \<Rightarrow> string \<Rightarrow> CriterionResult" where
  "criterion name passed expected actual =
     \<lparr>cn_name = name, cn_passed = passed, cn_expected = expected, cn_actual = actual\<rparr>"

section \<open>Reporting through the context\<close>

type_synonym HealthContext = "HealthState TestRunContext"

definition health_measurement :: "string \<Rightarrow> string \<Rightarrow> MeasuredValue \<Rightarrow> i64 \<Rightarrow> MeasurementQuality \<Rightarrow> HealthContext \<Rightarrow> HealthContext" where
  "health_measurement name unit v timestamp_ns quality =
     cx_add_measurement \<lparr>me_name = name, me_unit = unit, me_value = v, me_monotonic_ns = timestamp_ns, me_quality = quality\<rparr>"

definition health_diagnostic ::
  "RuntimeTelemetrySnapshot \<Rightarrow> DiagnosticSource \<Rightarrow> DiagnosticSeverity \<Rightarrow> string \<Rightarrow> string \<Rightarrow> string \<Rightarrow> HealthContext \<Rightarrow> HealthContext" where
  "health_diagnostic snap source severity code message extra cx =
     cx_add_diagnostic
       \<lparr>de_observed_monotonic_ns = tm_observed_monotonic_ns snap, de_source = source, de_severity = severity, de_code = code,
        de_message = message, de_device_id = dv_device_id (tm_device snap), de_run_id = re_run_id (cx_result cx),
        de_context = extra\<rparr> cx"

definition copy_snapshot_diagnostics :: "RuntimeTelemetrySnapshot \<Rightarrow> HealthContext \<Rightarrow> HealthContext" where
  "copy_snapshot_diagnostics snap cx =
     foldl (\<lambda>cx event.
        let event = (if de_run_id event = [] then event\<lparr>de_run_id := re_run_id (cx_result cx)\<rparr> else event);
            event = (if de_device_id event = [] then event\<lparr>de_device_id := dv_device_id (tm_device snap)\<rparr> else event)
        in cx_add_diagnostic event cx) cx (tm_diagnostics snap)"

definition record_parameters :: "CanHealthCriteria \<Rightarrow> HealthContext \<Rightarrow> HealthContext" where
  "record_parameters c cx =
     cx_add_parameter ''max_decode_reject_delta'' (nat_to_string (unat (hc_max_decode_reject_delta c)))
       (cx_add_parameter ''max_heartbeat_age_ms'' (int_to_string (hc_max_heartbeat_age_ms c))
          (cx_add_parameter ''min_heartbeat_delta'' (nat_to_string (unat (hc_min_heartbeat_delta c)))
             (cx_add_parameter ''test_timeout_ms'' (int_to_string (hc_test_timeout_ms c))
                (cx_add_parameter ''sample_interval_ms'' (int_to_string (hc_sample_interval_ms c))
                   (cx_add_parameter ''observation_window_ms'' (int_to_string (hc_observation_window_ms c)) cx)))))"

section \<open>Prepare\<close>

definition health_refuse :: "RuntimeTelemetrySnapshot \<Rightarrow> Errc \<Rightarrow> string \<Rightarrow> string \<Rightarrow> string \<Rightarrow> HealthContext \<Rightarrow> HealthContext \<times> unit Result" where
  "health_refuse snap errc code message extra cx =
     (health_diagnostic snap DiagnosticSource.Test DiagnosticSeverity.Error code message extra (copy_snapshot_diagnostics snap cx),
      Inl (Error.Error errc message))"

definition health_prepare :: "CanHealthCriteria \<Rightarrow> HealthContext \<Rightarrow> HealthContext \<times> unit Result" where
  "health_prepare criteria cx =
     (case validate_criteria criteria of
        Inl e \<Rightarrow> (cx, Inl e)
      | Inr _ \<Rightarrow>
        if \<not> hs_callbacks (cx_state cx)
        then (cx, Inl (Error.Error Errc.InvalidArgument ''CAN health provider and wait callback are required''))
        else case next_snapshot (cx_state cx) of (st, baseline) \<Rightarrow>
          let cx = cx\<lparr>cx_state := st\<lparr>hs_baseline := baseline, hs_latest := baseline\<rparr>\<rparr>;
              cx = cx_set_environment
                     \<lparr>tn_backend = cv_backend (tm_communication baseline),
                      tn_interface_name = cv_interface_name (tm_communication baseline),
                      tn_dut_id = dv_device_id (tm_device baseline), tn_profile = ''can.communication_health'',
                      tn_evidence = hc_expected_evidence criteria\<rparr> (record_parameters criteria cx)
          in if \<not> rs_started (tm_runtime baseline) \<or> \<not> rs_scheduler_running (tm_runtime baseline) then
               health_refuse baseline Errc.NotOpen ''RUNTIME_NOT_RUNNING''
                 ''Runtime and scheduler must be running before CAN health'' [] cx
             else if cv_evidence (tm_communication baseline) \<noteq> hc_expected_evidence criteria then
               health_refuse baseline Errc.Rejected ''EVIDENCE_MISMATCH''
                 ''observed evidence class does not match test criteria''
                 (''expected='' @ EvidenceClass_to_string (hc_expected_evidence criteria) @ '';actual='' @
                  EvidenceClass_to_string (cv_evidence (tm_communication baseline))) cx
             else (cx, Inr ()))"

section \<open>Execute\<close>

text \<open>One sample after a wait.\<close>

definition take_sample :: "HealthState \<Rightarrow> HealthState" where
  "take_sample st =
     (case next_snapshot st of (st, latest) \<Rightarrow>
        st\<lparr>hs_latest := latest, hs_samples := hs_samples st + 1,
           hs_max_heartbeat_age_ns :=
             (if dv_heartbeat_age_ns (tm_device latest) \<ge> 0
              then max (hs_max_heartbeat_age_ns st) (dv_heartbeat_age_ns (tm_device latest)) else hs_max_heartbeat_age_ns st),
           hs_offline_after_seen :=
             (hs_offline_after_seen st \<or> dv_ever_seen (tm_device latest) \<and> \<not> dv_online (tm_device latest))\<rparr>)"

text \<open>
  The sampling loop. \<open>None\<close> means that the window is over; otherwise the callback returns.
  Each turn reads the clock twice, and the list of readings ends.
\<close>

lemma cancel_clock [simp]: "cx_clock (fst (cancellation_requested cx)) = cx_clock cx"
  by (simp add: cancellation_requested_def Let_def)

lemma cancel_clock_eq: "cancellation_requested cx = (cx', b) \<Longrightarrow> cx_clock cx' = cx_clock cx"
  using cancel_clock [of cx] by simp

lemma now_shorter: "cx_now_ns cx = (cx', Inr t) \<Longrightarrow> length (cx_clock cx') < length (cx_clock cx)"
  by (auto simp: cx_now_ns_def split: list.splits)

lemma deadline_shorter: "deadline_expired cx = (cx', Inr b) \<Longrightarrow> length (cx_clock cx') < length (cx_clock cx)"
  by (auto simp: deadline_expired_def dest: now_shorter split: prod.splits sum.splits)

function sample_loop :: "i64 \<Rightarrow> i64 \<Rightarrow> i64 \<Rightarrow> HealthContext \<Rightarrow> HealthContext \<times> unit Result option" where
  "sample_loop start window_ns interval_ns cx =
     (case cancellation_requested cx of (cx, cancelled) \<Rightarrow>
        if cancelled then (cx, Some (Inr ()))
        else case deadline_expired cx of
          (cx, Inl e) \<Rightarrow> (cx, Some (Inl e))
        | (cx, Inr True) \<Rightarrow> (cx, Some (Inr ()))
        | (cx, Inr False) \<Rightarrow>
            (case cx_now_ns cx of
               (cx, Inl e) \<Rightarrow> (cx, Some (Inl e))
             | (cx, Inr now) \<Rightarrow>
                 if now - start \<ge> window_ns then (cx, None)
                 else case next_wait (min interval_ns (window_ns - (now - start))) (cx_state cx) of
                   (st, Inl e) \<Rightarrow> (cx\<lparr>cx_state := st\<rparr>, Some (Inl e))
                 | (st, Inr _) \<Rightarrow> sample_loop start window_ns interval_ns (cx\<lparr>cx_state := take_sample st\<rparr>)))"
  by pat_completeness auto
termination
  by (relation "measure (\<lambda>(s, w, i, cx). length (cx_clock cx))")
    (auto dest!: cancel_clock_eq [OF sym] now_shorter [OF sym] deadline_shorter [OF sym])

declare sample_loop.simps [simp del]

definition health_counters :: "HealthState \<Rightarrow> (u64 \<times> u64 \<times> u64 \<times> u64) Result" where
  "health_counters st =
     (let b = hs_baseline st; l = hs_latest st in
      case checked_delta (dv_heartbeats (tm_device b)) (dv_heartbeats (tm_device l)) ''heartbeat'' of Inl e \<Rightarrow> Inl e | Inr heartbeat \<Rightarrow>
      case checked_delta (cv_decode_rejects (tm_communication b)) (cv_decode_rejects (tm_communication l)) ''decode reject'' of
        Inl e \<Rightarrow> Inl e | Inr decodes \<Rightarrow>
      case checked_delta (cv_queue_rejects (tm_communication b)) (cv_queue_rejects (tm_communication l)) ''queue reject'' of
        Inl e \<Rightarrow> Inl e | Inr queues \<Rightarrow>
      case checked_delta (cv_input_queue_drop_count (tm_communication b)) (cv_input_queue_drop_count (tm_communication l))
             ''input queue drop'' of
        Inl e \<Rightarrow> Inl e | Inr drops \<Rightarrow> Inr (heartbeat, decodes, queues, drops))"

definition health_execute :: "CanHealthCriteria \<Rightarrow> HealthContext \<Rightarrow> HealthContext \<times> unit Result" where
  "health_execute criteria cx =
     (case cx_now_ns cx of
        (cx, Inl e) \<Rightarrow> (cx, Inl e)
      | (cx, Inr start) \<Rightarrow>
          (case sample_loop start (hc_observation_window_ms criteria * 1000000) (hc_sample_interval_ms criteria * 1000000) cx of
             (cx, Some r) \<Rightarrow> (cx, r)
           | (cx, None) \<Rightarrow>
               let st = cx_state cx; l = hs_latest st; quality = quality_for (hc_expected_evidence criteria);
                   cx = health_measurement ''sample_count'' ''count'' (FromInteger (uint (hs_samples st)))
                          (tm_observed_monotonic_ns l) quality cx;
                   cx = health_measurement ''max_heartbeat_age'' ''ms''
                          (if hs_max_heartbeat_age_ns st < 0 then FromInteger (-1) else Quotient (hs_max_heartbeat_age_ns st) 1000000)
                          (tm_observed_monotonic_ns l) quality cx
               in case health_counters st of
                    Inr _ \<Rightarrow> (cx, Inr ())
                  | Inl e \<Rightarrow>
                      (if dv_heartbeats (tm_device l) < dv_heartbeats (tm_device (hs_baseline st))
                       then health_diagnostic l DiagnosticSource.Test DiagnosticSeverity.Error ''COUNTER_REGRESSION''
                              (err_message e) [] cx
                       else cx, Inl e)))"

section \<open>Evaluate\<close>

definition max_age_ns :: "CanHealthCriteria \<Rightarrow> i64" where
  "max_age_ns criteria = hc_max_heartbeat_age_ms criteria * 1000000"

definition runtime_healthy :: "RuntimeTelemetrySnapshot \<Rightarrow> bool" where
  "runtime_healthy l \<longleftrightarrow> rs_started (tm_runtime l) \<and> rs_scheduler_running (tm_runtime l) \<and> rs_fault (tm_runtime l) = RuntimeFaultCode.NoFault"

definition communication_healthy :: "RuntimeTelemetrySnapshot \<Rightarrow> bool" where
  "communication_healthy l \<longleftrightarrow>
     \<not> cv_input_queue_overflow_latched (tm_communication l) \<and> \<not> dv_comm_loss_latched (tm_device l) \<and>
     \<not> dv_overflow_fault_latched (tm_device l) \<and> dv_device_fault_code (tm_device l) = 0 \<and>
     cv_stop_reason (tm_communication l) = CommunicationStopReason.NoReason"

text \<open>The eight criteria in order.\<close>

definition health_criteria :: "CanHealthCriteria \<Rightarrow> HealthState \<Rightarrow> u64 \<times> u64 \<times> u64 \<times> u64 \<Rightarrow> CriterionResult list" where
  "health_criteria criteria st deltas =
     (case deltas of (heartbeat, decodes, queues, drops) \<Rightarrow>
      let l = hs_latest st; age = hs_max_heartbeat_age_ns st;
          online = (dv_online (tm_device l) \<and> \<not> hs_offline_after_seen st)
      in [criterion ''heartbeat progress'' (heartbeat \<ge> hc_min_heartbeat_delta criteria)
            (''>='' @ nat_to_string (unat (hc_min_heartbeat_delta criteria))) (nat_to_string (unat heartbeat)),
          criterion ''heartbeat freshness'' (age \<ge> 0 \<and> age \<le> max_age_ns criteria)
            (''0..'' @ int_to_string (hc_max_heartbeat_age_ms criteria) @ '' ms'')
            (if age < 0 then ''unavailable'' else int_to_string (age div 1000000) @ '' ms''),
          criterion ''device remained online'' online ''online for observation window'' (if online then ''online'' else ''offline observed''),
          criterion ''decode rejects'' (decodes \<le> hc_max_decode_reject_delta criteria)
            (''<='' @ nat_to_string (unat (hc_max_decode_reject_delta criteria))) (nat_to_string (unat decodes)),
          criterion ''queue rejects'' (queues \<le> hc_max_queue_reject_delta criteria)
            (''<='' @ nat_to_string (unat (hc_max_queue_reject_delta criteria))) (nat_to_string (unat queues)),
          criterion ''input queue drops'' (drops \<le> hc_max_input_queue_drop_delta criteria)
            (''<='' @ nat_to_string (unat (hc_max_input_queue_drop_delta criteria))) (nat_to_string (unat drops)),
          criterion ''runtime remained healthy'' (runtime_healthy l) ''started, scheduler running, fault NONE''
            (RuntimeFaultCode_to_string (rs_fault (tm_runtime l))),
          criterion ''communication fault flags'' (communication_healthy l) ''no latched fault and I/O stop reason NONE''
            (if communication_healthy l then ''clear'' else ''fault or I/O stop observed'')])"

definition diagnose_if :: "bool \<Rightarrow> DiagnosticSource \<Rightarrow> string \<Rightarrow> string \<Rightarrow> string \<Rightarrow> HealthContext \<Rightarrow> HealthContext" where
  "diagnose_if b source code message extra cx =
     (if b then health_diagnostic (hs_latest (cx_state cx)) source DiagnosticSeverity.Error code message extra cx else cx)"

definition health_findings :: "CanHealthCriteria \<Rightarrow> u64 \<times> u64 \<times> u64 \<times> u64 \<Rightarrow> HealthContext \<Rightarrow> HealthContext" where
  "health_findings criteria deltas cx =
     (case deltas of (heartbeat, decodes, queues, drops) \<Rightarrow>
      let st = cx_state cx; l = hs_latest st; age = hs_max_heartbeat_age_ns st;
          cx = copy_snapshot_diagnostics l cx;
          cx = diagnose_if (heartbeat < hc_min_heartbeat_delta criteria) DiagnosticSource.Communication ''HEARTBEAT_STALLED''
                 ''heartbeat count did not increase enough'' [] cx;
          cx = diagnose_if (age < 0 \<or> age > max_age_ns criteria) DiagnosticSource.Communication ''HEARTBEAT_STALE''
                 ''heartbeat age exceeded freshness threshold'' [] cx;
          cx = diagnose_if (\<not> dv_online (tm_device l) \<or> hs_offline_after_seen st) DiagnosticSource.Device ''DEVICE_OFFLINE''
                 ''device left the online state during the window'' [] cx
      in diagnose_if (decodes > hc_max_decode_reject_delta criteria) DiagnosticSource.Communication ''MALFORMED_FRAME''
           ''decode rejects increased during the observation window'' (''delta='' @ nat_to_string (unat decodes)) cx)"

definition health_failures :: "CriterionResult list \<Rightarrow> HealthContext \<Rightarrow> HealthContext" where
  "health_failures items cx =
     foldl (\<lambda>cx item. health_diagnostic (hs_latest (cx_state cx)) DiagnosticSource.Test DiagnosticSeverity.Error ''CRITERION_FAILED''
        (cn_name item @ '' expected '' @ cn_expected item @ '' actual '' @ cn_actual item) (''criterion='' @ cn_name item) cx)
       cx (filter (\<lambda>item. \<not> cn_passed item) items)"

definition health_evaluate :: "CanHealthCriteria \<Rightarrow> HealthContext \<Rightarrow> HealthContext \<times> TestEvaluation Result" where
  "health_evaluate criteria cx =
     (case health_counters (cx_state cx) of
        Inl e \<Rightarrow> (cx, Inl e)
      | Inr (heartbeat, decodes, queues, drops) \<Rightarrow>
          let st = cx_state cx; quality = quality_for (hc_expected_evidence criteria);
              t = tm_observed_monotonic_ns (hs_latest st);
              cx = health_measurement ''heartbeat_delta'' ''count'' (FromInteger (uint heartbeat)) t quality cx;
              cx = health_measurement ''decode_reject_delta'' ''count'' (FromInteger (uint decodes)) t quality cx;
              cx = health_measurement ''queue_reject_delta'' ''count'' (FromInteger (uint queues)) t quality cx;
              cx = health_measurement ''input_queue_drop_delta'' ''count'' (FromInteger (uint drops)) t quality cx;
              cx = health_findings criteria (heartbeat, decodes, queues, drops) cx;
              items = health_criteria criteria st (heartbeat, decodes, queues, drops);
              passed = list_all cn_passed items
          in (if passed then cx else health_failures items cx,
              Inr \<lparr>ev_passed = passed,
                   ev_summary = (if passed then ''CAN communication health criteria passed''
                                 else ''CAN communication health criteria failed''),
                   ev_criteria = items\<rparr>))"

definition health_cleanup :: "HealthContext \<Rightarrow> HealthContext \<times> unit Result" where
  "health_cleanup cx = (cx, Inr ())"

section \<open>The test\<close>

definition can_health_case :: "CanHealthCriteria \<Rightarrow> HealthState TestCase" where
  "can_health_case criteria =
     \<lparr>tc_id = ''can.communication_health'', tc_name = ''CAN Communication Health'', tc_version = ''1'',
      tc_timeout_ns = hc_test_timeout_ms criteria * 1000000, tc_prepare = Some (health_prepare criteria),
      tc_execute = Some (health_execute criteria), tc_evaluate = Some (health_evaluate criteria),
      tc_cleanup = Some health_cleanup\<rparr>"

definition can_health_run ::
  "RunEnv \<Rightarrow> string \<Rightarrow> CanHealthCriteria \<Rightarrow> HealthState \<Rightarrow> TestRunner \<Rightarrow> TestRunner \<times> TestResult \<times> HealthState" where
  "can_health_run env run_id criteria st tr = tr_run env run_id (can_health_case criteria) st tr"

section \<open>The callbacks keep to the context\<close>

text \<open>Reporting: no change of the environment, and measurements of one quality only.\<close>

definition reports :: "MeasurementQuality \<Rightarrow> HealthContext \<Rightarrow> HealthContext \<Rightarrow> bool" where
  "reports q a b \<longleftrightarrow> cx_extends a b \<and> re_environment (cx_result b) = re_environment (cx_result a) \<and>
     (list_all (\<lambda>m. me_quality m = q) (re_measurements (cx_result a)) \<longrightarrow>
      list_all (\<lambda>m. me_quality m = q) (re_measurements (cx_result b)))"

lemma reports_refl [intro!]: "reports q a a"
  by (simp add: reports_def extends_refl)

lemma reports_trans: "reports q a b \<Longrightarrow> reports q b c \<Longrightarrow> reports q a c"
  by (auto simp: reports_def intro: extends_trans)

lemma reports_foldl: "(\<And>cx e. reports q cx (f cx e)) \<Longrightarrow> reports q cx (foldl f cx es)"
  by (induction es arbitrary: cx) (auto intro: reports_trans)

lemma reports_steps:
  "reports q b (health_measurement n u v t q b)"
  "reports q b (health_diagnostic s src sev code msg extra b)"
  "reports q b (cx_add_diagnostic d b)"
  "reports q b (b\<lparr>cx_state := st\<rparr>)"
  "reports q b (fst (cancellation_requested b))" "reports q b (fst (cx_now_ns b))" "reports q b (fst (deadline_expired b))"
  using extends_refl [of b]
  by (auto simp: reports_def health_measurement_def health_diagnostic_def extends_intros extends_state,
      auto simp: cx_add_measurement_def cx_add_diagnostic_def cx_update_def cancellation_requested_def deadline_expired_def
        cx_now_ns_def Let_def split: list.splits sum.splits)

lemma reports_more:
  "reports q b (copy_snapshot_diagnostics s b)" "reports q b (health_failures items b)"
  unfolding copy_snapshot_diagnostics_def health_failures_def by (auto simp: Let_def intro!: reports_foldl reports_steps)

lemmas reports_on [intro!] = reports_trans [OF _ reports_steps(1)] reports_trans [OF _ reports_steps(2)]
  reports_trans [OF _ reports_steps(4)] reports_trans [OF _ reports_more(1)] reports_trans [OF _ reports_more(2)]

text \<open>One turn of the sampling loop: it ends, a wait fails, or a sample is taken.\<close>

lemma sample_loop_turn:
  obtains (stop) c r where "sample_loop start win iv cx = (c, r)" "cx_result c = cx_result cx" "cx_state c = cx_state cx" "cx_extends cx c"
  | (wait_fails) c st e d where "sample_loop start win iv cx = (c\<lparr>cx_state := st\<rparr>, Some (Inl e))" "next_wait d (cx_state cx) = (st, Inl e)"
      "cx_result c = cx_result cx" "cx_extends cx c"
  | (sampled) c st d where "sample_loop start win iv cx = sample_loop start win iv (c\<lparr>cx_state := take_sample st\<rparr>)"
      "next_wait d (cx_state cx) = (st, Inr ())" "cx_result c = cx_result cx" "cx_extends cx c" "length (cx_clock c) < length (cx_clock cx)"
proof -
  obtain c1 k where c1: "cancellation_requested cx = (c1, k)" by fastforce
  obtain c2 e where c2: "deadline_expired c1 = (c2, e)" by fastforce
  obtain c3 n where c3: "cx_now_ns c2 = (c3, n)" by fastforce
  have s1: "cx_result c1 = cx_result cx" "cx_state c1 = cx_state cx" "cx_clock c1 = cx_clock cx" "cx_extends cx c1"
    using c1 extends_cancel [of cx] by (auto simp: cancellation_requested_def Let_def)
  have s2: "cx_result c2 = cx_result cx" "cx_state c2 = cx_state cx" "cx_extends cx c2"
    using c2 s1 extends_trans [OF s1(4)] extends_deadline [of c1] by (auto simp: deadline_expired_def cx_now_ns_def split: list.splits sum.splits)
  have s3: "cx_result c3 = cx_result cx" "cx_state c3 = cx_state cx" "cx_extends cx c3"
    using c3 s2 extends_trans [OF s2(3)] extends_now [of c2] by (auto simp: cx_now_ns_def split: list.splits)
  show ?thesis
  proof (cases "\<not> k \<and> e = Inr False \<and> (\<exists>now. n = Inr now \<and> now - start < win)")
    case True
    then obtain now where t: "\<not> k" "e = Inr False" "n = Inr now" "now - start < win" by blast
    obtain st w where w: "next_wait (min iv (win - (now - start))) (cx_state cx) = (st, w)" by fastforce
    have l: "sample_loop start win iv cx = (case (st, w) of (st, Inl e) \<Rightarrow> (c3\<lparr>cx_state := st\<rparr>, Some (Inl e))
        | (st, Inr _) \<Rightarrow> sample_loop start win iv (c3\<lparr>cx_state := take_sample st\<rparr>))"
      using t by (subst sample_loop.simps) (simp add: c1 c2 c3 s3(2) w)
    have "length (cx_clock c3) < length (cx_clock cx)" using t c2 c3 deadline_shorter [of c1 c2] now_shorter [of c2 c3] s1(3) by fastforce
    then show ?thesis using sampled wait_fails l w s3 by (cases w) auto
  next
    case False
    then have "fst (sample_loop start win iv cx) \<in> {c1, c2, c3}"
      by (subst sample_loop.simps) (auto simp: c1 c2 c3 not_less split: sum.splits bool.splits)
    then show ?thesis using stop [OF prod.collapse [symmetric]] s1 s2 s3 by auto
  qed
qed

lemma reports_same: "cx_result b = cx_result a \<Longrightarrow> cx_extends a b \<Longrightarrow> reports q a b"
  by (simp add: reports_def)

lemma sample_loop_reports: "reports q cx (fst (sample_loop start win iv cx))"
proof (induction "length (cx_clock cx)" arbitrary: cx rule: less_induct)
  case less
  show ?case
  proof (cases rule: sample_loop_turn [of start win iv cx])
    case (stop c r)
    then show ?thesis by (simp add: reports_same)
  next
    case (wait_fails c st e d)
    then show ?thesis using reports_trans [OF reports_same [of c cx q] reports_steps(4)] by simp
  next
    case (sampled c st d)
    then have "reports q cx (c\<lparr>cx_state := take_sample st\<rparr>)" using reports_trans [OF reports_same [of c cx q] reports_steps(4)] by simp
    then show ?thesis using reports_trans less [of "c\<lparr>cx_state := take_sample st\<rparr>"] sampled by simp
  qed
qed

lemma health_execute_reports: "reports (quality_for (hc_expected_evidence c)) cx (fst (health_execute c cx))"
proof -
  let ?q = "quality_for (hc_expected_evidence c)"
  obtain c1 n where c1: "cx_now_ns cx = (c1, n)" by fastforce
  have r1: "reports ?q cx c1" using reports_steps(6) [of ?q cx] by (simp add: c1)
  show ?thesis
  proof (cases n)
    case (Inr start)
    obtain c2 r where c2: "sample_loop start (hc_observation_window_ms c * 1000000) (hc_sample_interval_ms c * 1000000) c1 = (c2, r)"
      by fastforce
    have "reports ?q cx c2" using reports_trans [OF r1 sample_loop_reports [of ?q c1]] c2 by (metis fst_conv)
    then show ?thesis
      by (auto simp: health_execute_def c1 Inr c2 Let_def split: option.splits sum.splits)
  qed (use r1 in \<open>simp add: health_execute_def c1\<close>)
qed

lemma diagnose_reports: "reports q a cx \<Longrightarrow> reports q a (diagnose_if b src code msg extra cx)"
  by (auto simp: diagnose_if_def)

lemma health_findings_reports: "reports q a cx \<Longrightarrow> reports q a (health_findings c deltas cx)"
  by (cases deltas) (auto simp: health_findings_def Let_def intro!: diagnose_reports)

lemma health_evaluate_reports: "reports (quality_for (hc_expected_evidence c)) cx (fst (health_evaluate c cx))"
  by (auto simp: health_evaluate_def Let_def intro!: health_findings_reports split: sum.splits prod.splits)

lemma health_state [simp]:
  "cx_state (health_measurement n u v t q cx) = cx_state cx" "cx_state (health_diagnostic s src sev code msg extra cx) = cx_state cx"
  "cx_state (cx_add_diagnostic d cx) = cx_state cx" "cx_state (cx_add_parameter p x cx) = cx_state cx" "cx_state (cx_set_environment e cx) = cx_state cx"
  by (simp_all add: health_measurement_def health_diagnostic_def cx_add_measurement_def cx_add_diagnostic_def cx_add_parameter_def cx_set_environment_def)

lemma foldl_state: "(\<And>cx e. cx_state (f cx e) = cx_state cx) \<Longrightarrow> cx_state (foldl f cx es) = cx_state cx"
  by (induction es arbitrary: cx) simp_all

lemma copy_state [simp]: "cx_state (copy_snapshot_diagnostics s cx) = cx_state cx"
  unfolding copy_snapshot_diagnostics_def by (rule foldl_state) (simp add: Let_def)

lemma failures_state [simp]: "cx_state (health_failures items cx) = cx_state cx"
  unfolding health_failures_def by (rule foldl_state) simp

lemma parameters_state [simp]: "cx_state (record_parameters c cx) = cx_state cx"
  by (simp add: record_parameters_def)

lemma diagnose_state [simp]: "cx_state (diagnose_if b src code msg extra cx) = cx_state cx"
  by (simp add: diagnose_if_def)

lemma findings_state [simp]: "cx_state (health_findings c deltas cx) = cx_state cx"
  by (cases deltas) (simp add: health_findings_def Let_def)

lemma health_evaluate_state: "cx_state (fst (health_evaluate c cx)) = cx_state cx"
  by (cases "health_counters (cx_state cx)") (auto simp: health_evaluate_def Let_def)

lemma extends_prepare:
  "cx_extends a b \<Longrightarrow> cx_extends a (health_diagnostic s src sev code msg extra b)"
  "cx_extends a b \<Longrightarrow> cx_extends a (copy_snapshot_diagnostics s b)"
  "cx_extends a b \<Longrightarrow> cx_extends a (cx_set_environment e b)"
  by (erule extends_trans, use reports_steps(2) reports_more(1) extends_environment in \<open>auto simp: reports_def\<close>)+

lemma extends_record: "cx_extends a b \<Longrightarrow> cx_extends a (record_parameters c b)"
  unfolding record_parameters_def by (intro extends_trans [OF _ extends_parameter])

lemma health_prepare_extends: "cx_extends cx (fst (health_prepare c cx))"
proof -
  have "cx_extends cx (cx\<lparr>cx_state := s\<rparr>)" for s by (rule extends_state [OF extends_refl])
  then show ?thesis
    by (auto simp: health_prepare_def health_refuse_def Let_def extends_refl intro!: extends_prepare extends_record split: sum.splits prod.splits)
qed

interpretation chc: test_case "health_prepare c" "health_execute c" "health_evaluate c" health_cleanup for c
  using health_execute_reports [of c] health_evaluate_reports [of c]
  by unfold_locales (simp_all add: health_prepare_extends health_cleanup_def extends_refl reports_def)

section \<open>What a pass says\<close>

text \<open>
  The state after some samples: a prefix of the snapshots \<open>L\<close> that followed the baseline \<open>b\<close> was
  taken, and the summary covers each of them.
\<close>

definition covered :: "HealthState \<Rightarrow> RuntimeTelemetrySnapshot \<Rightarrow> bool" where
  "covered st s \<longleftrightarrow> dv_heartbeat_age_ns (tm_device s) \<le> hs_max_heartbeat_age_ns st \<and>
     (dv_ever_seen (tm_device s) \<and> \<not> dv_online (tm_device s) \<longrightarrow> hs_offline_after_seen st)"

definition sampling :: "RuntimeTelemetrySnapshot \<Rightarrow> RuntimeTelemetrySnapshot list \<Rightarrow> HealthState \<Rightarrow> bool" where
  "sampling b L st \<longleftrightarrow> hs_baseline st = b \<and>
     (\<exists>xs. L = xs @ hs_snapshots st \<and> hs_latest st = last (b # xs) \<and> - 1 \<le> hs_max_heartbeat_age_ns st \<and>
        (\<forall>s \<in> set xs. - 1 \<le> dv_heartbeat_age_ns (tm_device s) \<longrightarrow> covered st s))"

lemma take_sample_fields:
  "next_snapshot st = (st1, l) \<Longrightarrow>
     hs_baseline (take_sample st) = hs_baseline st \<and> hs_latest (take_sample st) = l \<and> hs_snapshots (take_sample st) = hs_snapshots st1 \<and>
     hs_max_heartbeat_age_ns st \<le> hs_max_heartbeat_age_ns (take_sample st) \<and>
     (hs_offline_after_seen st \<longrightarrow> hs_offline_after_seen (take_sample st)) \<and>
     (- 1 \<le> hs_max_heartbeat_age_ns st \<longrightarrow> - 1 \<le> dv_heartbeat_age_ns (tm_device l) \<longrightarrow> covered (take_sample st) l)"
  by (auto simp: take_sample_def next_snapshot_def covered_def split: list.splits)

lemma sampling_step:
  assumes "sampling b L st"
  shows "sampling b L (take_sample st)"
proof -
  obtain xs where x: "hs_baseline st = b" "L = xs @ hs_snapshots st" "hs_latest st = last (b # xs)" "- 1 \<le> hs_max_heartbeat_age_ns st"
    "\<forall>s \<in> set xs. - 1 \<le> dv_heartbeat_age_ns (tm_device s) \<longrightarrow> covered st s" using assms unfolding sampling_def by blast
  obtain st1 l where n: "next_snapshot st = (st1, l)" by fastforce
  note f = take_sample_fields [OF n]
  have mono: "covered st s \<Longrightarrow> covered (take_sample st) s" for s using f by (auto simp: covered_def)
  show ?thesis
  proof (cases "hs_snapshots st")
    case Nil
    then have "st1 = st" "l = hs_latest st" using n by (auto simp: next_snapshot_def)
    then show ?thesis unfolding sampling_def using f x mono by (intro conjI exI [of _ xs]) auto
  next
    case (Cons s rest)
    then have "st1 = st\<lparr>hs_snapshots := rest\<rparr>" "l = s" using n by (auto simp: next_snapshot_def)
    then show ?thesis unfolding sampling_def using f x mono Cons by (intro conjI exI [of _ "xs @ [s]"]) auto
  qed
qed

lemma next_wait_fields:
  assumes "next_wait d st = (st', r)"
  shows "hs_baseline st' = hs_baseline st" "hs_snapshots st' = hs_snapshots st" "hs_latest st' = hs_latest st"
    "hs_max_heartbeat_age_ns st' = hs_max_heartbeat_age_ns st" "hs_offline_after_seen st' = hs_offline_after_seen st"
  using assms by (auto simp: next_wait_def Let_def split: list.splits)

lemma next_wait_sampling: "next_wait d st = (st', r) \<Longrightarrow> sampling b L st \<Longrightarrow> sampling b L st'"
  unfolding sampling_def covered_def by (simp add: next_wait_fields)

lemma sample_loop_sampling: "sampling b L (cx_state cx) \<Longrightarrow> sampling b L (cx_state (fst (sample_loop start win iv cx)))"
proof (induction "length (cx_clock cx)" arbitrary: cx rule: less_induct)
  case less
  show ?case
  proof (cases rule: sample_loop_turn [of start win iv cx])
    case (sampled c st d)
    then show ?thesis using less(1) [of "c\<lparr>cx_state := take_sample st\<rparr>"] sampling_step [OF next_wait_sampling [OF sampled(2) less(2)]] by simp
  next
    case (wait_fails c st e d)
    then show ?thesis using next_wait_sampling [OF wait_fails(2) less(2)] by simp
  qed (use less(2) in simp)
qed

lemma execute_sampling: "sampling b L (cx_state cx) \<Longrightarrow> sampling b L (cx_state (fst (health_execute c cx)))"
proof -
  assume a: "sampling b L (cx_state cx)"
  obtain c1 n where c1: "cx_now_ns cx = (c1, n)" by fastforce
  have s1: "cx_state c1 = cx_state cx" using c1 by (auto simp: cx_now_ns_def split: list.splits)
  show ?thesis
  proof (cases n)
    case (Inr start)
    obtain c2 r where c2: "sample_loop start (hc_observation_window_ms c * 1000000) (hc_sample_interval_ms c * 1000000) c1 = (c2, r)"
      by fastforce
    have "sampling b L (cx_state c2)"
      using sample_loop_sampling [of b L c1 start "hc_observation_window_ms c * 1000000" "hc_sample_interval_ms c * 1000000"] a s1 c2 by simp
    then show ?thesis by (auto simp: health_execute_def c1 Inr c2 Let_def split: option.splits sum.splits)
  qed (use a s1 in \<open>simp add: health_execute_def c1\<close>)
qed

lemma prepare_ok:
  assumes "health_prepare c cx = (c1, Inr u)" and "cx_state cx = health_init cb snaps waits"
    and "re_measurements (cx_result cx) = []"
  obtains b L where "snaps = b # L" "sampling b L (cx_state c1)" "cv_evidence (tm_communication b) = hc_expected_evidence c"
    "hc_expected_evidence c \<noteq> EvidenceClass.Unspecified" "rs_started (tm_runtime b)" "rs_scheduler_running (tm_runtime b)"
    "tn_evidence (re_environment (cx_result c1)) = hc_expected_evidence c" "re_measurements (cx_result c1) = []"
proof -
  obtain st b where n: "next_snapshot (cx_state cx) = (st, b)" by fastforce
  have v: "validate_criteria c = Inr ()" "hc_expected_evidence c \<noteq> EvidenceClass.Unspecified"
    using assms(1) by (auto simp: health_prepare_def validate_criteria_def split: if_splits)
  have g: "rs_started (tm_runtime b)" "rs_scheduler_running (tm_runtime b)" "cv_evidence (tm_communication b) = hc_expected_evidence c"
    using assms(1) by (auto simp: health_prepare_def n Let_def health_refuse_def split: if_splits sum.splits)
  have c1: "c1 = cx_set_environment
      \<lparr>tn_backend = cv_backend (tm_communication b), tn_interface_name = cv_interface_name (tm_communication b),
       tn_dut_id = dv_device_id (tm_device b), tn_profile = ''can.communication_health'', tn_evidence = hc_expected_evidence c\<rparr>
      (record_parameters c (cx\<lparr>cx_state := st\<lparr>hs_baseline := b, hs_latest := b\<rparr>\<rparr>))"
    using assms(1) g v by (auto simp: health_prepare_def n Let_def split: if_splits)
  have "snaps \<noteq> []"
  proof
    assume "snaps = []"
    then have "b = telemetry_default" using n assms(2) by (simp add: next_snapshot_def health_init_def)
    then show False using g(1) by (simp add: telemetry_default_def runtime_state_default_def)
  qed
  then obtain L where L: "snaps = b # L" "st = (health_init cb snaps waits)\<lparr>hs_snapshots := L\<rparr>"
    using n assms(2) by (auto simp: next_snapshot_def health_init_def split: list.splits)
  have "sampling b L (cx_state c1)" by (simp add: c1 L sampling_def health_init_def)
  moreover have "tn_evidence (re_environment (cx_result c1)) = hc_expected_evidence c" "re_measurements (cx_result c1) = []"
    using assms(3) by (simp_all add: c1 cx_set_environment_def record_parameters_def cx_add_parameter_def)
  ultimately show ?thesis using that L(1) g v(2) by blast
qed

lemma evaluate_ok:
  assumes "health_evaluate c cx = (c1, Inr ev)"
  obtains heartbeat decodes queues drops where "health_counters (cx_state cx) = Inr (heartbeat, decodes, queues, drops)"
    "ev_criteria ev = health_criteria c (cx_state cx) (heartbeat, decodes, queues, drops)"
    "ev_passed ev = list_all cn_passed (ev_criteria ev)"
  using assms by (auto simp: health_evaluate_def Let_def split: sum.splits)

lemma criteria_passed:
  "list_all cn_passed (health_criteria c st (heartbeat, decodes, queues, drops)) \<longleftrightarrow>
     hc_min_heartbeat_delta c \<le> heartbeat \<and> 0 \<le> hs_max_heartbeat_age_ns st \<and> hs_max_heartbeat_age_ns st \<le> max_age_ns c \<and>
     dv_online (tm_device (hs_latest st)) \<and> \<not> hs_offline_after_seen st \<and> decodes \<le> hc_max_decode_reject_delta c \<and>
     queues \<le> hc_max_queue_reject_delta c \<and> drops \<le> hc_max_input_queue_drop_delta c \<and>
     runtime_healthy (hs_latest st) \<and> communication_healthy (hs_latest st)"
  by (auto simp: health_criteria_def Let_def criterion_def)

lemma counters_heartbeat:
  "health_counters st = Inr (heartbeat, ds) \<Longrightarrow>
     uint heartbeat = uint (dv_heartbeats (tm_device (hs_latest st))) - uint (dv_heartbeats (tm_device (hs_baseline st)))"
  by (auto simp: health_counters_def checked_delta_def Let_def not_less uint_sub_if_size word_le_def split: sum.splits if_splits)

text \<open>The snapshots of a window that passes: all fresh and never offline, and the last one healthy with enough heartbeats.\<close>

definition healthy_window :: "CanHealthCriteria \<Rightarrow> RuntimeTelemetrySnapshot \<Rightarrow> RuntimeTelemetrySnapshot list \<Rightarrow> bool" where
  "healthy_window c b sampled \<longleftrightarrow>
     list_all (\<lambda>s. - 1 \<le> dv_heartbeat_age_ns (tm_device s) \<longrightarrow>
        dv_heartbeat_age_ns (tm_device s) \<le> max_age_ns c \<and> (dv_ever_seen (tm_device s) \<longrightarrow> dv_online (tm_device s))) sampled \<and>
     (let l = last (b # sampled) in
        runtime_healthy l \<and> communication_healthy l \<and> dv_online (tm_device l) \<and>
        uint (dv_heartbeats (tm_device b)) + uint (hc_min_heartbeat_delta c) \<le> uint (dv_heartbeats (tm_device l)))"

lemma passed_window:
  assumes "sampling b L st" and "health_counters st = Inr (heartbeat, decodes, queues, drops)"
    and "list_all cn_passed (health_criteria c st (heartbeat, decodes, queues, drops))"
  obtains sampled rest where "L = sampled @ rest" "healthy_window c b sampled"
proof -
  obtain xs where x: "hs_baseline st = b" "L = xs @ hs_snapshots st" "hs_latest st = last (b # xs)"
    "\<forall>s \<in> set xs. - 1 \<le> dv_heartbeat_age_ns (tm_device s) \<longrightarrow> covered st s" using assms(1) unfolding sampling_def by blast
  note p = assms(3) [unfolded criteria_passed]
  have "uint (hc_min_heartbeat_delta c) \<le> uint heartbeat" using p by (simp add: word_le_def)
  then have "healthy_window c b xs"
    using p x counters_heartbeat [OF assms(2)] by (auto simp: healthy_window_def Let_def list_all_iff covered_def)
  then show ?thesis using that x(2) by blast
qed

lemma health_run_passed:
  assumes "can_health_run env run_id c (health_init callbacks snaps waits) tr = (tr', r, st')" and "re_outcome r = TestOutcome.Passed"
  obtains cx where "r = cx_result (run_stages (rv_finished_wall env) (can_health_case c) cx)" "cx_state cx = health_init callbacks snaps waits"
    "re_measurements (cx_result cx) = []"
proof -
  have "\<not> tr_running tr"
  proof
    assume "tr_running tr"
    then have "re_outcome r = TestOutcome.Error" using assms(1) by (auto simp: can_health_run_def tr_run_def fail_early_def result_init_def)
    then show False using assms(2) by simp
  qed
  then obtain ss where "tr_body env run_id (can_health_case c) (health_init callbacks snaps waits) = (r, ss, st')"
    using assms(1) by (auto simp: can_health_run_def tr_run_def split: prod.splits)
  then show ?thesis
    using assms(2) that
    by (auto simp: tr_body_def Let_def fail_early_def result_init_def split: sum.splits list.splits if_splits)
qed

lemma health_stages_passed:
  assumes "r = cx_result (run_stages w (can_health_case c) cx)" and "re_outcome r = TestOutcome.Passed"
  obtains c1 u1 c2 c3 u2 c4 c5 ev where
    "health_prepare c (enter_stage TestRunStage.Preparing cx) = (c1, Inr u1)" "cx_state c2 = cx_state c1" "cx_result c2 = cx_result c1"
    "health_execute c (enter_stage TestRunStage.Executing c2) = (c3, Inr u2)" "cx_state c4 = cx_state c3" "cx_result c4 = cx_result c3"
    "health_evaluate c (enter_stage TestRunStage.Evaluating c4) = (c5, Inr ev)" "ev_passed ev"
    "re_cleanup_status r = CleanupStatus.Passed" "re_criteria r = ev_criteria ev"
    "re_measurements r = re_measurements (cx_result c5)" "re_environment r = re_environment (cx_result c5)"
proof -
  have tc: "tc_prepare (can_health_case c) = Some (health_prepare c)" "tc_execute (can_health_case c) = Some (health_execute c)"
    "tc_evaluate (can_health_case c) = Some (health_evaluate c)" "tc_cleanup (can_health_case c) = Some health_cleanup"
    by (simp_all add: can_health_case_def)
  obtain c1 u1 c2 c3 u2 c4 c5 ev c6 c7 u3 where t:
    "health_prepare c (enter_stage TestRunStage.Preparing cx) = (c1, Inr u1)" "cx_state c2 = cx_state c1" "cx_result c2 = cx_result c1"
    "health_execute c (enter_stage TestRunStage.Executing c2) = (c3, Inr u2)" "cx_state c4 = cx_state c3" "cx_result c4 = cx_result c3"
    "health_evaluate c (enter_stage TestRunStage.Evaluating c4) = (c5, Inr ev)" "ev_passed ev"
    "cx_state c6 = cx_state c5" "cx_result c6 = apply_evaluation ev (cx_result c5)"
    "health_cleanup (enter_stage TestRunStage.CleaningUp c6) = (c7, Inr u3)" "cx_state (run_stages w (can_health_case c) cx) = cx_state c7"
    "re_cleanup_status r = CleanupStatus.Passed" "re_criteria r = ev_criteria ev"
    "re_measurements r = re_measurements (cx_result c7)" "re_environment r = re_environment (cx_result c7)"
    using chc.passed_only [OF tc assms(2) [unfolded assms(1)]] unfolding assms(1) .
  have "cx_result c7 = apply_evaluation ev (cx_result c5)" using t(10,11) by (auto simp: health_cleanup_def)
  then have "re_measurements r = re_measurements (cx_result c5)" "re_environment r = re_environment (cx_result c5)"
    using t(15,16) by (simp_all add: apply_evaluation_def)
  with t(1-8,13,14) show ?thesis by (rule that)
qed

lemma stage_state [simp]: "cx_state (enter_stage x y) = cx_state y"
  by (simp add: enter_stage_def)

section \<open>Properties\<close>


section \<open>A concrete run\<close>

definition demo_health_snapshot :: "u64 \<Rightarrow> RuntimeTelemetrySnapshot" where
  "demo_health_snapshot beats =
     telemetry_default
       \<lparr>tm_observed_monotonic_ns := 5, tm_runtime := runtime_state_default\<lparr>rs_started := True, rs_scheduler_running := True\<rparr>,
        tm_communication := communication_default\<lparr>cv_evidence := EvidenceClass.Vcan\<rparr>,
        tm_device := device_default\<lparr>dv_ever_seen := True, dv_online := True, dv_heartbeat_age_ns := 20000000, dv_heartbeats := beats\<rparr>\<rparr>"

definition demo_health_state :: HealthState where
  "demo_health_state = health_init True [demo_health_snapshot 10, demo_health_snapshot 14] []"

text \<open>Start, check, begin of the window, one turn, the end of the window, two checks, and the end of the run.\<close>

definition demo_health_env :: "bool \<Rightarrow> RunEnv" where
  "demo_health_env finish_ok =
     \<lparr>rv_cancels = [], rv_clock = map Inr [0, 1, 2, 3, 4, 500000005, 500000006, 500000007, 500000008] @ (if finish_ok then [Inr 500000009] else []),
      rv_started_wall = None, rv_finished_wall = None\<rparr>"


text \<open>
  When only the last clock reading fails, the result is \<^verbatim>\<open>ERROR\<close>, but its reason is still the summary of
  the passing evaluation: \<^verbatim>\<open>assign_failure_reason\<close> keeps a reason that is already there.
\<close>

lemma finish_clock_keeps_reason:
  "re_outcome r = TestOutcome.Passed \<Longrightarrow> re_reason r \<noteq> [] \<Longrightarrow>
     re_outcome (note_finish (Inl e) r) = TestOutcome.Error \<and> re_reason (note_finish (Inl e) r) = re_reason r"
  by (simp add: note_finish_def assign_failure_reason_def)

lemma finish_clock_example:
  "let r = fst (snd (can_health_run (demo_health_env False) ''run'' can_health_default demo_health_state runner_init))
   in re_outcome r = TestOutcome.Error \<and> re_reason r = ''CAN communication health criteria passed''"
  by code_simp

end
