(* ===== verification/Linux_Fd.thy ===== *)
theory Linux_Fd
  imports Core_Types
begin

text \<open>
  The owners of Linux file descriptors of \<^verbatim>\<open>linux/src/linux/owned_fd.cpp\<close> and
  \<^verbatim>\<open>linux/include/rcr/owned_fd.hpp\<close>: \<open>OwnedFd\<close>, the stop event \<open>EventFd\<close> and the signal descriptor
  \<open>SignalFd\<close>. The kernel side is its table of open descriptors, which gives out the lowest
  free number and therefore reuses a number as soon as it is closed, the counter of an
  event descriptor and the signal mask of each thread. Which calls fail or are
  interrupted is an input. The lemmas show that no sequence of moves, resets and
  releases closes a descriptor twice or leaks one, that a stop request is never lost and
  that the mask of the creating thread comes back.
\<close>

section \<open>The descriptor table\<close>

text \<open>
  \<open>k_stray\<close> counts the calls of \<^verbatim>\<open>close\<close> on a number that is not open. On a live system such a
  call hits whatever descriptor was given that number since.
\<close>

record Kernel =
  k_open :: "int list"
  k_stray :: nat
  k_mask :: "nat \<Rightarrow> nat set"

definition lowest_free :: "int list \<Rightarrow> int" where
  "lowest_free fds = int (hd (filter (\<lambda>n. int n \<notin> set fds) [0..<Suc (length fds)]))"

definition sys_alloc :: "Kernel \<Rightarrow> int \<times> Kernel" where
  "sys_alloc k = (let fd = lowest_free (k_open k) in (fd, k\<lparr>k_open := fd # k_open k\<rparr>))"

definition sys_close :: "int \<Rightarrow> Kernel \<Rightarrow> Kernel" where
  "sys_close fd k =
     (if fd \<in> set (k_open k) then k\<lparr>k_open := remove1 fd (k_open k)\<rparr> else k\<lparr>k_stray := k_stray k + 1\<rparr>)"

definition make_io_error :: "string \<Rightarrow> string \<Rightarrow> Error" where
  "make_io_error prefix strerror = Error Errc.IoError (prefix @ '': '' @ strerror)"

section \<open>OwnedFd\<close>

text \<open>An \<open>OwnedFd\<close> is its \<open>fd_\<close>, minus one when it owns nothing.\<close>

definition ofd_valid :: "int \<Rightarrow> bool" where
  "ofd_valid fd \<longleftrightarrow> fd \<ge> 0"

definition ofd_reset :: "int \<Rightarrow> Kernel \<Rightarrow> int \<times> Kernel" where
  "ofd_reset fd k = (if fd \<ge> 0 then (- 1, sys_close fd k) else (fd, k))"

definition ofd_reset_to :: "int \<Rightarrow> int \<Rightarrow> Kernel \<Rightarrow> int \<times> Kernel" where
  "ofd_reset_to fd this k = (case ofd_reset this k of (_, k) \<Rightarrow> (fd, k))"

definition ofd_release :: "int \<Rightarrow> int \<times> int" where
  "ofd_release fd = (fd, - 1)"

text \<open>Move construction: the new object and what is left of the source.\<close>

definition ofd_move :: "int \<Rightarrow> int \<times> int" where
  "ofd_move other = (other, - 1)"

text \<open>Move assignment from a different object: this object, the source, the kernel.\<close>

definition ofd_move_assign :: "int \<Rightarrow> int \<Rightarrow> Kernel \<Rightarrow> int \<times> int \<times> Kernel" where
  "ofd_move_assign this other k = (case ofd_reset this k of (_, k) \<Rightarrow> (other, - 1, k))"

text \<open>
  A program over such objects. \<open>fw_object\<close> gives the \<open>fd_\<close> of each live object, \<open>fw_loose\<close> the
  numbers that were released and not yet adopted. A step creates, moves, resets, releases
  or destroys.
\<close>

record FdWorld =
  fw_object :: "nat \<Rightarrow> int option"
  fw_loose :: "int list"
  fw_kernel :: Kernel

datatype FdOp = FdCreate nat | FdCreateFails nat | FdMoveConstruct nat nat | FdMoveAssign nat nat
  | FdReset nat | FdRelease nat | FdAdopt nat nat | FdDestroy nat

inductive fd_step :: "FdOp \<Rightarrow> FdWorld \<Rightarrow> FdWorld \<Rightarrow> bool" where
  create: "fw_object w i = None \<Longrightarrow> sys_alloc (fw_kernel w) = (fd, k) \<Longrightarrow>
     fd_step (FdCreate i) w (w\<lparr>fw_object := (fw_object w)(i \<mapsto> fd), fw_kernel := k\<rparr>)"
| create_fails: "fw_object w i = None \<Longrightarrow>
     fd_step (FdCreateFails i) w (w\<lparr>fw_object := (fw_object w)(i \<mapsto> - 1)\<rparr>)"
| move_construct: "fw_object w i = None \<Longrightarrow> fw_object w j = Some fd \<Longrightarrow> ofd_move fd = (this, other) \<Longrightarrow>
     fd_step (FdMoveConstruct i j) w (w\<lparr>fw_object := (fw_object w)(i \<mapsto> this, j \<mapsto> other)\<rparr>)"
| move_assign: "i \<noteq> j \<Longrightarrow> fw_object w i = Some a \<Longrightarrow> fw_object w j = Some b \<Longrightarrow>
     ofd_move_assign a b (fw_kernel w) = (this, other, k) \<Longrightarrow>
     fd_step (FdMoveAssign i j) w (w\<lparr>fw_object := (fw_object w)(i \<mapsto> this, j \<mapsto> other), fw_kernel := k\<rparr>)"
| self_assign: "fw_object w i = Some a \<Longrightarrow> fd_step (FdMoveAssign i i) w w"
| reset: "fw_object w i = Some fd \<Longrightarrow> ofd_reset fd (fw_kernel w) = (this, k) \<Longrightarrow>
     fd_step (FdReset i) w (w\<lparr>fw_object := (fw_object w)(i \<mapsto> this), fw_kernel := k\<rparr>)"
| release: "fw_object w i = Some fd \<Longrightarrow> ofd_release fd = (out, this) \<Longrightarrow>
     fd_step (FdRelease i) w
       (w\<lparr>fw_object := (fw_object w)(i \<mapsto> this), fw_loose := (if out \<ge> 0 then out # fw_loose w else fw_loose w)\<rparr>)"
| adopt: "fw_object w i = Some fd \<Longrightarrow> n < length (fw_loose w) \<Longrightarrow>
     ofd_reset_to (fw_loose w ! n) fd (fw_kernel w) = (this, k) \<Longrightarrow>
     fd_step (FdAdopt i n) w
       (w\<lparr>fw_object := (fw_object w)(i \<mapsto> this), fw_loose := remove1 (fw_loose w ! n) (fw_loose w), fw_kernel := k\<rparr>)"
| destroy: "fw_object w i = Some fd \<Longrightarrow> ofd_reset fd (fw_kernel w) = (this, k) \<Longrightarrow>
     fd_step (FdDestroy i) w (w\<lparr>fw_object := (fw_object w)(i := None), fw_kernel := k\<rparr>)"

inductive fd_run :: "FdOp list \<Rightarrow> FdWorld \<Rightarrow> FdWorld \<Rightarrow> bool" where
  stop: "fd_run [] w w"
| step: "fd_step p w u \<Longrightarrow> fd_run ps u v \<Longrightarrow> fd_run (p # ps) w v"

inductive_cases fd_run_NilE: "fd_run [] w v"
inductive_cases fd_run_ConsE: "fd_run (p # ps) w v"

section \<open>EventFd\<close>

text \<open>
  What one \<^verbatim>\<open>read\<close> or \<^verbatim>\<open>write\<close> meets: an interruption, another error, a short transfer, or the
  kernel's normal answer after other threads have written \<open>n\<close> times. After the listed
  entries the kernel answers normally and no other thread writes.
\<close>

datatype FdCall = CallEintr | CallFails string | CallShort | CallProceeds nat

definition eventfd_max :: u64 where
  "eventfd_max = 0xFFFFFFFFFFFFFFFE"

definition eventfd_add :: "u64 \<Rightarrow> u64" where
  "eventfd_add c = (if c \<ge> eventfd_max then c else c + 1)"

text \<open>
  \<open>EventFd::signal_stop\<close> on the counter of a valid descriptor: a full counter refuses the write
  with \<^verbatim>\<open>EAGAIN\<close>, which the code takes as success.
\<close>

fun signal_stop_loop :: "FdCall list \<Rightarrow> u64 \<Rightarrow> unit Result \<times> u64" where
  "signal_stop_loop [] c = (Inr (), eventfd_add c)"
| "signal_stop_loop (CallEintr # cs) c = signal_stop_loop cs c"
| "signal_stop_loop (CallFails e # cs) c = (Inl (make_io_error ''eventfd write'' e), c)"
| "signal_stop_loop (CallShort # cs) c = (Inl (Error Errc.IoError ''short eventfd write''), c)"
| "signal_stop_loop (CallProceeds n # cs) c = (Inr (), eventfd_add ((eventfd_add ^^ n) c))"

definition EventFd_signal_stop :: "int \<Rightarrow> FdCall list \<Rightarrow> u64 \<Rightarrow> unit Result \<times> u64" where
  "EventFd_signal_stop fd cs c =
     (if \<not> ofd_valid fd then (Inl (Error Errc.NotOpen ''EventFd not open''), c) else signal_stop_loop cs c)"

fun event_drain_loop :: "FdCall list \<Rightarrow> u64 \<Rightarrow> u64 \<Rightarrow> u64 Result \<times> u64" where
  "event_drain_loop [] acc c = (Inr (acc + c), 0)"
| "event_drain_loop (CallEintr # cs) acc c = event_drain_loop cs acc c"
| "event_drain_loop (CallFails e # cs) acc c = (Inl (make_io_error ''eventfd read'' e), c)"
| "event_drain_loop (CallShort # cs) acc c = (Inl (Error Errc.IoError ''short eventfd read''), c)"
| "event_drain_loop (CallProceeds n # cs) acc c =
     (let c = (eventfd_add ^^ n) c in
      if c = 0 then (Inr acc, c) else event_drain_loop cs (acc + c) 0)"

definition EventFd_drain :: "int \<Rightarrow> FdCall list \<Rightarrow> u64 \<Rightarrow> u64 Result \<times> u64" where
  "EventFd_drain fd cs c =
     (if \<not> ofd_valid fd then (Inl (Error Errc.NotOpen ''EventFd not open''), c) else event_drain_loop cs 0 c)"

definition EventFd_create :: "string option \<Rightarrow> Kernel \<Rightarrow> int Result \<times> Kernel" where
  "EventFd_create failure k =
     (case failure of
        Some e \<Rightarrow> (Inl (make_io_error ''eventfd'' e), k)
      | None \<Rightarrow> (case sys_alloc k of (fd, k) \<Rightarrow> (Inr fd, k)))"

section \<open>SignalFd\<close>

record SignalFd =
  sg_fd :: int
  sg_previous_mask :: "nat set"
  sg_owner_thread :: nat
  sg_restore_pending :: bool

definition SignalFd_empty :: SignalFd where
  "SignalFd_empty = \<lparr>sg_fd = - 1, sg_previous_mask = {}, sg_owner_thread = 0, sg_restore_pending = False\<rparr>"

definition shutdown_signals :: "nat set" where
  "shutdown_signals = {2, 15}"

definition set_mask :: "nat \<Rightarrow> nat set \<Rightarrow> Kernel \<Rightarrow> Kernel" where
  "set_mask t m k = k\<lparr>k_mask := (k_mask k)(t := m)\<rparr>"

text \<open>
  Which call of the factory fails, with its error text: the blocking of the signals, the
  creation of the descriptor, the creation and then the restoring of the mask.
\<close>

datatype SignalOutcome = SignalOk | BlockFails string | SignalfdFails string | RestoreFails string

definition block_and_open_shutdown_signals :: "nat \<Rightarrow> SignalOutcome \<Rightarrow> Kernel \<Rightarrow> SignalFd Result \<times> Kernel" where
  "block_and_open_shutdown_signals self outcome k =
     (case outcome of
        BlockFails e \<Rightarrow> (Inl (make_io_error ''pthread_sigmask(SIG_BLOCK)'' e), k)
      | _ \<Rightarrow>
        (let previous_mask = k_mask k self;
             k = set_mask self (previous_mask \<union> shutdown_signals) k
         in case outcome of
              RestoreFails e \<Rightarrow> (Inl (make_io_error ''signalfd failed and restoring signal mask'' e), k)
            | SignalfdFails e \<Rightarrow> (Inl (make_io_error ''signalfd'' e), set_mask self previous_mask k)
            | _ \<Rightarrow> (case sys_alloc k of (fd, k) \<Rightarrow>
                (Inr \<lparr>sg_fd = fd, sg_previous_mask = previous_mask, sg_owner_thread = self, sg_restore_pending = True\<rparr>, k))))"

text \<open>\<open>SignalFd::reset\<close>, also the destructor; the mask call of the destructor ignores its result.\<close>

definition SignalFd_reset :: "nat \<Rightarrow> SignalFd \<Rightarrow> Kernel \<Rightarrow> SignalFd \<times> Kernel" where
  "SignalFd_reset self s k =
     (case ofd_reset (sg_fd s) k of (fd, k) \<Rightarrow>
        (s\<lparr>sg_fd := fd, sg_restore_pending := False\<rparr>,
         if sg_restore_pending s \<and> self = sg_owner_thread s then set_mask self (sg_previous_mask s) k else k))"

definition SignalFd_move :: "SignalFd \<Rightarrow> SignalFd \<times> SignalFd" where
  "SignalFd_move other =
     (case ofd_move (sg_fd other) of (fd, rest) \<Rightarrow>
        (\<lparr>sg_fd = fd, sg_previous_mask = sg_previous_mask other, sg_owner_thread = sg_owner_thread other,
          sg_restore_pending = sg_restore_pending other\<rparr>,
         other\<lparr>sg_fd := rest, sg_restore_pending := False\<rparr>))"

definition SignalFd_move_assign :: "nat \<Rightarrow> SignalFd \<Rightarrow> SignalFd \<Rightarrow> Kernel \<Rightarrow> SignalFd \<times> SignalFd \<times> Kernel" where
  "SignalFd_move_assign self this other k =
     (case SignalFd_reset self this k of (this, k) \<Rightarrow>
      case ofd_move_assign (sg_fd this) (sg_fd other) k of (fd, rest, k) \<Rightarrow>
        (this\<lparr>sg_fd := fd, sg_previous_mask := sg_previous_mask other, sg_owner_thread := sg_owner_thread other,
              sg_restore_pending := sg_restore_pending other\<rparr>,
         other\<lparr>sg_fd := rest, sg_restore_pending := False\<rparr>, k))"

definition SignalFd_close_and_restore :: "nat \<Rightarrow> string option \<Rightarrow> SignalFd \<Rightarrow> Kernel \<Rightarrow> unit Result \<times> SignalFd \<times> Kernel" where
  "SignalFd_close_and_restore self failure s k =
     (case ofd_reset (sg_fd s) k of (fd, k) \<Rightarrow>
        let s = s\<lparr>sg_fd := fd\<rparr> in
        if \<not> sg_restore_pending s then (Inr (), s, k)
        else if self \<noteq> sg_owner_thread s
        then (Inl (Error Errc.Rejected ''SignalFd must restore its mask on the creating thread''), s, k)
        else case failure of
               Some e \<Rightarrow> (Inl (make_io_error ''pthread_sigmask(SIG_SETMASK)'' e), s, k)
             | None \<Rightarrow> (Inr (), s\<lparr>sg_restore_pending := False\<rparr>, set_mask self (sg_previous_mask s) k))"

text \<open>\<open>SignalFd::drain\<close> on the number of pending signals.\<close>

fun signal_drain_loop :: "FdCall list \<Rightarrow> u32 \<Rightarrow> nat \<Rightarrow> u32 Result \<times> nat" where
  "signal_drain_loop [] count pending = (Inr (count + of_nat pending), 0)"
| "signal_drain_loop (CallEintr # cs) count pending = signal_drain_loop cs count pending"
| "signal_drain_loop (CallFails e # cs) count pending = (Inl (make_io_error ''signalfd read'' e), pending)"
| "signal_drain_loop (CallShort # cs) count pending = (Inl (Error Errc.IoError ''short signalfd read''), pending)"
| "signal_drain_loop (CallProceeds n # cs) count pending =
     (if pending + n = 0 then (Inr count, 0) else signal_drain_loop cs (count + 1) (pending + n - 1))"

definition SignalFd_drain :: "SignalFd \<Rightarrow> FdCall list \<Rightarrow> nat \<Rightarrow> u32 Result \<times> nat" where
  "SignalFd_drain s cs pending =
     (if \<not> ofd_valid (sg_fd s) then (Inl (Error Errc.NotOpen ''SignalFd not open''), pending)
      else signal_drain_loop cs 0 pending)"

section \<open>The descriptor table gives fresh numbers\<close>

lemma lowest_free_fresh: "lowest_free fds \<notin> set fds" "0 \<le> lowest_free fds"
proof -
  let ?c = "filter (\<lambda>n. int n \<notin> set fds) [0..<Suc (length fds)]"
  have "?c \<noteq> []"
  proof
    assume "?c = []"
    then have "int ` {0..<Suc (length fds)} \<subseteq> set fds" by (auto simp: filter_empty_conv simp del: upt_Suc)
    then have "card (int ` {0..<Suc (length fds)}) \<le> card (set fds)" by (rule card_mono [OF finite_set])
    then show False using card_length [of fds] by (simp add: card_image)
  qed
  then have "hd ?c \<in> set ?c" by (rule hd_in_set)
  then show "lowest_free fds \<notin> set fds" unfolding lowest_free_def by (simp only: set_filter) blast
  show "0 \<le> lowest_free fds" by (simp add: lowest_free_def)
qed

text \<open>
  The ownership invariant: the open descriptors are those that were open before, the released ones and
  those held by an object, these three groups are disjoint, and no two objects hold the
  same one.
\<close>

definition held :: "FdWorld \<Rightarrow> int set" where
  "held w = {fd. 0 \<le> fd \<and> (\<exists>i. fw_object w i = Some fd)}"

definition fd_inv :: "int set \<Rightarrow> FdWorld \<Rightarrow> bool" where
  "fd_inv ext w \<longleftrightarrow>
     k_stray (fw_kernel w) = 0 \<and> distinct (k_open (fw_kernel w)) \<and> distinct (fw_loose w) \<and>
     set (k_open (fw_kernel w)) = ext \<union> set (fw_loose w) \<union> held w \<and>
     (\<forall>fd \<in> set (fw_loose w). 0 \<le> fd) \<and> ext \<inter> set (fw_loose w) = {} \<and> ext \<inter> held w = {} \<and> set (fw_loose w) \<inter> held w = {} \<and>
     (\<forall>i j fd. fw_object w i = Some fd \<longrightarrow> fw_object w j = Some fd \<longrightarrow> 0 \<le> fd \<longrightarrow> i = j)"

definition vacant :: "FdWorld \<Rightarrow> nat \<Rightarrow> bool" where
  "vacant w i \<longleftrightarrow> (\<forall>fd. fw_object w i = Some fd \<longrightarrow> fd < 0)"

lemma held_update:
  "held (w\<lparr>fw_object := (fw_object w)(i := x)\<rparr>) =
   {fd. 0 \<le> fd \<and> (x = Some fd \<or> (\<exists>j. j \<noteq> i \<and> fw_object w j = Some fd))}"
  by (auto simp: held_def)

lemma held_other_fields [simp]:
  "held (w\<lparr>fw_kernel := k\<rparr>) = held w" "held (w\<lparr>fw_loose := l\<rparr>) = held w"
  by (simp_all add: held_def)

lemma held_vacant: "vacant w i \<Longrightarrow> {fd. 0 \<le> fd \<and> (\<exists>j. j \<noteq> i \<and> fw_object w j = Some fd)} = held w"
  by (auto simp: held_def vacant_def)

lemma held_without:
  assumes "fd_inv ext w" and "fw_object w i = Some fd" and "0 \<le> fd"
  shows "{f. 0 \<le> f \<and> (\<exists>j. j \<noteq> i \<and> fw_object w j = Some f)} = held w - {fd}"
proof -
  have "fw_object w j \<noteq> Some fd" if "j \<noteq> i" for j
    using assms that unfolding fd_inv_def by blast
  moreover have "j \<noteq> i" if "fw_object w j = Some f" "f \<noteq> fd" for j f using that assms(2) by auto
  ultimately show ?thesis unfolding held_def by blast
qed

lemma inv_clear_vacant:
  assumes "fd_inv ext w" and "vacant w i" and "\<And>fd. x = Some fd \<Longrightarrow> fd < 0"
  shows "fd_inv ext (w\<lparr>fw_object := (fw_object w)(i := x)\<rparr>)"
proof -
  have "held (w\<lparr>fw_object := (fw_object w)(i := x)\<rparr>) = held w"
    unfolding held_update using assms(3) held_vacant [OF assms(2)] by auto
  then show ?thesis using assms by (auto simp: fd_inv_def)
qed

lemma inv_drop:
  assumes inv: "fd_inv ext w" and "fw_object w i = Some fd" and x: "\<And>fd. x = Some fd \<Longrightarrow> fd < 0"
  shows "fd_inv ext (w\<lparr>fw_object := (fw_object w)(i := x), fw_kernel := snd (ofd_reset fd (fw_kernel w))\<rparr>)"
proof (cases "0 \<le> fd")
  case True
  then have f: "fd \<in> held w" using assms(2) by (auto simp: held_def)
  have h: "held (w\<lparr>fw_object := (fw_object w)(i := x)\<rparr>) = held w - {fd}"
    unfolding held_update held_without [OF inv assms(2) True, symmetric] using x by auto
  have "fd \<in> set (k_open (fw_kernel w))" "fd \<notin> ext" "fd \<notin> set (fw_loose w)" using inv f by (auto simp: fd_inv_def)
  then show ?thesis using inv x True h
    by (auto simp: fd_inv_def ofd_reset_def sys_close_def)
next
  case False
  then have "vacant w i" using assms(2) by (simp add: vacant_def)
  from inv_clear_vacant [OF inv this x] False show ?thesis by (simp add: ofd_reset_def)
qed

lemma inv_take:
  assumes inv: "fd_inv ext w" and v: "vacant w i" and fd: "0 \<le> fd" "fd \<notin> set (k_open (fw_kernel w))"
  shows "fd_inv ext (w\<lparr>fw_object := (fw_object w)(i \<mapsto> fd),
                       fw_kernel := fw_kernel w\<lparr>k_open := fd # k_open (fw_kernel w)\<rparr>\<rparr>)"
proof -
  have h: "held (w\<lparr>fw_object := (fw_object w)(i \<mapsto> fd)\<rparr>) = insert fd (held w)"
    unfolding held_update using fd(1) held_vacant [OF v] by auto
  have "fd \<notin> held w" "fd \<notin> ext" "fd \<notin> set (fw_loose w)" using inv fd(2) by (auto simp: fd_inv_def)
  then show ?thesis using inv fd h by (auto simp: fd_inv_def held_def)
qed

lemma inv_transfer:
  assumes inv: "fd_inv ext w" and v: "vacant w i" and j: "fw_object w j = Some fd" "i \<noteq> j"
  shows "fd_inv ext (w\<lparr>fw_object := (fw_object w)(i \<mapsto> fd, j \<mapsto> - 1)\<rparr>)"
proof -
  have u: "fw_object w n = Some fd \<Longrightarrow> 0 \<le> fd \<Longrightarrow> n = j" for n using inv j by (auto simp: fd_inv_def)
  have v': "\<And>f. fw_object w i = Some f \<Longrightarrow> f < 0" using v by (simp add: vacant_def)
  have h: "held (w\<lparr>fw_object := (fw_object w)(i \<mapsto> fd, j \<mapsto> - 1)\<rparr>) = held w"
    using u v' j by (auto simp: held_def) (metis linorder_not_less option.inject)+
  then show ?thesis using inv u j by (auto simp: fd_inv_def)
qed

lemma inv_release:
  assumes inv: "fd_inv ext w" and j: "fw_object w i = Some fd"
  shows "fd_inv ext (w\<lparr>fw_object := (fw_object w)(i \<mapsto> - 1),
                       fw_loose := (if 0 \<le> fd then fd # fw_loose w else fw_loose w)\<rparr>)"
proof (cases "0 \<le> fd")
  case True
  then have f: "fd \<in> held w" using j by (auto simp: held_def)
  have h: "held (w\<lparr>fw_object := (fw_object w)(i \<mapsto> - 1)\<rparr>) = held w - {fd}"
    unfolding held_update held_without [OF inv j True, symmetric] by auto
  show ?thesis using inv True h f by (auto simp: fd_inv_def)
next
  case False
  then have "vacant w i" using j by (simp add: vacant_def)
  from inv_clear_vacant [OF inv this, of "Some (- 1)"] False show ?thesis by simp
qed

lemma inv_adopt:
  assumes inv: "fd_inv ext w" and v: "vacant w i" and fd: "fd \<in> set (fw_loose w)" "0 \<le> fd"
  shows "fd_inv ext (w\<lparr>fw_object := (fw_object w)(i \<mapsto> fd), fw_loose := remove1 fd (fw_loose w)\<rparr>)"
proof -
  have h: "held (w\<lparr>fw_object := (fw_object w)(i \<mapsto> fd)\<rparr>) = insert fd (held w)"
    unfolding held_update using fd(2) held_vacant [OF v] by auto
  have "fd \<notin> held w" using inv fd by (auto simp: fd_inv_def)
  then show ?thesis using inv fd h by (auto simp: fd_inv_def held_def)
qed

lemma fw_swap:
  "w\<lparr>fw_kernel := k, fw_object := f\<rparr> = w\<lparr>fw_object := f, fw_kernel := k\<rparr>"
  "w\<lparr>fw_kernel := k, fw_loose := l\<rparr> = w\<lparr>fw_loose := l, fw_kernel := k\<rparr>"
  by simp_all

lemma fd_inv_step: "fd_step p w v \<Longrightarrow> fd_inv ext w \<Longrightarrow> fd_inv ext v"
proof (induction rule: fd_step.induct)
  case (create w i fd k)
  then show ?case
    using inv_take [of ext w i "lowest_free (k_open (fw_kernel w))"] lowest_free_fresh
    by (auto simp: sys_alloc_def Let_def vacant_def)
next
  case (create_fails w i)
  then show ?case using inv_clear_vacant [of ext w i "Some (- 1)"] by (simp add: vacant_def)
next
  case (move_construct w i j fd this other)
  moreover from this have "i \<noteq> j" by auto
  ultimately show ?case using inv_transfer [of ext w i j fd] by (auto simp: ofd_move_def vacant_def)
next
  case (move_assign i j w a b this other k)
  let ?w = "w\<lparr>fw_object := (fw_object w)(i \<mapsto> - 1), fw_kernel := snd (ofd_reset a (fw_kernel w))\<rparr>"
  have "fd_inv ext ?w" using inv_drop [OF move_assign.prems move_assign.hyps(2), of "Some (- 1)"] by simp
  from inv_transfer [OF this, of i j b] move_assign.hyps show ?case
    by (auto simp: ofd_move_assign_def vacant_def fw_swap split: prod.splits)
next
  case (reset w i fd this k)
  then show ?case using inv_drop [of ext w i fd "Some this"]
    by (cases "0 \<le> fd") (auto simp: ofd_reset_def)
next
  case (release w i fd out this)
  then show ?case using inv_release [of ext w i fd] by (auto simp: ofd_release_def)
next
  case (adopt w i fd n this k)
  let ?w = "w\<lparr>fw_object := (fw_object w)(i \<mapsto> - 1), fw_kernel := snd (ofd_reset fd (fw_kernel w))\<rparr>"
  have "fd_inv ext ?w" using inv_drop [OF adopt.prems adopt.hyps(1), of "Some (- 1)"] by simp
  moreover have "fw_loose w ! n \<in> set (fw_loose w)" using adopt.hyps(2) by simp
  moreover from this have "0 \<le> fw_loose w ! n" using adopt.prems by (simp add: fd_inv_def)
  ultimately show ?case using inv_adopt [of ext ?w i "fw_loose w ! n"] adopt.hyps(3)
    by (auto simp: ofd_reset_to_def vacant_def fw_swap split: prod.splits)
next
  case (destroy w i fd this k)
  then show ?case using inv_drop [of ext w i fd None] by simp
qed simp

lemma fd_inv_run: "fd_run ps w v \<Longrightarrow> fd_inv ext w \<Longrightarrow> fd_inv ext v"
  by (induction rule: fd_run.induct) (auto intro: fd_inv_step)

lemma fd_inv_start:
  "fw_object w = Map.empty \<Longrightarrow> fw_loose w = [] \<Longrightarrow> k_stray (fw_kernel w) = 0 \<Longrightarrow> distinct (k_open (fw_kernel w)) \<Longrightarrow>
   fd_inv (set (k_open (fw_kernel w))) w"
  by (simp add: fd_inv_def held_def)

lemma fd_inv_owner:
  assumes "fd_inv ext w" and "fd \<in> set (k_open (fw_kernel w))" and "fd \<notin> ext" and "fd \<notin> set (fw_loose w)"
  shows "\<exists>!i. fw_object w i = Some fd"
proof -
  have "fd \<in> held w" using assms by (auto simp: fd_inv_def)
  then obtain i where "fw_object w i = Some fd" "0 \<le> fd" by (auto simp: held_def)
  with assms(1) show ?thesis unfolding fd_inv_def by blast
qed

section \<open>Descriptor ownership\<close>

text \<open>
  C37. Take any program that creates, moves, resets, releases, adopts and destroys owners of
  descriptors, from a start with no owner. However the kernel reuses numbers, no step
  closes a number that is not open and none of the descriptors open at the start is closed. Every owner's valid
  descriptor is open, and every other open descriptor that was not released has exactly one owner. When all owners are
  gone and nothing is left released, exactly the descriptors of the start are open.
\<close>

theorem descriptor_ownership:
  assumes "fd_run ops w v" and "fw_object w = Map.empty" and "fw_loose w = []"
    and "k_stray (fw_kernel w) = 0" and "distinct (k_open (fw_kernel w))"
  shows "k_stray (fw_kernel v) = 0 \<and> set (k_open (fw_kernel w)) \<subseteq> set (k_open (fw_kernel v)) \<and>
    (\<forall>i fd. fw_object v i = Some fd \<longrightarrow> ofd_valid fd \<longrightarrow>
       fd \<in> set (k_open (fw_kernel v)) - set (k_open (fw_kernel w)) - set (fw_loose v)) \<and>
    (\<forall>fd \<in> set (k_open (fw_kernel v)) - set (k_open (fw_kernel w)) - set (fw_loose v). \<exists>!i. fw_object v i = Some fd) \<and>
    (fw_object v = Map.empty \<longrightarrow> fw_loose v = [] \<longrightarrow> set (k_open (fw_kernel v)) = set (k_open (fw_kernel w)))"
proof -
  have inv: "fd_inv (set (k_open (fw_kernel w))) v" by (rule fd_inv_run [OF assms(1) fd_inv_start [OF assms(2-5)]])
  have "fd \<in> held v" if "fw_object v i = Some fd" "ofd_valid fd" for i fd
    using that by (auto simp: held_def ofd_valid_def)
  then have "\<forall>i fd. fw_object v i = Some fd \<longrightarrow> ofd_valid fd \<longrightarrow>
      fd \<in> set (k_open (fw_kernel v)) - set (k_open (fw_kernel w)) - set (fw_loose v)"
    using inv unfolding fd_inv_def by blast
  moreover have "\<forall>fd \<in> set (k_open (fw_kernel v)) - set (k_open (fw_kernel w)) - set (fw_loose v). \<exists>!i. fw_object v i = Some fd"
    using fd_inv_owner [OF inv] by blast
  moreover have "set (k_open (fw_kernel v)) = set (k_open (fw_kernel w))" if "fw_object v = Map.empty" "fw_loose v = []"
    using inv that by (simp add: fd_inv_def held_def)
  ultimately show ?thesis using inv by (auto simp: fd_inv_def)
qed

text \<open>
  An owner takes descriptor 3, a second one is created, moved over the first (which closes 3) and destroyed; a
  third owner gets the number 3 again.
\<close>

definition fd_start :: FdWorld where
  "fd_start = \<lparr>fw_object = Map.empty, fw_loose = [], fw_kernel = \<lparr>k_open = [2, 1, 0], k_stray = 0, k_mask = (\<lambda>_. {})\<rparr>\<rparr>"

lemma fd_run_example:
  "\<exists>v. fd_run [FdCreate 0, FdCreate 1, FdMoveAssign 0 1, FdDestroy 1, FdCreate 2] fd_start v \<and>
       k_open (fw_kernel v) = [3, 4, 2, 1, 0] \<and> fw_loose v = []"
proof -
  let ?k = "\<lambda>fds. \<lparr>k_open = fds, k_stray = 0, k_mask = (\<lambda>_. {})\<rparr>"
  let ?w = "\<lambda>obj fds. \<lparr>fw_object = obj, fw_loose = [], fw_kernel = ?k fds\<rparr>"
  have 1: "fd_step (FdCreate 0) fd_start (?w [0 \<mapsto> 3] [3, 2, 1, 0])"
    using fd_step.create [of fd_start 0] by (simp add: fd_start_def sys_alloc_def lowest_free_def)
  have 2: "fd_step (FdCreate 1) (?w [0 \<mapsto> 3] [3, 2, 1, 0]) (?w [0 \<mapsto> 3, 1 \<mapsto> 4] [4, 3, 2, 1, 0])"
    using fd_step.create [of "?w [0 \<mapsto> 3] [3, 2, 1, 0]" 1] by (simp add: sys_alloc_def lowest_free_def)
  have 3: "fd_step (FdMoveAssign 0 1) (?w [0 \<mapsto> 3, 1 \<mapsto> 4] [4, 3, 2, 1, 0]) (?w [0 \<mapsto> 4, 1 \<mapsto> - 1] [4, 2, 1, 0])"
    using fd_step.move_assign [of 0 1 "?w [0 \<mapsto> 3, 1 \<mapsto> 4] [4, 3, 2, 1, 0]" 3 4]
    by (simp add: ofd_move_assign_def ofd_reset_def sys_close_def fun_upd_twist)
  have 4: "fd_step (FdDestroy 1) (?w [0 \<mapsto> 4, 1 \<mapsto> - 1] [4, 2, 1, 0]) (?w [0 \<mapsto> 4] [4, 2, 1, 0])"
    using fd_step.destroy [of "?w [0 \<mapsto> 4, 1 \<mapsto> - 1] [4, 2, 1, 0]" 1 "- 1"] by (simp add: ofd_reset_def)
  have 5: "fd_step (FdCreate 2) (?w [0 \<mapsto> 4] [4, 2, 1, 0]) (?w [0 \<mapsto> 4, 2 \<mapsto> 3] [3, 4, 2, 1, 0])"
    using fd_step.create [of "?w [0 \<mapsto> 4] [4, 2, 1, 0]" 2] by (simp add: sys_alloc_def lowest_free_def)
  have "fd_run [FdCreate 0, FdCreate 1, FdMoveAssign 0 1, FdDestroy 1, FdCreate 2] fd_start (?w [0 \<mapsto> 4, 2 \<mapsto> 3] [3, 4, 2, 1, 0])"
    by (rule fd_run.step [OF 1 fd_run.step [OF 2 fd_run.step [OF 3 fd_run.step [OF 4 fd_run.step [OF 5 fd_run.stop]]]]])
  then show ?thesis by (intro exI conjI) (assumption, simp_all)
qed

theorem descriptor_ownership_witness:
  "\<exists>v. fd_run [FdCreate 0, FdCreate 1, FdMoveAssign 0 1, FdDestroy 1, FdCreate 2] fd_start v \<and>
       k_open (fw_kernel v) = [3, 4, 2, 1, 0] \<and> k_stray (fw_kernel v) = 0 \<and> (\<exists>!i. fw_object v i = Some 3)"
proof -
  obtain v where r: "fd_run [FdCreate 0, FdCreate 1, FdMoveAssign 0 1, FdDestroy 1, FdCreate 2] fd_start v"
    and k: "k_open (fw_kernel v) = [3, 4, 2, 1, 0]" and l: "fw_loose v = []"
    using fd_run_example by blast
  have "k_stray (fw_kernel v) = 0" "\<forall>fd \<in> {3, 4}. \<exists>!i. fw_object v i = Some fd"
    using descriptor_ownership [OF r] k l by (simp_all add: fd_start_def)
  with r k show ?thesis by blast
qed

section \<open>Stop requests\<close>

lemma eventfd_add_nat: "unat c \<le> unat eventfd_max \<Longrightarrow> unat (eventfd_add c) = min (unat c + 1) (unat eventfd_max)"
proof -
  assume "unat c \<le> unat eventfd_max"
  then consider "c = eventfd_max" | "c < eventfd_max" by (metis le_neq_trans word_le_nat_alt)
  then show ?thesis
  proof cases
    case 2
    then have "c + 1 \<noteq> 0" by (auto simp: eventfd_max_def simp flip: eq_neg_iff_add_eq_0)
    then have "unat (c + 1) = unat c + 1" by (metis unatSuc add.commute Suc_eq_plus1)
    then show ?thesis using 2 by (simp add: eventfd_add_def word_le_nat_alt word_less_nat_alt)
  qed (simp add: eventfd_add_def)
qed

lemma eventfd_add_nonzero: "unat c \<le> unat eventfd_max \<Longrightarrow> eventfd_add c \<noteq> 0"
  using eventfd_add_nat [of c] by (auto simp: eventfd_max_def)

lemma eventfd_adds_nat:
  "unat c \<le> unat eventfd_max \<Longrightarrow> unat ((eventfd_add ^^ n) c) = min (unat c + n) (unat eventfd_max)"
  by (induction n) (simp_all add: eventfd_add_nat)

lemma signal_stop_interrupted: "set cs \<subseteq> {CallEintr} \<Longrightarrow> signal_stop_loop cs c = (Inr (), eventfd_add c)"
  by (induction cs c rule: signal_stop_loop.induct) auto

text \<open>The number of writes of other threads that a script of calls contains.\<close>

fun writes_of :: "FdCall list \<Rightarrow> nat" where
  "writes_of [] = 0"
| "writes_of (CallProceeds n # cs) = n + writes_of cs"
| "writes_of (_ # cs) = writes_of cs"

fun undisturbed :: "FdCall \<Rightarrow> bool" where
  "undisturbed CallEintr \<longleftrightarrow> True"
| "undisturbed (CallProceeds n) \<longleftrightarrow> True"
| "undisturbed _ \<longleftrightarrow> False"

lemma event_drain_counts:
  assumes "\<forall>c \<in> set cs. undisturbed c" and "unat acc + unat c + writes_of cs \<le> unat eventfd_max"
  shows "\<exists>v. event_drain_loop cs acc c = (Inr v, 0) \<and> unat acc + unat c \<le> unat v \<and>
             unat v \<le> unat acc + unat c + writes_of cs"
  using assms
proof (induction cs acc c rule: event_drain_loop.induct)
  case (1 acc c)
  then have "unat (acc + c) = unat acc + unat c" by (intro unat_add_lem [THEN iffD1]) (simp add: eventfd_max_def)
  then show ?case by simp
next
  case (5 n cs acc c)
  let ?c = "(eventfd_add ^^ n) c"
  have c: "unat ?c = unat c + n" using 5(3) by (subst eventfd_adds_nat) auto
  show ?case
  proof (cases "?c = 0")
    case True
    then show ?thesis using c by simp
  next
    case False
    have s: "unat (acc + ?c) = unat acc + (unat c + n)"
      using 5(3) c by (subst unat_add_lem [THEN iffD1]) (auto simp: eventfd_max_def)
    with 5(1) [OF refl False] 5(2,3) False show ?thesis by (auto simp: Let_def)
  qed
qed auto


lemma stops_accumulate:
  "0 \<le> fd \<Longrightarrow> \<forall>cs \<in> set calls. set cs \<subseteq> {CallEintr} \<Longrightarrow>
   foldl (\<lambda>c cs. snd (EventFd_signal_stop fd cs c)) c calls = (eventfd_add ^^ length calls) c"
  by (induction calls arbitrary: c)
     (simp_all add: EventFd_signal_stop_def ofd_valid_def signal_stop_interrupted funpow_swap1)

text \<open>
  C38. A stop request is never lost. However often each \<open>signal_stop\<close> is interrupted, it reports
  success, and after the calls the descriptor is readable, so the waiting loop wakes. A
  later \<open>drain\<close>, interrupted or racing with further requests, returns at least the number of
  these requests, at most one more for each racing write, and leaves the counter at zero.
\<close>

theorem stop_never_lost:
  assumes "ofd_valid fd" and "calls \<noteq> []" and "\<forall>cs \<in> set calls. set cs \<subseteq> {CallEintr}"
    and "\<forall>d \<in> set ds. undisturbed d" and "length calls + writes_of ds \<le> unat eventfd_max"
  defines "stopped \<equiv> foldl (\<lambda>c cs. snd (EventFd_signal_stop fd cs c)) 0 calls"
  shows "(\<forall>cs \<in> set calls. \<forall>c. fst (EventFd_signal_stop fd cs c) = Inr ()) \<and> stopped \<noteq> 0 \<and>
    (\<exists>v. EventFd_drain fd ds stopped = (Inr v, 0) \<and> length calls \<le> unat v \<and> unat v \<le> length calls + writes_of ds)"
proof -
  have "unat stopped = length calls"
    using assms(1,3,5) unfolding stopped_def by (simp add: stops_accumulate ofd_valid_def eventfd_adds_nat)
  moreover from this assms(2) have "stopped \<noteq> 0" by auto
  moreover have "\<forall>cs \<in> set calls. \<forall>c. fst (EventFd_signal_stop fd cs c) = Inr ()"
    using assms(1,3) by (simp add: EventFd_signal_stop_def signal_stop_interrupted)
  ultimately show ?thesis using event_drain_counts [of ds 0 stopped] assms(1,4,5) by (simp add: EventFd_drain_def)
qed

theorem stop_never_lost_witness:
  "\<exists>v. EventFd_drain 5 [CallEintr, CallProceeds 1] (foldl (\<lambda>c cs. snd (EventFd_signal_stop 5 cs c)) 0 [[CallEintr], []]) = (Inr v, 0) \<and>
       2 \<le> unat v \<and> unat v \<le> 3"
proof -
  have "length [[CallEintr], []] + writes_of [CallEintr, CallProceeds 1] \<le> unat eventfd_max" by (simp add: eventfd_max_def)
  from stop_never_lost [OF _ _ _ _ this, of 5] show ?thesis by (simp add: ofd_valid_def numeral_2_eq_2 numeral_3_eq_3)
qed

text \<open>A full counter refuses the write, the request still counts as made and the descriptor stays readable.\<close>

lemma full_counter_accepts:
  "ofd_valid fd \<Longrightarrow> EventFd_signal_stop fd [] eventfd_max = (Inr (), eventfd_max) \<and> eventfd_max \<noteq> 0"
  by (simp add: EventFd_signal_stop_def eventfd_add_def eventfd_max_def)

lemma signal_drain_counts:
  "\<forall>c \<in> set cs. undisturbed c \<Longrightarrow>
   \<exists>v m. signal_drain_loop cs count pending = (Inr v, 0) \<and> v = count + of_nat m \<and> pending \<le> m \<and> m \<le> pending + writes_of cs"
proof (induction cs count pending rule: signal_drain_loop.induct)
  case (5 n cs count pending)
  show ?case
  proof (cases "pending + n = 0")
    case False
    with 5 obtain v m where "signal_drain_loop cs (count + 1) (pending + n - 1) = (Inr v, 0)"
      "v = count + 1 + of_nat m" "pending + n - 1 \<le> m" "m \<le> pending + n - 1 + writes_of cs" by auto
    with False show ?thesis by (intro exI [of _ v] exI [of _ "Suc m"]) (auto simp: add.assoc)
  qed (auto intro!: exI [of _ 0])
qed auto

section \<open>The signal mask\<close>

lemma sys_alloc_props:
  "sys_alloc k = (fd, k1) \<Longrightarrow> 0 \<le> fd \<and> fd \<notin> set (k_open k) \<and> k_open k1 = fd # k_open k \<and> k_stray k1 = k_stray k \<and> k_mask k1 = k_mask k"
  using lowest_free_fresh [of "k_open k"] by (auto simp: sys_alloc_def Let_def)

lemma sys_close_mask [simp]: "k_mask (sys_close fd k) = k_mask k"
  by (simp add: sys_close_def)

lemma set_mask_simps [simp]:
  "k_open (set_mask t m k) = k_open k" "k_stray (set_mask t m k) = k_stray k" "k_mask (set_mask t m k) = (k_mask k)(t := m)"
  by (simp_all add: set_mask_def)

text \<open>A factory that fails leaves the kernel as it was, unless restoring the mask fails too.\<close>

lemma signal_open_fails:
  "block_and_open_shutdown_signals self outcome k = (Inl e, k1) \<Longrightarrow> (\<And>t. outcome \<noteq> RestoreFails t) \<Longrightarrow> k1 = k"
  by (cases outcome) (auto simp: block_and_open_shutdown_signals_def Let_def set_mask_def split: prod.splits)

lemma signal_open_ok:
  assumes "block_and_open_shutdown_signals self outcome k = (Inr s, k1)"
  shows "s = \<lparr>sg_fd = sg_fd s, sg_previous_mask = k_mask k self, sg_owner_thread = self, sg_restore_pending = True\<rparr> \<and>
         ofd_valid (sg_fd s) \<and> sg_fd s \<notin> set (k_open k) \<and> k_open k1 = sg_fd s # k_open k \<and> k_stray k1 = k_stray k \<and>
         k_mask k1 = (k_mask k)(self := k_mask k self \<union> shutdown_signals)"
  using assms by (cases outcome)
    (auto simp: block_and_open_shutdown_signals_def Let_def ofd_valid_def split: prod.splits dest!: sys_alloc_props)

text \<open>A move hands over everything, and its source has nothing left to undo.\<close>

lemma signal_moved [simp]: "fst (SignalFd_move s) = s"
  by (simp add: SignalFd_move_def ofd_move_def)

lemma signal_source_inert: "snd (SignalFd_reset t (snd (SignalFd_move s)) k) = k"
  by (simp add: SignalFd_move_def ofd_move_def SignalFd_reset_def ofd_reset_def)

lemma signal_move_assign_empty:
  "SignalFd_move_assign t SignalFd_empty s k = (s, s\<lparr>sg_fd := - 1, sg_restore_pending := False\<rparr>, k)"
  by (simp add: SignalFd_move_assign_def SignalFd_empty_def SignalFd_reset_def ofd_reset_def ofd_move_assign_def)

text \<open>
  The signal mask comes back. After the factory succeeded on a thread, the shutdown
  signals are blocked there. When the object, moved or not, is destroyed on that thread,
  the thread has the mask it had before, the masks of the other threads are as the
  program left them, and the descriptor is closed. On another thread \<open>close_and_restore\<close> closes the
  descriptor, refuses with \<open>Rejected\<close> without touching any mask, and a later call on the creating thread still restores.
\<close>

theorem signal_mask_restored:
  assumes "block_and_open_shutdown_signals self outcome k = (Inr s, k1)"
    and "sg_fd s \<in> set (k_open k2)" and "other \<noteq> self"
  shows "shutdown_signals \<subseteq> k_mask k1 self \<and>
    (case SignalFd_reset self (fst (SignalFd_move s)) k2 of (_, k3) \<Rightarrow>
       k_mask k3 = (k_mask k2)(self := k_mask k self) \<and> k_open k3 = remove1 (sg_fd s) (k_open k2) \<and> k_stray k3 = k_stray k2) \<and>
    (case SignalFd_close_and_restore other None s k2 of (r, s3, k3) \<Rightarrow>
       r = Inl (Error Errc.Rejected ''SignalFd must restore its mask on the creating thread'') \<and>
       k_mask k3 = k_mask k2 \<and> k_open k3 = remove1 (sg_fd s) (k_open k2) \<and>
       (case SignalFd_close_and_restore self None s3 k3 of (r, s4, k4) \<Rightarrow>
          r = Inr () \<and> \<not> sg_restore_pending s4 \<and> k_mask k4 = (k_mask k2)(self := k_mask k self) \<and> k_open k4 = k_open k3))"
proof -
  note o = signal_open_ok [OF assms(1)]
  then have s: "sg_restore_pending s" "sg_owner_thread s = self" "sg_previous_mask s = k_mask k self" "0 \<le> sg_fd s"
    by (metis SignalFd.select_convs ofd_valid_def)+
  show ?thesis
    using o s assms(2,3) by (simp add: SignalFd_reset_def SignalFd_close_and_restore_def ofd_reset_def sys_close_def)
qed

theorem signal_mask_restored_witness:
  "\<exists>s k1. block_and_open_shutdown_signals 7 SignalOk (fw_kernel fd_start) = (Inr s, k1) \<and> k_mask k1 7 = {2, 15} \<and>
     k_mask (snd (SignalFd_reset 7 s k1)) 7 = {} \<and> k_open (snd (SignalFd_reset 7 s k1)) = [2, 1, 0]"
proof -
  obtain s k1 where b: "block_and_open_shutdown_signals 7 SignalOk (fw_kernel fd_start) = (Inr s, k1)"
    by (simp add: block_and_open_shutdown_signals_def Let_def sys_alloc_def)
  note o = signal_open_ok [OF b]
  have "k_mask k1 7 = {2, 15}" "k_open k1 = sg_fd s # [2, 1, 0]" using o by (simp_all add: fd_start_def shutdown_signals_def)
  with signal_mask_restored [OF b, of k1 8] b show ?thesis
    by (intro exI [of _ s] exI [of _ k1]) (simp add: fd_start_def split: prod.splits)
qed

end
