(* ===== verification/Socket_Can.thy ===== *)
theory Socket_Can
  imports Linux_Fd Can_Io Cli_Text
begin

text \<open>
  The CAN sockets of \<^verbatim>\<open>linux/src/linux/socketcan.cpp\<close> (\<open>SocketCan\<close> over a raw kernel socket and the in-memory
  \<open>FakeCanBus\<close>), the epoll wrapper of \<^verbatim>\<open>linux/src/linux/epoll_reactor.cpp\<close> and the interface probe of
  \<^verbatim>\<open>linux/src/linux/vcan.cpp\<close>. What each system call answers is an input. The locale \<open>can_bus\<close> states the
  contract of \<open>ICanBus\<close> that both buses keep, the locale \<open>fd_handle\<close> the ownership of a descriptor that
  every handle class keeps. The lemmas show that a CAN V1 frame crosses the socket unchanged,
  that a failed \<open>open\<close> leaks nothing and that the probe never leaves its directory.
\<close>

section \<open>SocketCan\<close>

record kernel_can_frame =
  kf_can_id :: u32
  kf_can_dlc :: u8
  kf_data :: "u8 list"

text \<open>\<^verbatim>\<open>memcpy\<close> of the first \<open>n\<close> bytes into a zeroed array of eight.\<close>

definition copy_payload :: "u8 \<Rightarrow> u8 list \<Rightarrow> u8 list" where
  "copy_payload n bytes = take (unat n) bytes @ replicate (8 - unat n) 0"

definition to_kernel_frame :: "CanFrame \<Rightarrow> kernel_can_frame" where
  "to_kernel_frame frame =
     (let dlc = (if can_len frame > 8 then 8 else can_len frame) in
      \<lparr>kf_can_id = can_id frame, kf_can_dlc = dlc, kf_data = copy_payload dlc (can_data frame)\<rparr>)"

definition from_kernel_frame :: "kernel_can_frame \<Rightarrow> CanFrame" where
  "from_kernel_frame frame =
     (let len = (if kf_can_dlc frame > 8 then 8 else kf_can_dlc frame) in
      \<lparr>can_id = kf_can_id frame, can_len = len, can_data = copy_payload len (kf_data frame)\<rparr>)"

record SocketCan =
  so_ifname :: string
  so_fd :: int

definition SocketCan_init :: "string \<Rightarrow> SocketCan" where
  "SocketCan_init name = \<lparr>so_ifname = name, so_fd = - 1\<rparr>"

definition SocketCan_is_open :: "SocketCan \<Rightarrow> bool" where
  "SocketCan_is_open s \<longleftrightarrow> so_fd s \<ge> 0"

definition SocketCan_close :: "SocketCan \<Rightarrow> Kernel \<Rightarrow> SocketCan \<times> Kernel" where
  "SocketCan_close s k = (if so_fd s \<ge> 0 then (s\<lparr>so_fd := - 1\<rparr>, sys_close (so_fd s) k) else (s, k))"

text \<open>The name of a moved-from string is unspecified; the model leaves it empty.\<close>

definition SocketCan_move :: "SocketCan \<Rightarrow> SocketCan \<times> SocketCan" where
  "SocketCan_move other = (\<lparr>so_ifname = so_ifname other, so_fd = so_fd other\<rparr>, \<lparr>so_ifname = [], so_fd = - 1\<rparr>)"

definition SocketCan_move_assign :: "SocketCan \<Rightarrow> SocketCan \<Rightarrow> Kernel \<Rightarrow> SocketCan \<times> SocketCan \<times> Kernel" where
  "SocketCan_move_assign this other k =
     (case SocketCan_close this k of (this, k) \<Rightarrow>
        (this\<lparr>so_ifname := so_ifname other, so_fd := so_fd other\<rparr>, \<lparr>so_ifname = [], so_fd = - 1\<rparr>, k))"

datatype SocketOutcome = SocketOk | SocketFails string | IfindexFails string | BindFails string

definition SocketCan_open :: "SocketOutcome \<Rightarrow> SocketCan \<Rightarrow> Kernel \<Rightarrow> unit Result \<times> SocketCan \<times> Kernel" where
  "SocketCan_open outcome s k =
     (if so_ifname s = [] then (Inl (Error.Error Errc.InvalidArgument ''empty CAN interface name''), s, k)
      else if SocketCan_is_open s then (Inr (), s, k)
      else case outcome of
        SocketFails e \<Rightarrow> (Inl (make_io_error ''socket(PF_CAN)'' e), s, k)
      | _ \<Rightarrow>
        (case sys_alloc k of (fd, k) \<Rightarrow>
           case outcome of
             IfindexFails e \<Rightarrow> (Inl (make_io_error ''ioctl(SIOCGIFINDEX)'' e), s, sys_close fd k)
           | BindFails e \<Rightarrow> (Inl (make_io_error ''bind'' e), s, sys_close fd k)
           | _ \<Rightarrow> (Inr (), s\<lparr>so_fd := fd\<rparr>, k)))"

text \<open>\<open>set_nonblocking\<close> on the status flags of the descriptor; \<open>O_NONBLOCK\<close> is bit 11 on Linux.\<close>

datatype FcntlOutcome = FcntlOk | GetFlagsFails string | SetFlagsFails string

definition O_NONBLOCK :: u32 where
  "O_NONBLOCK = 0x800"

definition SocketCan_set_nonblocking :: "bool \<Rightarrow> FcntlOutcome \<Rightarrow> SocketCan \<Rightarrow> u32 \<Rightarrow> unit Result \<times> u32" where
  "SocketCan_set_nonblocking enabled outcome s status =
     (if \<not> SocketCan_is_open s then (Inl (Error.Error Errc.NotOpen ''SocketCan not open''), status)
      else case outcome of
        GetFlagsFails e \<Rightarrow> (Inl (make_io_error ''fcntl(F_GETFL)'' e), status)
      | _ \<Rightarrow>
        (let flags = (if enabled then status OR O_NONBLOCK else status AND NOT O_NONBLOCK) in
         case outcome of
           SetFlagsFails e \<Rightarrow> (Inl (make_io_error ''fcntl(F_SETFL)'' e), status)
         | _ \<Rightarrow> (Inr (), flags)))"

text \<open>What \<^verbatim>\<open>write\<close> answers; with \<open>WriteDone n\<close> it took \<open>n\<close> of the sixteen bytes of the frame.\<close>

datatype CanWrite = WriteDone nat | WriteAgain | WriteError string

text \<open>The result of \<open>send\<close> and the frame given to the kernel, if \<^verbatim>\<open>write\<close> was reached.\<close>

definition SocketCan_send :: "CanWrite \<Rightarrow> CanFrame \<Rightarrow> SocketCan \<Rightarrow> unit Result \<times> kernel_can_frame option" where
  "SocketCan_send answer frame s =
     (if \<not> SocketCan_is_open s then (Inl (Error.Error Errc.NotOpen ''SocketCan not open''), None)
      else if can_len frame > 8 then (Inl (Error.Error Errc.InvalidArgument ''CAN frame length > 8''), None)
      else
        let kframe = to_kernel_frame frame in
        (case answer of
           WriteAgain \<Rightarrow> Inl (Error.Error Errc.WouldBlock ''send would block'')
         | WriteError e \<Rightarrow> Inl (make_io_error ''write'' e)
         | WriteDone n \<Rightarrow> if n \<noteq> 16 then Inl (Error.Error Errc.IoError ''short CAN write'') else Inr (),
         Some kframe))"

datatype CanSelect = SelectReady | SelectNone | SelectError string
datatype CanRead = ReadFrame kernel_can_frame | ReadShort nat | ReadAgain | ReadError string

definition SocketCan_receive :: "int \<Rightarrow> CanSelect \<Rightarrow> CanRead \<Rightarrow> SocketCan \<Rightarrow> CanFrame Result" where
  "SocketCan_receive timeout_ms selected answer s =
     (if \<not> SocketCan_is_open s then Inl (Error.Error Errc.NotOpen ''SocketCan not open'')
      else
        let read = (case answer of
              ReadAgain \<Rightarrow> Inl (Error.Error Errc.WouldBlock ''receive would block'')
            | ReadError e \<Rightarrow> Inl (make_io_error ''read'' e)
            | ReadShort n \<Rightarrow> Inl (Error.Error Errc.IoError ''short CAN read'')
            | ReadFrame kframe \<Rightarrow> Inr (from_kernel_frame kframe))
        in if timeout_ms \<ge> 0
           then (case selected of
                   SelectError e \<Rightarrow> Inl (make_io_error ''select'' e)
                 | SelectNone \<Rightarrow> Inl (Error.Error Errc.Timeout ''receive timeout'')
                 | SelectReady \<Rightarrow> read)
           else read)"

text \<open>The \<^verbatim>\<open>timeval\<close> of \<open>select\<close>: seconds and microseconds of a non-negative time-out.\<close>

definition select_timeval :: "int \<Rightarrow> int \<times> int" where
  "select_timeval timeout_ms = (timeout_ms div 1000, (timeout_ms mod 1000) * 1000)"

section \<open>FakeCanBus\<close>

record FakeCanBus =
  fb_ifname :: string
  fb_open :: bool
  fb_rx_queue :: "CanFrame list"

definition FakeCanBus_init :: "string \<Rightarrow> FakeCanBus" where
  "FakeCanBus_init name = \<lparr>fb_ifname = name, fb_open = False, fb_rx_queue = []\<rparr>"

definition FakeCanBus_open :: "FakeCanBus \<Rightarrow> unit Result \<times> FakeCanBus" where
  "FakeCanBus_open b = (Inr (), b\<lparr>fb_open := True\<rparr>)"

definition FakeCanBus_close :: "FakeCanBus \<Rightarrow> FakeCanBus" where
  "FakeCanBus_close b = b\<lparr>fb_open := False, fb_rx_queue := []\<rparr>"

definition FakeCanBus_send :: "CanFrame \<Rightarrow> FakeCanBus \<Rightarrow> unit Result \<times> FakeCanBus" where
  "FakeCanBus_send frame b =
     (if \<not> fb_open b then (Inl (Error.Error Errc.NotOpen ''FakeCanBus not open''), b)
      else if can_len frame > 8 then (Inl (Error.Error Errc.InvalidArgument ''CAN frame length > 8''), b)
      else (Inr (), b\<lparr>fb_rx_queue := fb_rx_queue b @ [frame]\<rparr>))"

definition FakeCanBus_receive :: "FakeCanBus \<Rightarrow> CanFrame Result \<times> FakeCanBus" where
  "FakeCanBus_receive b =
     (if \<not> fb_open b then (Inl (Error.Error Errc.NotOpen ''FakeCanBus not open''), b)
      else case fb_rx_queue b of
        [] \<Rightarrow> (Inl (Error.Error Errc.Timeout ''FakeCanBus queue empty''), b)
      | frame # rest \<Rightarrow> (Inr frame, b\<lparr>fb_rx_queue := rest\<rparr>))"

definition FakeCanBus_queued :: "FakeCanBus \<Rightarrow> nat" where
  "FakeCanBus_queued b = length (fb_rx_queue b)"

definition FakeCanBus_clear :: "FakeCanBus \<Rightarrow> FakeCanBus" where
  "FakeCanBus_clear b = b\<lparr>fb_rx_queue := []\<rparr>"

section \<open>EpollReactor\<close>

text \<open>
  The reactor is its descriptor and the kernel's interest list of that epoll instance.
  \<^verbatim>\<open>epoll_ctl\<close> refuses to add a registered number, to change or delete an unregistered one and
  a number that is not open.
\<close>

record EpollReactor =
  ep_fd :: int
  ep_interest :: "(int \<times> u32) list"

datatype EpollOp = EpollAdd | EpollMod | EpollDel

definition EpollReactor_new :: "bool \<Rightarrow> Kernel \<Rightarrow> EpollReactor \<times> Kernel" where
  "EpollReactor_new created k =
     (if created then (case sys_alloc k of (fd, k) \<Rightarrow> (\<lparr>ep_fd = fd, ep_interest = []\<rparr>, k))
      else (\<lparr>ep_fd = - 1, ep_interest = []\<rparr>, k))"

definition EpollReactor_destroy :: "EpollReactor \<Rightarrow> Kernel \<Rightarrow> Kernel" where
  "EpollReactor_destroy r k = (if ep_fd r \<ge> 0 then sys_close (ep_fd r) k else k)"

definition EpollReactor_move :: "EpollReactor \<Rightarrow> EpollReactor \<times> EpollReactor" where
  "EpollReactor_move other = (other, \<lparr>ep_fd = - 1, ep_interest = []\<rparr>)"

definition EpollReactor_move_assign :: "EpollReactor \<Rightarrow> EpollReactor \<Rightarrow> Kernel \<Rightarrow> EpollReactor \<times> EpollReactor \<times> Kernel" where
  "EpollReactor_move_assign this other k =
     (other, \<lparr>ep_fd = - 1, ep_interest = []\<rparr>, if ep_fd this \<ge> 0 then sys_close (ep_fd this) k else k)"

definition epoll_ctl :: "EpollOp \<Rightarrow> int \<Rightarrow> u32 \<Rightarrow> Kernel \<Rightarrow> (int \<times> u32) list \<Rightarrow> string + (int \<times> u32) list" where
  "epoll_ctl operation fd events k interest =
     (if fd \<notin> set (k_open k) then Inl ''Bad file descriptor''
      else case operation of
        EpollAdd \<Rightarrow> if fd \<in> fst ` set interest then Inl ''File exists'' else Inr (interest @ [(fd, events)])
      | EpollMod \<Rightarrow> if fd \<in> fst ` set interest
                    then Inr (List.map (\<lambda>(n, e). if n = fd then (n, events) else (n, e)) interest)
                    else Inl ''No such file or directory''
      | EpollDel \<Rightarrow> if fd \<in> fst ` set interest then Inr (filter (\<lambda>(n, e). n \<noteq> fd) interest)
                    else Inl ''No such file or directory'')"

definition EpollReactor_control :: "EpollOp \<Rightarrow> int \<Rightarrow> u32 \<Rightarrow> Kernel \<Rightarrow> EpollReactor \<Rightarrow> unit Result \<times> EpollReactor" where
  "EpollReactor_control operation fd events k r =
     (if \<not> ep_fd r \<ge> 0 then (Inl (Error.Error Errc.NotOpen ''epoll instance is not open''), r)
      else if fd < 0 then (Inl (Error.Error Errc.InvalidArgument ''monitored fd must be non-negative''), r)
      else case epoll_ctl operation fd events k (ep_interest r) of
        Inl e \<Rightarrow> (Inl (make_io_error ''epoll_ctl'' e), r)
      | Inr interest \<Rightarrow> (Inr (), r\<lparr>ep_interest := interest\<rparr>))"

definition EpollReactor_add :: "int \<Rightarrow> u32 \<Rightarrow> Kernel \<Rightarrow> EpollReactor \<Rightarrow> unit Result \<times> EpollReactor" where
  "EpollReactor_add fd events = EpollReactor_control EpollAdd fd events"

definition EpollReactor_modify :: "int \<Rightarrow> u32 \<Rightarrow> Kernel \<Rightarrow> EpollReactor \<Rightarrow> unit Result \<times> EpollReactor" where
  "EpollReactor_modify fd events = EpollReactor_control EpollMod fd events"

definition EpollReactor_remove :: "int \<Rightarrow> Kernel \<Rightarrow> EpollReactor \<Rightarrow> unit Result \<times> EpollReactor" where
  "EpollReactor_remove fd = EpollReactor_control EpollDel fd 0"

text \<open>
  \<open>wait\<close>: the list holds the answers of the successive \<^verbatim>\<open>epoll_wait\<close> calls, an interruption, an error
  or the ready pairs; the kernel reports at most \<open>max_events\<close> of them. The exhausted list
  stands for a time-out.
\<close>

datatype EpollCall = EpollEintr | EpollFails string | EpollReady "(int \<times> u32) list"

fun epoll_wait_loop :: "nat \<Rightarrow> EpollCall list \<Rightarrow> (int \<times> u32) list Result" where
  "epoll_wait_loop max_events [] = Inr []"
| "epoll_wait_loop max_events (EpollEintr # cs) = epoll_wait_loop max_events cs"
| "epoll_wait_loop max_events (EpollFails e # cs) = Inl (make_io_error ''epoll_wait'' e)"
| "epoll_wait_loop max_events (EpollReady ready # cs) = Inr (take max_events ready)"

definition EpollReactor_wait :: "int \<Rightarrow> nat \<Rightarrow> EpollCall list \<Rightarrow> EpollReactor \<Rightarrow> (int \<times> u32) list Result" where
  "EpollReactor_wait timeout_ms max_events calls r =
     (if \<not> ep_fd r \<ge> 0 then Inl (Error.Error Errc.NotOpen ''epoll instance is not open'')
      else if max_events = 0 \<or> max_events > 2147483647
      then Inl (Error.Error Errc.InvalidArgument ''max_events is outside epoll_wait range'')
      else if timeout_ms < - 1 then Inl (Error.Error Errc.InvalidArgument ''epoll timeout must be -1 or non-negative'')
      else if timeout_ms > 2147483647 then Inl (Error.Error Errc.InvalidArgument ''epoll timeout is too large'')
      else epoll_wait_loop max_events calls)"

section \<open>Interface probe\<close>

text \<open>
  The file system is a partial map from path to file content, with \<open>Some None\<close> for a directory. The
  type file is read with \<^verbatim>\<open>operator>>\<close>: blanks, a sign and digits in the range of an \<^verbatim>\<open>int\<close>.
\<close>

type_synonym sysfs = "string \<Rightarrow> string option option"

definition is_alnum :: "char \<Rightarrow> bool" where
  "is_alnum c \<longleftrightarrow> is_digit c \<or> 65 \<le> (of_char c :: nat) \<and> (of_char c :: nat) \<le> 90 \<or> 97 \<le> (of_char c :: nat) \<and> (of_char c :: nat) \<le> 122"

definition is_valid_ifname :: "string \<Rightarrow> bool" where
  "is_valid_ifname name \<longleftrightarrow> name \<noteq> [] \<and> length name \<le> 15 \<and> list_all (\<lambda>c. is_alnum c \<or> c = CHR ''_'') name"

definition net_path :: "string \<Rightarrow> string" where
  "net_path name = ''/sys/class/net/'' @ name"

definition net_interface_exists :: "sysfs \<Rightarrow> string \<Rightarrow> bool" where
  "net_interface_exists fs name \<longleftrightarrow> is_valid_ifname name \<and> fs (net_path name) \<noteq> None"

definition stream_int :: "string \<Rightarrow> int option" where
  "stream_int text =
     (case scan_number text of (negative, ds, used) \<Rightarrow>
        let v = (if negative then - int (digits_value ds) else int (digits_value ds))
        in if ds = [] \<or> v < - (2 ^ 31) \<or> v \<ge> 2 ^ 31 then None else Some v)"

datatype CanInterfaceStatus = Available | Missing | NotCan | InvalidName

definition kArphrdCan :: int where
  "kArphrdCan = 280"

definition probe_can_interface :: "sysfs \<Rightarrow> string \<Rightarrow> CanInterfaceStatus" where
  "probe_can_interface fs name =
     (if \<not> is_valid_ifname name then InvalidName
      else if fs (net_path name) = None then Missing
      else case fs (net_path name @ ''/type'') of
        Some (Some content) \<Rightarrow>
          (case stream_int content of
             None \<Rightarrow> NotCan
           | Some type_value \<Rightarrow> if type_value \<noteq> kArphrdCan then NotCan else Available)
      | _ \<Rightarrow> NotCan)"

definition can_interface_available :: "sysfs \<Rightarrow> string \<Rightarrow> bool" where
  "can_interface_available fs name \<longleftrightarrow> probe_can_interface fs name = Available"

section \<open>Frames across the socket\<close>

lemma copy_payload_length: "length bytes = 8 \<Longrightarrow> n \<le> 8 \<Longrightarrow> length (copy_payload n bytes) = 8"
  by (simp add: copy_payload_def word_le_nat_alt)

lemma copy_payload_idem: "length bytes = 8 \<Longrightarrow> n \<le> 8 \<Longrightarrow> copy_payload n (copy_payload n bytes) = copy_payload n bytes"
  by (simp add: copy_payload_def word_le_nat_alt)

lemma copy_payload_full: "length bytes = 8 \<Longrightarrow> copy_payload 8 bytes = bytes"
  by (simp add: copy_payload_def)

lemma from_kernel_wf: "length (kf_data kf) = 8 \<Longrightarrow> frame_wf (from_kernel_frame kf) \<and> can_len (from_kernel_frame kf) \<le> 8"
  by (auto simp: from_kernel_frame_def frame_wf_def copy_payload_length Let_def)

text \<open>Bytes past the length do not cross: they arrive as zero.\<close>

lemma kernel_frame_round_trip:
  "frame_wf f \<Longrightarrow> can_len f \<le> 8 \<Longrightarrow> from_kernel_frame (to_kernel_frame f) = f\<lparr>can_data := copy_payload (can_len f) (can_data f)\<rparr>"
  by (simp add: from_kernel_frame_def to_kernel_frame_def frame_wf_def copy_payload_idem Let_def linorder_not_less [symmetric])

lemma encoded_len: "encode_message m = Inr f \<Longrightarrow> can_len f = 8"
  by (cases m) (auto simp: encode_heartbeat_def encode_node_status_def encode_output_command_def encode_output_status_def
    make_frame_def validate_node_id_def Let_def split: if_splits)

text \<open>
  C39. A CAN V1 message crosses two CAN sockets unchanged: the frame of any message that the codec accepts is
  taken by an open \<open>SocketCan\<close>, and the kernel frame it hands over, read by another open
  \<open>SocketCan\<close> with or without a time-out, is that frame and decodes to the message.
\<close>

theorem can_transport_exact:
  assumes "encode_message m = Inr f" and "SocketCan_is_open s" and "SocketCan_is_open r"
    and "timeout_ms < 0 \<or> selected = SelectReady"
  shows "\<exists>kf. SocketCan_send (WriteDone 16) f s = (Inr (), Some kf) \<and>
              SocketCan_receive timeout_ms selected (ReadFrame kf) r = Inr f \<and> decode f = Inr m"
proof -
  have l: "can_len f = 8" by (rule encoded_len [OF assms(1)])
  have "frame_wf f" using encode_message_canonical [OF assms(1)] by (simp add: canonical_frame_def)
  with l have "from_kernel_frame (to_kernel_frame f) = f"
    by (simp add: kernel_frame_round_trip copy_payload_full frame_wf_def)
  moreover have "decode f = Inr m" using bus.enc_iff assms(1) by blast
  ultimately show ?thesis using assms l
    by (auto simp: SocketCan_send_def SocketCan_receive_def Let_def)
qed

definition heartbeat_example :: DecodedMessage where
  "heartbeat_example = DHeartbeat \<lparr>hb_node_id = 5, hb_boot_id = 2, hb_session_id = 3, hb_hb_seq = 9\<rparr>"

theorem can_transport_exact_witness:
  "\<exists>f kf. encode_message heartbeat_example = Inr f \<and>
     SocketCan_send (WriteDone 16) f \<lparr>so_ifname = ''can0'', so_fd = 3\<rparr> = (Inr (), Some kf) \<and>
     SocketCan_receive 0 SelectReady (ReadFrame kf) \<lparr>so_ifname = ''can0'', so_fd = 4\<rparr> = Inr f \<and>
     decode f = Inr heartbeat_example"
proof -
  obtain f where f: "encode_message heartbeat_example = Inr f"
    by (simp add: heartbeat_example_def encode_heartbeat_def validate_node_id_def kMaxNodeId_def Let_def)
  then show ?thesis
    using can_transport_exact [OF f, of "\<lparr>so_ifname = ''can0'', so_fd = 3\<rparr>" "\<lparr>so_ifname = ''can0'', so_fd = 4\<rparr>" 0 SelectReady]
    by (auto simp: SocketCan_is_open_def)
qed

lemma receive_honest:
  assumes "SocketCan_receive timeout_ms selected answer s = Inr f"
  obtains kf where "SocketCan_is_open s" "timeout_ms \<ge> 0 \<longrightarrow> selected = SelectReady" "answer = ReadFrame kf" "f = from_kernel_frame kf"
  using assms by (auto simp: SocketCan_receive_def Let_def split: if_splits CanRead.splits CanSelect.splits)

text \<open>
  The I/O loop reads with a negative time-out, so that the empty non-blocking socket is
  reported as \<open>WouldBlock\<close> and ends the batch. With a non-negative time-out the same
  socket is reported as \<open>Timeout\<close>.
\<close>

lemma receive_empty:
  assumes "SocketCan_is_open s"
  shows "timeout_ms < 0 \<Longrightarrow> SocketCan_receive timeout_ms selected ReadAgain s = Inl (Error.Error Errc.WouldBlock ''receive would block'')"
    and "0 \<le> timeout_ms \<Longrightarrow> SocketCan_receive timeout_ms SelectNone answer s = Inl (Error.Error Errc.Timeout ''receive timeout'')"
  using assms by (simp_all add: SocketCan_receive_def)

lemma handle_can_ready_app_blocked:
  "err_code e = Errc.WouldBlock \<Longrightarrow>
   handle_can_ready budget err (rx @ [Inl e]) st = handle_can_ready budget err rx st"
  by (induction budget err rx st rule: handle_can_ready.induct)
     (auto split: sum.splits elim: handle_can_ready.elims)


text \<open>One readiness of the socket in the I/O loop: the frames that wait are handled, and the empty socket stops nothing.\<close>

lemma io_loop_drains_socket:
  assumes "SocketCan_is_open s"
  shows "handle_can_ready budget err (List.map (\<lambda>a. SocketCan_receive (- 1) selected a s) (List.map ReadFrame kfs @ [ReadAgain])) st =
         handle_can_ready budget err (List.map (Inr \<circ> from_kernel_frame) kfs) st"
proof -
  have "List.map (\<lambda>a. SocketCan_receive (- 1) selected a s) (List.map ReadFrame kfs @ [ReadAgain]) =
        List.map (Inr \<circ> from_kernel_frame) kfs @ [Inl (Error.Error Errc.WouldBlock ''receive would block'')]"
    using assms by (simp add: SocketCan_receive_def)
  then show ?thesis by (simp only: handle_can_ready_app_blocked Error.sel)
qed

section \<open>Opening and owning\<close>

lemma alloc_close: "sys_alloc k = (fd, k1) \<Longrightarrow> sys_close fd k1 = k"
  by (auto simp: sys_alloc_def Let_def sys_close_def)

text \<open>\<open>open\<close> leaves object and kernel as they were, or adds one fresh descriptor that the object owns.\<close>

lemma SocketCan_open_result:
  assumes "SocketCan_open outcome s k = (r, s1, k1)"
  shows "(case r of
     Inl e \<Rightarrow> s1 = s \<and> k1 = k
   | Inr _ \<Rightarrow> so_ifname s1 = so_ifname s \<and> SocketCan_is_open s1 \<and>
       (if SocketCan_is_open s then s1 = s \<and> k1 = k else so_fd s1 \<notin> set (k_open k) \<and> k_open k1 = so_fd s1 # k_open k))"
proof -
  obtain fd ka where a: "sys_alloc k = (fd, ka)" by fastforce
  show ?thesis using assms sys_alloc_props [OF a]
    by (cases outcome) (auto simp: SocketCan_open_def SocketCan_is_open_def a alloc_close [OF a] split: if_splits)
qed

text \<open>
  What the handle classes promise: closing gives the descriptor back as an \<open>OwnedFd\<close> does,
  moving takes it from the source, assignment closes the old one first.
\<close>

locale fd_handle =
  fixes fd_of :: "'h \<Rightarrow> int" and close_h :: "'h \<Rightarrow> Kernel \<Rightarrow> 'h \<times> Kernel"
    and move_h :: "'h \<Rightarrow> 'h \<times> 'h" and assign_h :: "'h \<Rightarrow> 'h \<Rightarrow> Kernel \<Rightarrow> 'h \<times> 'h \<times> Kernel"
  assumes close_law: "close_h h k = (h1, k1) \<Longrightarrow>
      fd_of h1 < 0 \<and> k_open k1 = k_open (snd (ofd_reset (fd_of h) k)) \<and> k_stray k1 = k_stray (snd (ofd_reset (fd_of h) k))"
    and move_law: "move_h h = (a, b) \<Longrightarrow> fd_of a = fd_of h \<and> fd_of b < 0"
    and assign_law: "assign_h this other k = (a, b, k1) \<Longrightarrow>
      fd_of a = fd_of other \<and> fd_of b < 0 \<and>
      k_open k1 = k_open (snd (ofd_reset (fd_of this) k)) \<and> k_stray k1 = k_stray (snd (ofd_reset (fd_of this) k))"
begin

lemma close_twice:
  assumes "close_h h k = (h1, k1)" and "close_h h1 k1 = (h2, k2)"
  shows "k_open k2 = k_open k1 \<and> k_stray k2 = k_stray k1"
  using close_law [OF assms(1)] close_law [OF assms(2)] by (simp add: ofd_reset_def)

lemma move_then_close:
  assumes "move_h h = (a, b)" and "close_h b k = (b1, k1)"
  shows "k_open k1 = k_open k \<and> k_stray k1 = k_stray k"
  using move_law [OF assms(1)] close_law [OF assms(2)] by (simp add: ofd_reset_def)

lemma assign_conserves:
  assumes "assign_h this other k = (a, b, k1)"
    and "fd_of this \<in> set (k_open k)" and "fd_of other \<in> set (k_open k)" and "fd_of this \<noteq> fd_of other"
    and "0 \<le> fd_of this" and "distinct (k_open k)"
  shows "fd_of a = fd_of other \<and> fd_of b < 0 \<and> fd_of other \<in> set (k_open k1) \<and>
         set (k_open k1) = set (k_open k) - {fd_of this} \<and> k_stray k1 = k_stray k"
  using assign_law [OF assms(1)] assms(2-) by (auto simp: ofd_reset_def sys_close_def)

text \<open>The three moves of a swap exchange the descriptors and close none.\<close>

lemma swap_conserves:
  assumes "move_h x = (t, x1)" and "assign_h x1 y k = (x2, y1, k1)" and "assign_h y1 t k1 = (y2, t1, k2)"
    and "close_h t1 k2 = (t2, k3)"
  shows "fd_of x2 = fd_of y \<and> fd_of y2 = fd_of x \<and> k_open k3 = k_open k \<and> k_stray k3 = k_stray k"
  using move_law [OF assms(1)] assign_law [OF assms(2)] assign_law [OF assms(3)] close_law [OF assms(4)]
  by (simp add: ofd_reset_def)

end

interpretation owned: fd_handle "\<lambda>fd. fd" ofd_reset ofd_move ofd_move_assign
  by unfold_locales (auto simp: ofd_reset_def ofd_move_def ofd_move_assign_def split: prod.splits if_splits)

interpretation sock: fd_handle so_fd SocketCan_close SocketCan_move SocketCan_move_assign
  by unfold_locales
     (auto simp: SocketCan_close_def SocketCan_move_def SocketCan_move_assign_def ofd_reset_def split: prod.splits if_splits)

interpretation epoll: fd_handle ep_fd "\<lambda>r k. (snd (EpollReactor_move r), EpollReactor_destroy r k)"
    EpollReactor_move EpollReactor_move_assign
  by unfold_locales
     (auto simp: EpollReactor_move_def EpollReactor_destroy_def EpollReactor_move_assign_def ofd_reset_def split: if_splits)

interpretation sigfd: fd_handle sg_fd "SignalFd_reset t" SignalFd_move "SignalFd_move_assign t" for t
  by unfold_locales
     (auto simp: SignalFd_reset_def SignalFd_move_def SignalFd_move_assign_def ofd_reset_def ofd_move_def ofd_move_assign_def
       split: prod.splits if_splits)

section \<open>The contract of ICanBus\<close>

text \<open>A caller of a bus: a sequence of sends and receives, with what the environment answers to each. The result lists the received frames.\<close>

datatype ('e, 'r) BusOp = BusSend 'e CanFrame | BusReceive 'r

fun bus_run :: "('e \<Rightarrow> CanFrame \<Rightarrow> 'b \<Rightarrow> unit Result \<times> 'b) \<Rightarrow> ('r \<Rightarrow> 'b \<Rightarrow> CanFrame Result \<times> 'b) \<Rightarrow>
    ('e, 'r) BusOp list \<Rightarrow> 'b \<Rightarrow> CanFrame list \<times> 'b" where
  "bus_run send_op recv_op [] b = ([], b)"
| "bus_run send_op recv_op (BusSend e f # ops) b = bus_run send_op recv_op ops (snd (send_op e f b))"
| "bus_run send_op recv_op (BusReceive r # ops) b =
     (case recv_op r b of (res, b1) \<Rightarrow>
      case bus_run send_op recv_op ops b1 of (fs, b2) \<Rightarrow>
        (case res of Inr f \<Rightarrow> f # fs | Inl _ \<Rightarrow> fs, b2))"

locale can_bus =
  fixes opened :: "'b \<Rightarrow> bool" and good :: "'b \<Rightarrow> bool"
    and send_op :: "'e \<Rightarrow> CanFrame \<Rightarrow> 'b \<Rightarrow> unit Result \<times> 'b"
    and recv_op :: "'r \<Rightarrow> 'b \<Rightarrow> CanFrame Result \<times> 'b"
  assumes send_closed: "\<not> opened b \<Longrightarrow> \<exists>t. send_op e f b = (Inl (Error.Error Errc.NotOpen t), b)"
    and send_long: "opened b \<Longrightarrow> can_len f > 8 \<Longrightarrow> \<exists>t. send_op e f b = (Inl (Error.Error Errc.InvalidArgument t), b)"
    and recv_closed: "\<not> opened b \<Longrightarrow> \<exists>t. recv_op r b = (Inl (Error.Error Errc.NotOpen t), b)"
    and recv_len: "good b \<Longrightarrow> recv_op r b = (Inr f, b1) \<Longrightarrow> can_len f \<le> 8"
    and send_good: "good b \<Longrightarrow> good (snd (send_op e f b))"
    and recv_good: "good b \<Longrightarrow> good (snd (recv_op r b))"
begin

lemma run_classic: "good b \<Longrightarrow> bus_run send_op recv_op ops b = (fs, b1) \<Longrightarrow> \<forall>f \<in> set fs. can_len f \<le> 8"
proof (induction ops arbitrary: b fs)
  case (Cons p ops)
  show ?case
  proof (cases p)
    case (BusSend e f)
    with Cons.prems Cons.IH [OF send_good [OF Cons.prems(1)]] show ?thesis by simp
  next
    case (BusReceive r)
    obtain res b2 where r: "recv_op r b = (res, b2)" by fastforce
    obtain gs where g: "bus_run send_op recv_op ops b2 = (gs, b1)" "fs = (case res of Inr f \<Rightarrow> f # gs | Inl _ \<Rightarrow> gs)"
      using Cons.prems(2) BusReceive r by (auto split: prod.splits)
    have "good b2" using recv_good [OF Cons.prems(1), of r] r by simp
    from Cons.IH [OF this g(1)] show ?thesis
      using recv_len [OF Cons.prems(1)] r g(2) by (cases res) auto
  qed
qed simp

lemma run_closed: "\<not> opened b \<Longrightarrow> bus_run send_op recv_op ops b = ([], b)"
proof (induction ops)
  case (Cons p ops)
  show ?case
  proof (cases p)
    case (BusSend e f)
    with Cons send_closed [OF Cons.prems, of e f] show ?thesis by auto
  next
    case (BusReceive r)
    with Cons recv_closed [OF Cons.prems, of r] show ?thesis by auto
  qed
qed simp

end

definition fake_good :: "FakeCanBus \<Rightarrow> bool" where
  "fake_good b \<longleftrightarrow> list_all (\<lambda>f. can_len f \<le> 8) (fb_rx_queue b)"

interpretation fake: can_bus fb_open fake_good "\<lambda>_ :: unit. FakeCanBus_send" "\<lambda>_ :: unit. FakeCanBus_receive"
  by unfold_locales
     (auto simp: FakeCanBus_send_def FakeCanBus_receive_def fake_good_def not_less split: list.splits if_splits)

interpretation scan: can_bus SocketCan_is_open "\<lambda>_. True" "\<lambda>answer f s. (fst (SocketCan_send answer f s), s)"
    "\<lambda>(timeout_ms, selected, answer) s. (SocketCan_receive timeout_ms selected answer s, s)"
proof unfold_locales
  fix b r f b1
  assume "(case r of (timeout_ms, selected, answer) \<Rightarrow> \<lambda>s. (SocketCan_receive timeout_ms selected answer s, s)) b = (Inr f, b1)"
  then show "can_len f \<le> 8"
    by (auto split: prod.splits elim!: receive_honest simp: from_kernel_frame_def Let_def)
qed (auto simp: SocketCan_send_def SocketCan_receive_def split: prod.splits)

text \<open>The fake bus is a queue: what is sent while it is open is received in order, up to a clear or close.\<close>

lemma fake_drain:
  "fb_open b \<Longrightarrow> fb_rx_queue b = q \<Longrightarrow>
   fst (bus_run (\<lambda>_ :: unit. FakeCanBus_send) (\<lambda>_ :: unit. FakeCanBus_receive) (replicate (length q) (BusReceive ())) b) = q"
proof (induction q arbitrary: b)
  case (Cons f q)
  then have "FakeCanBus_receive b = (Inr f, b\<lparr>fb_rx_queue := q\<rparr>)" by (simp add: FakeCanBus_receive_def)
  with Cons.IH [of "b\<lparr>fb_rx_queue := q\<rparr>"] Cons.prems show ?case by (simp add: case_prod_unfold)
qed simp

lemma fake_fifo:
  "fb_open b \<Longrightarrow> list_all (\<lambda>f. can_len f \<le> 8) fs \<Longrightarrow>
   fst (bus_run (\<lambda>_ :: unit. FakeCanBus_send) (\<lambda>_ :: unit. FakeCanBus_receive)
     (List.map (BusSend ()) fs @ replicate (length (fb_rx_queue b) + length fs) (BusReceive ())) b) = fb_rx_queue b @ fs"
proof (induction fs arbitrary: b)
  case Nil
  then show ?case by (simp add: fake_drain)
next
  case (Cons f fs)
  then have "FakeCanBus_send f b = (Inr (), b\<lparr>fb_rx_queue := fb_rx_queue b @ [f]\<rparr>)" by (simp add: FakeCanBus_send_def not_less)
  then show ?case using Cons.IH [of "b\<lparr>fb_rx_queue := fb_rx_queue b @ [f]\<rparr>"] Cons.prems by simp
qed

section \<open>The interest list\<close>

definition ep_inv :: "EpollReactor \<Rightarrow> bool" where
  "ep_inv r \<longleftrightarrow> distinct (List.map fst (ep_interest r)) \<and> list_all (\<lambda>(fd, e). fd \<ge> 0) (ep_interest r)"

lemma ep_inv_fst: "ep_inv r \<longleftrightarrow> distinct (List.map fst (ep_interest r)) \<and> list_all (\<lambda>fd. fd \<ge> 0) (List.map fst (ep_interest r))"
  by (simp add: ep_inv_def list_all_iff split_def)

text \<open>What the kernel list says of a number after each change, and its numbers.\<close>

lemma interest_modify:
  "List.map fst (List.map (\<lambda>(n, e). if n = fd then (n, events) else (n, e)) xs) = List.map fst xs"
  "map_of (List.map (\<lambda>(n, e). if n = fd then (n, events) else (n, e)) xs) m =
     (if m = fd then map_option (\<lambda>_. events) (map_of xs m) else map_of xs m)"
  by (induction xs) auto

lemma interest_remove:
  "List.map fst (filter (\<lambda>(n, e). n \<noteq> fd) xs) = filter (\<lambda>n. n \<noteq> fd) (List.map fst xs)"
  "map_of (filter (\<lambda>(n, e). n \<noteq> fd) xs) m = (if m = fd then None else map_of xs m)"
  by (induction xs) auto

text \<open>After a successful change the list says what was asked; a refused one changes nothing.\<close>

lemma epoll_ctl_inv:
  assumes "epoll_ctl operation fd events k xs = Inr ys" and "distinct (List.map fst xs)"
    and "list_all (\<lambda>n. n \<ge> 0) (List.map fst xs)" and "0 \<le> fd"
  shows "distinct (List.map fst ys) \<and> list_all (\<lambda>n. n \<ge> 0) (List.map fst ys)"
proof (cases operation)
  case EpollAdd
  with assms show ?thesis by (auto simp: epoll_ctl_def split: if_splits)
next
  case EpollMod
  with assms have "ys = List.map (\<lambda>(n, e). if n = fd then (n, events) else (n, e)) xs" by (auto simp: epoll_ctl_def split: if_splits)
  with assms interest_modify(1) [of fd events xs] show ?thesis by (simp only:)
next
  case EpollDel
  with assms have "ys = filter (\<lambda>(n, e). n \<noteq> fd) xs" by (auto simp: epoll_ctl_def split: if_splits)
  with assms interest_remove(1) [of fd xs] show ?thesis by (auto simp: list_all_iff)
qed

lemma epoll_control_inv: "ep_inv r \<Longrightarrow> ep_inv (snd (EpollReactor_control operation fd events k r))"
  using epoll_ctl_inv [of operation fd events k "ep_interest r"]
  by (auto simp: EpollReactor_control_def ep_inv_fst split: sum.splits)

lemma epoll_ctl_result:
  assumes "epoll_ctl operation fd events k xs = Inr ys"
  shows "fd \<in> set (k_open k) \<and> map_of ys m = (if m = fd then (if operation = EpollDel then None else Some events) else map_of xs m)"
proof (cases operation)
  case EpollAdd
  with assms have "ys = xs @ [(fd, events)]" "map_of xs fd = None" "fd \<in> set (k_open k)"
    by (auto simp: epoll_ctl_def map_of_eq_None_iff split: if_splits)
  with EpollAdd show ?thesis by (simp add: map_add_def split: option.splits)
next
  case EpollMod
  with assms have "ys = List.map (\<lambda>(n, e). if n = fd then (n, events) else (n, e)) xs" "fd \<in> fst ` set xs" "fd \<in> set (k_open k)"
    by (auto simp: epoll_ctl_def split: if_splits)
  moreover from this(2) obtain e where "map_of xs fd = Some e" by (metis map_of_eq_None_iff not_None_eq)
  ultimately show ?thesis using EpollMod by (simp add: interest_modify(2))
next
  case EpollDel
  with assms show ?thesis by (auto simp: epoll_ctl_def interest_remove(2) split: if_splits)
qed

lemma epoll_control_result:
  assumes "EpollReactor_control operation fd events k r = (res, r1)"
  shows "(case res of
     Inl _ \<Rightarrow> r1 = r
   | Inr _ \<Rightarrow> fd \<in> set (k_open k) \<and> map_of (ep_interest r1) m =
       (if m = fd then (if operation = EpollDel then None else Some events) else map_of (ep_interest r) m))"
  using assms epoll_ctl_result [of operation fd events k "ep_interest r" _ m]
  by (auto simp: EpollReactor_control_def split: sum.splits if_splits)

lemma epoll_add_remove:
  assumes "EpollReactor_add fd events k r = (Inr u, r1)" and "EpollReactor_remove fd k r1 = (res, r2)"
  shows "is_ok res \<and> ep_interest r2 = ep_interest r"
  using assms
  by (force simp: EpollReactor_add_def EpollReactor_remove_def EpollReactor_control_def epoll_ctl_def filter_id_conv
    split: sum.splits if_splits)

lemma epoll_wait_bounded:
  "EpollReactor_wait timeout_ms max_events calls r = Inr ready \<Longrightarrow> length ready \<le> max_events \<and> 0 < max_events \<and> - 1 \<le> timeout_ms"
proof -
  have "epoll_wait_loop max_events calls = Inr ready \<Longrightarrow> length ready \<le> max_events"
    by (induction max_events calls rule: epoll_wait_loop.induct) auto
  then show "EpollReactor_wait timeout_ms max_events calls r = Inr ready \<Longrightarrow> length ready \<le> max_events \<and> 0 < max_events \<and> - 1 \<le> timeout_ms"
    by (auto simp: EpollReactor_wait_def split: if_splits)
qed

section \<open>The probe stays in its directory\<close>

lemma valid_ifname_plain: "is_valid_ifname name \<Longrightarrow> CHR ''/'' \<notin> set name \<and> CHR ''.'' \<notin> set name"
  by (auto simp: is_valid_ifname_def list_all_iff is_alnum_def is_digit_def)

lemma probe_confined:
  assumes "fs (net_path name) = fs' (net_path name)" and "fs (net_path name @ ''/type'') = fs' (net_path name @ ''/type'')"
  shows "probe_can_interface fs name = probe_can_interface fs' name"
  using assms by (simp add: probe_can_interface_def)

lemma probe_available:
  "can_interface_available fs name \<longleftrightarrow> is_valid_ifname name \<and> fs (net_path name) \<noteq> None \<and>
     (\<exists>content. fs (net_path name @ ''/type'') = Some (Some content) \<and> stream_int content = Some 280)"
  by (auto simp: can_interface_available_def probe_can_interface_def kArphrdCan_def split: option.splits)

lemma available_exists: "can_interface_available fs name \<Longrightarrow> net_interface_exists fs name"
  by (simp add: probe_available net_interface_exists_def)

lemma probe_rejects_paths: "CHR ''/'' \<in> set name \<or> CHR ''.'' \<in> set name \<Longrightarrow> probe_can_interface fs name = InvalidName"
  using valid_ifname_plain by (auto simp: probe_can_interface_def)

end
