(* ===== verification/Spec2Isabelle.thy ===== *)
theory Spec2Isabelle
  imports Round_Trip Remote_Client Cell_Edge Multibus Node_Sim_App Can_Health Socket_Can
begin

text \<open>
  Verification development of the robot edge runtime.

  \<^bold>\<open>The program.\<close> A Linux process (\<^verbatim>\<open>linux/\<close>) supervises one output node over a CAN bus: a
  periodic worker ticks a runtime object, an I/O thread exchanges CAN frames with the
  node, and a daemon object owns both. The node is the firmware of a
  microcontroller (\<^verbatim>\<open>firmware/stm32f103/\<close>) or a simulated one (\<^verbatim>\<open>linux/src/sim\<close>). An application layer
  (\<^verbatim>\<open>linux/src/workbench\<close>) makes the daemon available to engineering stations over TCP, owns
  a Modbus RTU line, and couples the two in an edge application. Experiments
  (\<^verbatim>\<open>experiments/\<close>) add a Modbus TCP library and an observer of both buses. Every path to a physical output goes
  through explicit activation, a bound session, increasing sequence numbers and a bounded
  validity; most properties below are about that path.

  \<^bold>\<open>Reading the model.\<close> A struct or class is a \<^verbatim>\<open>record\<close> whose fields have a prefix of
  their own (\<open>rt_\<close> for \<^verbatim>\<open>LinuxRuntime\<close>, \<open>d_\<close> for \<^verbatim>\<open>RuntimeDaemon\<close>, \<open>nl_\<close> for \<^verbatim>\<open>CanNodeLogic\<close>,
  and so on); an \<^verbatim>\<open>enum class\<close> is a \<^verbatim>\<open>datatype\<close> with the same enumerators, used qualified. Unsigned
  integers are words of their width, so additions wrap; signed 64-bit nanosecond
  stamps are \<open>int\<close> (an overflow would take centuries). \<^verbatim>\<open>Result<T>\<close> is \<open>Error + 'a\<close>. An operation
  of an object takes and returns its state; an operation that holds a mutex for its
  whole body is one step, and concurrency is the interleaving of such steps. What is
  outside the program is an input: clock readings, the results of system calls, the bytes
  a socket gives, the reads of a hardware status register. It comes as a list or a record
  (a script) that the operation consumes, and the theorems hold for every script.

  \<^bold>\<open>Foundations.\<close>
  \<^item> \<open>Rcr_Prelude\<close>: words, \<^verbatim>\<open>Errc\<close>, \<^verbatim>\<open>Error\<close>, \<^verbatim>\<open>Result\<close>; the interfaces \<open>wire_codec\<close>,
    \<open>strict_codec\<close> (an encoder and a decoder that accepts only its image) and \<open>machine\<close> (a step
    function with an invariant; runs keep it).
  \<^item> \<open>Core_Types\<close>: \<^verbatim>\<open>types.hpp\<close>. \<open>Can_V1\<close>: \<^verbatim>\<open>can_v1.hpp/.cpp\<close>, the strict codec of the four
    messages, the circular sequence order, deadline and validity.

  \<^bold>\<open>Runtime core.\<close>
  \<^item> \<open>State_Machine\<close>, \<open>Mailbox\<close>, \<open>Watchdog\<close>, \<open>Trace_Buffer\<close>: the classes of the same name in
    \<^verbatim>\<open>linux/src/core\<close>, each with its invariant.
  \<^item> \<open>Scheduler\<close>: \<^verbatim>\<open>scheduler.cpp\<close> and \<^verbatim>\<open>time.cpp\<close>; start handshake, absolute-time periods.
  \<^item> \<open>Runtime\<close>: every public operation of \<^verbatim>\<open>linux_runtime.cpp\<close> and the tick.
    \<open>Runtime_Proofs\<close> has the invariant over all orders of calls and the interface \<open>supervision_hook\<close>
    of the tick; \<open>Runtime_Safety\<close> the abstract output path the runtime refines, the admission
    rule, the output gate and the absence of replays.
  \<^item> \<open>Input_Queue\<close>: \<^verbatim>\<open>bounded_input_queue.cpp\<close> as an instance of \<open>event_queue\<close>.
  \<^item> \<open>Supervisor\<close>, \<open>Supervisor_Proofs\<close>: \<^verbatim>\<open>node_supervisor.cpp\<close>; it provides the hook, detects
    communication loss, restarts and lost events, and only ever closes outputs.
  \<^item> \<open>Can_Io\<close>, \<open>Can_Io_Proofs\<close>: \<^verbatim>\<open>can_io_loop.cpp\<close>; what a sent frame carries and when it may be sent.
  \<^item> \<open>Daemon\<close>, \<open>Daemon_Proofs\<close>: \<^verbatim>\<open>runtime_daemon.cpp\<close>; start and rollback, recovery gate, exit
    code, and the origin of every frame on the bus.
  \<^item> \<open>Linux_Fd\<close>: \<^verbatim>\<open>owned_fd.cpp\<close>; programs over descriptor owners as a step relation on a table that
    reuses numbers, stop event, signal mask.
  \<^item> \<open>Socket_Can\<close>: \<^verbatim>\<open>socketcan.cpp\<close>, \<^verbatim>\<open>epoll_reactor.cpp\<close>, \<^verbatim>\<open>vcan.cpp\<close>. The interface \<open>fd_handle\<close> is interpreted
    on the four handle classes, \<open>can_bus\<close> on the raw socket and the fake bus; frames
    cross the socket unchanged, and its answers are what the I/O loop consumes.
  \<^item> \<open>Cli_Text\<close>: the number parsers of the command lines. \<open>Daemon_App\<close>: \<^verbatim>\<open>rcrd.cpp\<close>.

  \<^bold>\<open>Nodes.\<close>
  \<^item> \<open>Node_Contract\<close>: the interface \<open>output_node\<close>. \<open>Node_Sim\<close> (\<^verbatim>\<open>node_sim.cpp\<close>) and \<open>Mcu_Node\<close>
    (\<^verbatim>\<open>node.c\<close>) provide it, and are shown equivalent on the bus. \<open>Node_Sim_App\<close>
    (\<^verbatim>\<open>rcr_node_sim.cpp\<close>) is the simulator's event loop; its timer ends every lease in time.
  \<^item> \<open>Mcu_Can\<close> (\<^verbatim>\<open>can_v1.c\<close>, shown to agree with \<open>Can_V1\<close>), \<open>Mcu_Io\<close> (\<^verbatim>\<open>input_debounce.c\<close>,
    \<^verbatim>\<open>servo_pwm.c\<close>), \<open>Mcu_Platform\<close> and \<open>Mcu_Session\<close> (\<^verbatim>\<open>platform_stm32f103.c\<close>), \<open>Mcu_Main\<close>
    (\<^verbatim>\<open>main.c\<close>): the firmware down to its registers.
  \<^item> \<open>Round_Trip\<close>: pump, bus, node, receive path and supervision composed; the interface \<open>bus_node\<close>
    is interpreted on both nodes.

  \<^bold>\<open>Application layer.\<close>
  \<^item> \<open>Wire_Bytes\<close>: little-endian fields and the CRC-16 with its burst-error lemma. \<open>Frame_Stream\<close>: the
    interface of a stream framer, interpreted for all four stream protocols; it carries every
    theorem about fragmentation. \<open>Sock_Io\<close>: the send, receive, connect and listen loops.
  \<^item> \<open>App_Model\<close> (\<^verbatim>\<open>application_model.hpp\<close>) and \<open>App_Adapter\<close> (\<^verbatim>\<open>runtime_application_adapter.cpp\<close>).
  \<^item> \<open>Remote_Frame\<close>, \<open>Remote_Control\<close>, \<open>Remote_Client\<close>: \<^verbatim>\<open>remote_frame.cpp\<close>,
    \<^verbatim>\<open>remote_control_protocol.cpp\<close>, \<^verbatim>\<open>remote_runtime_client.cpp\<close>.
  \<^item> \<open>Modbus_Rtu\<close> (\<^verbatim>\<open>modbus_rtu.cpp\<close>), \<open>Serial_Port\<close> (\<^verbatim>\<open>posix_serial_port.cpp\<close>), \<open>Modbus_Io\<close>
    (\<^verbatim>\<open>mock_modbus_io_profile.cpp\<close>), \<open>Modbus_Physical\<close> (\<^verbatim>\<open>physical_modbus_io_service.cpp\<close>) and
    \<open>Modbus_Agent\<close> (\<^verbatim>\<open>modbus_agent_protocol.cpp\<close>, \<^verbatim>\<open>modbus_agent_server.cpp\<close>,
    \<^verbatim>\<open>modbus_agent_client.cpp\<close>): from the wire to the engineering side; a confirmed output is the
    state of the coil.
  \<^item> \<open>Cell_App\<close> (\<^verbatim>\<open>cell_app_protocol.cpp\<close>, \<^verbatim>\<open>cell_app_server.cpp\<close>, \<^verbatim>\<open>cell_app_client.cpp\<close>) and
    \<open>Cell_Edge\<close> (\<^verbatim>\<open>cell_ready_mapper.cpp\<close>, \<^verbatim>\<open>rcr_cell_app.cpp\<close>): the edge application, in which the
    daemon, the station protocol and the Modbus agent meet.
  \<^item> \<open>Test_Runner\<close> (\<^verbatim>\<open>test_runner.cpp\<close>) with the interface \<open>test_case\<close> of its stages, and
    \<open>Can_Health\<close> (\<^verbatim>\<open>can_health_test.cpp\<close>), which provides it: a pass is earned, a failure stays.

  \<^bold>\<open>Experiments.\<close>
  \<^item> \<open>Mbus_Tcp\<close>: \<^verbatim>\<open>experiments/modbus_tcp\<close>, client against server.
  \<^item> \<open>Multibus\<close>: \<^verbatim>\<open>experiments/multibus_observer\<close>; a store fed by a CAN and a Modbus worker, and the
    sensor server, composed from register to snapshot.

  \<^bold>\<open>Bounds and fuel.\<close> No theorem depends on fuel. A loop over system calls recurses over its
  script; the end of a script stands for a named outcome (a failing clock, an expired
  deadline, a closed connection) that the theory's introduction states. The loops of the
  stream parsers recurse on the buffer and have termination proofs; the polling loops
  of the firmware set-up keep the bounds of the source.

  \<^bold>\<open>Not modelled.\<close> Log output and the texts of usage messages. Memory ordering of the atomics:
  operations under a lock are atomic steps. The percentile helper and the mock
  actuator, which compute in floating point. The result writer (\<^verbatim>\<open>result_writer.cpp\<close>), whose content is
  the layout of JSON and Markdown files. The start of the Modbus agent process
  (\<^verbatim>\<open>rcr_modbus_rtu_agent.cpp\<close>) and the demonstration programs of the Modbus TCP library, which only parse
  arguments and call modelled parts. The arbitration probe of the firmware. The acceptance, fault-matrix and benchmark
  programs and the tests, which drive a live system. The Qt user interface. The parts are listed
  with their reason in the manifest of the development.
\<close>

end
